(* ===== verification/Prelude.thy ===== *)
theory Prelude
  imports Complex_Main
begin

text \<open>
  Shared vocabulary of the development.

  \<^item> Decimals.  The engine computes with \<open>rust_decimal::Decimal\<close>; a value is taken as the
    rational number it denotes (type \<open>decimal\<close>).  Addition, subtraction, multiplication,
    comparison, \<open>min\<close>, \<open>max\<close>, \<open>floor\<close>, \<open>ceil\<close> and truncation to a number of decimal places
    are exact on that reading; division, parsing and printing are not part of the
    repository and appear as parameters (see the theory Schema).
  \<^item> Actions.  A function that works on the database and may fail is a value of type
    \<open>('s, 'e, 'a) act\<close>: it takes the state and returns a result or an error together with
    the state it leaves behind.  \<open>and_then\<close> is Rust's \<open>?\<close>-sequencing, \<open>transaction\<close> is a
    SQLite transaction that is rolled back on every error.
  \<^item> Tables.  A table is the list of its rows in id order; \<open>sql_update\<close>, \<open>sql_insert\<close> and
    \<open>find_row\<close> are \<open>UPDATE ... WHERE\<close> (returning \<open>rows_affected\<close>), \<open>INSERT\<close> and
    \<open>SELECT ... fetch_optional\<close>.  The locale \<open>table\<close> states what a table's accessors promise
    and proves the frame lemmas every component uses; the theory Schema interprets it for
    every table of the schema.
\<close>

named_theorems act_simps \<open>unfolding rules of the action combinators\<close>
named_theorems row_simps \<open>unfolding rules of the table primitives\<close>

type_synonym decimal = rat
type_synonym timestamp = int \<comment> \<open>milliseconds since the epoch\<close>
type_synonym ('s, 'e, 'a) act = "'s \<Rightarrow> ('e + 'a) \<times> 's"

section \<open>Actions\<close>

definition ret :: "'a \<Rightarrow> ('s, 'e, 'a) act" where
  [act_simps]: "ret x = (\<lambda>s. (Inr x, s))"

definition raise :: "'e \<Rightarrow> ('s, 'e, 'a) act" where
  [act_simps]: "raise e = (\<lambda>s. (Inl e, s))"

definition and_then :: "('s, 'e, 'a) act \<Rightarrow> ('a \<Rightarrow> ('s, 'e, 'b) act) \<Rightarrow> ('s, 'e, 'b) act" where
  [act_simps]: "and_then m f =
     (\<lambda>s. case m s of (Inl e, s') \<Rightarrow> (Inl e, s') | (Inr x, s') \<Rightarrow> f x s')"

definition reads :: "('s \<Rightarrow> 'a) \<Rightarrow> ('s, 'e, 'a) act" where
  [act_simps]: "reads f = (\<lambda>s. (Inr (f s), s))"

definition modifies :: "('s \<Rightarrow> 's) \<Rightarrow> ('s, 'e, unit) act" where
  [act_simps]: "modifies f = (\<lambda>s. (Inr (), f s))"

definition lift_result :: "'e + 'a \<Rightarrow> ('s, 'e, 'a) act" where
  [act_simps]: "lift_result r = (\<lambda>s. (r, s))"

definition or_raise :: "'e \<Rightarrow> 'a option \<Rightarrow> ('s, 'e, 'a) act" where
  [act_simps]: "or_raise e x = (\<lambda>s. (case x of None \<Rightarrow> Inl e | Some v \<Rightarrow> Inr v, s))"

definition assert_that :: "bool \<Rightarrow> 'e \<Rightarrow> ('s, 'e, unit) act" where
  [act_simps]: "assert_that b e = (\<lambda>s. (if b then Inr () else Inl e, s))"

definition map_error :: "('e \<Rightarrow> 'f) \<Rightarrow> ('s, 'e, 'a) act \<Rightarrow> ('s, 'f, 'a) act" where
  [act_simps]: "map_error g m =
     (\<lambda>s. case m s of (Inl e, s') \<Rightarrow> (Inl (g e), s') | (Inr x, s') \<Rightarrow> (Inr x, s'))"

text \<open>
  A function body with early returns: \<open>Inl o\<close> is \<open>return Ok(o)\<close>, \<open>Inr a\<close> carries on with \<open>a\<close>.
\<close>

definition or_return ::
  "('s, 'e, 'o + 'a) act \<Rightarrow> ('a \<Rightarrow> ('s, 'e, 'o + 'b) act) \<Rightarrow> ('s, 'e, 'o + 'b) act" where
  [act_simps]: "or_return m f =
     and_then m (\<lambda>r. case r of Inl out \<Rightarrow> ret (Inl out) | Inr a \<Rightarrow> f a)"

text \<open>\<open>pool.begin() ... commit\<close>: an error leaves the state as it was before the transaction.\<close>

definition transaction :: "('s, 'e, 'a) act \<Rightarrow> ('s, 'e, 'a) act" where
  "transaction m = (\<lambda>s. case m s of (Inl e, _) \<Rightarrow> (Inl e, s) | (Inr x, s') \<Rightarrow> (Inr x, s'))"

text \<open>
  A transaction whose body may also return early without committing: \<open>Inl v\<close> as its error is
  \<open>return Ok(v)\<close> before \<open>commit\<close>, so the state is rolled back.
\<close>

definition transaction_out :: "('s, 'a + 'e, 'a) act \<Rightarrow> ('s, 'e, 'a) act" where
  "transaction_out m = (\<lambda>s. case transaction m s of
       (Inl (Inl v), s') \<Rightarrow> (Inr v, s')
     | (Inl (Inr e), s') \<Rightarrow> (Inl e, s')
     | (Inr x, s') \<Rightarrow> (Inr x, s'))"

text \<open>\<open>match m { Ok(v) => ok(v), Err(fatal) => return Err(fatal), Err(e) => on_error(e) }\<close>\<close>

definition handle ::
  "('e \<Rightarrow> bool) \<Rightarrow> ('s, 'e, 'a) act \<Rightarrow> ('e \<Rightarrow> ('s, 'e, 'b) act) \<Rightarrow> ('a \<Rightarrow> ('s, 'e, 'b) act) \<Rightarrow> ('s, 'e, 'b) act" where
  "handle fatal m on_error ok = (\<lambda>s. case m s of
       (Inr v, s') \<Rightarrow> ok v s'
     | (Inl e, s') \<Rightarrow> if fatal e then (Inl e, s') else on_error e s')"

lemma transaction_out_ok:
  "transaction_out m s = (Inr v, s') \<longleftrightarrow> (s' = s \<and> (\<exists>s1. m s = (Inl (Inl v), s1))) \<or> m s = (Inr v, s')"
  by (auto simp: transaction_out_def transaction_def split: prod.splits sum.splits)

lemma transaction_out_error: "transaction_out m s = (Inl e, s') \<Longrightarrow> s' = s"
  by (auto simp: transaction_out_def transaction_def split: prod.splits sum.splits)

lemma transaction_error: "transaction m s = (Inl e, s') \<Longrightarrow> s' = s"
  by (auto simp: transaction_def split: prod.splits sum.splits)

lemma transaction_ok: "transaction m s = (Inr x, s') \<longleftrightarrow> m s = (Inr x, s')"
  by (auto simp: transaction_def split: prod.splits sum.splits)

lemma transaction_fst: "fst (transaction m s) = fst (m s)"
  by (auto simp: transaction_def split: prod.splits sum.splits)

lemma transaction_atomic:
  assumes "transaction m s = (r, s')"
  shows "s' = s \<or> (\<exists>x. r = Inr x \<and> m s = (Inr x, s'))"
  using assms by (auto simp: transaction_def split: prod.splits sum.splits)

lemma and_then_ok:
  "and_then m f s = (Inr y, s'') \<longleftrightarrow> (\<exists>x s'. m s = (Inr x, s') \<and> f x s' = (Inr y, s''))"
  by (auto simp: and_then_def split: prod.splits sum.splits)

lemma or_raise_ok: "or_raise e x s = (Inr v, s') \<longleftrightarrow> x = Some v \<and> s' = s"
  by (auto simp: or_raise_def split: option.splits)

lemma assert_that_ok: "assert_that b e s = (Inr u, s') \<longleftrightarrow> b \<and> s' = s"
  by (auto simp: assert_that_def)

lemma reads_ok: "reads f s = (Inr v, s') \<longleftrightarrow> v = f s \<and> s' = s"
  by (auto simp: reads_def)

lemma ret_ok: "ret x s = (Inr v, s') \<longleftrightarrow> v = x \<and> s' = s"
  by (auto simp: ret_def)

lemma raise_ok: "\<not> raise e s = (Inr v, s')"
  by (simp add: raise_def)

lemma modifies_ok: "modifies f s = (Inr u, s') \<longleftrightarrow> s' = f s"
  by (auto simp: modifies_def)

lemma lift_result_ok: "lift_result r s = (Inr v, s') \<longleftrightarrow> r = Inr v \<and> s' = s"
  by (auto simp: lift_result_def)

lemma map_error_ok: "map_error g m s = (Inr v, s') \<longleftrightarrow> m s = (Inr v, s')"
  by (auto simp: map_error_def split: prod.splits sum.splits)

text \<open>A body with early returns that carries on to the end did so in both of its halves.\<close>

lemma or_return_ok:
  "or_return m f s = (Inr (Inr y), s'') \<longleftrightarrow> (\<exists>x s'. m s = (Inr (Inr x), s') \<and> f x s' = (Inr (Inr y), s''))"
  by (auto simp: or_return_def and_then_def ret_def split: prod.splits sum.splits)

lemmas act_ok = and_then_ok or_raise_ok assert_that_ok reads_ok ret_ok raise_ok modifies_ok
  lift_result_ok map_error_ok transaction_ok

section \<open>Rows and tables\<close>

definition update_rows :: "('r \<Rightarrow> bool) \<Rightarrow> ('r \<Rightarrow> 'r) \<Rightarrow> 'r list \<Rightarrow> 'r list" where
  "update_rows P f rs = map (\<lambda>r. if P r then f r else r) rs"

definition find_row :: "('r \<Rightarrow> bool) \<Rightarrow> 'r list \<Rightarrow> 'r option" where
  "find_row P rs = List.find P rs"

text \<open>A SQLite \<open>INTEGER PRIMARY KEY\<close> without \<open>AUTOINCREMENT\<close> is one more than the largest id.\<close>

definition next_id :: "('r \<Rightarrow> int) \<Rightarrow> 'r list \<Rightarrow> int" where
  "next_id key rs = fold max (map key rs) 0 + 1"

definition sql_update ::
  "('db \<Rightarrow> 'r list) \<Rightarrow> ('r list \<Rightarrow> 'db \<Rightarrow> 'db) \<Rightarrow> ('r \<Rightarrow> bool) \<Rightarrow> ('r \<Rightarrow> 'r) \<Rightarrow> ('db, 'e, nat) act"
where
  "sql_update rows put P f =
     (\<lambda>db. (Inr (length (filter P (rows db))), put (update_rows P f (rows db)) db))"

definition sql_insert ::
  "('db \<Rightarrow> 'r list) \<Rightarrow> ('r list \<Rightarrow> 'db \<Rightarrow> 'db) \<Rightarrow> ('r \<Rightarrow> int) \<Rightarrow> (int \<Rightarrow> 'r) \<Rightarrow> ('db, 'e, int) act"
where
  "sql_insert rows put key mk =
     (\<lambda>db. let i = next_id key (rows db) in (Inr i, put (rows db @ [mk i]) db))"

lemma update_rows_simps [simp]:
  "update_rows P f [] = []"
  "update_rows P f (r # rs) = (if P r then f r else r) # update_rows P f rs"
  "length (update_rows P f rs) = length rs"
  by (simp_all add: update_rows_def)

lemma set_update_rows: "set (update_rows P f rs) = f ` {r \<in> set rs. P r} \<union> {r \<in> set rs. \<not> P r}"
  by (auto simp: update_rows_def)

lemma ball_update_rows: "(\<forall>x \<in> set (update_rows P f rs). Q x) \<longleftrightarrow> (\<forall>r \<in> set rs. Q (if P r then f r else r))"
  by (induction rs) simp_all

lemma update_rows_none: "(\<And>r. r \<in> set rs \<Longrightarrow> \<not> P r) \<Longrightarrow> update_rows P f rs = rs"
  by (induction rs) auto

lemma map_update_rows: "(\<And>r. P r \<Longrightarrow> key (f r) = key r) \<Longrightarrow> map key (update_rows P f rs) = map key rs"
  by (induction rs) auto

lemma map_update_rows_in:
  "(\<And>r. r \<in> set rs \<Longrightarrow> P r \<Longrightarrow> key (f r) = key r) \<Longrightarrow> map key (update_rows P f rs) = map key rs"
  by (induction rs) auto

lemma update_rows_none_iff: "length (filter P rs) = 0 \<Longrightarrow> update_rows P f rs = rs"
  by (induction rs) (auto split: if_splits)

lemma find_row_Some: "find_row P rs = Some r \<Longrightarrow> P r \<and> r \<in> set rs"
  by (induction rs) (auto simp: find_row_def split: if_splits)

lemma find_row_None: "find_row P rs = None \<longleftrightarrow> (\<forall>r \<in> set rs. \<not> P r)"
  by (induction rs) (auto simp: find_row_def)

lemma find_row_simps [simp]:
  "find_row P [] = None"
  "find_row P (r # rs) = (if P r then Some r else find_row P rs)"
  by (simp_all add: find_row_def)

lemma find_row_append:
  "find_row P (xs @ ys) = (case find_row P xs of None \<Rightarrow> find_row P ys | Some r \<Rightarrow> Some r)"
  by (induction xs) auto

lemma find_row_unique:
  assumes "distinct (map key rs)" "r \<in> set rs" "key r = k"
  shows "find_row (\<lambda>x. key x = k) rs = Some r"
  using assms by (induction rs) auto

text \<open>Reading a row by its key after an update that keeps keys.\<close>

lemma find_row_update:
  assumes "\<And>r. key (f r) = key r"
  shows "find_row (\<lambda>x. key x = k) (update_rows P f rs) =
     map_option (\<lambda>r. if P r then f r else r) (find_row (\<lambda>x. key x = k) rs)"
  using assms by (induction rs) auto

lemma filter_key_le_1: "distinct (map key rs) \<Longrightarrow> length (filter (\<lambda>r. key r = k \<and> Q r) rs) \<le> 1"
  by (induction rs) (auto simp: filter_empty_conv image_iff)

lemma filter_key_1:
  assumes "length (filter P rs) = 1"
  obtains r where "r \<in> set rs" "P r" "filter P rs = [r]"
proof -
  from assms obtain r where "filter P rs = [r]" by (auto simp: length_Suc_conv)
  moreover from this have "r \<in> set rs" "P r" by (auto simp: filter_eq_Cons_iff)
  ultimately show thesis using that by blast
qed

text \<open>Compare-and-set: the guarded update of one key in a keyed table.\<close>

lemma guarded_update:
  assumes "distinct (map key rs)" "find_row (\<lambda>x. key x = k) rs = Some r"
  shows "update_rows (\<lambda>x. key x = k \<and> Q x) f rs = (if Q r then update_rows (\<lambda>x. key x = k) f rs else rs)"
    and "length (filter (\<lambda>x. key x = k \<and> Q x) rs) = (if Q r then 1 else 0)"
proof -
  have "update_rows (\<lambda>x. key x = k \<and> Q x) f rs = (if Q r then update_rows (\<lambda>x. key x = k) f rs else rs) \<and>
     length (filter (\<lambda>x. key x = k \<and> Q x) rs) = (if Q r then 1 else 0)"
    using assms
  proof (induction rs)
    case (Cons a rs)
    show ?case
    proof (cases "key a = k")
      case True
      then have 1: "\<And>x. x \<in> set rs \<Longrightarrow> key x \<noteq> k" using Cons.prems by (force simp: image_iff)
      then have "update_rows (\<lambda>x. key x = k) f rs = rs" "update_rows (\<lambda>x. key x = k \<and> Q x) f rs = rs"
        by (auto intro!: update_rows_none)
      moreover from 1 have "filter (\<lambda>x. key x = k \<and> Q x) rs = []" by (auto simp: filter_empty_conv)
      ultimately show ?thesis using True Cons.prems by auto
    next
      case False
      with Cons show ?thesis by auto
    qed
  qed simp
  then show "update_rows (\<lambda>x. key x = k \<and> Q x) f rs = (if Q r then update_rows (\<lambda>x. key x = k) f rs else rs)"
    "length (filter (\<lambda>x. key x = k \<and> Q x) rs) = (if Q r then 1 else 0)" by simp_all
qed

lemma update_rows_same: "(\<And>r. r \<in> set rs \<Longrightarrow> P r \<Longrightarrow> f r = r) \<Longrightarrow> update_rows P f rs = rs"
  by (induction rs) auto

lemma keyed_same_row:
  assumes "distinct (map key rs)" "find_row (\<lambda>x. key x = k) rs = Some r" "x \<in> set rs" "key x = k"
  shows "x = r"
  using assms by (induction rs) (auto split: if_splits)

text \<open>A sum over the rows selected by \<open>P\<close> after one row was replaced by a selected one.\<close>

lemma sum_list_update_key:
  assumes "distinct (map key rs)" "find_row (\<lambda>x. key x = k) rs = Some r" "P (f r)"
  shows "sum_list (map g (filter P (update_rows (\<lambda>x. key x = k) f rs))) =
     g (f r) + sum_list (map (g :: _ \<Rightarrow> 'a::comm_monoid_add) (filter (\<lambda>x. P x \<and> key x \<noteq> k) rs))"
  using assms
proof (induction rs)
  case (Cons a rs)
  show ?case
  proof (cases "key a = k")
    case True
    then have 1: "\<And>x. x \<in> set rs \<Longrightarrow> key x \<noteq> k" using Cons.prems by (force simp: image_iff)
    then have "update_rows (\<lambda>x. key x = k) f rs = rs" by (intro update_rows_none)
    moreover from 1 have "filter (\<lambda>x. P x \<and> key x \<noteq> k) rs = filter P rs" by (intro filter_cong) auto
    ultimately show ?thesis using True Cons.prems by simp
  next
    case False
    with Cons show ?thesis by (simp add: add.left_commute)
  qed
qed simp

lemma sum_list_update_one:
  assumes "distinct (map key rs)" "find_row (\<lambda>x. key x = k) rs = Some r"
  shows "sum_list (map g (update_rows (\<lambda>x. key x = k) f rs)) =
     sum_list (map (g :: _ \<Rightarrow> 'a::ab_group_add) rs) - g r + g (f r)"
  using assms
proof (induction rs)
  case (Cons a rs)
  show ?case
  proof (cases "key a = k")
    case True
    then have "\<And>x. x \<in> set rs \<Longrightarrow> key x \<noteq> k" using Cons.prems by (force simp: image_iff)
    then have "update_rows (\<lambda>x. key x = k) f rs = rs" by (intro update_rows_none)
    with True Cons.prems show ?thesis by simp
  next
    case False
    with Cons show ?thesis by (simp add: algebra_simps)
  qed
qed simp

text \<open>In a keyed table an update of one key changes at most one row.\<close>

lemma update_rows_key:
  assumes "distinct (map key rs)" "r \<in> set rs" "key r = k" "Q r"
  shows "set (update_rows (\<lambda>x. key x = k \<and> Q x) f rs) = insert (f r) (set rs - {r})"
  using assms
proof (induction rs)
  case (Cons a rs)
  show ?case
  proof (cases "key a = k")
    case True
    with Cons.prems have "r = a" by (auto simp: image_iff)
    moreover from True Cons.prems have "\<And>x. x \<in> set rs \<Longrightarrow> key x \<noteq> k" by (auto simp: image_iff)
    then have "update_rows (\<lambda>x. key x = k \<and> Q x) f rs = rs" by (intro update_rows_none) auto
    moreover have "a \<notin> set rs" using Cons.prems by auto
    ultimately show ?thesis using Cons.prems by auto
  next
    case False
    with Cons.prems have "r \<in> set rs" "r \<noteq> a" by auto
    with Cons False show ?thesis by auto
  qed
qed simp

lemma fold_max_acc: "(a::int) \<le> fold max xs a"
proof (induction xs arbitrary: a)
  case (Cons y ys)
  have "a \<le> max y a" by simp
  also have "\<dots> \<le> fold max ys (max y a)" by (rule Cons.IH)
  finally show ?case by simp
qed simp

lemma fold_max_ge: "x \<in> set xs \<Longrightarrow> (x::int) \<le> fold max xs a"
proof (induction xs arbitrary: a)
  case (Cons y ys)
  show ?case
  proof (cases "x = y")
    case True
    have "y \<le> max y a" by simp
    also have "\<dots> \<le> fold max ys (max y a)" by (rule fold_max_acc)
    finally show ?thesis using True by simp
  next
    case False
    with Cons show ?thesis by simp
  qed
qed simp

lemma next_id_gt: "r \<in> set rs \<Longrightarrow> key r < next_id key rs"
  using fold_max_ge [of "key r" "map key rs" 0] by (simp add: next_id_def)

lemma next_id_fresh: "next_id key rs \<notin> key ` set rs"
proof
  assume "next_id key rs \<in> key ` set rs"
  then obtain r where "r \<in> set rs" "key r = next_id key rs" by auto
  with next_id_gt [of r rs key] show False by simp
qed

lemma find_row_next_id: "find_row (\<lambda>r. key r = next_id key rs) rs = None"
  using next_id_fresh [of key rs] unfolding find_row_None by (metis image_eqI)

section \<open>What an action may do to the state\<close>

text \<open>
  \<open>R s s'\<close> says which changes are allowed.  For a reflexive and transitive \<open>R\<close> the allowed actions
  are closed under the combinators, whatever their results and errors; the frame and invariant
  lemmas of the components are instances.
\<close>

locale frame_rel =
  fixes R :: "'s \<Rightarrow> 's \<Rightarrow> bool"
  assumes R_refl: "R s s"
    and R_trans: "R s s' \<Longrightarrow> R s' s'' \<Longrightarrow> R s s''"
begin

definition stays :: "('s, 'e, 'a) act \<Rightarrow> bool" where
  "stays m \<longleftrightarrow> (\<forall>s. R s (snd (m s)))"

lemma staysD: "stays m \<Longrightarrow> m s = (r, s') \<Longrightarrow> R s s'"
  unfolding stays_def by (metis snd_conv)

lemma stays_basic:
  "stays (ret x)" "stays (raise e)" "stays (reads g)" "stays (lift_result r)"
  "stays (or_raise e v)" "stays (assert_that b e)"
  by (simp_all add: stays_def act_simps R_refl)

lemma stays_modifies: "(\<And>s. R s (f s)) \<Longrightarrow> stays (modifies f)"
  by (simp add: stays_def modifies_def)

lemma stays_and_then:
  assumes m: "stays m" and f: "\<And>x. stays (f x)"
  shows "stays (and_then m f)"
  unfolding stays_def
proof
  fix s
  obtain r s' where ms: "m s = (r, s')" by fastforce
  have 1: "R s s'" using staysD [OF m ms] .
  show "R s (snd (and_then m f s))"
  proof (cases r)
    case (Inr x)
    have "R s' (snd (f x s'))" using f [of x] by (simp add: stays_def)
    with 1 have "R s (snd (f x s'))" by (rule R_trans)
    then show ?thesis by (simp add: and_then_def ms Inr)
  qed (simp add: and_then_def ms 1)
qed

lemma stays_or_return:
  assumes "stays m" "\<And>x. stays (f x)"
  shows "stays (or_return m f)"
  unfolding or_return_def
  by (rule stays_and_then [OF assms(1)]) (auto split: sum.splits intro: stays_basic assms(2))

lemma stays_transaction: "stays m \<Longrightarrow> stays (transaction m)"
  by (auto simp: stays_def transaction_def R_refl split: prod.splits sum.splits) (metis snd_conv)

lemma stays_transaction_out: "stays m \<Longrightarrow> stays (transaction_out m)"
  by (auto simp: stays_def transaction_out_def transaction_def R_refl split: prod.splits sum.splits) (metis snd_conv)

lemma stays_handle:
  assumes m: "stays m" and e: "\<And>e. stays (on_error e)" and k: "\<And>x. stays (ok x)"
  shows "stays (handle fatal m on_error ok)"
  unfolding stays_def
proof
  fix s
  obtain r s' where ms: "m s = (r, s')" by fastforce
  have 1: "R s s'" using staysD [OF m ms] .
  have 2: "R s (snd (on_error x s'))" for x using R_trans [OF 1] e by (simp add: stays_def)
  have 3: "R s (snd (ok x s'))" for x using R_trans [OF 1] k by (simp add: stays_def)
  show "R s (snd (handle fatal m on_error ok s))"
    using 1 2 3 by (simp add: handle_def ms split: sum.splits)
qed

lemma stays_map_error: "stays m \<Longrightarrow> stays (map_error g m)"
  by (auto simp: stays_def map_error_def split: prod.splits sum.splits) (metis snd_conv)+

lemma stays_if: "(b \<Longrightarrow> stays m) \<Longrightarrow> (\<not> b \<Longrightarrow> stays n) \<Longrightarrow> stays (if b then m else n)"
  by simp

lemma stays_case:
  "(x = None \<Longrightarrow> stays m) \<Longrightarrow> (\<And>v. x = Some v \<Longrightarrow> stays (f v)) \<Longrightarrow> stays (case_option m f x)"
  "(\<And>v. y = Inl v \<Longrightarrow> stays (g v)) \<Longrightarrow> (\<And>v. y = Inr v \<Longrightarrow> stays (h v)) \<Longrightarrow> stays (case_sum g h y)"
  "(\<And>a b. z = (a, b) \<Longrightarrow> stays (k a b)) \<Longrightarrow> stays (case_prod k z)"
  by (auto split: option.splits sum.splits prod.splits)

lemma stays_Let: "(\<And>v. v = x \<Longrightarrow> stays (f v)) \<Longrightarrow> stays (Let x f)"
  by simp

lemma stays_update: "(\<And>s. R s (put (update_rows P f (rows s)) s)) \<Longrightarrow> stays (sql_update rows put P f)"
  by (simp add: stays_def sql_update_def)

lemma stays_insert:
  "(\<And>s. R s (put (rows s @ [mk (next_id key (rows s))]) s)) \<Longrightarrow> stays (sql_insert rows put key mk)"
  by (simp add: stays_def sql_insert_def Let_def)

lemmas stays_intros = stays_basic stays_and_then stays_or_return stays_transaction
  stays_transaction_out stays_handle stays_map_error stays_if stays_case stays_Let

end

text \<open>Actions that only read, and actions that keep an invariant.\<close>

interpretation ro: frame_rel "(=)"
  by unfold_locales auto

interpretation keeps: frame_rel "\<lambda>s s'. inv s \<longrightarrow> inv s'" for inv :: "'s \<Rightarrow> bool"
  by unfold_locales auto

lemma ro_state: "ro.stays m \<Longrightarrow> m s = (r, s') \<Longrightarrow> s' = s"
  using ro.staysD by metis

lemma keepsD: "keeps.stays I m \<Longrightarrow> I s \<Longrightarrow> m s = (r, s') \<Longrightarrow> I s'"
  using keeps.staysD by metis

section \<open>What an action may return\<close>

definition yields :: "('a \<Rightarrow> bool) \<Rightarrow> ('s, 'e, 'a) act \<Rightarrow> bool" where
  "yields P m \<longleftrightarrow> (\<forall>s x s'. m s = (Inr x, s') \<longrightarrow> P x)"

lemma yieldsD: "yields P m \<Longrightarrow> m s = (Inr x, s') \<Longrightarrow> P x"
  by (auto simp: yields_def)

lemma yields_ret: "P x \<Longrightarrow> yields P (ret x)"
  by (simp add: yields_def ret_ok)

lemma yields_raise: "yields P (raise e)"
  by (simp add: yields_def raise_ok)

lemma yields_and_then: "(\<And>x. yields P (f x)) \<Longrightarrow> yields P (and_then m f)"
  unfolding yields_def and_then_ok by blast

text \<open>A condition on the early outcome carries over the rest of the body.\<close>

lemma yields_or_return:
  assumes "yields (\<lambda>r. \<forall>out. r = Inl out \<longrightarrow> Q out) m" "\<And>x. yields (\<lambda>r. \<forall>out. r = Inl out \<longrightarrow> Q out) (f x)"
  shows "yields (\<lambda>r. \<forall>out. r = Inl out \<longrightarrow> Q out) (or_return m f)"
  unfolding or_return_def yields_def and_then_ok
proof (intro allI impI, elim exE conjE)
  fix s r s'' out r0 s'
  assume 1: "r = Inl out" and m: "m s = (Inr r0, s')"
    and k: "(case r0 of Inl out \<Rightarrow> ret (Inl out) | Inr a \<Rightarrow> f a) s' = (Inr r, s'')"
  show "Q out"
  proof (cases r0)
    case (Inl a)
    with k 1 have "r0 = Inl out" by (simp add: ret_ok)
    with yieldsD [OF assms(1) m] show ?thesis by blast
  next
    case (Inr a)
    with k have "f a s' = (Inr r, s'')" by simp
    with yieldsD [OF assms(2) this] 1 show ?thesis by blast
  qed
qed

lemma yields_if: "yields P m \<Longrightarrow> yields P n \<Longrightarrow> yields P (if b then m else n)"
  by simp

lemma yields_case:
  "yields P m \<Longrightarrow> (\<And>v. yields P (f v)) \<Longrightarrow> yields P (case_option m f x)"
  "(\<And>a b. yields P (k a b)) \<Longrightarrow> yields P (case_prod k z)"
  "yields P (g y) \<Longrightarrow> yields P (Let y g)"
  by (auto split: option.splits prod.splits)

lemmas yields_intros = yields_ret yields_raise yields_or_return yields_and_then yields_if yields_case

text \<open>The errors an action may end with.\<close>

definition raises :: "('e \<Rightarrow> bool) \<Rightarrow> ('s, 'e, 'a) act \<Rightarrow> bool" where
  "raises Q m \<longleftrightarrow> (\<forall>s e s'. m s = (Inl e, s') \<longrightarrow> Q e)"

lemma raisesD: "raises Q m \<Longrightarrow> m s = (Inl e, s') \<Longrightarrow> Q e"
  by (auto simp: raises_def)

lemma and_then_error:
  "and_then m f s = (Inl e, s'') \<longleftrightarrow> m s = (Inl e, s'') \<or> (\<exists>x s'. m s = (Inr x, s') \<and> f x s' = (Inl e, s''))"
  by (auto simp: and_then_def split: prod.splits sum.splits)

lemma raises_basic:
  "raises Q (ret x)" "raises Q (reads g)" "raises Q (modifies h)" "raises Q (sql_update rows put P f)"
  "raises Q (sql_insert rows put key mk)" "Q e \<Longrightarrow> raises Q (raise e)" "Q e \<Longrightarrow> raises Q (or_raise e v)"
  "Q e \<Longrightarrow> raises Q (assert_that b e)"
  by (auto simp: raises_def act_simps sql_update_def sql_insert_def Let_def split: option.splits)

lemma raises_and_then: "raises Q m \<Longrightarrow> (\<And>x. raises Q (f x)) \<Longrightarrow> raises Q (and_then m f)"
  unfolding raises_def and_then_error by blast

lemma raises_lift: "(\<And>e. r = Inl e \<Longrightarrow> Q e) \<Longrightarrow> raises Q (lift_result r)"
  by (simp add: raises_def lift_result_def)

lemma raises_if: "(b \<Longrightarrow> raises Q m) \<Longrightarrow> (\<not> b \<Longrightarrow> raises Q n) \<Longrightarrow> raises Q (if b then m else n)"
  by simp

lemma raises_case:
  "raises Q m \<Longrightarrow> (\<And>v. raises Q (f v)) \<Longrightarrow> raises Q (case_option m f x)"
  "(\<And>a b. raises Q (k a b)) \<Longrightarrow> raises Q (case_prod k z)"
  "raises Q (g y) \<Longrightarrow> raises Q (Let y g)"
  by (auto split: option.splits prod.splits)

lemmas raises_intros = raises_basic raises_and_then raises_lift raises_if raises_case

section \<open>The interface of a table\<close>

text \<open>
  \<open>rows\<close> reads a table of the database, \<open>put\<close> replaces it, \<open>key\<close> is its primary key.  The
  client lemmas describe the effect of one statement on the table itself.
\<close>

locale table =
  fixes rows :: "'db \<Rightarrow> 'r list"
    and put :: "'r list \<Rightarrow> 'db \<Rightarrow> 'db"
    and key :: "'r \<Rightarrow> int"
  assumes rows_put [simp]: "rows (put rs db) = rs"
    and put_rows [simp]: "put (rows db) db = db"
    and put_put [simp]: "put rs (put rs' db) = put rs db"
begin

definition keyed :: "'db \<Rightarrow> bool" where
  "keyed db \<longleftrightarrow> distinct (map key (rows db))"

lemma update_ok:
  "sql_update rows put P f db = (Inr n, db') \<longleftrightarrow>
     n = length (filter P (rows db)) \<and> db' = put (update_rows P f (rows db)) db"
  by (auto simp: sql_update_def)

lemma insert_ok:
  "sql_insert rows put key mk db = (Inr i, db') \<longleftrightarrow>
     i = next_id key (rows db) \<and> db' = put (rows db @ [mk i]) db"
  by (auto simp: sql_insert_def Let_def)

lemma keyed_update:
  assumes "keyed db" "\<And>r. key (f r) = key r"
  shows "keyed (put (update_rows P f (rows db)) db)"
  using assms by (simp add: keyed_def map_update_rows)

lemma keyed_insert:
  assumes "keyed db" "key (mk (next_id key (rows db))) = next_id key (rows db)"
  shows "keyed (put (rows db @ [mk (next_id key (rows db))]) db)"
  using assms next_id_fresh [of key "rows db"] by (auto simp: keyed_def)

lemma cas_update:
  assumes "keyed db" "find_row (\<lambda>x. key x = k) (rows db) = Some r"
  shows "sql_update rows put (\<lambda>x. key x = k \<and> Q x) f db =
     (if Q r then (Inr 1, put (update_rows (\<lambda>x. key x = k) f (rows db)) db) else (Inr 0, db))"
  using assms guarded_update [of key "rows db" k r] by (simp add: sql_update_def keyed_def)

lemma cas_missing:
  assumes "find_row (\<lambda>x. key x = k) (rows db) = None"
  shows "sql_update rows put (\<lambda>x. key x = k \<and> Q x) f db = (Inr 0, db)"
proof -
  from assms have "filter (\<lambda>x. key x = k \<and> Q x) (rows db) = []"
    by (auto simp: find_row_None filter_empty_conv)
  then show ?thesis
    using update_rows_none_iff [of "\<lambda>x. key x = k \<and> Q x" "rows db" f] by (simp add: sql_update_def)
qed

lemma update_zero_frame:
  "sql_update rows put P f db = (Inr 0, db') \<Longrightarrow> db' = db"
  using update_rows_none_iff [of P "rows db" f] by (simp add: update_ok)

lemma find_after_update:
  assumes "\<And>r. key (f r) = key r"
  shows "find_row (\<lambda>x. key x = k) (rows (put (update_rows P f (rows db)) db)) =
     map_option (\<lambda>r. if P r then f r else r) (find_row (\<lambda>x. key x = k) (rows db))"
  using assms by (simp add: find_row_update)

lemma find_after_insert:
  assumes "key (mk (next_id key (rows db))) = next_id key (rows db)"
  shows "find_row (\<lambda>x. key x = k) (rows (put (rows db @ [mk (next_id key (rows db))]) db)) =
     (if k = next_id key (rows db) then Some (mk k) else find_row (\<lambda>x. key x = k) (rows db))"
  using assms find_row_next_id [of key "rows db"]
  by (auto simp: find_row_append split: option.splits)

end

end
