(* ===== verification/Receipt.thy ===== *)
theory Receipt
  imports Prelude
begin

text \<open>
  The venue-neutral execution contract: \<open>src/src/venue/receipt.rs\<close> (order receipts and their
  validating constructors), \<open>src/src/venue/types.rs\<close> and the data of
  \<open>src/src/venue/execution_contract.rs\<close> (sides, sized decisions, prepared envelopes, submission
  errors).  The lemmas show which receipts each constructor accepts, in which order its checks
  fire, and that no accepted receipt can mint a phantom lot.
\<close>

section \<open>Sides, decisions, envelopes\<close>

datatype side = Buy | Sell

definition side_as_str :: "side \<Rightarrow> string" where
  "side_as_str s = (case s of Buy \<Rightarrow> ''BUY'' | Sell \<Rightarrow> ''SELL'')"

definition side_from_str :: "string \<Rightarrow> side option" where
  "side_from_str raw = (if raw = ''BUY'' then Some Buy else if raw = ''SELL'' then Some Sell else None)"

datatype clob_order_amount = BuyMakerUsdc decimal | BuyTakerShares decimal | SellMakerShares decimal

record sized_decision =
  sd_intent_id :: int
  sd_token_id :: string
  sd_side :: side
  sd_qty :: decimal
  sd_limit_price :: decimal
  sd_buy_budget :: "decimal option"
  sd_buy_shares_exact :: bool
  sd_maker_only :: bool

record prepared_order_envelope =
  en_token_id :: string
  en_side :: string
  en_price :: string
  en_size :: string
  en_buy_budget_usdc :: "string option"
  en_buy_shares_exact :: bool
  en_salt :: nat
  en_order_type :: string
  en_expires_at :: "string option"
  en_post_only :: bool
  en_expected_taker_order_id :: string
  en_signed_order_json :: string

datatype submit_error = SubmitLocal string | SubmitTransport string | SubmitRejected string

record venue_order_state =
  vs_order_id :: string
  vs_status :: string
  vs_size_matched :: decimal

section \<open>Order receipts\<close>

record order_receipt =
  requested_qty :: decimal
  accepted_qty :: decimal
  filled_qty :: decimal
  remaining_qty :: decimal

datatype receipt_error =
    NegativeQuantity string decimal
  | ExceedsRequested string decimal decimal
  | FillOnZeroRequest string decimal

definition validate_nonnegative :: "string \<Rightarrow> decimal \<Rightarrow> receipt_error + unit" where
  "validate_nonnegative field v = (if v < 0 then Inl (NegativeQuantity field v) else Inr ())"

definition validate_not_greater_than_requested ::
  "string \<Rightarrow> decimal \<Rightarrow> decimal \<Rightarrow> receipt_error + unit" where
  "validate_not_greater_than_requested field v requested =
     (if v > requested then Inl (ExceedsRequested field v requested) else Inr ())"

definition validate_no_fill_on_zero_request ::
  "string \<Rightarrow> decimal \<Rightarrow> decimal \<Rightarrow> receipt_error + unit" where
  "validate_no_fill_on_zero_request field requested filled =
     (if requested = 0 \<and> filled > 0 then Inl (FillOnZeroRequest field filled) else Inr ())"

text \<open>Rust's \<open>check?; rest\<close> on a plain \<open>Result\<close>.\<close>

definition check_then :: "'e + unit \<Rightarrow> 'e + 'a \<Rightarrow> 'e + 'a" where
  "check_then c r = (case c of Inl e \<Rightarrow> Inl e | Inr _ \<Rightarrow> r)"

definition receipt_new ::
  "decimal \<Rightarrow> decimal \<Rightarrow> decimal \<Rightarrow> decimal \<Rightarrow> receipt_error + order_receipt" where
  "receipt_new req acc fil rem =
     check_then (validate_nonnegative ''requested_qty'' req)
    (check_then (validate_nonnegative ''accepted_qty'' acc)
    (check_then (validate_nonnegative ''filled_qty'' fil)
    (check_then (validate_nonnegative ''remaining_qty'' rem)
     (Inr \<lparr>requested_qty = req, accepted_qty = acc, filled_qty = fil, remaining_qty = rem\<rparr>))))"

definition from_fak_buy_budget ::
  "decimal \<Rightarrow> decimal \<Rightarrow> decimal \<Rightarrow> receipt_error + order_receipt" where
  "from_fak_buy_budget requested_budget accepted_budget matched_shares =
     check_then (validate_not_greater_than_requested ''accepted_qty'' accepted_budget requested_budget)
    (check_then (validate_no_fill_on_zero_request ''filled_qty'' requested_budget matched_shares)
     (receipt_new requested_budget accepted_budget matched_shares 0))"

definition from_fak_buy_shares ::
  "decimal \<Rightarrow> decimal \<Rightarrow> decimal \<Rightarrow> receipt_error + order_receipt" where
  "from_fak_buy_shares requested_shares accepted_shares matched_shares =
     check_then (validate_no_fill_on_zero_request ''filled_qty'' requested_shares matched_shares)
    (check_then (validate_not_greater_than_requested ''accepted_qty'' accepted_shares requested_shares)
     (receipt_new requested_shares accepted_shares matched_shares 0))"

definition from_fak_sell_shares ::
  "decimal \<Rightarrow> decimal \<Rightarrow> decimal \<Rightarrow> receipt_error + order_receipt" where
  "from_fak_sell_shares requested_shares accepted_shares matched_shares =
     check_then (validate_no_fill_on_zero_request ''filled_qty'' requested_shares matched_shares)
    (check_then (validate_not_greater_than_requested ''accepted_qty'' accepted_shares requested_shares)
    (check_then (validate_not_greater_than_requested ''filled_qty'' matched_shares requested_shares)
     (receipt_new requested_shares accepted_shares matched_shares 0)))"

definition from_expired_gtd_shares :: "decimal \<Rightarrow> decimal \<Rightarrow> receipt_error + order_receipt" where
  "from_expired_gtd_shares requested_shares filled_shares =
     check_then (validate_no_fill_on_zero_request ''filled_qty'' requested_shares filled_shares)
    (check_then (validate_not_greater_than_requested ''filled_qty'' filled_shares requested_shares)
     (receipt_new requested_shares requested_shares filled_shares (requested_shares - filled_shares)))"

section \<open>What the constructors accept\<close>

definition receipt_ok :: "order_receipt \<Rightarrow> bool" where
  "receipt_ok r \<longleftrightarrow> 0 \<le> requested_qty r \<and> 0 \<le> accepted_qty r \<and> 0 \<le> filled_qty r \<and> 0 \<le> remaining_qty r"

lemmas receipt_checks = check_then_def validate_nonnegative_def
  validate_not_greater_than_requested_def validate_no_fill_on_zero_request_def

lemma receipt_new_Inr:
  "receipt_new req acc fil rem = Inr r \<longleftrightarrow>
     0 \<le> req \<and> 0 \<le> acc \<and> 0 \<le> fil \<and> 0 \<le> rem \<and>
     r = \<lparr>requested_qty = req, accepted_qty = acc, filled_qty = fil, remaining_qty = rem\<rparr>"
  by (auto simp: receipt_new_def receipt_checks)

lemma from_fak_buy_budget_Inr:
  "from_fak_buy_budget req acc m = Inr r \<longleftrightarrow>
     0 \<le> acc \<and> acc \<le> req \<and> 0 \<le> m \<and> (req = 0 \<longrightarrow> m = 0) \<and>
     r = \<lparr>requested_qty = req, accepted_qty = acc, filled_qty = m, remaining_qty = 0\<rparr>"
  by (auto simp: from_fak_buy_budget_def receipt_checks receipt_new_Inr split: if_splits)

lemma from_fak_buy_shares_Inr:
  "from_fak_buy_shares req acc m = Inr r \<longleftrightarrow>
     0 \<le> acc \<and> acc \<le> req \<and> 0 \<le> m \<and> (req = 0 \<longrightarrow> m = 0) \<and>
     r = \<lparr>requested_qty = req, accepted_qty = acc, filled_qty = m, remaining_qty = 0\<rparr>"
  by (auto simp: from_fak_buy_shares_def receipt_checks receipt_new_Inr split: if_splits)

lemma from_fak_sell_shares_Inr:
  "from_fak_sell_shares req acc m = Inr r \<longleftrightarrow>
     0 \<le> acc \<and> acc \<le> req \<and> 0 \<le> m \<and> m \<le> req \<and>
     r = \<lparr>requested_qty = req, accepted_qty = acc, filled_qty = m, remaining_qty = 0\<rparr>"
  by (auto simp: from_fak_sell_shares_def receipt_checks receipt_new_Inr split: if_splits)

lemma from_expired_gtd_shares_Inr:
  "from_expired_gtd_shares req fil = Inr r \<longleftrightarrow>
     0 \<le> fil \<and> fil \<le> req \<and>
     r = \<lparr>requested_qty = req, accepted_qty = req, filled_qty = fil, remaining_qty = req - fil\<rparr>"
  by (auto simp: from_expired_gtd_shares_def receipt_checks receipt_new_Inr split: if_splits)

lemmas receipt_Inr = receipt_new_Inr from_fak_buy_budget_Inr from_fak_buy_shares_Inr
  from_fak_sell_shares_Inr from_expired_gtd_shares_Inr

lemma side_from_as_str [simp]: "side_from_str (side_as_str s) = Some s"
  by (cases s) (simp_all add: side_as_str_def side_from_str_def)

lemma side_from_str_Some: "side_from_str raw = Some s \<Longrightarrow> raw = side_as_str s"
  by (auto simp: side_from_str_def side_as_str_def split: if_splits)

text \<open>
  Every constructor of a venue receipt accepts exactly the receipts the contract allows, and
  an accepted receipt never books shares that were not requested: all four quantities are
  non-negative, a zero-quantity request has no fill, a SELL never fills more than it asked for,
  an expired GTD order splits its request exactly into filled and remaining shares, and every FAK
  receipt leaves nothing resting.
\<close>

theorem receipt_constructors_sound:
  "(from_fak_buy_budget a b c = Inr r \<longrightarrow> receipt_ok r \<and> remaining_qty r = 0 \<and> filled_qty r = c
      \<and> accepted_qty r \<le> requested_qty r \<and> (requested_qty r = 0 \<longrightarrow> filled_qty r = 0)) \<and>
   (from_fak_buy_shares a b c = Inr r \<longrightarrow> receipt_ok r \<and> remaining_qty r = 0 \<and> filled_qty r = c
      \<and> accepted_qty r \<le> requested_qty r \<and> (requested_qty r = 0 \<longrightarrow> filled_qty r = 0)) \<and>
   (from_fak_sell_shares a b c = Inr r \<longrightarrow> receipt_ok r \<and> remaining_qty r = 0 \<and> filled_qty r = c
      \<and> accepted_qty r \<le> requested_qty r \<and> filled_qty r \<le> requested_qty r) \<and>
   (from_expired_gtd_shares a c = Inr r \<longrightarrow> receipt_ok r \<and> filled_qty r = c
      \<and> filled_qty r + remaining_qty r = requested_qty r)"
  by (auto simp: receipt_Inr receipt_ok_def)

theorem receipt_constructors_sound_witness:
  "\<exists>r1 r2 r3 r4.
     from_fak_buy_budget 1 1 (7/4) = Inr r1 \<and> receipt_ok r1 \<and>
     from_fak_buy_shares 5 5 6 = Inr r2 \<and> receipt_ok r2 \<and>
     from_fak_sell_shares 5 5 4 = Inr r3 \<and> filled_qty r3 \<le> requested_qty r3 \<and>
     from_expired_gtd_shares 5 2 = Inr r4 \<and> filled_qty r4 + remaining_qty r4 = requested_qty r4"
proof -
  let ?r1 = "\<lparr>requested_qty = 1, accepted_qty = 1, filled_qty = 7/4, remaining_qty = 0\<rparr>"
  let ?r2 = "\<lparr>requested_qty = 5, accepted_qty = 5, filled_qty = 6, remaining_qty = 0\<rparr>"
  let ?r3 = "\<lparr>requested_qty = 5, accepted_qty = 5, filled_qty = 4, remaining_qty = 0\<rparr>"
  let ?r4 = "\<lparr>requested_qty = 5, accepted_qty = 5, filled_qty = 2, remaining_qty = 3\<rparr>"
  have 1: "from_fak_buy_budget 1 1 (7/4) = Inr ?r1" by (simp add: receipt_Inr)
  have 2: "from_fak_buy_shares 5 5 6 = Inr ?r2" by (simp add: receipt_Inr)
  have 3: "from_fak_sell_shares 5 5 4 = Inr ?r3" by (simp add: receipt_Inr)
  have 4: "from_expired_gtd_shares 5 2 = Inr ?r4" by (simp add: receipt_Inr)
  have "receipt_ok ?r1" using receipt_constructors_sound [of 1 1 "7/4" ?r1] 1 by (elim conjE) simp
  moreover have "receipt_ok ?r2" using receipt_constructors_sound [of 5 5 6 ?r2] 2 by (elim conjE) simp
  moreover have "filled_qty ?r3 \<le> requested_qty ?r3" by simp
  moreover have "filled_qty ?r4 + remaining_qty ?r4 = requested_qty ?r4" by simp
  ultimately show ?thesis using 1 2 3 4 by (intro exI conjI)
qed

text \<open>
  The diagnosis order of the constructors: a fill on a zero-quantity SELL, fixed-share BUY or
  expired GTD request is reported as a fill on a zero request even though it also exceeds the
  request, and a SELL that fills more than requested is refused with the offending quantities.
\<close>

lemma receipt_error_precedence:
  "0 < m \<Longrightarrow> from_fak_sell_shares 0 acc m = Inl (FillOnZeroRequest ''filled_qty'' m) \<and>
     from_fak_buy_shares 0 acc m = Inl (FillOnZeroRequest ''filled_qty'' m) \<and>
     from_expired_gtd_shares 0 m = Inl (FillOnZeroRequest ''filled_qty'' m) \<and>
     from_fak_buy_budget 0 0 m = Inl (FillOnZeroRequest ''filled_qty'' m) \<and>
     (0 < req \<and> req < m \<longrightarrow> from_fak_sell_shares req req m = Inl (ExceedsRequested ''filled_qty'' m req))"
  by (simp add: from_fak_sell_shares_def from_fak_buy_shares_def from_expired_gtd_shares_def
      from_fak_buy_budget_def receipt_checks)

end
