(* ===== verification/Schema.thy ===== *)
theory Schema
  imports Receipt "HOL-Library.Word" "HOL-Library.Char_ord"
begin

text \<open>
  The durable state: the tables of \<open>src/migrations\<close> as the engine's Rust code reads and writes
  them, and the external code the engine calls.

  \<^item> Text columns that hold decimals or RFC 3339 instants and are parsed by the code stay text
    (\<open>string\<close>), so that every parse failure of the source is a branch here.  Columns the engine
    itself writes in one fixed-width format and only compares (\<open>created_at\<close>, \<open>reserved_at\<close>, the
    lot's \<open>updated_at\<close>) are the instants they denote.  Columns nobody reads (the other
    \<open>updated_at\<close>s) are left out.
  \<^item> Status columns whose \<open>CHECK\<close> constraint lists their values are datatypes.
  \<^item> The record \<open>ext\<close> holds what is not in the repository: decimal parsing, printing and division
    (\<open>rust_decimal\<close>), instants (\<open>chrono\<close>, and SQLite's \<open>strftime\<close> as \<open>show_sql_time\<close>), JSON (\<open>serde_json\<close>), the standard hasher, whose
    algorithm its documentation leaves unspecified, and 256-bit integer parsing.  A property that
    relies on one of them says so in a hypothesis.
\<close>

section \<open>Policies\<close>

record policy_snapshot =
  max_signal_age_seconds :: int
  decision_window_seconds :: int
  price_tolerance_bps :: int
  tick_size :: string
  min_price :: string
  max_price :: string
  max_order_notional :: string
  price_tolerance_abs :: "string option"
  max_order_shares :: "string option"
  balance_within_market :: bool
  min_leader_trade_size :: string
  allow_repeated_market_direction :: bool
  size_ratio :: "string option"
  maker_only :: bool

section \<open>External code\<close>

record ext =
  parse_dec :: "string \<Rightarrow> decimal option"
  show_dec :: "decimal \<Rightarrow> string"
  div_dec :: "decimal \<Rightarrow> decimal \<Rightarrow> decimal"
  scale_dec :: "string \<Rightarrow> nat"
  parse_time :: "string \<Rightarrow> timestamp option"
  show_time :: "timestamp \<Rightarrow> string"
  show_sql_time :: "timestamp \<Rightarrow> string"
  policy_to_json :: "policy_snapshot \<Rightarrow> string option"
  policy_of_json :: "string \<Rightarrow> policy_snapshot option"
  envelope_to_json :: "prepared_order_envelope \<Rightarrow> string option"
  envelope_of_json :: "string \<Rightarrow> prepared_order_envelope option"
  order_type_of_json :: "string \<Rightarrow> string option"
  is_json_object :: "string \<Rightarrow> bool"
  u256_ok :: "string \<Rightarrow> bool"
  hash_str :: "string \<Rightarrow> 64 word"
  hash_account_token :: "int \<Rightarrow> string \<Rightarrow> 64 word"
  reprint_dec :: "string \<Rightarrow> string"
  rfc3339_millis :: "int \<Rightarrow> string option"

text \<open>Printing a decimal or an instant and parsing the text back gives the same value.\<close>

definition dec_codec :: "ext \<Rightarrow> bool" where
  "dec_codec X \<longleftrightarrow> (\<forall>d. parse_dec X (show_dec X d) = Some d) \<and> parse_dec X ''0'' = Some 0"

text \<open>
  \<open>reprint_dec\<close> is parsing a decimal and printing it without normalising: the scale of the text is kept, and so is
  the value.  \<open>rfc3339_millis\<close> is \<open>DateTime::from_timestamp_millis\<close> followed by printing with milliseconds and \<open>Z\<close>.
\<close>

definition reprint_codec :: "ext \<Rightarrow> bool" where
  "reprint_codec X \<longleftrightarrow> (\<forall>s. parse_dec X s \<noteq> None \<longrightarrow> parse_dec X (reprint_dec X s) = parse_dec X s)"

definition time_codec :: "ext \<Rightarrow> bool" where
  "time_codec X \<longleftrightarrow> (\<forall>t. parse_time X (show_time X t) = Some t \<and> parse_time X (show_sql_time X t) = Some t)"

section \<open>Rows\<close>

datatype intent_status =
  Pending | InProgress | PartiallyFilled | Completed | IRejected | Cancelled | NeedsReconcile | DeadLetter

datatype attempt_status =
  Prepared | Submitting | Uncertain | Accepted | ARejected | Finalized | AError

datatype reservation_state = Reserved | ReleasedPreBoundary | ReleasedOperatorNoFill

record account_row =
  acc_id :: int
  acc_label :: string
  acc_signing_address :: string
  acc_funder_address :: "string option"
  acc_signature_type :: string

record leader_config_row =
  lc_id :: int
  lc_label :: string
  lc_enabled :: bool
  lc_activation_at :: "string option"

record wallet_alias_row =
  wa_id :: int
  wa_leader_id :: int
  wa_address :: string
  wa_enabled :: bool

record leader_policy_row =
  lp_leader_id :: int
  lp_policy :: policy_snapshot
  lp_rolling_budget_usdc :: "string option"
  lp_budget_window_seconds :: "int option"

record leader_event_row =
  le_id :: int
  le_canonical_event_key :: string
  le_leader_id :: int
  le_condition_id :: string
  le_token_id :: string
  le_outcome_index :: int
  le_side :: string
  le_size :: string
  le_price :: string
  le_tx_hash :: "string option"
  le_occurred_at :: string
  le_observed_at :: string
  le_realtime_observed :: bool

record observation_row =
  ob_id :: int
  ob_leader_event_id :: "int option"
  ob_source :: string
  ob_source_identifier :: "string option"
  ob_payload :: string

record copy_intent_row =
  ci_id :: int
  ci_event_id :: int
  ci_account_id :: int
  ci_leader_id :: int
  ci_token_id :: string
  ci_side :: string
  ci_config_snapshot_json :: string
  ci_config_snapshot_hash :: string
  ci_planned_qty :: "string option"
  ci_planned_price :: "string option"
  ci_planned_notional_usdc :: "string option"
  ci_tick_size :: "string option"
  ci_time_in_force :: "string option"
  ci_decision_deadline_at :: "string option"
  ci_reserved_qty :: string
  ci_shard_scheme_version :: int
  ci_lane_count :: int
  ci_shard_id :: int
  ci_status :: intent_status
  ci_rejection_reason :: "string option"

record market_lock_row =
  ml_account_id :: int
  ml_condition_id :: string
  ml_token_id :: string
  ml_intent_id :: int

record order_attempt_row =
  oa_id :: int
  oa_intent_id :: int
  oa_attempt_number :: int
  oa_envelope_json :: string
  oa_status :: attempt_status
  oa_receipt :: "order_receipt option"
  oa_venue_order_id :: "string option"
  oa_requested_qty :: string
  oa_accepted_qty :: "string option"
  oa_filled_qty :: "string option"
  oa_remaining_qty :: "string option"
  oa_accounted_filled_qty :: string
  oa_failure_detail :: "string option"
  oa_submission_started_at :: "string option"
  oa_created_at :: timestamp

record position_lot_row =
  pl_account_id :: int
  pl_leader_id :: int
  pl_token_id :: string
  pl_qty :: string
  pl_updated_at :: timestamp

record reconciliation_case_row =
  rc_id :: int
  rc_account_id :: int
  rc_token_id :: string
  rc_intent_id :: "int option"
  rc_order_attempt_id :: "int option"
  rc_case_type :: string
  rc_detail :: "string option"
  rc_resolved_at :: "timestamp option"
  rc_resolution :: "string option"

record reservation_row =
  br_id :: int
  br_order_attempt_id :: int
  br_account_id :: int
  br_leader_id :: "int option"
  br_amount_usdc :: string
  br_reserved_at :: timestamp
  br_state :: reservation_state
  br_release_reason :: "string option"
  br_released_at :: "timestamp option"

record fuse_row =
  fu_account_id :: int
  fu_paused_at :: timestamp
  fu_reason :: string
  fu_actor_source :: string

record exec_config_row =
  ec_account_id :: int
  ec_enabled :: bool
  ec_allowed_leader_ids :: string
  ec_max_order_notional_usdc :: string
  ec_rolling_budget_usdc :: string
  ec_budget_window_seconds :: int
  ec_tick_seconds :: int
  ec_backfill_every_seconds :: int

section \<open>The database\<close>

record db =
  accounts :: "account_row list"
  leader_config :: "leader_config_row list"
  wallet_aliases :: "wallet_alias_row list"
  leader_policy :: "leader_policy_row list"
  leader_events :: "leader_event_row list"
  observations :: "observation_row list"
  planner_cursor :: "int \<rightharpoonup> int"
  execution_schedule :: "(int \<times> int) option"
  copy_intents :: "copy_intent_row list"
  market_locks :: "market_lock_row list"
  order_attempts :: "order_attempt_row list"
  position_lots :: "position_lot_row list"
  reconciliation_cases :: "reconciliation_case_row list"
  budget_reservations :: "reservation_row list"
  execution_fuse :: "fuse_row list"
  execution_config :: "exec_config_row option"

type_synonym ('e, 'a) db_act = "(db, 'e, 'a) act"

definition put_intents :: "copy_intent_row list \<Rightarrow> db \<Rightarrow> db" where
  "put_intents rs d = d\<lparr>copy_intents := rs\<rparr>"

definition put_attempts :: "order_attempt_row list \<Rightarrow> db \<Rightarrow> db" where
  "put_attempts rs d = d\<lparr>order_attempts := rs\<rparr>"

definition put_cases :: "reconciliation_case_row list \<Rightarrow> db \<Rightarrow> db" where
  "put_cases rs d = d\<lparr>reconciliation_cases := rs\<rparr>"

definition put_reservations :: "reservation_row list \<Rightarrow> db \<Rightarrow> db" where
  "put_reservations rs d = d\<lparr>budget_reservations := rs\<rparr>"

definition put_events :: "leader_event_row list \<Rightarrow> db \<Rightarrow> db" where
  "put_events rs d = d\<lparr>leader_events := rs\<rparr>"

definition put_observations :: "observation_row list \<Rightarrow> db \<Rightarrow> db" where
  "put_observations rs d = d\<lparr>observations := rs\<rparr>"

definition put_accounts :: "account_row list \<Rightarrow> db \<Rightarrow> db" where
  "put_accounts rs d = d\<lparr>accounts := rs\<rparr>"

definition put_leaders :: "leader_config_row list \<Rightarrow> db \<Rightarrow> db" where
  "put_leaders rs d = d\<lparr>leader_config := rs\<rparr>"

definition put_aliases :: "wallet_alias_row list \<Rightarrow> db \<Rightarrow> db" where
  "put_aliases rs d = d\<lparr>wallet_aliases := rs\<rparr>"

definition put_policies :: "leader_policy_row list \<Rightarrow> db \<Rightarrow> db" where
  "put_policies rs d = d\<lparr>leader_policy := rs\<rparr>"

abbreviation "update_intents \<equiv> sql_update copy_intents put_intents"
abbreviation "update_attempts \<equiv> sql_update order_attempts put_attempts"
abbreviation "update_cases \<equiv> sql_update reconciliation_cases put_cases"
abbreviation "update_reservations \<equiv> sql_update budget_reservations put_reservations"
abbreviation "update_events \<equiv> sql_update leader_events put_events"
abbreviation "insert_intent \<equiv> sql_insert copy_intents put_intents ci_id"
abbreviation "insert_attempt \<equiv> sql_insert order_attempts put_attempts oa_id"
abbreviation "insert_case \<equiv> sql_insert reconciliation_cases put_cases rc_id"
abbreviation "insert_reservation \<equiv> sql_insert budget_reservations put_reservations br_id"
abbreviation "insert_event \<equiv> sql_insert leader_events put_events le_id"
abbreviation "insert_observation \<equiv> sql_insert observations put_observations ob_id"

interpretation intents: table copy_intents put_intents ci_id
  by unfold_locales (simp_all add: put_intents_def)

interpretation attempts: table order_attempts put_attempts oa_id
  by unfold_locales (simp_all add: put_attempts_def)

interpretation cases: table reconciliation_cases put_cases rc_id
  by unfold_locales (simp_all add: put_cases_def)

interpretation reservations: table budget_reservations put_reservations br_id
  by unfold_locales (simp_all add: put_reservations_def)

interpretation events: table leader_events put_events le_id
  by unfold_locales (simp_all add: put_events_def)

interpretation obs: table observations put_observations ob_id
  by unfold_locales (simp_all add: put_observations_def)

abbreviation "update_accounts \<equiv> sql_update accounts put_accounts"
abbreviation "update_leaders \<equiv> sql_update leader_config put_leaders"
abbreviation "update_aliases \<equiv> sql_update wallet_aliases put_aliases"
abbreviation "update_policies \<equiv> sql_update leader_policy put_policies"
abbreviation "insert_account \<equiv> sql_insert accounts put_accounts acc_id"
abbreviation "insert_leader \<equiv> sql_insert leader_config put_leaders lc_id"
abbreviation "insert_alias \<equiv> sql_insert wallet_aliases put_aliases wa_id"

interpretation accts: table accounts put_accounts acc_id
  by unfold_locales (simp_all add: put_accounts_def)

interpretation leaders: table leader_config put_leaders lc_id
  by unfold_locales (simp_all add: put_leaders_def)

interpretation aliases: table wallet_aliases put_aliases wa_id
  by unfold_locales (simp_all add: put_aliases_def)

interpretation policies: table leader_policy put_policies lp_leader_id
  by unfold_locales (simp_all add: put_policies_def)

lemmas put_defs = put_intents_def put_attempts_def put_cases_def put_reservations_def
  put_events_def put_observations_def

lemmas stmt_ok = intents.update_ok intents.insert_ok attempts.update_ok attempts.insert_ok
  cases.update_ok cases.insert_ok reservations.update_ok reservations.insert_ok
  events.update_ok events.insert_ok obs.update_ok obs.insert_ok

text \<open>Writing one table leaves the others alone.\<close>

lemma put_frame [simp]:
  "copy_intents (put_attempts a d) = copy_intents d"
  "copy_intents (put_cases c d) = copy_intents d"
  "copy_intents (put_reservations b d) = copy_intents d"
  "order_attempts (put_intents i d) = order_attempts d"
  "order_attempts (put_cases c d) = order_attempts d"
  "order_attempts (put_reservations b d) = order_attempts d"
  "reconciliation_cases (put_intents i d) = reconciliation_cases d"
  "reconciliation_cases (put_attempts a d) = reconciliation_cases d"
  "reconciliation_cases (put_reservations b d) = reconciliation_cases d"
  "budget_reservations (put_intents i d) = budget_reservations d"
  "budget_reservations (put_attempts a d) = budget_reservations d"
  "budget_reservations (put_cases c d) = budget_reservations d"
  "position_lots (put_intents i d) = position_lots d"
  "position_lots (put_attempts a d) = position_lots d"
  "position_lots (put_cases c d) = position_lots d"
  "position_lots (put_reservations b d) = position_lots d"
  "market_locks (put_intents i d) = market_locks d"
  "market_locks (put_attempts a d) = market_locks d"
  "market_locks (put_cases c d) = market_locks d"
  "market_locks (put_reservations b d) = market_locks d"
  "leader_events (put_intents i d) = leader_events d"
  "leader_events (put_attempts a d) = leader_events d"
  "leader_events (put_cases c d) = leader_events d"
  "leader_events (put_reservations b d) = leader_events d"
  "leader_policy (put_intents i d) = leader_policy d"
  "leader_policy (put_attempts a d) = leader_policy d"
  "leader_policy (put_cases c d) = leader_policy d"
  "leader_policy (put_reservations b d) = leader_policy d"
  "planner_cursor (put_intents i d) = planner_cursor d"
  "planner_cursor (put_attempts a d) = planner_cursor d"
  "execution_fuse (put_intents i d) = execution_fuse d"
  "execution_fuse (put_attempts a d) = execution_fuse d"
  "execution_fuse (put_cases c d) = execution_fuse d"
  "execution_fuse (put_reservations b d) = execution_fuse d"
  "observations (put_events e d) = observations d"
  "leader_events (put_observations e' d) = leader_events d"
  "copy_intents (put_events e d) = copy_intents d"
  "copy_intents (put_observations e' d) = copy_intents d"
  by (simp_all add: put_defs)

section \<open>Lookups shared by the components\<close>

definition intent_by_id :: "int \<Rightarrow> db \<Rightarrow> copy_intent_row option" where
  "intent_by_id i d = find_row (\<lambda>r. ci_id r = i) (copy_intents d)"

definition attempt_by_id :: "int \<Rightarrow> db \<Rightarrow> order_attempt_row option" where
  "attempt_by_id a d = find_row (\<lambda>r. oa_id r = a) (order_attempts d)"

definition event_by_id :: "int \<Rightarrow> db \<Rightarrow> leader_event_row option" where
  "event_by_id e d = find_row (\<lambda>r. le_id r = e) (leader_events d)"

text \<open>\<open>leader_events le JOIN copy_intents ci ON ci.event_id = le.id WHERE ci.id = ?\<close>\<close>

definition event_of_intent :: "int \<Rightarrow> db \<Rightarrow> leader_event_row option" where
  "event_of_intent i d =
     (case intent_by_id i d of None \<Rightarrow> None | Some ci \<Rightarrow> event_by_id (ci_event_id ci) d)"

definition lot_row :: "int \<Rightarrow> int \<Rightarrow> string \<Rightarrow> db \<Rightarrow> position_lot_row option" where
  "lot_row acc ldr tok d = find_row (\<lambda>r. pl_account_id r = acc \<and> pl_leader_id r = ldr \<and> pl_token_id r = tok)
     (position_lots d)"

lemmas lookup_defs = intent_by_id_def attempt_by_id_def event_by_id_def event_of_intent_def lot_row_def

lemma intent_by_id_Some: "intent_by_id i d = Some r \<Longrightarrow> ci_id r = i \<and> r \<in> set (copy_intents d)"
  by (auto simp: intent_by_id_def dest: find_row_Some)

lemma attempt_by_id_Some: "attempt_by_id i d = Some r \<Longrightarrow> oa_id r = i \<and> r \<in> set (order_attempts d)"
  by (auto simp: attempt_by_id_def dest: find_row_Some)

text \<open>\<open>OutcomeTokenId::from_str\<close>: decimal digits only, and within 256 bits.\<close>

definition outcome_token_id_ok :: "ext \<Rightarrow> string \<Rightarrow> bool" where
  "outcome_token_id_ok X raw \<longleftrightarrow>
     raw \<noteq> [] \<and> list_all (\<lambda>c. CHR ''0'' \<le> c \<and> c \<le> CHR ''9'') raw \<and> u256_ok X raw"

definition all_digits :: "string \<Rightarrow> bool" where
  "all_digits raw \<longleftrightarrow> raw \<noteq> [] \<and> list_all (\<lambda>c. CHR ''0'' \<le> c \<and> c \<le> CHR ''9'') raw"

text \<open>\<open>str::trim\<close> on the code points up to 255.\<close>

definition is_space :: "char \<Rightarrow> bool" where
  "is_space c \<longleftrightarrow> (let n = of_char c :: nat in 9 \<le> n \<and> n \<le> 13 \<or> n = 32 \<or> n = 133 \<or> n = 160)"

definition trim :: "string \<Rightarrow> string" where
  "trim s = rev (dropWhile is_space (rev (dropWhile is_space s)))"

text \<open>\<open>to_ascii_lowercase\<close>, \<open>str::contains\<close>, and SQL's \<open>x LIKE '%pat%'\<close>, which ignores ASCII case.\<close>

definition ascii_lower :: "char \<Rightarrow> char" where
  "ascii_lower c = (if CHR ''A'' \<le> c \<and> c \<le> CHR ''Z'' then char_of (of_char c + (32 :: nat)) else c)"

definition to_ascii_lowercase :: "string \<Rightarrow> string" where
  "to_ascii_lowercase s = map ascii_lower s"

fun str_contains :: "string \<Rightarrow> string \<Rightarrow> bool" where
  "str_contains [] pat \<longleftrightarrow> pat = []"
| "str_contains (c # cs) pat \<longleftrightarrow> take (length pat) (c # cs) = pat \<or> str_contains cs pat"

definition sql_like :: "string \<Rightarrow> string \<Rightarrow> bool" where
  "sql_like s pat \<longleftrightarrow> str_contains (to_ascii_lowercase s) (to_ascii_lowercase pat)"

section \<open>Text of integers\<close>

text \<open>\<open>str::split\<close> on a character, \<open>join\<close>, and decimal text of an \<open>i64\<close>.\<close>

fun split_on :: "char \<Rightarrow> string \<Rightarrow> string list" where
  "split_on c [] = [[]]"
| "split_on c (x # xs) = (if x = c then [] # split_on c xs
     else (case split_on c xs of [] \<Rightarrow> [[x]] | p # ps \<Rightarrow> (x # p) # ps))"

fun join :: "string \<Rightarrow> string list \<Rightarrow> string" where
  "join sep [] = []"
| "join sep [p] = p"
| "join sep (p # q # ps) = p @ sep @ join sep (q # ps)"

definition digit_char :: "nat \<Rightarrow> char" where
  "digit_char n = char_of (48 + n)"

fun show_nat :: "nat \<Rightarrow> string" where
  "show_nat n = (if n < 10 then [digit_char n] else show_nat (n div 10) @ [digit_char (n mod 10)])"

declare show_nat.simps [simp del]

definition show_i64 :: "int \<Rightarrow> string" where
  "show_i64 i = (if i < 0 then CHR ''-'' # show_nat (nat (- i)) else show_nat (nat i))"

definition parse_digits :: "string \<Rightarrow> nat option" where
  "parse_digits s = (if all_digits s then Some (foldl (\<lambda>n c. 10 * n + (of_char c - 48)) 0 s) else None)"

text \<open>\<open>i64::from_str\<close>: an optional sign, digits, and the range of the type.\<close>

definition parse_i64 :: "string \<Rightarrow> int option" where
  "parse_i64 s =
     (let (neg, ds) = (case s of
            c # cs \<Rightarrow> if c = CHR ''-'' then (True, cs) else if c = CHR ''+'' then (False, cs) else (False, s)
          | [] \<Rightarrow> (False, []))
      in case parse_digits ds of
           None \<Rightarrow> None
         | Some n \<Rightarrow> (let i = (if neg then - int n else int n)
                        in if - (2 ^ 63) \<le> i \<and> i < 2 ^ 63 then Some i else None))"

text \<open>\<open>as i64\<close> of a \<open>u64\<close> and \<open>as u64\<close> of an \<open>i64\<close>.\<close>

definition as_i64 :: "nat \<Rightarrow> int" where
  "as_i64 n = (if n < 2 ^ 63 then int n else int n - 2 ^ 64)"

definition as_u64 :: "int \<Rightarrow> nat" where
  "as_u64 i = nat (if i < 0 then i + 2 ^ 64 else i)"

lemma as_u64_i64: "n < 2 ^ 64 \<Longrightarrow> as_u64 (as_i64 n) = n"
  by (auto simp: as_u64_def as_i64_def)

lemma digit_char_digit: "n < 10 \<Longrightarrow> CHR ''0'' \<le> digit_char n \<and> digit_char n \<le> CHR ''9'' \<and> of_char (digit_char n) = 48 + n"
  by (simp add: digit_char_def less_eq_char_def)

lemma show_nat_digits: "all_digits (show_nat n) \<and>
   foldl (\<lambda>n c. 10 * n + (of_char c - 48)) 0 (show_nat n) = n"
proof (induction n rule: show_nat.induct)
  case (1 n)
  show ?case
  proof (cases "n < 10")
    case True
    then show ?thesis using digit_char_digit [OF True]
      by (subst (1 2) show_nat.simps) (simp add: all_digits_def)
  next
    case False
    have "n mod 10 < 10" by simp
    from digit_char_digit [OF this] 1 [OF False] False show ?thesis
      by (subst (1 2) show_nat.simps) (simp add: all_digits_def)
  qed
qed

lemma parse_digits_show: "parse_digits (show_nat n) = Some n"
  using show_nat_digits [of n] by (simp add: parse_digits_def)

lemma show_nat_Cons: "\<exists>c cs. show_nat n = c # cs \<and> CHR ''0'' \<le> c \<and> c \<le> CHR ''9''"
  using show_nat_digits [of n] by (cases "show_nat n") (auto simp: all_digits_def)

lemma parse_show_i64:
  assumes "- (2 ^ 63) \<le> i" "i < 2 ^ 63"
  shows "parse_i64 (show_i64 i) = Some i"
proof (cases "i < 0")
  case True
  then show ?thesis using assms by (simp add: parse_i64_def show_i64_def parse_digits_show)
next
  case False
  obtain c cs where c: "show_nat (nat i) = c # cs" "CHR ''0'' \<le> c" "c \<le> CHR ''9''"
    using show_nat_Cons by blast
  then have "c \<noteq> CHR ''-''" "c \<noteq> CHR ''+''" by (auto simp: less_eq_char_def)
  with c(1) False assms parse_digits_show [of "nat i"] show ?thesis
    by (simp add: parse_i64_def show_i64_def)
qed

lemma split_join:
  "ps \<noteq> [] \<Longrightarrow> \<forall>p \<in> set ps. c \<notin> set p \<Longrightarrow> split_on c (join [c] ps) = ps"
proof (induction "[c]" ps rule: join.induct)
  case (2 p)
  have "c \<notin> set p \<Longrightarrow> split_on c p = [p]" by (induction p) auto
  with 2 show ?case by simp
next
  case (3 p q ps)
  have "c \<notin> set p \<Longrightarrow> split_on c (p @ c # s) = p # split_on c s" for s by (induction p) auto
  with 3 show ?case by simp
qed simp

lemma show_nat_chars: "x \<in> set (show_nat n) \<Longrightarrow> CHR ''0'' \<le> x \<and> x \<le> CHR ''9''"
  using show_nat_digits [of n] by (auto simp: all_digits_def list_all_iff)

end
