(* ===== verification/Sample.thy ===== *)
theory Sample
  imports Schema
begin

text \<open>
  A concrete instance of the external code and a small concrete database, on which the properties
  are instantiated.  Decimals are printed as a sign, the numerator and the denominator in unary; the
  printing and the parsing are inverse to each other.
\<close>

section \<open>A decimal codec\<close>

definition unary :: "nat \<Rightarrow> string" where
  "unary n = replicate n CHR ''1''"

definition show_dec0 :: "decimal \<Rightarrow> string" where
  "show_dec0 q = (case quotient_of q of (n, m) \<Rightarrow>
     (if n < 0 then CHR ''-'' else CHR ''+'') # unary (nat \<bar>n\<bar>) @ CHR ''/'' # unary (nat m))"

definition parse_dec0 :: "string \<Rightarrow> decimal option" where
  "parse_dec0 s = (case s of
       [] \<Rightarrow> None
     | c # cs \<Rightarrow>
        if s = ''0'' then Some 0
        else let n = int (length (takeWhile (\<lambda>x. x = CHR ''1'') cs));
                 m = int (length (tl (dropWhile (\<lambda>x. x = CHR ''1'') cs)))
             in if (c = CHR ''-'' \<or> c = CHR ''+'') \<and> 0 < m
                then Some (of_int (if c = CHR ''-'' then - n else n) / of_int m) else None)"

lemma takeWhile_unary: "takeWhile (\<lambda>x. x = CHR ''1'') (unary n @ CHR ''/'' # ys) = unary n"
  and dropWhile_unary: "dropWhile (\<lambda>x. x = CHR ''1'') (unary n @ CHR ''/'' # ys) = CHR ''/'' # ys"
  by (induction n) (simp_all add: unary_def)

lemma parse_show_dec0 [simp]: "parse_dec0 (show_dec0 q) = Some q"
proof -
  obtain n m where nm: "quotient_of q = (n, m)" by fastforce
  have "0 < m" using nm quotient_of_denom_pos by auto
  have q: "q = of_int n / of_int m" using nm quotient_of_div by auto
  have len: "length (unary k) = k" for k by (simp add: unary_def)
  have "parse_dec0 (show_dec0 q) = Some (of_int n / of_int m)"
    using \<open>0 < m\<close>
    by (simp add: show_dec0_def nm parse_dec0_def takeWhile_unary dropWhile_unary len Let_def)
  then show ?thesis by (simp add: q)
qed

lemma parse_dec0_zero [simp]: "parse_dec0 ''0'' = Some 0"
  by (simp add: parse_dec0_def)

section \<open>A policy, an envelope and the external code\<close>

definition policy0 :: policy_snapshot where
  "policy0 = \<lparr>max_signal_age_seconds = 60, decision_window_seconds = 30, price_tolerance_bps = 200,
     tick_size = show_dec0 (1/100), min_price = show_dec0 (1/100), max_price = show_dec0 (99/100),
     max_order_notional = show_dec0 5, price_tolerance_abs = None, max_order_shares = None,
     balance_within_market = False, min_leader_trade_size = show_dec0 1,
     allow_repeated_market_direction = False, size_ratio = None, maker_only = False\<rparr>"

definition envelope0 :: prepared_order_envelope where
  "envelope0 = \<lparr>en_token_id = ''7'', en_side = ''BUY'', en_price = show_dec0 (3/5), en_size = show_dec0 5,
     en_buy_budget_usdc = Some (show_dec0 3), en_buy_shares_exact = False, en_salt = 1,
     en_order_type = ''FAK'', en_expires_at = None, en_post_only = False,
     en_expected_taker_order_id = ''0xa'', en_signed_order_json = ''{}''\<rparr>"

definition ext0 :: ext where
  "ext0 = \<lparr>parse_dec = parse_dec0, show_dec = show_dec0, div_dec = (/), scale_dec = (\<lambda>_. 2),
     parse_time = (\<lambda>s. map_option floor (parse_dec0 s)), show_time = (\<lambda>t. show_dec0 (of_int t)), show_sql_time = (\<lambda>t. show_dec0 (of_int t)),
     policy_to_json = (\<lambda>_. Some ''{}''), policy_of_json = (\<lambda>_. Some policy0),
     envelope_to_json = (\<lambda>_. Some ''{}''), envelope_of_json = (\<lambda>_. Some envelope0),
     order_type_of_json = (\<lambda>_. Some ''FAK''), is_json_object = (\<lambda>_. True), u256_ok = (\<lambda>_. True),
     hash_str = (\<lambda>_. 0), hash_account_token = (\<lambda>_ _. 0), reprint_dec = (\<lambda>s. s),
     rfc3339_millis = (\<lambda>t. Some (show_dec0 (of_int t)))\<rparr>"

lemma ext0_simps [simp]:
  "parse_dec ext0 = parse_dec0" "show_dec ext0 = show_dec0" "div_dec ext0 = (/)"
  "parse_time ext0 (show_dec0 q) = Some \<lfloor>q\<rfloor>" "show_time ext0 t = show_dec0 (of_int t)" "show_sql_time ext0 t = show_dec0 (of_int t)"
  "policy_to_json ext0 p = Some ''{}''" "policy_of_json ext0 j = Some policy0"
  "envelope_to_json ext0 v = Some ''{}''" "envelope_of_json ext0 j = Some envelope0"
  "order_type_of_json ext0 j = Some ''FAK''" "scale_dec ext0 j = 2" "u256_ok ext0 j" "is_json_object ext0 j"
  "reprint_dec ext0 s = s" "rfc3339_millis ext0 t = Some (show_dec0 (of_int t))"
  by (simp_all add: ext0_def)

lemma ext0_dec_codec: "dec_codec ext0"
  by (simp add: dec_codec_def)

lemma ext0_reprint_codec: "reprint_codec ext0"
  by (simp add: reprint_codec_def)

lemma ext0_time_codec: "time_codec ext0"
  by (simp add: time_codec_def)

section \<open>A database\<close>

definition event0 :: leader_event_row where
  "event0 = \<lparr>le_id = 1, le_canonical_event_key = ''k1'', le_leader_id = 1, le_condition_id = ''c'',
     le_token_id = ''7'', le_outcome_index = 0, le_side = ''BUY'', le_size = show_dec0 5,
     le_price = show_dec0 (3/5), le_tx_hash = None, le_occurred_at = show_dec0 0,
     le_observed_at = show_dec0 0, le_realtime_observed = True\<rparr>"

definition intent0 :: copy_intent_row where
  "intent0 = \<lparr>ci_id = 1, ci_event_id = 1, ci_account_id = 1, ci_leader_id = 1, ci_token_id = ''7'',
     ci_side = ''BUY'', ci_config_snapshot_json = ''{}'', ci_config_snapshot_hash = ''h'',
     ci_planned_qty = Some (show_dec0 5), ci_planned_price = Some (show_dec0 (3/5)),
     ci_planned_notional_usdc = Some (show_dec0 3), ci_tick_size = None, ci_time_in_force = None,
     ci_decision_deadline_at = Some (show_dec0 30000), ci_reserved_qty = show_dec0 5,
     ci_shard_scheme_version = 1, ci_lane_count = 1, ci_shard_id = 0, ci_status = InProgress,
     ci_rejection_reason = None\<rparr>"

definition attempt0 :: order_attempt_row where
  "attempt0 = \<lparr>oa_id = 1, oa_intent_id = 1, oa_attempt_number = 1, oa_envelope_json = ''{}'',
     oa_status = Prepared, oa_receipt = None, oa_venue_order_id = None, oa_requested_qty = show_dec0 3,
     oa_accepted_qty = None, oa_filled_qty = None, oa_remaining_qty = None,
     oa_accounted_filled_qty = ''0'', oa_failure_detail = None, oa_submission_started_at = None,
     oa_created_at = 0\<rparr>"

text \<open>One account, one enabled leader with a policy, one realtime event, nothing planned yet.\<close>

definition db0 :: db where
  "db0 = \<lparr>accounts = [\<lparr>acc_id = 1, acc_label = ''main'', acc_signing_address = ''0x5'', acc_funder_address = None,
       acc_signature_type = ''eoa''\<rparr>],
     leader_config = [\<lparr>lc_id = 1, lc_label = ''alice'', lc_enabled = True, lc_activation_at = None\<rparr>],
     wallet_aliases = [\<lparr>wa_id = 1, wa_leader_id = 1, wa_address = ''0xa1'', wa_enabled = True\<rparr>],
     leader_policy = [\<lparr>lp_leader_id = 1, lp_policy = policy0, lp_rolling_budget_usdc = None,
       lp_budget_window_seconds = None\<rparr>],
     leader_events = [event0], observations = [], planner_cursor = Map.empty,
     execution_schedule = Some (1, 1), copy_intents = [], market_locks = [], order_attempts = [],
     position_lots = [], reconciliation_cases = [], budget_reservations = [], execution_fuse = [],
     execution_config = None\<rparr>"

text \<open>The same with the event's intent claimed and sized, and one prepared attempt.\<close>

definition db1 :: db where
  "db1 = db0\<lparr>copy_intents := [intent0], order_attempts := [attempt0]\<rparr>"

lemmas sample_defs = db0_def db1_def event0_def intent0_def attempt0_def policy0_def envelope0_def

end
