(* ===== verification/Plan.thy ===== *)
theory Plan
  imports Sample
begin

text \<open>
  Intent planning, \<open>src/src/copytrading/plan.rs\<close>.  \<open>plan_next_batch_with_limit\<close> walks the leader
  events past the account's cursor; each realtime event becomes exactly one intent, pending or
  rejected with a reason, in one transaction with the cursor.  \<open>clk e\<close> is the instant at which the
  event with id \<open>e\<close> is evaluated (\<open>chrono::Utc::now()\<close>).
\<close>

section \<open>Data\<close>

record plan_summary =
  sm_processed :: nat
  sm_pending :: nat
  sm_rejected :: nat

datatype plan_error =
    PlanDatabase string
  | NoExecutionSchedule
  | ScheduleChangedWithPendingWork nat
  | PlanInvalidTimestamp
  | PlanInvalidDecimal string

record schedule =
  sc_shard_scheme_version :: int
  sc_lane_count :: int

record decision =
  dn_config_snapshot_json :: string
  dn_config_snapshot_hash :: string
  dn_shard_id :: int
  dn_rejection_reason :: "string option"
  dn_decision_deadline_at :: "string option"
  dn_allow_repeated_market_direction :: bool

definition default_batch_size :: int where
  "default_batch_size = 200"

section \<open>Evaluating one event\<close>

definition shard_for :: "ext \<Rightarrow> int \<Rightarrow> string \<Rightarrow> int \<Rightarrow> int" where
  "shard_for X account_id token_id lane_count =
     (if lane_count \<le> 1 then 0
      else int (unat (hash_account_token X account_id token_id) mod nat \<bar>lane_count\<bar>))"

text \<open>\<open>format!("{:016x}", h)\<close>\<close>

definition hex16 :: "64 word \<Rightarrow> string" where
  "hex16 w = map (\<lambda>i. ''0123456789abcdef'' ! (unat w div 16 ^ (15 - i) mod 16)) [0..<16]"

text \<open>\<open>TimeDelta::num_seconds\<close> truncates towards zero.\<close>

definition num_seconds :: "int \<Rightarrow> int" where
  "num_seconds ms = (if ms < 0 then - ((- ms) div 1000) else ms div 1000)"

definition reject :: "ext \<Rightarrow> int \<Rightarrow> string \<Rightarrow> decision" where
  "reject X shard_id reason =
     \<lparr>dn_config_snapshot_json = ''{}'', dn_config_snapshot_hash = hex16 (hash_str X ''{}''),
      dn_shard_id = shard_id, dn_rejection_reason = Some reason, dn_decision_deadline_at = None,
      dn_allow_repeated_market_direction = False\<rparr>"

definition decision_status :: "decision \<Rightarrow> intent_status" where
  "decision_status dn = (if dn_rejection_reason dn \<noteq> None then IRejected else Pending)"

definition load_execution_schedule :: "(plan_error, schedule) db_act" where
  "load_execution_schedule = (\<lambda>d. case execution_schedule d of
       None \<Rightarrow> (Inl NoExecutionSchedule, d)
     | Some (v, n) \<Rightarrow> (Inr \<lparr>sc_shard_scheme_version = v, sc_lane_count = n\<rparr>, d))"

definition policy_of_leader :: "int \<Rightarrow> db \<Rightarrow> policy_snapshot option" where
  "policy_of_leader l d = map_option lp_policy (find_row (\<lambda>r. lp_leader_id r = l) (leader_policy d))"

definition evaluate_event ::
  "ext \<Rightarrow> timestamp \<Rightarrow> int \<Rightarrow> leader_event_row \<Rightarrow> schedule \<Rightarrow> (plan_error, decision) db_act" where
  "evaluate_event X now account_id ev sched =
     (let shard_id = shard_for X account_id (le_token_id ev) (sc_lane_count sched) in
      and_then (reads (\<lambda>d. map_option lc_enabled
          (find_row (\<lambda>r. lc_id r = le_leader_id ev) (leader_config d)))) (\<lambda>leader_enabled.
      if leader_enabled \<noteq> Some True then ret (reject X shard_id ''leader is disabled'') else
      and_then (reads (policy_of_leader (le_leader_id ev))) (\<lambda>policy.
      case policy of
        None \<Rightarrow> ret (reject X shard_id ''no policy configured for this leader'')
      | Some policy \<Rightarrow>
      and_then (or_raise PlanInvalidTimestamp (parse_time X (le_occurred_at ev))) (\<lambda>occurred_at.
      and_then (or_raise PlanInvalidTimestamp (parse_time X (le_observed_at ev))) (\<lambda>observed_at.
      if num_seconds (now - occurred_at) > max_signal_age_seconds policy
      then ret (reject X shard_id ''signal age exceeds policy'') else
      and_then (or_raise (PlanInvalidDecimal ''leader_events.size'') (parse_dec X (le_size ev))) (\<lambda>sz.
      and_then (or_raise (PlanInvalidDecimal ''leader_policy.min_leader_trade_size'')
                  (parse_dec X (min_leader_trade_size policy))) (\<lambda>min_size.
      if sz < min_size then ret (reject X shard_id ''leader trade size below policy minimum'') else
      and_then (or_raise (PlanInvalidDecimal ''leader_policy snapshot'') (policy_to_json X policy)) (\<lambda>json.
      ret \<lparr>dn_config_snapshot_json = json, dn_config_snapshot_hash = hex16 (hash_str X json),
           dn_shard_id = shard_id, dn_rejection_reason = None,
           dn_decision_deadline_at =
             Some (show_time X (observed_at + 1000 * decision_window_seconds policy)),
           dn_allow_repeated_market_direction = allow_repeated_market_direction policy\<rparr>))))))))"

section \<open>Planning one event\<close>

definition advance_cursor :: "int \<Rightarrow> int \<Rightarrow> (plan_error, unit) db_act" where
  "advance_cursor account_id event_id =
     modifies (\<lambda>d. d\<lparr>planner_cursor := (planner_cursor d)(account_id \<mapsto> event_id)\<rparr>)"

definition planned_intent_row ::
  "int \<Rightarrow> leader_event_row \<Rightarrow> schedule \<Rightarrow> decision \<Rightarrow> int \<Rightarrow> copy_intent_row" where
  "planned_intent_row account_id ev sched dn i =
     \<lparr>ci_id = i, ci_event_id = le_id ev, ci_account_id = account_id, ci_leader_id = le_leader_id ev,
      ci_token_id = le_token_id ev, ci_side = le_side ev,
      ci_config_snapshot_json = dn_config_snapshot_json dn,
      ci_config_snapshot_hash = dn_config_snapshot_hash dn,
      ci_planned_qty = None, ci_planned_price = None, ci_planned_notional_usdc = None,
      ci_tick_size = None, ci_time_in_force = None,
      ci_decision_deadline_at = dn_decision_deadline_at dn, ci_reserved_qty = ''0'',
      ci_shard_scheme_version = sc_shard_scheme_version sched, ci_lane_count = sc_lane_count sched,
      ci_shard_id = dn_shard_id dn, ci_status = decision_status dn,
      ci_rejection_reason = dn_rejection_reason dn\<rparr>"

text \<open>\<open>INSERT OR IGNORE INTO copy_intents\<close>, unique on (event, account); returns \<open>rows_affected\<close>.\<close>

definition insert_or_ignore_intent ::
  "int \<Rightarrow> leader_event_row \<Rightarrow> schedule \<Rightarrow> decision \<Rightarrow> (plan_error, nat) db_act" where
  "insert_or_ignore_intent account_id ev sched dn = (\<lambda>d.
     if find_row (\<lambda>r. ci_event_id r = le_id ev \<and> ci_account_id r = account_id) (copy_intents d) \<noteq> None
     then (Inr 0, d)
     else and_then (insert_intent (planned_intent_row account_id ev sched dn)) (\<lambda>_. ret 1) d)"

text \<open>\<open>INSERT OR IGNORE INTO market_direction_order_locks\<close>\<close>

definition insert_or_ignore_lock ::
  "int \<Rightarrow> string \<Rightarrow> string \<Rightarrow> int \<Rightarrow> (plan_error, nat) db_act" where
  "insert_or_ignore_lock account_id cond tok intent_id = (\<lambda>d.
     if find_row (\<lambda>r. ml_account_id r = account_id \<and> ml_condition_id r = cond \<and> ml_token_id r = tok
                      \<or> ml_intent_id r = intent_id) (market_locks d) \<noteq> None
     then (Inr 0, d)
     else (Inr 1, d\<lparr>market_locks := market_locks d @
       [\<lparr>ml_account_id = account_id, ml_condition_id = cond, ml_token_id = tok, ml_intent_id = intent_id\<rparr>]\<rparr>))"

definition market_direction_gate ::
  "int \<Rightarrow> leader_event_row \<Rightarrow> decision \<Rightarrow> nat \<Rightarrow> (plan_error, bool) db_act" where
  "market_direction_gate account_id ev dn inserted =
     (if dn_rejection_reason dn = None \<and> inserted = 1 \<and> \<not> dn_allow_repeated_market_direction dn then
        and_then (reads (\<lambda>d. find_row (\<lambda>r. ci_event_id r = le_id ev \<and> ci_account_id r = account_id)
                    (copy_intents d))) (\<lambda>row.
        and_then (or_raise (PlanDatabase ''no rows returned'') row) (\<lambda>ci.
        and_then (insert_or_ignore_lock account_id (le_condition_id ev) (le_token_id ev) (ci_id ci)) (\<lambda>n.
        if n = 1 then ret False else
        and_then (update_intents (\<lambda>r. ci_id r = ci_id ci \<and> ci_status r = Pending)
          (\<lambda>r. r\<lparr>ci_status := IRejected,
                 ci_rejection_reason := Some ''market direction already has a copy order for this account'',
                 ci_decision_deadline_at := None\<rparr>)) (\<lambda>m.
        if m \<noteq> 1 then raise (PlanDatabase ''new market-direction-limited intent was not pending'')
        else ret True))))
      else ret False)"

definition plan_event_tx ::
  "int \<Rightarrow> leader_event_row \<Rightarrow> schedule \<Rightarrow> decision \<Rightarrow> (plan_error, bool) db_act" where
  "plan_event_tx account_id ev sched dn = transaction
     (and_then (insert_or_ignore_intent account_id ev sched dn) (\<lambda>inserted.
      and_then (market_direction_gate account_id ev dn inserted) (\<lambda>market_limit_rejected.
      and_then (advance_cursor account_id (le_id ev)) (\<lambda>_. ret market_limit_rejected))))"

definition plan_one ::
  "ext \<Rightarrow> timestamp \<Rightarrow> int \<Rightarrow> schedule \<Rightarrow> leader_event_row \<Rightarrow> plan_summary \<Rightarrow> (plan_error, plan_summary) db_act"
where
  "plan_one X now account_id sched ev summary =
     (if \<not> le_realtime_observed ev then
        and_then (advance_cursor account_id (le_id ev)) (\<lambda>_.
        ret (summary\<lparr>sm_processed := sm_processed summary + 1\<rparr>))
      else
        and_then (evaluate_event X now account_id ev sched) (\<lambda>dn.
        and_then (plan_event_tx account_id ev sched dn) (\<lambda>market_limit_rejected.
        ret (let s = summary\<lparr>sm_processed := sm_processed summary + 1\<rparr>
             in if dn_rejection_reason dn \<noteq> None \<or> market_limit_rejected
                then s\<lparr>sm_rejected := sm_rejected s + 1\<rparr> else s\<lparr>sm_pending := sm_pending s + 1\<rparr>))))"

fun plan_events ::
  "ext \<Rightarrow> (int \<Rightarrow> timestamp) \<Rightarrow> int \<Rightarrow> schedule \<Rightarrow> leader_event_row list \<Rightarrow> plan_summary
     \<Rightarrow> (plan_error, plan_summary) db_act" where
  "plan_events X clk account_id sched [] summary = ret summary"
| "plan_events X clk account_id sched (ev # evs) summary =
     and_then (plan_one X (clk (le_id ev)) account_id sched ev summary)
       (plan_events X clk account_id sched evs)"

text \<open>\<open>SELECT ... WHERE id > ? ORDER BY id LIMIT ?\<close>; a negative limit is no limit in SQLite.\<close>

definition events_past_cursor :: "int \<Rightarrow> int \<Rightarrow> db \<Rightarrow> leader_event_row list" where
  "events_past_cursor account_id batch_size d =
     (let cursor = (case planner_cursor d account_id of None \<Rightarrow> 0 | Some c \<Rightarrow> c);
          evs = sort_key le_id (filter (\<lambda>r. le_id r > cursor) (leader_events d))
      in if batch_size < 0 then evs else take (nat batch_size) evs)"

definition plan_next_batch_with_limit ::
  "ext \<Rightarrow> (int \<Rightarrow> timestamp) \<Rightarrow> int \<Rightarrow> int \<Rightarrow> (plan_error, plan_summary) db_act" where
  "plan_next_batch_with_limit X clk account_id batch_size =
     and_then load_execution_schedule (\<lambda>sched.
     and_then (reads (events_past_cursor account_id batch_size)) (\<lambda>evs.
     plan_events X clk account_id sched evs \<lparr>sm_processed = 0, sm_pending = 0, sm_rejected = 0\<rparr>))"

definition plan_next_batch :: "ext \<Rightarrow> (int \<Rightarrow> timestamp) \<Rightarrow> int \<Rightarrow> (plan_error, plan_summary) db_act" where
  "plan_next_batch X clk account_id = plan_next_batch_with_limit X clk account_id default_batch_size"

section \<open>The schedule check at startup\<close>

definition nonterminal_status :: "intent_status \<Rightarrow> bool" where
  "nonterminal_status st \<longleftrightarrow> st = Pending \<or> st = InProgress \<or> st = PartiallyFilled \<or> st = NeedsReconcile"

definition verify_schedule_compatible_with_pending_work :: "(plan_error, unit) db_act" where
  "verify_schedule_compatible_with_pending_work =
     and_then load_execution_schedule (\<lambda>sched.
     and_then (reads (\<lambda>d. length (filter (\<lambda>r. nonterminal_status (ci_status r) \<and>
         (ci_shard_scheme_version r \<noteq> sc_shard_scheme_version sched \<or> ci_lane_count r \<noteq> sc_lane_count sched))
         (copy_intents d)))) (\<lambda>mismatched.
     if mismatched > 0 then raise (ScheduleChangedWithPendingWork mismatched) else ret ()))"

section \<open>The effect of one planning transaction\<close>

lemma evaluate_event_frame: "evaluate_event X now acc ev sched d = (r, d') \<Longrightarrow> d' = d"
  unfolding evaluate_event_def
  by (auto simp: act_simps Let_def split: option.splits if_splits)

abbreviation intent_for :: "int \<Rightarrow> int \<Rightarrow> copy_intent_row \<Rightarrow> bool" where
  "intent_for e acc r \<equiv> ci_event_id r = e \<and> ci_account_id r = acc"

abbreviation lock_for :: "int \<Rightarrow> string \<Rightarrow> string \<Rightarrow> market_lock_row \<Rightarrow> bool" where
  "lock_for acc cond tok r \<equiv> ml_account_id r = acc \<and> ml_condition_id r = cond \<and> ml_token_id r = tok"

abbreviation cursor_to :: "int \<Rightarrow> int \<Rightarrow> db \<Rightarrow> db" where
  "cursor_to acc e d \<equiv> d\<lparr>planner_cursor := (planner_cursor d)(acc \<mapsto> e)\<rparr>"

definition direction_rejected :: "copy_intent_row \<Rightarrow> copy_intent_row" where
  "direction_rejected r = r\<lparr>ci_status := IRejected,
     ci_rejection_reason := Some ''market direction already has a copy order for this account'',
     ci_decision_deadline_at := None\<rparr>"

definition gated :: "decision \<Rightarrow> bool" where
  "gated dn \<longleftrightarrow> dn_rejection_reason dn = None \<and> \<not> dn_allow_repeated_market_direction dn"

lemma update_new_row:
  assumes "\<And>r. r \<in> set rs \<Longrightarrow> \<not> P r" "P row"
  shows "update_rows P f (rs @ [row]) = rs @ [f row] \<and> length (filter P (rs @ [row])) = 1"
  using assms update_rows_none [of rs P f] by (auto simp: update_rows_def)

text \<open>
  One equation for the whole transaction: it never fails, and it has four outcomes.
\<close>

lemma plan_event_tx_eq:
  "plan_event_tx acc ev sched dn d =
    (let i = next_id ci_id (copy_intents d);
         row = planned_intent_row acc ev sched dn i;
         lock = \<lparr>ml_account_id = acc, ml_condition_id = le_condition_id ev,
                 ml_token_id = le_token_id ev, ml_intent_id = i\<rparr>
     in if find_row (intent_for (le_id ev) acc) (copy_intents d) \<noteq> None
        then (Inr False, cursor_to acc (le_id ev) d)
        else if \<not> gated dn
        then (Inr False, cursor_to acc (le_id ev) (d\<lparr>copy_intents := copy_intents d @ [row]\<rparr>))
        else if find_row (\<lambda>r. lock_for acc (le_condition_id ev) (le_token_id ev) r \<or> ml_intent_id r = i)
                  (market_locks d) \<noteq> None
        then (Inr True, cursor_to acc (le_id ev)
               (d\<lparr>copy_intents := copy_intents d @ [direction_rejected row]\<rparr>))
        else (Inr False, cursor_to acc (le_id ev)
               (d\<lparr>copy_intents := copy_intents d @ [row], market_locks := market_locks d @ [lock]\<rparr>)))"
proof (cases "find_row (intent_for (le_id ev) acc) (copy_intents d) = None")
  case False
  then show ?thesis
    by (auto simp: plan_event_tx_def transaction_def insert_or_ignore_intent_def
        market_direction_gate_def advance_cursor_def act_simps Let_def)
next
  case True
  let ?i = "next_id ci_id (copy_intents d)"
  let ?row = "planned_intent_row acc ev sched dn ?i"
  let ?P = "\<lambda>r. ci_id r = ?i \<and> ci_status r = Pending"
  let ?f = "\<lambda>r. r\<lparr>ci_status := IRejected,
     ci_rejection_reason := Some ''market direction already has a copy order for this account'',
     ci_decision_deadline_at := None\<rparr>"
  have ins: "insert_or_ignore_intent acc ev sched dn d = (Inr 1, d\<lparr>copy_intents := copy_intents d @ [?row]\<rparr>)"
    using True by (simp add: insert_or_ignore_intent_def act_simps sql_insert_def Let_def put_intents_def)
  have found: "find_row (intent_for (le_id ev) acc) (copy_intents d @ [?row]) = Some ?row"
    using True by (simp add: find_row_append planned_intent_row_def)
  have old: "\<And>r. r \<in> set (copy_intents d) \<Longrightarrow> \<not> ?P r"
    using next_id_fresh [of ci_id "copy_intents d"] by (auto simp: image_iff)
  have upd: "update_rows ?P ?f (copy_intents d @ [?row]) = copy_intents d @ [direction_rejected ?row] \<and>
      length (filter ?P (copy_intents d @ [?row])) = 1" if "gated dn"
  proof -
    have "?P ?row" using that by (simp add: planned_intent_row_def decision_status_def gated_def)
    from update_new_row [of "copy_intents d" ?P ?row ?f, OF old this] show ?thesis
      by (simp add: direction_rejected_def)
  qed
  show ?thesis
  proof (cases "gated dn")
    case g: False
    then show ?thesis using True ins
      by (auto simp: plan_event_tx_def transaction_def market_direction_gate_def gated_def
          advance_cursor_def act_simps Let_def)
  next
    case g: True
    have ci: "ci_id ?row = ?i" by (simp add: planned_intent_row_def)
    show ?thesis
      using True ins found upd [OF g] g
      by (simp add: plan_event_tx_def transaction_def market_direction_gate_def gated_def
          insert_or_ignore_lock_def advance_cursor_def act_simps Let_def sql_update_def put_intents_def ci
          del: filter.simps filter_append)
  qed
qed

section \<open>A whole batch\<close>

text \<open>What a freshly planned row says about the event it was planned from.\<close>

definition planned_from :: "int \<Rightarrow> leader_event_row \<Rightarrow> copy_intent_row \<Rightarrow> bool" where
  "planned_from acc ev r \<longleftrightarrow>
     intent_for (le_id ev) acc r \<and> ci_leader_id r = le_leader_id ev \<and> ci_token_id r = le_token_id ev \<and>
     ci_side r = le_side ev \<and> ci_planned_qty r = None \<and> ci_planned_price r = None \<and>
     ci_planned_notional_usdc r = None \<and> ci_reserved_qty r = ''0'' \<and>
     (if ci_rejection_reason r = None then ci_status r = Pending
      else ci_status r = IRejected \<and> ci_decision_deadline_at r = None)"

definition unique_intents :: "db \<Rightarrow> bool" where
  "unique_intents d \<longleftrightarrow> distinct (map (\<lambda>r. (ci_event_id r, ci_account_id r)) (copy_intents d))"

text \<open>Planning touches only intents, locks and the cursor.\<close>

definition plan_frame :: "db \<Rightarrow> db \<Rightarrow> bool" where
  "plan_frame d d' \<longleftrightarrow>
     d'\<lparr>copy_intents := copy_intents d, market_locks := market_locks d, planner_cursor := planner_cursor d\<rparr> = d"

lemma evaluate_event_deadline:
  "evaluate_event X now acc ev sched d = (Inr dn, d') \<Longrightarrow>
     (dn_rejection_reason dn \<noteq> None \<longrightarrow> dn_decision_deadline_at dn = None)"
  unfolding evaluate_event_def
  by (auto simp: act_simps Let_def reject_def split: option.splits if_splits)

lemma planned_from_row:
  assumes "dn_rejection_reason dn \<noteq> None \<longrightarrow> dn_decision_deadline_at dn = None"
  shows "planned_from acc ev (planned_intent_row acc ev sched dn i)"
    and "gated dn \<Longrightarrow> planned_from acc ev (direction_rejected (planned_intent_row acc ev sched dn i))"
  using assms
  by (auto simp: planned_from_def planned_intent_row_def decision_status_def direction_rejected_def)

lemma plan_event_tx_rows:
  assumes "dn_rejection_reason dn \<noteq> None \<longrightarrow> dn_decision_deadline_at dn = None"
  obtains b d' where "plan_event_tx acc ev sched dn d = (Inr b, d')"
    "planner_cursor d' = (planner_cursor d)(acc \<mapsto> le_id ev)" "plan_frame d d'"
    "find_row (intent_for (le_id ev) acc) (copy_intents d) \<noteq> None \<and> copy_intents d' = copy_intents d \<or>
     find_row (intent_for (le_id ev) acc) (copy_intents d) = None \<and>
     (\<exists>row. copy_intents d' = copy_intents d @ [row] \<and> planned_from acc ev row \<and>
        ci_id row = next_id ci_id (copy_intents d))"
proof -
  have "ci_id (planned_intent_row acc ev sched dn i) = i \<and>
      ci_id (direction_rejected (planned_intent_row acc ev sched dn i)) = i" for i
    by (simp add: planned_intent_row_def direction_rejected_def)
  note facts = this planned_from_row [OF assms]
  show thesis
    by (rule that [of "fst (projr (fst (plan_event_tx acc ev sched dn d)), ())"
          "snd (plan_event_tx acc ev sched dn d)"])
      (use facts in \<open>auto simp: plan_event_tx_eq Let_def plan_frame_def\<close>)
qed

lemma plan_one_error: "plan_one X now acc sched ev s d = (Inl e, d') \<Longrightarrow> d' = d"
proof -
  assume a: "plan_one X now acc sched ev s d = (Inl e, d')"
  then have "le_realtime_observed ev"
    by (auto simp: plan_one_def advance_cursor_def act_simps split: if_splits)
  moreover obtain r d1 where ev: "evaluate_event X now acc ev sched d = (r, d1)" by fastforce
  moreover have "d1 = d" using evaluate_event_frame [OF ev] .
  ultimately show ?thesis
    using a transaction_error
    by (auto simp: plan_one_def and_then_def ret_def plan_event_tx_def split: sum.splits prod.splits)
qed

definition plan_step_ok ::
  "int \<Rightarrow> leader_event_row \<Rightarrow> plan_summary \<Rightarrow> plan_summary \<Rightarrow> db \<Rightarrow> db \<Rightarrow> bool" where
  "plan_step_ok acc ev s s' d d' \<longleftrightarrow>
     sm_processed s' = sm_processed s + 1 \<and>
     sm_pending s' + sm_rejected s' = sm_pending s + sm_rejected s + (if le_realtime_observed ev then 1 else 0) \<and>
     planner_cursor d' = (planner_cursor d)(acc \<mapsto> le_id ev) \<and> plan_frame d d' \<and>
     (copy_intents d' = copy_intents d \<and>
        (le_realtime_observed ev \<longrightarrow> find_row (intent_for (le_id ev) acc) (copy_intents d) \<noteq> None) \<or>
      le_realtime_observed ev \<and> find_row (intent_for (le_id ev) acc) (copy_intents d) = None \<and>
      (\<exists>row. copy_intents d' = copy_intents d @ [row] \<and> planned_from acc ev row \<and>
        ci_id row = next_id ci_id (copy_intents d)))"

lemma plan_one_ok:
  assumes "plan_one X now acc sched ev s d = (Inr s', d')"
  shows "plan_step_ok acc ev s s' d d'"
proof (cases "le_realtime_observed ev")
  case False
  with assms show ?thesis
    by (auto simp: plan_one_def advance_cursor_def act_simps plan_step_ok_def plan_frame_def)
next
  case True
  with assms have "\<exists>dn d0. evaluate_event X now acc ev sched d = (Inr dn, d0)"
    by (auto simp: plan_one_def and_then_ok)
  then obtain dn where dn: "evaluate_event X now acc ev sched d = (Inr dn, d)"
    using evaluate_event_frame by blast
  obtain b d1 where tx: "plan_event_tx acc ev sched dn d = (Inr b, d1)"
    "planner_cursor d1 = (planner_cursor d)(acc \<mapsto> le_id ev)" "plan_frame d d1"
    "find_row (intent_for (le_id ev) acc) (copy_intents d) \<noteq> None \<and> copy_intents d1 = copy_intents d \<or>
     find_row (intent_for (le_id ev) acc) (copy_intents d) = None \<and>
     (\<exists>row. copy_intents d1 = copy_intents d @ [row] \<and> planned_from acc ev row \<and>
        ci_id row = next_id ci_id (copy_intents d))"
    by (rule plan_event_tx_rows [OF evaluate_event_deadline [OF dn], of acc ev sched d])
  have "d' = d1 \<and> sm_processed s' = sm_processed s + 1 \<and>
      sm_pending s' + sm_rejected s' = Suc (sm_pending s + sm_rejected s)"
    using assms True dn tx(1)
    by (simp add: plan_one_def and_then_def ret_def Let_def) (auto split: if_splits)
  with tx True show ?thesis unfolding plan_step_ok_def by (simp del: not_None_eq) blast
qed

lemma plan_frame_trans: "plan_frame d d1 \<Longrightarrow> plan_frame d1 d2 \<Longrightarrow> plan_frame d d2"
  by (cases d, cases d1, cases d2) (simp add: plan_frame_def)

definition plan_batch_ok ::
  "int \<Rightarrow> leader_event_row list \<Rightarrow> plan_summary \<Rightarrow> plan_summary \<Rightarrow> db \<Rightarrow> db \<Rightarrow> bool" where
  "plan_batch_ok acc evs s s' d d' \<longleftrightarrow>
     sm_processed s' = sm_processed s + length evs \<and>
     sm_pending s' + sm_rejected s' = sm_pending s + sm_rejected s + length (filter le_realtime_observed evs) \<and>
     planner_cursor d' = (if evs = [] then planner_cursor d else (planner_cursor d)(acc \<mapsto> le_id (last evs))) \<and>
     plan_frame d d' \<and>
     (\<exists>new. copy_intents d' = copy_intents d @ new \<and>
        (\<forall>r \<in> set new. \<exists>ev \<in> set evs. le_realtime_observed ev \<and> planned_from acc ev r)) \<and>
     (\<forall>ev \<in> set evs. le_realtime_observed ev \<longrightarrow>
        (\<exists>r \<in> set (copy_intents d'). intent_for (le_id ev) acc r))"

lemma plan_batch_ok_cons:
  assumes step: "plan_step_ok acc ev s s1 d d1" and rest: "plan_batch_ok acc evs s1 s' d1 d'"
  shows "plan_batch_ok acc (ev # evs) s s' d d'"
proof -
  obtain new1 where new1: "copy_intents d1 = copy_intents d @ new1"
    "\<forall>r \<in> set new1. le_realtime_observed ev \<and> planned_from acc ev r"
    "le_realtime_observed ev \<longrightarrow> (\<exists>r \<in> set (copy_intents d1). intent_for (le_id ev) acc r)"
  proof (cases "copy_intents d1 = copy_intents d")
    case True
    with step have "le_realtime_observed ev \<longrightarrow> find_row (intent_for (le_id ev) acc) (copy_intents d) \<noteq> None"
      by (auto simp: plan_step_ok_def)
    then have "le_realtime_observed ev \<longrightarrow> (\<exists>r \<in> set (copy_intents d1). intent_for (le_id ev) acc r)"
      using True by (auto dest: find_row_Some)
    with True that [of "[]"] show thesis by simp
  next
    case False
    with step obtain row where row: "copy_intents d1 = copy_intents d @ [row]" "planned_from acc ev row"
      "le_realtime_observed ev" by (auto simp: plan_step_ok_def)
    then show thesis using that [of "[row]"] by (auto simp: planned_from_def)
  qed
  from rest obtain new where new: "copy_intents d' = copy_intents d1 @ new"
    "\<forall>r \<in> set new. \<exists>ev \<in> set evs. le_realtime_observed ev \<and> planned_from acc ev r"
    by (auto simp: plan_batch_ok_def)
  have rows: "copy_intents d' = copy_intents d @ (new1 @ new)"
    "\<forall>r \<in> set (new1 @ new). \<exists>e \<in> set (ev # evs). le_realtime_observed e \<and> planned_from acc e r"
    using new1(1,2) new by auto
  have covered: "\<forall>e \<in> set (ev # evs). le_realtime_observed e \<longrightarrow>
      (\<exists>r \<in> set (copy_intents d'). intent_for (le_id e) acc r)"
    using new1(3) new(1) rest by (auto simp: plan_batch_ok_def)
  have frame: "plan_frame d d'"
    using step rest plan_frame_trans unfolding plan_step_ok_def plan_batch_ok_def by blast
  have counts: "sm_processed s' = sm_processed s + length (ev # evs)"
    "sm_pending s' + sm_rejected s' =
       sm_pending s + sm_rejected s + length (filter le_realtime_observed (ev # evs))"
    "planner_cursor d' = (planner_cursor d)(acc \<mapsto> le_id (last (ev # evs)))"
    using step rest by (auto simp: plan_step_ok_def plan_batch_ok_def)
  have ex: "\<exists>new. copy_intents d' = copy_intents d @ new \<and>
      (\<forall>r \<in> set new. \<exists>e \<in> set (ev # evs). le_realtime_observed e \<and> planned_from acc e r)"
    using rows by (intro exI [of _ "new1 @ new"] conjI)
  have cur: "planner_cursor d' = (if ev # evs = [] then planner_cursor d
      else (planner_cursor d)(acc \<mapsto> le_id (last (ev # evs))))"
    by (simp only: counts(3) list.distinct if_False)
  show ?thesis
    unfolding plan_batch_ok_def
    by (intro conjI) (rule counts(1), rule counts(2), rule cur, rule frame, rule ex, rule covered)
qed

lemma plan_events_ok:
  "plan_events X clk acc sched evs s d = (Inr s', d') \<Longrightarrow> plan_batch_ok acc evs s s' d d'"
proof (induction evs arbitrary: s d)
  case Nil
  then show ?case by (auto simp: ret_def plan_batch_ok_def plan_frame_def)
next
  case (Cons ev evs)
  then obtain s1 d1 where "plan_one X (clk (le_id ev)) acc sched ev s d = (Inr s1, d1)"
    "plan_events X clk acc sched evs s1 d1 = (Inr s', d')" by (auto simp: and_then_ok)
  with Cons.IH plan_one_ok plan_batch_ok_cons show ?case by blast
qed

text \<open>
  A run that stops at a later event keeps what it committed before: the state is the state after a
  successfully planned prefix.
\<close>

lemma plan_events_prefix:
  "plan_events X clk acc sched evs s d = (Inl e, d') \<Longrightarrow>
     \<exists>done ev rest s1. evs = done @ ev # rest \<and> plan_events X clk acc sched done s d = (Inr s1, d')"
proof (induction evs arbitrary: s d)
  case Nil
  then show ?case by (simp add: ret_def)
next
  case (Cons ev evs)
  show ?case
  proof (cases "plan_one X (clk (le_id ev)) acc sched ev s d")
    case (Pair r d1)
    show ?thesis
    proof (cases r)
      case (Inl e1)
      with Pair Cons.prems have "d' = d1" by (simp add: and_then_def)
      moreover have "d1 = d" using plan_one_error Pair Inl by blast
      ultimately have "plan_events X clk acc sched [] s d = (Inr s, d')" by (simp add: ret_def)
      then show ?thesis by blast
    next
      case (Inr s1)
      with Pair Cons.prems have "plan_events X clk acc sched evs s1 d1 = (Inl e, d')"
        by (simp add: and_then_def)
      from Cons.IH [OF this] obtain dn e' rest s2 where
        "evs = dn @ e' # rest" "plan_events X clk acc sched dn s1 d1 = (Inr s2, d')" by blast
      moreover from this Pair Inr have "plan_events X clk acc sched (ev # dn) s d = (Inr s2, d')"
        by (simp add: and_then_def)
      ultimately show ?thesis by (metis append_Cons)
    qed
  qed
qed

lemma plan_step_unique:
  assumes "plan_step_ok acc ev s s' d d'" "unique_intents d"
  shows "unique_intents d'"
proof (cases "copy_intents d' = copy_intents d")
  case True
  with assms(2) show ?thesis by (simp add: unique_intents_def)
next
  case False
  with assms(1) obtain row where row: "copy_intents d' = copy_intents d @ [row]" "planned_from acc ev row"
    "find_row (intent_for (le_id ev) acc) (copy_intents d) = None" by (auto simp: plan_step_ok_def)
  then have "(ci_event_id row, ci_account_id row) \<notin> (\<lambda>r. (ci_event_id r, ci_account_id r)) ` set (copy_intents d)"
    by (auto simp: find_row_None planned_from_def)
  with row(1) assms(2) show ?thesis by (simp add: unique_intents_def)
qed

lemma plan_events_unique:
  "plan_events X clk acc sched evs s d = (Inr s', d') \<Longrightarrow> unique_intents d \<Longrightarrow> unique_intents d'"
proof (induction evs arbitrary: s d)
  case Nil
  then show ?case by (simp add: ret_def)
next
  case (Cons ev evs)
  then obtain s1 d1 where "plan_one X (clk (le_id ev)) acc sched ev s d = (Inr s1, d1)"
    "plan_events X clk acc sched evs s1 d1 = (Inr s', d')" by (auto simp: and_then_ok)
  with Cons plan_one_ok plan_step_unique show ?case by blast
qed

text \<open>
  C10. A planning run never skips a realtime event and never invents one.  When
  \<open>plan_next_batch_with_limit\<close> returns, it processed exactly the events past the cursor up to the
  limit; every realtime one has an intent of this account; the intents it added are appended behind
  the existing ones, each planned from one of those events as pending without a reason or rejected
  with one, unsized and unreserved; backfill-only events produced none; the counts add up; the cursor
  is at the last event; and nothing but intents, direction locks and the cursor changed.
\<close>

theorem plan_batch_complete:
  assumes "plan_next_batch_with_limit X clk acc n d = (Inr s, d')"
  shows "plan_batch_ok acc (events_past_cursor acc n d)
           \<lparr>sm_processed = 0, sm_pending = 0, sm_rejected = 0\<rparr> s d d'"
proof -
  from assms obtain sched where
    "plan_events X clk acc sched (events_past_cursor acc n d)
       \<lparr>sm_processed = 0, sm_pending = 0, sm_rejected = 0\<rparr> d = (Inr s, d')"
    by (auto simp: plan_next_batch_with_limit_def load_execution_schedule_def and_then_def reads_def
        split: option.splits)
  then show ?thesis by (rule plan_events_ok)
qed

lemma plan_sample_run:
  "\<exists>s d'. plan_next_batch_with_limit ext0 (\<lambda>_. 0) 1 10 db0 = (Inr s, d') \<and>
     sm_pending s = 1 \<and> length (copy_intents d') = 1"
  by (simp add: plan_next_batch_with_limit_def load_execution_schedule_def events_past_cursor_def
      plan_one_def evaluate_event_def plan_event_tx_eq policy_of_leader_def act_simps Let_def sample_defs
      num_seconds_def gated_def planned_intent_row_def next_id_def)

theorem plan_batch_complete_witness:
  "\<exists>s d'. plan_next_batch_with_limit ext0 (\<lambda>_. 0) 1 10 db0 = (Inr s, d') \<and>
     plan_batch_ok 1 (events_past_cursor 1 10 db0) \<lparr>sm_processed = 0, sm_pending = 0, sm_rejected = 0\<rparr> s db0 d' \<and>
     sm_pending s = 1"
proof -
  from plan_sample_run obtain s d' where
    run: "plan_next_batch_with_limit ext0 (\<lambda>_. 0) 1 10 db0 = (Inr s, d')" and "sm_pending s = 1" by blast
  with plan_batch_complete [OF run] show ?thesis by blast
qed

text \<open>
  Replaying events creates no second intent: whatever a planning run returns, an error at a later
  event included, every (event, account) pair still has at most one intent.
\<close>

lemma plan_batch_unique:
  assumes "plan_next_batch_with_limit X clk acc n d = (r, d')" "unique_intents d"
  shows "unique_intents d'"
proof (cases "execution_schedule d")
  case None
  with assms show ?thesis
    by (auto simp: plan_next_batch_with_limit_def load_execution_schedule_def and_then_def)
next
  case (Some vn)
  let ?s0 = "\<lparr>sm_processed = 0, sm_pending = 0, sm_rejected = 0\<rparr>"
  from Some assms(1) obtain sched where
    run: "plan_events X clk acc sched (events_past_cursor acc n d) ?s0 d = (r, d')"
    by (cases vn) (auto simp: plan_next_batch_with_limit_def load_execution_schedule_def and_then_def reads_def)
  show ?thesis
  proof (cases r)
    case (Inr s)
    with run assms(2) show ?thesis using plan_events_unique by blast
  next
    case (Inl e)
    with run plan_events_prefix obtain dn s1 where
      "plan_events X clk acc sched dn ?s0 d = (Inr s1, d')" by blast
    with assms(2) show ?thesis using plan_events_unique by blast
  qed
qed

section \<open>Properties of a single decision\<close>

text \<open>
  When an event becomes an executable decision.  \<open>evaluate_event\<close> accepts exactly an event of an
  enabled leader with a policy whose age is within the policy's limit and whose size reaches the
  policy's minimum; the decision freezes the complete policy and its deadline is the observation
  instant plus the policy's decision window.  Every other outcome is a decision with a reason or an
  error; the database is never changed.
\<close>

theorem evaluate_event_accepts:
  assumes "dn_rejection_reason dn = None"
  shows "evaluate_event X now acc ev sched d = (Inr dn, d') \<longleftrightarrow>
     d' = d \<and> (\<exists>lc p occ obs sz mn json.
        find_row (\<lambda>r. lc_id r = le_leader_id ev) (leader_config d) = Some lc \<and> lc_enabled lc \<and>
        policy_of_leader (le_leader_id ev) d = Some p \<and>
        parse_time X (le_occurred_at ev) = Some occ \<and> parse_time X (le_observed_at ev) = Some obs \<and>
        num_seconds (now - occ) \<le> max_signal_age_seconds p \<and>
        parse_dec X (le_size ev) = Some sz \<and> parse_dec X (min_leader_trade_size p) = Some mn \<and>
        mn \<le> sz \<and> policy_to_json X p = Some json \<and>
        dn = \<lparr>dn_config_snapshot_json = json, dn_config_snapshot_hash = hex16 (hash_str X json),
             dn_shard_id = shard_for X acc (le_token_id ev) (sc_lane_count sched),
             dn_rejection_reason = None,
             dn_decision_deadline_at = Some (show_time X (obs + 1000 * decision_window_seconds p)),
             dn_allow_repeated_market_direction = allow_repeated_market_direction p\<rparr>)"
    (is "?l \<longleftrightarrow> ?r")
proof
  assume l: ?l
  then have "d' = d" by (rule evaluate_event_frame)
  with l assms show ?r
    by (auto simp: evaluate_event_def act_simps Let_def reject_def not_less split: option.splits if_splits)
next
  assume ?r
  then show ?l by (auto simp: evaluate_event_def act_simps Let_def)
qed

theorem evaluate_event_accepts_witness:
  "\<exists>dn. dn_rejection_reason dn = None \<and>
     evaluate_event ext0 0 1 event0 \<lparr>sc_shard_scheme_version = 1, sc_lane_count = 1\<rparr> db0 = (Inr dn, db0)"
proof -
  let ?dn = "\<lparr>dn_config_snapshot_json = ''{}'', dn_config_snapshot_hash = hex16 (hash_str ext0 ''{}''),
     dn_shard_id = shard_for ext0 1 ''7'' 1, dn_rejection_reason = None,
     dn_decision_deadline_at = Some (show_time ext0 (0 + 1000 * 30)),
     dn_allow_repeated_market_direction = False\<rparr>"
  have "dn_rejection_reason ?dn = None" by simp
  from evaluate_event_accepts [OF this, of ext0 0 1 event0 "\<lparr>sc_shard_scheme_version = 1, sc_lane_count = 1\<rparr>" db0 db0]
  have "evaluate_event ext0 0 1 event0 \<lparr>sc_shard_scheme_version = 1, sc_lane_count = 1\<rparr> db0 = (Inr ?dn, db0)"
    by (simp add: policy_of_leader_def sample_defs num_seconds_def)
  then show ?thesis by (intro exI [of _ ?dn]) simp
qed

text \<open>
  C28. The market-direction gate.  For a leader that has not opted out, the first accepted intent of an
  account in one direction (condition and outcome token) takes the direction's lock in the same
  transaction; once the lock is taken, a later accepted signal in that direction, from any leader,
  is recorded as a rejected intent with the reason and without a deadline and leaves the locks as
  they are; the opposite outcome token has its own lock.
\<close>

theorem market_direction_first_wins:
  assumes "gated dn" "find_row (intent_for (le_id ev) acc) (copy_intents d) = None"
    and "\<forall>r \<in> set (market_locks d). ml_intent_id r < next_id ci_id (copy_intents d)"
  shows "\<exists>d' row. plan_event_tx acc ev sched dn d =
       (Inr (\<exists>r \<in> set (market_locks d). lock_for acc (le_condition_id ev) (le_token_id ev) r), d') \<and>
     copy_intents d' = copy_intents d @ [row] \<and> planned_from acc ev row \<and>
     (if \<exists>r \<in> set (market_locks d). lock_for acc (le_condition_id ev) (le_token_id ev) r
      then ci_status row = IRejected \<and> market_locks d' = market_locks d \<and>
           ci_rejection_reason row = Some ''market direction already has a copy order for this account''
      else ci_status row = Pending \<and> ci_decision_deadline_at row = dn_decision_deadline_at dn \<and>
           market_locks d' = market_locks d @ [\<lparr>ml_account_id = acc, ml_condition_id = le_condition_id ev,
             ml_token_id = le_token_id ev, ml_intent_id = ci_id row\<rparr>])"
proof -
  let ?i = "next_id ci_id (copy_intents d)"
  let ?row = "planned_intent_row acc ev sched dn ?i"
  have reason: "dn_rejection_reason dn \<noteq> None \<longrightarrow> dn_decision_deadline_at dn = None"
    using assms(1) by (simp add: gated_def)
  have taken: "find_row (\<lambda>r. lock_for acc (le_condition_id ev) (le_token_id ev) r \<or> ml_intent_id r = ?i)
      (market_locks d) \<noteq> None \<longleftrightarrow> (\<exists>r \<in> set (market_locks d). lock_for acc (le_condition_id ev) (le_token_id ev) r)"
    using assms(3) unfolding find_row_None by (metis order_less_irrefl)
  have row: "ci_id ?row = ?i" "ci_status ?row = Pending" "ci_decision_deadline_at ?row = dn_decision_deadline_at dn"
    using assms(1) by (simp_all add: planned_intent_row_def decision_status_def gated_def)
  show ?thesis
  proof (cases "\<exists>r \<in> set (market_locks d). lock_for acc (le_condition_id ev) (le_token_id ev) r")
    case True
    with taken assms show ?thesis
      using planned_from_row(2) [OF reason assms(1), of acc ev sched ?i]
      by (intro exI [of _ "snd (plan_event_tx acc ev sched dn d)"] exI [of _ "direction_rejected ?row"])
        (simp add: plan_event_tx_eq Let_def direction_rejected_def)
  next
    case False
    with taken assms row show ?thesis
      using planned_from_row(1) [OF reason, of acc ev sched ?i]
      by (intro exI [of _ "snd (plan_event_tx acc ev sched dn d)"] exI [of _ ?row])
        (simp add: plan_event_tx_eq Let_def)
  qed
qed

theorem market_direction_first_wins_witness:
  "\<exists>d' row. plan_event_tx 1 event0 \<lparr>sc_shard_scheme_version = 1, sc_lane_count = 1\<rparr>
       \<lparr>dn_config_snapshot_json = ''{}'', dn_config_snapshot_hash = ''h'', dn_shard_id = 0,
        dn_rejection_reason = None, dn_decision_deadline_at = Some ''t'',
        dn_allow_repeated_market_direction = False\<rparr>
       (db0\<lparr>market_locks := [\<lparr>ml_account_id = 1, ml_condition_id = ''c'', ml_token_id = ''7'', ml_intent_id = 0\<rparr>]\<rparr>)
     = (Inr True, d') \<and> ci_status row = IRejected \<and> copy_intents d' = [row]"
proof -
  let ?dn = "\<lparr>dn_config_snapshot_json = ''{}'', dn_config_snapshot_hash = ''h'', dn_shard_id = 0,
        dn_rejection_reason = None, dn_decision_deadline_at = Some ''t'',
        dn_allow_repeated_market_direction = False\<rparr>"
  let ?d = "db0\<lparr>market_locks := [\<lparr>ml_account_id = 1, ml_condition_id = ''c'', ml_token_id = ''7'', ml_intent_id = 0\<rparr>]\<rparr>"
  have g: "gated ?dn" by (simp add: gated_def)
  have n: "find_row (intent_for (le_id event0) 1) (copy_intents ?d) = None" by (simp add: db0_def)
  have l: "\<forall>r \<in> set (market_locks ?d). ml_intent_id r < next_id ci_id (copy_intents ?d)"
    by (simp add: db0_def next_id_def)
  have t: "(\<exists>r \<in> set (market_locks ?d). lock_for 1 (le_condition_id event0) (le_token_id event0) r) = True"
    by (simp add: sample_defs)
  have e: "copy_intents ?d = []" by (simp add: db0_def)
  show ?thesis
    using market_direction_first_wins [OF g n l, of "\<lparr>sc_shard_scheme_version = 1, sc_lane_count = 1\<rparr>"]
    unfolding t e by (simp only: if_True append_Nil) blast
qed

text \<open>
  Lane assignment.  The shard of an intent depends only on the account and the token, so two
  intents of one account and token always share a lane, and it is a lane that exists.  The startup
  check passes exactly when every non-terminal intent was sharded under the configured schedule;
  otherwise it reports how many were not, and it never writes.
\<close>

theorem schedule_check_exact:
  "0 \<le> shard_for X acc tok n \<and> shard_for X acc tok n < max 1 n \<and>
   (case execution_schedule d of
      None \<Rightarrow> verify_schedule_compatible_with_pending_work d = (Inl NoExecutionSchedule, d)
    | Some (v, m) \<Rightarrow>
        (let stale = filter (\<lambda>r. nonterminal_status (ci_status r) \<and>
                       (ci_shard_scheme_version r, ci_lane_count r) \<noteq> (v, m)) (copy_intents d)
         in verify_schedule_compatible_with_pending_work d =
              (if stale = [] then Inr () else Inl (ScheduleChangedWithPendingWork (length stale)), d)))"
proof -
  have "shard_for X acc tok n < max 1 n"
  proof (cases "n \<le> 1")
    case False
    then have "unat (hash_account_token X acc tok) mod nat \<bar>n\<bar> < nat \<bar>n\<bar>" by simp
    then have "int (unat (hash_account_token X acc tok) mod nat \<bar>n\<bar>) < \<bar>n\<bar>"
      by (simp only: zless_nat_eq_int_zless)
    with False show ?thesis by (simp add: shard_for_def)
  qed (simp add: shard_for_def)
  then show ?thesis
    by (auto simp: shard_for_def verify_schedule_compatible_with_pending_work_def
        load_execution_schedule_def act_simps Let_def split: option.splits)
qed

end
