(* ===== verification/Pricing.thy ===== *)
theory Pricing
  imports Receipt
begin

text \<open>
  The pure sizing and pricing arithmetic of \<open>src/src/copytrading/execute.rs\<close>: tolerance, tick
  rounding, the policy price band, cent rounding and the two loops of
  \<open>max_ratio_qty_for_notional\<close>.  Division of two arbitrary decimals rounds in \<open>rust_decimal\<close>; it is
  the parameter \<open>dv\<close>.  Division of an integer by one hundred is exact and written as such.
\<close>

section \<open>Definitions\<close>

definition buy_ceiling :: decimal where
  "buy_ceiling = 999999 / 1000000"

definition apply_tolerance :: "decimal \<Rightarrow> int \<Rightarrow> decimal \<Rightarrow> side \<Rightarrow> decimal" where
  "apply_tolerance event_price tolerance_bps tolerance_abs sd =
     (let proportional = event_price * (of_int tolerance_bps / 10000);
          tolerance = max proportional tolerance_abs
      in case sd of
           Buy \<Rightarrow> min (event_price + tolerance) buy_ceiling
         | Sell \<Rightarrow> max (event_price - tolerance) 0)"

text \<open>\<open>round_dp_with_strategy(n, ToZero)\<close>.\<close>

definition trunc_dp :: "nat \<Rightarrow> decimal \<Rightarrow> decimal" where
  "trunc_dp n q = (if q < 0 then of_int \<lceil>q * 10 ^ n\<rceil> else of_int \<lfloor>q * 10 ^ n\<rfloor>) / 10 ^ n"

definition round_order_qty_down :: "decimal \<Rightarrow> decimal" where
  "round_order_qty_down qty = trunc_dp 2 qty"

definition round_usdc_down :: "decimal \<Rightarrow> decimal" where
  "round_usdc_down amount = trunc_dp 2 amount"

definition ratio_buy_budget :: "decimal \<Rightarrow> decimal \<Rightarrow> bool \<Rightarrow> decimal" where
  "ratio_buy_budget qty price maker_only =
     (let exact_cost = qty * price
      in if maker_only then of_int \<lceil>exact_cost * 100\<rceil> / 100 else round_usdc_down exact_cost)"

definition cent :: decimal where
  "cent = 1 / 100"

text \<open>The first loop of \<open>max_ratio_qty_for_notional\<close>: step down while the budget is too large.\<close>

function lower_ratio_qty :: "decimal \<Rightarrow> decimal \<Rightarrow> bool \<Rightarrow> decimal \<Rightarrow> decimal" where
  "lower_ratio_qty max_notional price maker_only qty =
     (if qty > 0 \<and> ratio_buy_budget qty price maker_only > max_notional
      then lower_ratio_qty max_notional price maker_only (qty - cent) else qty)"
  by pat_completeness auto
termination
proof (relation "measure (\<lambda>(_, _, _, q). nat \<lceil>q * 100\<rceil>)")
  fix max_notional price qty :: decimal and maker_only :: bool
  assume "qty > 0 \<and> ratio_buy_budget qty price maker_only > max_notional"
  then have "0 < qty" by simp
  moreover have "\<lceil>(qty - cent) * 100\<rceil> = \<lceil>qty * 100\<rceil> - 1"
  proof -
    have "(qty - cent) * 100 = qty * 100 - 1" by (simp add: cent_def algebra_simps)
    then show ?thesis by simp
  qed
  moreover from \<open>0 < qty\<close> have "0 < \<lceil>qty * 100\<rceil>" by simp
  ultimately show "((max_notional, price, maker_only, qty - cent), (max_notional, price, maker_only, qty))
      \<in> measure (\<lambda>(_, _, _, q). nat \<lceil>q * 100\<rceil>)" by simp
qed simp

declare lower_ratio_qty.simps [simp del]

text \<open>
  The second loop: step up while one more cent still fits.  At a non-positive price the loop would
  not end; \<open>None\<close> is that outcome.
\<close>

partial_function (option) raise_ratio_qty ::
  "decimal \<Rightarrow> decimal \<Rightarrow> bool \<Rightarrow> decimal \<Rightarrow> decimal option" where
  "raise_ratio_qty max_notional price maker_only qty =
     (if ratio_buy_budget (qty + cent) price maker_only \<le> max_notional
      then raise_ratio_qty max_notional price maker_only (qty + cent) else Some qty)"

definition max_ratio_qty_for_notional ::
  "(decimal \<Rightarrow> decimal \<Rightarrow> decimal) \<Rightarrow> decimal \<Rightarrow> decimal \<Rightarrow> bool \<Rightarrow> decimal option" where
  "max_ratio_qty_for_notional dv max_notional price maker_only =
     (if max_notional \<le> 0 \<or> price \<le> 0 then Some 0
      else let candidate_cost = (if maker_only then max_notional else max_notional + cent);
               qty = round_order_qty_down (dv candidate_cost price)
           in raise_ratio_qty max_notional price maker_only
                (lower_ratio_qty max_notional price maker_only qty))"

text \<open>\<open>tick_scale\<close> is \<open>tick_size.scale()\<close>, a property of the decimal's text.\<close>

definition market_buy_shares_for_budget ::
  "(decimal \<Rightarrow> decimal \<Rightarrow> decimal) \<Rightarrow> decimal \<Rightarrow> decimal \<Rightarrow> decimal \<Rightarrow> nat \<Rightarrow> decimal" where
  "market_buy_shares_for_budget dv budget price tick_size tick_scale =
     (if budget \<le> 0 \<or> price \<le> 0 \<or> tick_size \<le> 0 then 0
      else trunc_dp (tick_scale + 2) (dv budget price))"

definition round_price ::
  "(decimal \<Rightarrow> decimal \<Rightarrow> decimal) \<Rightarrow> decimal \<Rightarrow> decimal \<Rightarrow> side \<Rightarrow> decimal" where
  "round_price dv price tick_size sd =
     (if tick_size \<le> 0 then price
      else let ticks = dv price tick_size;
               rounded_ticks = (case sd of Buy \<Rightarrow> of_int \<lceil>ticks\<rceil> | Sell \<Rightarrow> of_int \<lfloor>ticks\<rfloor>)
           in if sd = Buy \<and> rounded_ticks * tick_size \<ge> 1 then 1 - tick_size
              else rounded_ticks * tick_size)"

definition clamp_to_policy_band :: "decimal \<Rightarrow> decimal \<Rightarrow> decimal \<Rightarrow> string + decimal" where
  "clamp_to_policy_band price min_price max_price =
     (if min_price \<le> 0 \<or> max_price \<le> min_price \<or> max_price \<ge> 1
      then Inl ''policy price band is not a strict subset of the open interval (0, 1)''
      else let clamped = min (max price min_price) max_price
           in if clamped \<le> 0 then Inl ''clamped price is not in the open interval (0, 1)''
              else Inr clamped)"

definition defensively_cap_below_one :: "decimal \<Rightarrow> string + decimal" where
  "defensively_cap_below_one price =
     (if price \<ge> 1 then Inl ''computed limit price reached the CLOB safety rail at 1.00''
      else if price \<le> 0 then Inl ''computed limit price collapsed to zero or below''
      else Inr price)"

text \<open>The price pipeline both sizing branches run: tolerance, tick, band, safety rail.\<close>

definition policy_limit_price ::
  "(decimal \<Rightarrow> decimal \<Rightarrow> decimal) \<Rightarrow> decimal \<Rightarrow> int \<Rightarrow> decimal \<Rightarrow> decimal \<Rightarrow> decimal \<Rightarrow> decimal \<Rightarrow> side
     \<Rightarrow> string + decimal" where
  "policy_limit_price dv event_price bps tol_abs tick min_price max_price sd =
     (case clamp_to_policy_band (round_price dv (apply_tolerance event_price bps tol_abs sd) tick sd)
             min_price max_price of
        Inl reason \<Rightarrow> Inl reason
      | Inr price \<Rightarrow> defensively_cap_below_one price)"

section \<open>Rounding\<close>

lemma trunc_dp_nonneg: "0 \<le> q \<Longrightarrow> 0 \<le> trunc_dp n q"
  by (simp add: trunc_dp_def)

lemma trunc_dp_le: "0 \<le> q \<Longrightarrow> trunc_dp n q \<le> q"
  by (simp add: trunc_dp_def field_simps)

lemma trunc_dp_gt:
  assumes "0 \<le> q"
  shows "q < trunc_dp n q + 1 / 10 ^ n"
proof -
  have "q * 10 ^ n < of_int \<lfloor>q * 10 ^ n\<rfloor> + 1" by linarith
  then have "q < (of_int \<lfloor>q * 10 ^ n\<rfloor> + 1) / 10 ^ n" by (simp add: field_simps)
  with assms show ?thesis by (simp add: trunc_dp_def add_divide_distrib)
qed

lemma trunc_dp_neg: "q \<le> 0 \<Longrightarrow> trunc_dp n q \<le> 0"
  by (cases "q = 0") (auto simp: trunc_dp_def field_simps ceiling_le_zero mult_nonpos_nonneg)

lemma trunc_dp_ge_neg: "q \<le> 0 \<Longrightarrow> q \<le> trunc_dp n q"
  by (cases "q = 0") (auto simp: trunc_dp_def field_simps)

lemma trunc_dp_mono:
  assumes "p \<le> q"
  shows "trunc_dp n p \<le> trunc_dp n q"
proof (cases "p < 0")
  case True
  show ?thesis
  proof (cases "q < 0")
    case True
    with \<open>p < 0\<close> assms show ?thesis
      by (simp add: trunc_dp_def divide_right_mono ceiling_mono)
  next
    case False
    with True trunc_dp_neg [of p n] trunc_dp_nonneg [of q n] show ?thesis by simp
  qed
next
  case False
  with assms show ?thesis by (simp add: trunc_dp_def divide_right_mono floor_mono)
qed

definition cent_multiple :: "decimal \<Rightarrow> bool" where
  "cent_multiple q \<longleftrightarrow> (\<exists>k::int. q = of_int k * cent)"

lemma cent_multiple_trunc: "cent_multiple (trunc_dp 2 q)"
  unfolding cent_multiple_def cent_def trunc_dp_def by (cases "q < 0") (auto intro!: exI)

lemma cent_multiple_step: "cent_multiple q \<Longrightarrow> cent_multiple (q + cent) \<and> cent_multiple (q - cent)"
proof -
  assume "cent_multiple q"
  then obtain k :: int where q: "q = of_int k * cent" by (auto simp: cent_multiple_def)
  have "q + cent = of_int (k + 1) * cent" "q - cent = of_int (k - 1) * cent"
    using q by (simp_all add: algebra_simps)
  then show ?thesis unfolding cent_multiple_def by blast
qed

lemma ratio_buy_budget_mono:
  assumes "p \<le> q" "0 \<le> price"
  shows "ratio_buy_budget p price mk \<le> ratio_buy_budget q price mk"
proof -
  from assms have "p * price \<le> q * price" by (rule mult_right_mono)
  then show ?thesis
    by (auto simp: ratio_buy_budget_def Let_def round_usdc_down_def
        intro: trunc_dp_mono divide_right_mono ceiling_mono)
qed

lemma ratio_buy_budget_nonpos:
  assumes "q \<le> 0" "0 \<le> price"
  shows "ratio_buy_budget q price mk \<le> 0"
proof -
  from assms have "q * price \<le> 0" by (rule mult_nonpos_nonneg)
  then show ?thesis
    by (auto simp: ratio_buy_budget_def Let_def round_usdc_down_def trunc_dp_neg ceiling_le_zero
        divide_nonpos_pos mult.commute)
qed

lemma ratio_buy_budget_bound: "q * price < ratio_buy_budget q price mk + cent"
proof (cases mk)
  case True
  have "q * price * 100 \<le> of_int \<lceil>q * price * 100\<rceil>" by simp
  then have "q * price \<le> of_int \<lceil>q * price * 100\<rceil> / 100" by simp
  also have "\<dots> < of_int \<lceil>q * price * 100\<rceil> / 100 + cent" by (simp add: cent_def)
  finally show ?thesis using True by (simp add: ratio_buy_budget_def)
next
  case False
  show ?thesis
  proof (cases "0 \<le> q * price")
    case True
    with trunc_dp_gt [OF True, of 2] False show ?thesis
      by (simp add: ratio_buy_budget_def round_usdc_down_def cent_def)
  next
    case neg: False
    with trunc_dp_ge_neg [of "q * price" 2] False show ?thesis
      by (simp add: ratio_buy_budget_def round_usdc_down_def cent_def)
  qed
qed

section \<open>The largest affordable proportional quantity\<close>

lemma raise_ratio_qty_unfold:
  "raise_ratio_qty M price mk q =
     (if ratio_buy_budget (q + cent) price mk \<le> M then raise_ratio_qty M price mk (q + cent) else Some q)"
  by (rule raise_ratio_qty.simps)

text \<open>How many more cents can fit: the measure of the second loop.\<close>

definition raise_measure :: "decimal \<Rightarrow> decimal \<Rightarrow> decimal \<Rightarrow> nat" where
  "raise_measure M price q = nat \<lceil>((M + cent) / price - q) * 100\<rceil>"

lemma raise_measure_step:
  assumes "0 < price" "ratio_buy_budget (q + cent) price mk \<le> M"
  shows "raise_measure M price q = Suc (raise_measure M price (q + cent))"
proof -
  have "(q + cent) * price < M + cent"
    using ratio_buy_budget_bound [of "q + cent" price mk] assms(2) by linarith
  with assms(1) have "q + cent < (M + cent) / price" by (simp add: pos_less_divide_eq)
  then have pos: "0 < ((M + cent) / price - (q + cent)) * 100" by (intro mult_pos_pos) simp_all
  have "((M + cent) / price - q) * 100 = ((M + cent) / price - (q + cent)) * 100 + 1"
    by (simp add: cent_def algebra_simps)
  then have "\<lceil>((M + cent) / price - q) * 100\<rceil> = \<lceil>((M + cent) / price - (q + cent)) * 100\<rceil> + 1"
    by (simp only: ceiling_add_one)
  moreover from pos have "0 < \<lceil>((M + cent) / price - (q + cent)) * 100\<rceil>" by simp
  ultimately show ?thesis by (simp add: raise_measure_def nat_add_distrib)
qed

lemma raise_ratio_qty_returns:
  assumes "0 < price"
  shows "\<exists>q'. raise_ratio_qty M price mk q = Some q' \<and> q \<le> q' \<and>
     (cent_multiple q \<longrightarrow> cent_multiple q') \<and>
     (ratio_buy_budget q price mk \<le> M \<longrightarrow> ratio_buy_budget q' price mk \<le> M) \<and>
     M < ratio_buy_budget (q' + cent) price mk"
proof (induction "raise_measure M price q" arbitrary: q rule: less_induct)
  case less
  show ?case
  proof (cases "ratio_buy_budget (q + cent) price mk \<le> M")
    case True
    from raise_measure_step [OF assms True]
    have "raise_measure M price (q + cent) < raise_measure M price q" by simp
    from less [OF this] obtain q' where
      "raise_ratio_qty M price mk (q + cent) = Some q'" "q + cent \<le> q'"
      "cent_multiple (q + cent) \<longrightarrow> cent_multiple q'"
      "ratio_buy_budget (q + cent) price mk \<le> M \<longrightarrow> ratio_buy_budget q' price mk \<le> M"
      "M < ratio_buy_budget (q' + cent) price mk" by blast
    moreover have "q \<le> q + cent" by (simp add: cent_def)
    ultimately show ?thesis
      using True cent_multiple_step [of q] raise_ratio_qty_unfold [of M price mk q]
      by (intro exI [of _ q']) auto
  next
    case False
    then show ?thesis using raise_ratio_qty_unfold [of M price mk q] by auto
  qed
qed

lemma lower_ratio_qty_spec:
  assumes "0 \<le> M" "0 \<le> price" "cent_multiple q"
  shows "ratio_buy_budget (lower_ratio_qty M price mk q) price mk \<le> M \<and>
     cent_multiple (lower_ratio_qty M price mk q) \<and> (0 \<le> q \<longrightarrow> 0 \<le> lower_ratio_qty M price mk q)"
  using assms
proof (induction M price mk q rule: lower_ratio_qty.induct)
  case (1 M price mk q)
  show ?case
  proof (cases "q > 0 \<and> ratio_buy_budget q price mk > M")
    case True
    from "1.prems"(3) obtain k :: int where k: "q = of_int k * cent" by (auto simp: cent_multiple_def)
    with True have "0 < k" by (simp add: cent_def)
    with k have "0 \<le> q - cent" by (simp add: cent_def)
    with True "1.IH" [OF True] "1.prems" cent_multiple_step [of q] show ?thesis
      by (simp add: lower_ratio_qty.simps [of M price mk q])
  next
    case False
    then have "ratio_buy_budget q price mk \<le> M"
      using ratio_buy_budget_nonpos [of q price mk] "1.prems"(1,2) by force
    with False "1.prems" show ?thesis by (auto simp: lower_ratio_qty.simps [of M price mk q])
  qed
qed

lemma cent_multiple_le_step:
  assumes "cent_multiple p" "cent_multiple q" "p < q"
  shows "p + cent \<le> q"
proof -
  from assms obtain k l :: int where "p = of_int k * cent" "q = of_int l * cent"
    by (auto simp: cent_multiple_def)
  with assms(3) show ?thesis by (simp add: cent_def field_simps)
qed

text \<open>
  \<open>max_ratio_qty_for_notional\<close> always returns at a positive cap and price, whatever the decimal
  division it starts from computes, and its result is the greatest two-decimal share quantity whose
  persisted cost stays within the leader's per-order ceiling: the result fits and every larger
  two-decimal quantity costs more than the ceiling.
\<close>

theorem max_ratio_qty_greatest:
  assumes "0 < M" "0 < price"
  shows "\<exists>q. max_ratio_qty_for_notional dv M price mk = Some q \<and> cent_multiple q \<and>
     ratio_buy_budget q price mk \<le> M \<and>
     (\<forall>q'. cent_multiple q' \<and> q < q' \<longrightarrow> M < ratio_buy_budget q' price mk)"
proof -
  let ?c = "if mk then M else M + cent"
  let ?q0 = "lower_ratio_qty M price mk (round_order_qty_down (dv ?c price))"
  have q0: "ratio_buy_budget ?q0 price mk \<le> M" "cent_multiple ?q0"
    using lower_ratio_qty_spec [of M price "round_order_qty_down (dv ?c price)" mk] assms
    by (simp_all add: round_order_qty_down_def cent_multiple_trunc)
  from raise_ratio_qty_returns [OF assms(2), of M mk ?q0] q0 obtain q where
    q: "raise_ratio_qty M price mk ?q0 = Some q" "cent_multiple q"
      "ratio_buy_budget q price mk \<le> M" "M < ratio_buy_budget (q + cent) price mk" by blast
  have "M < ratio_buy_budget q' price mk" if "cent_multiple q'" "q < q'" for q'
    using q(4) ratio_buy_budget_mono [OF cent_multiple_le_step [OF q(2) that], of price mk] assms(2)
    by simp
  moreover have "max_ratio_qty_for_notional dv M price mk = Some q"
    using q(1) assms by (simp add: max_ratio_qty_for_notional_def Let_def)
  ultimately show ?thesis using q by blast
qed

theorem max_ratio_qty_greatest_witness:
  "(0::decimal) < 5 \<and> (0::decimal) < 29/50 \<and>
   (\<exists>q. max_ratio_qty_for_notional (/) 5 (29/50) True = Some q \<and> ratio_buy_budget q (29/50) True \<le> 5)"
  using max_ratio_qty_greatest [of 5 "29/50" "(/)" True] by auto

section \<open>Prices\<close>

lemma clamp_to_policy_band_Inr:
  "clamp_to_policy_band price lo hi = Inr p \<longleftrightarrow>
     0 < lo \<and> lo < hi \<and> hi < 1 \<and> p = min (max price lo) hi"
  by (auto simp: clamp_to_policy_band_def Let_def min_def max_def)



text \<open>
  Tick rounding, where the division by the tick is exact.  A SELL price is rounded down by less
  than one tick and a BUY price is rounded up by less than one tick, both onto the tick grid; a BUY
  that would reach 1.00 becomes the highest price one tick below 1, so a BUY limit is always below 1.
\<close>

theorem round_price_on_tick:
  assumes "0 < tick" "dv price tick = price / tick"
  shows "round_price dv price tick Sell = of_int \<lfloor>price / tick\<rfloor> * tick \<and>
         round_price dv price tick Sell \<le> price \<and> price < round_price dv price tick Sell + tick \<and>
         round_price dv price tick Buy < 1 \<and>
         (if of_int \<lceil>price / tick\<rceil> * tick < 1
          then round_price dv price tick Buy = of_int \<lceil>price / tick\<rceil> * tick \<and>
               price \<le> round_price dv price tick Buy \<and> round_price dv price tick Buy < price + tick
          else round_price dv price tick Buy = 1 - tick)"
proof -
  have "of_int \<lfloor>price / tick\<rfloor> \<le> price / tick" by linarith
  then have f1: "of_int \<lfloor>price / tick\<rfloor> * tick \<le> price" using assms(1) by (simp only: pos_le_divide_eq)
  have "price / tick < of_int \<lfloor>price / tick\<rfloor> + 1" by linarith
  then have f2: "price < of_int \<lfloor>price / tick\<rfloor> * tick + tick"
    using assms(1) by (simp only: pos_divide_less_eq distrib_right mult_1)
  have "price / tick \<le> of_int \<lceil>price / tick\<rceil>" by linarith
  then have c1: "price \<le> of_int \<lceil>price / tick\<rceil> * tick" using assms(1) by (simp only: pos_divide_le_eq)
  have "of_int \<lceil>price / tick\<rceil> < price / tick + 1" by linarith
  then have "of_int \<lceil>price / tick\<rceil> * tick < (price / tick + 1) * tick"
    using assms(1) by (rule mult_strict_right_mono)
  then have c2: "of_int \<lceil>price / tick\<rceil> * tick < price + tick" using assms(1) by (simp add: distrib_right)
  show ?thesis using assms f1 f2 c1 c2 by (simp add: round_price_def)
qed

theorem round_price_on_tick_witness:
  "round_price (/) (333/500) (1/100) Sell \<le> 333/500 \<and> 333/500 < round_price (/) (333/500) (1/100) Sell + 1/100 \<and>
   round_price (/) (999/1000) (1/100) Buy = 99/100"
proof -
  have p: "(0::rat) < 1/100" by simp
  have "\<not> rat_of_int \<lceil>(999/1000::rat) / (1/100)\<rceil> * (1/100) < 1" by simp
  with round_price_on_tick [of "1/100" "(/)" "999/1000", OF p refl]
  have "round_price (/) (999/1000) (1/100) Buy = 1 - 1/100" by (simp only: if_False)
  moreover have "round_price (/) (333/500) (1/100) Sell \<le> 333/500 \<and>
     333/500 < round_price (/) (333/500) (1/100) Sell + 1/100"
    using round_price_on_tick [of "1/100" "(/)" "333/500", OF p refl] by blast
  ultimately show ?thesis by simp
qed

end
