(* ===== verification/Execute.thy ===== *)
theory Execute
  imports Plan Pricing
begin

text \<open>
  Execution of one intent, \<open>src/src/copytrading/execute.rs\<close>: claiming, sizing and reserving,
  repricing, cancelling, and booking a receipt into the virtual lots.  The venue's balance reader is
  the record \<open>balance_reader\<close> of the answers it gives; \<open>now\<close> is \<open>chrono::Utc::now()\<close> and
  \<open>sql_now\<close> is SQLite's clock.
\<close>

section \<open>Data\<close>

datatype execute_error =
    ExecDatabase string
  | Submission string
  | InvalidSide
  | InvalidTokenId
  | ExecInvalidDecimal string
  | RatioLoopDiverges \<comment> \<open>not an error of the code: the call does not return\<close>

datatype execution_outcome =
    Filled decimal
  | OutNeedsReconcile string
  | OutExpired
  | OutRejected string

record claimed_intent =
  cl_intent_id :: int
  cl_account_id :: int
  cl_leader_id :: int
  cl_token_id :: string
  cl_condition_id :: string
  cl_leader_price :: decimal
  cl_side :: side
  cl_decision_deadline_at :: "string option"
  cl_existing_decision :: "(decimal \<times> decimal \<times> decimal) option"

datatype sizing_outcome =
    Decision sized_decision
  | SzNeedsReconcile string
  | Expired
  | SzRejected string

text \<open>\<open>StrictAccountBalanceReader\<close>: each query answers with a balance or fails.\<close>

record balance_reader =
  position_for_token_strict :: "string \<Rightarrow> string + decimal"
  collateral_balance_strict :: "string + decimal"
  collateral_allowance_strict :: "string + decimal"

definition lot_visibility_grace_seconds :: rat where
  "lot_visibility_grace_seconds = 60"

abbreviation no_row :: execute_error where
  "no_row \<equiv> ExecDatabase ''no rows returned''"

abbreviation dec_of :: "ext \<Rightarrow> string \<Rightarrow> string \<Rightarrow> (execute_error, decimal) db_act" where
  "dec_of X field raw \<equiv> or_raise (ExecInvalidDecimal field) (parse_dec X raw)"

section \<open>Claiming\<close>

definition claim_row :: "int \<Rightarrow> (execute_error, copy_intent_row option) db_act" where
  "claim_row intent_id =
     and_then (update_intents (\<lambda>r. ci_id r = intent_id \<and> ci_status r = Pending)
                 (\<lambda>r. r\<lparr>ci_status := InProgress\<rparr>)) (\<lambda>claimed.
     if claimed > 0 then reads (intent_by_id intent_id)
     else reads (\<lambda>d. find_row (\<lambda>r. ci_id r = intent_id \<and> ci_status r = InProgress) (copy_intents d)))"

definition existing_decision_of ::
  "ext \<Rightarrow> copy_intent_row \<Rightarrow> (execute_error, (decimal \<times> decimal \<times> decimal) option) db_act" where
  "existing_decision_of X r = (case (ci_planned_qty r, ci_planned_price r, ci_planned_notional_usdc r) of
       (Some qty, Some price, Some notional) \<Rightarrow>
         and_then (dec_of X ''copy_intents.planned_qty'' qty) (\<lambda>q.
         and_then (dec_of X ''copy_intents.planned_price'' price) (\<lambda>p.
         and_then (dec_of X ''copy_intents.planned_notional_usdc'' notional) (\<lambda>n.
         ret (Some (q, p, n)))))
     | (None, None, None) \<Rightarrow> ret None
     | _ \<Rightarrow> raise (ExecInvalidDecimal ''incomplete persisted decision''))"

definition claimed_of_row :: "ext \<Rightarrow> int \<Rightarrow> copy_intent_row \<Rightarrow> (execute_error, claimed_intent) db_act" where
  "claimed_of_row X intent_id r =
     and_then (or_raise InvalidSide (side_from_str (ci_side r))) (\<lambda>sd.
     and_then (reads (event_of_intent intent_id)) (\<lambda>ev.
     and_then (or_raise no_row ev) (\<lambda>ev.
     and_then (dec_of X ''leader_events.price'' (le_price ev)) (\<lambda>leader_price.
     and_then (existing_decision_of X r) (\<lambda>existing.
     ret \<lparr>cl_intent_id = intent_id, cl_account_id = ci_account_id r, cl_leader_id = ci_leader_id r,
       cl_token_id = ci_token_id r, cl_condition_id = le_condition_id ev, cl_leader_price = leader_price,
       cl_side = sd, cl_decision_deadline_at = ci_decision_deadline_at r,
       cl_existing_decision = existing\<rparr>)))))"

definition claim_or_resume_intent :: "ext \<Rightarrow> int \<Rightarrow> (execute_error, claimed_intent option) db_act" where
  "claim_or_resume_intent X intent_id =
     and_then (claim_row intent_id) (\<lambda>row. case row of
       None \<Rightarrow> ret None
     | Some r \<Rightarrow> and_then (claimed_of_row X intent_id r) (\<lambda>cl. ret (Some cl)))"

section \<open>What sizing reads\<close>

definition load_policy_snapshot :: "ext \<Rightarrow> int \<Rightarrow> (execute_error, policy_snapshot) db_act" where
  "load_policy_snapshot X intent_id =
     and_then (reads (intent_by_id intent_id)) (\<lambda>row.
     and_then (or_raise no_row row) (\<lambda>r.
     or_raise (ExecInvalidDecimal ''copy_intents.config_snapshot_json'')
       (policy_of_json X (ci_config_snapshot_json r))))"

record position_lot =
  lot_qty :: decimal
  lot_age_seconds :: "rat option"

definition load_position_lot ::
  "ext \<Rightarrow> timestamp \<Rightarrow> int \<Rightarrow> int \<Rightarrow> string \<Rightarrow> (execute_error, position_lot) db_act" where
  "load_position_lot X sql_now account_id leader_id token_id =
     and_then (reads (lot_row account_id leader_id token_id)) (\<lambda>row. case row of
       Some r \<Rightarrow>
         and_then (dec_of X ''position_lots.qty'' (pl_qty r)) (\<lambda>q.
         ret \<lparr>lot_qty = q, lot_age_seconds = Some (of_int (sql_now - pl_updated_at r) / 1000)\<rparr>)
     | None \<Rightarrow> ret \<lparr>lot_qty = 0, lot_age_seconds = None\<rparr>)"

text \<open>The loop \<open>for row in rows { total += parse(row)?; }\<close>.\<close>

fun sum_rows :: "('r \<Rightarrow> (execute_error, decimal) db_act) \<Rightarrow> 'r list \<Rightarrow> decimal \<Rightarrow> (execute_error, decimal) db_act"
where
  "sum_rows f [] acc = ret acc"
| "sum_rows f (r # rs) acc = and_then (f r) (\<lambda>q. sum_rows f rs (acc + q))"

definition active_reservation :: "copy_intent_row \<Rightarrow> bool" where
  "active_reservation r \<longleftrightarrow> ci_status r = InProgress \<or> ci_status r = PartiallyFilled"

definition sum_other_active_reservations ::
  "ext \<Rightarrow> int \<Rightarrow> string \<Rightarrow> int \<Rightarrow> (execute_error, decimal) db_act" where
  "sum_other_active_reservations X account_id token_id exclude_intent_id =
     and_then (reads (\<lambda>d. filter (\<lambda>r. ci_account_id r = account_id \<and> ci_token_id r = token_id \<and>
         ci_id r \<noteq> exclude_intent_id \<and> active_reservation r) (copy_intents d))) (\<lambda>rows.
     sum_rows (\<lambda>r. dec_of X ''copy_intents.reserved_qty'' (ci_reserved_qty r)) rows 0)"

definition buy_reservation_notional :: "ext \<Rightarrow> copy_intent_row \<Rightarrow> (execute_error, decimal) db_act" where
  "buy_reservation_notional X r =
     and_then (dec_of X ''copy_intents.reserved_qty'' (ci_reserved_qty r)) (\<lambda>reserved.
     and_then (or_raise (ExecInvalidDecimal ''copy_intents.planned_price'') (ci_planned_price r)) (\<lambda>raw.
     and_then (dec_of X ''copy_intents.planned_price'' raw) (\<lambda>price.
     case ci_planned_notional_usdc r of
       Some notional \<Rightarrow> dec_of X ''copy_intents.planned_notional_usdc'' notional
     | None \<Rightarrow> ret (reserved * price))))"

definition sum_other_active_buy_reservation_notional ::
  "ext \<Rightarrow> int \<Rightarrow> int \<Rightarrow> (execute_error, decimal) db_act" where
  "sum_other_active_buy_reservation_notional X account_id exclude_intent_id =
     and_then (reads (\<lambda>d. filter (\<lambda>r. ci_account_id r = account_id \<and> ci_id r \<noteq> exclude_intent_id \<and>
         ci_side r = ''BUY'' \<and> active_reservation r) (copy_intents d))) (\<lambda>rows.
     sum_rows (buy_reservation_notional X) rows 0)"

text \<open>
  The lots of the tokens the leader traded under the condition of the joined intent.  The statement
  joins \<open>current_intent.event_id = ?\<close> with the claimed intent's id bound.
\<close>

definition same_market_lots :: "claimed_intent \<Rightarrow> db \<Rightarrow> position_lot_row list" where
  "same_market_lots cl d =
     (let conds = [le_condition_id ev. ci \<leftarrow> copy_intents d, ci_event_id ci = cl_intent_id cl,
                   ev \<leftarrow> leader_events d, le_id ev = ci_event_id ci];
          toks = [le_token_id sib. sib \<leftarrow> leader_events d, le_leader_id sib = cl_leader_id cl,
                  le_condition_id sib \<in> set conds]
      in filter (\<lambda>pl. pl_account_id pl = cl_account_id cl \<and> pl_leader_id pl = cl_leader_id cl \<and>
           pl_token_id pl \<in> set toks) (position_lots d))"

fun split_lot_quantities ::
  "ext \<Rightarrow> string \<Rightarrow> position_lot_row list \<Rightarrow> decimal \<times> decimal \<Rightarrow> (execute_error, decimal \<times> decimal) db_act"
where
  "split_lot_quantities X tok [] acc = ret acc"
| "split_lot_quantities X tok (pl # pls) (sibling, this) =
     and_then (dec_of X ''position_lots.qty'' (pl_qty pl)) (\<lambda>q.
     split_lot_quantities X tok pls
       (if pl_token_id pl = tok then (sibling, this + q) else (sibling + q, this)))"

definition load_same_market_lot_quantities ::
  "ext \<Rightarrow> claimed_intent \<Rightarrow> (execute_error, decimal \<times> decimal) db_act" where
  "load_same_market_lot_quantities X cl =
     and_then (reads (same_market_lots cl)) (\<lambda>rows. split_lot_quantities X (cl_token_id cl) rows (0, 0))"

definition load_event_price :: "ext \<Rightarrow> int \<Rightarrow> (execute_error, decimal) db_act" where
  "load_event_price X intent_id =
     and_then (reads (event_of_intent intent_id)) (\<lambda>ev.
     and_then (or_raise no_row ev) (\<lambda>ev. dec_of X ''leader_events.price'' (le_price ev)))"

definition load_event_size :: "ext \<Rightarrow> int \<Rightarrow> (execute_error, decimal) db_act" where
  "load_event_size X intent_id =
     and_then (reads (event_of_intent intent_id)) (\<lambda>ev.
     and_then (or_raise no_row ev) (\<lambda>ev. dec_of X ''leader_events.size'' (le_size ev)))"

section \<open>Sizing\<close>

definition deadline_expired :: "ext \<Rightarrow> timestamp \<Rightarrow> string option \<Rightarrow> bool" where
  "deadline_expired X now deadline = (case deadline of
       None \<Rightarrow> True
     | Some raw \<Rightarrow> (case parse_time X raw of None \<Rightarrow> True | Some parsed \<Rightarrow> now > parsed))"

record price_policy =
  pp_tick_size :: decimal
  pp_tick_scale :: nat
  pp_tolerance_abs :: decimal
  pp_min_price :: decimal
  pp_max_price :: decimal

definition parse_price_policy :: "ext \<Rightarrow> policy_snapshot \<Rightarrow> (execute_error, price_policy) db_act" where
  "parse_price_policy X policy =
     and_then (dec_of X ''leader_policy.tick_size'' (tick_size policy)) (\<lambda>tick.
     and_then (case price_tolerance_abs policy of
                 None \<Rightarrow> ret 0
               | Some raw \<Rightarrow> dec_of X ''leader_policy.price_tolerance_abs'' raw) (\<lambda>tol.
     and_then (dec_of X ''leader_policy.min_price'' (min_price policy)) (\<lambda>lo.
     and_then (dec_of X ''leader_policy.max_price'' (max_price policy)) (\<lambda>hi.
     ret \<lparr>pp_tick_size = tick, pp_tick_scale = scale_dec X (tick_size policy),
          pp_tolerance_abs = tol, pp_min_price = lo, pp_max_price = hi\<rparr>))))"

text \<open>\<open>match ... { Ok(price) => price, Err(reason) => return Ok(Rejected(reason)) }\<close>\<close>

definition limit_price_or_reject ::
  "ext \<Rightarrow> policy_snapshot \<Rightarrow> price_policy \<Rightarrow> side \<Rightarrow> decimal \<Rightarrow> (execute_error, sizing_outcome + decimal) db_act"
where
  "limit_price_or_reject X policy pp sd event_price =
     ret (case policy_limit_price (div_dec X) event_price (price_tolerance_bps policy) (pp_tolerance_abs pp)
                 (pp_tick_size pp) (pp_min_price pp) (pp_max_price pp) sd of
            Inl reason \<Rightarrow> Inl (SzRejected reason)
          | Inr price \<Rightarrow> Inr price)"

definition strict_or_reconcile ::
  "string \<Rightarrow> string + decimal \<Rightarrow> (execute_error, sizing_outcome + decimal) db_act" where
  "strict_or_reconcile reason answer =
     ret (case answer of Inl _ \<Rightarrow> Inl (SzNeedsReconcile reason) | Inr v \<Rightarrow> Inr v)"

type_synonym sizing = "decimal \<times> decimal \<times> decimal option" \<comment> \<open>qty, limit price, buy budget\<close>

definition size_sell ::
  "ext \<Rightarrow> timestamp \<Rightarrow> balance_reader \<Rightarrow> claimed_intent \<Rightarrow> policy_snapshot \<Rightarrow> price_policy
     \<Rightarrow> (execute_error, sizing_outcome + sizing) db_act" where
  "size_sell X sql_now reader cl policy pp =
     and_then (load_position_lot X sql_now (cl_account_id cl) (cl_leader_id cl) (cl_token_id cl)) (\<lambda>lot.
     if lot_qty lot \<le> 0 then ret (Inl (SzRejected ''no tracked virtual lot for leader sell'')) else
     and_then (assert_that (outcome_token_id_ok X (cl_token_id cl)) InvalidTokenId) (\<lambda>_.
     or_return (strict_or_reconcile ''strict token balance query failed''
                  (position_for_token_strict reader (cl_token_id cl))) (\<lambda>strict_available.
     and_then (sum_other_active_reservations X (cl_account_id cl) (cl_token_id cl) (cl_intent_id cl))
       (\<lambda>other_reservations.
     let account_sellable = max (strict_available - other_reservations) 0;
         sell_qty = round_order_qty_down (max (min (lot_qty lot) account_sellable) 0)
     in if sell_qty \<le> 0 then
          (if (case lot_age_seconds lot of None \<Rightarrow> False | Some age \<Rightarrow> age < lot_visibility_grace_seconds)
           then ret (Inl (SzRejected
                  ''leader sell arrived before this account's own fill was visible on the venue''))
           else ret (Inl (SzNeedsReconcile ''computed sell quantity is not positive'')))
        else
          and_then (load_event_price X (cl_intent_id cl)) (\<lambda>event_price.
          or_return (limit_price_or_reject X policy pp (cl_side cl) event_price) (\<lambda>price.
          ret (Inr (sell_qty, price, None))))))))"

text \<open>The four ways a BUY budget is computed: (budget, pinned shares).\<close>

definition balancing_budget ::
  "decimal \<Rightarrow> decimal \<Rightarrow> decimal \<Rightarrow> (execute_error, sizing_outcome + decimal \<times> decimal option) db_act" where
  "balancing_budget limit_price available target_qty =
     (let budget = round_usdc_down (target_qty * limit_price)
      in if budget > available
         then ret (Inl (SzRejected ''same-market balancing buy budget exceeds available collateral''))
         else ret (Inr (budget, None)))"

definition ratio_budget ::
  "ext \<Rightarrow> policy_snapshot \<Rightarrow> decimal \<Rightarrow> decimal \<Rightarrow> decimal \<Rightarrow> string
     \<Rightarrow> (execute_error, sizing_outcome + decimal \<times> decimal option) db_act" where
  "ratio_budget X policy event_size limit_price available raw_ratio =
     and_then (dec_of X ''leader_policy.size_ratio'' raw_ratio) (\<lambda>ratio.
     let original_target_qty = round_order_qty_down (event_size * ratio)
     in if original_target_qty \<le> 0 then ret (Inl (SzRejected ''size_ratio produced a non-positive target''))
        else
     and_then (dec_of X ''leader_policy.max_order_notional'' (max_order_notional policy)) (\<lambda>max_notional.
     and_then (if ratio_buy_budget original_target_qty limit_price (maker_only policy) > max_notional
               then or_raise RatioLoopDiverges
                      (max_ratio_qty_for_notional (div_dec X) max_notional limit_price (maker_only policy))
               else ret original_target_qty) (\<lambda>target_qty.
     let budget = ratio_buy_budget target_qty limit_price (maker_only policy)
     in if budget > available
        then ret (Inl (SzRejected ''size_ratio buy budget exceeds available collateral''))
        else ret (Inr (budget, if maker_only policy then Some target_qty else None)))))"

definition fixed_share_budget ::
  "ext \<Rightarrow> policy_snapshot \<Rightarrow> decimal \<Rightarrow> decimal \<Rightarrow> string
     \<Rightarrow> (execute_error, sizing_outcome + decimal \<times> decimal option) db_act" where
  "fixed_share_budget X policy limit_price available raw =
     and_then (dec_of X ''leader_policy.max_order_shares'' raw) (\<lambda>target_qty.
     let exact_cost = target_qty * limit_price;
         budget = (if maker_only policy then of_int \<lceil>exact_cost * 100\<rceil> / 100 else round_usdc_down exact_cost)
     in if budget > available
        then ret (Inl (SzRejected ''fixed-share buy budget exceeds available collateral''))
        else ret (Inr (budget, if maker_only policy then Some target_qty else None)))"

definition notional_budget ::
  "ext \<Rightarrow> policy_snapshot \<Rightarrow> decimal \<Rightarrow> decimal \<Rightarrow> decimal
     \<Rightarrow> (execute_error, sizing_outcome + decimal \<times> decimal option) db_act" where
  "notional_budget X policy event_size limit_price available =
     and_then (dec_of X ''leader_policy.max_order_notional'' (max_order_notional policy)) (\<lambda>max_notional.
     ret (Inr (round_usdc_down (min (event_size * limit_price) (min max_notional available)), None)))"

definition balancing_target ::
  "ext \<Rightarrow> policy_snapshot \<Rightarrow> claimed_intent \<Rightarrow> (execute_error, decimal option) db_act" where
  "balancing_target X policy cl =
     (if balance_within_market policy then
        and_then (load_same_market_lot_quantities X cl) (\<lambda>(sibling_qty, this_qty).
        ret (if sibling_qty > 0 then Some (max (sibling_qty - this_qty) 0) else None))
      else ret None)"

definition policy_budget ::
  "ext \<Rightarrow> policy_snapshot \<Rightarrow> decimal \<Rightarrow> decimal \<Rightarrow> decimal
     \<Rightarrow> (execute_error, sizing_outcome + decimal \<times> decimal option) db_act" where
  "policy_budget X policy event_size limit_price available =
     (case size_ratio policy of
        Some raw \<Rightarrow> ratio_budget X policy event_size limit_price available raw
      | None \<Rightarrow> (case max_order_shares policy of
          Some raw \<Rightarrow> fixed_share_budget X policy limit_price available raw
        | None \<Rightarrow> notional_budget X policy event_size limit_price available))"

definition buy_budget_for ::
  "ext \<Rightarrow> policy_snapshot \<Rightarrow> decimal option \<Rightarrow> decimal \<Rightarrow> decimal \<Rightarrow> decimal
     \<Rightarrow> (execute_error, sizing_outcome + decimal \<times> decimal option) db_act" where
  "buy_budget_for X policy target event_size limit_price available =
     (case target of
        Some target_qty \<Rightarrow>
          if target_qty > 0 then balancing_budget limit_price available target_qty
          else policy_budget X policy event_size limit_price available
      | None \<Rightarrow> policy_budget X policy event_size limit_price available)"

definition available_collateral :: "decimal \<Rightarrow> decimal \<Rightarrow> decimal \<Rightarrow> decimal" where
  "available_collateral collateral allowance other = max (min collateral allowance - other) 0"

definition size_buy ::
  "ext \<Rightarrow> balance_reader \<Rightarrow> claimed_intent \<Rightarrow> policy_snapshot \<Rightarrow> price_policy
     \<Rightarrow> (execute_error, sizing_outcome + sizing) db_act" where
  "size_buy X reader cl policy pp =
     and_then (load_event_size X (cl_intent_id cl)) (\<lambda>event_size.
     and_then (load_event_price X (cl_intent_id cl)) (\<lambda>event_price.
     or_return (limit_price_or_reject X policy pp (cl_side cl) event_price) (\<lambda>limit_price.
     or_return (strict_or_reconcile ''strict collateral balance query failed''
                  (collateral_balance_strict reader)) (\<lambda>strict_collateral.
     or_return (strict_or_reconcile ''strict collateral allowance query failed''
                  (collateral_allowance_strict reader)) (\<lambda>strict_allowance.
     and_then (sum_other_active_buy_reservation_notional X (cl_account_id cl) (cl_intent_id cl))
       (\<lambda>other_buy_notional.
     and_then (balancing_target X policy cl) (\<lambda>target.
     or_return (buy_budget_for X policy target event_size limit_price
                  (available_collateral strict_collateral strict_allowance other_buy_notional))
       (\<lambda>(buy_budget, pinned_shares).
     let qty = (case pinned_shares of
                  Some q \<Rightarrow> q
                | None \<Rightarrow> market_buy_shares_for_budget (div_dec X) buy_budget limit_price
                            (pp_tick_size pp) (pp_tick_scale pp))
     in if qty \<le> 0 then ret (Inl (SzNeedsReconcile ''computed buy quantity is not positive''))
        else ret (Inr (qty, limit_price, Some buy_budget))))))))))"

definition decision_of ::
  "claimed_intent \<Rightarrow> policy_snapshot \<Rightarrow> decimal \<Rightarrow> decimal \<Rightarrow> decimal option \<Rightarrow> sized_decision" where
  "decision_of cl policy qty price budget =
     \<lparr>sd_intent_id = cl_intent_id cl, sd_token_id = cl_token_id cl, sd_side = cl_side cl, sd_qty = qty,
      sd_limit_price = price, sd_buy_budget = budget,
      sd_buy_shares_exact = (cl_side cl = Buy \<and> (max_order_shares policy \<noteq> None \<or> size_ratio policy \<noteq> None)),
      sd_maker_only = maker_only policy\<rparr>"

text \<open>The reservation: one short transaction that revalidates the claim.\<close>

definition persist_decision ::
  "ext \<Rightarrow> claimed_intent \<Rightarrow> policy_snapshot \<Rightarrow> decimal \<Rightarrow> decimal \<Rightarrow> decimal
     \<Rightarrow> (execute_error, nat) db_act" where
  "persist_decision X cl policy qty price notional =
     update_intents (\<lambda>r. ci_id r = cl_intent_id cl \<and> ci_status r = InProgress)
       (\<lambda>r. r\<lparr>ci_planned_qty := Some (show_dec X qty), ci_planned_price := Some (show_dec X price),
              ci_tick_size := Some (tick_size policy), ci_time_in_force := Some ''FAK'',
              ci_reserved_qty := show_dec X qty, ci_planned_notional_usdc := Some (show_dec X notional)\<rparr>)"

definition size_fresh ::
  "ext \<Rightarrow> timestamp \<Rightarrow> balance_reader \<Rightarrow> claimed_intent \<Rightarrow> policy_snapshot
     \<Rightarrow> (execute_error, sizing_outcome) db_act" where
  "size_fresh X sql_now reader cl policy =
     and_then (parse_price_policy X policy) (\<lambda>pp.
     and_then (case cl_side cl of
                 Sell \<Rightarrow> size_sell X sql_now reader cl policy pp
               | Buy \<Rightarrow> size_buy X reader cl policy pp) (\<lambda>sized.
     case sized of
       Inl out \<Rightarrow> ret out
     | Inr (qty, limit_price, buy_budget) \<Rightarrow>
         let planned_notional = (case buy_budget of Some b \<Rightarrow> b | None \<Rightarrow> qty * limit_price)
         in if cl_side cl = Buy \<and> planned_notional < 1
            then ret (SzRejected ''computed buy notional is below the CLOB minimum of 1 USDC'')
            else
              and_then (transaction (persist_decision X cl policy qty limit_price planned_notional)) (\<lambda>updated.
              if updated = 0 then ret (SzNeedsReconcile ''intent state changed during sizing'')
              else ret (Decision (decision_of cl policy qty limit_price buy_budget)))))"

definition size_and_reserve ::
  "ext \<Rightarrow> timestamp \<Rightarrow> timestamp \<Rightarrow> balance_reader \<Rightarrow> claimed_intent \<Rightarrow> (execute_error, sizing_outcome) db_act"
where
  "size_and_reserve X now sql_now reader cl =
     (if deadline_expired X now (cl_decision_deadline_at cl) then ret Expired else
      and_then (load_policy_snapshot X (cl_intent_id cl)) (\<lambda>policy.
      case cl_existing_decision cl of
        Some (qty, price, notional) \<Rightarrow>
          ret (Decision (decision_of cl policy qty price (if cl_side cl = Buy then Some notional else None)))
      | None \<Rightarrow> size_fresh X sql_now reader cl policy))"

section \<open>Repricing after a FAK found no match\<close>

text \<open>
  \<open>budget.normalize().scale() > 2\<close>: the normalised decimal needs more than two decimal places.
\<close>

definition more_than_cents :: "decimal \<Rightarrow> bool" where
  "more_than_cents q \<longleftrightarrow> trunc_dp 2 q \<noteq> q"

definition fixed_share_mismatch ::
  "ext \<Rightarrow> policy_snapshot \<Rightarrow> decimal \<Rightarrow> (execute_error, bool) db_act" where
  "fixed_share_mismatch X policy qty =
     (case size_ratio policy of
        Some _ \<Rightarrow> ret False
      | None \<Rightarrow>
          and_then (or_raise (ExecDatabase ''panic: checked above'') (max_order_shares policy)) (\<lambda>raw.
          and_then (dec_of X ''leader_policy.max_order_shares'' raw) (\<lambda>target_qty.
          ret (qty \<noteq> target_qty))))"

definition reprice_fixed_share_buy_after_no_fak ::
  "ext \<Rightarrow> timestamp \<Rightarrow> balance_reader \<Rightarrow> claimed_intent \<Rightarrow> decimal \<Rightarrow> (execute_error, sizing_outcome) db_act"
where
  "reprice_fixed_share_buy_after_no_fak X now reader cl sweep_limit_price =
     (if deadline_expired X now (cl_decision_deadline_at cl) then ret Expired else
      if cl_side cl \<noteq> Buy then ret (SzRejected ''no-FAK best-ask retry is BUY-only'') else
      and_then (load_policy_snapshot X (cl_intent_id cl)) (\<lambda>policy.
      if size_ratio policy = None \<and> max_order_shares policy = None
      then ret (SzRejected ''no-FAK maker fallback requires a shares-pinned policy'') else
      (case cl_existing_decision cl of
         None \<Rightarrow> ret (SzNeedsReconcile ''no-FAK retry is missing its persisted fixed-share decision'')
       | Some (qty, _, _) \<Rightarrow>
      if qty \<le> 0 then ret (SzNeedsReconcile ''persisted share quantity is non-positive'') else
      and_then (fixed_share_mismatch X policy qty) (\<lambda>mismatch.
      if mismatch then ret (SzNeedsReconcile ''persisted quantity differs from fixed-share policy snapshot'') else
      if sweep_limit_price \<le> 0 \<or> sweep_limit_price \<ge> 1
      then ret (SzRejected ''fresh-book sweep limit is outside the CLOB open price interval'') else
      let budget = qty * sweep_limit_price in
      if budget \<le> 0 \<or> more_than_cents budget
      then ret (SzRejected ''fixed shares at fresh-book sweep limit cannot produce a cent maker amount'') else
      if budget < 1
      then ret (SzRejected ''fresh-book sweep buy notional is below the CLOB minimum of 1 USDC'') else
      (case collateral_balance_strict reader of
         Inl _ \<Rightarrow> ret (SzNeedsReconcile ''strict collateral balance query failed'')
       | Inr collateral \<Rightarrow>
      (case collateral_allowance_strict reader of
         Inl _ \<Rightarrow> ret (SzNeedsReconcile ''strict collateral allowance query failed'')
       | Inr allowance \<Rightarrow>
      and_then (sum_other_active_buy_reservation_notional X (cl_account_id cl) (cl_intent_id cl)) (\<lambda>other_reserved.
      if budget > available_collateral collateral allowance other_reserved
      then ret (SzRejected ''fresh-book sweep fixed-share buy exceeds available collateral'') else
      and_then (update_intents (\<lambda>r. ci_id r = cl_intent_id cl \<and> ci_status r = InProgress)
        (\<lambda>r. r\<lparr>ci_planned_qty := Some (show_dec X qty), ci_planned_price := Some (show_dec X sweep_limit_price),
               ci_reserved_qty := show_dec X qty, ci_planned_notional_usdc := Some (show_dec X budget)\<rparr>))
      (\<lambda>updated.
      if updated \<noteq> 1
      then ret (SzNeedsReconcile ''intent state changed during no-FAK fresh-book sweep repricing'')
      else ret (Decision \<lparr>sd_intent_id = cl_intent_id cl, sd_token_id = cl_token_id cl, sd_side = Buy,
             sd_qty = qty, sd_limit_price = sweep_limit_price, sd_buy_budget = Some budget,
             sd_buy_shares_exact = True, sd_maker_only = False\<rparr>)))))))))"

section \<open>Closing an intent before submission\<close>

definition new_case ::
  "int \<Rightarrow> string \<Rightarrow> int \<Rightarrow> int option \<Rightarrow> string \<Rightarrow> string \<Rightarrow> int \<Rightarrow> reconciliation_case_row" where
  "new_case account_id token_id intent_id attempt_id case_type detail i =
     \<lparr>rc_id = i, rc_account_id = account_id, rc_token_id = token_id, rc_intent_id = Some intent_id,
      rc_order_attempt_id = attempt_id, rc_case_type = case_type, rc_detail = Some detail,
      rc_resolved_at = None, rc_resolution = None\<rparr>"

definition open_balance_drift_case :: "claimed_intent \<Rightarrow> string \<Rightarrow> (execute_error, unit) db_act" where
  "open_balance_drift_case cl reason = transaction
     (and_then (update_intents (\<lambda>r. ci_id r = cl_intent_id cl) (\<lambda>r. r\<lparr>ci_status := NeedsReconcile\<rparr>)) (\<lambda>_.
      and_then (insert_case (new_case (cl_account_id cl) (cl_token_id cl) (cl_intent_id cl) None
                  ''balance_drift'' reason)) (\<lambda>_. ret ())))"

definition cancel_expired_intent :: "int \<Rightarrow> (execute_error, unit) db_act" where
  "cancel_expired_intent intent_id = transaction
     (and_then (update_attempts
        (\<lambda>r. oa_intent_id r = intent_id \<and> oa_status r = Prepared \<and> oa_submission_started_at r = None)
        (\<lambda>r. r\<lparr>oa_status := ARejected,
               oa_failure_detail := Some ''decision deadline expired before submission''\<rparr>)) (\<lambda>_.
      and_then (update_intents (\<lambda>r. ci_id r = intent_id)
        (\<lambda>r. r\<lparr>ci_status := Cancelled, ci_rejection_reason := Some ''decision deadline expired'',
               ci_reserved_qty := ''0''\<rparr>)) (\<lambda>_. ret ())))"

definition reject_pre_submit_intent :: "int \<Rightarrow> string \<Rightarrow> (execute_error, unit) db_act" where
  "reject_pre_submit_intent intent_id reason =
     and_then (update_intents (\<lambda>r. ci_id r = intent_id \<and> ci_status r = InProgress)
        (\<lambda>r. r\<lparr>ci_status := IRejected, ci_rejection_reason := Some reason, ci_reserved_qty := ''0''\<rparr>))
     (\<lambda>_. ret ())"

definition unsafe_attempt :: "int \<Rightarrow> db \<Rightarrow> bool" where
  "unsafe_attempt intent_id d \<longleftrightarrow> list_ex (\<lambda>r. oa_intent_id r = intent_id \<and>
     (oa_status r \<noteq> Prepared \<or> oa_submission_started_at r \<noteq> None)) (order_attempts d)"

definition cancel_overdue_pre_submit_intent ::
  "ext \<Rightarrow> timestamp \<Rightarrow> int \<Rightarrow> int \<Rightarrow> (execute_error, unit) db_act" where
  "cancel_overdue_pre_submit_intent X now account_id intent_id =
     and_then (reads (\<lambda>d. find_row (\<lambda>r. ci_id r = intent_id \<and> ci_account_id r = account_id) (copy_intents d))) (\<lambda>row.
     and_then (or_raise (ExecDatabase ''intent does not belong to this account'') row) (\<lambda>r.
     and_then (assert_that (ci_status r = InProgress)
                 (ExecDatabase ''intent is not an in-progress pre-submit intent'')) (\<lambda>_.
     let overdue = (case ci_decision_deadline_at r of
                      None \<Rightarrow> False
                    | Some raw \<Rightarrow> (case parse_time X raw of None \<Rightarrow> False | Some t \<Rightarrow> now > t))
     in and_then (assert_that overdue
                    (ExecDatabase ''intent deadline is absent, malformed, or not yet expired'')) (\<lambda>_.
     and_then (reads (unsafe_attempt intent_id)) (\<lambda>unsafe.
     and_then (assert_that (\<not> unsafe)
        (ExecDatabase ''intent has an attempt that may have crossed the submission boundary'')) (\<lambda>_.
     cancel_expired_intent intent_id))))))"

section \<open>Booking a receipt\<close>

definition next_attempt_number :: "int \<Rightarrow> (execute_error, int) db_act" where
  "next_attempt_number intent_id = reads (\<lambda>d.
     (case map oa_attempt_number (filter (\<lambda>r. oa_intent_id r = intent_id) (order_attempts d)) of
        [] \<Rightarrow> 0 | n # ns \<Rightarrow> fold max ns n) + 1)"

text \<open>\<open>order_attempts\<close> references its intent and is unique on (intent, attempt number).\<close>

definition insert_new_attempt ::
  "(string \<Rightarrow> 'e) \<Rightarrow> int \<Rightarrow> int \<Rightarrow> (int \<Rightarrow> order_attempt_row) \<Rightarrow> ('e, int) db_act" where
  "insert_new_attempt db_err intent_id attempt_number mk = (\<lambda>d.
     if intent_by_id intent_id d = None then (Inl (db_err ''FOREIGN KEY constraint failed''), d)
     else if find_row (\<lambda>r. oa_intent_id r = intent_id \<and> oa_attempt_number r = attempt_number)
          (order_attempts d) \<noteq> None
     then (Inl (db_err ''UNIQUE constraint failed''), d) else insert_attempt mk d)"

definition decision_json :: "ext \<Rightarrow> sized_decision \<Rightarrow> string" where
  \<open>decision_json X dn = ''{"token_id":"'' @ sd_token_id dn @ ''","side":"'' @ side_as_str (sd_side dn)
     @ ''","qty":"'' @ show_dec X (sd_qty dn) @ ''","limit_price":"'' @ show_dec X (sd_limit_price dn) @ ''"}''\<close>

definition record_attempt ::
  "ext \<Rightarrow> timestamp \<Rightarrow> sized_decision \<Rightarrow> int \<Rightarrow> order_receipt \<Rightarrow> (execute_error, int) db_act" where
  "record_attempt X sql_now dn attempt_number receipt =
     insert_new_attempt ExecDatabase (sd_intent_id dn) attempt_number
       (\<lambda>i. \<lparr>oa_id = i, oa_intent_id = sd_intent_id dn, oa_attempt_number = attempt_number,
             oa_envelope_json = decision_json X dn, oa_status = Finalized, oa_receipt = None,
             oa_venue_order_id = None, oa_requested_qty = show_dec X (requested_qty receipt),
             oa_accepted_qty = Some (show_dec X (accepted_qty receipt)),
             oa_filled_qty = Some (show_dec X (filled_qty receipt)),
             oa_remaining_qty = Some (show_dec X (remaining_qty receipt)),
             oa_accounted_filled_qty = ''0'', oa_failure_detail = None,
             oa_submission_started_at = None, oa_created_at = sql_now\<rparr>)"

text \<open>\<open>INSERT INTO position_lots ... ON CONFLICT DO UPDATE\<close>\<close>

definition upsert_lot :: "int \<Rightarrow> int \<Rightarrow> string \<Rightarrow> string \<Rightarrow> timestamp \<Rightarrow> db \<Rightarrow> db" where
  "upsert_lot acc ldr tok qty sql_now d =
     (case lot_row acc ldr tok d of
        None \<Rightarrow> d\<lparr>position_lots := position_lots d @
          [\<lparr>pl_account_id = acc, pl_leader_id = ldr, pl_token_id = tok, pl_qty = qty, pl_updated_at = sql_now\<rparr>]\<rparr>
      | Some _ \<Rightarrow> d\<lparr>position_lots := update_rows
          (\<lambda>r. pl_account_id r = acc \<and> pl_leader_id r = ldr \<and> pl_token_id r = tok)
          (\<lambda>r. r\<lparr>pl_qty := qty, pl_updated_at := sql_now\<rparr>) (position_lots d)\<rparr>)"

definition apply_lot_delta ::
  "ext \<Rightarrow> timestamp \<Rightarrow> copy_intent_row \<Rightarrow> side \<Rightarrow> decimal \<Rightarrow> (execute_error, unit) db_act" where
  "apply_lot_delta X sql_now ci sd delta =
     (let lot_delta = (case sd of Buy \<Rightarrow> delta | Sell \<Rightarrow> - delta);
          acc = ci_account_id ci; ldr = ci_leader_id ci; tok = ci_token_id ci
      in and_then (reads (lot_row acc ldr tok)) (\<lambda>row.
         and_then (case row of
                     Some r \<Rightarrow> dec_of X ''position_lots.qty'' (pl_qty r)
                   | None \<Rightarrow> ret 0) (\<lambda>current_qty.
         modifies (upsert_lot acc ldr tok (show_dec X (current_qty + lot_delta)) sql_now))))"

definition finalize_receipt_with_conn ::
  "ext \<Rightarrow> timestamp \<Rightarrow> int \<Rightarrow> int \<Rightarrow> order_receipt \<Rightarrow> (execute_error, unit) db_act" where
  "finalize_receipt_with_conn X sql_now intent_id attempt_id receipt =
     and_then (reads (intent_by_id intent_id)) (\<lambda>ci.
     and_then (or_raise no_row ci) (\<lambda>ci.
     and_then (reads (attempt_by_id attempt_id)) (\<lambda>oa.
     and_then (or_raise no_row oa) (\<lambda>oa.
     and_then (or_raise InvalidSide (side_from_str (ci_side ci))) (\<lambda>sd.
     and_then (dec_of X ''order_attempts.accounted_filled_qty'' (oa_accounted_filled_qty oa)) (\<lambda>accounted_so_far.
     let delta = max (filled_qty receipt - accounted_so_far) 0;
         new_accounted = accounted_so_far + delta
     in and_then (if delta > 0 then apply_lot_delta X sql_now ci sd delta else ret ()) (\<lambda>_.
     and_then (update_attempts (\<lambda>r. oa_id r = attempt_id)
        (\<lambda>r. r\<lparr>oa_accounted_filled_qty := show_dec X new_accounted, oa_receipt := Some receipt\<rparr>)) (\<lambda>_.
     and_then (update_intents (\<lambda>r. ci_id r = intent_id)
        (\<lambda>r. r\<lparr>ci_status := (if remaining_qty receipt > 0 \<and> delta > 0 then PartiallyFilled else Completed),
               ci_reserved_qty := ''0''\<rparr>)) (\<lambda>_. ret ())))))))))"

definition finalizable :: "attempt_status \<Rightarrow> bool" where
  "finalizable st \<longleftrightarrow> st = Accepted \<or> st = Finalized \<or> st = Submitting \<or> st = Uncertain"

definition finalize_receipt_transaction ::
  "ext \<Rightarrow> timestamp \<Rightarrow> int \<Rightarrow> int \<Rightarrow> order_receipt \<Rightarrow> bool \<Rightarrow> (execute_error, unit) db_act" where
  "finalize_receipt_transaction X sql_now intent_id attempt_id receipt fail_before_commit = transaction
     (and_then (finalize_receipt_with_conn X sql_now intent_id attempt_id receipt) (\<lambda>_.
      and_then (update_attempts
        (\<lambda>r. oa_id r = attempt_id \<and> oa_intent_id r = intent_id \<and> finalizable (oa_status r))
        (\<lambda>r. r\<lparr>oa_status := Finalized\<rparr>)) (\<lambda>updated.
      and_then (assert_that (updated = 1)
        (ExecDatabase ''attempt cannot be finalized from its current state'')) (\<lambda>_.
      if fail_before_commit then raise (ExecDatabase ''injected pre-commit failure'') else ret ()))))"

definition finalize_receipt ::
  "ext \<Rightarrow> timestamp \<Rightarrow> int \<Rightarrow> int \<Rightarrow> order_receipt \<Rightarrow> (execute_error, unit) db_act" where
  "finalize_receipt X sql_now intent_id attempt_id receipt =
     finalize_receipt_transaction X sql_now intent_id attempt_id receipt False"

text \<open>\<open>submit\<close> stands for the \<open>OrderSubmitter\<close>: the receipt of the decision, or why it failed.\<close>

definition execute_intent ::
  "ext \<Rightarrow> timestamp \<Rightarrow> timestamp \<Rightarrow> balance_reader \<Rightarrow> (sized_decision \<Rightarrow> string + order_receipt) \<Rightarrow> int
     \<Rightarrow> (execute_error, execution_outcome option) db_act" where
  "execute_intent X now sql_now reader submit intent_id =
     and_then (claim_or_resume_intent X intent_id) (\<lambda>claimed. case claimed of
       None \<Rightarrow> ret None
     | Some cl \<Rightarrow>
       and_then (size_and_reserve X now sql_now reader cl) (\<lambda>sized. case sized of
         SzNeedsReconcile reason \<Rightarrow>
           and_then (open_balance_drift_case cl reason) (\<lambda>_. ret (Some (OutNeedsReconcile reason)))
       | Expired \<Rightarrow> and_then (cancel_expired_intent (cl_intent_id cl)) (\<lambda>_. ret (Some OutExpired))
       | SzRejected reason \<Rightarrow>
           and_then (reject_pre_submit_intent (cl_intent_id cl) reason) (\<lambda>_. ret (Some (OutRejected reason)))
       | Decision dn \<Rightarrow>
           and_then (lift_result (map_sum Submission id (submit dn))) (\<lambda>receipt.
           and_then (next_attempt_number (sd_intent_id dn)) (\<lambda>n.
           and_then (record_attempt X sql_now dn n receipt) (\<lambda>attempt_id.
           and_then (finalize_receipt X sql_now (sd_intent_id dn) attempt_id receipt) (\<lambda>_.
           ret (Some (Filled (filled_qty receipt)))))))))"

section \<open>Reading actions\<close>

lemma sum_rows_ro: "(\<And>r. ro.stays (f r)) \<Longrightarrow> ro.stays (sum_rows f rs acc)"
  by (induction rs arbitrary: acc) (auto intro: ro.stays_basic ro.stays_and_then)

lemma split_lot_quantities_ro: "ro.stays (split_lot_quantities X tok pls acc)"
  by (induction X tok pls acc rule: split_lot_quantities.induct) (auto intro: ro.stays_basic ro.stays_and_then)

lemma load_ro:
  "ro.stays (load_policy_snapshot X i)" "ro.stays (load_position_lot X now acc ldr tok)"
  "ro.stays (load_event_price X i)" "ro.stays (load_event_size X i)"
  "ro.stays (load_same_market_lot_quantities X cl)"
  "ro.stays (sum_other_active_reservations X acc tok i)"
  "ro.stays (sum_other_active_buy_reservation_notional X acc i)"
  "ro.stays (parse_price_policy X policy)" "ro.stays (existing_decision_of X r)"
  "ro.stays (limit_price_or_reject X policy pp sd price)" "ro.stays (strict_or_reconcile reason ans)"
  unfolding load_policy_snapshot_def load_position_lot_def load_event_price_def load_event_size_def
    load_same_market_lot_quantities_def sum_other_active_reservations_def
    sum_other_active_buy_reservation_notional_def buy_reservation_notional_def parse_price_policy_def
    existing_decision_of_def limit_price_or_reject_def strict_or_reconcile_def
  by (intro ro.stays_intros sum_rows_ro split_lot_quantities_ro)+

lemma budget_ro:
  "ro.stays (balancing_target X policy cl)"
  "ro.stays (buy_budget_for X policy target sz price avail)"
  unfolding balancing_target_def buy_budget_for_def policy_budget_def balancing_budget_def ratio_budget_def
    fixed_share_budget_def notional_budget_def
  by (intro ro.stays_intros load_ro)+

lemma size_side_ro:
  "ro.stays (size_sell X now reader cl policy pp)" "ro.stays (size_buy X reader cl policy pp)"
  unfolding size_sell_def size_buy_def
  by (intro ro.stays_intros load_ro budget_ro)+

section \<open>Claiming is a compare-and-set\<close>

abbreviation in_progress :: "copy_intent_row \<Rightarrow> copy_intent_row" where
  "in_progress r \<equiv> r\<lparr>ci_status := InProgress\<rparr>"

definition claim_db :: "int \<Rightarrow> db \<Rightarrow> db" where
  "claim_db i d = put_intents (update_rows (\<lambda>r. ci_id r = i) in_progress (copy_intents d)) d"

definition claimable :: "copy_intent_row \<Rightarrow> bool" where
  "claimable r \<longleftrightarrow> ci_status r = Pending \<or> ci_status r = InProgress"

lemma claim_row_eq:
  assumes "intents.keyed d"
  shows "claim_row i d = (case intent_by_id i d of
       None \<Rightarrow> (Inr None, d)
     | Some r \<Rightarrow> if claimable r then (Inr (Some (in_progress r)), claim_db i d) else (Inr None, d))"
proof (cases "intent_by_id i d")
  case None
  then have f: "find_row (\<lambda>r. ci_id r = i) (copy_intents d) = None" by (simp add: intent_by_id_def)
  then have g: "find_row (\<lambda>r. ci_id r = i \<and> ci_status r = InProgress) (copy_intents d) = None"
    by (auto simp: find_row_None)
  show ?thesis
    by (simp add: claim_row_def and_then_def intents.cas_missing [OF f] reads_def g None)
next
  case (Some r)
  then have f: "find_row (\<lambda>r. ci_id r = i) (copy_intents d) = Some r" by (simp add: intent_by_id_def)
  have u: "\<And>x. x \<in> set (copy_intents d) \<Longrightarrow> ci_id x = i \<Longrightarrow> x = r"
    using keyed_same_row [OF _ f] assms by (simp add: intents.keyed_def)
  show ?thesis
  proof (cases "ci_status r = Pending")
    case True
    have "intent_by_id i (claim_db i d) = Some (in_progress r)"
      unfolding claim_db_def intent_by_id_def
      by (subst intents.find_after_update) (simp_all add: f find_row_Some [OF f])
    then show ?thesis
      by (simp add: claim_row_def and_then_def intents.cas_update [OF assms f] reads_def Some True
          claimable_def flip: claim_db_def)
  next
    case False
    have g: "find_row (\<lambda>r. ci_id r = i \<and> ci_status r = InProgress) (copy_intents d) =
      (if ci_status r = InProgress then Some r else None)"
    proof (cases "ci_status r = InProgress")
      case True
      have "find_row (\<lambda>r. ci_id r = i \<and> ci_status r = InProgress) (copy_intents d) \<noteq> None"
        using find_row_Some [OF f] True by (auto simp: find_row_None)
      then obtain x where x: "find_row (\<lambda>r. ci_id r = i \<and> ci_status r = InProgress) (copy_intents d) = Some x"
        by auto
      with u [of x] find_row_Some [OF x] show ?thesis using True by simp
    qed (use u in \<open>auto simp: find_row_None\<close>)
    have "claim_db i d = d" if "ci_status r = InProgress"
    proof -
      have "update_rows (\<lambda>r. ci_id r = i) in_progress (copy_intents d) = copy_intents d"
        using u that by (intro update_rows_same) auto
      then show ?thesis by (simp add: claim_db_def)
    qed
    then show ?thesis using False
      by (auto simp: claim_row_def and_then_def intents.cas_update [OF assms f] reads_def Some g claimable_def)
  qed
qed

lemma claimed_of_row_ro: "ro.stays (claimed_of_row X i r)"
  unfolding claimed_of_row_def by (intro ro.stays_intros load_ro(9))

lemma claim_eq:
  assumes "intents.keyed d"
  shows "claim_or_resume_intent X i d = (case intent_by_id i d of
       None \<Rightarrow> (Inr None, d)
     | Some r \<Rightarrow> if claimable r
         then (map_sum id Some (fst (claimed_of_row X i (in_progress r) (claim_db i d))), claim_db i d)
         else (Inr None, d))"
proof -
  have 1: "and_then (claimed_of_row X i r) (\<lambda>cl. ret (Some cl)) d' =
      (map_sum id Some (fst (claimed_of_row X i r d')), d')" for r d'
    using ro_state [OF claimed_of_row_ro, of X i r d']
    by (cases "claimed_of_row X i r d'") (auto simp: and_then_def ret_def split: sum.splits)
  show ?thesis
    unfolding claim_or_resume_intent_def
    by (subst and_then_def) (simp add: claim_row_eq [OF assms] 1 ret_def [of None] split: option.splits)
qed

lemma claimed_of_row_Inr:
  "claimed_of_row X i r d = (Inr cl, d') \<longleftrightarrow> d' = d \<and> (\<exists>sd ev price ex.
     side_from_str (ci_side r) = Some sd \<and> event_of_intent i d = Some ev \<and>
     parse_dec X (le_price ev) = Some price \<and> existing_decision_of X r d = (Inr ex, d) \<and>
     cl = \<lparr>cl_intent_id = i, cl_account_id = ci_account_id r, cl_leader_id = ci_leader_id r,
       cl_token_id = ci_token_id r, cl_condition_id = le_condition_id ev, cl_leader_price = price,
       cl_side = sd, cl_decision_deadline_at = ci_decision_deadline_at r, cl_existing_decision = ex\<rparr>)"
  using ro_state [OF load_ro(9), of X r d]
  by (auto simp: claimed_of_row_def act_ok)

text \<open>
  Claiming.  A pending intent is moved to in progress by a compare-and-set that touches no other
  row; an intent already in progress is resumed with exactly the state and the data a first claim
  gives, so a second claim never changes anything; every other intent, and an unknown id, is refused
  without a write.  A successful claim carries the identity of the row.
\<close>

theorem claim_or_resume_exact:
  assumes "intents.keyed d"
  shows "(case intent_by_id i d of
      None \<Rightarrow> claim_or_resume_intent X i d = (Inr None, d)
    | Some r \<Rightarrow>
        (if ci_status r = Pending \<or> ci_status r = InProgress then
           snd (claim_or_resume_intent X i d) =
             put_intents (update_rows (\<lambda>r. ci_id r = i) (\<lambda>r. r\<lparr>ci_status := InProgress\<rparr>) (copy_intents d)) d \<and>
           fst (claim_or_resume_intent X i d) \<noteq> Inr None
         else claim_or_resume_intent X i d = (Inr None, d))) \<and>
    claim_or_resume_intent X i (snd (claim_or_resume_intent X i d)) = claim_or_resume_intent X i d \<and>
    (\<forall>cl d'. claim_or_resume_intent X i d = (Inr (Some cl), d') \<longrightarrow>
       cl_intent_id cl = i \<and>
       (\<exists>r. intent_by_id i d' = Some r \<and> ci_status r = InProgress \<and> cl_account_id cl = ci_account_id r \<and>
          cl_leader_id cl = ci_leader_id r \<and> cl_token_id cl = ci_token_id r \<and>
          side_as_str (cl_side cl) = ci_side r))"
proof (cases "intent_by_id i d")
  case None
  then show ?thesis by (simp add: claim_eq [OF assms])
next
  case (Some r)
  show ?thesis
  proof (cases "claimable r")
    case False
    then show ?thesis using Some by (simp add: claim_eq [OF assms] claimable_def)
  next
    case True
    have k: "intents.keyed (claim_db i d)"
      unfolding claim_db_def by (rule intents.keyed_update [OF assms]) simp
    have f: "find_row (\<lambda>r. ci_id r = i) (copy_intents d) = Some r" using Some by (simp add: intent_by_id_def)
    have r': "intent_by_id i (claim_db i d) = Some (in_progress r)"
      unfolding claim_db_def intent_by_id_def
      by (subst intents.find_after_update) (simp_all add: f find_row_Some [OF f])
    have idem: "claim_db i (claim_db i d) = claim_db i d"
      by (simp add: claim_db_def update_rows_def comp_def if_distrib cong: if_cong)
    have c: "claim_or_resume_intent X i d =
      (map_sum id Some (fst (claimed_of_row X i (in_progress r) (claim_db i d))), claim_db i d)"
      using Some True by (simp add: claim_eq [OF assms])
    have n: "map_sum id Some y \<noteq> Inr None" for y :: "execute_error + claimed_intent" by (cases y) auto
    have again: "claim_or_resume_intent X i (claim_db i d) = claim_or_resume_intent X i d"
      unfolding c by (simp add: claim_eq [OF k] r' claimable_def idem)
    have cl: "cl_intent_id cl = i \<and> (\<exists>r. intent_by_id i d' = Some r \<and> ci_status r = InProgress \<and>
         cl_account_id cl = ci_account_id r \<and> cl_leader_id cl = ci_leader_id r \<and>
         cl_token_id cl = ci_token_id r \<and> side_as_str (cl_side cl) = ci_side r)"
      if a: "claim_or_resume_intent X i d = (Inr (Some cl), d')" for cl d'
    proof -
      from a have d': "d' = claim_db i d" and
        "fst (claimed_of_row X i (in_progress r) (claim_db i d)) = Inr cl"
        unfolding c by (cases "fst (claimed_of_row X i (in_progress r) (claim_db i d))"; simp)+
      then have "claimed_of_row X i (in_progress r) (claim_db i d) = (Inr cl, claim_db i d)"
        using ro_state [OF claimed_of_row_ro, of X i "in_progress r" "claim_db i d"]
        by (cases "claimed_of_row X i (in_progress r) (claim_db i d)") auto
      then show ?thesis
        by (auto simp: claimed_of_row_Inr d' r' dest: side_from_str_Some)
    qed
    show ?thesis
      using Some True again cl n unfolding claimable_def
      by (simp add: c claim_db_def)
  qed
qed

theorem claim_or_resume_exact_witness:
  "intents.keyed db1 \<and> intent_by_id 1 db1 = Some intent0 \<and> fst (claim_or_resume_intent ext0 1 db1) \<noteq> Inr None \<and>
   claim_or_resume_intent ext0 1 (snd (claim_or_resume_intent ext0 1 db1)) = claim_or_resume_intent ext0 1 db1"
proof -
  have k: "intents.keyed db1" by (simp add: intents.keyed_def sample_defs)
  have i: "intent_by_id 1 db1 = Some intent0" by (simp add: intent_by_id_def sample_defs)
  have s: "ci_status intent0 = InProgress" by (simp add: intent0_def)
  have "fst (claim_or_resume_intent ext0 1 db1) \<noteq> Inr None \<and>
    claim_or_resume_intent ext0 1 (snd (claim_or_resume_intent ext0 1 db1)) = claim_or_resume_intent ext0 1 db1"
    using claim_or_resume_exact [OF k, where X = ext0 and i = 1] unfolding i option.case s
    by (elim conjE) (intro conjI; simp)
  then show ?thesis using k i by (intro conjI) simp_all
qed

section \<open>What a sized decision promises\<close>

definition dec_val :: "ext \<Rightarrow> string \<Rightarrow> decimal" where
  "dec_val X raw = (case parse_dec X raw of None \<Rightarrow> 0 | Some q \<Rightarrow> q)"

text \<open>The shares of a token reserved by an account's active intents, the USDC its active BUYs
  reserve, and the leader's virtual lot.\<close>

definition active_reserved :: "ext \<Rightarrow> int \<Rightarrow> string \<Rightarrow> db \<Rightarrow> decimal" where
  "active_reserved X acc tok d = sum_list (map (\<lambda>r. dec_val X (ci_reserved_qty r))
     (filter (\<lambda>r. ci_account_id r = acc \<and> ci_token_id r = tok \<and> active_reservation r) (copy_intents d)))"

definition reserved_notional :: "ext \<Rightarrow> copy_intent_row \<Rightarrow> decimal" where
  "reserved_notional X r = (case ci_planned_notional_usdc r of
       Some n \<Rightarrow> dec_val X n
     | None \<Rightarrow> dec_val X (ci_reserved_qty r) * (case ci_planned_price r of None \<Rightarrow> 0 | Some p \<Rightarrow> dec_val X p))"

definition active_buy_notional :: "ext \<Rightarrow> int \<Rightarrow> db \<Rightarrow> decimal" where
  "active_buy_notional X acc d = sum_list (map (reserved_notional X)
     (filter (\<lambda>r. ci_account_id r = acc \<and> ci_side r = ''BUY'' \<and> active_reservation r) (copy_intents d)))"

definition lot_value :: "ext \<Rightarrow> int \<Rightarrow> int \<Rightarrow> string \<Rightarrow> db \<Rightarrow> decimal" where
  "lot_value X acc ldr tok d = (case lot_row acc ldr tok d of None \<Rightarrow> 0 | Some r \<Rightarrow> dec_val X (pl_qty r))"

lemma sum_rows_val:
  assumes "sum_rows f rs acc s = (Inr t, s')"
    and "\<And>r s t s'. f r s = (Inr t, s') \<Longrightarrow> t = g r \<and> s' = s"
  shows "t = acc + sum_list (map g rs) \<and> s' = s"
  using assms(1)
proof (induction rs arbitrary: acc s)
  case (Cons r rs)
  then obtain q s1 where q: "f r s = (Inr q, s1)" and rest: "sum_rows f rs (acc + q) s1 = (Inr t, s')"
    by (auto simp: and_then_ok)
  from assms(2) [OF q] Cons.IH [OF rest] show ?case by (simp add: algebra_simps)
qed (simp add: ret_ok)

lemma other_reservations_val:
  assumes "sum_other_active_reservations X acc tok i d = (Inr t, d')"
  shows "t = sum_list (map (\<lambda>r. dec_val X (ci_reserved_qty r)) (filter (\<lambda>r. (ci_account_id r = acc \<and>
     ci_token_id r = tok \<and> active_reservation r) \<and> ci_id r \<noteq> i) (copy_intents d))) \<and> d' = d"
proof -
  let ?P = "\<lambda>r. ci_account_id r = acc \<and> ci_token_id r = tok \<and> ci_id r \<noteq> i \<and> active_reservation r"
  from assms have "sum_rows (\<lambda>r. dec_of X ''copy_intents.reserved_qty'' (ci_reserved_qty r))
      (filter ?P (copy_intents d)) 0 d = (Inr t, d')"
    by (simp add: sum_other_active_reservations_def act_ok)
  from sum_rows_val [OF this, of "\<lambda>r. dec_val X (ci_reserved_qty r)"]
  have "t = sum_list (map (\<lambda>r. dec_val X (ci_reserved_qty r)) (filter ?P (copy_intents d))) \<and> d' = d"
    by (simp add: or_raise_ok dec_val_def)
  moreover have "filter ?P (copy_intents d) = filter (\<lambda>r. (ci_account_id r = acc \<and> ci_token_id r = tok \<and>
      active_reservation r) \<and> ci_id r \<noteq> i) (copy_intents d)"
    by (rule filter_cong) auto
  ultimately show ?thesis by simp
qed

lemma buy_reservation_notional_val:
  "buy_reservation_notional X r s = (Inr t, s') \<Longrightarrow> t = reserved_notional X r \<and> s' = s"
  by (auto simp: buy_reservation_notional_def reserved_notional_def dec_val_def act_ok split: option.splits)

lemma other_buy_notional_val:
  assumes "sum_other_active_buy_reservation_notional X acc i d = (Inr t, d')"
  shows "t = sum_list (map (reserved_notional X) (filter (\<lambda>r. (ci_account_id r = acc \<and>
     ci_side r = ''BUY'' \<and> active_reservation r) \<and> ci_id r \<noteq> i) (copy_intents d))) \<and> d' = d"
proof -
  let ?P = "\<lambda>r. ci_account_id r = acc \<and> ci_id r \<noteq> i \<and> ci_side r = ''BUY'' \<and> active_reservation r"
  from assms have "sum_rows (buy_reservation_notional X) (filter ?P (copy_intents d)) 0 d = (Inr t, d')"
    by (simp add: sum_other_active_buy_reservation_notional_def act_ok)
  from sum_rows_val [OF this buy_reservation_notional_val]
  have "t = sum_list (map (reserved_notional X) (filter ?P (copy_intents d))) \<and> d' = d" by simp
  moreover have "filter ?P (copy_intents d) = filter (\<lambda>r. (ci_account_id r = acc \<and> ci_side r = ''BUY'' \<and>
      active_reservation r) \<and> ci_id r \<noteq> i) (copy_intents d)"
    by (rule filter_cong) auto
  ultimately show ?thesis by simp
qed

lemma load_position_lot_val:
  "load_position_lot X now acc ldr tok d = (Inr lot, d') \<Longrightarrow> lot_qty lot = lot_value X acc ldr tok d \<and> d' = d"
  by (auto simp: load_position_lot_def lot_value_def dec_val_def act_ok split: option.splits)

lemma limit_price_ok:
  assumes "limit_price_or_reject X policy pp sd ev d = (Inr (Inr price), d')"
  shows "d' = d \<and> pp_min_price pp \<le> price \<and> price \<le> pp_max_price pp \<and> 0 < price \<and> price < 1"
proof -
  let ?p = "policy_limit_price (div_dec X) ev (price_tolerance_bps policy) (pp_tolerance_abs pp)
     (pp_tick_size pp) (pp_min_price pp) (pp_max_price pp) sd"
  from assms have "?p = Inr price" "d' = d"
    by (auto simp: limit_price_or_reject_def ret_def split: sum.splits)
  then show ?thesis
    by (auto simp: policy_limit_price_def clamp_to_policy_band_Inr defensively_cap_below_one_def
        split: sum.splits if_splits)
qed

lemma strict_ok: "strict_or_reconcile e ans d = (Inr (Inr v), d') \<longleftrightarrow> ans = Inr v \<and> d' = d"
  by (auto simp: strict_or_reconcile_def ret_def split: sum.splits)

lemma early_ok:
  "(if b then ret (Inl out) else m) s = (Inr (Inr y), s') \<longleftrightarrow> \<not> b \<and> m s = (Inr (Inr y), s')"
  "(if b then (if c then ret (Inl out) else ret (Inl out')) else m) s = (Inr (Inr y), s') \<longleftrightarrow>
     \<not> b \<and> m s = (Inr (Inr y), s')"
  by (auto simp: ret_def)

lemma size_sell_ok:
  assumes "size_sell X now reader cl policy pp d = (Inr (Inr (qty, price, budget)), d')"
  shows "d' = d \<and> budget = None \<and> 0 < qty \<and> cent_multiple qty \<and>
     qty \<le> lot_value X (cl_account_id cl) (cl_leader_id cl) (cl_token_id cl) d \<and>
     (\<exists>avail. position_for_token_strict reader (cl_token_id cl) = Inr avail \<and>
        qty + sum_list (map (\<lambda>r. dec_val X (ci_reserved_qty r)) (filter (\<lambda>r. (ci_account_id r = cl_account_id cl \<and>
     ci_token_id r = cl_token_id cl \<and> active_reservation r) \<and> ci_id r \<noteq> cl_intent_id cl) (copy_intents d))) \<le> avail) \<and>
     pp_min_price pp \<le> price \<and> price \<le> pp_max_price pp \<and> 0 < price \<and> price < 1"
proof -
  let ?q = "\<lambda>lot avail other. round_order_qty_down (max (min (lot_qty lot) (max (avail - other) 0)) 0)"
  from assms obtain lot d1 d2 avail d3 other d4 ev d5 price' d6 where
    lot1: "load_position_lot X now (cl_account_id cl) (cl_leader_id cl) (cl_token_id cl) d = (Inr lot, d1)"
    and d2: "outcome_token_id_ok X (cl_token_id cl) \<and> d2 = d1"
    and av: "position_for_token_strict reader (cl_token_id cl) = Inr avail" and d3: "d3 = d2"
    and ot1: "sum_other_active_reservations X (cl_account_id cl) (cl_token_id cl) (cl_intent_id cl) d3 = (Inr other, d4)"
    and q1: "\<not> ?q lot avail other \<le> 0"
    and ev: "load_event_price X (cl_intent_id cl) d4 = (Inr ev, d5)"
    and lp1: "limit_price_or_reject X policy pp (cl_side cl) ev d5 = (Inr (Inr price'), d6)"
    and e: "Inr (qty, price, budget) = (Inr (?q lot avail other, price', None) :: sizing_outcome + sizing)" "d' = d6"
    unfolding size_sell_def Let_def and_then_ok or_return_ok early_ok strict_ok assert_that_ok ret_ok
    by (elim exE conjE) (rule that; (assumption | intro conjI))
  have d1: "d1 = d" using ro_state [OF load_ro(2) lot1] .
  have d3': "d3 = d" using d1 d2 d3 by simp
  have d4: "d4 = d" using ro_state [OF load_ro(6) ot1] d3' by simp
  have d5: "d5 = d" using ro_state [OF load_ro(3) ev] d4 by simp
  note lot = lot1 [unfolded d1] and ot = ot1 [unfolded d3' d4] and lp = lp1 [unfolded d5]
  from e q1 have q: "qty = ?q lot avail other" and q0: "0 < qty" and b: "budget = None" and pr: "price' = price"
    and d6: "d6 = d'" by auto
  let ?m = "max (min (lot_qty lot) (max (avail - other) 0)) 0"
  have "qty \<le> ?m" unfolding q round_order_qty_down_def by (rule trunc_dp_le) simp
  with q0 have "qty \<le> lot_qty lot" "qty + other \<le> avail" by (auto simp: max_def min_def split: if_splits)
  moreover have "cent_multiple qty" unfolding q round_order_qty_down_def by (rule cent_multiple_trunc)
  ultimately show ?thesis
    using load_position_lot_val [OF lot] other_reservations_val [OF ot] limit_price_ok [OF lp] av b q0 pr d6 by simp
qed

lemma budget_le:
  "balancing_budget lp avail t d = (Inr (Inr (b, pin)), d') \<Longrightarrow> b \<le> avail"
  "ratio_budget X policy sz lp avail raw d = (Inr (Inr (b, pin)), d') \<Longrightarrow> b \<le> avail"
  "fixed_share_budget X policy lp avail raw d = (Inr (Inr (b, pin)), d') \<Longrightarrow> b \<le> avail"
  by (auto simp: balancing_budget_def ratio_budget_def fixed_share_budget_def Let_def and_then_ok early_ok ret_ok)

lemma notional_budget_le:
  assumes "notional_budget X policy sz lp avail d = (Inr (Inr (b, pin)), d')" "0 \<le> avail"
  shows "b \<le> avail"
proof -
  from assms(1) obtain m where b: "b = round_usdc_down (min (sz * lp) (min m avail))"
    by (auto simp: notional_budget_def and_then_ok ret_ok)
  show ?thesis
  proof (cases "0 \<le> min (sz * lp) (min m avail)")
    case True
    then have "b \<le> min (sz * lp) (min m avail)" unfolding b round_usdc_down_def by (rule trunc_dp_le)
    then show ?thesis by simp
  next
    case False
    then have "min (sz * lp) (min m avail) \<le> 0" by linarith
    then have "b \<le> 0" unfolding b round_usdc_down_def by (rule trunc_dp_neg)
    with assms(2) show ?thesis by simp
  qed
qed

lemma buy_budget_for_le:
  assumes "buy_budget_for X policy target sz lp avail d = (Inr (Inr (b, pin)), d')" "0 \<le> avail"
  shows "b \<le> avail"
  using assms unfolding buy_budget_for_def policy_budget_def
  by (auto split: option.splits if_splits intro: budget_le notional_budget_le)

abbreviation other_buys :: "ext \<Rightarrow> claimed_intent \<Rightarrow> db \<Rightarrow> decimal" where
  "other_buys X cl d \<equiv> sum_list (map (reserved_notional X) (filter (\<lambda>r. (ci_account_id r = cl_account_id cl \<and>
     ci_side r = ''BUY'' \<and> active_reservation r) \<and> ci_id r \<noteq> cl_intent_id cl) (copy_intents d)))"

abbreviation other_shares :: "ext \<Rightarrow> claimed_intent \<Rightarrow> db \<Rightarrow> decimal" where
  "other_shares X cl d \<equiv> sum_list (map (\<lambda>r. dec_val X (ci_reserved_qty r)) (filter (\<lambda>r.
     (ci_account_id r = cl_account_id cl \<and> ci_token_id r = cl_token_id cl \<and> active_reservation r) \<and>
     ci_id r \<noteq> cl_intent_id cl) (copy_intents d)))"

lemma size_buy_ok:
  assumes "size_buy X reader cl policy pp d = (Inr (Inr (qty, price, budget)), d')"
  shows "d' = d \<and> 0 < qty \<and> 0 < price \<and> price < 1 \<and> pp_min_price pp \<le> price \<and> price \<le> pp_max_price pp \<and>
     (\<exists>b collateral allowance. budget = Some b \<and> collateral_balance_strict reader = Inr collateral \<and>
        collateral_allowance_strict reader = Inr allowance \<and>
        b \<le> available_collateral collateral allowance (other_buys X cl d))"
proof -
  let ?q = "\<lambda>b pin lp. (case pin of Some q \<Rightarrow> q | None \<Rightarrow> market_buy_shares_for_budget (div_dec X) b lp
                            (pp_tick_size pp) (pp_tick_scale pp))"
  from assms obtain sz d1 ev d2 lp d3 c a other d4 target d5 bp d6 where
    sz: "load_event_size X (cl_intent_id cl) d = (Inr sz, d1)"
    and ev: "load_event_price X (cl_intent_id cl) d1 = (Inr ev, d2)"
    and lp: "limit_price_or_reject X policy pp (cl_side cl) ev d2 = (Inr (Inr lp), d3)"
    and c: "collateral_balance_strict reader = Inr c" and a: "collateral_allowance_strict reader = Inr a"
    and ot: "sum_other_active_buy_reservation_notional X (cl_account_id cl) (cl_intent_id cl) d3 = (Inr other, d4)"
    and tg: "balancing_target X policy cl d4 = (Inr target, d5)"
    and bp: "buy_budget_for X policy target sz lp (available_collateral c a other) d5 = (Inr (Inr bp), d6)"
    and e: "(case bp of (b, pin) \<Rightarrow> if ?q b pin lp \<le> 0
         then ret (Inl (SzNeedsReconcile ''computed buy quantity is not positive''))
         else ret (Inr (?q b pin lp, lp, Some b))) d6 =
         ((Inr (Inr (qty, price, budget)), d') :: (execute_error + sizing_outcome + sizing) \<times> db)"
    unfolding size_buy_def Let_def and_then_ok or_return_ok strict_ok
    by (elim exE conjE, (hypsubst)+) (rule that; assumption)
  obtain b pin where b: "bp = (b, pin)" by fastforce
  have d2: "d2 = d" using ro_state [OF load_ro(4) sz] ro_state [OF load_ro(3) ev] by simp
  have d3: "d3 = d" using limit_price_ok [OF lp] d2 by simp
  have d4: "d4 = d" and other: "other = other_buys X cl d" using other_buy_notional_val [OF ot] d3 by simp_all
  have d5: "d5 = d" using ro_state [OF budget_ro(1) tg] d4 by simp
  have d6: "d6 = d" using ro_state [OF budget_ro(2) bp] d5 by simp
  have "0 \<le> available_collateral c a other" by (simp add: available_collateral_def)
  with bp b have "b \<le> available_collateral c a other" by (blast intro: buy_budget_for_le)
  moreover from e b have "0 < qty" "price = lp" "budget = Some b" "d' = d"
    by (auto simp: ret_ok d6 raise_ok split: if_splits)
  ultimately show ?thesis using limit_price_ok [OF lp] c a other by simp
qed

definition reserve_row :: "ext \<Rightarrow> policy_snapshot \<Rightarrow> decimal \<Rightarrow> decimal \<Rightarrow> decimal \<Rightarrow> copy_intent_row \<Rightarrow> copy_intent_row"
where
  "reserve_row X policy qty price notional r =
     r\<lparr>ci_planned_qty := Some (show_dec X qty), ci_planned_price := Some (show_dec X price),
       ci_tick_size := Some (tick_size policy), ci_time_in_force := Some ''FAK'',
       ci_reserved_qty := show_dec X qty, ci_planned_notional_usdc := Some (show_dec X notional)\<rparr>"

lemma reserve_row_simps [simp]:
  "ci_id (reserve_row X policy q p n r) = ci_id r" "ci_account_id (reserve_row X policy q p n r) = ci_account_id r"
  "ci_token_id (reserve_row X policy q p n r) = ci_token_id r" "ci_side (reserve_row X policy q p n r) = ci_side r"
  "ci_status (reserve_row X policy q p n r) = ci_status r"
  "ci_reserved_qty (reserve_row X policy q p n r) = show_dec X q"
  "ci_planned_notional_usdc (reserve_row X policy q p n r) = Some (show_dec X n)"
  "active_reservation (reserve_row X policy q p n r) = active_reservation r"
  by (simp_all add: reserve_row_def active_reservation_def)

text \<open>An early return of the sizing branches is never a decision.\<close>

abbreviation no_decision :: "sizing_outcome + 'a \<Rightarrow> bool" where
  "no_decision \<equiv> \<lambda>r. \<forall>out. r = Inl out \<longrightarrow> (\<forall>dn. out \<noteq> Decision dn)"

lemma size_side_no_decision:
  "yields no_decision (size_sell X now reader cl policy pp)"
  "yields no_decision (size_buy X reader cl policy pp)"
proof -
  have 1: "yields no_decision (limit_price_or_reject X policy pp sd price)"
    "yields no_decision (strict_or_reconcile e ans)" for sd price e ans
    unfolding limit_price_or_reject_def strict_or_reconcile_def
    by (auto intro!: yields_ret split: sum.splits)
  have 2: "yields no_decision (buy_budget_for X policy target sz price avail)" for target sz price avail
    unfolding buy_budget_for_def policy_budget_def balancing_budget_def ratio_budget_def
      fixed_share_budget_def notional_budget_def
    by (intro yields_intros; simp)
  show "yields no_decision (size_sell X now reader cl policy pp)"
    unfolding size_sell_def by (intro yields_intros 1; simp)
  show "yields no_decision (size_buy X reader cl policy pp)"
    unfolding size_buy_def by (intro yields_intros 1 2; simp)
qed

text \<open>A fresh decision: what was sized, and the one row it was written to.\<close>

lemma fresh_decision:
  assumes "size_and_reserve X now sql_now reader cl d = (Inr (Decision dn), d')"
    and "cl_existing_decision cl = None" "intents.keyed d"
    and "intent_by_id (cl_intent_id cl) d = Some r" "ci_status r = InProgress"
  obtains policy pp qty price budget notional where
    "(case cl_side cl of Sell \<Rightarrow> size_sell X sql_now reader cl policy pp
        | Buy \<Rightarrow> size_buy X reader cl policy pp) d = (Inr (Inr (qty, price, budget)), d)"
    "notional = (case budget of Some b \<Rightarrow> b | None \<Rightarrow> qty * price)"
    "cl_side cl = Buy \<Longrightarrow> 1 \<le> notional"
    "dn = decision_of cl policy qty price budget"
    "d' = put_intents (update_rows (\<lambda>x. ci_id x = cl_intent_id cl) (reserve_row X policy qty price notional)
            (copy_intents d)) d"
proof -
  from assms(1,2) obtain policy d1 where pol: "load_policy_snapshot X (cl_intent_id cl) d = (Inr policy, d1)"
    and fr: "size_fresh X sql_now reader cl policy d1 = (Inr (Decision dn), d')"
    by (auto simp: size_and_reserve_def and_then_ok ret_ok split: if_splits)
  have d1: "d1 = d" using ro_state [OF load_ro(1) pol] .
  let ?side = "\<lambda>pp. case cl_side cl of Sell \<Rightarrow> size_sell X sql_now reader cl policy pp
        | Buy \<Rightarrow> size_buy X reader cl policy pp"
  have ro: "ro.stays (?side pp)" "yields no_decision (?side pp)" for pp
    by (cases "cl_side cl"; simp only: side.case size_side_ro size_side_no_decision)+
  from fr obtain pp d2 sized d3 where pp: "parse_price_policy X policy d1 = (Inr pp, d2)"
    and sz': "?side pp d2 = (Inr sized, d3)"
    and rest': "(case sized of Inl out \<Rightarrow> ret out
     | Inr (qty, limit_price, buy_budget) \<Rightarrow>
         let planned_notional = (case buy_budget of Some b \<Rightarrow> b | None \<Rightarrow> qty * limit_price)
         in if cl_side cl = Buy \<and> planned_notional < 1
            then ret (SzRejected ''computed buy notional is below the CLOB minimum of 1 USDC'')
            else
              and_then (transaction (persist_decision X cl policy qty limit_price planned_notional)) (\<lambda>updated.
              if updated = 0 then ret (SzNeedsReconcile ''intent state changed during sizing'')
              else ret (Decision (decision_of cl policy qty limit_price buy_budget)))) d3 = (Inr (Decision dn), d')"
    unfolding size_fresh_def and_then_ok [of "parse_price_policy _ _"] and_then_ok [of "case_side _ _ _"]
    by (elim exE conjE) (rule that; assumption)
  have d2: "d2 = d" using ro_state [OF load_ro(8) pp] d1 by simp
  have d3: "d3 = d" using ro_state [OF ro(1) sz'] d2 by simp
  note sz = sz' [unfolded d2 d3] and rest = rest' [unfolded d3]
  have "sized \<noteq> Inl out" for out
    using yieldsD [OF ro(2) sz] rest by (auto simp: ret_ok)
  then obtain qty price budget where q: "sized = Inr (qty, price, budget)"
    by (metis prod_cases3 sum.exhaust)
  define notional where "notional = (case budget of Some b \<Rightarrow> b | None \<Rightarrow> qty * price)"
  have f: "find_row (\<lambda>x. ci_id x = cl_intent_id cl) (copy_intents d) = Some r"
    using assms(4) by (simp add: intent_by_id_def)
  have p: "persist_decision X cl policy qty price notional d = (Inr 1,
      put_intents (update_rows (\<lambda>x. ci_id x = cl_intent_id cl) (reserve_row X policy qty price notional)
            (copy_intents d)) d)"
    unfolding persist_decision_def intents.cas_update [OF assms(3) f]
    by (simp add: assms(5) reserve_row_def [abs_def])
  from rest have "\<not> (cl_side cl = Buy \<and> notional < 1)" and
    "dn = decision_of cl policy qty price budget" and
    "d' = put_intents (update_rows (\<lambda>x. ci_id x = cl_intent_id cl) (reserve_row X policy qty price notional)
            (copy_intents d)) d"
    by (auto simp: q Let_def notional_def [symmetric] transaction_def p and_then_def ret_def split: if_splits)
  with that [of policy pp qty price budget notional] show thesis
    using sz q by (auto simp: notional_def)
qed

text \<open>Everything a claim establishes for the sizing that follows it.\<close>

lemma claimed_row:
  assumes "intents.keyed d0" "claim_or_resume_intent X i d0 = (Inr (Some cl), d)"
  obtains r where "intents.keyed d" "cl_intent_id cl = i" "intent_by_id i d = Some r" "ci_status r = InProgress"
    "cl_account_id cl = ci_account_id r" "cl_leader_id cl = ci_leader_id r" "cl_token_id cl = ci_token_id r"
    "side_from_str (ci_side r) = Some (cl_side cl)" "position_lots d = position_lots d0"
proof -
  from assms(2) obtain r0 where r0: "intent_by_id i d0 = Some r0" "claimable r0"
    and d: "d = claim_db i d0" and c: "map_sum id Some (fst (claimed_of_row X i (in_progress r0) d)) = Inr (Some cl)"
    unfolding claim_eq [OF assms(1)] by (auto split: option.splits if_splits)
  have k: "intents.keyed d"
    unfolding d claim_db_def by (rule intents.keyed_update [OF assms(1)]) simp
  have f: "find_row (\<lambda>r. ci_id r = i) (copy_intents d0) = Some r0" using r0 by (simp add: intent_by_id_def)
  have r': "intent_by_id i d = Some (in_progress r0)"
    unfolding d claim_db_def intent_by_id_def
    by (subst intents.find_after_update) (simp_all add: f find_row_Some [OF f])
  from c have "claimed_of_row X i (in_progress r0) d = (Inr cl, d)"
    using ro_state [OF claimed_of_row_ro, of X i "in_progress r0" d]
    by (cases "claimed_of_row X i (in_progress r0) d"; cases "fst (claimed_of_row X i (in_progress r0) d)") auto
  then obtain sd where "side_from_str (ci_side r0) = Some sd" "cl_side cl = sd" "cl_intent_id cl = i"
    "cl_account_id cl = ci_account_id r0" "cl_leader_id cl = ci_leader_id r0" "cl_token_id cl = ci_token_id r0"
    by (auto simp: claimed_of_row_Inr)
  moreover have "position_lots d = position_lots d0" by (simp add: d claim_db_def put_intents_def)
  ultimately show thesis using that [of "in_progress r0"] k r' by simp
qed

text \<open>
  C13. A SELL never oversells.  A freshly sized SELL of a claimed intent is for a positive number of
  whole hundredths of a share, at most the leader's virtual lot, at a price strictly inside (0, 1); and
  once its reservation is written, all active reservations of the account in that token together stay
  within the balance the strict venue query returned.  Nothing but the intent's own row changes.
\<close>

theorem sell_never_oversells:
  assumes "dec_codec X" "intents.keyed d0"
    and "claim_or_resume_intent X i d0 = (Inr (Some cl), d)"
    and "size_and_reserve X now sql_now reader cl d = (Inr (Decision dn), d')"
    and "cl_side cl = Sell" "cl_existing_decision cl = None"
    and "position_for_token_strict reader (cl_token_id cl) = Inr avail"
  shows "active_reserved X (cl_account_id cl) (cl_token_id cl) d' \<le> avail \<and>
    0 < sd_qty dn \<and> cent_multiple (sd_qty dn) \<and>
    sd_qty dn \<le> lot_value X (cl_account_id cl) (cl_leader_id cl) (cl_token_id cl) d0 \<and>
    0 < sd_limit_price dn \<and> sd_limit_price dn < 1 \<and> sd_buy_budget dn = None \<and>
    (\<exists>f. d' = put_intents (update_rows (\<lambda>r. ci_id r = i) f (copy_intents d)) d)"
proof -
  obtain r where k: "intents.keyed d" and i: "cl_intent_id cl = i" and r: "intent_by_id i d = Some r"
    and st: "ci_status r = InProgress" and acc: "cl_account_id cl = ci_account_id r"
    and tok: "cl_token_id cl = ci_token_id r" and pl: "position_lots d = position_lots d0"
    using claimed_row [OF assms(2,3)] by metis
  obtain policy pp qty price budget notional where
    sz: "(case cl_side cl of Sell \<Rightarrow> size_sell X sql_now reader cl policy pp
        | Buy \<Rightarrow> size_buy X reader cl policy pp) d = (Inr (Inr (qty, price, budget)), d)"
    and dn: "dn = decision_of cl policy qty price budget"
    and d': "d' = put_intents (update_rows (\<lambda>x. ci_id x = cl_intent_id cl) (reserve_row X policy qty price notional)
            (copy_intents d)) d"
    using fresh_decision [OF assms(4,6) k r [folded i] st] by metis
  have f: "find_row (\<lambda>x. ci_id x = i) (copy_intents d) = Some r" using r by (simp add: intent_by_id_def)
  have "size_sell X sql_now reader cl policy pp d = (Inr (Inr (qty, price, budget)), d)"
    using sz assms(5) by simp
  note s = size_sell_ok [OF this]
  let ?P = "\<lambda>r. ci_account_id r = cl_account_id cl \<and> ci_token_id r = cl_token_id cl \<and> active_reservation r"
  have "active_reserved X (cl_account_id cl) (cl_token_id cl) d' = dec_val X (show_dec X qty) + other_shares X cl d"
    unfolding active_reserved_def d' i
    using sum_list_update_key [of ci_id "copy_intents d" i r ?P "reserve_row X policy qty price notional"
      "\<lambda>r. dec_val X (ci_reserved_qty r)"] k f acc tok st
    by (simp add: intents.keyed_def active_reservation_def)
  moreover have "dec_val X (show_dec X qty) = qty" using assms(1) by (simp add: dec_val_def dec_codec_def)
  ultimately show ?thesis
    using s assms(7) unfolding d' i by (auto simp: dn decision_of_def lot_value_def lot_row_def pl)
qed

text \<open>
  C12. A BUY never overspends.  A freshly sized BUY has a budget of at least 1 USDC at a price strictly
  inside (0, 1); and once its reservation is written, the notional of all active BUYs of the account
  stays within both the collateral and the allowance the strict venue queries returned.
\<close>

theorem buy_never_overspends:
  assumes "dec_codec X" "intents.keyed d0"
    and "claim_or_resume_intent X i d0 = (Inr (Some cl), d)"
    and "size_and_reserve X now sql_now reader cl d = (Inr (Decision dn), d')"
    and "cl_side cl = Buy" "cl_existing_decision cl = None"
    and "collateral_balance_strict reader = Inr collateral" "collateral_allowance_strict reader = Inr allowance"
  shows "active_buy_notional X (cl_account_id cl) d' \<le> min collateral allowance \<and>
    0 < sd_qty dn \<and> 0 < sd_limit_price dn \<and> sd_limit_price dn < 1 \<and>
    (\<exists>b. sd_buy_budget dn = Some b \<and> 1 \<le> b) \<and>
    (\<exists>f. d' = put_intents (update_rows (\<lambda>r. ci_id r = i) f (copy_intents d)) d)"
proof -
  obtain r where k: "intents.keyed d" and i: "cl_intent_id cl = i" and r: "intent_by_id i d = Some r"
    and st: "ci_status r = InProgress" and acc: "cl_account_id cl = ci_account_id r"
    and sd: "side_from_str (ci_side r) = Some (cl_side cl)"
    using claimed_row [OF assms(2,3)] by metis
  obtain policy pp qty price budget notional where
    sz: "(case cl_side cl of Sell \<Rightarrow> size_sell X sql_now reader cl policy pp
        | Buy \<Rightarrow> size_buy X reader cl policy pp) d = (Inr (Inr (qty, price, budget)), d)"
    and n: "notional = (case budget of Some b \<Rightarrow> b | None \<Rightarrow> qty * price)" "cl_side cl = Buy \<Longrightarrow> 1 \<le> notional"
    and dn: "dn = decision_of cl policy qty price budget"
    and d': "d' = put_intents (update_rows (\<lambda>x. ci_id x = cl_intent_id cl) (reserve_row X policy qty price notional)
            (copy_intents d)) d"
    using fresh_decision [OF assms(4,6) k r [folded i] st] by metis
  have f: "find_row (\<lambda>x. ci_id x = i) (copy_intents d) = Some r" using r by (simp add: intent_by_id_def)
  have "size_buy X reader cl policy pp d = (Inr (Inr (qty, price, budget)), d)" using sz assms(5) by simp
  note s = size_buy_ok [OF this]
  then obtain b where b: "budget = Some b" "b \<le> available_collateral collateral allowance (other_buys X cl d)"
    using assms(7,8) by auto
  have side: "ci_side r = ''BUY''" using side_from_str_Some [OF sd] assms(5) by (simp add: side_as_str_def)
  let ?P = "\<lambda>r. ci_account_id r = cl_account_id cl \<and> ci_side r = ''BUY'' \<and> active_reservation r"
  have "active_buy_notional X (cl_account_id cl) d' = dec_val X (show_dec X b) + other_buys X cl d"
    unfolding active_buy_notional_def d' i
    using sum_list_update_key [of ci_id "copy_intents d" i r ?P "reserve_row X policy qty price notional"
      "reserved_notional X"] k f acc st side n(1) b(1)
    by (simp add: intents.keyed_def active_reservation_def reserved_notional_def)
  moreover have "dec_val X (show_dec X b) = b" using assms(1) by (simp add: dec_val_def dec_codec_def)
  moreover have "1 \<le> b" using n b(1) assms(5) by simp
  moreover have "b + other_buys X cl d \<le> min collateral allowance"
    using b(2) \<open>1 \<le> b\<close> by (auto simp: available_collateral_def max_def split: if_splits)
  ultimately show ?thesis
    using s b(1) unfolding d' i by (auto simp: dn decision_of_def)
qed

section \<open>A concrete SELL and a concrete BUY\<close>

definition sell0 :: db where
  "sell0 = db0\<lparr>copy_intents := [intent0\<lparr>ci_side := ''SELL'', ci_status := Pending, ci_planned_qty := None,
     ci_planned_price := None, ci_planned_notional_usdc := None, ci_reserved_qty := ''0''\<rparr>],
     position_lots := [\<lparr>pl_account_id = 1, pl_leader_id = 1, pl_token_id = ''7'', pl_qty = show_dec0 5,
       pl_updated_at = 0\<rparr>]\<rparr>"

definition buy0 :: db where
  "buy0 = db0\<lparr>copy_intents := [intent0\<lparr>ci_status := Pending, ci_planned_qty := None,
     ci_planned_price := None, ci_planned_notional_usdc := None, ci_reserved_qty := ''0''\<rparr>]\<rparr>"

definition reader0 :: balance_reader where
  "reader0 = \<lparr>position_for_token_strict = (\<lambda>_. Inr 3), collateral_balance_strict = Inr 10,
     collateral_allowance_strict = Inr 20\<rparr>"

definition claimed0 :: "side \<Rightarrow> claimed_intent" where
  "claimed0 sd = \<lparr>cl_intent_id = 1, cl_account_id = 1, cl_leader_id = 1, cl_token_id = ''7'',
     cl_condition_id = ''c'', cl_leader_price = 3/5, cl_side = sd,
     cl_decision_deadline_at = Some (show_dec0 30000), cl_existing_decision = None\<rparr>"

lemmas claim_eval = sell0_def buy0_def sample_defs claim_or_resume_intent_def claim_row_def and_then_def
  sql_update_def reads_def put_intents_def lookup_defs claimed_of_row_def side_from_str_def or_raise_def
  existing_decision_of_def ret_def claimed0_def

lemmas size_eval = size_and_reserve_def deadline_expired_def load_policy_snapshot_def size_fresh_def
  parse_price_policy_def size_sell_def size_buy_def load_position_lot_def assert_that_def
  outcome_token_id_ok_def or_return_def strict_or_reconcile_def reader0_def
  sum_other_active_reservations_def sum_other_active_buy_reservation_notional_def load_event_price_def
  load_event_size_def limit_price_or_reject_def policy_limit_price_def round_order_qty_down_def
  round_usdc_down_def trunc_dp_def round_price_def apply_tolerance_def buy_ceiling_def
  clamp_to_policy_band_def defensively_cap_below_one_def balancing_target_def buy_budget_for_def
  policy_budget_def notional_budget_def available_collateral_def market_buy_shares_for_budget_def
  transaction_def persist_decision_def

lemma sell0_sized:
  "\<exists>d dn d'. claim_or_resume_intent ext0 1 sell0 = (Inr (Some (claimed0 Sell)), d) \<and>
     size_and_reserve ext0 0 0 reader0 (claimed0 Sell) d = (Inr (Decision dn), d')"
  by (simp add: claim_eval size_eval)

lemma buy0_sized:
  "\<exists>d dn d'. claim_or_resume_intent ext0 1 buy0 = (Inr (Some (claimed0 Buy)), d) \<and>
     size_and_reserve ext0 0 0 reader0 (claimed0 Buy) d = (Inr (Decision dn), d')"
proof -
  have "\<lceil>306 / 5 :: rat\<rceil> = 62" by (rule ceiling_unique) simp_all
  then show ?thesis by (simp add: claim_eval size_eval Let_def)
qed

lemma claimed0_simps [simp]:
  "cl_side (claimed0 sd) = sd" "cl_existing_decision (claimed0 sd) = None" "cl_token_id (claimed0 sd) = ''7''"
  "cl_account_id (claimed0 sd) = 1" "cl_intent_id (claimed0 sd) = 1"
  by (simp_all add: claimed0_def)

theorem sell_never_oversells_witness:
  "\<exists>d dn d'. claim_or_resume_intent ext0 1 sell0 = (Inr (Some (claimed0 Sell)), d) \<and>
     size_and_reserve ext0 0 0 reader0 (claimed0 Sell) d = (Inr (Decision dn), d') \<and>
     0 < sd_qty dn \<and> active_reserved ext0 1 ''7'' d' \<le> 3"
proof -
  obtain d dn d' where c: "claim_or_resume_intent ext0 1 sell0 = (Inr (Some (claimed0 Sell)), d)"
    and z: "size_and_reserve ext0 0 0 reader0 (claimed0 Sell) d = (Inr (Decision dn), d')"
    using sell0_sized by auto
  have k: "intents.keyed sell0" by (simp add: intents.keyed_def sell0_def)
  have p: "position_for_token_strict reader0 (cl_token_id (claimed0 Sell)) = Inr 3" by (simp add: reader0_def)
  from sell_never_oversells [OF ext0_dec_codec k c z _ _ p]
  have "active_reserved ext0 1 ''7'' d' \<le> 3 \<and> 0 < sd_qty dn" by simp
  with c z show ?thesis by blast
qed

theorem buy_never_overspends_witness:
  "\<exists>d dn d'. claim_or_resume_intent ext0 1 buy0 = (Inr (Some (claimed0 Buy)), d) \<and>
     size_and_reserve ext0 0 0 reader0 (claimed0 Buy) d = (Inr (Decision dn), d') \<and>
     0 < sd_qty dn \<and> active_buy_notional ext0 1 d' \<le> 10"
proof -
  obtain d dn d' where c: "claim_or_resume_intent ext0 1 buy0 = (Inr (Some (claimed0 Buy)), d)"
    and z: "size_and_reserve ext0 0 0 reader0 (claimed0 Buy) d = (Inr (Decision dn), d')"
    using buy0_sized by auto
  have k: "intents.keyed buy0" by (simp add: intents.keyed_def buy0_def)
  have p: "collateral_balance_strict reader0 = Inr 10" "collateral_allowance_strict reader0 = Inr 20"
    by (simp_all add: reader0_def)
  from buy_never_overspends [OF ext0_dec_codec k c z _ _ p]
  have "active_buy_notional ext0 1 d' \<le> 10 \<and> 0 < sd_qty dn" by simp
  with c z show ?thesis by blast
qed

text \<open>
  Sizing fails closed.  Without a deadline, with an unreadable one or after it, sizing answers
  \<open>Expired\<close>, reads no policy, asks the venue nothing and writes nothing.  A decision that was already
  persisted is never recalculated: it is returned as it stands, whatever the venue would answer, and
  nothing is written.
\<close>

theorem sizing_fails_closed:
  "(deadline_expired X now (cl_decision_deadline_at cl) \<longrightarrow>
      size_and_reserve X now sql_now reader cl d = (Inr Expired, d) \<and>
      reprice_fixed_share_buy_after_no_fak X now reader cl sweep d = (Inr Expired, d)) \<and>
   (\<forall>qty price notional policy.
      \<not> deadline_expired X now (cl_decision_deadline_at cl) \<and> cl_existing_decision cl = Some (qty, price, notional) \<and>
      load_policy_snapshot X (cl_intent_id cl) d = (Inr policy, d) \<longrightarrow>
      (\<exists>dn. size_and_reserve X now sql_now reader cl d = (Inr (Decision dn), d) \<and>
         sd_qty dn = qty \<and> sd_limit_price dn = price \<and> sd_side dn = cl_side cl \<and>
         sd_buy_budget dn = (if cl_side cl = Buy then Some notional else None))) \<and>
   (deadline_expired X now dl \<longleftrightarrow> \<not> (\<exists>raw t. dl = Some raw \<and> parse_time X raw = Some t \<and> now \<le> t))"
  by (auto simp: size_and_reserve_def reprice_fixed_share_buy_after_no_fak_def ret_def and_then_def
      decision_of_def deadline_expired_def split: option.splits)

theorem sizing_fails_closed_witness:
  "deadline_expired ext0 40000 (cl_decision_deadline_at (claimed0 Buy)) \<and>
   size_and_reserve ext0 40000 0 reader0 (claimed0 Buy) buy0 = (Inr Expired, buy0)"
proof -
  have "deadline_expired ext0 40000 (cl_decision_deadline_at (claimed0 Buy))"
    by (simp add: deadline_expired_def claimed0_def)
  with sizing_fails_closed [of ext0 40000 "claimed0 Buy"] show ?thesis by blast
qed

end
