(* ===== verification/Ledger.thy ===== *)
theory Ledger
  imports Execute
begin

text \<open>
  The accounting invariant behind \<open>position_lots\<close>: a virtual lot is exactly the sum of the fills
  accounted on the attempts of its account, leader and token, bought shares counted positively and
  sold shares negatively.  Booking a receipt (\<open>finalize_receipt\<close>) keeps it, and so does every statement
  that leaves lots, accounted fills and the identity of intents alone; the later theories use the
  rules of this one for their own operations.
\<close>

section \<open>The books\<close>

definition fill_of :: "ext \<Rightarrow> int \<Rightarrow> int \<Rightarrow> string \<Rightarrow> db \<Rightarrow> order_attempt_row \<Rightarrow> decimal" where
  "fill_of X acc ldr tok d oa = (case intent_by_id (oa_intent_id oa) d of
       None \<Rightarrow> 0
     | Some ci \<Rightarrow>
         if ci_account_id ci = acc \<and> ci_leader_id ci = ldr \<and> ci_token_id ci = tok
         then (case side_from_str (ci_side ci) of
                 None \<Rightarrow> 0
               | Some Buy \<Rightarrow> dec_val X (oa_accounted_filled_qty oa)
               | Some Sell \<Rightarrow> - dec_val X (oa_accounted_filled_qty oa))
         else 0)"

definition booked :: "ext \<Rightarrow> int \<Rightarrow> int \<Rightarrow> string \<Rightarrow> db \<Rightarrow> decimal" where
  "booked X acc ldr tok d = sum_list (map (fill_of X acc ldr tok d) (order_attempts d))"

definition lots_balanced :: "ext \<Rightarrow> db \<Rightarrow> bool" where
  "lots_balanced X d \<longleftrightarrow> (\<forall>acc ldr tok. lot_value X acc ldr tok d = booked X acc ldr tok d)"

definition attempts_linked :: "db \<Rightarrow> bool" where
  "attempts_linked d \<longleftrightarrow> (\<forall>oa \<in> set (order_attempts d). intent_by_id (oa_intent_id oa) d \<noteq> None)"

definition books :: "ext \<Rightarrow> db \<Rightarrow> bool" where
  "books X d \<longleftrightarrow> lots_balanced X d \<and> attempts_linked d \<and> intents.keyed d \<and> attempts.keyed d"

section \<open>Statements that leave the books alone\<close>

definition intent_identity :: "copy_intent_row \<Rightarrow> int \<times> int \<times> int \<times> string \<times> string" where
  "intent_identity r = (ci_id r, ci_account_id r, ci_leader_id r, ci_token_id r, ci_side r)"

definition attempt_identity :: "order_attempt_row \<Rightarrow> int \<times> int \<times> string" where
  "attempt_identity r = (oa_id r, oa_intent_id r, oa_accounted_filled_qty r)"

text \<open>The books only depend on the lots and on these identities.\<close>

definition fill_by_identity ::
  "ext \<Rightarrow> int \<Rightarrow> int \<Rightarrow> string \<Rightarrow> (int \<times> int \<times> int \<times> string \<times> string) option \<Rightarrow> string \<Rightarrow> decimal" where
  "fill_by_identity X acc ldr tok ci q = (case ci of
       None \<Rightarrow> 0
     | Some (_, a, l, t, sd) \<Rightarrow>
         if a = acc \<and> l = ldr \<and> t = tok
         then (case side_from_str sd of None \<Rightarrow> 0 | Some Buy \<Rightarrow> dec_val X q | Some Sell \<Rightarrow> - dec_val X q)
         else 0)"

lemma fill_of_identity:
  "fill_of X acc ldr tok d = (\<lambda>oa. fill_by_identity X acc ldr tok
     (map_option intent_identity (intent_by_id (oa_intent_id oa) d)) (oa_accounted_filled_qty oa))"
  by (auto simp: fill_of_def fill_by_identity_def intent_identity_def split: option.splits)

lemma intent_by_id_identity:
  assumes "map intent_identity (copy_intents d) = map intent_identity (copy_intents d')"
  shows "map_option intent_identity (intent_by_id i d) = map_option intent_identity (intent_by_id i d')"
proof -
  have "map_option intent_identity (find_row (\<lambda>r. ci_id r = i) xs) =
      find_row (\<lambda>t. fst t = i) (map intent_identity xs)" for xs
    by (induction xs) (auto simp: intent_identity_def)
  then show ?thesis using assms by (simp add: intent_by_id_def)
qed

lemma books_cong:
  assumes i: "map intent_identity (copy_intents d) = map intent_identity (copy_intents d')"
    and a: "map attempt_identity (order_attempts d) = map attempt_identity (order_attempts d')"
    and p: "position_lots d = position_lots d'"
  shows "books X d = books X d'"
proof -
  note ii = intent_by_id_identity [OF i]
  have o: "map (\<lambda>oa. f (oa_intent_id oa) (oa_accounted_filled_qty oa)) ys =
      map (\<lambda>(_, j, q). f j q) (map attempt_identity ys)" for f :: "int \<Rightarrow> string \<Rightarrow> decimal" and ys
    by (simp add: attempt_identity_def)
  have "map (fill_of X acc ldr tok d) (order_attempts d) = map (fill_of X acc ldr tok d') (order_attempts d')"
    for acc ldr tok
    unfolding fill_of_identity ii
      o [of "\<lambda>j. fill_by_identity X acc ldr tok (map_option intent_identity (intent_by_id j d'))"] a ..
  then have 1: "booked X acc ldr tok d = booked X acc ldr tok d'" for acc ldr tok by (simp add: booked_def)
  have 2: "lot_value X acc ldr tok d = lot_value X acc ldr tok d'" for acc ldr tok
    using p by (simp add: lot_value_def lot_row_def)
  have fst3: "map ci_id xs = map fst (map intent_identity xs)" "map oa_id ys = map fst (map attempt_identity ys)"
    "oa_intent_id ` set ys = (fst \<circ> snd) ` set (map attempt_identity ys)" for xs ys
    by (auto simp: intent_identity_def attempt_identity_def image_iff)
  have 3: "(intent_by_id j d = None) = (intent_by_id j d' = None)" for j
    using ii [of j] by (metis map_option_is_None)
  have 4: "attempts_linked d = attempts_linked d'"
  proof -
    have "attempts_linked e = (\<forall>j \<in> oa_intent_id ` set (order_attempts e). intent_by_id j e \<noteq> None)" for e
      by (simp add: attempts_linked_def)
    then show ?thesis by (simp only: fst3(3) a 3)
  qed
  show ?thesis
    unfolding books_def lots_balanced_def intents.keyed_def attempts.keyed_def 1 2 4 fst3(1,2) i a ..
qed

text \<open>
  One rule per kind of statement: updates that keep the identities, inserts of new intents and of new
  attempts with nothing accounted yet, and everything on the other tables.
\<close>

lemma books_update_intents:
  assumes "\<And>r. intent_identity (f r) = intent_identity r"
  shows "keeps.stays (books X) (update_intents P f)"
  by (rule keeps.stays_update, rule impI, subst books_cong [where d' = "s" for s])
    (simp_all add: map_update_rows assms put_intents_def)

lemma books_update_attempts:
  assumes "\<And>r. attempt_identity (f r) = attempt_identity r"
  shows "keeps.stays (books X) (update_attempts P f)"
  by (rule keeps.stays_update, rule impI, subst books_cong [where d' = "s" for s])
    (simp_all add: map_update_rows assms put_attempts_def)

lemma books_other_tables:
  "keeps.stays (books X) (update_cases P f)" "keeps.stays (books X) (insert_case mk)"
  "keeps.stays (books X) (update_reservations Q g)" "keeps.stays (books X) (insert_reservation mk')"
  by (rule keeps.stays_update keeps.stays_insert, rule impI, subst books_cong [where d' = "s" for s],
      simp_all add: put_cases_def put_reservations_def)+

lemma intent_by_id_insert:
  assumes "intent_by_id j d \<noteq> None"
  shows "intent_by_id j (put_intents (copy_intents d @ [r]) d) = intent_by_id j d"
  using assms by (auto simp: intent_by_id_def find_row_append split: option.splits)

lemma books_insert_intent:
  assumes "\<And>i. ci_id (mk i) = i"
  shows "keeps.stays (books X) (insert_intent mk)"
proof (rule keeps.stays_insert, rule impI)
  fix d assume b: "books X d"
  let ?d = "put_intents (copy_intents d @ [mk (next_id ci_id (copy_intents d))]) d"
  have l: "attempts_linked d" and k: "intents.keyed d" using b by (simp_all add: books_def)
  have same: "oa \<in> set (order_attempts d) \<Longrightarrow> intent_by_id (oa_intent_id oa) ?d = intent_by_id (oa_intent_id oa) d" for oa
    using l by (intro intent_by_id_insert) (auto simp: attempts_linked_def)
  then have "map (fill_of X acc ldr tok ?d) (order_attempts d) = map (fill_of X acc ldr tok d) (order_attempts d)"
    for acc ldr tok by (auto simp: fill_of_def)
  then have "booked X acc ldr tok ?d = booked X acc ldr tok d" for acc ldr tok
    by (simp only: booked_def put_frame)
  moreover have "lot_value X acc ldr tok ?d = lot_value X acc ldr tok d" for acc ldr tok
    by (simp add: lot_value_def lot_row_def)
  moreover have "attempts_linked ?d" using l same by (simp add: attempts_linked_def)
  moreover have "intents.keyed ?d" by (rule intents.keyed_insert [OF k]) (rule assms)
  moreover have "attempts.keyed ?d" using b by (simp add: books_def attempts.keyed_def)
  ultimately show "books X ?d" using b by (simp add: books_def lots_balanced_def)
qed

lemma books_insert_new_attempt:
  assumes "\<And>i. oa_id (mk i) = i" "\<And>i. oa_intent_id (mk i) = j" "\<And>i. oa_accounted_filled_qty (mk i) = ''0''"
    and "dec_codec X"
  shows "keeps.stays (books X) (insert_new_attempt err j n mk)"
proof -
  have "books X (put_attempts (order_attempts d @ [mk (next_id oa_id (order_attempts d))]) d)"
    if b: "books X d" and j: "intent_by_id j d \<noteq> None" for d
  proof -
    let ?d = "put_attempts (order_attempts d @ [mk (next_id oa_id (order_attempts d))]) d"
    have i: "intent_by_id i ?d = intent_by_id i d" for i by (simp add: intent_by_id_def)
    have z: "dec_val X ''0'' = 0" using assms(4) by (simp add: dec_codec_def dec_val_def)
    have "fill_of X acc ldr tok ?d = fill_of X acc ldr tok d" for acc ldr tok
      by (rule ext) (simp add: fill_of_def i)
    moreover have "fill_of X acc ldr tok d (mk i) = 0" for acc ldr tok i
      by (auto simp: fill_of_def assms z split: option.splits side.splits)
    ultimately have "booked X acc ldr tok ?d = booked X acc ldr tok d" for acc ldr tok
      by (simp add: booked_def)
    moreover have "lot_value X acc ldr tok ?d = lot_value X acc ldr tok d" for acc ldr tok
      by (simp add: lot_value_def lot_row_def)
    moreover have "attempts_linked ?d" using b j by (simp add: books_def attempts_linked_def i assms)
    moreover have "attempts.keyed ?d"
      by (rule attempts.keyed_insert) (use b in \<open>simp_all add: books_def assms\<close>)
    ultimately show ?thesis using b by (simp add: books_def lots_balanced_def intents.keyed_def)
  qed
  then show ?thesis by (simp add: keeps.stays_def insert_new_attempt_def sql_insert_def Let_def)
qed

lemmas books_prims = books_update_intents books_update_attempts books_other_tables

section \<open>Booking a receipt\<close>

abbreviation signed :: "side \<Rightarrow> decimal \<Rightarrow> decimal" where
  "signed sd q \<equiv> (case sd of Buy \<Rightarrow> q | Sell \<Rightarrow> - q)"

definition book_lot :: "ext \<Rightarrow> timestamp \<Rightarrow> copy_intent_row \<Rightarrow> decimal \<Rightarrow> db \<Rightarrow> db" where
  "book_lot X now ci q d = upsert_lot (ci_account_id ci) (ci_leader_id ci) (ci_token_id ci)
     (show_dec X (lot_value X (ci_account_id ci) (ci_leader_id ci) (ci_token_id ci) d + q)) now d"

definition booked_attempt :: "ext \<Rightarrow> decimal \<Rightarrow> order_receipt \<Rightarrow> order_attempt_row \<Rightarrow> order_attempt_row" where
  "booked_attempt X q receipt r = r\<lparr>oa_accounted_filled_qty := show_dec X q, oa_receipt := Some receipt\<rparr>"

definition closed_intent :: "bool \<Rightarrow> copy_intent_row \<Rightarrow> copy_intent_row" where
  "closed_intent partially r =
     r\<lparr>ci_status := (if partially then PartiallyFilled else Completed), ci_reserved_qty := ''0''\<rparr>"

lemma apply_lot_delta_ok:
  "apply_lot_delta X now ci sd q d = (Inr u, d') \<Longrightarrow> d' = book_lot X now ci (signed sd q) d"
  by (cases "lot_row (ci_account_id ci) (ci_leader_id ci) (ci_token_id ci) d")
    (auto simp: apply_lot_delta_def Let_def act_ok book_lot_def lot_value_def dec_val_def)

text \<open>The whole effect of a successful booking.\<close>

lemma finalize_with_conn_ok:
  assumes "finalize_receipt_with_conn X now i a receipt d = (Inr u, d')"
  obtains ci oa sd so_far delta where
    "intent_by_id i d = Some ci" "attempt_by_id a d = Some oa" "side_from_str (ci_side ci) = Some sd"
    "parse_dec X (oa_accounted_filled_qty oa) = Some so_far" "delta = max (filled_qty receipt - so_far) 0"
    "d' = (let dl = (if delta > 0 then book_lot X now ci (signed sd delta) d else d);
               da = put_attempts (update_rows (\<lambda>r. oa_id r = a) (booked_attempt X (so_far + delta) receipt)
                      (order_attempts dl)) dl
           in put_intents (update_rows (\<lambda>r. ci_id r = i) (closed_intent (remaining_qty receipt > 0 \<and> delta > 0))
                (copy_intents da)) da)"
proof -
  let ?delta = "\<lambda>so_far. max (filled_qty receipt - so_far) 0"
  from assms obtain ci oa sd so_far where
    ci: "intent_by_id i d = Some ci" and oa: "attempt_by_id a d = Some oa" and
    sd: "side_from_str (ci_side ci) = Some sd" and sf: "parse_dec X (oa_accounted_filled_qty oa) = Some so_far"
    and rest: "and_then (if ?delta so_far > 0 then apply_lot_delta X now ci sd (?delta so_far) else ret ()) (\<lambda>_.
     and_then (update_attempts (\<lambda>r. oa_id r = a)
        (\<lambda>r. r\<lparr>oa_accounted_filled_qty := show_dec X (so_far + ?delta so_far), oa_receipt := Some receipt\<rparr>)) (\<lambda>_.
     and_then (update_intents (\<lambda>r. ci_id r = i)
        (\<lambda>r. r\<lparr>ci_status := (if remaining_qty receipt > 0 \<and> ?delta so_far > 0 then PartiallyFilled else Completed),
               ci_reserved_qty := ''0''\<rparr>)) (\<lambda>_. ret ()))) d = (Inr u, d')"
    unfolding finalize_receipt_with_conn_def Let_def and_then_ok [of "reads _"] and_then_ok [of "or_raise _ _"]
      reads_ok or_raise_ok
    by (elim exE conjE) (rule that; simp)
  define delta where "delta = ?delta so_far"
  from rest [folded delta_def] obtain u1 d1 where
    lot: "(if delta > 0 then apply_lot_delta X now ci sd delta else ret ()) d = (Inr u1, d1)"
    and d': "d' = put_intents (update_rows (\<lambda>r. ci_id r = i)
        (closed_intent (remaining_qty receipt > 0 \<and> delta > 0))
        (copy_intents (put_attempts (update_rows (\<lambda>r. oa_id r = a) (booked_attempt X (so_far + delta) receipt)
          (order_attempts d1)) d1)))
        (put_attempts (update_rows (\<lambda>r. oa_id r = a) (booked_attempt X (so_far + delta) receipt)
          (order_attempts d1)) d1)"
    unfolding and_then_ok ret_ok intents.update_ok attempts.update_ok
    by (elim exE conjE) (rule that; simp add: booked_attempt_def [abs_def] closed_intent_def [abs_def])
  have "d1 = (if delta > 0 then book_lot X now ci (signed sd delta) d else d)"
    using lot by (cases "delta > 0") (simp_all add: ret_ok apply_lot_delta_ok)
  note d1 = this [symmetric]
  show thesis
    by (rule that [OF ci oa sd sf delta_def])
      (unfold Let_def d1, rule d')
qed

lemma lot_row_upsert:
  "lot_row acc ldr tok (upsert_lot a l t q now d) =
     (if acc = a \<and> ldr = l \<and> tok = t
      then Some (case lot_row a l t d of
             None \<Rightarrow> \<lparr>pl_account_id = a, pl_leader_id = l, pl_token_id = t, pl_qty = q, pl_updated_at = now\<rparr>
           | Some r \<Rightarrow> r\<lparr>pl_qty := q, pl_updated_at := now\<rparr>)
      else lot_row acc ldr tok d)"
proof (cases "lot_row a l t d")
  case None
  then show ?thesis
    by (auto simp: upsert_lot_def lot_row_def find_row_append split: option.splits)
next
  case (Some r)
  have "find_row (\<lambda>r. pl_account_id r = acc \<and> pl_leader_id r = ldr \<and> pl_token_id r = tok)
      (update_rows (\<lambda>r. pl_account_id r = a \<and> pl_leader_id r = l \<and> pl_token_id r = t)
        (\<lambda>r. r\<lparr>pl_qty := q, pl_updated_at := now\<rparr>) rs) =
     map_option (\<lambda>r. if pl_account_id r = a \<and> pl_leader_id r = l \<and> pl_token_id r = t
        then r\<lparr>pl_qty := q, pl_updated_at := now\<rparr> else r)
      (find_row (\<lambda>r. pl_account_id r = acc \<and> pl_leader_id r = ldr \<and> pl_token_id r = tok) rs)" for rs
    by (induction rs) auto
  then have u: "lot_row acc ldr tok (upsert_lot a l t q now d) =
     map_option (\<lambda>r. if pl_account_id r = a \<and> pl_leader_id r = l \<and> pl_token_id r = t
        then r\<lparr>pl_qty := q, pl_updated_at := now\<rparr> else r) (lot_row acc ldr tok d)"
    using Some by (simp add: upsert_lot_def lot_row_def)
  have k: "lot_row acc ldr tok d = Some x \<Longrightarrow> pl_account_id x = acc \<and> pl_leader_id x = ldr \<and> pl_token_id x = tok"
    for x unfolding lot_row_def by (drule find_row_Some) simp
  show ?thesis
  proof (cases "acc = a \<and> ldr = l \<and> tok = t")
    case True
    with Some k [of r] u show ?thesis by simp
  next
    case False
    with k show ?thesis by (cases "lot_row acc ldr tok d") (auto simp: u)
  qed
qed

lemma lot_value_book:
  assumes "dec_codec X"
  shows "lot_value X acc ldr tok (book_lot X now ci q d) = lot_value X acc ldr tok d +
     (if acc = ci_account_id ci \<and> ldr = ci_leader_id ci \<and> tok = ci_token_id ci then q else 0)"
  using assms
  by (auto simp: book_lot_def lot_value_def [of _ _ _ _ "upsert_lot _ _ _ _ _ _"] lot_row_upsert dec_codec_def
      dec_val_def [of _ "show_dec _ _"] split: option.splits)
    (auto simp: lot_value_def)

lemma book_lot_frame [simp]:
  "copy_intents (book_lot X now ci q d) = copy_intents d"
  "order_attempts (book_lot X now ci q d) = order_attempts d"
  by (auto simp: book_lot_def upsert_lot_def split: option.splits)

text \<open>A booking for an attempt of the intent itself keeps the books.\<close>

lemma books_finalize_with_conn:
  assumes X: "dec_codec X" and b: "books X d"
    and f: "finalize_receipt_with_conn X now i a receipt d = (Inr u, d')"
    and link: "\<And>oa. attempt_by_id a d = Some oa \<Longrightarrow> oa_intent_id oa = i"
  shows "books X d'"
proof -
  obtain ci oa sd so_far delta where ci: "intent_by_id i d = Some ci" and oa: "attempt_by_id a d = Some oa"
    and sd: "side_from_str (ci_side ci) = Some sd"
    and sf: "parse_dec X (oa_accounted_filled_qty oa) = Some so_far" and dl: "delta = max (filled_qty receipt - so_far) 0"
    and d': "d' = (let dl = (if delta > 0 then book_lot X now ci (signed sd delta) d else d);
               da = put_attempts (update_rows (\<lambda>r. oa_id r = a) (booked_attempt X (so_far + delta) receipt)
                      (order_attempts dl)) dl
           in put_intents (update_rows (\<lambda>r. ci_id r = i) (closed_intent (remaining_qty receipt > 0 \<and> delta > 0))
                (copy_intents da)) da)"
    by (rule finalize_with_conn_ok [OF f])
  have ci': "copy_intents d' = update_rows (\<lambda>r. ci_id r = i)
      (closed_intent (remaining_qty receipt > 0 \<and> delta > 0)) (copy_intents d)"
    and oa': "order_attempts d' = update_rows (\<lambda>r. oa_id r = a) (booked_attempt X (so_far + delta) receipt)
      (order_attempts d)" by (simp_all add: d' Let_def)
  have id: "map intent_identity (copy_intents d') = map intent_identity (copy_intents d)"
    unfolding ci' by (rule map_update_rows) (simp add: closed_intent_def intent_identity_def)
  note ii = intent_by_id_identity [OF id]
  have fo: "find_row (\<lambda>r. oa_id r = a) (order_attempts d) = Some oa" using oa by (simp add: attempt_by_id_def)
  have ka: "distinct (map oa_id (order_attempts d))" using b by (simp add: books_def attempts.keyed_def)
  have v: "dec_val X (show_dec X q) = q" for q using X by (simp add: dec_codec_def dec_val_def)
  have bk: "booked X acc ldr tok d' = booked X acc ldr tok d +
      (if acc = ci_account_id ci \<and> ldr = ci_leader_id ci \<and> tok = ci_token_id ci then signed sd delta else 0)"
    for acc ldr tok
  proof -
    have "fill_of X acc ldr tok d' = fill_of X acc ldr tok d" unfolding fill_of_identity ii ..
    then have "booked X acc ldr tok d' = booked X acc ldr tok d - fill_of X acc ldr tok d oa +
        fill_of X acc ldr tok d (booked_attempt X (so_far + delta) receipt oa)"
      unfolding booked_def oa' by (simp only: sum_list_update_one [OF ka fo])
    moreover have "dec_val X (oa_accounted_filled_qty oa) = so_far" using sf by (simp add: dec_val_def)
    ultimately show ?thesis
      using ci sd link [OF oa] by (auto simp: fill_of_def booked_attempt_def v split: side.splits)
  qed
  have dl0: "0 \<le> delta" by (simp add: dl)
  have "lot_value X acc ldr tok d' = lot_value X acc ldr tok d +
      (if acc = ci_account_id ci \<and> ldr = ci_leader_id ci \<and> tok = ci_token_id ci then signed sd delta else 0)"
    for acc ldr tok
  proof -
    have "position_lots d' = position_lots (if delta > 0 then book_lot X now ci (signed sd delta) d else d)"
      by (simp add: d' Let_def)
    then have "lot_value X acc ldr tok d' =
        lot_value X acc ldr tok (if delta > 0 then book_lot X now ci (signed sd delta) d else d)"
      by (simp only: lot_value_def lot_row_def)
    with dl0 show ?thesis using lot_value_book [OF X] by (cases "delta > 0"; cases sd) auto
  qed
  with bk b have "lots_balanced X d'" by (simp add: books_def lots_balanced_def)
  moreover have "attempts_linked d'"
  proof -
    have n: "intent_by_id j d' = None \<longleftrightarrow> intent_by_id j d = None" for j
      using ii [of j] by (metis map_option_is_None)
    have "map oa_intent_id (order_attempts d') = map oa_intent_id (order_attempts d)"
      unfolding oa' by (rule map_update_rows) (simp add: booked_attempt_def)
    then have "oa_intent_id ` set (order_attempts d') = oa_intent_id ` set (order_attempts d)"
      by (metis list.set_map)
    moreover have "attempts_linked e = (\<forall>j \<in> oa_intent_id ` set (order_attempts e). intent_by_id j e \<noteq> None)" for e
      by (simp add: attempts_linked_def)
    ultimately have "attempts_linked d' = attempts_linked d" by (simp only: n)
    then show ?thesis using b by (simp add: books_def)
  qed
  moreover have "intents.keyed d'"
  proof -
    have "map ci_id (copy_intents d') = map ci_id (copy_intents d)"
      unfolding ci' by (rule map_update_rows) (simp add: closed_intent_def)
    then show ?thesis using b by (simp only: books_def intents.keyed_def)
  qed
  moreover have "attempts.keyed d'"
  proof -
    have "map oa_id (order_attempts d') = map oa_id (order_attempts d)"
      unfolding oa' by (rule map_update_rows) (simp add: booked_attempt_def)
    then show ?thesis using ka by (simp only: attempts.keyed_def)
  qed
  ultimately show ?thesis by (simp add: books_def)
qed

lemma finalize_transaction_ok:
  assumes "finalize_receipt_transaction X now i a receipt fb d = (Inr u, d')"
  obtains u1 d1 oa where "\<not> fb" "finalize_receipt_with_conn X now i a receipt d = (Inr u1, d1)"
    "oa \<in> set (order_attempts d1)" "oa_id oa = a" "oa_intent_id oa = i" "finalizable (oa_status oa)"
    "d' = put_attempts (update_rows (\<lambda>r. oa_id r = a \<and> oa_intent_id r = i \<and> finalizable (oa_status r))
       (\<lambda>r. r\<lparr>oa_status := Finalized\<rparr>) (order_attempts d1)) d1"
proof -
  let ?P = "\<lambda>r. oa_id r = a \<and> oa_intent_id r = i \<and> finalizable (oa_status r)"
  from assms obtain u1 d1 where 1: "finalize_receipt_with_conn X now i a receipt d = (Inr u1, d1)"
    and 2: "length (filter ?P (order_attempts d1)) = 1" and 3: "\<not> fb"
    and 4: "d' = put_attempts (update_rows ?P (\<lambda>r. r\<lparr>oa_status := Finalized\<rparr>) (order_attempts d1)) d1"
    unfolding finalize_receipt_transaction_def transaction_ok and_then_ok attempts.update_ok assert_that_ok
    by (elim exE conjE) (rule that; simp add: raise_ok ret_ok split: if_splits)
  from 2 obtain oa where "oa \<in> set (order_attempts d1)" "?P oa" by (rule filter_key_1)
  then show thesis using that [OF 3 1 _ _ _ _ 4] by simp
qed

text \<open>A booking keeps the identity of intents and attempts apart from the accounted quantity.\<close>

lemma finalize_with_conn_rows:
  assumes "finalize_receipt_with_conn X now i a receipt d = (Inr u, d1)"
  shows "map (\<lambda>r. (oa_id r, oa_intent_id r, oa_status r)) (order_attempts d1) =
     map (\<lambda>r. (oa_id r, oa_intent_id r, oa_status r)) (order_attempts d)"
proof -
  obtain ci sd so_far delta where "d1 = (let dl = (if delta > 0 then book_lot X now ci (signed sd delta) d else d);
               da = put_attempts (update_rows (\<lambda>r. oa_id r = a) (booked_attempt X (so_far + delta) receipt)
                      (order_attempts dl)) dl
           in put_intents (update_rows (\<lambda>r. ci_id r = i) (closed_intent (remaining_qty receipt > 0 \<and> delta > 0))
                (copy_intents da)) da)"
    by (rule finalize_with_conn_ok [OF assms])
  then have "order_attempts d1 = update_rows (\<lambda>r. oa_id r = a) (booked_attempt X (so_far + delta) receipt) (order_attempts d)"
    by (simp add: Let_def)
  then show ?thesis by (simp add: map_update_rows booked_attempt_def)
qed

lemma books_finalize:
  assumes X: "dec_codec X"
  shows "keeps.stays (books X) (finalize_receipt_transaction X now i a receipt fb)"
  unfolding keeps.stays_def
proof (intro allI impI)
  fix d assume b: "books X d"
  obtain r d' where f: "finalize_receipt_transaction X now i a receipt fb d = (r, d')" by fastforce
  have "books X d'"
  proof (cases r)
    case (Inl e)
    then have "d' = d" using f transaction_error by (auto simp: finalize_receipt_transaction_def)
    with b show ?thesis by simp
  next
    case (Inr u)
    obtain u1 d1 oa where c: "finalize_receipt_with_conn X now i a receipt d = (Inr u1, d1)"
      and oa: "oa \<in> set (order_attempts d1)" "oa_id oa = a" "oa_intent_id oa = i"
      and d': "d' = put_attempts (update_rows (\<lambda>r. oa_id r = a \<and> oa_intent_id r = i \<and> finalizable (oa_status r))
       (\<lambda>r. r\<lparr>oa_status := Finalized\<rparr>) (order_attempts d1)) d1"
      by (rule finalize_transaction_ok [OF f [unfolded Inr]])
    have "(oa_id oa, oa_intent_id oa, oa_status oa) \<in>
        set (map (\<lambda>r. (oa_id r, oa_intent_id r, oa_status r)) (order_attempts d1))" using oa(1) by auto
    then obtain oa0 where o: "oa0 \<in> set (order_attempts d)" "oa_id oa0 = a" "oa_intent_id oa0 = i"
      unfolding finalize_with_conn_rows [OF c] using oa by auto
    have "distinct (map oa_id (order_attempts d))" using b by (simp add: books_def attempts.keyed_def)
    from find_row_unique [OF this o(1,2)] have "attempt_by_id a d = Some oa0" by (simp add: attempt_by_id_def)
    with o have "books X d1" by (intro books_finalize_with_conn [OF X b c]) simp
    moreover have "books X d' = books X d1"
      unfolding d' by (rule books_cong) (simp_all add: put_attempts_def map_update_rows attempt_identity_def)
    ultimately show ?thesis by simp
  qed
  then show "books X (snd (finalize_receipt_transaction X now i a receipt fb d))" by (simp add: f)
qed

section \<open>The operations of planning and execution keep the books\<close>

lemma ro_keeps: "ro.stays m \<Longrightarrow> keeps.stays I m"
  by (simp add: ro.stays_def keeps.stays_def)

lemma books_cong_other:
  assumes "copy_intents d' = copy_intents d" "order_attempts d' = order_attempts d" "position_lots d' = position_lots d"
  shows "books X d' = books X d"
  by (rule books_cong) (simp_all add: assms)

lemma books_plan:
  "keeps.stays (books X) (advance_cursor acc e)"
  "keeps.stays (books X) (insert_or_ignore_lock acc cond tok i)"
  "keeps.stays (books X) (insert_or_ignore_intent acc ev sched dn)"
proof -
  have c: "books X (d\<lparr>planner_cursor := c\<rparr>) = books X d" for d c by (rule books_cong_other) simp_all
  show "keeps.stays (books X) (advance_cursor acc e)"
    unfolding advance_cursor_def by (rule keeps.stays_modifies) (simp add: c)
  have l: "books X (d\<lparr>market_locks := ls\<rparr>) = books X d" for d ls by (rule books_cong_other) simp_all
  show "keeps.stays (books X) (insert_or_ignore_lock acc cond tok i)"
    unfolding insert_or_ignore_lock_def keeps.stays_def by (simp add: l)
  have "keeps.stays (books X)
      (and_then (insert_intent (planned_intent_row acc ev sched dn)) (\<lambda>_. ret 1) :: (plan_error, nat) db_act)"
    by (intro keeps.stays_intros books_insert_intent) (simp add: planned_intent_row_def)
  then show "keeps.stays (books X) (insert_or_ignore_intent acc ev sched dn)"
    unfolding insert_or_ignore_intent_def keeps.stays_def by (simp del: One_nat_def)
qed

lemma books_plan_event_tx: "keeps.stays (books X) (plan_event_tx acc ev sched dn)"
  unfolding plan_event_tx_def market_direction_gate_def
  by (intro keeps.stays_intros books_plan books_update_intents) (simp_all add: intent_identity_def)

lemma evaluate_event_ro: "ro.stays (evaluate_event X now acc ev sched)"
  unfolding evaluate_event_def by (intro ro.stays_intros)

lemma books_plan_events: "keeps.stays (books X) (plan_events Y clk acc sched evs sm)"
proof (induction evs arbitrary: sm)
  case (Cons ev evs)
  have "keeps.stays (books X) (plan_one Y now acc sched ev sm)" for now
    unfolding plan_one_def
    by (intro keeps.stays_intros books_plan books_plan_event_tx ro_keeps [OF evaluate_event_ro])
  then show ?case by (simp add: keeps.stays_and_then Cons.IH)
qed (simp add: keeps.stays_basic)

lemma load_execution_schedule_ro: "ro.stays load_execution_schedule"
  by (auto simp: ro.stays_def load_execution_schedule_def split: option.splits)

lemma books_plan_batch: "keeps.stays (books X) (plan_next_batch_with_limit Y clk acc n)"
  unfolding plan_next_batch_with_limit_def
  by (intro keeps.stays_intros books_plan_events ro_keeps [OF load_execution_schedule_ro])

lemma books_claim: "keeps.stays (books X) (claim_or_resume_intent Y i)"
  unfolding claim_or_resume_intent_def claim_row_def
  by (intro keeps.stays_intros books_update_intents ro_keeps [OF claimed_of_row_ro])
    (simp add: intent_identity_def)

lemma books_size: "keeps.stays (books X) (size_and_reserve Y now sql_now reader cl)"
proof -
  have "keeps.stays (books X) (size_fresh Y sql_now reader cl policy)" for policy
    unfolding size_fresh_def persist_decision_def
    by (cases "cl_side cl"; simp only: side.case)
      (intro keeps.stays_intros books_update_intents ro_keeps [OF load_ro(8)] ro_keeps [OF size_side_ro(1)]
        ro_keeps [OF size_side_ro(2)]; simp add: intent_identity_def)+
  then show ?thesis
    unfolding size_and_reserve_def by (intro keeps.stays_intros ro_keeps [OF load_ro(1)])
qed

lemma books_reprice: "keeps.stays (books X) (reprice_fixed_share_buy_after_no_fak Y now reader cl p)"
  unfolding reprice_fixed_share_buy_after_no_fak_def fixed_share_mismatch_def
  by (intro keeps.stays_intros books_update_intents ro_keeps [OF load_ro(1)] ro_keeps [OF load_ro(7)])
    (simp_all add: intent_identity_def)

lemma books_close:
  "keeps.stays (books X) (open_balance_drift_case cl reason)"
  "keeps.stays (books X) (cancel_expired_intent i)"
  "keeps.stays (books X) (reject_pre_submit_intent i reason)"
  "keeps.stays (books X) (cancel_overdue_pre_submit_intent Y now acc i)"
proof -
  show c: "keeps.stays (books X) (cancel_expired_intent i)"
    unfolding cancel_expired_intent_def
    by (intro keeps.stays_intros books_update_intents books_update_attempts)
      (simp_all add: intent_identity_def attempt_identity_def)
  show "keeps.stays (books X) (cancel_overdue_pre_submit_intent Y now acc i)"
    unfolding cancel_overdue_pre_submit_intent_def by (intro keeps.stays_intros c)
  show "keeps.stays (books X) (open_balance_drift_case cl reason)"
    unfolding open_balance_drift_case_def
    by (intro keeps.stays_intros books_update_intents books_other_tables) (simp add: intent_identity_def)
  show "keeps.stays (books X) (reject_pre_submit_intent i reason)"
    unfolding reject_pre_submit_intent_def
    by (intro keeps.stays_intros books_update_intents) (simp add: intent_identity_def)
qed

lemma books_execute_intent:
  assumes "dec_codec X"
  shows "keeps.stays (books X) (execute_intent X now sql_now reader submit i)"
proof -
  have r: "keeps.stays (books X) (record_attempt X sql_now dn n receipt)" for dn n receipt
    unfolding record_attempt_def by (rule books_insert_new_attempt) (simp_all add: assms)
  have n: "keeps.stays (books X) (next_attempt_number j)" for j
    unfolding next_attempt_number_def by (rule keeps.stays_basic)
  have o: "keeps.stays (books X) (case sized of
         SzNeedsReconcile reason \<Rightarrow>
           and_then (open_balance_drift_case cl reason) (\<lambda>_. ret (Some (OutNeedsReconcile reason)))
       | Expired \<Rightarrow> and_then (cancel_expired_intent (cl_intent_id cl)) (\<lambda>_. ret (Some OutExpired))
       | SzRejected reason \<Rightarrow>
           and_then (reject_pre_submit_intent (cl_intent_id cl) reason) (\<lambda>_. ret (Some (OutRejected reason)))
       | Decision dn \<Rightarrow>
           and_then (lift_result (map_sum Submission id (submit dn))) (\<lambda>receipt.
           and_then (next_attempt_number (sd_intent_id dn)) (\<lambda>n.
           and_then (record_attempt X sql_now dn n receipt) (\<lambda>attempt_id.
           and_then (finalize_receipt X sql_now (sd_intent_id dn) attempt_id receipt) (\<lambda>_.
           ret (Some (Filled (filled_qty receipt))))))))" for sized cl
    unfolding finalize_receipt_def
    by (cases sized; simp only: sizing_outcome.case)
      (intro keeps.stays_intros books_close r n books_finalize [OF assms])+
  show ?thesis
    unfolding execute_intent_def by (intro keeps.stays_intros books_claim books_size o)
qed

section \<open>Properties\<close>

text \<open>
  C4. The lots follow the fills.  If the books balance, booking a receipt leaves them balanced whatever
  happens.  A failed booking, a crash before the commit included, changes nothing.  A successful one
  moves exactly one lot, by exactly the fill that was not accounted before, upwards for a BUY and
  downwards for a SELL, and releases the intent's reservation.
\<close>

theorem finalize_moves_lot_by_delta:
  assumes "dec_codec X" "books X d"
    and "finalize_receipt_transaction X now i a receipt fail_before_commit d = (r, d')"
  shows "books X d' \<and>
    (case r of
       Inl e \<Rightarrow> d' = d
     | Inr u \<Rightarrow> \<not> fail_before_commit \<and> (\<exists>ci oa sd so_far.
         intent_by_id i d = Some ci \<and> attempt_by_id a d = Some oa \<and> oa_intent_id oa = i \<and>
         side_from_str (ci_side ci) = Some sd \<and> parse_dec X (oa_accounted_filled_qty oa) = Some so_far \<and>
         (\<forall>acc ldr tok. lot_value X acc ldr tok d' = lot_value X acc ldr tok d +
            (if acc = ci_account_id ci \<and> ldr = ci_leader_id ci \<and> tok = ci_token_id ci
             then (case sd of Buy \<Rightarrow> 1 | Sell \<Rightarrow> -1) * max (filled_qty receipt - so_far) 0 else 0)) \<and>
         (\<exists>ci'. intent_by_id i d' = Some ci' \<and> ci_reserved_qty ci' = ''0'')))"
proof -
  have b: "books X d'" using keepsD [OF books_finalize [OF assms(1)] assms(2,3)] .
  show ?thesis
  proof (cases r)
    case (Inl e)
    then have "d' = d" using assms(3) transaction_error by (auto simp: finalize_receipt_transaction_def)
    with b Inl show ?thesis by simp
  next
    case (Inr u)
    obtain u1 d1 oa1 where fb: "\<not> fail_before_commit"
      and c: "finalize_receipt_with_conn X now i a receipt d = (Inr u1, d1)"
      and oa1: "oa1 \<in> set (order_attempts d1)" "oa_id oa1 = a" "oa_intent_id oa1 = i"
      and d': "d' = put_attempts (update_rows (\<lambda>r. oa_id r = a \<and> oa_intent_id r = i \<and> finalizable (oa_status r))
       (\<lambda>r. r\<lparr>oa_status := Finalized\<rparr>) (order_attempts d1)) d1"
      by (rule finalize_transaction_ok [OF assms(3) [unfolded Inr]])
    obtain ci oa sd so_far delta where ci: "intent_by_id i d = Some ci" and oa: "attempt_by_id a d = Some oa"
      and sd: "side_from_str (ci_side ci) = Some sd"
      and sf: "parse_dec X (oa_accounted_filled_qty oa) = Some so_far" and dl: "delta = max (filled_qty receipt - so_far) 0"
      and d1: "d1 = (let dl = (if delta > 0 then book_lot X now ci (signed sd delta) d else d);
               da = put_attempts (update_rows (\<lambda>r. oa_id r = a) (booked_attempt X (so_far + delta) receipt)
                      (order_attempts dl)) dl
           in put_intents (update_rows (\<lambda>r. ci_id r = i) (closed_intent (remaining_qty receipt > 0 \<and> delta > 0))
                (copy_intents da)) da)"
      by (rule finalize_with_conn_ok [OF c])
    have "(oa_id oa1, oa_intent_id oa1, oa_status oa1) \<in>
        set (map (\<lambda>r. (oa_id r, oa_intent_id r, oa_status r)) (order_attempts d1))" using oa1(1) by auto
    then obtain oa0 where o: "oa0 \<in> set (order_attempts d)" "oa_id oa0 = a" "oa_intent_id oa0 = i"
      unfolding finalize_with_conn_rows [OF c] using oa1 by auto
    have "distinct (map oa_id (order_attempts d))" using assms(2) by (simp add: books_def attempts.keyed_def)
    from find_row_unique [OF this o(1,2)] oa have "oa = oa0" by (simp add: attempt_by_id_def)
    with o have link: "oa_intent_id oa = i" by simp
    have "position_lots d' = position_lots (if delta > 0 then book_lot X now ci (signed sd delta) d else d)"
      by (simp add: d' d1 Let_def)
    then have lv: "lot_value X acc ldr tok d' =
        lot_value X acc ldr tok (if delta > 0 then book_lot X now ci (signed sd delta) d else d)" for acc ldr tok
      by (simp only: lot_value_def lot_row_def)
    have "0 \<le> delta" by (simp add: dl)
    then have lots: "lot_value X acc ldr tok d' = lot_value X acc ldr tok d +
          (if acc = ci_account_id ci \<and> ldr = ci_leader_id ci \<and> tok = ci_token_id ci
           then (case sd of Buy \<Rightarrow> 1 | Sell \<Rightarrow> -1) * delta else 0)" for acc ldr tok
      unfolding lv using lot_value_book [OF assms(1)] by (cases "delta > 0"; cases sd) auto
    have f: "find_row (\<lambda>r. ci_id r = i) (copy_intents d) = Some ci" using ci by (simp add: intent_by_id_def)
    have ci'': "copy_intents d' = update_rows (\<lambda>r. ci_id r = i)
        (closed_intent (remaining_qty receipt > 0 \<and> delta > 0)) (copy_intents d)"
      by (simp add: d' d1 Let_def)
    have "intent_by_id i d' = Some (closed_intent (remaining_qty receipt > 0 \<and> delta > 0) ci)"
      unfolding intent_by_id_def ci''
      by (subst find_row_update) (simp_all add: f find_row_Some [OF f] closed_intent_def)
    moreover have "ci_reserved_qty (closed_intent q ci) = ''0''" for q by (simp add: closed_intent_def)
    note res = calculation this
    show ?thesis unfolding Inr sum.case
      using b fb ci oa link sd sf lots [unfolded dl] res by (intro conjI exI allI) assumption+
  qed
qed

theorem finalize_moves_lot_by_delta_witness:
  "\<exists>d'. finalize_receipt_transaction ext0 0 1 1 \<lparr>requested_qty = 3, accepted_qty = 3, filled_qty = 5, remaining_qty = 0\<rparr>
       False (db1\<lparr>order_attempts := [attempt0\<lparr>oa_status := Submitting\<rparr>]\<rparr>) = (Inr (), d') \<and>
     books ext0 d' \<and> lot_value ext0 1 1 ''7'' d' = 5"
proof -
  let ?d = "db1\<lparr>order_attempts := [attempt0\<lparr>oa_status := Submitting\<rparr>]\<rparr>"
  let ?r = "\<lparr>requested_qty = 3, accepted_qty = 3, filled_qty = 5, remaining_qty = 0\<rparr> :: order_receipt"
  have z: "dec_val ext0 ''0'' = 0" by (simp add: dec_val_def)
  have t: "order_attempts ?d = [attempt0\<lparr>oa_status := Submitting\<rparr>]" "copy_intents ?d = [intent0]" "position_lots ?d = []"
    by (simp_all add: db1_def db0_def)
  have r: "oa_id attempt0 = 1" "oa_intent_id attempt0 = 1" "oa_accounted_filled_qty attempt0 = ''0''" "ci_id intent0 = 1"
    "ci_account_id intent0 = 1" "ci_leader_id intent0 = 1" "ci_token_id intent0 = ''7''" "ci_side intent0 = ''BUY''"
    by (simp_all add: attempt0_def intent0_def)
  have i: "intent_by_id 1 ?d = Some intent0" "attempt_by_id 1 ?d = Some (attempt0\<lparr>oa_status := Submitting\<rparr>)"
    "lot_row acc ldr tok ?d = None" for acc ldr tok
    by (simp_all only: intent_by_id_def attempt_by_id_def lot_row_def t) (simp_all add: r)
  have "booked ext0 acc ldr tok ?d = 0" for acc ldr tok
    unfolding booked_def t by (simp add: fill_of_def r i z split: option.splits side.splits)
  then have b: "books ext0 ?d"
    by (simp add: books_def lots_balanced_def lot_value_def i attempts_linked_def intents.keyed_def attempts.keyed_def t r)
  have "\<exists>d'. finalize_receipt_transaction ext0 0 1 1 ?r False ?d = (Inr (), d')"
    by (simp add: finalize_receipt_transaction_def finalize_receipt_with_conn_def apply_lot_delta_def transaction_def
        act_simps i r side_from_str_def sql_update_def put_defs finalizable_def Let_def upsert_lot_def t)
  then obtain d' where f: "finalize_receipt_transaction ext0 0 1 1 ?r False ?d = (Inr (), d')" by blast
  have v: "lot_value ext0 1 1 ''7'' ?d = 0" by (simp add: lot_value_def i)
  from finalize_moves_lot_by_delta [OF ext0_dec_codec b f]
  have "lot_value ext0 1 1 ''7'' d' = 5 \<and> books ext0 d'"
    by (auto simp: i v r side_from_str_def)
  with f show ?thesis by blast
qed

text \<open>Finalizing twice: the second pass finds the fill accounted already.\<close>

lemma finalize_after_finalize:
  assumes X: "dec_codec X" and ki: "intents.keyed d" and ka: "attempts.keyed d"
    and f: "finalize_receipt X now i a receipt d = (Inr u, d')"
  obtains oa ci where "attempt_by_id a d' = Some oa" "intent_by_id i d' = Some ci" "oa_intent_id oa = i"
    "oa_status oa = Finalized" "oa_receipt oa = Some receipt" "ci_side ci = ''BUY'' \<or> ci_side ci = ''SELL''"
    "\<exists>q. oa_accounted_filled_qty oa = show_dec X q \<and> filled_qty receipt \<le> q" "intents.keyed d'" "attempts.keyed d'"
proof -
  let ?P = "\<lambda>r. oa_id r = a \<and> oa_intent_id r = i \<and> finalizable (oa_status r)"
  obtain u1 d1 oa1 where c: "finalize_receipt_with_conn X now i a receipt d = (Inr u1, d1)"
    and oa1: "oa1 \<in> set (order_attempts d1)" "oa_id oa1 = a" "oa_intent_id oa1 = i" "finalizable (oa_status oa1)"
    and d': "d' = put_attempts (update_rows ?P (\<lambda>r. r\<lparr>oa_status := Finalized\<rparr>) (order_attempts d1)) d1"
    by (rule finalize_transaction_ok [OF f [unfolded finalize_receipt_def]])
  obtain ci oa sd so_far delta where ci: "intent_by_id i d = Some ci" and oa: "attempt_by_id a d = Some oa"
      and sd: "side_from_str (ci_side ci) = Some sd" and dl: "delta = max (filled_qty receipt - so_far) 0"
      and d1: "d1 = (let dl = (if delta > 0 then book_lot X now ci (signed sd delta) d else d);
               da = put_attempts (update_rows (\<lambda>r. oa_id r = a) (booked_attempt X (so_far + delta) receipt)
                      (order_attempts dl)) dl
           in put_intents (update_rows (\<lambda>r. ci_id r = i) (closed_intent (remaining_qty receipt > 0 \<and> delta > 0))
                (copy_intents da)) da)"
    by (rule finalize_with_conn_ok [OF c])
  have ci1: "copy_intents d' = update_rows (\<lambda>r. ci_id r = i)
      (closed_intent (remaining_qty receipt > 0 \<and> delta > 0)) (copy_intents d)"
    and oa2: "order_attempts d1 = update_rows (\<lambda>r. oa_id r = a) (booked_attempt X (so_far + delta) receipt)
      (order_attempts d)" by (simp_all add: d' d1 Let_def)
  have fo: "find_row (\<lambda>r. oa_id r = a) (order_attempts d) = Some oa" using oa by (simp add: attempt_by_id_def)
  have fi: "find_row (\<lambda>r. ci_id r = i) (copy_intents d) = Some ci" using ci by (simp add: intent_by_id_def)
  let ?oa = "booked_attempt X (so_far + delta) receipt oa"
  have f1: "find_row (\<lambda>r. oa_id r = a) (order_attempts d1) = Some ?oa"
    unfolding oa2 by (subst find_row_update) (simp_all add: fo find_row_Some [OF fo] booked_attempt_def)
  have k1: "distinct (map oa_id (order_attempts d1))"
    unfolding oa2 using ka by (subst map_update_rows) (simp_all add: booked_attempt_def attempts.keyed_def)
  have same: "oa1 = ?oa" by (rule keyed_same_row [OF k1 f1 oa1(1,2)])
  have "find_row (\<lambda>r. oa_id r = a) (order_attempts d') = Some (?oa\<lparr>oa_status := Finalized\<rparr>)"
    unfolding d' using oa1 same
    by (simp, subst find_row_update) (simp_all add: f1)
  then have A: "attempt_by_id a d' = Some (?oa\<lparr>oa_status := Finalized\<rparr>)" by (simp add: attempt_by_id_def)
  have I: "intent_by_id i d' = Some (closed_intent (remaining_qty receipt > 0 \<and> delta > 0) ci)"
    unfolding intent_by_id_def ci1
    by (subst find_row_update) (simp_all add: fi find_row_Some [OF fi] closed_intent_def)
  have K: "intents.keyed d'" "attempts.keyed d'"
  proof -
    show "intents.keyed d'" unfolding intents.keyed_def ci1
      using ki by (subst map_update_rows) (simp_all add: closed_intent_def intents.keyed_def)
    show "attempts.keyed d'" unfolding attempts.keyed_def d'
      using k1 by (simp add: map_update_rows)
  qed
  show thesis
  proof (rule that [OF A I _ _ _ _ _ K])
    show "oa_intent_id (?oa\<lparr>oa_status := Finalized\<rparr>) = i" using oa1 same by simp
    show "oa_status (?oa\<lparr>oa_status := Finalized\<rparr>) = Finalized" by simp
    show "oa_receipt (?oa\<lparr>oa_status := Finalized\<rparr>) = Some receipt" by (simp add: booked_attempt_def)
    show "ci_side (closed_intent (remaining_qty receipt > 0 \<and> delta > 0) ci) = ''BUY'' \<or>
        ci_side (closed_intent (remaining_qty receipt > 0 \<and> delta > 0) ci) = ''SELL''"
      using side_from_str_Some [OF sd] by (cases sd) (simp_all add: closed_intent_def side_as_str_def)
    show "\<exists>q. oa_accounted_filled_qty (?oa\<lparr>oa_status := Finalized\<rparr>) = show_dec X q \<and> filled_qty receipt \<le> q"
      by (rule exI [of _ "so_far + delta"]) (simp add: booked_attempt_def dl)
  qed
qed

text \<open>
  Replaying a receipt.  After a receipt was booked, booking the same receipt again, at any later
  time, succeeds and changes neither a lot nor an attempt; only the intent's status can change: the
  replay of a partial fill finds nothing new to account and marks the intent completed.
\<close>

theorem finalize_replay:
  assumes "dec_codec X" "intents.keyed d" "attempts.keyed d"
    and "finalize_receipt X now i a receipt d = (Inr u, d')"
  shows "\<exists>d''. finalize_receipt X later i a receipt d' = (Inr (), d'') \<and>
    position_lots d'' = position_lots d' \<and> order_attempts d'' = order_attempts d' \<and>
    copy_intents d'' = update_rows (\<lambda>r. ci_id r = i) (\<lambda>r. r\<lparr>ci_status := Completed, ci_reserved_qty := ''0''\<rparr>)
      (copy_intents d') \<and>
    reconciliation_cases d'' = reconciliation_cases d' \<and> budget_reservations d'' = budget_reservations d'"
proof -
  obtain oa ci q where oa: "attempt_by_id a d' = Some oa" and ci: "intent_by_id i d' = Some ci" and
    r: "oa_intent_id oa = i" "oa_status oa = Finalized" "oa_receipt oa = Some receipt"
    and sd: "ci_side ci = ''BUY'' \<or> ci_side ci = ''SELL''"
    and q: "oa_accounted_filled_qty oa = show_dec X q" "filled_qty receipt \<le> q" and ka: "attempts.keyed d'"
    using finalize_after_finalize [OF assms] by (metis (no_types, lifting))
  obtain s where s: "side_from_str (ci_side ci) = Some s" using sd by (auto simp: side_from_str_def)
  have p: "parse_dec X (show_dec X q) = Some q" using assms(1) by (simp add: dec_codec_def)
  have m: "max (filled_qty receipt - q) 0 = 0" using q(2) by simp
  have fo: "find_row (\<lambda>r. oa_id r = a) (order_attempts d') = Some oa" using oa by (simp add: attempt_by_id_def)
  have ka': "distinct (map oa_id (order_attempts d'))" using ka by (simp add: attempts.keyed_def)
  note u = keyed_same_row [OF ka' fo]
  have same: "update_rows (\<lambda>r. oa_id r = a) (\<lambda>r. r\<lparr>oa_accounted_filled_qty := show_dec X q, oa_receipt := Some receipt\<rparr>)
      (order_attempts d') = order_attempts d'"
    by (rule update_rows_same) (drule u, simp_all add: q(1) [symmetric] r(3) [symmetric])
  define d1 where "d1 = put_intents (update_rows (\<lambda>r. ci_id r = i)
      (\<lambda>r. r\<lparr>ci_status := Completed, ci_reserved_qty := ''0''\<rparr>) (copy_intents d')) d'"
  have c: "finalize_receipt_with_conn X later i a receipt d' = (Inr (), d1)"
    by (simp add: finalize_receipt_with_conn_def act_simps ci oa s q(1) p m sql_update_def same d1_def)
  have fo1: "find_row (\<lambda>r. oa_id r = a) (order_attempts d1) = Some oa" using fo by (simp add: d1_def)
  have k1: "attempts.keyed d1" using ka by (simp add: d1_def attempts.keyed_def)
  have same2: "update_rows (\<lambda>r. oa_id r = a) (\<lambda>r. r\<lparr>oa_status := Finalized\<rparr>) (order_attempts d1) = order_attempts d1"
    unfolding d1_def put_frame by (rule update_rows_same) (drule u, simp_all add: r(2) [symmetric])
  have cas: "update_attempts (\<lambda>r. oa_id r = a \<and> oa_intent_id r = i \<and> finalizable (oa_status r))
      (\<lambda>r. r\<lparr>oa_status := Finalized\<rparr>) d1 = ((Inr 1, d1) :: (execute_error + nat) \<times> db)"
    unfolding attempts.cas_update [OF k1 fo1] same2 using r by (simp add: finalizable_def)
  have "finalize_receipt X later i a receipt d' = (Inr (), d1)"
    unfolding finalize_receipt_def finalize_receipt_transaction_def transaction_ok and_then_ok assert_that_ok
    by (intro exI conjI, rule c, rule cas) (simp_all add: ret_def)
  then show ?thesis by (intro exI [of _ d1]) (simp add: d1_def put_intents_def)
qed

theorem finalize_replay_witness:
  "\<exists>d' d''. finalize_receipt ext0 0 1 1 \<lparr>requested_qty = 5, accepted_qty = 5, filled_qty = 2, remaining_qty = 3\<rparr>
       (db1\<lparr>order_attempts := [attempt0\<lparr>oa_status := Submitting\<rparr>]\<rparr>) = (Inr (), d') \<and>
     finalize_receipt ext0 9 1 1 \<lparr>requested_qty = 5, accepted_qty = 5, filled_qty = 2, remaining_qty = 3\<rparr> d' = (Inr (), d'') \<and>
     position_lots d'' = position_lots d' \<and> map ci_status (copy_intents d') = [PartiallyFilled] \<and>
     map ci_status (copy_intents d'') = [Completed]"
proof -
  let ?d = "db1\<lparr>order_attempts := [attempt0\<lparr>oa_status := Submitting\<rparr>]\<rparr>"
  let ?r = "\<lparr>requested_qty = 5, accepted_qty = 5, filled_qty = 2, remaining_qty = 3\<rparr> :: order_receipt"
  have t: "order_attempts ?d = [attempt0\<lparr>oa_status := Submitting\<rparr>]" "copy_intents ?d = [intent0]" "position_lots ?d = []"
    by (simp_all add: db1_def db0_def)
  have r: "oa_id attempt0 = 1" "oa_intent_id attempt0 = 1" "oa_accounted_filled_qty attempt0 = ''0''" "ci_id intent0 = 1"
    "ci_side intent0 = ''BUY''" "copy_intents db1 = [intent0]" by (simp_all add: attempt0_def intent0_def db1_def)
  have k: "intents.keyed ?d" "attempts.keyed ?d" by (simp_all add: intents.keyed_def attempts.keyed_def t)
  have i: "intent_by_id 1 ?d = Some intent0" "attempt_by_id 1 ?d = Some (attempt0\<lparr>oa_status := Submitting\<rparr>)"
    "lot_row acc ldr tok ?d = None" for acc ldr tok
    by (simp_all only: intent_by_id_def attempt_by_id_def lot_row_def t) (simp_all add: r)
  have "\<exists>d'. finalize_receipt ext0 0 1 1 ?r ?d = (Inr (), d') \<and> map ci_status (copy_intents d') = [PartiallyFilled]
      \<and> map ci_id (copy_intents d') = [1]"
    by (simp add: finalize_receipt_def finalize_receipt_transaction_def finalize_receipt_with_conn_def
        apply_lot_delta_def transaction_def act_simps i r side_from_str_def sql_update_def put_defs finalizable_def
        Let_def upsert_lot_def t)
  then obtain d' where f: "finalize_receipt ext0 0 1 1 ?r ?d = (Inr (), d')"
    and s: "map ci_status (copy_intents d') = [PartiallyFilled]" "map ci_id (copy_intents d') = [1]" by (elim exE conjE) (rule that)
  from s obtain ci where "copy_intents d' = [ci]" "ci_id ci = 1" by auto
  obtain d'' where g: "finalize_receipt ext0 9 1 1 ?r d' = (Inr (), d'')" "position_lots d'' = position_lots d'"
    and c: "copy_intents d'' = update_rows (\<lambda>r. ci_id r = 1) (\<lambda>r. r\<lparr>ci_status := Completed, ci_reserved_qty := ''0''\<rparr>)
      (copy_intents d')"
    using finalize_replay [OF ext0_dec_codec k f, of 9] by (elim exE conjE) (rule that)
  have "map ci_status (copy_intents d'') = [Completed]"
    unfolding c \<open>copy_intents d' = [ci]\<close> using \<open>ci_id ci = 1\<close> by simp
  with f g s(1) show ?thesis by (intro exI conjI)
qed

text \<open>
  C35. Closing an intent before submission.  Cancelling an overdue intent succeeds only for an intent of
  the named account that is in progress, whose deadline can be read and has passed, and none of whose
  attempts left \<open>prepared\<close> or carries a submission marker; then the intent is cancelled with its
  reservation released and its prepared attempts are rejected.  In every other case nothing is written.
  In no case does it touch a lot, a budget reservation or an attempt that may have been submitted.
\<close>

theorem cancel_only_unsubmitted:
  assumes "cancel_overdue_pre_submit_intent X now acc i d = (r, d')"
  shows "(case r of
      Inl e \<Rightarrow> d' = d
    | Inr u \<Rightarrow> (\<exists>ci raw t. ci \<in> set (copy_intents d) \<and> ci_id ci = i \<and> ci_account_id ci = acc \<and> ci_status ci = InProgress \<and>
         ci_decision_deadline_at ci = Some raw \<and> parse_time X raw = Some t \<and> t < now) \<and>
       (\<forall>oa \<in> set (order_attempts d). oa_intent_id oa = i \<longrightarrow> oa_status oa = Prepared \<and> oa_submission_started_at oa = None) \<and>
       (\<forall>ci \<in> set (copy_intents d'). ci_id ci = i \<longrightarrow> ci_status ci = Cancelled \<and> ci_reserved_qty ci = ''0'') \<and>
       (\<forall>oa \<in> set (order_attempts d'). oa_intent_id oa = i \<longrightarrow> oa_status oa = ARejected)) \<and>
    position_lots d' = position_lots d \<and> budget_reservations d' = budget_reservations d \<and>
    (\<forall>oa \<in> set (order_attempts d). oa_status oa \<noteq> Prepared \<or> oa_submission_started_at oa \<noteq> None \<longrightarrow>
       oa \<in> set (order_attempts d'))"
proof -
  have e: "cancel_expired_intent i d = ((Inr (), put_intents (update_rows (\<lambda>r. ci_id r = i)
        (\<lambda>r. r\<lparr>ci_status := Cancelled, ci_rejection_reason := Some ''decision deadline expired'',
               ci_reserved_qty := ''0''\<rparr>) (copy_intents d))
      (put_attempts (update_rows
        (\<lambda>r. oa_intent_id r = i \<and> oa_status r = Prepared \<and> oa_submission_started_at r = None)
        (\<lambda>r. r\<lparr>oa_status := ARejected,
               oa_failure_detail := Some ''decision deadline expired before submission''\<rparr>) (order_attempts d)) d))
      :: (execute_error + unit) \<times> db)" (is "_ = (_, ?c)")
    by (simp add: cancel_expired_intent_def transaction_def and_then_def sql_update_def ret_def)
  define c where "c = ?c"
  note e = e [folded c_def]
  have fr: "position_lots c = position_lots d" "budget_reservations c = budget_reservations d"
    "\<forall>oa \<in> set (order_attempts d). oa_status oa \<noteq> Prepared \<or> oa_submission_started_at oa \<noteq> None \<longrightarrow>
       oa \<in> set (order_attempts c)" by (auto simp: c_def set_update_rows)
  let ?od = "\<lambda>ci. case ci_decision_deadline_at ci of None \<Rightarrow> False
           | Some raw \<Rightarrow> (case parse_time X raw of None \<Rightarrow> False | Some t \<Rightarrow> now > t)"
  have eq: "cancel_overdue_pre_submit_intent X now acc i d =
      (case find_row (\<lambda>r. ci_id r = i \<and> ci_account_id r = acc) (copy_intents d) of
         None \<Rightarrow> (Inl (ExecDatabase ''intent does not belong to this account''), d)
       | Some ci \<Rightarrow>
           if ci_status ci \<noteq> InProgress then (Inl (ExecDatabase ''intent is not an in-progress pre-submit intent''), d)
           else if \<not> ?od ci then (Inl (ExecDatabase ''intent deadline is absent, malformed, or not yet expired''), d)
           else if unsafe_attempt i d
           then (Inl (ExecDatabase ''intent has an attempt that may have crossed the submission boundary''), d)
           else (Inr (), c))"
    by (simp add: cancel_overdue_pre_submit_intent_def and_then_def reads_def or_raise_def assert_that_def Let_def e
        split: option.split)
  show ?thesis
  proof (cases r)
    case (Inl x)
    have "d' = d"
      using assms unfolding Inl eq by (auto split: option.splits if_splits)
    then show ?thesis by (simp add: Inl)
  next
    case (Inr u)
    from assms obtain ci where ci: "find_row (\<lambda>r. ci_id r = i \<and> ci_account_id r = acc) (copy_intents d) = Some ci"
      and st: "ci_status ci = InProgress"
      and od: "case ci_decision_deadline_at ci of None \<Rightarrow> False
           | Some raw \<Rightarrow> (case parse_time X raw of None \<Rightarrow> False | Some t \<Rightarrow> now > t)"
      and us: "\<not> unsafe_attempt i d" and d': "d' = c"
      unfolding Inr eq by (auto split: option.splits if_splits)
    have us': "\<forall>oa \<in> set (order_attempts d). oa_intent_id oa = i \<longrightarrow>
        oa_status oa = Prepared \<and> oa_submission_started_at oa = None"
      using us unfolding unsafe_attempt_def list_ex_iff by (simp only: bex_simps de_Morgan_conj de_Morgan_disj) simp
    have 1: "\<forall>ci \<in> set (copy_intents d'). ci_id ci = i \<longrightarrow> ci_status ci = Cancelled \<and> ci_reserved_qty ci = ''0''"
      unfolding d' c_def by (simp add: ball_update_rows)
    have 2: "\<forall>oa \<in> set (order_attempts d'). oa_intent_id oa = i \<longrightarrow> oa_status oa = ARejected"
      unfolding d' c_def using us' by (simp add: ball_update_rows) blast
    have 3: "\<exists>ci raw t. ci \<in> set (copy_intents d) \<and> ci_id ci = i \<and> ci_account_id ci = acc \<and> ci_status ci = InProgress \<and>
         ci_decision_deadline_at ci = Some raw \<and> parse_time X raw = Some t \<and> t < now"
      using find_row_Some [OF ci] st od by (auto split: option.splits)
    show ?thesis unfolding Inr sum.case using 1 2 3 us' fr unfolding d' by (intro conjI) assumption+
  qed
qed

theorem cancel_only_unsubmitted_witness:
  "\<exists>d'. cancel_overdue_pre_submit_intent ext0 40000 1 1 db1 = (Inr (), d') \<and>
     (\<forall>oa \<in> set (order_attempts d'). oa_intent_id oa = 1 \<longrightarrow> oa_status oa = ARejected)"
proof -
  have "\<exists>d'. cancel_overdue_pre_submit_intent ext0 40000 1 1 db1 = (Inr (), d')"
    by (simp add: cancel_overdue_pre_submit_intent_def act_simps sample_defs unsafe_attempt_def
        cancel_expired_intent_def transaction_def sql_update_def)
  then obtain d' where f: "cancel_overdue_pre_submit_intent ext0 40000 1 1 db1 = (Inr (), d')" by blast
  with cancel_only_unsubmitted [OF f] show ?thesis by (intro exI [of _ d']) simp
qed

end
