(* ===== verification/Budget.thy ===== *)
theory Budget
  imports Ledger
begin

text \<open>
  The persistent-mode safety state, \<open>src/src/copytrading/persistent.rs\<close> up to the operator
  recoveries: the runtime configuration and its database row, the account fuse, the startup check,
  and the rolling-budget reservation that is written in the same transaction that moves an attempt to
  \<open>submitting\<close>.  \<open>clock\<close> is \<open>Utc::now()\<close>; \<open>now\<close> is the instant the caller passes.
\<close>

section \<open>Errors and configuration\<close>

datatype persistent_error =
    PersDatabase string
  | Config string
  | MissingConfig
  | ConfigMismatch
  | AlreadyConfigured
  | FuseOpen
  | FuseNotOpen
  | UnresolvedRecovery
  | MalformedBudgetState
  | PersInvalidAttemptTransition
  | DecisionExpired
  | BudgetExceeded decimal decimal decimal
  | OrderNotionalExceeded decimal decimal
  | LeaderBudgetExhausted int decimal decimal decimal
  | AccountBudgetExhausted decimal decimal decimal

definition exit_fuse_open :: int where "exit_fuse_open = 21"
definition exit_config :: int where "exit_config = 22"
definition exit_unresolved_recovery :: int where "exit_unresolved_recovery = 23"
definition exit_budget_state :: int where "exit_budget_state = 24"

definition exit_code :: "persistent_error \<Rightarrow> int" where
  "exit_code e = (case e of
       FuseOpen \<Rightarrow> exit_fuse_open
     | Config _ \<Rightarrow> exit_config | MissingConfig \<Rightarrow> exit_config | ConfigMismatch \<Rightarrow> exit_config
     | AlreadyConfigured \<Rightarrow> exit_config
     | UnresolvedRecovery \<Rightarrow> exit_unresolved_recovery
     | MalformedBudgetState \<Rightarrow> exit_budget_state | BudgetExceeded _ _ _ \<Rightarrow> exit_budget_state
     | OrderNotionalExceeded _ _ \<Rightarrow> exit_budget_state | LeaderBudgetExhausted _ _ _ _ \<Rightarrow> exit_budget_state
     | AccountBudgetExhausted _ _ _ \<Rightarrow> exit_budget_state
     | PersDatabase _ \<Rightarrow> exit_fuse_open | FuseNotOpen \<Rightarrow> exit_fuse_open
     | PersInvalidAttemptTransition \<Rightarrow> exit_fuse_open | DecisionExpired \<Rightarrow> exit_fuse_open)"

definition persistent_error_text :: "ext \<Rightarrow> persistent_error \<Rightarrow> string" where
  "persistent_error_text X e =
     (let amounts = (\<lambda>used requested cap. ''used='' @ show_dec X used @ '' requested='' @ show_dec X requested
            @ '' cap='' @ show_dec X cap)
      in case e of
       PersDatabase err \<Rightarrow> ''persistent database error: '' @ err
     | Config err \<Rightarrow> ''persistent config error: '' @ err
     | MissingConfig \<Rightarrow> ''persistent config is missing''
     | ConfigMismatch \<Rightarrow> ''persistent runtime config does not match the database''
     | AlreadyConfigured \<Rightarrow> ''persistent config already exists''
     | FuseOpen \<Rightarrow> ''persistent execution fuse is open''
     | FuseNotOpen \<Rightarrow> ''persistent execution fuse is not open''
     | UnresolvedRecovery \<Rightarrow>
         ''persistent startup found unresolved reconciliation or uncertain submission state''
     | MalformedBudgetState \<Rightarrow> ''persistent budget state is malformed''
     | PersInvalidAttemptTransition \<Rightarrow> ''persistent attempt transition is invalid''
     | DecisionExpired \<Rightarrow> ''persistent decision deadline expired before submit''
     | BudgetExceeded used requested cap \<Rightarrow>
         ''account cumulative-turnover circuit breaker exceeded: '' @ amounts used requested cap
     | OrderNotionalExceeded requested cap \<Rightarrow>
         ''account per-order notional exceeded: requested='' @ show_dec X requested @ '' cap='' @ show_dec X cap
     | LeaderBudgetExhausted leader_id used requested cap \<Rightarrow>
         ''leader '' @ show_i64 leader_id @ '' rolling budget exhausted: '' @ amounts used requested cap
     | AccountBudgetExhausted used requested cap \<Rightarrow>
         ''account rolling budget exhausted: '' @ amounts used requested cap)"

definition min_budget_window_seconds :: nat where "min_budget_window_seconds = 60"
definition max_budget_window_seconds :: nat where "max_budget_window_seconds = 86400"
definition max_persistent_order_notional_usdc :: decimal where "max_persistent_order_notional_usdc = 10"

text \<open>\<open>BTreeSet<i64>\<close> is the sorted list of its elements; durations are whole seconds.\<close>

record runtime_config =
  cf_account_id :: int
  cf_enabled :: bool
  cf_allowed_leader_ids :: "int list"
  cf_max_order_notional :: decimal
  cf_rolling_budget :: decimal
  cf_budget_window :: nat
  cf_tick :: nat
  cf_backfill_every :: nat

definition insert_sorted :: "int \<Rightarrow> int list \<Rightarrow> int list" where
  "insert_sorted i ids = (if i \<in> set ids then ids else insort i ids)"

fun collect_leader_ids :: "string list \<Rightarrow> int list \<Rightarrow> persistent_error + int list" where
  "collect_leader_ids [] ids = Inr ids"
| "collect_leader_ids (part # parts) ids =
     (let trimmed = trim part in
      if trimmed = [] then collect_leader_ids parts ids
      else case parse_i64 trimmed of
        None \<Rightarrow> Inl (Config (''invalid leader id: '' @ trimmed))
      | Some i \<Rightarrow> if i \<le> 0 then Inl (Config ''leader ids must be positive'')
                   else collect_leader_ids parts (insert_sorted i ids))"

definition parse_allowed_leaders :: "string \<Rightarrow> persistent_error + int list" where
  "parse_allowed_leaders raw = (case collect_leader_ids (split_on CHR '','' raw) [] of
       Inl e \<Rightarrow> Inl e
     | Inr ids \<Rightarrow> if ids = [] then Inl (Config ''at least one allowed leader is required'') else Inr ids)"

definition parse_decimal :: "ext \<Rightarrow> string \<Rightarrow> string \<Rightarrow> persistent_error + decimal" where
  "parse_decimal X raw name = (case parse_dec X raw of
       None \<Rightarrow> Inl (Config (''invalid '' @ name)) | Some q \<Rightarrow> Inr q)"

definition non_empty :: "string \<Rightarrow> string \<Rightarrow> persistent_error + string" where
  "non_empty v field = (let trimmed = trim v in
     if trimmed = [] then Inl (Config (field @ '' must not be empty'')) else Inr trimmed)"

definition from_values ::
  "ext \<Rightarrow> int \<Rightarrow> bool \<Rightarrow> string \<Rightarrow> string \<Rightarrow> string \<Rightarrow> nat \<Rightarrow> nat \<Rightarrow> nat \<Rightarrow> persistent_error + runtime_config" where
  "from_values X account_id enabled allowed_leaders notional_text budget_text
       budget_window_seconds tick_seconds backfill_every_seconds =
     (if account_id \<le> 0 then Inl (Config ''persistent account id must be positive'') else
      case parse_allowed_leaders allowed_leaders of Inl e \<Rightarrow> Inl e | Inr allowed \<Rightarrow>
      case parse_decimal X notional_text ''POLYCOPY_PERSISTENT_MAX_ORDER_NOTIONAL'' of
        Inl e \<Rightarrow> Inl e | Inr max_notional \<Rightarrow>
      if \<not> (max_notional > 0 \<and> max_notional \<le> max_persistent_order_notional_usdc)
      then Inl (Config ''persistent max order notional must be > 0 and <= 10 USDC'') else
      case parse_decimal X budget_text ''POLYCOPY_PERSISTENT_ROLLING_BUDGET_USDC'' of
        Inl e \<Rightarrow> Inl e | Inr rolling \<Rightarrow>
      if rolling \<le> 0
      then Inl (Config ''account cumulative-turnover circuit breaker must be greater than 0 USDC'') else
      if \<not> (min_budget_window_seconds \<le> budget_window_seconds \<and> budget_window_seconds \<le> max_budget_window_seconds)
      then Inl (Config ''persistent budget window must be between 60 and 86400 seconds'') else
      if tick_seconds = 0 \<or> backfill_every_seconds = 0
      then Inl (Config ''persistent tick and backfill intervals must be positive'') else
      Inr \<lparr>cf_account_id = account_id, cf_enabled = enabled, cf_allowed_leader_ids = allowed,
           cf_max_order_notional = max_notional, cf_rolling_budget = rolling,
           cf_budget_window = budget_window_seconds, cf_tick = tick_seconds,
           cf_backfill_every = backfill_every_seconds\<rparr>)"

text \<open>\<open>from_env\<close>: \<open>env\<close> is the process environment; \<open>u64::from_str\<close> takes an optional plus sign.\<close>

definition parse_u64 :: "string \<Rightarrow> nat option" where
  "parse_u64 s = (case parse_digits (case s of c # cs \<Rightarrow> if c = CHR ''+'' then cs else s | [] \<Rightarrow> []) of
       None \<Rightarrow> None | Some n \<Rightarrow> if n < 2 ^ 64 then Some n else None)"

definition required_env :: "(string \<rightharpoonup> string) \<Rightarrow> string \<Rightarrow> persistent_error + string" where
  "required_env env name = (case env name of
       None \<Rightarrow> Inl (Config (''missing '' @ name))
     | Some v \<Rightarrow> if trim v = [] then Inl (Config (''missing '' @ name)) else Inr v)"

definition parse_i64_env :: "(string \<rightharpoonup> string) \<Rightarrow> string \<Rightarrow> persistent_error + int" where
  "parse_i64_env env name = (case required_env env name of
       Inl e \<Rightarrow> Inl e
     | Inr v \<Rightarrow> (case parse_i64 v of None \<Rightarrow> Inl (Config (''invalid '' @ name)) | Some i \<Rightarrow> Inr i))"

definition parse_u64_env :: "(string \<rightharpoonup> string) \<Rightarrow> string \<Rightarrow> persistent_error + nat" where
  "parse_u64_env env name = (case required_env env name of
       Inl e \<Rightarrow> Inl e
     | Inr v \<Rightarrow> (case parse_u64 v of
           None \<Rightarrow> Inl (Config (''invalid '' @ name))
         | Some n \<Rightarrow> if n = 0 then Inl (Config (name @ '' must be positive'')) else Inr n))"

definition from_env :: "ext \<Rightarrow> (string \<rightharpoonup> string) \<Rightarrow> persistent_error + runtime_config" where
  "from_env X env =
     (if env ''POLYCOPY_ENGINE_EXECUTE'' \<noteq> Some ''yes''
      then Inl (Config ''POLYCOPY_ENGINE_EXECUTE must be set to the exact value yes'') else
      if env ''POLYCOPY_PERSISTENT_EXECUTE'' \<noteq> Some ''yes''
      then Inl (Config ''POLYCOPY_PERSISTENT_EXECUTE must be set to the exact value yes'') else
      case parse_i64_env env ''POLYCOPY_PERSISTENT_ACCOUNT_ID'' of Inl e \<Rightarrow> Inl e | Inr account_id \<Rightarrow>
      case required_env env ''POLYCOPY_PERSISTENT_ALLOWED_LEADER_IDS'' of Inl e \<Rightarrow> Inl e | Inr leaders \<Rightarrow>
      case required_env env ''POLYCOPY_PERSISTENT_MAX_ORDER_NOTIONAL'' of Inl e \<Rightarrow> Inl e | Inr notional \<Rightarrow>
      case required_env env ''POLYCOPY_PERSISTENT_ROLLING_BUDGET_USDC'' of Inl e \<Rightarrow> Inl e | Inr budget \<Rightarrow>
      case parse_u64_env env ''POLYCOPY_PERSISTENT_BUDGET_WINDOW_SECONDS'' of Inl e \<Rightarrow> Inl e | Inr window \<Rightarrow>
      case parse_u64_env env ''POLYCOPY_PERSISTENT_TICK_SECONDS'' of Inl e \<Rightarrow> Inl e | Inr tick \<Rightarrow>
      case parse_u64_env env ''POLYCOPY_PERSISTENT_BACKFILL_EVERY_SECONDS'' of Inl e \<Rightarrow> Inl e | Inr every \<Rightarrow>
      from_values X account_id True leaders notional budget window tick every)"

definition allowed_leaders_text :: "runtime_config \<Rightarrow> string" where
  "allowed_leaders_text config = join '','' (map show_i64 (cf_allowed_leader_ids config))"

section \<open>The configuration row\<close>

definition validate_account_and_leaders :: "runtime_config \<Rightarrow> (persistent_error, unit) db_act" where
  "validate_account_and_leaders config =
     and_then (reads (\<lambda>d. length (filter (\<lambda>r. acc_id r = cf_account_id config) (accounts d)))) (\<lambda>account_count.
     and_then (assert_that (account_count = 1) (Config ''persistent account does not exist'')) (\<lambda>_.
     and_then (reads (\<lambda>d. set (map lc_id (filter lc_enabled (leader_config d))))) (\<lambda>enabled.
     assert_that (enabled = set (cf_allowed_leader_ids config)) ConfigMismatch)))"

definition config_row :: "ext \<Rightarrow> runtime_config \<Rightarrow> exec_config_row" where
  "config_row X config =
     \<lparr>ec_account_id = cf_account_id config, ec_enabled = cf_enabled config,
      ec_allowed_leader_ids = allowed_leaders_text config,
      ec_max_order_notional_usdc = show_dec X (cf_max_order_notional config),
      ec_rolling_budget_usdc = show_dec X (cf_rolling_budget config),
      ec_budget_window_seconds = as_i64 (cf_budget_window config),
      ec_tick_seconds = as_i64 (cf_tick config),
      ec_backfill_every_seconds = as_i64 (cf_backfill_every config)\<rparr>"

definition init_config :: "ext \<Rightarrow> runtime_config \<Rightarrow> (persistent_error, unit) db_act" where
  "init_config X config = transaction
     (and_then (reads execution_config) (\<lambda>existing.
      and_then (assert_that (existing = None) AlreadyConfigured) (\<lambda>_.
      and_then (validate_account_and_leaders config) (\<lambda>_.
      modifies (\<lambda>d. d\<lparr>execution_config := Some (config_row X config)\<rparr>)))))"

definition open_case_of :: "int \<Rightarrow> reconciliation_case_row \<Rightarrow> bool" where
  "open_case_of account_id r \<longleftrightarrow> rc_account_id r = account_id \<and> rc_resolved_at r = None"

definition attempt_of_account :: "int \<Rightarrow> db \<Rightarrow> order_attempt_row \<Rightarrow> bool" where
  "attempt_of_account account_id d oa \<longleftrightarrow>
     (case intent_by_id (oa_intent_id oa) d of None \<Rightarrow> False | Some ci \<Rightarrow> ci_account_id ci = account_id)"

definition assert_startup_clear :: "int \<Rightarrow> (persistent_error, unit) db_act" where
  "assert_startup_clear account_id =
     and_then (reads (\<lambda>d. length (filter (open_case_of account_id) (reconciliation_cases d)))) (\<lambda>open_cases.
     and_then (reads (\<lambda>d. length (filter (\<lambda>oa. attempt_of_account account_id d oa \<and>
        (oa_status oa = Submitting \<or> oa_status oa = Uncertain)) (order_attempts d)))) (\<lambda>nonterminal.
     if open_cases \<noteq> 0 \<or> nonterminal \<noteq> 0 then raise UnresolvedRecovery else ret ()))"

text \<open>The loop of \<open>rolling_reserved_total\<close>: every amount must parse and be positive.\<close>

fun sum_amounts :: "ext \<Rightarrow> string list \<Rightarrow> decimal \<Rightarrow> persistent_error + decimal" where
  "sum_amounts X [] acc = Inr acc"
| "sum_amounts X (raw # rows) acc = (case parse_dec X raw of
       None \<Rightarrow> Inl MalformedBudgetState
     | Some amount \<Rightarrow> if amount \<le> 0 then Inl MalformedBudgetState else sum_amounts X rows (acc + amount))"

definition reserved_since :: "(reservation_row \<Rightarrow> bool) \<Rightarrow> timestamp \<Rightarrow> db \<Rightarrow> reservation_row list" where
  "reserved_since P cutoff d =
     filter (\<lambda>r. P r \<and> br_state r = Reserved \<and> br_reserved_at r \<ge> cutoff) (budget_reservations d)"

definition cutoff_at :: "timestamp \<Rightarrow> int \<Rightarrow> timestamp" where
  "cutoff_at now seconds = now - 1000 * seconds"

definition rolling_reserved_total ::
  "ext \<Rightarrow> int \<Rightarrow> nat \<Rightarrow> timestamp \<Rightarrow> (persistent_error, decimal) db_act" where
  "rolling_reserved_total X account_id window now =
     and_then (reads (reserved_since (\<lambda>r. br_account_id r = account_id) (cutoff_at now (as_i64 window)))) (\<lambda>rows.
     lift_result (sum_amounts X (map br_amount_usdc rows) 0))"

definition reconfigure_config :: "ext \<Rightarrow> timestamp \<Rightarrow> runtime_config \<Rightarrow> (persistent_error, unit) db_act" where
  "reconfigure_config X clock config =
     and_then (assert_startup_clear (cf_account_id config)) (\<lambda>_.
     and_then (validate_account_and_leaders config) (\<lambda>_.
     and_then (rolling_reserved_total X (cf_account_id config) (cf_budget_window config) clock) (\<lambda>reserved.
     if reserved > cf_rolling_budget config
     then raise (BudgetExceeded reserved 0 (cf_rolling_budget config)) else
     and_then (reads execution_config) (\<lambda>existing.
     and_then (assert_that (existing \<noteq> None) MissingConfig) (\<lambda>_.
     modifies (\<lambda>d. d\<lparr>execution_config := Some (config_row X config)\<rparr>))))))"

definition verify_config :: "ext \<Rightarrow> runtime_config \<Rightarrow> (persistent_error, unit) db_act" where
  "verify_config X expected =
     and_then (reads execution_config) (\<lambda>row.
     and_then (or_raise MissingConfig row) (\<lambda>row.
     and_then (lift_result (from_values X (ec_account_id row) (ec_enabled row) (ec_allowed_leader_ids row)
        (ec_max_order_notional_usdc row) (ec_rolling_budget_usdc row) (as_u64 (ec_budget_window_seconds row))
        (as_u64 (ec_tick_seconds row)) (as_u64 (ec_backfill_every_seconds row)))) (\<lambda>actual.
     and_then (assert_that (actual = expected) ConfigMismatch) (\<lambda>_.
     and_then (assert_that (cf_enabled actual) (Config ''persistent database config is disabled'')) (\<lambda>_.
     validate_account_and_leaders expected)))))"

section \<open>The fuse\<close>

text \<open>\<open>persistent_execution_fuse.account_id\<close> references \<open>accounts\<close>; pausing again overwrites the row.\<close>

definition pause_fuse :: "timestamp \<Rightarrow> int \<Rightarrow> string \<Rightarrow> string \<Rightarrow> (persistent_error, unit) db_act" where
  "pause_fuse clock account_id reason actor_source =
     and_then (lift_result (non_empty reason ''reason'')) (\<lambda>reason.
     and_then (lift_result (non_empty actor_source ''actor_source'')) (\<lambda>actor.
     and_then (reads (\<lambda>d. list_ex (\<lambda>r. acc_id r = account_id) (accounts d))) (\<lambda>known.
     and_then (assert_that known (PersDatabase ''FOREIGN KEY constraint failed'')) (\<lambda>_.
     modifies (\<lambda>d. d\<lparr>execution_fuse :=
       (let row = \<lparr>fu_account_id = account_id, fu_paused_at = clock, fu_reason = reason, fu_actor_source = actor\<rparr>
        in if list_ex (\<lambda>r. fu_account_id r = account_id) (execution_fuse d)
           then update_rows (\<lambda>r. fu_account_id r = account_id) (\<lambda>_. row) (execution_fuse d)
           else execution_fuse d @ [row])\<rparr>)))))"

definition fuse_status :: "int \<Rightarrow> (persistent_error, fuse_row option) db_act" where
  "fuse_status account_id = reads (\<lambda>d. find_row (\<lambda>r. fu_account_id r = account_id) (execution_fuse d))"

definition ensure_fuse_clear :: "int \<Rightarrow> (persistent_error, unit) db_act" where
  "ensure_fuse_clear account_id =
     and_then (fuse_status account_id) (\<lambda>st. if st \<noteq> None then raise FuseOpen else ret ())"

definition resume_fuse :: "int \<Rightarrow> string \<Rightarrow> (persistent_error, unit) db_act" where
  "resume_fuse account_id reason =
     and_then (lift_result (non_empty reason ''reason'')) (\<lambda>_.
     and_then (assert_startup_clear account_id) (\<lambda>_.
     and_then (reads (\<lambda>d. length (filter (\<lambda>r. fu_account_id r = account_id) (execution_fuse d)))) (\<lambda>deleted.
     and_then (modifies (\<lambda>d. d\<lparr>execution_fuse := filter (\<lambda>r. fu_account_id r \<noteq> account_id) (execution_fuse d)\<rparr>)) (\<lambda>_.
     if deleted = 0 then raise FuseNotOpen else ret ()))))"

section \<open>Reserving the budget and marking the attempt\<close>

text \<open>\<open>BEGIN IMMEDIATE\<close> that commits on success and on the errors \<open>P\<close> selects, and rolls back otherwise.\<close>

definition transaction_keeping :: "('e \<Rightarrow> bool) \<Rightarrow> ('s, 'e, 'a) act \<Rightarrow> ('s, 'e, 'a) act" where
  "transaction_keeping P m = (\<lambda>s. case m s of
       (Inl e, s') \<Rightarrow> (Inl e, if P e then s' else s) | (Inr x, s') \<Rightarrow> (Inr x, s'))"

definition check_deadline :: "ext \<Rightarrow> timestamp \<Rightarrow> copy_intent_row \<Rightarrow> (persistent_error, unit) db_act" where
  "check_deadline X now ci = (case ci_decision_deadline_at ci of
       None \<Rightarrow> raise DecisionExpired
     | Some raw \<Rightarrow>
         and_then (or_raise DecisionExpired (parse_time X raw)) (\<lambda>deadline.
         if now > deadline then
           and_then (update_intents (\<lambda>r. ci_id r = ci_id ci)
              (\<lambda>r. r\<lparr>ci_status := Cancelled, ci_rejection_reason := Some ''decision deadline expired''\<rparr>))
           (\<lambda>_. raise DecisionExpired)
         else ret ()))"

definition check_leader_budget ::
  "ext \<Rightarrow> runtime_config \<Rightarrow> timestamp \<Rightarrow> int \<Rightarrow> decimal \<Rightarrow> (persistent_error, unit) db_act" where
  "check_leader_budget X config now leader_id amount =
     and_then (reads (\<lambda>d. find_row (\<lambda>r. lp_leader_id r = leader_id) (leader_policy d))) (\<lambda>policy.
     case policy of
       None \<Rightarrow> ret ()
     | Some lp \<Rightarrow> (case lp_rolling_budget_usdc lp of
         None \<Rightarrow> ret ()
       | Some budget_text \<Rightarrow>
           and_then (or_raise MalformedBudgetState (parse_dec X budget_text)) (\<lambda>leader_cap.
           if leader_cap \<le> 0 then raise MalformedBudgetState else
           let leader_window = (case lp_budget_window_seconds lp of
                 Some seconds \<Rightarrow> if seconds > 0 then seconds else as_i64 (cf_budget_window config)
               | None \<Rightarrow> as_i64 (cf_budget_window config))
           in and_then (reads (reserved_since (\<lambda>r. br_leader_id r = Some leader_id) (cutoff_at now leader_window))) (\<lambda>rows.
              and_then (lift_result (sum_amounts X (map br_amount_usdc rows) 0)) (\<lambda>leader_used.
              if leader_used + amount > leader_cap
              then raise (LeaderBudgetExhausted leader_id leader_used amount leader_cap)
              else ret ())))))"

definition check_account_budget ::
  "ext \<Rightarrow> runtime_config \<Rightarrow> timestamp \<Rightarrow> decimal \<Rightarrow> (persistent_error, unit) db_act" where
  "check_account_budget X config now amount =
     and_then (rolling_reserved_total X (cf_account_id config) (cf_budget_window config) now) (\<lambda>used.
     if used + amount > cf_rolling_budget config
     then raise (AccountBudgetExhausted used amount (cf_rolling_budget config)) else ret ())"

text \<open>\<open>persistent_budget_reservations.order_attempt_id\<close> is unique.\<close>

definition insert_new_reservation ::
  "ext \<Rightarrow> int \<Rightarrow> int \<Rightarrow> int \<Rightarrow> decimal \<Rightarrow> timestamp \<Rightarrow> (persistent_error, int) db_act" where
  "insert_new_reservation X attempt_id account_id leader_id amount now = (\<lambda>d.
     if find_row (\<lambda>r. br_order_attempt_id r = attempt_id) (budget_reservations d) \<noteq> None
     then (Inl (PersDatabase ''UNIQUE constraint failed''), d)
     else insert_reservation (\<lambda>i. \<lparr>br_id = i, br_order_attempt_id = attempt_id, br_account_id = account_id,
       br_leader_id = Some leader_id, br_amount_usdc = show_dec X amount, br_reserved_at = now,
       br_state = Reserved, br_release_reason = None, br_released_at = None\<rparr>) d)"

definition mark_submitting_row :: "ext \<Rightarrow> timestamp \<Rightarrow> order_attempt_row \<Rightarrow> order_attempt_row" where
  "mark_submitting_row X now r = r\<lparr>oa_status := Submitting, oa_submission_started_at := Some (show_time X now)\<rparr>"

definition reserve_body ::
  "ext \<Rightarrow> runtime_config \<Rightarrow> int \<Rightarrow> int \<Rightarrow> timestamp \<Rightarrow> (persistent_error, unit) db_act" where
  "reserve_body X config intent_id attempt_id now =
     and_then (reads (intent_by_id intent_id)) (\<lambda>row.
     and_then (or_raise (PersDatabase ''no rows returned'') row) (\<lambda>ci.
     and_then (assert_that (ci_account_id ci = cf_account_id config) ConfigMismatch) (\<lambda>_.
     and_then (reads (\<lambda>d. list_ex (\<lambda>r. fu_account_id r = cf_account_id config) (execution_fuse d))) (\<lambda>fuse_open.
     and_then (assert_that (\<not> fuse_open) FuseOpen) (\<lambda>_.
     and_then (check_deadline X now ci) (\<lambda>_.
     and_then (assert_that (ci_status ci = InProgress) PersInvalidAttemptTransition) (\<lambda>_.
     and_then (or_raise MalformedBudgetState (ci_planned_notional_usdc ci)) (\<lambda>raw.
     and_then (or_raise MalformedBudgetState (parse_dec X raw)) (\<lambda>amount.
     and_then (assert_that (\<not> (amount \<le> 0 \<or> ci_side ci \<noteq> ''SELL'' \<and> amount > cf_max_order_notional config))
                 (BudgetExceeded 0 amount (cf_max_order_notional config))) (\<lambda>_.
     and_then (check_leader_budget X config now (ci_leader_id ci) amount) (\<lambda>_.
     and_then (check_account_budget X config now amount) (\<lambda>_.
     and_then (update_attempts (\<lambda>r. oa_id r = attempt_id \<and> oa_intent_id r = intent_id \<and> oa_status r = Prepared)
        (mark_submitting_row X now)) (\<lambda>updated.
     and_then (assert_that (updated = 1) PersInvalidAttemptTransition) (\<lambda>_.
     and_then (insert_new_reservation X attempt_id (cf_account_id config) (ci_leader_id ci) amount now) (\<lambda>_.
     ret ())))))))))))))))"

definition reserve_budget_and_mark_submitting ::
  "ext \<Rightarrow> runtime_config \<Rightarrow> int \<Rightarrow> int \<Rightarrow> timestamp \<Rightarrow> (persistent_error, unit) db_act" where
  "reserve_budget_and_mark_submitting X config intent_id attempt_id now =
     transaction_keeping (\<lambda>e. e = DecisionExpired) (reserve_body X config intent_id attempt_id now)"

text \<open>\<open>PersistentSubmitMarker::mark_submitting\<close>\<close>

definition persistent_mark_submitting ::
  "ext \<Rightarrow> runtime_config \<Rightarrow> int \<Rightarrow> int \<Rightarrow> timestamp \<Rightarrow> (persistent_error, unit) db_act" where
  "persistent_mark_submitting X config intent_id attempt_id now =
     map_error (\<lambda>e. case e of
         BudgetExceeded used requested cap \<Rightarrow>
           if requested > cf_max_order_notional config
           then OrderNotionalExceeded requested (cf_max_order_notional config) else e
       | _ \<Rightarrow> e)
     (reserve_budget_and_mark_submitting X config intent_id attempt_id now)"

section \<open>Releasing a reservation\<close>

definition release_pre_boundary_failure_with_conn ::
  "timestamp \<Rightarrow> int \<Rightarrow> string \<Rightarrow> (persistent_error, unit) db_act" where
  "release_pre_boundary_failure_with_conn clock attempt_id reason =
     and_then (lift_result (non_empty reason ''reason'')) (\<lambda>reason.
     and_then (update_reservations (\<lambda>r. br_order_attempt_id r = attempt_id \<and> br_state r = Reserved)
        (\<lambda>r. r\<lparr>br_state := ReleasedPreBoundary, br_release_reason := Some reason, br_released_at := Some clock\<rparr>))
     (\<lambda>_. ret ()))"

definition release_pre_boundary_failure :: "timestamp \<Rightarrow> int \<Rightarrow> string \<Rightarrow> (persistent_error, unit) db_act" where
  "release_pre_boundary_failure clock attempt_id reason =
     release_pre_boundary_failure_with_conn clock attempt_id reason"

text \<open>SQL's \<open>trim\<close> removes spaces only.\<close>

definition sql_trim :: "string \<Rightarrow> string" where
  "sql_trim s = rev (dropWhile (\<lambda>c. c = CHR '' '') (rev (dropWhile (\<lambda>c. c = CHR '' '') s)))"

definition definitively_rejected :: "int \<Rightarrow> db \<Rightarrow> order_attempt_row \<Rightarrow> bool" where
  "definitively_rejected account_id d oa \<longleftrightarrow>
     attempt_of_account account_id d oa \<and> oa_status oa = ARejected \<and> oa_submission_started_at oa \<noteq> None \<and>
     (case oa_failure_detail oa of None \<Rightarrow> False | Some detail \<Rightarrow> sql_trim detail \<noteq> [])"

definition release_definitive_rejection :: "timestamp \<Rightarrow> int \<Rightarrow> int \<Rightarrow> (persistent_error, unit) db_act" where
  "release_definitive_rejection clock account_id attempt_id =
     and_then (reads (\<lambda>d. list_ex (\<lambda>oa. oa_id oa = attempt_id \<and> definitively_rejected account_id d oa)
        (order_attempts d))) (\<lambda>definitive.
     and_then (assert_that definitive UnresolvedRecovery) (\<lambda>_.
     release_pre_boundary_failure clock attempt_id ''operator verified definitive venue rejection''))"

section \<open>Sums of reservations\<close>

lemma sum_amounts_Inr:
  "sum_amounts X raws acc = Inr t \<Longrightarrow>
     t = acc + sum_list (map (dec_val X) raws) \<and> (\<forall>raw \<in> set raws. 0 < dec_val X raw)"
proof (induction raws arbitrary: acc)
  case (Cons raw raws)
  from Cons.prems obtain q where q: "parse_dec X raw = Some q" "0 < q" "sum_amounts X raws (acc + q) = Inr t"
    by (auto split: option.splits if_splits)
  with Cons.IH [OF q(3)] show ?case by (simp add: dec_val_def algebra_simps)
qed simp

text \<open>The reserved amount of the rows \<open>P\<close> selects inside a closed interval of time.\<close>

definition window_total :: "ext \<Rightarrow> (reservation_row \<Rightarrow> bool) \<Rightarrow> timestamp \<Rightarrow> timestamp \<Rightarrow> db \<Rightarrow> decimal" where
  "window_total X P lo hi d = sum_list (map (\<lambda>r. dec_val X (br_amount_usdc r))
     (filter (\<lambda>r. P r \<and> br_state r = Reserved \<and> lo \<le> br_reserved_at r \<and> br_reserved_at r \<le> hi) (budget_reservations d)))"

lemma sum_filter_mono:
  assumes "\<And>r. r \<in> set rs \<Longrightarrow> P r \<Longrightarrow> Q r" "\<And>r. r \<in> set rs \<Longrightarrow> Q r \<Longrightarrow> 0 \<le> (f r :: decimal)"
  shows "sum_list (map f (filter P rs)) \<le> sum_list (map f (filter Q rs))"
  using assms
proof (induction rs)
  case (Cons a rs)
  have "sum_list (map f (filter P rs)) \<le> sum_list (map f (filter Q rs))" using Cons by simp
  then show ?case using Cons.prems [of a] by auto
qed simp

lemma rolling_ro:
  "ro.stays (rolling_reserved_total X acc w now)" "ro.stays (check_leader_budget X config now ldr amount)"
  "ro.stays (check_account_budget X config now amount)" "ro.stays (assert_startup_clear acc)"
  "ro.stays (validate_account_and_leaders config)"
  unfolding rolling_reserved_total_def check_leader_budget_def check_account_budget_def assert_startup_clear_def
    validate_account_and_leaders_def
  by (intro ro.stays_intros)+

lemma check_account_budget_ok:
  assumes "check_account_budget X config now amount d = (Inr u, d')"
  shows "sum_list (map (\<lambda>r. dec_val X (br_amount_usdc r)) (reserved_since (\<lambda>r. br_account_id r = cf_account_id config)
      (cutoff_at now (as_i64 (cf_budget_window config))) d)) + amount \<le> cf_rolling_budget config"
  using assms
  by (auto simp: check_account_budget_def rolling_reserved_total_def act_ok comp_def dest!: sum_amounts_Inr
      split: if_splits)

text \<open>The window of a leader's own budget, when it has one.\<close>

definition leader_limit :: "ext \<Rightarrow> runtime_config \<Rightarrow> int \<Rightarrow> db \<Rightarrow> (decimal \<times> int) option" where
  "leader_limit X config ldr d = (case find_row (\<lambda>r. lp_leader_id r = ldr) (leader_policy d) of
       None \<Rightarrow> None
     | Some lp \<Rightarrow> (case lp_rolling_budget_usdc lp of
         None \<Rightarrow> None
       | Some raw \<Rightarrow> Some (dec_val X raw, case lp_budget_window_seconds lp of
             Some seconds \<Rightarrow> if seconds > 0 then seconds else as_i64 (cf_budget_window config)
           | None \<Rightarrow> as_i64 (cf_budget_window config))))"

lemma check_leader_budget_ok:
  assumes "check_leader_budget X config now ldr amount d = (Inr u, d')" "leader_limit X config ldr d = Some (cap, w)"
  shows "sum_list (map (\<lambda>r. dec_val X (br_amount_usdc r)) (reserved_since (\<lambda>r. br_leader_id r = Some ldr)
      (cutoff_at now w) d)) + amount \<le> cap"
proof -
  from assms(2) obtain lp raw where lp: "find_row (\<lambda>r. lp_leader_id r = ldr) (leader_policy d) = Some lp"
    "lp_rolling_budget_usdc lp = Some raw" "cap = dec_val X raw"
    "w = (case lp_budget_window_seconds lp of
             Some seconds \<Rightarrow> if seconds > 0 then seconds else as_i64 (cf_budget_window config)
           | None \<Rightarrow> as_i64 (cf_budget_window config))"
    by (auto simp: leader_limit_def split: option.splits)
  from assms(1) obtain cap' used where c: "parse_dec X raw = Some cap'"
    and u: "sum_amounts X (map br_amount_usdc (reserved_since (\<lambda>r. br_leader_id r = Some ldr) (cutoff_at now w) d)) 0 = Inr used"
    and le: "\<not> used + amount > cap'"
    unfolding check_leader_budget_def Let_def lp(4)
    by (auto simp: act_ok lp(1,2) split: if_splits)
  have "cap = cap'" using c lp(3) by (simp add: dec_val_def)
  with le sum_amounts_Inr [OF u] show ?thesis by (simp add: comp_def)
qed

section \<open>What a successful reservation establishes\<close>

lemma keeping_Inr: "transaction_keeping P m s = (Inr x, s') \<longleftrightarrow> m s = (Inr x, s')"
  by (auto simp: transaction_keeping_def split: prod.splits sum.splits)

lemma keeping_Inl:
  "transaction_keeping P m s = (Inl e, s') \<Longrightarrow> (\<exists>s1. m s = (Inl e, s1) \<and> s' = (if P e then s1 else s))"
  by (auto simp: transaction_keeping_def split: prod.splits sum.splits)

lemma check_deadline_ok:
  "check_deadline X now ci d = (Inr u, d') \<longleftrightarrow>
     d' = d \<and> (\<exists>raw t. ci_decision_deadline_at ci = Some raw \<and> parse_time X raw = Some t \<and> now \<le> t)"
  by (auto simp: check_deadline_def act_ok not_less split: option.splits if_splits)

definition new_reservation :: "ext \<Rightarrow> int \<Rightarrow> int \<Rightarrow> int \<Rightarrow> decimal \<Rightarrow> timestamp \<Rightarrow> int \<Rightarrow> reservation_row" where
  "new_reservation X attempt_id account_id leader_id amount now i =
     \<lparr>br_id = i, br_order_attempt_id = attempt_id, br_account_id = account_id,
      br_leader_id = Some leader_id, br_amount_usdc = show_dec X amount, br_reserved_at = now,
      br_state = Reserved, br_release_reason = None, br_released_at = None\<rparr>"

lemma reserve_ok:
  assumes "reserve_budget_and_mark_submitting X config i a now d = (Inr u, d')"
  obtains ci raw amount dl t oa where
    "intent_by_id i d = Some ci" "ci_account_id ci = cf_account_id config" "ci_status ci = InProgress"
    "\<not> list_ex (\<lambda>r. fu_account_id r = cf_account_id config) (execution_fuse d)"
    "ci_decision_deadline_at ci = Some dl" "parse_time X dl = Some t" "now \<le> t"
    "ci_planned_notional_usdc ci = Some raw" "parse_dec X raw = Some amount" "0 < amount"
    "ci_side ci \<noteq> ''SELL'' \<Longrightarrow> amount \<le> cf_max_order_notional config"
    "check_leader_budget X config now (ci_leader_id ci) amount d = (Inr (), d)"
    "check_account_budget X config now amount d = (Inr (), d)"
    "oa \<in> set (order_attempts d)" "oa_id oa = a" "oa_intent_id oa = i" "oa_status oa = Prepared"
    "find_row (\<lambda>r. br_order_attempt_id r = a) (budget_reservations d) = None"
    "d' = put_reservations (budget_reservations d @
        [new_reservation X a (cf_account_id config) (ci_leader_id ci) amount now (next_id br_id (budget_reservations d))])
       (put_attempts (update_rows (\<lambda>r. oa_id r = a \<and> oa_intent_id r = i \<and> oa_status r = Prepared)
          (mark_submitting_row X now) (order_attempts d)) d)"
proof -
  let ?P = "\<lambda>r. oa_id r = a \<and> oa_intent_id r = i \<and> oa_status r = Prepared"
  from assms obtain ci raw amount d1 d2 d3 n where
    ci: "intent_by_id i d = Some ci" and acc: "ci_account_id ci = cf_account_id config"
    and fuse: "\<not> list_ex (\<lambda>r. fu_account_id r = cf_account_id config) (execution_fuse d)"
    and dl: "check_deadline X now ci d = (Inr (), d1)" and st: "ci_status ci = InProgress"
    and raw: "ci_planned_notional_usdc ci = Some raw" "parse_dec X raw = Some amount"
    and am: "\<not> (amount \<le> 0 \<or> ci_side ci \<noteq> ''SELL'' \<and> amount > cf_max_order_notional config)"
    and lb: "check_leader_budget X config now (ci_leader_id ci) amount d1 = (Inr (), d2)"
    and ab: "check_account_budget X config now amount d2 = (Inr (), d3)"
    and up: "length (filter ?P (order_attempts d3)) = 1"
    and ins: "insert_new_reservation X a (cf_account_id config) (ci_leader_id ci) amount now
        (put_attempts (update_rows ?P (mark_submitting_row X now) (order_attempts d3)) d3) = (Inr n, d')"
    unfolding reserve_budget_and_mark_submitting_def keeping_Inr reserve_body_def and_then_ok reads_ok or_raise_ok
      assert_that_ok attempts.update_ok ret_ok
    by (elim exE conjE) (rule that; simp)
  have d1: "d1 = d" and dl': "\<exists>raw t. ci_decision_deadline_at ci = Some raw \<and> parse_time X raw = Some t \<and> now \<le> t"
    using dl by (simp_all add: check_deadline_ok)
  have d2: "d2 = d" using ro_state [OF rolling_ro(2) lb] d1 by simp
  have d3: "d3 = d" using ro_state [OF rolling_ro(3) ab] d2 by simp
  obtain oa where oa: "oa \<in> set (order_attempts d)" "?P oa" by (rule filter_key_1 [OF up [unfolded d3]])
  let ?d1 = "put_attempts (update_rows ?P (mark_submitting_row X now) (order_attempts d)) d"
  have un: "find_row (\<lambda>r. br_order_attempt_id r = a) (budget_reservations d) = None"
    and d': "d' = put_reservations (budget_reservations d @
        [new_reservation X a (cf_account_id config) (ci_leader_id ci) amount now (next_id br_id (budget_reservations d))]) ?d1"
    using ins unfolding d3
    by (auto simp: insert_new_reservation_def sql_insert_def new_reservation_def Let_def split: if_splits)
  from dl' obtain dlr t where dl'': "ci_decision_deadline_at ci = Some dlr" "parse_time X dlr = Some t" "now \<le> t" by blast
  show thesis
    by (rule that [OF ci acc st fuse dl'' raw _ _ lb [unfolded d1 d2] ab [unfolded d2 d3] oa(1) _ _ _ un d'])
      (use am oa(2) in auto)
qed

section \<open>The rolling budget at every instant\<close>

text \<open>The windows of the account and of a leader, as lengths in milliseconds.\<close>

abbreviation account_rows :: "runtime_config \<Rightarrow> reservation_row \<Rightarrow> bool" where
  "account_rows config \<equiv> \<lambda>r. br_account_id r = cf_account_id config"

definition window_ms :: "runtime_config \<Rightarrow> int" where
  "window_ms config = 1000 * as_i64 (cf_budget_window config)"

text \<open>
  \<open>budget_respected\<close>: reserved amounts of the account are positive and not in the future, and no window
  of the configured length holds more than the rolling budget.
\<close>

definition budget_respected :: "ext \<Rightarrow> runtime_config \<Rightarrow> timestamp \<Rightarrow> db \<Rightarrow> bool" where
  "budget_respected X config now d \<longleftrightarrow>
     (\<forall>r \<in> set (budget_reservations d). br_account_id r = cf_account_id config \<and> br_state r = Reserved \<longrightarrow>
        br_reserved_at r \<le> now \<and> 0 < dec_val X (br_amount_usdc r)) \<and>
     (\<forall>t. window_total X (account_rows config) (t - window_ms config) t d \<le> cf_rolling_budget config)"

lemma window_total_insert:
  "window_total X P lo hi (put_reservations (budget_reservations d @ [r]) d1) = window_total X P lo hi d +
     (if P r \<and> br_state r = Reserved \<and> lo \<le> br_reserved_at r \<and> br_reserved_at r \<le> hi
      then dec_val X (br_amount_usdc r) else 0)"
  by (simp add: window_total_def)

lemma budget_respected_reserve:
  assumes X: "dec_codec X" and b: "budget_respected X config t0 d" and t0: "t0 \<le> now"
    and r: "reserve_budget_and_mark_submitting X config i a now d = (Inr u, d')"
  shows "budget_respected X config now d'"
proof -
  obtain ci :: copy_intent_row and amount where am: "0 < amount"
    and ab: "check_account_budget X config now amount d = (Inr (), d)"
    and d': "d' = put_reservations (budget_reservations d @
        [new_reservation X a (cf_account_id config) (ci_leader_id ci) amount now (next_id br_id (budget_reservations d))])
       (put_attempts (update_rows (\<lambda>r. oa_id r = a \<and> oa_intent_id r = i \<and> oa_status r = Prepared)
          (mark_submitting_row X now) (order_attempts d)) d)"
    by (rule reserve_ok [OF r]) (rule that; assumption)
  let ?new = "new_reservation X a (cf_account_id config) (ci_leader_id ci) amount now (next_id br_id (budget_reservations d))"
  have new: "br_account_id ?new = cf_account_id config" "br_state ?new = Reserved" "br_reserved_at ?new = now"
    "dec_val X (br_amount_usdc ?new) = amount"
    using X by (simp_all add: new_reservation_def dec_codec_def dec_val_def)
  have old: "\<forall>r \<in> set (budget_reservations d). br_account_id r = cf_account_id config \<and> br_state r = Reserved \<longrightarrow>
        br_reserved_at r \<le> t0 \<and> 0 < dec_val X (br_amount_usdc r)"
    and win: "\<And>t. window_total X (account_rows config) (t - window_ms config) t d \<le> cf_rolling_budget config"
    using b by (auto simp: budget_respected_def)
  have "window_total X (account_rows config) (t - window_ms config) t d' \<le> cf_rolling_budget config" for t
  proof (cases "now \<le> t")
    case False
    then have "window_total X (account_rows config) (t - window_ms config) t d' =
        window_total X (account_rows config) (t - window_ms config) t d"
      unfolding d' window_total_insert by (simp add: new)
    with win show ?thesis by simp
  next
    case True
    let ?rows = "budget_reservations d"
    have "window_total X (account_rows config) (t - window_ms config) t d \<le>
        sum_list (map (\<lambda>r. dec_val X (br_amount_usdc r)) (reserved_since (account_rows config)
          (cutoff_at now (as_i64 (cf_budget_window config))) d))"
      unfolding window_total_def reserved_since_def
      by (rule sum_filter_mono) (use True old in \<open>auto simp: cutoff_at_def window_ms_def less_imp_le\<close>)
    with check_account_budget_ok [OF ab]
    have "window_total X (account_rows config) (t - window_ms config) t d + amount \<le> cf_rolling_budget config" by linarith
    moreover have "window_total X (account_rows config) (t - window_ms config) t d' \<le>
        window_total X (account_rows config) (t - window_ms config) t d + amount"
      unfolding d' window_total_insert using am by (simp add: new)
    ultimately show ?thesis by linarith
  qed
  moreover have "\<forall>r \<in> set (budget_reservations d'). br_account_id r = cf_account_id config \<and> br_state r = Reserved \<longrightarrow>
        br_reserved_at r \<le> now \<and> 0 < dec_val X (br_amount_usdc r)"
    unfolding d' using old t0 am by (auto simp: new)
  ultimately show ?thesis by (simp add: budget_respected_def)
qed

text \<open>Releasing reservations only lowers the totals.\<close>

lemma budget_respected_release:
  assumes b: "budget_respected X config now d"
    and f: "\<And>r. br_state (f r) \<noteq> Reserved"
    and d': "budget_reservations d' = update_rows P f (budget_reservations d)"
  shows "budget_respected X config now d'"
proof -
  have sub: "filter (\<lambda>r. Q r \<and> br_state r = Reserved) (update_rows P f rs) =
      filter (\<lambda>r. (Q r \<and> br_state r = Reserved) \<and> \<not> P r) rs" for Q rs
    by (induction rs) (auto simp: f)
  have w: "window_total X (account_rows config) lo hi d' \<le> window_total X (account_rows config) lo hi d" for lo hi
  proof -
    let ?Q = "\<lambda>r. br_account_id r = cf_account_id config \<and> lo \<le> br_reserved_at r \<and> br_reserved_at r \<le> hi"
    have e: "window_total X (account_rows config) lo hi x = sum_list (map (\<lambda>r. dec_val X (br_amount_usdc r))
        (filter (\<lambda>r. ?Q r \<and> br_state r = Reserved) (budget_reservations x)))" for x
      unfolding window_total_def by (metis (no_types, lifting))
    show ?thesis unfolding e d' sub
      by (rule sum_filter_mono) (use b in \<open>auto simp: budget_respected_def less_imp_le\<close>)
  qed
  have "window_total X (account_rows config) (t - window_ms config) t d' \<le> cf_rolling_budget config" for t
    using order_trans [OF w] b by (auto simp: budget_respected_def)
  moreover have "\<forall>r \<in> set (budget_reservations d'). br_account_id r = cf_account_id config \<and> br_state r = Reserved \<longrightarrow>
        br_reserved_at r \<le> now \<and> 0 < dec_val X (br_amount_usdc r)"
    unfolding d' ball_update_rows using b f by (auto simp: budget_respected_def)
  ultimately show ?thesis by (simp add: budget_respected_def)
qed

section \<open>What a failed reservation leaves behind\<close>

text \<open>Only the expiry of the decision is committed, and it touches nothing but intents.\<close>

definition intents_only :: "db \<Rightarrow> db \<Rightarrow> bool" where
  "intents_only d d' \<longleftrightarrow> (\<exists>rs. d' = put_intents rs d)"

interpretation expiry: frame_rel intents_only
  by unfold_locales (auto simp: intents_only_def intro: intents.put_rows [symmetric])

definition expiry_ok :: "(persistent_error, 'a) db_act \<Rightarrow> bool" where
  "expiry_ok m \<longleftrightarrow> (\<forall>s s'. m s = (Inl DecisionExpired, s') \<longrightarrow> intents_only s s')"

lemma expiry_ok_stays: "expiry.stays m \<Longrightarrow> expiry_ok m"
  by (auto simp: expiry_ok_def dest: expiry.staysD)

lemma expiry_ok_raises: "raises (\<lambda>e. e \<noteq> DecisionExpired) m \<Longrightarrow> expiry_ok m"
  by (auto simp: expiry_ok_def dest: raisesD)

lemma expiry_ok_and_then: "expiry.stays m \<Longrightarrow> (\<And>x. expiry_ok (f x)) \<Longrightarrow> expiry_ok (and_then m f)"
  unfolding expiry_ok_def and_then_error by (metis expiry.R_trans expiry.staysD)

lemma sum_amounts_error: "sum_amounts X raws acc = Inl e \<Longrightarrow> e = MalformedBudgetState"
  by (induction raws arbitrary: acc) (auto split: option.splits if_splits)

lemma reserve_tail_raises:
  "raises (\<lambda>e. e \<noteq> DecisionExpired) (check_leader_budget X config now ldr amount)"
  "raises (\<lambda>e. e \<noteq> DecisionExpired) (check_account_budget X config now amount)"
  "raises (\<lambda>e. e \<noteq> DecisionExpired) (insert_new_reservation X a acc ldr amount now)"
proof -
  show "raises (\<lambda>e. e \<noteq> DecisionExpired) (check_leader_budget X config now ldr amount)"
    unfolding check_leader_budget_def by (intro raises_intros) (auto dest: sum_amounts_error)
  show "raises (\<lambda>e. e \<noteq> DecisionExpired) (check_account_budget X config now amount)"
    unfolding check_account_budget_def rolling_reserved_total_def
    by (intro raises_intros) (auto dest: sum_amounts_error)
  show "raises (\<lambda>e. e \<noteq> DecisionExpired) (insert_new_reservation X a acc ldr amount now)"
    by (simp add: raises_def insert_new_reservation_def sql_insert_def Let_def)
qed

lemma check_deadline_stays: "expiry.stays (check_deadline X now ci)"
  unfolding check_deadline_def
  by (intro expiry.stays_intros expiry.stays_update) (auto simp: intents_only_def)

lemma expiry_ok_update:
  "(\<And>n. raises (\<lambda>e. e \<noteq> DecisionExpired) (g n)) \<Longrightarrow> expiry_ok (and_then (update_attempts P f) g)"
  by (intro expiry_ok_raises raises_intros)

lemma ro_expiry: "ro.stays m \<Longrightarrow> expiry.stays m"
  by (auto simp: ro.stays_def expiry.stays_def expiry.R_refl)

lemma reserve_body_expiry: "expiry_ok (reserve_body X config i a now)"
  unfolding reserve_body_def
  by (rule expiry_ok_update expiry_ok_and_then expiry.stays_basic check_deadline_stays rolling_ro [THEN ro_expiry])+
    (intro raises_intros reserve_tail_raises; simp)

lemma reserve_error:
  assumes "reserve_budget_and_mark_submitting X config i a now d = (Inl e, d')"
  shows "(e \<noteq> DecisionExpired \<longrightarrow> d' = d) \<and> intents_only d d'"
proof -
  obtain d1 where d1: "reserve_body X config i a now d = (Inl e, d1)" "d' = (if e = DecisionExpired then d1 else d)"
    using keeping_Inl [OF assms [unfolded reserve_budget_and_mark_submitting_def]] by auto
  with reserve_body_expiry [of X config i a now] show ?thesis
    by (auto simp: expiry_ok_def expiry.R_refl)
qed

section \<open>The configuration round trip\<close>

lemma digit_not_space: "CHR ''0'' \<le> x \<Longrightarrow> x \<le> CHR ''9'' \<Longrightarrow> \<not> is_space x \<and> x \<noteq> CHR '',''"
  by (auto simp: is_space_def less_eq_char_def Let_def)

lemma trim_nospace: "\<forall>x \<in> set s. \<not> is_space x \<Longrightarrow> trim s = s"
proof -
  assume a: "\<forall>x \<in> set s. \<not> is_space x"
  have d: "\<forall>x \<in> set t. \<not> is_space x \<Longrightarrow> dropWhile is_space t = t" for t by (cases t) auto
  show ?thesis using a by (simp add: trim_def d)
qed

lemma insert_sorted_last: "sorted ids \<Longrightarrow> \<forall>x \<in> set ids. x < i \<Longrightarrow> insert_sorted i ids = ids @ [i]"
  by (auto simp: insert_sorted_def sorted_insort_is_snoc less_imp_le)

definition leader_ids_ok :: "int list \<Rightarrow> bool" where
  "leader_ids_ok ids \<longleftrightarrow> sorted ids \<and> distinct ids \<and> (\<forall>i \<in> set ids. 0 < i \<and> i < 2 ^ 63)"

lemma collect_show:
  assumes "leader_ids_ok (acc @ ids)"
  shows "collect_leader_ids (map show_i64 ids) acc = Inr (acc @ ids)"
  using assms
proof (induction ids arbitrary: acc)
  case (Cons i ids)
  have i: "0 < i" "i < 2 ^ 63" using Cons.prems by (auto simp: leader_ids_ok_def)
  have "\<forall>x \<in> set (show_nat (nat i)). \<not> is_space x" using show_nat_chars digit_not_space by blast
  then have t: "trim (show_i64 i) = show_i64 i" "show_i64 i \<noteq> []"
    using i show_nat_Cons [of "nat i"] by (auto simp: show_i64_def trim_nospace)
  have "insert_sorted i acc = acc @ [i]"
    by (rule insert_sorted_last) (use Cons.prems in \<open>auto simp: leader_ids_ok_def sorted_append order_le_less\<close>)
  moreover have "collect_leader_ids (map show_i64 ids) (acc @ [i]) = Inr (acc @ i # ids)"
    using Cons.IH [of "acc @ [i]"] Cons.prems by simp
  ultimately show ?case using t i by (simp add: parse_show_i64)
qed simp

lemma parse_i64_range: "parse_i64 s = Some i \<Longrightarrow> i < 2 ^ 63"
  by (auto simp: parse_i64_def Let_def split: option.splits if_splits prod.splits)

lemma collect_ok: "collect_leader_ids parts acc = Inr ids \<Longrightarrow> leader_ids_ok acc \<Longrightarrow> leader_ids_ok ids"
proof (induction parts arbitrary: acc)
  case (Cons p parts)
  show ?case
  proof (cases "trim p = []")
    case True
    with Cons show ?thesis by (simp add: Let_def)
  next
    case False
    with Cons.prems(1) obtain i where i: "parse_i64 (trim p) = Some i" "0 < i"
      "collect_leader_ids parts (insert_sorted i acc) = Inr ids"
      by (auto simp: Let_def split: option.splits if_splits)
    have "leader_ids_ok (insert_sorted i acc)"
      using Cons.prems(2) i(2) parse_i64_range [OF i(1)]
      by (auto simp: leader_ids_ok_def insert_sorted_def sorted_insort distinct_insort set_insort_key)
    with Cons.IH i(3) show ?thesis by blast
  qed
qed simp

lemma parse_allowed_text:
  assumes "leader_ids_ok (cf_allowed_leader_ids config)" "cf_allowed_leader_ids config \<noteq> []"
  shows "parse_allowed_leaders (allowed_leaders_text config) = Inr (cf_allowed_leader_ids config)"
proof -
  let ?ids = "cf_allowed_leader_ids config"
  have "\<forall>p \<in> set (map show_i64 ?ids). CHR '','' \<notin> set p"
  proof -
    have "CHR '','' \<notin> set (show_nat (nat i))" for i using show_nat_chars digit_not_space by blast
    moreover have "\<forall>i \<in> set ?ids. 0 < i" using assms(1) by (simp add: leader_ids_ok_def)
    ultimately show ?thesis by (auto simp: show_i64_def)
  qed
  with assms(2) have "split_on CHR '','' (allowed_leaders_text config) = map show_i64 ?ids"
    unfolding allowed_leaders_text_def by (intro split_join) auto
  then show ?thesis using assms collect_show [of "[]" ?ids] by (simp add: parse_allowed_leaders_def)
qed

text \<open>What \<open>from_values\<close> accepts.\<close>

definition valid_config :: "runtime_config \<Rightarrow> bool" where
  "valid_config config \<longleftrightarrow> 0 < cf_account_id config \<and>
     cf_allowed_leader_ids config \<noteq> [] \<and> leader_ids_ok (cf_allowed_leader_ids config) \<and>
     0 < cf_max_order_notional config \<and> cf_max_order_notional config \<le> 10 \<and> 0 < cf_rolling_budget config \<and>
     60 \<le> cf_budget_window config \<and> cf_budget_window config \<le> 86400 \<and>
     0 < cf_tick config \<and> 0 < cf_backfill_every config"

lemma from_values_valid:
  assumes "from_values X acc en leaders notional budget window tick every = Inr config"
  shows "valid_config config" "cf_account_id config = acc" "cf_enabled config = en"
proof -
  from assms obtain ids where ids: "parse_allowed_leaders leaders = Inr ids" "cf_allowed_leader_ids config = ids"
    by (auto simp: from_values_def split: sum.splits if_splits)
  from ids(1) have "leader_ids_ok ids" "ids \<noteq> []"
    by (auto simp: parse_allowed_leaders_def leader_ids_ok_def split: sum.splits if_splits
        dest!: collect_ok [of _ "[]"])
  with ids(2) assms show "valid_config config" "cf_account_id config = acc" "cf_enabled config = en"
    by (auto simp: valid_config_def from_values_def max_persistent_order_notional_usdc_def
        min_budget_window_seconds_def max_budget_window_seconds_def split: sum.splits if_splits)
qed

lemma from_values_row:
  assumes "valid_config config" "dec_codec X" "cf_tick config < 2 ^ 64" "cf_backfill_every config < 2 ^ 64"
  defines "row \<equiv> config_row X config"
  shows "from_values X (ec_account_id row) (ec_enabled row) (ec_allowed_leader_ids row)
        (ec_max_order_notional_usdc row) (ec_rolling_budget_usdc row) (as_u64 (ec_budget_window_seconds row))
        (as_u64 (ec_tick_seconds row)) (as_u64 (ec_backfill_every_seconds row)) = Inr config"
proof -
  have "parse_allowed_leaders (allowed_leaders_text config) = Inr (cf_allowed_leader_ids config)"
    using assms(1) by (intro parse_allowed_text) (auto simp: valid_config_def)
  moreover have "parse_dec X (show_dec X q) = Some q" for q using assms(2) by (simp add: dec_codec_def)
  ultimately show ?thesis
    using assms(1,3,4)
    by (auto simp: row_def config_row_def from_values_def valid_config_def parse_decimal_def as_u64_i64
      max_persistent_order_notional_usdc_def min_budget_window_seconds_def max_budget_window_seconds_def)
qed

section \<open>Runs of one account\<close>

text \<open>
  A run of an account that starts with no reservation: time passes, attempts are reserved at the
  current instant, reservations are released, the fuse is operated, and the rest of the engine may
  write anything except the account's own reservations.
\<close>

inductive budget_run :: "ext \<Rightarrow> runtime_config \<Rightarrow> timestamp \<Rightarrow> db \<Rightarrow> bool" for X config where
  start: "0 < cf_rolling_budget config \<Longrightarrow> filter (account_rows config) (budget_reservations d) = [] \<Longrightarrow>
    budget_run X config t d"
| wait: "budget_run X config t d \<Longrightarrow> t \<le> t' \<Longrightarrow> budget_run X config t' d"
| mark: "budget_run X config t d \<Longrightarrow> persistent_mark_submitting X config i a t d = (r, d') \<Longrightarrow>
    budget_run X config t d'"
| release: "budget_run X config t d \<Longrightarrow> release_pre_boundary_failure clock a reason d = (r, d') \<Longrightarrow>
    budget_run X config t d'"
| release_rejected: "budget_run X config t d \<Longrightarrow> release_definitive_rejection clock acc a d = (r, d') \<Longrightarrow>
    budget_run X config t d'"
| fuse: "budget_run X config t d \<Longrightarrow> pause_fuse clock acc reason actor d = (r, d') \<Longrightarrow> budget_run X config t d'"
| resume: "budget_run X config t d \<Longrightarrow> resume_fuse acc reason d = (r, d') \<Longrightarrow> budget_run X config t d'"
| engine: "budget_run X config t d \<Longrightarrow>
    filter (account_rows config) (budget_reservations d') = filter (account_rows config) (budget_reservations d) \<Longrightarrow>
    budget_run X config t d'"

lemma budget_respected_cong:
  assumes "filter (account_rows config) (budget_reservations d') = filter (account_rows config) (budget_reservations d)"
  shows "budget_respected X config t d' \<longleftrightarrow> budget_respected X config t d"
proof -
  have w: "window_total X (account_rows config) lo hi x = sum_list (map (\<lambda>r. dec_val X (br_amount_usdc r))
     (filter (\<lambda>r. br_state r = Reserved \<and> lo \<le> br_reserved_at r \<and> br_reserved_at r \<le> hi)
       (filter (account_rows config) (budget_reservations x))))" for lo hi x
    by (simp add: window_total_def conj_commute conj_left_commute)
  have b: "(\<forall>r \<in> set (budget_reservations x). br_account_id r = cf_account_id config \<and> br_state r = Reserved \<longrightarrow> Q r) \<longleftrightarrow>
     (\<forall>r \<in> set (filter (account_rows config) (budget_reservations x)). br_state r = Reserved \<longrightarrow> Q r)" for Q x
    by auto
  show ?thesis unfolding budget_respected_def w b assms ..
qed

lemma same_reservations_respected:
  "budget_reservations d' = budget_reservations d \<Longrightarrow> budget_respected X config t d \<Longrightarrow> budget_respected X config t d'"
  using budget_respected_cong by metis

lemma release_respected:
  assumes "release_pre_boundary_failure clock a reason d = (r, d')" "budget_respected X config t d"
  shows "budget_respected X config t d'"
proof -
  let ?f = "\<lambda>reason r. r\<lparr>br_state := ReleasedPreBoundary, br_release_reason := Some reason, br_released_at := Some clock\<rparr>"
  from assms(1) have "d' = d \<or> (\<exists>reason. d' = put_reservations (update_rows
      (\<lambda>r. br_order_attempt_id r = a \<and> br_state r = Reserved) (?f reason) (budget_reservations d)) d)"
    by (auto simp: release_pre_boundary_failure_def release_pre_boundary_failure_with_conn_def act_simps sql_update_def
        split: sum.splits)
  then show ?thesis
  proof
    assume "\<exists>reason. d' = put_reservations (update_rows
      (\<lambda>r. br_order_attempt_id r = a \<and> br_state r = Reserved) (?f reason) (budget_reservations d)) d"
    then obtain re where "budget_reservations d' = update_rows
      (\<lambda>r. br_order_attempt_id r = a \<and> br_state r = Reserved) (?f re) (budget_reservations d)" by auto
    then show ?thesis by (rule budget_respected_release [OF assms(2), rotated]) simp
  qed (simp add: assms(2))
qed

lemma release_definitive_cases:
  "release_definitive_rejection clock acc a d = (r, d') \<Longrightarrow>
     d' = d \<or> (\<exists>reason. release_pre_boundary_failure clock a reason d = (r, d'))"
  by (auto simp: release_definitive_rejection_def act_simps split: if_splits)

lemma fuse_reservations:
  "pause_fuse clock acc reason actor d = (r, d') \<Longrightarrow> budget_reservations d' = budget_reservations d"
  "resume_fuse acc reason d = (r', d') \<Longrightarrow> budget_reservations d' = budget_reservations d"
  by (auto simp: pause_fuse_def resume_fuse_def assert_startup_clear_def act_simps split: sum.splits if_splits)

lemma mark_submitting_cases:
  assumes "persistent_mark_submitting X config i a now d = (r, d')"
  obtains u where "r = Inr u" "reserve_budget_and_mark_submitting X config i a now d = (Inr u, d')"
  | e e' where "r = Inl e'" "reserve_budget_and_mark_submitting X config i a now d = (Inl e, d')"
  using assms that by (cases "reserve_budget_and_mark_submitting X config i a now d")
    (auto simp: persistent_mark_submitting_def map_error_def split: sum.splits)

lemma mark_respected:
  assumes "dec_codec X" "persistent_mark_submitting X config i a t d = (r, d')" "budget_respected X config t d"
  shows "budget_respected X config t d'"
  using assms(2)
proof (cases rule: mark_submitting_cases)
  case (1 u)
  show ?thesis by (rule budget_respected_reserve [OF assms(1,3) order_refl 1(2)])
next
  case (2 e e')
  then have "intents_only d d'" using reserve_error by blast
  then have "budget_reservations d' = budget_reservations d" by (auto simp: intents_only_def)
  then show ?thesis using assms(3) by (rule same_reservations_respected)
qed

lemma budget_run_respected:
  assumes "dec_codec X" "budget_run X config t d"
  shows "budget_respected X config t d"
  using assms(2)
proof (induction rule: budget_run.induct)
  case (start d t)
  then have "\<forall>r \<in> set (budget_reservations d). br_account_id r \<noteq> cf_account_id config"
    by (auto simp: filter_empty_conv)
  moreover from this have "window_total X (account_rows config) lo hi d = 0" for lo hi
    by (auto simp: window_total_def filter_False)
  ultimately show ?case using start by (auto simp: budget_respected_def)
next
  case (wait t d t')
  then show ?case by (force simp: budget_respected_def)
next
  case (mark t d i a r d')
  then show ?case using mark_respected [OF assms(1)] by blast
next
  case (release t d clock a reason r d')
  then show ?case using release_respected by blast
next
  case (release_rejected t d clock acc a r d')
  then show ?case using release_definitive_cases release_respected by blast
next
  case (fuse t d clock acc reason actor r d')
  then show ?case using fuse_reservations(1) same_reservations_respected by blast
next
  case (resume t d acc reason r d')
  then show ?case using fuse_reservations(2) same_reservations_respected by blast
next
  case (engine t d d')
  then show ?case using budget_respected_cong by blast
qed

section \<open>Properties\<close>

definition config0 :: runtime_config where
  "config0 = \<lparr>cf_account_id = 1, cf_enabled = True, cf_allowed_leader_ids = [1], cf_max_order_notional = 5,
     cf_rolling_budget = 20, cf_budget_window = 3600, cf_tick = 5, cf_backfill_every = 60\<rparr>"


text \<open>
  C14. Exactly what lets an attempt cross the order boundary.  When the budget reservation succeeds, the
  intent belongs to the configured account and is in progress, the account's fuse is closed, the
  decision deadline has not passed, the planned notional is positive and (for a purchase) within the
  per-order cap, the leader's and the account's windows had room for it, the attempt was prepared and had no
  reservation; the only effects are that the attempt becomes \<open>submitting\<close> with its start instant and that
  one reservation of exactly that amount is added.
\<close>

theorem reservation_exact:
  assumes "reserve_budget_and_mark_submitting X config i a now d = (Inr u, d')"
  shows "\<exists>ci amount raw dl t oa.
    intent_by_id i d = Some ci \<and> ci_account_id ci = cf_account_id config \<and> ci_status ci = InProgress \<and>
    (\<forall>r \<in> set (execution_fuse d). fu_account_id r \<noteq> cf_account_id config) \<and>
    ci_decision_deadline_at ci = Some dl \<and> parse_time X dl = Some t \<and> now \<le> t \<and>
    ci_planned_notional_usdc ci = Some raw \<and> parse_dec X raw = Some amount \<and> 0 < amount \<and>
    (ci_side ci = ''SELL'' \<or> amount \<le> cf_max_order_notional config) \<and>
    (\<forall>cap w. leader_limit X config (ci_leader_id ci) d = Some (cap, w) \<longrightarrow>
       sum_list (map (\<lambda>r. dec_val X (br_amount_usdc r))
         (reserved_since (\<lambda>r. br_leader_id r = Some (ci_leader_id ci)) (now - 1000 * w) d)) + amount \<le> cap) \<and>
    sum_list (map (\<lambda>r. dec_val X (br_amount_usdc r))
      (reserved_since (\<lambda>r. br_account_id r = cf_account_id config) (now - 1000 * as_i64 (cf_budget_window config)) d))
      + amount \<le> cf_rolling_budget config \<and>
    oa \<in> set (order_attempts d) \<and> oa_id oa = a \<and> oa_intent_id oa = i \<and> oa_status oa = Prepared \<and>
    (\<forall>r \<in> set (budget_reservations d). br_order_attempt_id r \<noteq> a) \<and>
    d' = d\<lparr>order_attempts := update_rows (\<lambda>r. oa_id r = a \<and> oa_intent_id r = i \<and> oa_status r = Prepared)
             (\<lambda>r. r\<lparr>oa_status := Submitting, oa_submission_started_at := Some (show_time X now)\<rparr>) (order_attempts d),
           budget_reservations := budget_reservations d @
             [new_reservation X a (cf_account_id config) (ci_leader_id ci) amount now (next_id br_id (budget_reservations d))]\<rparr>"
proof -
  obtain ci raw amount dl t oa where r:
    "intent_by_id i d = Some ci" "ci_account_id ci = cf_account_id config" "ci_status ci = InProgress"
    "\<not> list_ex (\<lambda>r. fu_account_id r = cf_account_id config) (execution_fuse d)"
    "ci_decision_deadline_at ci = Some dl" "parse_time X dl = Some t" "now \<le> t"
    "ci_planned_notional_usdc ci = Some raw" "parse_dec X raw = Some amount" "0 < amount"
    "ci_side ci \<noteq> ''SELL'' \<Longrightarrow> amount \<le> cf_max_order_notional config"
    and lb: "check_leader_budget X config now (ci_leader_id ci) amount d = (Inr (), d)"
    and ab: "check_account_budget X config now amount d = (Inr (), d)"
    and oa: "oa \<in> set (order_attempts d)" "oa_id oa = a" "oa_intent_id oa = i" "oa_status oa = Prepared"
    and un: "find_row (\<lambda>r. br_order_attempt_id r = a) (budget_reservations d) = None"
    and d': "d' = put_reservations (budget_reservations d @
        [new_reservation X a (cf_account_id config) (ci_leader_id ci) amount now (next_id br_id (budget_reservations d))])
       (put_attempts (update_rows (\<lambda>r. oa_id r = a \<and> oa_intent_id r = i \<and> oa_status r = Prepared)
          (mark_submitting_row X now) (order_attempts d)) d)"
    by (rule reserve_ok [OF assms]) (rule that; assumption)
  have m: "mark_submitting_row X now = (\<lambda>r. r\<lparr>oa_status := Submitting, oa_submission_started_at := Some (show_time X now)\<rparr>)"
    by (rule ext) (simp add: mark_submitting_row_def)
  have side: "ci_side ci = ''SELL'' \<or> amount \<le> cf_max_order_notional config" using r(11) by blast
  show ?thesis
    by (rule exI [of _ ci], rule exI [of _ amount], rule exI [of _ raw], rule exI [of _ dl], rule exI [of _ t],
        rule exI [of _ oa], intro conjI)
      (use r(1-10) side oa un check_account_budget_ok [OF ab] check_leader_budget_ok [OF lb] in
        \<open>simp_all add: d' m put_defs list_ex_iff cutoff_at_def find_row_None\<close>)
qed


definition reserved_db0 :: db where
  "reserved_db0 = db1\<lparr>order_attempts := [attempt0\<lparr>oa_status := Submitting,
       oa_submission_started_at := Some (show_dec0 1000)\<rparr>],
     budget_reservations := [new_reservation ext0 1 1 1 3 1000 1]\<rparr>"

lemma reserve_sample: "reserve_budget_and_mark_submitting ext0 config0 1 1 1000 db1 = (Inr (), reserved_db0)"
  by (simp add: reserve_budget_and_mark_submitting_def transaction_keeping_def reserve_body_def act_simps
      intent_by_id_def sample_defs config0_def check_deadline_def check_leader_budget_def check_account_budget_def
      rolling_reserved_total_def reserved_since_def insert_new_reservation_def sql_update_def sql_insert_def
      put_defs Let_def mark_submitting_row_def next_id_def reserved_db0_def new_reservation_def)

theorem reservation_exact_witness:
  "\<exists>ci. intent_by_id 1 db1 = Some ci \<and> ci_status ci = InProgress \<and>
     reserve_budget_and_mark_submitting ext0 config0 1 1 1000 db1 = (Inr (), reserved_db0)"
  using reservation_exact [OF reserve_sample] reserve_sample by blast

text \<open>
  A reservation that fails commits nothing, with one exception: an expired decision deadline cancels
  the intent, and even then no table but the intents changes.  In particular no failed reservation leaves an
  attempt marked \<open>submitting\<close> or a budget amount behind, and the caller sees the same through the submit marker.
\<close>

theorem failed_reservation_commits_nothing:
  assumes "persistent_mark_submitting X config i a now d = (Inl e, d')"
  shows "(e \<noteq> DecisionExpired \<longrightarrow> d' = d) \<and>
     d' = d\<lparr>copy_intents := copy_intents d'\<rparr>"
proof -
  from assms obtain e0 where e0: "reserve_budget_and_mark_submitting X config i a now d = (Inl e0, d')"
    "e0 = DecisionExpired \<Longrightarrow> e = DecisionExpired"
    by (cases "reserve_budget_and_mark_submitting X config i a now d")
      (auto simp: persistent_mark_submitting_def map_error_def split: sum.splits persistent_error.splits)
  from reserve_error [OF e0(1)] show ?thesis
    using e0(2) by (auto simp: intents_only_def put_intents_def)
qed

theorem failed_reservation_commits_nothing_witness:
  "persistent_mark_submitting ext0 (config0\<lparr>cf_account_id := 2\<rparr>) 1 1 1000 db1 = (Inl ConfigMismatch, db1) \<and>
   db1 = db1\<lparr>copy_intents := copy_intents db1\<rparr>"
proof -
  have m: "persistent_mark_submitting ext0 (config0\<lparr>cf_account_id := 2\<rparr>) 1 1 1000 db1 = (Inl ConfigMismatch, db1)"
    by (simp add: persistent_mark_submitting_def map_error_def reserve_budget_and_mark_submitting_def
      transaction_keeping_def reserve_body_def act_simps intent_by_id_def sample_defs config0_def)
  with failed_reservation_commits_nothing [OF m] show ?thesis by simp
qed

definition startup_clear :: "int \<Rightarrow> db \<Rightarrow> bool" where
  "startup_clear acc d \<longleftrightarrow>
     (\<forall>r \<in> set (reconciliation_cases d). rc_account_id r = acc \<longrightarrow> rc_resolved_at r \<noteq> None) \<and>
     (\<forall>oa \<in> set (order_attempts d). attempt_of_account acc d oa \<longrightarrow> oa_status oa \<noteq> Submitting \<and> oa_status oa \<noteq> Uncertain)"

lemma assert_startup_clear_exact:
  "assert_startup_clear acc d = (if startup_clear acc d then Inr () else Inl UnresolvedRecovery, d)"
proof -
  have "(length (filter (open_case_of acc) (reconciliation_cases d)) = 0 \<and>
    length (filter (\<lambda>oa. attempt_of_account acc d oa \<and> (oa_status oa = Submitting \<or> oa_status oa = Uncertain))
      (order_attempts d)) = 0) \<longleftrightarrow> startup_clear acc d"
    by (auto simp: startup_clear_def filter_empty_conv open_case_of_def)
  then show ?thesis by (auto simp: assert_startup_clear_def act_simps)
qed

lemma pause_opens:
  assumes "pause_fuse clock acc reason actor d = (Inr u, d')"
  shows "\<exists>r \<in> set (execution_fuse d'). fu_account_id r = acc" "\<exists>f. d' = d\<lparr>execution_fuse := f\<rparr>"
proof -
  let ?row = "\<lambda>r a. \<lparr>fu_account_id = acc, fu_paused_at = clock, fu_reason = r, fu_actor_source = a\<rparr>"
  from assms obtain r a where d': "d' = d\<lparr>execution_fuse :=
     (if list_ex (\<lambda>r. fu_account_id r = acc) (execution_fuse d)
      then update_rows (\<lambda>r. fu_account_id r = acc) (\<lambda>_. ?row r a) (execution_fuse d)
      else execution_fuse d @ [?row r a])\<rparr>"
    by (auto simp: pause_fuse_def act_ok Let_def)
  then show "\<exists>f. d' = d\<lparr>execution_fuse := f\<rparr>" by blast
  show "\<exists>r \<in> set (execution_fuse d'). fu_account_id r = acc"
    by (auto simp: d' list_ex_iff set_update_rows bex_Un)
qed

text \<open>
  The fuse stops every submission until the account is clean.  Once an account's fuse is paused, every
  attempt to reserve for an intent of that account fails with \<open>FuseOpen\<close> and changes nothing; and a
  resume succeeds exactly when a reason is given, the fuse is open, and the account has no unresolved
  reconciliation case and no attempt still \<open>submitting\<close> or \<open>uncertain\<close>; then no fuse row is left.
\<close>

theorem fuse_blocks_submission:
  assumes p: "pause_fuse clock (cf_account_id config) reason actor d = (Inr u, d')"
    and ci: "intent_by_id i d = Some ci" "ci_account_id ci = cf_account_id config"
  shows "reserve_budget_and_mark_submitting X config i a now d' = (Inl FuseOpen, d')
    \<and> ((\<exists>d''. resume_fuse (cf_account_id config) why d' = (Inr (), d'')) \<longleftrightarrow>
         trim why \<noteq> [] \<and> startup_clear (cf_account_id config) d')
    \<and> (\<forall>d''. resume_fuse (cf_account_id config) why d' = (Inr (), d'') \<longrightarrow>
         (\<forall>r \<in> set (execution_fuse d''). fu_account_id r \<noteq> cf_account_id config))"
proof (intro conjI)
  have open': "list_ex (\<lambda>r. fu_account_id r = cf_account_id config) (execution_fuse d')"
    using pause_opens(1) [OF p] by (simp add: list_ex_iff)
  have "intent_by_id i d' = Some ci" using pause_opens(2) [OF p] ci(1) by (auto simp: intent_by_id_def)
  then show "reserve_budget_and_mark_submitting X config i a now d' = (Inl FuseOpen, d')"
    using open' ci(2)
    by (simp add: reserve_budget_and_mark_submitting_def transaction_keeping_def reserve_body_def act_simps)
  have "filter (\<lambda>r. fu_account_id r = cf_account_id config) (execution_fuse d') \<noteq> []"
    using open' by (auto simp: list_ex_iff filter_empty_conv)
  then show "(\<exists>d''. resume_fuse (cf_account_id config) why d' = (Inr (), d'')) \<longleftrightarrow>
         trim why \<noteq> [] \<and> startup_clear (cf_account_id config) d'"
    by (auto simp: resume_fuse_def act_simps non_empty_def assert_startup_clear_exact Let_def)
  show "\<forall>d''. resume_fuse (cf_account_id config) why d' = (Inr (), d'') \<longrightarrow>
         (\<forall>r \<in> set (execution_fuse d''). fu_account_id r \<noteq> cf_account_id config)"
    by (auto simp: resume_fuse_def act_ok split: if_splits)
qed

theorem fuse_blocks_submission_witness:
  "reserve_budget_and_mark_submitting ext0 config0 1 1 1000 (snd (pause_fuse 5 1 ''stop'' ''operator'' db1 ::
     (persistent_error + unit) \<times> db)) =
   (Inl FuseOpen, snd (pause_fuse 5 1 ''stop'' ''operator'' db1))"
proof -
  have a: "cf_account_id config0 = 1" by (simp add: config0_def)
  have "pause_fuse 5 (cf_account_id config0) ''stop'' ''operator'' db1 =
      (Inr (), snd (pause_fuse 5 1 ''stop'' ''operator'' db1 :: (persistent_error + unit) \<times> db))"
    unfolding a by (simp add: pause_fuse_def act_simps non_empty_def trim_def is_space_def Let_def sample_defs)
  moreover have "intent_by_id 1 db1 = Some intent0" "ci_account_id intent0 = cf_account_id config0"
    by (simp_all add: sample_defs intent_by_id_def config0_def)
  ultimately show ?thesis using fuse_blocks_submission [of 5 config0 _ _ db1 "()" _ 1 intent0] by simp
qed

lemma from_env_values:
  assumes "from_env X env = Inr config"
  obtains acc leaders notional budget window tick every where
    "from_values X acc True leaders notional budget window tick every = Inr config" "tick < 2 ^ 64" "every < 2 ^ 64"
    "env ''POLYCOPY_ENGINE_EXECUTE'' = Some ''yes''" "env ''POLYCOPY_PERSISTENT_EXECUTE'' = Some ''yes''"
proof -
  have b: "parse_u64_env env name = Inr n \<Longrightarrow> n < 2 ^ 64" for name n
    by (auto simp: parse_u64_env_def parse_u64_def split: sum.splits option.splits if_splits)
  from assms obtain acc leaders notional budget window tick every where
    f: "from_values X acc True leaders notional budget window tick every = Inr config"
    and t: "parse_u64_env env ''POLYCOPY_PERSISTENT_TICK_SECONDS'' = Inr tick"
    and e: "parse_u64_env env ''POLYCOPY_PERSISTENT_BACKFILL_EVERY_SECONDS'' = Inr every"
    and y: "env ''POLYCOPY_ENGINE_EXECUTE'' = Some ''yes''" "env ''POLYCOPY_PERSISTENT_EXECUTE'' = Some ''yes''"
    by (auto simp: from_env_def split: sum.splits if_splits)
  show thesis by (rule that [OF f b [OF t] b [OF e] y])
qed

text \<open>
  The stored configuration is the one that was reviewed.  The environment yields a configuration only when
  both execution switches are exactly \<open>yes\<close>, and then it is within its bounds (a positive account, at least one
  leader, a per-order cap of at most ten USDC, a positive budget, a window between a minute and a day,
  non-zero intervals).  Once \<open>init_config\<close> has stored it, \<open>verify_config\<close> reads back exactly that
  configuration and accepts it, rejects every other one, and a second \<open>init_config\<close> is refused.
\<close>

theorem config_round_trip:
  assumes X: "dec_codec X"
    and c: "from_env X env = Inr config"
    and i: "init_config X config d = (Inr u, d')"
  shows "env ''POLYCOPY_ENGINE_EXECUTE'' = Some ''yes'' \<and> env ''POLYCOPY_PERSISTENT_EXECUTE'' = Some ''yes''
    \<and> valid_config config
    \<and> verify_config X config d' = (Inr (), d')
    \<and> (config' \<noteq> config \<longrightarrow> verify_config X config' d' = (Inl ConfigMismatch, d'))
    \<and> init_config X config' d' = (Inl AlreadyConfigured, d')"
proof -
  obtain acc leaders notional budget window tick every where
    fv: "from_values X acc True leaders notional budget window tick every = Inr config"
    and b: "tick < 2 ^ 64" "every < 2 ^ 64"
    and y: "env ''POLYCOPY_ENGINE_EXECUTE'' = Some ''yes''" "env ''POLYCOPY_PERSISTENT_EXECUTE'' = Some ''yes''"
    by (rule from_env_values [OF c])
  have v: "valid_config config" and en: "cf_enabled config" using from_values_valid [OF fv] by simp_all
  have t: "cf_tick config = tick" "cf_backfill_every config = every"
    using fv by (auto simp: from_values_def split: sum.splits if_splits)
  from i obtain d1 where d1: "d' = d1\<lparr>execution_config := Some (config_row X config)\<rparr>"
    and val: "validate_account_and_leaders config d = (Inr (), d1)"
    unfolding init_config_def transaction_ok and_then_ok reads_ok assert_that_ok modifies_ok
    by (elim exE conjE) (rule that; simp)
  have "d1 = d" by (rule ro_state [OF rolling_ro(5) val])
  with d1 have d': "d' = d\<lparr>execution_config := Some (config_row X config)\<rparr>" by simp
  have ok: "validate_account_and_leaders config d' = (Inr (), d')"
    using val by (auto simp: d' validate_account_and_leaders_def act_simps split: if_splits)
  have f: "from_values X (ec_account_id (config_row X config)) (ec_enabled (config_row X config))
      (ec_allowed_leader_ids (config_row X config)) (ec_max_order_notional_usdc (config_row X config))
      (ec_rolling_budget_usdc (config_row X config)) (as_u64 (ec_budget_window_seconds (config_row X config)))
      (as_u64 (ec_tick_seconds (config_row X config))) (as_u64 (ec_backfill_every_seconds (config_row X config))) = Inr config"
    by (rule from_values_row [OF v X]) (use b in \<open>simp_all add: t\<close>)
  have e: "execution_config d' = Some (config_row X config)" by (simp add: d')
  have "verify_config X config d' = (Inr (), d')"
    using ok by (simp add: verify_config_def act_simps e f en)
  moreover have "config' \<noteq> config \<Longrightarrow> verify_config X config' d' = (Inl ConfigMismatch, d')"
    by (simp add: verify_config_def act_simps e f)
  moreover have "init_config X config' d' = (Inl AlreadyConfigured, d')"
    by (simp add: init_config_def transaction_def act_simps e)
  ultimately show ?thesis using v y by blast
qed

definition env0 :: "string \<rightharpoonup> string" where
  "env0 = map_of [(''POLYCOPY_ENGINE_EXECUTE'', ''yes''), (''POLYCOPY_PERSISTENT_EXECUTE'', ''yes''),
     (''POLYCOPY_PERSISTENT_ACCOUNT_ID'', ''1''), (''POLYCOPY_PERSISTENT_ALLOWED_LEADER_IDS'', ''1''),
     (''POLYCOPY_PERSISTENT_MAX_ORDER_NOTIONAL'', show_dec0 5), (''POLYCOPY_PERSISTENT_ROLLING_BUDGET_USDC'', show_dec0 20),
     (''POLYCOPY_PERSISTENT_BUDGET_WINDOW_SECONDS'', ''3600''), (''POLYCOPY_PERSISTENT_TICK_SECONDS'', ''5''),
     (''POLYCOPY_PERSISTENT_BACKFILL_EVERY_SECONDS'', ''60'')]"

lemma from_env0: "from_env ext0 env0 = Inr config0"
proof -
  have t: "trim ''1'' = ''1''" "trim ''3600'' = ''3600''" "trim ''5'' = ''5''" "trim ''60'' = ''60''"
    by (simp_all add: trim_def is_space_def)
  have s: "trim (show_dec0 5) \<noteq> []" "trim (show_dec0 20) \<noteq> []"
    by (simp_all add: show_dec0_def trim_def is_space_def dropWhile_eq_Nil_conv)
  have p: "parse_i64 ''1'' = Some 1" "parse_u64 ''3600'' = Some 3600" "parse_u64 ''5'' = Some 5" "parse_u64 ''60'' = Some 60"
    by (simp_all add: parse_i64_def parse_u64_def parse_digits_def all_digits_def less_eq_char_def)
  have f: "from_values ext0 1 True ''1'' (show_dec0 5) (show_dec0 20) 3600 5 60 = Inr config0"
    by (simp add: from_values_def parse_allowed_leaders_def t p insert_sorted_def parse_decimal_def
      max_persistent_order_notional_usdc_def min_budget_window_seconds_def max_budget_window_seconds_def config0_def)
  show ?thesis
    by (simp add: from_env_def env0_def parse_i64_env_def parse_u64_env_def required_env_def t s p f)
qed

theorem config_round_trip_witness:
  "\<exists>d'. from_env ext0 env0 = Inr config0 \<and> init_config ext0 config0 db0 = (Inr (), d') \<and>
     verify_config ext0 config0 d' = (Inr (), d')"
proof -
  have v: "validate_account_and_leaders config0 db0 = (Inr (), db0)"
    by (simp add: validate_account_and_leaders_def act_simps sample_defs config0_def del: set_filter)
  have execution_config_db0: "execution_config db0 = None" by (simp add: db0_def)
  define d' where "d' = db0\<lparr>execution_config := Some (config_row ext0 config0)\<rparr>"
  have i: "init_config ext0 config0 db0 = (Inr (), d')"
    using v by (simp add: d'_def init_config_def transaction_def act_simps execution_config_db0)
  have "verify_config ext0 config0 d' = (Inr (), d')"
    using config_round_trip [OF ext0_dec_codec from_env0 i] by simp
  with from_env0 i show ?thesis by blast
qed

end
