(* ===== verification/TradeHistory.thy ===== *)
theory TradeHistory
  imports Sample
begin

text \<open>
  Recovery from the account's trade history, \<open>src/src/venue/trade_history_recovery.rs\<close>: two matchers
  that look for the fills of one prepared envelope, the taker fills of a FAK order and the maker fills
  of a GTD order.  The reader is the record of its answers; a token id inside a trade is the text
  \<open>to_string\<close> prints for it.  The lemmas show that the loop over the (possibly repeated) pages counts
  every trade once and that contradictory pages are refused.
\<close>

section \<open>Trades\<close>

datatype trade_side = TBuy | TSell | TUnknownSide
datatype trade_role = Taker | Maker | UnknownRole
datatype trade_status = Matched | Mined | Confirmed | Retrying | Failed | UnknownStatus

record maker_fill =
  mf_order_id :: string
  mf_asset_id :: string
  mf_matched_amount :: decimal
  mf_price :: decimal
  mf_side :: trade_side

record account_trade =
  tr_trade_id :: string
  tr_taker_order_id :: string
  tr_token_id :: string
  tr_side :: trade_side
  tr_price :: decimal
  tr_size :: decimal
  tr_match_time :: timestamp
  tr_role :: trade_role
  tr_status :: trade_status
  tr_maker_orders :: "maker_fill list"

record trade_history_reader =
  trades_for_token_between :: "string \<Rightarrow> timestamp \<Rightarrow> timestamp \<Rightarrow> string + account_trade list"
  trades_between_unfiltered :: "string \<Rightarrow> timestamp \<Rightarrow> timestamp \<Rightarrow> string + account_trade list"

record trade_history_window =
  tw_after :: timestamp
  tw_before :: timestamp

datatype trade_history_lookup = Recovered string decimal decimal | NotFound

datatype trade_history_error =
    InvalidWindow
  | HistInvalidTokenId
  | HistInvalidSide
  | InvalidLimitPrice
  | UnsupportedOrderType
  | MissingOrderFingerprint
  | MissingMakerOrderId
  | InvalidSignedOrderJson
  | ConflictingDuplicateTrade string
  | HistQuery string

definition trade_history_error_text :: "trade_history_error \<Rightarrow> string" where
  "trade_history_error_text e = (case e of
       InvalidWindow \<Rightarrow> ''trade-history window ends before it starts''
     | HistInvalidTokenId \<Rightarrow> ''prepared envelope has an invalid outcome token ID''
     | HistInvalidSide \<Rightarrow> ''prepared envelope has an invalid order side''
     | InvalidLimitPrice \<Rightarrow> ''prepared envelope has an invalid limit price''
     | UnsupportedOrderType \<Rightarrow> ''trade-history recovery only supports FAK envelopes''
     | MissingOrderFingerprint \<Rightarrow> ''prepared envelope has no precomputed taker-order identifier''
     | MissingMakerOrderId \<Rightarrow> ''no persisted maker order ID was supplied to match against trade history''
     | InvalidSignedOrderJson \<Rightarrow> ''prepared envelope has no valid serialized signed-order payload''
     | ConflictingDuplicateTrade i \<Rightarrow> ''trade history returned conflicting observations for trade '' @ i
     | HistQuery source \<Rightarrow> ''strict trade-history query failed: '' @ source)"

definition trade_history_window_new :: "timestamp \<Rightarrow> timestamp \<Rightarrow> trade_history_error + trade_history_window" where
  "trade_history_window_new after before =
     (if after > before then Inl InvalidWindow else Inr \<lparr>tw_after = after, tw_before = before\<rparr>)"

definition window_contains :: "trade_history_window \<Rightarrow> timestamp \<Rightarrow> bool" where
  "window_contains w t \<longleftrightarrow> tw_after w \<le> t \<and> t \<le> tw_before w"

section \<open>The matchers\<close>

definition settled :: "trade_status \<Rightarrow> bool" where
  "settled st \<longleftrightarrow> st = Matched \<or> st = Mined \<or> st = Confirmed"

definition trade_side_of :: "string \<Rightarrow> trade_side option" where
  "trade_side_of raw = (if raw = ''BUY'' then Some TBuy else if raw = ''SELL'' then Some TSell else None)"

definition limit_price_of :: "ext \<Rightarrow> string \<Rightarrow> decimal option" where
  "limit_price_of X raw = (case parse_dec X raw of
       None \<Rightarrow> None
     | Some p \<Rightarrow> if 0 < p \<and> p < 1 then Some p else None)"

text \<open>The checks of the envelope both matchers start with, given the order type and the match key.\<close>

definition check_envelope ::
  "ext \<Rightarrow> prepared_order_envelope \<Rightarrow> string \<Rightarrow> string \<Rightarrow> trade_history_error
     \<Rightarrow> trade_history_error + (trade_side \<times> decimal)" where
  "check_envelope X env order_type match_key missing =
     (if en_order_type env \<noteq> order_type then Inl UnsupportedOrderType
      else if trim match_key = [] then Inl missing
      else if \<not> is_json_object X (en_signed_order_json env) then Inl InvalidSignedOrderJson
      else if \<not> all_digits (en_token_id env) then Inl HistInvalidTokenId
      else case trade_side_of (en_side env) of
        None \<Rightarrow> Inl HistInvalidSide
      | Some sd \<Rightarrow> (case limit_price_of X (en_price env) of
            None \<Rightarrow> Inl InvalidLimitPrice
          | Some limit_price \<Rightarrow> Inr (sd, limit_price)))"

text \<open>
  The loop: \<open>seen\<close> is the \<open>HashMap\<close> of trades by id; \<open>contrib\<close> is what a trade seen for the first time
  adds to the filled quantity and to the notional.
\<close>

fun match_trades ::
  "(account_trade \<Rightarrow> decimal \<times> decimal) \<Rightarrow> account_trade list \<Rightarrow> (string \<rightharpoonup> account_trade) \<Rightarrow> decimal \<times> decimal
     \<Rightarrow> trade_history_error + decimal \<times> decimal" where
  "match_trades contrib [] seen acc = Inr acc"
| "match_trades contrib (t # ts) seen (q, n) =
     (case seen (tr_trade_id t) of
        Some previous \<Rightarrow>
          if previous \<noteq> t then Inl (ConflictingDuplicateTrade (tr_trade_id t))
          else match_trades contrib ts (seen(tr_trade_id t \<mapsto> t)) (q, n)
      | None \<Rightarrow> (case contrib t of
          (dq, dn) \<Rightarrow> match_trades contrib ts (seen(tr_trade_id t \<mapsto> t)) (q + dq, n + dn)))"

definition lookup_of :: "string \<Rightarrow> trade_history_error + decimal \<times> decimal \<Rightarrow> trade_history_error + trade_history_lookup"
where
  "lookup_of order_id r = (case r of
       Inl e \<Rightarrow> Inl e
     | Inr (qty, notional) \<Rightarrow>
         if qty = 0 then Inr NotFound else Inr (Recovered order_id qty notional))"

definition taker_match ::
  "prepared_order_envelope \<Rightarrow> trade_history_window \<Rightarrow> trade_side \<Rightarrow> decimal \<Rightarrow> account_trade \<Rightarrow> bool" where
  "taker_match env w sd limit_price t \<longleftrightarrow>
     tr_taker_order_id t = en_expected_taker_order_id env \<and> tr_token_id t = en_token_id env \<and>
     tr_side t = sd \<and> tr_role t = Taker \<and> settled (tr_status t) \<and> window_contains w (tr_match_time t) \<and>
     (case sd of TBuy \<Rightarrow> tr_price t \<le> limit_price | TSell \<Rightarrow> tr_price t \<ge> limit_price | TUnknownSide \<Rightarrow> False) \<and>
     tr_size t > 0"

definition taker_contrib ::
  "prepared_order_envelope \<Rightarrow> trade_history_window \<Rightarrow> trade_side \<Rightarrow> decimal \<Rightarrow> account_trade \<Rightarrow> decimal \<times> decimal" where
  "taker_contrib env w sd limit_price t =
     (if taker_match env w sd limit_price t then (tr_size t, tr_size t * tr_price t) else (0, 0))"

definition recover_fak_taker_order_from_trades ::
  "ext \<Rightarrow> prepared_order_envelope \<Rightarrow> trade_history_window \<Rightarrow> account_trade list
     \<Rightarrow> trade_history_error + trade_history_lookup" where
  "recover_fak_taker_order_from_trades X env w trades =
     (case check_envelope X env ''FAK'' (en_expected_taker_order_id env) MissingOrderFingerprint of
        Inl e \<Rightarrow> Inl e
      | Inr (sd, limit_price) \<Rightarrow>
          lookup_of (en_expected_taker_order_id env)
            (match_trades (taker_contrib env w sd limit_price) trades Map.empty (0, 0)))"

text \<open>\<open>round_dp_with_strategy(6, MidpointAwayFromZero)\<close>\<close>

definition round6 :: "decimal \<Rightarrow> decimal" where
  "round6 q = (if q < 0 then - of_int \<lfloor>- q * 1000000 + 1 / 2\<rfloor> else of_int \<lfloor>q * 1000000 + 1 / 2\<rfloor>) / 1000000"

definition maker_fill_match ::
  "prepared_order_envelope \<Rightarrow> string \<Rightarrow> trade_side \<Rightarrow> decimal \<Rightarrow> maker_fill \<Rightarrow> bool" where
  "maker_fill_match env maker_order_id sd limit_price fl \<longleftrightarrow>
     mf_order_id fl = maker_order_id \<and> mf_asset_id fl = en_token_id env \<and> mf_side fl = sd \<and>
     mf_matched_amount fl > 0 \<and>
     (let executed_usdc = round6 (mf_price fl * mf_matched_amount fl);
          limit_usdc = mf_matched_amount fl * limit_price
      in case sd of
           TBuy \<Rightarrow> executed_usdc \<le> limit_usdc + 1 / 1000000
         | TSell \<Rightarrow> executed_usdc + 1 / 1000000 \<ge> limit_usdc
         | TUnknownSide \<Rightarrow> False)"

definition maker_contrib ::
  "prepared_order_envelope \<Rightarrow> string \<Rightarrow> trade_history_window \<Rightarrow> trade_side \<Rightarrow> decimal \<Rightarrow> account_trade
     \<Rightarrow> decimal \<times> decimal" where
  "maker_contrib env maker_order_id w sd limit_price t =
     (if tr_role t \<noteq> Maker \<or> \<not> settled (tr_status t) \<or> \<not> window_contains w (tr_match_time t) then (0, 0)
      else let fills = filter (maker_fill_match env maker_order_id sd limit_price) (tr_maker_orders t)
           in (sum_list (map mf_matched_amount fills),
               sum_list (map (\<lambda>fl. round6 (mf_price fl * mf_matched_amount fl)) fills)))"

definition recover_gtd_maker_order_from_trades ::
  "ext \<Rightarrow> prepared_order_envelope \<Rightarrow> string \<Rightarrow> trade_history_window \<Rightarrow> account_trade list
     \<Rightarrow> trade_history_error + trade_history_lookup" where
  "recover_gtd_maker_order_from_trades X env maker_order_id w trades =
     (case check_envelope X env ''GTD'' maker_order_id MissingMakerOrderId of
        Inl e \<Rightarrow> Inl e
      | Inr (sd, limit_price) \<Rightarrow>
          lookup_of maker_order_id
            (match_trades (maker_contrib env maker_order_id w sd limit_price) trades Map.empty (0, 0)))"

section \<open>The queries\<close>

definition lookup_prepared_fak_in_trade_history ::
  "ext \<Rightarrow> trade_history_reader \<Rightarrow> prepared_order_envelope \<Rightarrow> trade_history_window
     \<Rightarrow> trade_history_error + trade_history_lookup" where
  "lookup_prepared_fak_in_trade_history X reader env w =
     (if \<not> outcome_token_id_ok X (en_token_id env) then Inl HistInvalidTokenId
      else case trades_for_token_between reader (en_token_id env) (tw_after w) (tw_before w) of
        Inl e \<Rightarrow> Inl (HistQuery e)
      | Inr trades \<Rightarrow> recover_fak_taker_order_from_trades X env w trades)"

definition lookup_gtd_maker_fill_in_trade_history ::
  "ext \<Rightarrow> trade_history_reader \<Rightarrow> prepared_order_envelope \<Rightarrow> string \<Rightarrow> trade_history_window
     \<Rightarrow> trade_history_error + trade_history_lookup" where
  "lookup_gtd_maker_fill_in_trade_history X reader env maker_order_id w =
     (if \<not> outcome_token_id_ok X (en_token_id env) then Inl HistInvalidTokenId
      else case trades_between_unfiltered reader (en_token_id env) (tw_after w) (tw_before w) of
        Inl e \<Rightarrow> Inl (HistQuery e)
      | Inr trades \<Rightarrow> recover_gtd_maker_order_from_trades X env maker_order_id w trades)"

section \<open>The loop counts every trade once\<close>

definition consistent :: "account_trade list \<Rightarrow> bool" where
  "consistent ts \<longleftrightarrow> (\<forall>a \<in> set ts. \<forall>b \<in> set ts. tr_trade_id a = tr_trade_id b \<longrightarrow> a = b)"

text \<open>What the loop has seen is a map from ids to trades that carry them.\<close>

definition seen_ok :: "(string \<rightharpoonup> account_trade) \<Rightarrow> bool" where
  "seen_ok seen \<longleftrightarrow> (\<forall>i t. seen i = Some t \<longrightarrow> tr_trade_id t = i)"

definition fresh_trades :: "(string \<rightharpoonup> account_trade) \<Rightarrow> account_trade list \<Rightarrow> account_trade list" where
  "fresh_trades seen ts = filter (\<lambda>t. seen (tr_trade_id t) = None) (remdups ts)"

lemma match_trades_sum:
  assumes "seen_ok seen" "consistent (ts @ ss)" "set ss = ran seen"
  shows "match_trades contrib ts seen (q, n) =
     Inr (q + (\<Sum>t \<in> set (fresh_trades seen ts). fst (contrib t)),
          n + (\<Sum>t \<in> set (fresh_trades seen ts). snd (contrib t)))"
  using assms
proof (induction ts arbitrary: seen ss q n)
  case Nil
  then show ?case by (simp add: fresh_trades_def)
next
  case (Cons t ts)
  let ?seen = "seen(tr_trade_id t \<mapsto> t)"
  have ok: "seen_ok ?seen" using Cons.prems(1) by (auto simp: seen_ok_def)
  show ?case
  proof (cases "seen (tr_trade_id t)")
    case None
    have "consistent (ts @ (t # ss))" using Cons.prems(2) by (auto simp: consistent_def)
    moreover have "set (t # ss) = ran ?seen"
      using Cons.prems(3) None by (simp add: ran_map_upd)
    ultimately have IH: "match_trades contrib ts ?seen (q', n') =
      Inr (q' + (\<Sum>t \<in> set (fresh_trades ?seen ts). fst (contrib t)),
           n' + (\<Sum>t \<in> set (fresh_trades ?seen ts). snd (contrib t)))" for q' n'
      by (rule Cons.IH [OF ok])
    have set: "set (fresh_trades seen (t # ts)) = insert t (set (fresh_trades ?seen ts))"
      using None Cons.prems(2) by (auto simp: fresh_trades_def consistent_def)
    have nin: "t \<notin> set (fresh_trades ?seen ts)" by (simp add: fresh_trades_def)
    show ?thesis
      by (simp add: None IH set nin split: prod.splits)
  next
    case (Some prev)
    then have "prev \<in> set ss" using Cons.prems(3) by (auto simp: ran_def)
    moreover have "tr_trade_id prev = tr_trade_id t" using Some Cons.prems(1) by (auto simp: seen_ok_def)
    ultimately have p: "prev = t" using Cons.prems(2) by (auto simp: consistent_def)
    have same: "?seen = seen" using Some p by (simp add: fun_upd_idem)
    have c: "consistent (ts @ ss)" using Cons.prems(2) by (auto simp: consistent_def)
    have set: "set (fresh_trades seen (t # ts)) = set (fresh_trades seen ts)"
      using Some by (auto simp: fresh_trades_def)
    show ?thesis
      by (simp add: Some p same Cons.IH [OF Cons.prems(1) c Cons.prems(3)] set del: fun_upd_apply)
  qed
qed

lemma match_trades_conflict:
  assumes "seen_ok seen" "\<not> consistent (ts @ ss)" "set ss = ran seen"
  shows "\<exists>i. match_trades contrib ts seen (q, n) = Inl (ConflictingDuplicateTrade i)"
  using assms
proof (induction ts arbitrary: seen ss q n)
  case Nil
  then have False
    unfolding consistent_def seen_ok_def by (auto simp: ran_def)
  then show ?case ..
next
  case (Cons t ts)
  let ?seen = "seen(tr_trade_id t \<mapsto> t)"
  have ok: "seen_ok ?seen" using Cons.prems(1) by (auto simp: seen_ok_def)
  show ?case
  proof (cases "seen (tr_trade_id t)")
    case None
    have "\<not> consistent (ts @ (t # ss))" using Cons.prems(2) by (auto simp: consistent_def)
    moreover have "set (t # ss) = ran ?seen" using Cons.prems(3) None by (simp add: ran_map_upd)
    ultimately have "\<exists>i. match_trades contrib ts ?seen (q', n') = Inl (ConflictingDuplicateTrade i)" for q' n'
      by (rule Cons.IH [OF ok])
    then show ?thesis by (simp add: None split: prod.splits del: fun_upd_apply)
  next
    case (Some prev)
    show ?thesis
    proof (cases "prev = t")
      case True
      then have "t \<in> set ss" using Some Cons.prems(3) by (auto simp: ran_def)
      then have c: "\<not> consistent (ts @ ss)" using Cons.prems(2) by (auto simp: consistent_def)
      have same: "?seen = seen" using Some True by (simp add: fun_upd_idem)
      show ?thesis using Cons.IH [OF Cons.prems(1) c Cons.prems(3)] Some True same by simp
    qed (simp add: Some)
  qed
qed

text \<open>The loop as a whole: refuse contradictory pages, otherwise sum over the set of trades.\<close>

lemma match_trades_consistent:
  assumes "consistent ts"
  shows "match_trades contrib ts Map.empty (0, 0) = Inr (\<Sum>t \<in> set ts. fst (contrib t), \<Sum>t \<in> set ts. snd (contrib t))"
proof -
  have "set (fresh_trades Map.empty ts) = set ts" by (simp add: fresh_trades_def)
  with match_trades_sum [of Map.empty ts "[]" contrib 0 0] assms show ?thesis by (simp add: seen_ok_def)
qed

lemma match_trades_inconsistent:
  "\<not> consistent ts \<Longrightarrow> \<exists>i. match_trades contrib ts Map.empty (0, 0) = Inl (ConflictingDuplicateTrade i)"
  using match_trades_conflict [of Map.empty ts "[]"] by (simp add: seen_ok_def)

lemma sum_pos_iff:
  assumes "finite A" "\<And>t. t \<in> A \<Longrightarrow> 0 < (f t :: decimal)"
  shows "0 \<le> sum f A" "sum f A = 0 \<longleftrightarrow> A = {}"
  using assms by (auto intro!: sum_nonneg simp: less_imp_le sum_nonneg_eq_0_iff)

lemma taker_sums:
  "(\<Sum>t \<in> set ts. fst (taker_contrib env w sd p t)) = (\<Sum>t \<in> {t \<in> set ts. taker_match env w sd p t}. tr_size t)"
  "(\<Sum>t \<in> set ts. snd (taker_contrib env w sd p t)) =
     (\<Sum>t \<in> {t \<in> set ts. taker_match env w sd p t}. tr_size t * tr_price t)"
  by (simp_all add: taker_contrib_def if_distrib sum.If_cases Int_def conj_commute cong: if_cong)

section \<open>Properties\<close>

text \<open>
  C18. FAK recovery is exact.  For an envelope that passes the checks, the recovered quantity and notional
  are the sums over the distinct settled taker trades with the envelope's precomputed order id, token
  and side, inside the window and within the limit price; repeated pages never count twice.  Without
  such a trade the answer is \<open>NotFound\<close>; two different trades with one id are refused; a recovered BUY
  never cost more than its limit price.  A failed check is reported without looking at the trades, and
  a GTD envelope is never recovered by this matcher.
\<close>

theorem fak_recovery_exact:
  "(case check_envelope X env ''FAK'' (en_expected_taker_order_id env) MissingOrderFingerprint of
      Inl e \<Rightarrow> recover_fak_taker_order_from_trades X env w ts = Inl e
    | Inr (sd, p) \<Rightarrow>
        (let ms = {t \<in> set ts. taker_match env w sd p t};
             q = (\<Sum>t \<in> ms. tr_size t); n = (\<Sum>t \<in> ms. tr_size t * tr_price t)
         in if consistent ts
            then recover_fak_taker_order_from_trades X env w ts =
                   (if ms = {} then Inr NotFound else Inr (Recovered (en_expected_taker_order_id env) q n)) \<and>
                 0 \<le> q \<and> (if sd = TBuy then n \<le> q * p else q * p \<le> n)
            else \<exists>i. recover_fak_taker_order_from_trades X env w ts = Inl (ConflictingDuplicateTrade i))) \<and>
   (en_order_type env = ''GTD'' \<longrightarrow> recover_fak_taker_order_from_trades X env w ts = Inl UnsupportedOrderType)"
proof -
  have gtd: "en_order_type env = ''GTD'' \<longrightarrow> recover_fak_taker_order_from_trades X env w ts = Inl UnsupportedOrderType"
    by (simp add: recover_fak_taker_order_from_trades_def check_envelope_def)
  show ?thesis
  proof (cases "check_envelope X env ''FAK'' (en_expected_taker_order_id env) MissingOrderFingerprint")
    case (Inl e)
    then show ?thesis using gtd by (simp add: recover_fak_taker_order_from_trades_def)
  next
    case (Inr sp)
    obtain sd p where sp: "sp = (sd, p)" by fastforce
    have sd: "sd = TBuy \<or> sd = TSell"
      using Inr sp by (auto simp: check_envelope_def trade_side_of_def split: if_splits option.splits)
    let ?ms = "{t \<in> set ts. taker_match env w sd p t}"
    let ?q = "\<Sum>t \<in> ?ms. tr_size t" and ?n = "\<Sum>t \<in> ?ms. tr_size t * tr_price t"
    have pos: "\<And>t. t \<in> ?ms \<Longrightarrow> 0 < tr_size t" by (simp add: taker_match_def)
    have fin: "finite ?ms" by simp
    note z = sum_pos_iff [of ?ms tr_size, OF fin pos]
    have bound: "if sd = TBuy then ?n \<le> ?q * p else ?q * p \<le> ?n"
    proof (cases "sd = TBuy")
      case True
      have "?n \<le> (\<Sum>t \<in> ?ms. tr_size t * p)"
        using pos True by (intro sum_mono mult_left_mono) (auto simp: taker_match_def less_imp_le)
      with True show ?thesis by (simp add: sum_distrib_right)
    next
      case False
      have "(\<Sum>t \<in> ?ms. tr_size t * p) \<le> ?n"
        using pos False sd by (intro sum_mono mult_left_mono) (auto simp: taker_match_def less_imp_le)
      with False show ?thesis by (simp add: sum_distrib_right)
    qed
    have rec: "recover_fak_taker_order_from_trades X env w ts = lookup_of (en_expected_taker_order_id env)
        (match_trades (taker_contrib env w sd p) ts Map.empty (0, 0))"
      by (simp add: recover_fak_taker_order_from_trades_def Inr sp)
    show ?thesis
    proof (cases "consistent ts")
      case True
      have "recover_fak_taker_order_from_trades X env w ts =
          (if ?ms = {} then Inr NotFound else Inr (Recovered (en_expected_taker_order_id env) ?q ?n))"
        unfolding rec match_trades_consistent [OF True] taker_sums lookup_of_def using z(2) by simp
      with True z(1) bound gtd show ?thesis by (simp add: Inr sp Let_def)
    next
      case False
      obtain i where "match_trades (taker_contrib env w sd p) ts Map.empty (0, 0) = Inl (ConflictingDuplicateTrade i)"
        using match_trades_inconsistent [OF False] by blast
      then show ?thesis using False gtd by (simp add: Inr sp Let_def rec lookup_of_def)
    qed
  qed
qed

definition trade0 :: account_trade where
  "trade0 = \<lparr>tr_trade_id = ''t'', tr_taker_order_id = ''0xa'', tr_token_id = ''7'', tr_side = TBuy, tr_price = 1/2,
     tr_size = 4, tr_match_time = 5, tr_role = Taker, tr_status = Mined, tr_maker_orders = []\<rparr>"

theorem fak_recovery_exact_witness:
  "recover_fak_taker_order_from_trades ext0 envelope0 \<lparr>tw_after = 0, tw_before = 9\<rparr> [trade0, trade0] =
     Inr (Recovered ''0xa'' 4 2)"
proof -
  let ?w = "\<lparr>tw_after = 0, tw_before = 9\<rparr>"
  have c: "check_envelope ext0 envelope0 ''FAK'' (en_expected_taker_order_id envelope0) MissingOrderFingerprint =
      Inr (TBuy, 3/5)"
    by (simp add: check_envelope_def envelope0_def trim_def is_space_def trade_side_of_def limit_price_of_def
        all_digits_def)
  have k: "consistent [trade0, trade0]" by (simp add: consistent_def)
  have s: "{t \<in> set [trade0, trade0]. taker_match envelope0 ?w TBuy (3/5) t} = {trade0}"
    by (auto simp: taker_match_def trade0_def envelope0_def settled_def window_contains_def)
  from fak_recovery_exact [of ext0 envelope0 ?w "[trade0, trade0]"] k
  show ?thesis unfolding c sum.case prod.case Let_def s by (simp add: trade0_def envelope0_def)
qed

text \<open>
  GTD recovery is exact.  For an envelope that passes the checks and consistent pages, a recovered
  fill carries the persisted maker order id, and its quantity and notional are the sums, over the
  distinct settled maker trades inside the window, of the fills with exactly that order id, token and
  side; the quantity is positive, and \<open>NotFound\<close> means that no such fill exists.  Contradictory pages are
  refused and a FAK envelope is never recovered by this matcher.
\<close>

theorem gtd_recovery_exact:
  assumes "check_envelope X env ''GTD'' maker_order_id MissingMakerOrderId = Inr (sd, p)"
  shows "(let trades = {t \<in> set ts. tr_role t = Maker \<and> settled (tr_status t) \<and> window_contains w (tr_match_time t)};
         fills = (\<lambda>t. filter (maker_fill_match env maker_order_id sd p) (tr_maker_orders t));
         q = (\<Sum>t \<in> trades. sum_list (map mf_matched_amount (fills t)));
         n = (\<Sum>t \<in> trades. sum_list (map (\<lambda>fl. round6 (mf_price fl * mf_matched_amount fl)) (fills t)))
     in if consistent ts
        then recover_gtd_maker_order_from_trades X env maker_order_id w ts =
               (if \<forall>t \<in> trades. fills t = [] then Inr NotFound else Inr (Recovered maker_order_id q n)) \<and>
             0 \<le> q
        else \<exists>i. recover_gtd_maker_order_from_trades X env maker_order_id w ts = Inl (ConflictingDuplicateTrade i)) \<and>
    recover_gtd_maker_order_from_trades X (env\<lparr>en_order_type := ''FAK''\<rparr>) maker_order_id w ts = Inl UnsupportedOrderType"
proof -
  let ?T = "{t \<in> set ts. tr_role t = Maker \<and> settled (tr_status t) \<and> window_contains w (tr_match_time t)}"
  let ?f = "\<lambda>t. filter (maker_fill_match env maker_order_id sd p) (tr_maker_orders t)"
  let ?q = "\<lambda>t. sum_list (map mf_matched_amount (?f t))"
  let ?n = "\<lambda>t. sum_list (map (\<lambda>fl. round6 (mf_price fl * mf_matched_amount fl)) (?f t))"
  have fak: "recover_gtd_maker_order_from_trades X (env\<lparr>en_order_type := ''FAK''\<rparr>) maker_order_id w ts = Inl UnsupportedOrderType"
    by (simp add: recover_gtd_maker_order_from_trades_def check_envelope_def)
  have rec: "recover_gtd_maker_order_from_trades X env maker_order_id w ts = lookup_of maker_order_id
        (match_trades (maker_contrib env maker_order_id w sd p) ts Map.empty (0, 0))"
    by (simp add: recover_gtd_maker_order_from_trades_def assms)
  have pos: "0 < mf_matched_amount fl" if "fl \<in> set (?f t)" for t fl
    using that by (simp add: maker_fill_match_def)
  have q0: "0 \<le> ?q t" for t using pos [of _ t] by (intro sum_list_nonneg) (auto simp: less_imp_le)
  have qz: "?q t = 0 \<longleftrightarrow> ?f t = []" for t
  proof (cases "?f t")
    case (Cons a as)
    have "0 < mf_matched_amount a" using pos [of a t] Cons by simp
    moreover have "0 \<le> sum_list (map mf_matched_amount as)"
      using pos [of _ t] Cons by (intro sum_list_nonneg) (auto simp: less_imp_le)
    ultimately show ?thesis using Cons by simp
  qed simp
  have c: "fst (maker_contrib env maker_order_id w sd p t) = (if t \<in> {t. tr_role t = Maker \<and> settled (tr_status t) \<and>
        window_contains w (tr_match_time t)} then ?q t else 0)"
      "snd (maker_contrib env maker_order_id w sd p t) = (if t \<in> {t. tr_role t = Maker \<and> settled (tr_status t) \<and>
        window_contains w (tr_match_time t)} then ?n t else 0)" for t
    by (auto simp: maker_contrib_def Let_def)
  have I: "set ts \<inter> {t. tr_role t = Maker \<and> settled (tr_status t) \<and> window_contains w (tr_match_time t)} = ?T" by auto
  have s: "(\<Sum>t \<in> set ts. fst (maker_contrib env maker_order_id w sd p t)) = (\<Sum>t \<in> ?T. ?q t)"
    "(\<Sum>t \<in> set ts. snd (maker_contrib env maker_order_id w sd p t)) = (\<Sum>t \<in> ?T. ?n t)"
    unfolding c by (subst sum.inter_restrict [symmetric], simp, simp only: I)+
  have z: "(\<Sum>t \<in> ?T. ?q t) = 0 \<longleftrightarrow> (\<forall>t \<in> ?T. ?f t = [])"
    using q0 by (subst sum_nonneg_eq_0_iff) (simp_all only: qz, simp_all)
  have nn: "0 \<le> (\<Sum>t \<in> ?T. ?q t)" using q0 by (rule sum_nonneg)
  show ?thesis
  proof (cases "consistent ts")
    case True
    have "recover_gtd_maker_order_from_trades X env maker_order_id w ts =
       (if \<forall>t \<in> ?T. ?f t = [] then Inr NotFound else Inr (Recovered maker_order_id (\<Sum>t \<in> ?T. ?q t) (\<Sum>t \<in> ?T. ?n t)))"
      unfolding rec match_trades_consistent [OF True] s lookup_of_def sum.case prod.case z ..
    with True nn fak show ?thesis unfolding Let_def by (simp only: if_True simp_thms)
  next
    case False
    obtain i where i: "match_trades (maker_contrib env maker_order_id w sd p) ts Map.empty (0, 0) =
        Inl (ConflictingDuplicateTrade i)" using match_trades_inconsistent [OF False] by blast
    have "\<exists>i. recover_gtd_maker_order_from_trades X env maker_order_id w ts = Inl (ConflictingDuplicateTrade i)"
      unfolding rec i lookup_of_def by simp
    with False fak show ?thesis unfolding Let_def by (simp only: if_False simp_thms)
  qed
qed

theorem gtd_recovery_exact_witness:
  "recover_gtd_maker_order_from_trades ext0 (envelope0\<lparr>en_order_type := ''GTD''\<rparr>) ''0xb'' \<lparr>tw_after = 0, tw_before = 9\<rparr>
     [trade0] = Inr NotFound"
proof -
  let ?w = "\<lparr>tw_after = 0, tw_before = 9\<rparr>"
  have c: "check_envelope ext0 (envelope0\<lparr>en_order_type := ''GTD''\<rparr>) ''GTD'' ''0xb'' MissingMakerOrderId = Inr (TBuy, 3/5)"
    by (simp add: check_envelope_def envelope0_def trim_def is_space_def trade_side_of_def limit_price_of_def
        all_digits_def)
  have k: "consistent [trade0]" by (simp add: consistent_def)
  have t: "{t \<in> set [trade0]. tr_role t = Maker \<and> settled (tr_status t) \<and> window_contains ?w (tr_match_time t)} = {}"
    by (simp add: trade0_def)
  from gtd_recovery_exact [OF c, of "[trade0]" ?w] k
  show ?thesis unfolding Let_def t by simp
qed

end
