(* ===== verification/Venue.thy ===== *)
theory Venue
  imports TradeHistory
begin

text \<open>
  The live adapter of the execution contract, \<open>src/src/venue/intl_clob_exec.rs\<close>: receipts built from the
  persisted envelope and the venue's amounts, the classification of submission errors, and the operations of
  the \<open>CopyExecution\<close> trait (\<open>src/src/venue/execution_contract.rs\<close>) over a client.  The vendored SDK and
  the network are the record \<open>clob_client\<close>: what each request answers.  \<open>reconstruct\<close> stands for the
  rebuilding of the SDK's signed order from the persisted text.  The lemmas show that an unparseable
  envelope never yields a receipt, and that only an explicit refusal is reported as one.
\<close>

section \<open>Receipts from envelopes\<close>

definition receipt_error_text :: "ext \<Rightarrow> receipt_error \<Rightarrow> string" where
  "receipt_error_text X e = (case e of
       NegativeQuantity field v \<Rightarrow> field @ '' must not be negative, received '' @ show_dec X v
     | ExceedsRequested field v requested \<Rightarrow>
         field @ '' ('' @ show_dec X v @ '') must not exceed requested_qty ('' @ show_dec X requested @ '')''
     | FillOnZeroRequest field filled \<Rightarrow>
         field @ '' ('' @ show_dec X filled @ '') must be zero when requested_qty is zero -- a zero-quantity request can never have a real fill'')"

definition parsed_envelope_size :: "ext \<Rightarrow> prepared_order_envelope \<Rightarrow> string + decimal" where
  "parsed_envelope_size X env = (case parse_dec X (en_size env) of
       None \<Rightarrow> Inl (''invalid envelope size: '' @ en_size env) | Some q \<Rightarrow> Inr q)"

definition parsed_buy_budget :: "ext \<Rightarrow> prepared_order_envelope \<Rightarrow> string + decimal" where
  "parsed_buy_budget X env =
     (let raw = (case en_buy_budget_usdc env of Some b \<Rightarrow> b | None \<Rightarrow> en_size env)
      in case parse_dec X raw of None \<Rightarrow> Inl (''invalid BUY budget: '' @ raw) | Some q \<Rightarrow> Inr q)"

definition receipt_text :: "ext \<Rightarrow> receipt_error + order_receipt \<Rightarrow> string + order_receipt" where
  "receipt_text X r = (case r of Inl e \<Rightarrow> Inl (receipt_error_text X e) | Inr v \<Rightarrow> Inr v)"

definition receipt_from_submitted_envelope ::
  "ext \<Rightarrow> prepared_order_envelope \<Rightarrow> decimal \<Rightarrow> decimal \<Rightarrow> string + order_receipt" where
  "receipt_from_submitted_envelope X env making_amount taking_amount =
     (if en_side env = ''BUY'' then
        if en_buy_shares_exact env then
          (case parsed_envelope_size X env of
             Inl e \<Rightarrow> Inl e
           | Inr shares \<Rightarrow> receipt_text X (from_fak_buy_shares shares shares taking_amount))
        else
          (case parsed_buy_budget X env of
             Inl e \<Rightarrow> Inl e
           | Inr budget \<Rightarrow> receipt_text X (from_fak_buy_budget budget budget taking_amount))
      else if en_side env = ''SELL'' then
        (case parsed_envelope_size X env of
           Inl e \<Rightarrow> Inl e
         | Inr requested \<Rightarrow> receipt_text X (from_fak_sell_shares requested requested making_amount))
      else Inl (''unsupported envelope side: '' @ en_side env))"

section \<open>The client\<close>

text \<open>An SDK error: the HTTP status, when it carries one, and its text.\<close>

record sdk_error =
  se_status :: "nat option"
  se_text :: string

record post_response =
  po_success :: bool
  po_error_msg :: "string option"
  po_making_amount :: decimal
  po_taking_amount :: decimal

record 'signed clob_client =
  cc_reconstruct :: "string \<Rightarrow> string + 'signed"
  cc_post_order :: "'signed \<Rightarrow> sdk_error + post_response"
  cc_order :: "string \<Rightarrow> string + venue_order_state"

definition classify_sdk_submit_error :: "sdk_error \<Rightarrow> submit_error" where
  "classify_sdk_submit_error e = (case se_status e of
       Some code \<Rightarrow> if 400 \<le> code \<and> code < 500 then SubmitRejected (se_text e) else SubmitTransport (se_text e)
     | None \<Rightarrow> SubmitTransport (se_text e))"

text \<open>What the orchestrator calls of the \<open>CopyExecution\<close> trait.\<close>

record copy_execution =
  order_for_receipt :: "string \<Rightarrow> string + venue_order_state"
  query_prepared_envelope :: "prepared_order_envelope \<Rightarrow> string + order_receipt option"
  submit_exact_envelope :: "prepared_order_envelope \<Rightarrow> submit_error + order_receipt"

definition clob_submit_exact_envelope ::
  "ext \<Rightarrow> 'signed clob_client \<Rightarrow> prepared_order_envelope \<Rightarrow> submit_error + order_receipt" where
  "clob_submit_exact_envelope X client env =
     (case cc_reconstruct client (en_signed_order_json env) of
        Inl e \<Rightarrow> Inl (SubmitLocal e)
      | Inr signed_order \<Rightarrow>
     (case cc_post_order client signed_order of
        Inl e \<Rightarrow> Inl (classify_sdk_submit_error e)
      | Inr response \<Rightarrow>
          if \<not> po_success response
          then Inl (SubmitRejected (case po_error_msg response of Some t \<Rightarrow> t | None \<Rightarrow> []))
          else (case receipt_from_submitted_envelope X env (po_making_amount response) (po_taking_amount response) of
             Inl e \<Rightarrow> Inl (SubmitTransport e)
           | Inr receipt \<Rightarrow> Inr receipt)))"

text \<open>\<open>query_prepared_envelope\<close> looks back 24 hours from the clock and builds its own receipt.\<close>

definition receipt_from_history :: "ext \<Rightarrow> prepared_order_envelope \<Rightarrow> decimal \<Rightarrow> string + order_receipt" where
  "receipt_from_history X env filled =
     (if en_side env = ''BUY'' then
        if en_buy_shares_exact env then
          (case parsed_envelope_size X env of
             Inl e \<Rightarrow> Inl e | Inr shares \<Rightarrow> receipt_text X (from_fak_buy_shares shares shares filled))
        else
          (case parsed_buy_budget X env of
             Inl e \<Rightarrow> Inl e | Inr budget \<Rightarrow> receipt_text X (from_fak_buy_budget budget budget filled))
      else if en_side env = ''SELL'' then
        (case parsed_envelope_size X env of
           Inl e \<Rightarrow> Inl e | Inr sz \<Rightarrow> receipt_text X (from_fak_sell_shares sz sz filled))
      else Inl (''unsupported envelope side: '' @ en_side env))"

definition clob_query_prepared_envelope ::
  "ext \<Rightarrow> timestamp \<Rightarrow> trade_history_reader \<Rightarrow> prepared_order_envelope \<Rightarrow> string + order_receipt option" where
  "clob_query_prepared_envelope X clock reader env =
     (case trade_history_window_new (clock - 24 * 3600 * 1000) clock of
        Inl e \<Rightarrow> Inl (trade_history_error_text e)
      | Inr w \<Rightarrow> (case lookup_prepared_fak_in_trade_history X reader env w of
          Inl e \<Rightarrow> Inl (trade_history_error_text e)
        | Inr NotFound \<Rightarrow> Inr None
        | Inr (Recovered _ qty _) \<Rightarrow>
            (case receipt_from_history X env qty of Inl e \<Rightarrow> Inl e | Inr receipt \<Rightarrow> Inr (Some receipt))))"

definition clob_order_for_receipt :: "'signed clob_client \<Rightarrow> string \<Rightarrow> string + venue_order_state" where
  "clob_order_for_receipt client order_id = cc_order client order_id"

definition intl_clob_copy_adapter ::
  "ext \<Rightarrow> timestamp \<Rightarrow> trade_history_reader \<Rightarrow> 'signed clob_client \<Rightarrow> copy_execution" where
  "intl_clob_copy_adapter X clock reader client =
     \<lparr>order_for_receipt = clob_order_for_receipt client,
      query_prepared_envelope = clob_query_prepared_envelope X clock reader,
      submit_exact_envelope = clob_submit_exact_envelope X client\<rparr>"

section \<open>Which receipts the adapter can produce\<close>

text \<open>
  A receipt is sound for an envelope when its quantities are non-negative, the request is the one the
  envelope carries, a fill needs a positive request, and a SELL never fills beyond it.
\<close>

definition receipt_for_envelope :: "ext \<Rightarrow> prepared_order_envelope \<Rightarrow> decimal \<Rightarrow> order_receipt \<Rightarrow> bool" where
  "receipt_for_envelope X env filled r \<longleftrightarrow>
     receipt_ok r \<and> filled_qty r = filled \<and> (filled > 0 \<longrightarrow> requested_qty r > 0) \<and>
     (en_side env = ''SELL'' \<longrightarrow> filled_qty r \<le> requested_qty r) \<and>
     Some (requested_qty r) = parse_dec X
       (if en_side env = ''BUY'' \<and> \<not> en_buy_shares_exact env
        then (case en_buy_budget_usdc env of Some b \<Rightarrow> b | None \<Rightarrow> en_size env) else en_size env)"

lemma receipt_from_history_sound:
  "receipt_from_history X env filled = Inr r \<Longrightarrow> receipt_for_envelope X env filled r"
  by (auto simp: receipt_from_history_def receipt_for_envelope_def receipt_text_def receipt_ok_def
      parsed_envelope_size_def parsed_buy_budget_def receipt_checks receipt_new_def from_fak_buy_shares_def
      from_fak_buy_budget_def from_fak_sell_shares_def Let_def split: if_splits sum.splits option.splits)

lemma submitted_is_history:
  "receipt_from_submitted_envelope X env making taking =
     receipt_from_history X env (if en_side env = ''BUY'' then taking else making)"
  by (simp add: receipt_from_submitted_envelope_def receipt_from_history_def)

section \<open>Properties\<close>

text \<open>
  Only what is known is reported.  A submission is a local failure exactly when the signed order could
  not be rebuilt, so nothing was sent; it is a refusal exactly when the venue answered with a 4xx or with
  \<open>success = false\<close>; everything else that is not a receipt is a transport error, including an accepted
  order whose receipt cannot be built.  A receipt, from the submission or from trade history, is always the
  sound receipt of the persisted envelope.
\<close>

theorem submission_classified:
  "((\<exists>e. clob_submit_exact_envelope X client env = Inl (SubmitLocal e)) \<longleftrightarrow>
      (\<exists>e. cc_reconstruct client (en_signed_order_json env) = Inl e))
   \<and> ((\<exists>e. clob_submit_exact_envelope X client env = Inl (SubmitRejected e)) \<longleftrightarrow>
      (\<exists>signed_order. cc_reconstruct client (en_signed_order_json env) = Inr signed_order \<and>
         ((\<exists>e code. cc_post_order client signed_order = Inl e \<and> se_status e = Some code \<and> 400 \<le> code \<and> code < 500) \<or>
          (\<exists>r. cc_post_order client signed_order = Inr r \<and> \<not> po_success r))))
   \<and> (case clob_submit_exact_envelope X client env of
        Inl _ \<Rightarrow> True
      | Inr receipt \<Rightarrow> \<exists>signed_order r. cc_reconstruct client (en_signed_order_json env) = Inr signed_order \<and>
          cc_post_order client signed_order = Inr r \<and> po_success r \<and>
          receipt_for_envelope X env (if en_side env = ''BUY'' then po_taking_amount r else po_making_amount r) receipt)
   \<and> (case clob_query_prepared_envelope X clock reader env of
        Inr (Some receipt) \<Rightarrow> \<exists>w order_id qty notional.
          lookup_prepared_fak_in_trade_history X reader env w = Inr (Recovered order_id qty notional) \<and>
          receipt_for_envelope X env qty receipt \<and>
          receipt_from_submitted_envelope X env qty qty = Inr receipt
      | _ \<Rightarrow> True)"
proof (intro conjI)
  show "(\<exists>e. clob_submit_exact_envelope X client env = Inl (SubmitLocal e)) \<longleftrightarrow>
      (\<exists>e. cc_reconstruct client (en_signed_order_json env) = Inl e)"
    by (auto simp: clob_submit_exact_envelope_def classify_sdk_submit_error_def
        split: sum.splits option.splits if_splits)
  show "(\<exists>e. clob_submit_exact_envelope X client env = Inl (SubmitRejected e)) \<longleftrightarrow>
      (\<exists>signed_order. cc_reconstruct client (en_signed_order_json env) = Inr signed_order \<and>
         ((\<exists>e code. cc_post_order client signed_order = Inl e \<and> se_status e = Some code \<and> 400 \<le> code \<and> code < 500) \<or>
          (\<exists>r. cc_post_order client signed_order = Inr r \<and> \<not> po_success r)))"
    by (auto simp: clob_submit_exact_envelope_def classify_sdk_submit_error_def
        split: sum.splits option.splits if_splits)
  show "case clob_submit_exact_envelope X client env of
        Inl _ \<Rightarrow> True
      | Inr receipt \<Rightarrow> \<exists>signed_order r. cc_reconstruct client (en_signed_order_json env) = Inr signed_order \<and>
          cc_post_order client signed_order = Inr r \<and> po_success r \<and>
          receipt_for_envelope X env (if en_side env = ''BUY'' then po_taking_amount r else po_making_amount r) receipt"
    by (auto simp: clob_submit_exact_envelope_def submitted_is_history dest!: receipt_from_history_sound
        split: sum.splits if_splits)
  show "case clob_query_prepared_envelope X clock reader env of
        Inr (Some receipt) \<Rightarrow> \<exists>w order_id qty notional.
          lookup_prepared_fak_in_trade_history X reader env w = Inr (Recovered order_id qty notional) \<and>
          receipt_for_envelope X env qty receipt \<and>
          receipt_from_submitted_envelope X env qty qty = Inr receipt
      | _ \<Rightarrow> True"
    by (auto simp: clob_query_prepared_envelope_def submitted_is_history receipt_from_history_sound
        split: sum.splits option.splits trade_history_lookup.splits; blast intro: receipt_from_history_sound)
qed

end
