(* ===== verification/Reconcile.thy ===== *)
theory Reconcile
  imports Budget Venue
begin

text \<open>
  Prepared submission and reconciliation, \<open>src/src/copytrading/reconcile.rs\<close>: the one envelope persisted
  per attempt, the compare-and-set transitions of an attempt, the recovery of a lost submission response
  from trade history, the recovery matrix and the reconciliation cases.  The lemmas show that the status of
  an attempt only moves forward, that its envelope never changes, and that every failure blocks the account
  instead of submitting again.
\<close>

section \<open>Errors\<close>

datatype reconcile_error =
    RecDatabase string
  | InvalidEnvelope
  | AttemptNotFound
  | RecInvalidAttemptTransition
  | MissingSubmissionStartedAt
  | InvalidSubmissionStartedAt
  | InvalidSubmissionWindow
  | ConflictingRecoveredOrderId
  | StrictTradeHistoryLookup string
  | MissingVenueOrderId

definition reconcile_error_text :: "reconcile_error \<Rightarrow> string" where
  "reconcile_error_text e = (case e of
       RecDatabase err \<Rightarrow> ''database error: '' @ err
     | InvalidEnvelope \<Rightarrow> ''invalid or unparseable order envelope''
     | AttemptNotFound \<Rightarrow> ''order attempt was not found for this intent''
     | RecInvalidAttemptTransition \<Rightarrow> ''order attempt is not in the required recovery state''
     | MissingSubmissionStartedAt \<Rightarrow> ''order attempt has no durable submission-start timestamp''
     | InvalidSubmissionStartedAt \<Rightarrow> ''order attempt has an invalid submission-start timestamp''
     | InvalidSubmissionWindow \<Rightarrow> ''order attempt has an invalid submission recovery window''
     | ConflictingRecoveredOrderId \<Rightarrow> ''order attempt already records a different venue order ID''
     | StrictTradeHistoryLookup err \<Rightarrow> ''strict trade-history lookup did not prove no-fill: '' @ err
     | MissingVenueOrderId \<Rightarrow>
         ''attempt has no recorded venue order ID; a GTD maker lookup cannot proceed without one'')"

definition max_attempts_per_window :: int where "max_attempts_per_window = 5"
definition retry_window_seconds :: int where "retry_window_seconds = 600"
definition trade_history_timestamp_skew_seconds :: int where "trade_history_timestamp_skew_seconds = 1"

section \<open>The envelope of an attempt\<close>

definition gtd_order_id :: "prepared_order_envelope \<Rightarrow> (reconcile_error, string option) db_act" where
  "gtd_order_id candidate =
     (if en_order_type candidate = ''GTD'' then
        let i = trim (en_expected_taker_order_id candidate) in
        if i = [] \<or> i \<noteq> en_expected_taker_order_id candidate then raise MissingVenueOrderId else ret (Some i)
      else ret None)"

definition prepared_row ::
  "timestamp \<Rightarrow> int \<Rightarrow> int \<Rightarrow> string \<Rightarrow> prepared_order_envelope \<Rightarrow> string option \<Rightarrow> int \<Rightarrow> order_attempt_row" where
  "prepared_row clock intent_id attempt_number json candidate order_id i =
     \<lparr>oa_id = i, oa_intent_id = intent_id, oa_attempt_number = attempt_number, oa_envelope_json = json,
      oa_status = Prepared, oa_receipt = None, oa_venue_order_id = order_id,
      oa_requested_qty = (case en_buy_budget_usdc candidate of Some b \<Rightarrow> b | None \<Rightarrow> en_size candidate),
      oa_accepted_qty = None, oa_filled_qty = None, oa_remaining_qty = None, oa_accounted_filled_qty = ''0'',
      oa_failure_detail = None, oa_submission_started_at = None, oa_created_at = clock\<rparr>"

definition attempt_numbered :: "int \<Rightarrow> int \<Rightarrow> db \<Rightarrow> order_attempt_row option" where
  "attempt_numbered intent_id attempt_number d =
     find_row (\<lambda>r. oa_intent_id r = intent_id \<and> oa_attempt_number r = attempt_number) (order_attempts d)"

definition load_or_prepare_attempt ::
  "ext \<Rightarrow> timestamp \<Rightarrow> int \<Rightarrow> int \<Rightarrow> prepared_order_envelope \<Rightarrow> (reconcile_error, prepared_order_envelope) db_act" where
  "load_or_prepare_attempt X clock intent_id attempt_number candidate = transaction
     (and_then (reads (attempt_numbered intent_id attempt_number)) (\<lambda>existing.
      case existing of
        Some r \<Rightarrow> or_raise InvalidEnvelope (envelope_of_json X (oa_envelope_json r))
      | None \<Rightarrow>
          and_then (or_raise InvalidEnvelope (envelope_to_json X candidate)) (\<lambda>json.
          and_then (gtd_order_id candidate) (\<lambda>order_id.
          and_then (insert_new_attempt RecDatabase intent_id attempt_number
             (prepared_row clock intent_id attempt_number json candidate order_id)) (\<lambda>_.
          ret candidate)))))"

section \<open>Transitions of an attempt\<close>

text \<open>\<open>UPDATE order_attempts SET ... WHERE id = ? AND intent_id = ? AND ...\<close> that must hit one row.\<close>

definition transition_attempt ::
  "(order_attempt_row \<Rightarrow> bool) \<Rightarrow> (order_attempt_row \<Rightarrow> order_attempt_row) \<Rightarrow> reconcile_error \<Rightarrow> int \<Rightarrow> int
     \<Rightarrow> (reconcile_error, unit) db_act" where
  "transition_attempt ready change refused intent_id attempt_id =
     and_then (update_attempts (\<lambda>r. oa_id r = attempt_id \<and> oa_intent_id r = intent_id \<and> ready r) change) (\<lambda>n.
     assert_that (n = 1) refused)"

definition in_flight :: "order_attempt_row \<Rightarrow> bool" where
  "in_flight r \<longleftrightarrow> oa_status r = Submitting \<or> oa_status r = Uncertain"

definition mark_attempt_submitting ::
  "ext \<Rightarrow> int \<Rightarrow> int \<Rightarrow> timestamp \<Rightarrow> (reconcile_error, unit) db_act" where
  "mark_attempt_submitting X intent_id attempt_id started_at =
     transition_attempt (\<lambda>r. oa_status r = Prepared)
       (\<lambda>r. r\<lparr>oa_status := Submitting, oa_submission_started_at := Some (show_time X started_at)\<rparr>)
       RecInvalidAttemptTransition intent_id attempt_id"

definition mark_attempt_uncertain_after_submission_error ::
  "int \<Rightarrow> int \<Rightarrow> string \<Rightarrow> (reconcile_error, unit) db_act" where
  "mark_attempt_uncertain_after_submission_error intent_id attempt_id failure_detail =
     transition_attempt in_flight (\<lambda>r. r\<lparr>oa_status := Uncertain, oa_failure_detail := Some failure_detail\<rparr>)
       RecInvalidAttemptTransition intent_id attempt_id"

definition mark_attempt_rejected :: "int \<Rightarrow> int \<Rightarrow> string \<Rightarrow> (reconcile_error, unit) db_act" where
  "mark_attempt_rejected intent_id attempt_id failure_detail =
     transition_attempt (\<lambda>r. oa_status r = Submitting \<or> oa_status r = Prepared)
       (\<lambda>r. r\<lparr>oa_status := ARejected, oa_failure_detail := Some failure_detail\<rparr>)
       RecInvalidAttemptTransition intent_id attempt_id"

definition persist_recovered_order_id :: "int \<Rightarrow> int \<Rightarrow> string \<Rightarrow> (reconcile_error, unit) db_act" where
  "persist_recovered_order_id intent_id attempt_id order_id =
     transition_attempt
       (\<lambda>r. in_flight r \<and> (oa_venue_order_id r = None \<or> oa_venue_order_id r = Some order_id))
       (\<lambda>r. r\<lparr>oa_venue_order_id := Some order_id, oa_status := Uncertain\<rparr>)
       ConflictingRecoveredOrderId intent_id attempt_id"

section \<open>Reconciliation cases\<close>

text \<open>
  \<open>reconciliation_cases.order_attempt_id\<close> references \<open>order_attempts\<close>.  \<open>open_case_once\<close> is the
  \<open>INSERT ... WHERE NOT EXISTS\<close> of an unresolved case of the same kind.
\<close>

definition insert_linked_case ::
  "int \<Rightarrow> string \<Rightarrow> int \<Rightarrow> int option \<Rightarrow> string \<Rightarrow> string \<Rightarrow> (reconcile_error, unit) db_act" where
  "insert_linked_case account_id token_id intent_id attempt_id case_type detail =
     and_then (reads (\<lambda>d. case attempt_id of None \<Rightarrow> True | Some a \<Rightarrow> attempt_by_id a d \<noteq> None)) (\<lambda>linked.
     and_then (assert_that linked (RecDatabase ''FOREIGN KEY constraint failed'')) (\<lambda>_.
     and_then (insert_case (new_case account_id token_id intent_id attempt_id case_type detail)) (\<lambda>_. ret ())))"

definition same_open_case :: "int \<Rightarrow> int option \<Rightarrow> string \<Rightarrow> reconciliation_case_row \<Rightarrow> bool" where
  "same_open_case intent_id attempt_id case_type r \<longleftrightarrow>
     rc_intent_id r = Some intent_id \<and> rc_order_attempt_id r = attempt_id \<and> rc_case_type r = case_type \<and>
     rc_resolved_at r = None"

definition open_case_once ::
  "int \<Rightarrow> string \<Rightarrow> int \<Rightarrow> int option \<Rightarrow> string \<Rightarrow> string \<Rightarrow> (reconcile_error, unit) db_act" where
  "open_case_once account_id token_id intent_id attempt_id case_type detail =
     and_then (reads (\<lambda>d. list_ex (same_open_case intent_id attempt_id case_type) (reconciliation_cases d))) (\<lambda>dup.
     if dup then ret () else insert_linked_case account_id token_id intent_id attempt_id case_type detail)"

definition needs_reconcile :: "int \<Rightarrow> (reconcile_error, nat) db_act" where
  "needs_reconcile intent_id = update_intents (\<lambda>r. ci_id r = intent_id) (\<lambda>r. r\<lparr>ci_status := NeedsReconcile\<rparr>)"

definition park_attempt :: "int \<Rightarrow> int \<Rightarrow> string \<Rightarrow> (reconcile_error, nat) db_act" where
  "park_attempt intent_id attempt_id detail =
     update_attempts (\<lambda>r. oa_id r = attempt_id \<and> oa_intent_id r = intent_id \<and> in_flight r)
       (\<lambda>r. r\<lparr>oa_status := Uncertain, oa_failure_detail := Some detail\<rparr>)"

definition intent_row_of :: "int \<Rightarrow> (reconcile_error, copy_intent_row) db_act" where
  "intent_row_of intent_id =
     and_then (reads (intent_by_id intent_id)) (or_raise (RecDatabase ''no rows returned''))"

definition open_reconciliation_case ::
  "int \<Rightarrow> int option \<Rightarrow> string \<Rightarrow> string \<Rightarrow> (reconcile_error, unit) db_act" where
  "open_reconciliation_case intent_id attempt_id case_type detail = transaction
     (and_then (intent_row_of intent_id) (\<lambda>ci.
      and_then (needs_reconcile intent_id) (\<lambda>_.
      and_then (case attempt_id of None \<Rightarrow> ret 0 | Some a \<Rightarrow> park_attempt intent_id a detail) (\<lambda>_.
      open_case_once (ci_account_id ci) (ci_token_id ci) intent_id attempt_id case_type detail))))"

definition open_local_submission_failure_case ::
  "ext \<Rightarrow> timestamp \<Rightarrow> int \<Rightarrow> int \<Rightarrow> string \<Rightarrow> (reconcile_error, unit) db_act" where
  "open_local_submission_failure_case X clock intent_id attempt_id detail = transaction
     (and_then (intent_row_of intent_id) (\<lambda>ci.
      and_then (needs_reconcile intent_id) (\<lambda>_.
      and_then (park_attempt intent_id attempt_id detail) (\<lambda>_.
      and_then (map_error (\<lambda>e. RecDatabase (persistent_error_text X e))
         (release_pre_boundary_failure_with_conn clock attempt_id
            ''local submission failed before network boundary'')) (\<lambda>_.
      open_case_once (ci_account_id ci) (ci_token_id ci) intent_id (Some attempt_id)
        ''local_submission_failure'' detail)))))"

text \<open>\<open>Ok(false)\<close> drops the transaction.\<close>

definition mark_attempt_gtd_lookup_failed ::
  "ext \<Rightarrow> int \<Rightarrow> int \<Rightarrow> string \<Rightarrow> (reconcile_error, bool) db_act" where
  "mark_attempt_gtd_lookup_failed X intent_id attempt_id failure_detail = transaction_out
     (and_then (update_attempts (\<lambda>r. oa_id r = attempt_id \<and> oa_intent_id r = intent_id \<and>
            oa_status r = Accepted \<and> order_type_of_json X (oa_envelope_json r) = Some ''GTD'')
          (\<lambda>r. r\<lparr>oa_status := Uncertain, oa_failure_detail := Some failure_detail,
                 oa_submission_started_at := Some (case oa_submission_started_at r of
                    Some t \<Rightarrow> t | None \<Rightarrow> show_sql_time X (oa_created_at r))\<rparr>)) (\<lambda>n.
      and_then (assert_that (n = 1) (Inl False)) (\<lambda>_.
      and_then (map_error Inr (intent_row_of intent_id)) (\<lambda>ci.
      and_then (map_error Inr (needs_reconcile intent_id)) (\<lambda>_.
      and_then (map_error Inr (insert_linked_case (ci_account_id ci) (ci_token_id ci) intent_id (Some attempt_id)
          ''strict_query_failure'' failure_detail)) (\<lambda>_.
      ret True))))))"

section \<open>Recovering a lost submission response\<close>

record pending_recovery =
  pr_envelope :: prepared_order_envelope
  pr_window :: trade_history_window
  pr_venue_order_id :: "string option"

datatype lost_submission_outcome = LostRecovered string | LostNeedsReconcile

datatype operator_uncertain_lookup = OpRecovered string decimal decimal | OpNotFound

definition load_pending_trade_history_recovery ::
  "ext \<Rightarrow> int \<Rightarrow> int \<Rightarrow> timestamp \<Rightarrow> (reconcile_error, pending_recovery) db_act" where
  "load_pending_trade_history_recovery X intent_id attempt_id queried_at =
     and_then (reads (\<lambda>d. find_row (\<lambda>r. oa_id r = attempt_id \<and> oa_intent_id r = intent_id) (order_attempts d))) (\<lambda>row.
     and_then (or_raise AttemptNotFound row) (\<lambda>r.
     and_then (assert_that (in_flight r) RecInvalidAttemptTransition) (\<lambda>_.
     and_then (or_raise MissingSubmissionStartedAt (oa_submission_started_at r)) (\<lambda>raw.
     and_then (or_raise InvalidSubmissionStartedAt (parse_time X raw)) (\<lambda>started_at.
     and_then (assert_that (\<not> started_at > queried_at) InvalidSubmissionWindow) (\<lambda>_.
     and_then (or_raise InvalidEnvelope (envelope_of_json X (oa_envelope_json r))) (\<lambda>env.
     and_then (case trade_history_window_new (started_at - 1000 * trade_history_timestamp_skew_seconds) queried_at of
         Inl _ \<Rightarrow> raise InvalidSubmissionWindow | Inr w \<Rightarrow> ret w) (\<lambda>w.
     ret \<lparr>pr_envelope = env, pr_window = w, pr_venue_order_id = oa_venue_order_id r\<rparr>))))))))"

definition uncertain_of_account :: "int \<Rightarrow> int \<Rightarrow> db \<Rightarrow> order_attempt_row option" where
  "uncertain_of_account account_id attempt_id d =
     find_row (\<lambda>r. oa_id r = attempt_id \<and> attempt_of_account account_id d r \<and> oa_status r = Uncertain) (order_attempts d)"

definition operator_lookup ::
  "ext \<Rightarrow> trade_history_reader \<Rightarrow> pending_recovery \<Rightarrow> reconcile_error + trade_history_lookup" where
  "operator_lookup X reader pending =
     (let strict = (\<lambda>r. case r of Inl e \<Rightarrow> Inl (StrictTradeHistoryLookup (trade_history_error_text e)) | Inr l \<Rightarrow> Inr l)
      in if en_order_type (pr_envelope pending) = ''GTD'' then
           (case pr_venue_order_id pending of
              None \<Rightarrow> Inl MissingVenueOrderId
            | Some order_id \<Rightarrow>
                if trim order_id = [] then Inl MissingVenueOrderId
                else strict (lookup_gtd_maker_fill_in_trade_history X reader (pr_envelope pending) order_id (pr_window pending)))
         else strict (lookup_prepared_fak_in_trade_history X reader (pr_envelope pending) (pr_window pending)))"

definition inspect_uncertain_attempt_for_operator ::
  "ext \<Rightarrow> trade_history_reader \<Rightarrow> int \<Rightarrow> int \<Rightarrow> timestamp \<Rightarrow> (reconcile_error, operator_uncertain_lookup) db_act" where
  "inspect_uncertain_attempt_for_operator X reader account_id attempt_id queried_at =
     and_then (reads (uncertain_of_account account_id attempt_id)) (\<lambda>row.
     and_then (or_raise AttemptNotFound row) (\<lambda>r.
     and_then (load_pending_trade_history_recovery X (oa_intent_id r) attempt_id queried_at) (\<lambda>pending.
     and_then (lift_result (operator_lookup X reader pending)) (\<lambda>lookup.
     ret (case lookup of
            Recovered order_id qty notional \<Rightarrow> OpRecovered order_id qty notional
          | NotFound \<Rightarrow> OpNotFound)))))"

definition is_rec_database :: "reconcile_error \<Rightarrow> bool" where
  "is_rec_database e \<longleftrightarrow> (case e of RecDatabase _ \<Rightarrow> True | _ \<Rightarrow> False)"

definition block_submission ::
  "int \<Rightarrow> int \<Rightarrow> string \<Rightarrow> string \<Rightarrow> (reconcile_error, lost_submission_outcome) db_act" where
  "block_submission intent_id attempt_id case_type detail =
     and_then (open_reconciliation_case intent_id (Some attempt_id) case_type detail) (\<lambda>_. ret LostNeedsReconcile)"

definition recover_lost_submission_response ::
  "ext \<Rightarrow> trade_history_reader \<Rightarrow> int \<Rightarrow> int \<Rightarrow> timestamp \<Rightarrow> (reconcile_error, lost_submission_outcome) db_act" where
  "recover_lost_submission_response X reader intent_id attempt_id queried_at =
     handle is_rec_database (load_pending_trade_history_recovery X intent_id attempt_id queried_at)
       (\<lambda>e. block_submission intent_id attempt_id ''unknown_submission''
              (''submission recovery could not start: '' @ reconcile_error_text e))
       (\<lambda>pending. case lookup_prepared_fak_in_trade_history X reader (pr_envelope pending) (pr_window pending) of
          Inr (Recovered order_id _ _) \<Rightarrow>
            handle is_rec_database (persist_recovered_order_id intent_id attempt_id order_id)
              (\<lambda>e. block_submission intent_id attempt_id ''unknown_submission''
                     (''recovered order ID could not be persisted: '' @ reconcile_error_text e))
              (\<lambda>_. ret (LostRecovered order_id))
        | Inr NotFound \<Rightarrow>
            block_submission intent_id attempt_id ''unknown_submission''
              ''authenticated trade history contained no exact prepared-order identifier''
        | Inl e \<Rightarrow>
            block_submission intent_id attempt_id
              (case e of HistQuery _ \<Rightarrow> ''strict_query_failure'' | _ \<Rightarrow> ''unknown_submission'')
              (''strict trade-history recovery failed: '' @ trade_history_error_text e))"

section \<open>The recovery matrix\<close>

datatype recovery_action =
    MarkSubmittingThenSubmit
  | QueryFirst
  | ReconcileOrFinalize
  | MayPrepareNewAttempt
  | Blocked string

definition attempt_status_text :: "attempt_status \<Rightarrow> string" where
  "attempt_status_text st = (case st of
       Prepared \<Rightarrow> ''prepared'' | Submitting \<Rightarrow> ''submitting'' | Uncertain \<Rightarrow> ''uncertain''
     | Accepted \<Rightarrow> ''accepted'' | ARejected \<Rightarrow> ''rejected'' | Finalized \<Rightarrow> ''finalized'' | AError \<Rightarrow> ''error'')"

definition permitted_recovery_action :: "string \<Rightarrow> bool \<Rightarrow> int \<Rightarrow> recovery_action" where
  "permitted_recovery_action status rejection_is_definitive attempts =
     (if status = ''prepared'' then MarkSubmittingThenSubmit
      else if status = ''submitting'' \<or> status = ''uncertain'' then QueryFirst
      else if status = ''accepted'' \<or> status = ''finalized'' then ReconcileOrFinalize
      else if status = ''rejected'' then
        (if \<not> rejection_is_definitive then Blocked ''rejection is not definitive''
         else if attempts \<ge> max_attempts_per_window then Blocked ''retry budget exhausted''
         else MayPrepareNewAttempt)
      else Blocked ''unrecognized attempt status'')"

definition attempts_in_window :: "timestamp \<Rightarrow> int \<Rightarrow> (reconcile_error, int) db_act" where
  "attempts_in_window sql_now intent_id = reads (\<lambda>d. int (length (filter
     (\<lambda>r. oa_intent_id r = intent_id \<and> oa_created_at r \<ge> sql_now - 1000 * retry_window_seconds) (order_attempts d))))"

section \<open>Attempts only move forward\<close>

text \<open>
  \<open>may_follow s t\<close>: an attempt in status \<open>s\<close> may later be seen in status \<open>t\<close>.  Nothing leads back to
  \<open>Prepared\<close>, from a later status back to \<open>Submitting\<close>, or out of \<open>ARejected\<close>.
\<close>

definition stage :: "attempt_status \<Rightarrow> nat" where
  "stage st = (case st of Prepared \<Rightarrow> 0 | Submitting \<Rightarrow> 1 | Accepted \<Rightarrow> 2 | Uncertain \<Rightarrow> 3
     | Finalized \<Rightarrow> 4 | AError \<Rightarrow> 4 | ARejected \<Rightarrow> 5)"

definition may_follow :: "attempt_status \<Rightarrow> attempt_status \<Rightarrow> bool" where
  "may_follow s t \<longleftrightarrow> stage s \<le> stage t"

lemma may_follow_refl [simp]: "may_follow s s"
  by (simp add: may_follow_def)

lemma may_follow_trans: "may_follow s t \<Longrightarrow> may_follow t u \<Longrightarrow> may_follow s u"
  by (auto simp: may_follow_def)

lemma may_follow_Prepared: "may_follow s Prepared \<longleftrightarrow> s = Prepared"
  by (auto simp: may_follow_def stage_def split: attempt_status.splits)

lemma may_follow_Submitting: "may_follow s Submitting \<longleftrightarrow> s = Prepared \<or> s = Submitting"
  by (auto simp: may_follow_def stage_def split: attempt_status.splits)

text \<open>
  \<open>forward d d'\<close>: every attempt of \<open>d\<close> is still there, with its intent, its number and its envelope, and
  its status has only moved forward; an attempt that has been marked keeps its submission instant.
\<close>

definition same_attempt :: "order_attempt_row \<Rightarrow> order_attempt_row \<Rightarrow> bool" where
  "same_attempt r r' \<longleftrightarrow> oa_id r' = oa_id r \<and> oa_intent_id r' = oa_intent_id r \<and>
     oa_attempt_number r' = oa_attempt_number r \<and> oa_envelope_json r' = oa_envelope_json r \<and>
     may_follow (oa_status r) (oa_status r') \<and>
     (oa_status r \<noteq> Prepared \<and> oa_submission_started_at r \<noteq> None \<longrightarrow>
        oa_submission_started_at r' = oa_submission_started_at r)"

definition forward :: "db \<Rightarrow> db \<Rightarrow> bool" where
  "forward d d' \<longleftrightarrow> length (order_attempts d) \<le> length (order_attempts d') \<and>
     (\<forall>k < length (order_attempts d). same_attempt (order_attempts d ! k) (order_attempts d' ! k))"

lemma same_attempt_refl [simp]: "same_attempt r r"
  by (simp add: same_attempt_def)

lemma same_attempt_trans: "same_attempt r r' \<Longrightarrow> same_attempt r' r'' \<Longrightarrow> same_attempt r r''"
  unfolding same_attempt_def by (auto intro: may_follow_trans simp: may_follow_Prepared)

interpretation fwd: frame_rel forward
proof
  show "forward s s" for s by (simp add: forward_def)
  show "forward s s''" if "forward s s'" "forward s' s''" for s s' s''
    using that unfolding forward_def by (meson order_less_le_trans order_trans same_attempt_trans)
qed

lemma fwd_same: "order_attempts d' = order_attempts d \<Longrightarrow> forward d d'"
  by (simp add: forward_def)

lemma fwd_update_attempts:
  assumes "\<And>r. P r \<Longrightarrow> same_attempt r (f r)"
  shows "fwd.stays (update_attempts P f)"
  by (rule fwd.stays_update) (simp add: forward_def update_rows_def assms)

lemma fwd_insert_attempt: "fwd.stays (insert_attempt mk)"
  by (rule fwd.stays_insert) (simp add: forward_def nth_append)

lemma fwd_insert_new_attempt: "fwd.stays (insert_new_attempt err i n mk)"
  using fwd_insert_attempt [of mk]
  by (auto simp: fwd.stays_def insert_new_attempt_def fwd.R_refl)

lemma fwd_other_tables:
  "fwd.stays (update_intents P f)" "fwd.stays (insert_intent mk)"
  "fwd.stays (update_cases P' f')" "fwd.stays (insert_case mk')"
  "fwd.stays (update_reservations P'' f'')" "fwd.stays (insert_reservation mk'')"
  by (rule fwd.stays_update fwd.stays_insert, rule fwd_same, simp)+

lemma ro_fwd: "ro.stays m \<Longrightarrow> fwd.stays m"
  by (simp add: ro.stays_def fwd.stays_def fwd.R_refl)

lemmas fwd_prims = fwd_update_attempts fwd_insert_new_attempt fwd_other_tables

lemma forward_attempt:
  assumes "forward d d'" "oa \<in> set (order_attempts d)"
  obtains oa' where "oa' \<in> set (order_attempts d')" "same_attempt oa oa'"
proof -
  from assms(2) obtain k where k: "k < length (order_attempts d)" "oa = order_attempts d ! k"
    by (auto simp: in_set_conv_nth)
  with assms(1) have "same_attempt oa (order_attempts d' ! k)" "k < length (order_attempts d')"
    by (auto simp: forward_def)
  with that show thesis by (metis nth_mem)
qed

section \<open>The interface of a compare-and-set transition\<close>

text \<open>
  What the submission code relies on for each transition of an attempt: it changes exactly the attempt it
  names, only when that attempt belongs to the intent and is ready, and otherwise reports its refusal and
  writes nothing; and the change keeps the attempt's identity and moves its status forward.
\<close>

locale attempt_transition =
  fixes act :: "int \<Rightarrow> int \<Rightarrow> (reconcile_error, unit) db_act"
    and ready :: "order_attempt_row \<Rightarrow> bool"
    and change :: "order_attempt_row \<Rightarrow> order_attempt_row"
    and refused :: reconcile_error
  assumes act_eq: "act = transition_attempt ready change refused"
    and change_same: "ready r \<Longrightarrow> same_attempt r (change r)"
    and change_books: "attempt_identity (change r) = attempt_identity r"
begin

lemma exact:
  assumes "attempts.keyed d"
  shows "act i a d = (case attempt_by_id a d of
      None \<Rightarrow> (Inl refused, d)
    | Some r \<Rightarrow> if oa_intent_id r = i \<and> ready r
        then (Inr (), put_attempts (update_rows (\<lambda>r. oa_id r = a) change (order_attempts d)) d)
        else (Inl refused, d))"
proof (cases "attempt_by_id a d")
  case None
  then show ?thesis
    by (simp add: act_eq transition_attempt_def and_then_def assert_that_def attempt_by_id_def
        attempts.cas_missing)
next
  case (Some r)
  have u: "(update_attempts (\<lambda>r. oa_id r = a \<and> oa_intent_id r = i \<and> ready r) change d :: (reconcile_error + nat) \<times> db) =
      (if oa_intent_id r = i \<and> ready r then (Inr 1, put_attempts (update_rows (\<lambda>r. oa_id r = a) change (order_attempts d)) d)
       else (Inr 0, d))"
    by (rule attempts.cas_update [OF assms Some [unfolded attempt_by_id_def]])
  show ?thesis by (simp add: act_eq transition_attempt_def and_then_def assert_that_def Some u)
qed

lemma books: "keeps.stays (books X) (act i a)"
  unfolding act_eq transition_attempt_def
  by (intro keeps.stays_intros books_update_attempts change_books)

lemma moves_forward: "fwd.stays (act i a)"
  unfolding act_eq transition_attempt_def
  by (intro fwd.stays_intros fwd_update_attempts change_same) simp

lemma same_other: "act i a d = (r, d') \<Longrightarrow> \<exists>rs. d' = put_attempts rs d"
  by (auto simp: act_eq transition_attempt_def act_simps sql_update_def split: if_splits
      intro: attempts.put_rows [symmetric])

text \<open>A transition out of its own guard succeeds at most once.\<close>

lemma at_most_once:
  assumes "attempts.keyed d" "\<And>r. ready r \<Longrightarrow> \<not> ready (change r)" "act i a d = (Inr u, d')"
  shows "act j a d' = (Inl refused, d')"
proof -
  have k: "attempts.keyed d'"
  proof -
    have "map oa_id (order_attempts d') = map oa_id (order_attempts d)"
      using assms(3) change_books
      by (auto simp: exact [OF assms(1)] attempt_identity_def map_update_rows split: option.splits if_splits)
    then show ?thesis using assms(1) by (simp add: attempts.keyed_def)
  qed
  from assms(3) obtain r where r: "attempt_by_id a d = Some r" "ready r"
    and d': "d' = put_attempts (update_rows (\<lambda>r. oa_id r = a) change (order_attempts d)) d"
    by (auto simp: exact [OF assms(1)] split: option.splits if_splits)
  have "oa_id (change x) = oa_id x" for x using change_books [of x] by (simp add: attempt_identity_def)
  then have "attempt_by_id a d' = Some (change r)"
    using r(1) attempt_by_id_Some [OF r(1)] by (simp add: d' attempt_by_id_def find_row_update)
  then show ?thesis using assms(2) [OF r(2)] by (simp add: exact [OF k])
qed

end

interpretation mark_submitting: attempt_transition "\<lambda>i a. mark_attempt_submitting X i a started_at"
    "\<lambda>r. oa_status r = Prepared"
    "\<lambda>r. r\<lparr>oa_status := Submitting, oa_submission_started_at := Some (show_time X started_at)\<rparr>"
    RecInvalidAttemptTransition for X started_at
  by unfold_locales (auto simp: mark_attempt_submitting_def same_attempt_def may_follow_def stage_def
      attempt_identity_def intro!: ext)

interpretation mark_uncertain: attempt_transition
    "\<lambda>i a. mark_attempt_uncertain_after_submission_error i a detail" in_flight
    "\<lambda>r. r\<lparr>oa_status := Uncertain, oa_failure_detail := Some detail\<rparr>" RecInvalidAttemptTransition for detail
  by unfold_locales (auto simp: mark_attempt_uncertain_after_submission_error_def same_attempt_def may_follow_def
      stage_def in_flight_def attempt_identity_def intro!: ext)

interpretation mark_rejected: attempt_transition "\<lambda>i a. mark_attempt_rejected i a detail"
    "\<lambda>r. oa_status r = Submitting \<or> oa_status r = Prepared"
    "\<lambda>r. r\<lparr>oa_status := ARejected, oa_failure_detail := Some detail\<rparr>" RecInvalidAttemptTransition for detail
  by unfold_locales (auto simp: mark_attempt_rejected_def same_attempt_def may_follow_def
      stage_def attempt_identity_def intro!: ext)

interpretation persist_order_id: attempt_transition "\<lambda>i a. persist_recovered_order_id i a order_id"
    "\<lambda>r. in_flight r \<and> (oa_venue_order_id r = None \<or> oa_venue_order_id r = Some order_id)"
    "\<lambda>r. r\<lparr>oa_venue_order_id := Some order_id, oa_status := Uncertain\<rparr>" ConflictingRecoveredOrderId for order_id
  by unfold_locales (auto simp: persist_recovered_order_id_def same_attempt_def may_follow_def
      stage_def in_flight_def attempt_identity_def intro!: ext)

section \<open>Frames of the operations\<close>

lemma reconcile_ro:
  "ro.stays (intent_row_of i)" "ro.stays (gtd_order_id env)"
  "ro.stays (load_pending_trade_history_recovery X i a t)"
  "ro.stays (inspect_uncertain_attempt_for_operator X reader acc a t)" "ro.stays (attempts_in_window now i)"
proof -
  show "ro.stays (intent_row_of i)" unfolding intent_row_of_def by (intro ro.stays_intros)
  show "ro.stays (gtd_order_id env)" unfolding gtd_order_id_def by (intro ro.stays_intros)
  show l: "ro.stays (load_pending_trade_history_recovery X i a t)" for i a
    unfolding load_pending_trade_history_recovery_def by (intro ro.stays_intros)
  show "ro.stays (inspect_uncertain_attempt_for_operator X reader acc a t)"
    unfolding inspect_uncertain_attempt_for_operator_def by (intro ro.stays_intros l)
  show "ro.stays (attempts_in_window now i)" unfolding attempts_in_window_def by (intro ro.stays_intros)
qed

lemma parked: "in_flight r \<Longrightarrow> same_attempt r (r\<lparr>oa_status := Uncertain, oa_failure_detail := Some detail\<rparr>)"
  by (auto simp: same_attempt_def may_follow_def stage_def in_flight_def)


lemma fwd_case_steps:
  "fwd.stays (needs_reconcile i)" "fwd.stays (park_attempt i a detail)"
  "fwd.stays (insert_linked_case acc tok i att ct detail)" "fwd.stays (open_case_once acc tok i att ct detail)"
proof -
  show "fwd.stays (needs_reconcile i)" unfolding needs_reconcile_def by (rule fwd_prims)
  show "fwd.stays (park_attempt i a detail)" unfolding park_attempt_def by (rule fwd_prims) (simp add: parked)
  show l: "fwd.stays (insert_linked_case acc tok i att ct detail)"
    unfolding insert_linked_case_def by (intro fwd.stays_intros fwd_prims)
  show "fwd.stays (open_case_once acc tok i att ct detail)"
    unfolding open_case_once_def by (intro fwd.stays_intros l)
qed

lemma fwd_release: "fwd.stays (release_pre_boundary_failure_with_conn clock a reason)"
  unfolding release_pre_boundary_failure_with_conn_def by (intro fwd.stays_intros fwd_prims)

lemma fwd_reconcile:
  "fwd.stays (load_or_prepare_attempt X clock i n env)"
  "fwd.stays (open_reconciliation_case i att ct detail)"
  "fwd.stays (open_local_submission_failure_case X clock i a detail)"
  "fwd.stays (mark_attempt_gtd_lookup_failed X i a detail)"
  "fwd.stays (recover_lost_submission_response X reader i a t)"
proof -
  show "fwd.stays (load_or_prepare_attempt X clock i n env)"
    unfolding load_or_prepare_attempt_def by (intro fwd.stays_intros fwd_prims reconcile_ro [THEN ro_fwd])
  show o: "fwd.stays (open_reconciliation_case i att ct detail)" for att ct detail
    unfolding open_reconciliation_case_def by (intro fwd.stays_intros fwd_case_steps reconcile_ro [THEN ro_fwd])
  show "fwd.stays (open_local_submission_failure_case X clock i a detail)"
    unfolding open_local_submission_failure_case_def
    by (intro fwd.stays_intros fwd_case_steps fwd_release reconcile_ro [THEN ro_fwd])
  show "fwd.stays (mark_attempt_gtd_lookup_failed X i a detail)"
    unfolding mark_attempt_gtd_lookup_failed_def
    by (intro fwd.stays_intros fwd_case_steps fwd_update_attempts reconcile_ro [THEN ro_fwd])
      (auto simp: same_attempt_def may_follow_def stage_def split: option.splits)
  have b: "fwd.stays (block_submission i a ct detail)" for ct detail
    unfolding block_submission_def by (intro fwd.stays_intros o)
  show "fwd.stays (recover_lost_submission_response X reader i a t)"
    unfolding recover_lost_submission_response_def
    by (rule fwd.stays_handle)
      (auto intro!: fwd.stays_intros fwd.stays_handle b persist_order_id.moves_forward
        reconcile_ro(3) [THEN ro_fwd] split: trade_history_lookup.splits sum.splits)
qed

lemma books_case_steps:
  "keeps.stays (books X) (needs_reconcile i)" "keeps.stays (books X) (park_attempt i a detail)"
  "keeps.stays (books X) (insert_linked_case acc tok i att ct detail)"
  "keeps.stays (books X) (open_case_once acc tok i att ct detail)"
proof -
  show "keeps.stays (books X) (needs_reconcile i)" unfolding needs_reconcile_def
    by (rule books_prims) (simp add: intent_identity_def)
  show "keeps.stays (books X) (park_attempt i a detail)" unfolding park_attempt_def
    by (rule books_prims) (simp add: attempt_identity_def)
  show l: "keeps.stays (books X) (insert_linked_case acc tok i att ct detail)"
    unfolding insert_linked_case_def by (intro keeps.stays_intros books_other_tables)
  show "keeps.stays (books X) (open_case_once acc tok i att ct detail)"
    unfolding open_case_once_def by (intro keeps.stays_intros l)
qed

lemma books_release: "keeps.stays (books X) (release_pre_boundary_failure_with_conn clock a reason)"
  unfolding release_pre_boundary_failure_with_conn_def by (intro keeps.stays_intros books_other_tables)

lemma books_reconcile:
  assumes X: "dec_codec X"
  shows "keeps.stays (books X) (load_or_prepare_attempt Y clock i n env)"
  "keeps.stays (books X) (open_reconciliation_case i att ct detail)"
  "keeps.stays (books X) (open_local_submission_failure_case Y clock i a detail)"
  "keeps.stays (books X) (mark_attempt_gtd_lookup_failed Y i a detail)"
  "keeps.stays (books X) (recover_lost_submission_response Y reader i a t)"
proof -
  show "keeps.stays (books X) (load_or_prepare_attempt Y clock i n env)"
    unfolding load_or_prepare_attempt_def
    by (intro keeps.stays_intros books_insert_new_attempt X reconcile_ro [THEN ro_keeps]) (simp_all add: prepared_row_def)
  show o: "keeps.stays (books X) (open_reconciliation_case i att ct detail)" for att ct detail
    unfolding open_reconciliation_case_def by (intro keeps.stays_intros books_case_steps reconcile_ro [THEN ro_keeps])
  show "keeps.stays (books X) (open_local_submission_failure_case Y clock i a detail)"
    unfolding open_local_submission_failure_case_def
    by (intro keeps.stays_intros books_case_steps books_release reconcile_ro [THEN ro_keeps])
  show "keeps.stays (books X) (mark_attempt_gtd_lookup_failed Y i a detail)"
    unfolding mark_attempt_gtd_lookup_failed_def
    by (intro keeps.stays_intros books_case_steps books_update_attempts reconcile_ro [THEN ro_keeps])
      (simp add: attempt_identity_def)
  have b: "keeps.stays (books X) (block_submission i a ct detail)" for ct detail
    unfolding block_submission_def by (intro keeps.stays_intros o)
  show "keeps.stays (books X) (recover_lost_submission_response Y reader i a t)"
    unfolding recover_lost_submission_response_def
    by (rule keeps.stays_handle)
      (auto intro!: keeps.stays_intros keeps.stays_handle b persist_order_id.books
        reconcile_ro(3) [THEN ro_keeps] split: trade_history_lookup.splits sum.splits)
qed

section \<open>What an opened case leaves behind\<close>

definition case_blocked :: "int \<Rightarrow> int option \<Rightarrow> string \<Rightarrow> string \<Rightarrow> db \<Rightarrow> copy_intent_row \<Rightarrow> db" where
  "case_blocked i att ct detail d ci =
     d\<lparr>copy_intents := update_rows (\<lambda>r. ci_id r = i) (\<lambda>r. r\<lparr>ci_status := NeedsReconcile\<rparr>) (copy_intents d),
       order_attempts := (case att of None \<Rightarrow> order_attempts d
         | Some a \<Rightarrow> update_rows (\<lambda>r. oa_id r = a \<and> oa_intent_id r = i \<and> in_flight r)
             (\<lambda>r. r\<lparr>oa_status := Uncertain, oa_failure_detail := Some detail\<rparr>) (order_attempts d)),
       reconciliation_cases := reconciliation_cases d @
         (if list_ex (same_open_case i att ct) (reconciliation_cases d) then []
          else [new_case (ci_account_id ci) (ci_token_id ci) i att ct detail (next_id rc_id (reconciliation_cases d))])\<rparr>"

lemma open_case_once_ok:
  "open_case_once acc tok i att ct detail d = (Inr u, d') \<longleftrightarrow>
     (list_ex (same_open_case i att ct) (reconciliation_cases d) \<or> (\<forall>a. att = Some a \<longrightarrow> attempt_by_id a d \<noteq> None)) \<and>
     d' = put_cases (reconciliation_cases d @
         (if list_ex (same_open_case i att ct) (reconciliation_cases d) then []
          else [new_case acc tok i att ct detail (next_id rc_id (reconciliation_cases d))])) d"
  by (auto simp: open_case_once_def insert_linked_case_def act_simps sql_insert_def Let_def split: option.splits if_splits)

lemma open_case_ok:
  assumes "open_reconciliation_case i att ct detail d = (Inr u, d')"
  obtains ci where "intent_by_id i d = Some ci" "d' = case_blocked i att ct detail d ci"
    "list_ex (same_open_case i att ct) (reconciliation_cases d) \<or> (\<forall>a. att = Some a \<longrightarrow> attempt_by_id a d \<noteq> None)"
proof -
  have p: "(attempt_by_id a (put_attempts (update_rows P f (order_attempts d)) x) = None) = (attempt_by_id a d = None)"
    if "\<And>r. oa_id (f r) = oa_id r" for a P f x
    using that by (simp add: attempt_by_id_def find_row_update)
  from assms obtain ci where ci: "intent_by_id i d = Some ci"
    and rest: "and_then (needs_reconcile i) (\<lambda>_.
      and_then (case att of None \<Rightarrow> ret 0 | Some a \<Rightarrow> park_attempt i a detail) (\<lambda>_.
      open_case_once (ci_account_id ci) (ci_token_id ci) i att ct detail)) d = (Inr u, d')"
    unfolding open_reconciliation_case_def transaction_ok intent_row_of_def and_then_ok [of "and_then _ _"]
      and_then_ok [of "reads _"] reads_ok or_raise_ok
    by (elim exE conjE) (rule that; simp)
  show thesis
  proof (cases att)
    case None
    with rest show ?thesis
      by (intro that [OF ci])
        (auto simp: and_then_ok needs_reconcile_def intents.update_ok ret_ok open_case_once_ok case_blocked_def
          put_intents_def put_cases_def)
  next
    case (Some a)
    with rest p [of "\<lambda>r. r\<lparr>oa_status := Uncertain, oa_failure_detail := Some detail\<rparr>"] show ?thesis
      by (intro that [OF ci])
        (auto simp: and_then_ok needs_reconcile_def park_attempt_def intents.update_ok attempts.update_ok
          open_case_once_ok case_blocked_def put_intents_def put_cases_def put_attempts_def
          attempt_by_id_def find_row_update)
  qed
qed

lemma update_rows_idem:
  "(\<And>r. P r \<Longrightarrow> f (f r) = f r) \<Longrightarrow> update_rows P f (update_rows P f rs) = update_rows P f rs"
  by (induction rs) auto

lemma open_case_eq:
  assumes "intent_by_id i d = Some ci"
    "list_ex (same_open_case i att ct) (reconciliation_cases d) \<or> (\<forall>a. att = Some a \<longrightarrow> attempt_by_id a d \<noteq> None)"
  shows "open_reconciliation_case i att ct detail d = (Inr (), case_blocked i att ct detail d ci)"
proof -
  define d1 where "d1 = put_intents (update_rows (\<lambda>r. ci_id r = i) (\<lambda>r. r\<lparr>ci_status := NeedsReconcile\<rparr>) (copy_intents d)) d"
  define d2 where "d2 = (case att of None \<Rightarrow> d1 | Some a \<Rightarrow> put_attempts
      (update_rows (\<lambda>r. oa_id r = a \<and> oa_intent_id r = i \<and> in_flight r)
             (\<lambda>r. r\<lparr>oa_status := Uncertain, oa_failure_detail := Some detail\<rparr>) (order_attempts d)) d1)"
  have d2: "reconciliation_cases d2 = reconciliation_cases d"
    "attempt_by_id a d2 = None \<longleftrightarrow> attempt_by_id a d = None" for a
    by (auto simp: d2_def d1_def attempt_by_id_def find_row_update split: option.splits)
  have "open_case_once (ci_account_id ci) (ci_token_id ci) i att ct detail d2 =
      (Inr (), put_cases (reconciliation_cases d @ (if list_ex (same_open_case i att ct) (reconciliation_cases d) then []
          else [new_case (ci_account_id ci) (ci_token_id ci) i att ct detail (next_id rc_id (reconciliation_cases d))])) d2)"
    using assms(2) by (simp add: open_case_once_ok d2)
  moreover have "put_cases (reconciliation_cases d @ (if list_ex (same_open_case i att ct) (reconciliation_cases d) then []
          else [new_case (ci_account_id ci) (ci_token_id ci) i att ct detail (next_id rc_id (reconciliation_cases d))])) d2
      = case_blocked i att ct detail d ci"
    by (simp add: d2_def d1_def case_blocked_def put_defs split: option.splits)
  moreover have "(case att of None \<Rightarrow> ret 0 | Some a \<Rightarrow> park_attempt i a detail) d1 =
      (Inr (case att of None \<Rightarrow> 0 | Some a \<Rightarrow> length (filter (\<lambda>r. oa_id r = a \<and> oa_intent_id r = i \<and> in_flight r) (order_attempts d))),
       d2 :: db)"
    by (simp add: d2_def d1_def ret_def park_attempt_def sql_update_def split: option.splits)
  moreover have "needs_reconcile i d = (Inr (length (filter (\<lambda>r. ci_id r = i) (copy_intents d))), d1)"
    by (simp add: needs_reconcile_def sql_update_def d1_def)
  ultimately show ?thesis
    by (simp add: open_reconciliation_case_def transaction_def intent_row_of_def and_then_def reads_def or_raise_def
        assms(1))
qed

text \<open>Every case is filed under the account of its intent.\<close>

definition cases_owned :: "db \<Rightarrow> bool" where
  "cases_owned d \<longleftrightarrow> (\<forall>r \<in> set (reconciliation_cases d). \<forall>j. rc_intent_id r = Some j \<longrightarrow>
     (\<exists>ci. intent_by_id j d = Some ci \<and> rc_account_id r = ci_account_id ci))"

lemma case_blocked_intent:
  assumes "intent_by_id i d = Some ci"
  shows "intent_by_id j (case_blocked i att ct detail d ci) =
     map_option (\<lambda>r. if ci_id r = i then r\<lparr>ci_status := NeedsReconcile\<rparr> else r) (intent_by_id j d)"
  by (simp add: case_blocked_def intent_by_id_def find_row_update)

lemma case_blocked_case:
  "\<exists>r \<in> set (reconciliation_cases (case_blocked i att ct detail d ci)). same_open_case i att ct r"
  by (auto simp: case_blocked_def list_ex_iff same_open_case_def new_case_def)

lemma cases_owned_blocked:
  assumes "cases_owned d" "intent_by_id i d = Some ci"
  shows "cases_owned (case_blocked i att ct detail d ci)"
proof -
  have old: "\<exists>ci'. intent_by_id j (case_blocked i att ct detail d ci) = Some ci' \<and> acc = ci_account_id ci'"
    if "intent_by_id j d = Some x" "acc = ci_account_id x" for j x acc
    using that by (simp add: case_blocked_intent [OF assms(2)])
  show ?thesis
    unfolding cases_owned_def
  proof (intro ballI allI impI)
    fix r j assume r: "r \<in> set (reconciliation_cases (case_blocked i att ct detail d ci))" "rc_intent_id r = Some j"
    show "\<exists>ci'. intent_by_id j (case_blocked i att ct detail d ci) = Some ci' \<and> rc_account_id r = ci_account_id ci'"
    proof (cases "r \<in> set (reconciliation_cases d)")
      case True
      with assms(1) r(2) obtain x where "intent_by_id j d = Some x" "rc_account_id r = ci_account_id x"
        unfolding cases_owned_def by blast
      then show ?thesis by (rule old)
    next
      case False
      with r have "rc_account_id r = ci_account_id ci" "j = i"
        by (auto simp: case_blocked_def new_case_def split: if_splits)
      with old assms(2) show ?thesis by simp
    qed
  qed
qed

section \<open>Properties\<close>

text \<open>
  C33. One envelope per attempt.  Preparing an attempt either reads back the envelope already persisted for
  this intent and number and writes nothing, or persists the candidate as one new \<open>prepared\<close> row (with the
  precomputed order id recorded up front for a GTD order); and from then on every caller, whatever candidate
  it brings, gets that same envelope and writes nothing.  The hypothesis says that the candidate survives
  serialization.
\<close>

theorem prepare_once:
  assumes p: "load_or_prepare_attempt X clock i n candidate d = (Inr env, d')"
    and rt: "\<And>j. envelope_to_json X candidate = Some j \<Longrightarrow> envelope_of_json X j = Some candidate"
  shows "(case attempt_numbered i n d of
      Some r \<Rightarrow> d' = d \<and> envelope_of_json X (oa_envelope_json r) = Some env
    | None \<Rightarrow> env = candidate \<and> intent_by_id i d \<noteq> None \<and> (\<exists>j oid. envelope_to_json X candidate = Some j \<and>
        (en_order_type candidate = ''GTD'' \<and> oid = Some (en_expected_taker_order_id candidate) \<and>
           en_expected_taker_order_id candidate \<noteq> [] \<or> en_order_type candidate \<noteq> ''GTD'' \<and> oid = None) \<and>
        d' = d\<lparr>order_attempts := order_attempts d @ [prepared_row clock i n j candidate oid (next_id oa_id (order_attempts d))]\<rparr>))
    \<and> load_or_prepare_attempt X clock' i n other d' = (Inr env, d')"
proof (cases "attempt_numbered i n d")
  case (Some r)
  with p have "d' = d" "envelope_of_json X (oa_envelope_json r) = Some env"
    by (auto simp: load_or_prepare_attempt_def transaction_ok act_ok)
  with Some show ?thesis
    by (simp add: load_or_prepare_attempt_def transaction_def act_simps)
next
  case None
  let ?row = "\<lambda>j oid. prepared_row clock i n j candidate oid (next_id oa_id (order_attempts d))"
  from p None obtain j oid d1 k where j: "envelope_to_json X candidate = Some j" "env = candidate"
    and g1: "gtd_order_id candidate d = (Inr oid, d1)"
    and ins1: "insert_new_attempt RecDatabase i n (prepared_row clock i n j candidate oid) d1 = (Inr k, d')"
    by (auto simp: load_or_prepare_attempt_def transaction_ok act_ok)
  have "d1 = d" by (rule ro_state [OF reconcile_ro(2) g1])
  note g = g1 [unfolded this] and ins = ins1 [unfolded this]
  have d': "d' = d\<lparr>order_attempts := order_attempts d @ [?row j oid]\<rparr>" and i: "intent_by_id i d \<noteq> None"
    using ins by (auto simp: insert_new_attempt_def sql_insert_def Let_def put_attempts_def split: if_splits)
  have oid: "en_order_type candidate = ''GTD'' \<and> oid = Some (en_expected_taker_order_id candidate) \<and>
           en_expected_taker_order_id candidate \<noteq> [] \<or> en_order_type candidate \<noteq> ''GTD'' \<and> oid = None"
    using g by (auto simp: gtd_order_id_def Let_def act_simps split: if_splits)
  have "attempt_numbered i n d' = Some (?row j oid)"
    using None by (simp add: attempt_numbered_def d' find_row_append prepared_row_def)
  then have "load_or_prepare_attempt X clock' i n other d' = (Inr env, d')"
    using rt [OF j(1)] j(2)
    by (simp add: load_or_prepare_attempt_def transaction_def act_simps prepared_row_def)
  then show ?thesis using None j oid d' i by auto
qed

theorem prepare_once_witness:
  "load_or_prepare_attempt ext0 0 1 2 envelope0 db1 =
     (Inr envelope0, snd (load_or_prepare_attempt ext0 0 1 2 envelope0 db1)) \<and>
   load_or_prepare_attempt ext0 9 1 2 (envelope0\<lparr>en_salt := 7\<rparr>) (snd (load_or_prepare_attempt ext0 0 1 2 envelope0 db1)) =
     (Inr envelope0, snd (load_or_prepare_attempt ext0 0 1 2 envelope0 db1))"
proof -
  have p: "load_or_prepare_attempt ext0 0 1 2 envelope0 db1 =
     (Inr envelope0, snd (load_or_prepare_attempt ext0 0 1 2 envelope0 db1))"
    by (simp add: load_or_prepare_attempt_def transaction_def act_simps attempt_numbered_def gtd_order_id_def
        insert_new_attempt_def sql_insert_def Let_def intent_by_id_def sample_defs)
  with prepare_once [OF p] show ?thesis by simp
qed

text \<open>
  An opened case blocks the account.  Opening a reconciliation case moves its intent to
  \<open>needs_reconcile\<close> and leaves exactly one unresolved case of that kind more than none: the account is
  no longer clear for startup, its fuse cannot be resumed, and opening the same case again changes nothing.
\<close>

theorem open_case_blocks_account:
  assumes o: "open_reconciliation_case i att ct detail d = (Inr u, d')" and own: "cases_owned d"
  shows "\<exists>ci. intent_by_id i d = Some ci
    \<and> map_option ci_status (intent_by_id i d') = Some NeedsReconcile
    \<and> length (filter (same_open_case i att ct) (reconciliation_cases d')) =
        max 1 (length (filter (same_open_case i att ct) (reconciliation_cases d)))
    \<and> \<not> startup_clear (ci_account_id ci) d'
    \<and> (\<forall>why. fst (resume_fuse (ci_account_id ci) why d') \<noteq> Inr ())
    \<and> cases_owned d'
    \<and> open_reconciliation_case i att ct detail d' = (Inr (), d')"
proof -
  obtain ci where ci: "intent_by_id i d = Some ci" and d': "d' = case_blocked i att ct detail d ci"
    by (rule open_case_ok [OF o])
  let ?ci = "ci\<lparr>ci_status := NeedsReconcile\<rparr>"
  have ci': "intent_by_id i d' = Some ?ci"
    using ci intent_by_id_Some [OF ci] by (simp add: d' case_blocked_intent [OF ci])
  have own': "cases_owned d'" unfolding d' by (rule cases_owned_blocked [OF own ci])
  obtain r where r: "r \<in> set (reconciliation_cases d')" "same_open_case i att ct r"
    using case_blocked_case [of i att ct detail d ci] d' by blast
  have "rc_account_id r = ci_account_id ci" using own' r ci' by (auto simp: cases_owned_def same_open_case_def)
  then have nc: "\<not> startup_clear (ci_account_id ci) d'" using r by (auto simp: startup_clear_def same_open_case_def)
  then have res: "fst (resume_fuse (ci_account_id ci) why d') \<noteq> Inr ()" for why
    by (auto simp: resume_fuse_def act_simps non_empty_def assert_startup_clear_exact Let_def split: if_splits)
  have len: "length (filter (same_open_case i att ct) (reconciliation_cases d')) =
        max 1 (length (filter (same_open_case i att ct) (reconciliation_cases d)))"
  proof (cases "list_ex (same_open_case i att ct) (reconciliation_cases d)")
    case True
    then have "filter (same_open_case i att ct) (reconciliation_cases d) \<noteq> []"
      by (auto simp: list_ex_iff filter_empty_conv)
    then have "1 \<le> length (filter (same_open_case i att ct) (reconciliation_cases d))" by (simp add: Suc_leI)
    with True show ?thesis by (simp add: d' case_blocked_def)
  next
    case False
    then have "filter (same_open_case i att ct) (reconciliation_cases d) = []"
      by (auto simp: list_ex_iff filter_empty_conv)
    with False show ?thesis by (simp add: d' case_blocked_def same_open_case_def new_case_def)
  qed
  have dup: "list_ex (same_open_case i att ct) (reconciliation_cases d')" using r by (auto simp: list_ex_iff)
  have "open_reconciliation_case i att ct detail d' = (Inr (), case_blocked i att ct detail d' ?ci)"
    by (rule open_case_eq [OF ci']) (simp add: dup)
  also have "case_blocked i att ct detail d' ?ci = d'"
    by (subst case_blocked_def, simp add: dup)
      (simp add: d' case_blocked_def update_rows_idem split: option.splits)
  finally have "open_reconciliation_case i att ct detail d' = (Inr (), d')" .
  with ci ci' len nc res own' show ?thesis by auto
qed

theorem open_case_blocks_account_witness:
  "\<not> startup_clear 1 (snd (open_reconciliation_case 1 (Some 1) ''unknown_submission'' ''lost'' db1))"
proof -
  have ci: "intent_by_id 1 db1 = Some intent0" "ci_account_id intent0 = 1"
    by (simp_all add: intent_by_id_def sample_defs)
  have "attempt_by_id 1 db1 \<noteq> None" by (simp add: attempt_by_id_def sample_defs)
  from open_case_eq [OF ci(1), of "Some 1" "''unknown_submission''" "''lost''"] this
  have o: "open_reconciliation_case 1 (Some 1) ''unknown_submission'' ''lost'' db1 =
      (Inr (), snd (open_reconciliation_case 1 (Some 1) ''unknown_submission'' ''lost'' db1))" by simp
  have "cases_owned db1" by (simp add: cases_owned_def sample_defs)
  from open_case_blocks_account [OF o this] show ?thesis using ci by auto
qed

text \<open>What every outcome of the lost-response recovery comes down to.\<close>

lemma block_submission_ok:
  "block_submission i a ct detail d = (Inr out, d') \<longleftrightarrow>
     out = LostNeedsReconcile \<and> open_reconciliation_case i (Some a) ct detail d = (Inr (), d')"
  by (auto simp: block_submission_def act_ok)

lemma recover_lost_ok:
  assumes k: "attempts.keyed d" and r: "recover_lost_submission_response X reader i a t d = (Inr out, d')"
  obtains (recovered) pending order_id q n oa where "out = LostRecovered order_id"
      "load_pending_trade_history_recovery X i a t d = (Inr pending, d)"
      "lookup_prepared_fak_in_trade_history X reader (pr_envelope pending) (pr_window pending) = Inr (Recovered order_id q n)"
      "attempt_by_id a d = Some oa" "oa_intent_id oa = i" "in_flight oa"
      "oa_venue_order_id oa = None \<or> oa_venue_order_id oa = Some order_id"
      "d' = put_attempts (update_rows (\<lambda>r. oa_id r = a) (\<lambda>r. r\<lparr>oa_venue_order_id := Some order_id, oa_status := Uncertain\<rparr>)
        (order_attempts d)) d"
    | (blocked) ct detail where "out = LostNeedsReconcile"
      "open_reconciliation_case i (Some a) ct detail d = (Inr (), d')"
proof -
  obtain res d1 where l: "load_pending_trade_history_recovery X i a t d = (res, d1)" by fastforce
  have d1: "d1 = d" by (rule ro_state [OF reconcile_ro(3) l])
  show thesis
  proof (cases res)
    case (Inl e)
    with r l d1 have "block_submission i a ''unknown_submission''
        (''submission recovery could not start: '' @ reconcile_error_text e) d = (Inr out, d')"
      by (simp add: recover_lost_submission_response_def handle_def split: if_splits)
    then show ?thesis using blocked by (auto simp: block_submission_ok)
  next
    case (Inr pending)
    note l = l [unfolded Inr d1]
    let ?look = "lookup_prepared_fak_in_trade_history X reader (pr_envelope pending) (pr_window pending)"
    show ?thesis
    proof (cases "\<exists>order_id q n. ?look = Inr (Recovered order_id q n)")
      case False
      then have "\<exists>ct detail. block_submission i a ct detail d = (Inr out, d')"
        using r l by (cases ?look) (auto simp: recover_lost_submission_response_def handle_def
            split: trade_history_lookup.splits)
      then show ?thesis using blocked by (auto simp: block_submission_ok)
    next
      case True
      then obtain order_id q n where look: "?look = Inr (Recovered order_id q n)" by blast
      note e = persist_order_id.exact [OF k, of i a order_id]
      from r have h: "handle is_rec_database (persist_recovered_order_id i a order_id)
          (\<lambda>e. block_submission i a ''unknown_submission''
             (''recovered order ID could not be persisted: '' @ reconcile_error_text e))
          (\<lambda>_. ret (LostRecovered order_id)) d = (Inr out, d')"
        by (simp add: recover_lost_submission_response_def handle_def [of _ "load_pending_trade_history_recovery X i a t"] l look)
      show ?thesis
      proof (cases "\<exists>oa. attempt_by_id a d = Some oa \<and> oa_intent_id oa = i \<and> in_flight oa \<and>
          (oa_venue_order_id oa = None \<or> oa_venue_order_id oa = Some order_id)")
        case True
        then obtain oa where oa: "attempt_by_id a d = Some oa" "oa_intent_id oa = i" "in_flight oa"
          "oa_venue_order_id oa = None \<or> oa_venue_order_id oa = Some order_id" by blast
        with h e have "out = LostRecovered order_id" "d' = put_attempts (update_rows (\<lambda>r. oa_id r = a)
            (\<lambda>r. r\<lparr>oa_venue_order_id := Some order_id, oa_status := Uncertain\<rparr>) (order_attempts d)) d"
          by (auto simp: handle_def ret_def)
        then show ?thesis by (intro recovered [OF _ l look oa])
      next
        case False
        then have "persist_recovered_order_id i a order_id d = (Inl ConflictingRecoveredOrderId, d)"
          unfolding e by (auto split: option.splits)
        with h have "block_submission i a ''unknown_submission''
             (''recovered order ID could not be persisted: '' @ reconcile_error_text ConflictingRecoveredOrderId) d = (Inr out, d')"
          by (simp add: handle_def is_rec_database_def)
        then show ?thesis using blocked by (auto simp: block_submission_ok)
      qed
    qed
  qed
qed

lemma case_blocked_frame [simp]:
  "position_lots (case_blocked i att ct detail d ci) = position_lots d"
  "budget_reservations (case_blocked i att ct detail d ci) = budget_reservations d"
  by (simp_all add: case_blocked_def)

text \<open>
  C17. A lost response is recovered exactly or blocks.  An order id is attached to the attempt only when
  authenticated trade history identified the prepared envelope, the attempt was still in flight and recorded
  no other id, and then nothing else changes and the attempt stays \<open>uncertain\<close>; in every other case the
  intent is moved to \<open>needs_reconcile\<close> and an unresolved case names the attempt.  Neither outcome changes a
  lot or a budget reservation, and neither makes the attempt submittable again.
\<close>

theorem lost_response_recovered_or_blocked:
  assumes k: "attempts.keyed d" and r: "recover_lost_submission_response X reader i a t d = (Inr out, d')"
  shows "(case out of
      LostRecovered order_id \<Rightarrow>
        (\<exists>pending q n oa. load_pending_trade_history_recovery X i a t d = (Inr pending, d) \<and>
           lookup_prepared_fak_in_trade_history X reader (pr_envelope pending) (pr_window pending)
             = Inr (Recovered order_id q n) \<and>
           attempt_by_id a d = Some oa \<and> in_flight oa \<and>
           (oa_venue_order_id oa = None \<or> oa_venue_order_id oa = Some order_id) \<and>
           d' = d\<lparr>order_attempts := update_rows (\<lambda>r. oa_id r = a)
              (\<lambda>r. r\<lparr>oa_venue_order_id := Some order_id, oa_status := Uncertain\<rparr>) (order_attempts d)\<rparr>)
    | LostNeedsReconcile \<Rightarrow>
        map_option ci_status (intent_by_id i d') = Some NeedsReconcile \<and>
        (\<exists>c \<in> set (reconciliation_cases d'). rc_intent_id c = Some i \<and> rc_order_attempt_id c = Some a \<and>
           rc_resolved_at c = None))
    \<and> position_lots d' = position_lots d \<and> budget_reservations d' = budget_reservations d
    \<and> forward d d'"
proof -
  have f: "forward d d'" by (rule fwd.staysD [OF fwd_reconcile(5) r])
  show ?thesis
    using k r
  proof (cases rule: recover_lost_ok)
    case (recovered pending order_id q n oa)
    then show ?thesis using f by (auto simp: put_attempts_def)
  next
    case (blocked ct detail)
    obtain ci where ci: "intent_by_id i d = Some ci" and d': "d' = case_blocked i (Some a) ct detail d ci"
      by (rule open_case_ok [OF blocked(2)])
    have "map_option ci_status (intent_by_id i d') = Some NeedsReconcile"
      using ci intent_by_id_Some [OF ci] by (simp add: d' case_blocked_intent [OF ci])
    moreover have "\<exists>c \<in> set (reconciliation_cases d'). rc_intent_id c = Some i \<and> rc_order_attempt_id c = Some a \<and>
           rc_resolved_at c = None"
      using case_blocked_case [of i "Some a" ct detail d ci] by (auto simp: d' same_open_case_def)
    ultimately show ?thesis using f blocked(1) by (simp add: d')
  qed
qed

definition no_trades :: trade_history_reader where
  "no_trades = \<lparr>trades_for_token_between = (\<lambda>_ _ _. Inr []), trades_between_unfiltered = (\<lambda>_ _ _. Inr [])\<rparr>"

theorem lost_response_recovered_or_blocked_witness:
  "\<exists>d'. recover_lost_submission_response ext0 no_trades 1 1 5 db1 = (Inr LostNeedsReconcile, d') \<and>
     map_option ci_status (intent_by_id 1 d') = Some NeedsReconcile"
proof -
  have k: "attempts.keyed db1" by (simp add: attempts.keyed_def sample_defs)
  have ci: "intent_by_id 1 db1 = Some intent0" by (simp add: intent_by_id_def sample_defs)
  have a: "\<forall>a. Some (1 :: int) = Some a \<longrightarrow> attempt_by_id a db1 \<noteq> None" by (simp add: attempt_by_id_def sample_defs)
  have l: "load_pending_trade_history_recovery ext0 1 1 5 db1 = (Inl RecInvalidAttemptTransition, db1)"
    by (simp add: load_pending_trade_history_recovery_def act_simps sample_defs in_flight_def)
  define d' where "d' = case_blocked 1 (Some 1) ''unknown_submission''
    (''submission recovery could not start: '' @ reconcile_error_text RecInvalidAttemptTransition) db1 intent0"
  have r: "recover_lost_submission_response ext0 no_trades 1 1 5 db1 = (Inr LostNeedsReconcile, d')"
    unfolding d'_def
    using open_case_eq [OF ci disjI2 [OF a]]
    by (simp add: recover_lost_submission_response_def handle_def l is_rec_database_def block_submission_def act_simps)
  with lost_response_recovered_or_blocked [OF k r] show ?thesis by auto
qed

text \<open>
  A submission that fails before the network boundary is filed and refunded together.  Either the call
  fails and nothing is written, or the attempt's budget reservation is no longer held, the intent needs
  reconciliation and an unresolved \<open>local_submission_failure\<close> case names the attempt, all in one commit;
  reservations of other attempts and the lots are untouched.
\<close>

theorem local_failure_atomic:
  assumes "open_local_submission_failure_case X clock i a detail d = (r, d')"
  shows "(case r of
      Inl _ \<Rightarrow> d' = d
    | Inr _ \<Rightarrow>
        (\<forall>b \<in> set (budget_reservations d'). br_order_attempt_id b = a \<longrightarrow> br_state b \<noteq> Reserved) \<and>
        filter (\<lambda>b. br_order_attempt_id b \<noteq> a) (budget_reservations d') =
          filter (\<lambda>b. br_order_attempt_id b \<noteq> a) (budget_reservations d) \<and>
        map_option ci_status (intent_by_id i d') = Some NeedsReconcile \<and>
        (\<exists>c \<in> set (reconciliation_cases d'). rc_intent_id c = Some i \<and> rc_order_attempt_id c = Some a \<and>
           rc_case_type c = ''local_submission_failure'' \<and> rc_resolved_at c = None) \<and>
        position_lots d' = position_lots d)"
proof (cases r)
  case (Inl e)
  with assms show ?thesis
    using transaction_error by (auto simp: open_local_submission_failure_case_def)
next
  case (Inr u)
  let ?rel = "\<lambda>x reason. put_reservations (update_rows (\<lambda>r. br_order_attempt_id r = a \<and> br_state r = Reserved)
      (\<lambda>r. r\<lparr>br_state := ReleasedPreBoundary, br_release_reason := Some reason, br_released_at := Some clock\<rparr>)
      (budget_reservations x)) x"
  from assms [unfolded Inr] obtain ci d0 n0 e1 n1 e2 n2 e3 u3 where ci': "intent_row_of i d = (Inr ci, d0)"
    and s1: "needs_reconcile i d0 = (Inr n1, e1)" and s2: "park_attempt i a detail e1 = (Inr n2, e2)"
    and s3: "map_error (\<lambda>e. RecDatabase (persistent_error_text X e)) (release_pre_boundary_failure_with_conn clock a
        ''local submission failed before network boundary'') e2 = (Inr u3, e3)"
    and c': "open_case_once (ci_account_id ci) (ci_token_id ci) i (Some a) ''local_submission_failure'' detail e3 = (Inr u, d')"
    unfolding open_local_submission_failure_case_def transaction_ok and_then_ok by blast
  have ci: "intent_by_id i d = Some ci" and d0: "d0 = d" using ci' by (auto simp: intent_row_of_def act_ok)
  define d1 where "d1 = put_attempts (update_rows (\<lambda>r. oa_id r = a \<and> oa_intent_id r = i \<and> in_flight r)
        (\<lambda>r. r\<lparr>oa_status := Uncertain, oa_failure_detail := Some detail\<rparr>) (order_attempts d))
        (put_intents (update_rows (\<lambda>r. ci_id r = i) (\<lambda>r. r\<lparr>ci_status := NeedsReconcile\<rparr>) (copy_intents d)) d)"
  note d1 = this
  have e2: "e2 = d1" using s1 s2
    by (simp add: needs_reconcile_def park_attempt_def intents.update_ok attempts.update_ok d1 d0)
  obtain reason where e3: "e3 = ?rel d1 reason"
    using s3 by (auto simp: map_error_ok release_pre_boundary_failure_with_conn_def act_ok reservations.update_ok e2)
  define d2 where "d2 = ?rel d1 reason"
  note d2 = this and c = c' [unfolded e3, folded d2_def]
  have d': "budget_reservations d' = budget_reservations d2" "copy_intents d' = copy_intents d2"
    "position_lots d' = position_lots d2"
    using c by (auto simp: open_case_once_ok)
  have n: "map_option ci_status (intent_by_id i d') = Some NeedsReconcile"
    using ci intent_by_id_Some [OF ci] by (simp add: intent_by_id_def d' d2 d1 find_row_update)
  have cs: "\<exists>c \<in> set (reconciliation_cases d'). same_open_case i (Some a) ''local_submission_failure'' c"
    using c by (auto simp: open_case_once_ok list_ex_iff same_open_case_def new_case_def split: if_splits)
  have f: "filter (\<lambda>b. br_order_attempt_id b \<noteq> a) (update_rows (\<lambda>r. br_order_attempt_id r = a \<and> br_state r = Reserved)
      (\<lambda>r. r\<lparr>br_state := ReleasedPreBoundary, br_release_reason := Some reason, br_released_at := Some clock\<rparr>) rs) =
      filter (\<lambda>b. br_order_attempt_id b \<noteq> a) rs" for rs
    by (induction rs) auto
  show ?thesis
    using n cs by (auto simp: Inr d' d2 d1 f ball_update_rows same_open_case_def)
qed

theorem local_failure_atomic_witness:
  "fst (open_local_submission_failure_case ext0 9 1 1 ''refused'' reserved_db0) = Inr () \<and>
   map_option ci_status (intent_by_id 1 (snd (open_local_submission_failure_case ext0 9 1 1 ''refused'' reserved_db0))) =
     Some NeedsReconcile"
proof -
  have f: "fst (open_local_submission_failure_case ext0 9 1 1 ''refused'' reserved_db0) = Inr ()"
    by (simp add: open_local_submission_failure_case_def transaction_fst act_simps intent_row_of_def intent_by_id_def
        needs_reconcile_def park_attempt_def sql_update_def sql_insert_def reserved_db0_def sample_defs put_defs
        release_pre_boundary_failure_with_conn_def open_case_once_def insert_linked_case_def attempt_by_id_def
        non_empty_def trim_def is_space_def Let_def)
  with local_failure_atomic [OF prod.collapse [symmetric], of ext0 9 1 1 "''refused''" reserved_db0]
  show ?thesis by auto
qed

end
