(* ===== verification/Maker.thy ===== *)
theory Maker
  imports Reconcile
begin

text \<open>
  Pricing of maker orders: \<open>src/src/copytrading/book_observation.rs\<close> and the pure parts of
  \<open>src/src/copytrading/orchestrate/mod.rs\<close>, from the market specification and the book to the envelope of a
  post-only GTD order.  \<open>envelope_factory\<close> is the \<open>EnvelopeFactory\<close> trait: what each of its calls answers;
  \<open>intl_clob_envelopes\<close> is its instance for the live adapter, over the answers of the SDK client and of the
  order signing.
\<close>

section \<open>The order book\<close>

record book_observation =
  bo_fetched_at :: timestamp
  bo_best_bid :: "decimal option"
  bo_best_ask :: "decimal option"
  bo_ask_size_at_best :: decimal
  bo_ask_size_within_leader :: "decimal list"

definition offsets :: "int list" where "offsets = [0, 2, 4, 6, 10]"

definition valid_level :: "decimal \<times> decimal \<Rightarrow> bool" where
  "valid_level l \<longleftrightarrow> \<not> (fst l \<le> 0 \<or> fst l \<ge> 1 \<or> snd l \<le> 0)"

definition best_ask_price :: "(decimal \<times> decimal) list \<Rightarrow> string + decimal option" where
  "best_ask_price asks = (case sort_key fst asks of
       [] \<Rightarrow> Inr None
     | (price, sz) # _ \<Rightarrow>
         if price \<le> 0 \<or> price \<ge> 1 \<or> sz \<le> 0
         then Inl ''fresh order book contains an invalid best ask level'' else Inr (Some price))"

definition observe_bid :: "decimal option \<Rightarrow> decimal \<times> decimal \<Rightarrow> decimal option" where
  "observe_bid best l =
     (if fst l > 0 \<and> fst l < 1 \<and> snd l > 0
      then Some (case best of None \<Rightarrow> fst l | Some current \<Rightarrow> max current (fst l)) else best)"

definition observe_ask :: "decimal \<Rightarrow> book_observation \<Rightarrow> decimal \<times> decimal \<Rightarrow> book_observation" where
  "observe_ask leader_price b l =
     (if \<not> valid_level l then b else
      b\<lparr>bo_ask_size_at_best := bo_ask_size_at_best b + (if bo_best_ask b = Some (fst l) then snd l else 0),
        bo_ask_size_within_leader := map2 (\<lambda>cents sz. if fst l \<le> leader_price + of_int cents / 100 then sz + snd l else sz)
          offsets (bo_ask_size_within_leader b)\<rparr>)"

definition observe_book ::
  "(decimal \<times> decimal) list \<Rightarrow> (decimal \<times> decimal) list \<Rightarrow> decimal \<Rightarrow> timestamp \<Rightarrow> string + book_observation" where
  "observe_book bids asks leader_price fetched_at = (case best_ask_price asks of
       Inl e \<Rightarrow> Inl e
     | Inr best_ask \<Rightarrow> Inr (foldl (observe_ask leader_price)
         \<lparr>bo_fetched_at = fetched_at, bo_best_bid = foldl observe_bid None bids, bo_best_ask = best_ask,
          bo_ask_size_at_best = 0, bo_ask_size_within_leader = [0, 0, 0, 0, 0]\<rparr> asks))"

section \<open>Market specifications and quotes\<close>

record no_fak_sweep_quote =
  nq_limit_price :: decimal
  nq_visible_shares :: decimal

record gtd_market_spec =
  gm_expires_at :: timestamp
  gm_tick_size :: decimal
  gm_minimum_order_size :: decimal

record market_response =
  mr_closed :: bool
  mr_accepting_orders :: bool
  mr_minimum_tick_size :: decimal
  mr_minimum_order_size :: decimal

definition gtd_maker_expiry :: int where "gtd_maker_expiry = 200 * 1000"

definition derive_gtd_market_spec :: "market_response \<Rightarrow> timestamp \<Rightarrow> string + gtd_market_spec" where
  "derive_gtd_market_spec market now =
     (if mr_closed market \<or> \<not> mr_accepting_orders market
      then Inl ''market is closed or not accepting orders; refusing GTD maker order''
      else if mr_minimum_tick_size market \<le> 0 then Inl ''market end lookup returned invalid minimum_tick_size''
      else if mr_minimum_order_size market \<le> 0 then Inl ''market lookup returned invalid minimum_order_size''
      else Inr \<lparr>gm_expires_at = now + gtd_maker_expiry, gm_tick_size = mr_minimum_tick_size market,
                gm_minimum_order_size = mr_minimum_order_size market\<rparr>)"

definition sweep_quote :: "(decimal \<times> decimal) list \<Rightarrow> decimal \<Rightarrow> string + no_fak_sweep_quote" where
  "sweep_quote asks target_shares =
     (if target_shares \<le> 0 then Inl ''fixed-share no-FAK retry has a non-positive target'' else
      case sort_key fst asks of
        [] \<Rightarrow> Inl ''fresh order book has no asks''
      | (price, sz) # _ \<Rightarrow>
          if price \<le> 0 \<or> price \<ge> 1 \<or> sz \<le> 0 then Inl ''fresh order book contains an invalid ask level''
          else Inr \<lparr>nq_limit_price = price, nq_visible_shares = sz\<rparr>)"

definition live_execute_enabled :: "string option \<Rightarrow> bool" where
  "live_execute_enabled v \<longleftrightarrow> v = Some ''yes''"

section \<open>The envelope factory\<close>

record envelope_factory =
  ef_prepare :: "sized_decision \<Rightarrow> string + prepared_order_envelope"
  ef_sweep_quote_for_no_fak_retry :: "string \<Rightarrow> decimal \<Rightarrow> string + no_fak_sweep_quote"
  ef_market_spec_for_gtd :: "string \<Rightarrow> string + gtd_market_spec"
  ef_fetch_best_ask_for_maker_only :: "string \<Rightarrow> decimal \<Rightarrow> string + book_observation"
  ef_prepare_post_only_gtd_buy :: "sized_decision \<Rightarrow> timestamp \<Rightarrow> string + prepared_order_envelope"

text \<open>A factory that only signs: the other calls keep the trait's fail-closed defaults.\<close>

definition default_envelopes :: "(sized_decision \<Rightarrow> string + prepared_order_envelope) \<Rightarrow> envelope_factory" where
  "default_envelopes prepare =
     \<lparr>ef_prepare = prepare,
      ef_sweep_quote_for_no_fak_retry = (\<lambda>_ _. Inl ''no-FAK fresh-book sweep retry is unavailable''),
      ef_market_spec_for_gtd = (\<lambda>_. Inl ''market end lookup for GTD maker retry is unavailable''),
      ef_fetch_best_ask_for_maker_only = (\<lambda>_ _. Inl ''best-ask lookup for maker-only execution is unavailable''),
      ef_prepare_post_only_gtd_buy = (\<lambda>_ _. Inl ''post-only GTD maker retry is unavailable'')\<rparr>"

text \<open>
  What the live factory asks the SDK: whether a token id parses as a 256-bit number, the book of a token as
  bids and asks, and the market of a condition; \<open>mk_prepare\<close> and \<open>mk_prepare_gtd\<close> sign an order.  \<open>clock\<close> is
  \<open>Utc::now()\<close>.
\<close>

record market_client =
  mk_parses_u256 :: "string \<Rightarrow> bool"
  mk_order_book :: "string \<Rightarrow> string + (decimal \<times> decimal) list \<times> (decimal \<times> decimal) list"
  mk_market :: "string \<Rightarrow> string + market_response"
  mk_prepare :: "sized_decision \<Rightarrow> string + prepared_order_envelope"
  mk_prepare_gtd :: "sized_decision \<Rightarrow> timestamp \<Rightarrow> string + prepared_order_envelope"

definition clob_sweep_quote :: "market_client \<Rightarrow> string \<Rightarrow> decimal \<Rightarrow> string + no_fak_sweep_quote" where
  "clob_sweep_quote client token_id target_shares =
     (if \<not> mk_parses_u256 client token_id then Inl ''invalid outcome token ID for no-FAK best-ask retry'' else
      case mk_order_book client token_id of
        Inl e \<Rightarrow> Inl (''fresh order-book read failed: '' @ e)
      | Inr (_, asks) \<Rightarrow> sweep_quote asks target_shares)"

definition clob_market_spec :: "market_client \<Rightarrow> timestamp \<Rightarrow> string \<Rightarrow> string + gtd_market_spec" where
  "clob_market_spec client clock condition_id = (case mk_market client condition_id of
       Inl e \<Rightarrow> Inl (''market end lookup failed: '' @ e)
     | Inr market \<Rightarrow> derive_gtd_market_spec market clock)"

definition clob_best_ask :: "market_client \<Rightarrow> timestamp \<Rightarrow> string \<Rightarrow> decimal \<Rightarrow> string + book_observation" where
  "clob_best_ask client clock token_id leader_price =
     (if \<not> mk_parses_u256 client token_id then Inl ''invalid outcome token ID for best-ask lookup'' else
      case mk_order_book client token_id of
        Inl e \<Rightarrow> Inl (''fresh order-book read failed: '' @ e)
      | Inr (bids, asks) \<Rightarrow> observe_book bids asks leader_price clock)"

definition intl_clob_envelopes :: "market_client \<Rightarrow> timestamp \<Rightarrow> envelope_factory" where
  "intl_clob_envelopes client clock =
     \<lparr>ef_prepare = mk_prepare client,
      ef_sweep_quote_for_no_fak_retry = clob_sweep_quote client,
      ef_market_spec_for_gtd = clob_market_spec client clock,
      ef_fetch_best_ask_for_maker_only = clob_best_ask client clock,
      ef_prepare_post_only_gtd_buy = mk_prepare_gtd client\<rparr>"

section \<open>Outcomes and errors of the orchestrator\<close>

datatype orchestrate_outcome =
    OFilled decimal
  | Resting
  | GtdLookupRetry string int
  | OUncertain
  | ONeedsReconcile string
  | OExpired
  | ORejected
  | OBlocked string
  | NotClaimed

definition gtd_poll_requires_fuse :: "orchestrate_outcome \<Rightarrow> bool" where
  "gtd_poll_requires_fuse out \<longleftrightarrow> (case out of
       OUncertain \<Rightarrow> True | ONeedsReconcile _ \<Rightarrow> True | OBlocked _ \<Rightarrow> True | _ \<Rightarrow> False)"

datatype orchestrate_error =
    EExecute execute_error
  | EReconcile reconcile_error
  | EPersistent persistent_error
  | EPrepare string
  | ESubmit submit_error
  | EReceipt string

section \<open>Maker prices\<close>

datatype maker_only_error = MarketSpec string | BestAsk string | MkPrepare string | MkExpired

record maker_only_envelope =
  mo_envelope :: prepared_order_envelope
  mo_book :: book_observation
  mo_leader_price :: decimal
  mo_limit_price :: decimal
  mo_maker_price :: decimal
  mo_market_expires_at :: timestamp

definition prepare_maker_only_envelope ::
  "ext \<Rightarrow> envelope_factory \<Rightarrow> string \<Rightarrow> sized_decision \<Rightarrow> decimal \<Rightarrow> timestamp \<Rightarrow> maker_only_error + maker_only_envelope" where
  "prepare_maker_only_envelope X envelopes condition_id decision leader_price now =
     (if sd_qty decision \<le> 0 \<or> more_than_cents (sd_qty decision)
      then Inl (MkPrepare ''maker-only GTD requires a positive share quantity with at most two decimals'') else
      case ef_market_spec_for_gtd envelopes condition_id of
        Inl e \<Rightarrow> Inl (MarketSpec e)
      | Inr market \<Rightarrow>
      if gm_expires_at market \<le> now then Inl MkExpired else
      if sd_qty decision < gm_minimum_order_size market
      then Inl (MkPrepare (''maker-only GTD size '' @ show_dec X (sd_qty decision) @ '' is below market minimum ''
             @ show_dec X (gm_minimum_order_size market) @ '' shares'')) else
      case ef_fetch_best_ask_for_maker_only envelopes (sd_token_id decision) leader_price of
        Inl e \<Rightarrow> Inl (BestAsk e)
      | Inr book \<Rightarrow>
      case bo_best_ask book of
        None \<Rightarrow> Inl (BestAsk ''order book has no asks'')
      | Some best_ask \<Rightarrow>
      let ceiling = min (sd_limit_price decision) (best_ask - gm_tick_size market);
          maker_price = of_int \<lfloor>div_dec X ceiling (gm_tick_size market)\<rfloor> * gm_tick_size market
      in if maker_price \<le> 0 \<or> maker_price \<ge> 1
         then Inl (MkPrepare ''no positive tick-aligned maker price below the best ask'') else
         let exact_cost = sd_qty decision * maker_price
         in if (case sd_buy_budget decision of None \<Rightarrow> True | Some reserved \<Rightarrow> exact_cost > reserved)
            then Inl (MkPrepare ''maker-only GTD cost exceeds persisted buy budget'') else
            case ef_prepare_post_only_gtd_buy envelopes
                   (decision\<lparr>sd_limit_price := maker_price, sd_buy_budget := Some exact_cost\<rparr>) (gm_expires_at market) of
              Inl e \<Rightarrow> Inl (MkPrepare e)
            | Inr envelope \<Rightarrow>
                Inr \<lparr>mo_envelope = envelope, mo_book = book, mo_leader_price = leader_price,
                  mo_limit_price = sd_limit_price decision, mo_maker_price = maker_price,
                  mo_market_expires_at = gm_expires_at market\<rparr>)"

text \<open>
  The loop of \<open>floor_to_valid_maker_price\<close>.  Its caller has refused a tick that is not positive, so \<open>0 < tick\<close>
  always holds where the loop is reached.
\<close>

function lower_to_cents :: "decimal \<Rightarrow> decimal \<Rightarrow> decimal \<Rightarrow> decimal" where
  "lower_to_cents tick qty price =
     (if 0 < tick \<and> price > 0 \<and> more_than_cents (price * qty) then lower_to_cents tick qty (price - tick) else price)"
  by pat_completeness auto
termination
proof (relation "measure (\<lambda>(t, _, p). nat \<lceil>p / t\<rceil>)")
  fix tick qty price :: decimal
  assume "0 < tick \<and> price > 0 \<and> more_than_cents (price * qty)"
  then have "0 < price / tick" "(price - tick) / tick = price / tick - 1" by (simp_all add: field_simps)
  then show "((tick, qty, price - tick), (tick, qty, price)) \<in> measure (\<lambda>(t, _, p). nat \<lceil>p / t\<rceil>)"
    by (simp add: nat_less_eq_zless)
qed simp

declare lower_to_cents.simps [simp del]

definition floor_to_valid_maker_price ::
  "ext \<Rightarrow> decimal \<Rightarrow> decimal \<Rightarrow> decimal \<Rightarrow> orchestrate_error + decimal" where
  "floor_to_valid_maker_price X leader_price tick qty =
     (if leader_price \<le> 0 \<or> leader_price \<ge> 1 \<or> tick \<le> 0
      then Inl (EPrepare ''invalid leader price or market tick for GTD maker order'') else
      let price = lower_to_cents tick qty (of_int \<lfloor>div_dec X leader_price tick\<rfloor> * tick)
      in if price \<le> 0 \<or> price \<ge> 1
         then Inl (EPrepare ''no positive cent-valid maker price at or below leader price'') else Inr price)"


section \<open>The best ask\<close>

lemma best_ask_least:
  assumes "best_ask_price asks = Inr (Some p)"
  shows "0 < p" "p < 1" "p \<in> fst ` set asks" "\<And>l. l \<in> set asks \<Longrightarrow> p \<le> fst l"
proof -
  obtain sz rest where s: "sort_key fst asks = (p, sz) # rest" and v: "0 < p" "p < 1"
    using assms by (auto simp: best_ask_price_def split: list.splits if_splits)
  have srt: "sorted (map fst (sort_key fst asks))" by simp
  have st: "set (sort_key fst asks) = set asks" by simp
  show "0 < p" "p < 1" by (fact v)+
  show "p \<in> fst ` set asks" using st s by force
  fix l assume "l \<in> set asks"
  then have "l \<in> set ((p, sz) # rest)" using st s by simp
  then show "p \<le> fst l" using srt s by auto
qed

lemma observe_book_best_ask:
  assumes "observe_book bids asks lp t = Inr b"
  shows "best_ask_price asks = Inr (bo_best_ask b)"
proof -
  have "bo_best_ask (foldl (observe_ask lp) b0 xs) = bo_best_ask b0" for b0 xs
    by (induction xs arbitrary: b0) (simp_all add: observe_ask_def)
  then show ?thesis using assms by (auto simp: observe_book_def split: sum.splits)
qed

text \<open>The two folds of an observation, as sums and a maximum over the valid levels.\<close>

lemma observe_ask_sums:
  assumes "length (bo_ask_size_within_leader b0) = 5"
  shows "bo_ask_size_at_best (foldl (observe_ask lp) b0 asks) = bo_ask_size_at_best b0 +
      (\<Sum>l \<leftarrow> filter (\<lambda>l. valid_level l \<and> bo_best_ask b0 = Some (fst l)) asks. snd l) \<and>
    bo_ask_size_within_leader (foldl (observe_ask lp) b0 asks) = map2 (\<lambda>cents sz. sz +
      (\<Sum>l \<leftarrow> filter (\<lambda>l. valid_level l \<and> fst l \<le> lp + of_int cents / 100) asks. snd l)) offsets (bo_ask_size_within_leader b0)"
  using assms
proof (induction asks arbitrary: b0)
  case Nil
  have "map2 (\<lambda>cents sz. sz) offsets xs = xs" if "length xs = 5" for xs :: "decimal list"
    using that by (simp add: offsets_def length_Suc_conv eval_nat_numeral) auto
  with Nil show ?case by simp
next
  case (Cons l asks)
  obtain a b c d e where x: "bo_ask_size_within_leader b0 = [a, b, c, d, e]"
    using Cons.prems by (auto simp: length_Suc_conv eval_nat_numeral)
  have len: "length (bo_ask_size_within_leader (observe_ask lp b0 l)) = 5"
    by (simp add: observe_ask_def x offsets_def)
  have best: "bo_best_ask (observe_ask lp b0 l) = bo_best_ask b0" by (simp add: observe_ask_def)
  from Cons.IH [OF len] show ?case
    unfolding best by (simp add: observe_ask_def x offsets_def)
qed

section \<open>What a factory promises\<close>

text \<open>
  The maker path relies on a factory only for this: a market specification has a positive tick and minimum,
  and a reported best ask is a price strictly between 0 and 1.
\<close>

locale maker_source =
  fixes envelopes :: envelope_factory
  assumes spec_positive: "ef_market_spec_for_gtd envelopes cid = Inr m \<Longrightarrow> 0 < gm_tick_size m \<and> 0 < gm_minimum_order_size m"
    and ask_in_range: "ef_fetch_best_ask_for_maker_only envelopes tok lp = Inr b \<Longrightarrow> bo_best_ask b = Some p \<Longrightarrow> 0 < p \<and> p < 1"
begin

text \<open>The division by the tick may round, but not across an integer.\<close>

lemma maker_envelope:
  assumes div: "\<And>c t. 0 < t \<Longrightarrow> \<lfloor>div_dec X c t\<rfloor> = \<lfloor>c / t\<rfloor>"
    and p: "prepare_maker_only_envelope X envelopes cid decision lp now = Inr m"
  obtains market best_ask reserved n where "ef_market_spec_for_gtd envelopes cid = Inr market"
    "ef_fetch_best_ask_for_maker_only envelopes (sd_token_id decision) lp = Inr (mo_book m)" "bo_best_ask (mo_book m) = Some best_ask"
    "mo_maker_price m = of_int n * gm_tick_size market" "0 < mo_maker_price m" "mo_maker_price m < 1"
    "mo_maker_price m \<le> best_ask - gm_tick_size market" "mo_maker_price m \<le> sd_limit_price decision"
    "\<And>k. of_int k * gm_tick_size market \<le> best_ask - gm_tick_size market \<Longrightarrow>
       of_int k * gm_tick_size market \<le> sd_limit_price decision \<Longrightarrow> of_int k * gm_tick_size market \<le> mo_maker_price m"
    "sd_buy_budget decision = Some reserved" "sd_qty decision * mo_maker_price m \<le> reserved"
    "gm_minimum_order_size market \<le> sd_qty decision" "now < gm_expires_at market" "\<not> more_than_cents (sd_qty decision)"
    "ef_prepare_post_only_gtd_buy envelopes (decision\<lparr>sd_limit_price := mo_maker_price m,
        sd_buy_budget := Some (sd_qty decision * mo_maker_price m)\<rparr>) (gm_expires_at market) = Inr (mo_envelope m)"
    "0 < gm_tick_size market" "best_ask < 1"
proof -
  from p obtain market best_ask reserved where h: "ef_market_spec_for_gtd envelopes cid = Inr market"
    "ef_fetch_best_ask_for_maker_only envelopes (sd_token_id decision) lp = Inr (mo_book m)" "bo_best_ask (mo_book m) = Some best_ask"
    and mp: "mo_maker_price m = of_int \<lfloor>div_dec X (min (sd_limit_price decision) (best_ask - gm_tick_size market)) (gm_tick_size market)\<rfloor>
        * gm_tick_size market"
    and r: "0 < mo_maker_price m" "mo_maker_price m < 1" "sd_buy_budget decision = Some reserved"
      "sd_qty decision * mo_maker_price m \<le> reserved"
      "gm_minimum_order_size market \<le> sd_qty decision" "now < gm_expires_at market" "\<not> more_than_cents (sd_qty decision)"
      "ef_prepare_post_only_gtd_buy envelopes (decision\<lparr>sd_limit_price := mo_maker_price m,
        sd_buy_budget := Some (sd_qty decision * mo_maker_price m)\<rparr>) (gm_expires_at market) = Inr (mo_envelope m)"
    unfolding prepare_maker_only_envelope_def Let_def
    by (auto split: if_splits sum.splits option.splits simp: not_le not_less)
  let ?t = "gm_tick_size market" and ?c = "min (sd_limit_price decision) (best_ask - gm_tick_size market)"
  have t: "0 < ?t" using spec_positive [OF h(1)] by simp
  have mp': "mo_maker_price m = of_int \<lfloor>?c / ?t\<rfloor> * ?t" using mp div [OF t] by simp
  have "of_int \<lfloor>?c / ?t\<rfloor> \<le> ?c / ?t" by simp
  then have le: "mo_maker_price m \<le> ?c" unfolding mp' using t by (simp only: pos_le_divide_eq)
  have gr: "of_int k * ?t \<le> mo_maker_price m" if "of_int k * ?t \<le> ?c" for k
  proof -
    have "of_int k \<le> ?c / ?t" using that t by (simp only: pos_le_divide_eq)
    then have "k \<le> \<lfloor>?c / ?t\<rfloor>" by (simp only: le_floor_iff)
    then show ?thesis unfolding mp' using t by simp
  qed
  have "best_ask < 1" using ask_in_range [OF h(2,3)] by simp
  then show thesis by (intro that [OF h mp' r(1,2) _ _ _ r(3,4,5,6,7,8) t]) (use le gr in auto)
qed

end

interpretation clob_maker: maker_source "intl_clob_envelopes client clock" for client clock
proof
  show "0 < gm_tick_size m \<and> 0 < gm_minimum_order_size m"
    if "ef_market_spec_for_gtd (intl_clob_envelopes client clock) cid = Inr m" for cid m
    using that by (auto simp: intl_clob_envelopes_def clob_market_spec_def derive_gtd_market_spec_def split: sum.splits if_splits)
  show "0 < p \<and> p < 1"
    if b: "ef_fetch_best_ask_for_maker_only (intl_clob_envelopes client clock) tok lp = Inr b" "bo_best_ask b = Some p" for tok lp b p
  proof -
    from b(1) obtain bids asks where "observe_book bids asks lp clock = Inr b"
      by (auto simp: intl_clob_envelopes_def clob_best_ask_def split: if_splits sum.splits prod.splits)
    with b(2) have "best_ask_price asks = Inr (Some p)" using observe_book_best_ask by fastforce
    then show ?thesis using best_ask_least(1,2) by blast
  qed
qed

interpretation default_maker: maker_source "default_envelopes prepare" for prepare
  by unfold_locales (simp_all add: default_envelopes_def)


section \<open>The cent loop\<close>

lemma lower_to_cents_spec:
  assumes "0 < t" "p = of_int n * t"
  shows "lower_to_cents t q p \<le> p \<and> (\<exists>k. lower_to_cents t q p = of_int k * t) \<and>
    (0 < lower_to_cents t q p \<longrightarrow> \<not> more_than_cents (lower_to_cents t q p * q)) \<and>
    (\<forall>k. 0 < of_int k * t \<and> of_int k * t \<le> p \<and> \<not> more_than_cents (of_int k * t * q) \<longrightarrow> of_int k * t \<le> lower_to_cents t q p)"
  using assms
proof (induction t q p arbitrary: n rule: lower_to_cents.induct)
  case (1 t q p)
  show ?case
  proof (cases "0 < p \<and> more_than_cents (p * q)")
    case False
    then have "lower_to_cents t q p = p" by (subst lower_to_cents.simps) auto
    with False "1.prems" show ?thesis by auto
  next
    case True
    have step: "lower_to_cents t q p = lower_to_cents t q (p - t)"
      using True "1.prems"(1) by (subst lower_to_cents.simps) simp
    have p': "p - t = of_int (n - 1) * t" using "1.prems"(2) by (simp add: algebra_simps)
    note IH = "1.IH" [OF _ "1.prems"(1) p', folded step]
    have below: "of_int k * t \<le> p - t"
      if k: "of_int k * t \<le> p" "\<not> more_than_cents (of_int k * t * q)" for k
    proof -
      have "k \<noteq> n" using k(2) True "1.prems"(2) by auto
      moreover have "k \<le> n" using k(1) "1.prems" by simp
      ultimately have "k \<le> n - 1" by simp
      then show ?thesis unfolding p' using "1.prems"(1) by simp
    qed
    show ?thesis using IH True "1.prems"(1) below by fastforce
  qed
qed

section \<open>Properties\<close>


definition client0 :: market_client where
  "client0 = \<lparr>mk_parses_u256 = (\<lambda>_. True), mk_order_book = (\<lambda>_. Inr ([], [(3/5, 10), (29/50, 4)])),
     mk_market = (\<lambda>_. Inr \<lparr>mr_closed = False, mr_accepting_orders = True, mr_minimum_tick_size = 1/100,
       mr_minimum_order_size = 5\<rparr>),
     mk_prepare = (\<lambda>_. Inr envelope0), mk_prepare_gtd = (\<lambda>_ _. Inr (envelope0\<lparr>en_order_type := ''GTD''\<rparr>))\<rparr>"

definition decision0 :: sized_decision where
  "decision0 = \<lparr>sd_intent_id = 1, sd_token_id = ''7'', sd_side = Buy, sd_qty = 5, sd_limit_price = 3/5,
     sd_buy_budget = Some 3, sd_buy_shares_exact = True, sd_maker_only = True\<rparr>"


text \<open>
  C37. The price of the maker fallback.  The loop that lowers the leader's price to a cent-valid maker amount
  always ends, and the result is exact: for a leader price strictly between 0 and 1 and a positive tick it is the greatest
  positive multiple of the tick, not above the leader's price, whose cost for the quantity is a whole number of cents,
  and the order is refused precisely when no such price exists.
\<close>

theorem floor_to_valid_maker_price_greatest:
  assumes "\<lfloor>div_dec X leader tick\<rfloor> = \<lfloor>leader / tick\<rfloor>" "0 < leader" "leader < 1" "0 < tick"
  shows "case floor_to_valid_maker_price X leader tick qty of
      Inr p \<Rightarrow> (\<exists>k. p = of_int k * tick) \<and> 0 < p \<and> p \<le> leader \<and> \<not> more_than_cents (p * qty) \<and>
        (\<forall>k. of_int k * tick \<le> leader \<and> \<not> more_than_cents (of_int k * tick * qty) \<longrightarrow> of_int k * tick \<le> p)
    | Inl _ \<Rightarrow> \<not> (\<exists>k. 0 < of_int k * tick \<and> of_int k * tick \<le> leader \<and> \<not> more_than_cents (of_int k * tick * qty))"
proof -
  let ?n = "\<lfloor>leader / tick\<rfloor>" and ?start = "of_int \<lfloor>leader / tick\<rfloor> * tick"
  let ?p = "lower_to_cents tick qty ?start"
  have "of_int ?n \<le> leader / tick" by simp
  then have le: "?start \<le> leader" using assms(4) by (simp only: pos_le_divide_eq)
  have under: "of_int k * tick \<le> ?start" if "of_int k * tick \<le> leader" for k
  proof -
    have "of_int k \<le> leader / tick" using that assms(4) by (simp only: pos_le_divide_eq)
    then have "k \<le> ?n" by (simp only: le_floor_iff)
    then show ?thesis using assms(4) by simp
  qed
  note spec = lower_to_cents_spec [OF assms(4) refl, where q = qty and n = ?n]
  have eq: "floor_to_valid_maker_price X leader tick qty =
      (if ?p \<le> 0 \<or> ?p \<ge> 1 then Inl (EPrepare ''no positive cent-valid maker price at or below leader price'') else Inr ?p)"
    using assms by (simp add: floor_to_valid_maker_price_def Let_def)
  have lt1: "?p < 1" using spec le assms(3) by (meson le_less_trans order_trans)
  show ?thesis
  proof (cases "0 < ?p")
    case True
    have "of_int k * tick \<le> ?p" if "of_int k * tick \<le> leader" "\<not> more_than_cents (of_int k * tick * qty)" for k
      using spec under [OF that(1)] that(2) True by (cases "0 < of_int k * tick") (blast, linarith)
    moreover have "?p \<le> leader" using spec le by (meson order_trans)
    ultimately show ?thesis using True lt1 spec by (simp add: eq)
  next
    case False
    then have "\<not> (0 < of_int k * tick \<and> of_int k * tick \<le> leader \<and> \<not> more_than_cents (of_int k * tick * qty))" for k
      using spec under by (meson less_le_trans)
    then show ?thesis using False by (simp add: eq)
  qed
qed

theorem floor_to_valid_maker_price_greatest_witness:
  "\<exists>p. floor_to_valid_maker_price ext0 (3/5) (1/100) 5 = Inr p \<and> p \<le> 3/5 \<and> \<not> more_than_cents (p * 5)"
proof -
  have s: "lower_to_cents (1/100) 5 (3/5) = 3/5"
    by (subst lower_to_cents.simps) (simp add: more_than_cents_def trunc_dp_def)
  have "floor_to_valid_maker_price ext0 (3/5) (1/100) 5 = Inr (3/5)"
    by (simp add: floor_to_valid_maker_price_def s)
  with floor_to_valid_maker_price_greatest [of ext0 "3/5" "1/100" 5] show ?thesis
    by (intro exI [of _ "3/5"] conjI) simp_all
qed

end
