(* ===== verification/Recovery.thy ===== *)
theory Recovery
  imports Reconcile
begin

text \<open>
  The operator recoveries of \<open>src/src/copytrading/persistent.rs\<close>: closing a reconciliation case after
  fresh evidence, without ever submitting an order.  \<open>clock\<close> is \<open>Utc::now()\<close>.  Every recovery is one
  transaction.  The interface \<open>no_fill_resolution\<close> states what the five recoveries that conclude "no
  fill" have in common; booking a recovered fill goes through the ledger instead.
\<close>

section \<open>Pieces of the recoveries\<close>

text \<open>\<open>let [row] = rows.as_slice() else \<dots>\<close>\<close>

definition exactly_one :: "'a list \<Rightarrow> 'a option" where
  "exactly_one xs = (case xs of [x] \<Rightarrow> Some x | _ \<Rightarrow> None)"

text \<open>\<open>reconciliation_cases rc JOIN copy_intents ci ON ci.id = rc.intent_id\<close>\<close>

definition joined_cases ::
  "(reconciliation_case_row \<Rightarrow> copy_intent_row \<Rightarrow> bool) \<Rightarrow> db \<Rightarrow> (reconciliation_case_row \<times> copy_intent_row) list" where
  "joined_cases P d = filter (\<lambda>(rc, ci). P rc ci) (List.map_filter
     (\<lambda>rc. case rc_intent_id rc of
        None \<Rightarrow> None
      | Some i \<Rightarrow> (case intent_by_id i d of None \<Rightarrow> None | Some ci \<Rightarrow> Some (rc, ci)))
     (reconciliation_cases d))"

definition attempt_count :: "int \<Rightarrow> db \<Rightarrow> nat" where
  "attempt_count intent_id d = length (filter (\<lambda>r. oa_intent_id r = intent_id) (order_attempts d))"

definition must_hit_one :: "(persistent_error, nat) db_act \<Rightarrow> (persistent_error, unit) db_act" where
  "must_hit_one stmt = and_then stmt (\<lambda>n. assert_that (n = 1) UnresolvedRecovery)"

definition close_case_stmt ::
  "timestamp \<Rightarrow> string \<Rightarrow> (reconciliation_case_row \<Rightarrow> bool) \<Rightarrow> int \<Rightarrow> (persistent_error, nat) db_act" where
  "close_case_stmt clock resolution Q case_id =
     update_cases (\<lambda>r. rc_id r = case_id \<and> Q r \<and> rc_resolved_at r = None)
       (\<lambda>r. r\<lparr>rc_resolved_at := Some clock, rc_resolution := Some resolution\<rparr>)"

definition reject_intent_stmt ::
  "(copy_intent_row \<Rightarrow> bool) \<Rightarrow> bool \<Rightarrow> string \<Rightarrow> int \<Rightarrow> (persistent_error, nat) db_act" where
  "reject_intent_stmt Q clear_reserved reason intent_id =
     update_intents (\<lambda>r. ci_id r = intent_id \<and> Q r \<and> ci_status r = NeedsReconcile)
       (\<lambda>r. r\<lparr>ci_status := IRejected, ci_rejection_reason := Some reason,
              ci_reserved_qty := (if clear_reserved then ''0'' else ci_reserved_qty r)\<rparr>)"

section \<open>Cases without an order attempt\<close>

definition resolve_pre_submit_balance_case :: "timestamp \<Rightarrow> int \<Rightarrow> (persistent_error, int) db_act" where
  "resolve_pre_submit_balance_case clock account_id = transaction
     (and_then (reads (joined_cases (\<lambda>rc ci. rc_account_id rc = account_id \<and> rc_resolved_at rc = None \<and>
         rc_case_type rc = ''balance_drift'' \<and> rc_detail rc = Some ''strict collateral allowance query failed''))) (\<lambda>rows.
      and_then (or_raise UnresolvedRecovery (exactly_one rows)) (\<lambda>(rc, ci).
      and_then (assert_that (ci_status ci = NeedsReconcile) UnresolvedRecovery) (\<lambda>_.
      and_then (reads (attempt_count (ci_id ci))) (\<lambda>attempts.
      and_then (assert_that (attempts = 0) UnresolvedRecovery) (\<lambda>_.
      and_then (must_hit_one (reject_intent_stmt (\<lambda>_. True) False
         ''pre-submission allowance failure reconciled; signal is not replayed'' (ci_id ci))) (\<lambda>_.
      and_then (must_hit_one (close_case_stmt clock
         ''fresh strict collateral and allowance read passed; no order attempt existed'' (\<lambda>_. True) (rc_id rc))) (\<lambda>_.
      ret (rc_id rc)))))))))"

definition lot_is_zero :: "ext \<Rightarrow> position_lot_row option \<Rightarrow> persistent_error + bool" where
  "lot_is_zero X row = (case row of
       None \<Rightarrow> Inr True
     | Some r \<Rightarrow> (case parse_dec X (pl_qty r) of None \<Rightarrow> Inl MalformedBudgetState | Some q \<Rightarrow> Inr (q \<le> 0)))"

definition resolve_no_virtual_lot_sell_case :: "ext \<Rightarrow> timestamp \<Rightarrow> int \<Rightarrow> int \<Rightarrow> (persistent_error, int) db_act" where
  "resolve_no_virtual_lot_sell_case X clock account_id intent_id = transaction
     (and_then (reads (joined_cases (\<lambda>rc ci. rc_account_id rc = account_id \<and> rc_intent_id rc = Some intent_id \<and>
         rc_resolved_at rc = None \<and> rc_case_type rc = ''balance_drift'' \<and>
         rc_detail rc = Some ''computed sell quantity is not positive'' \<and>
         ci_status ci = NeedsReconcile \<and> ci_side ci = ''SELL''))) (\<lambda>rows.
      and_then (or_raise UnresolvedRecovery (exactly_one rows)) (\<lambda>(rc, ci).
      and_then (reads (attempt_count intent_id)) (\<lambda>attempts.
      and_then (assert_that (attempts = 0) UnresolvedRecovery) (\<lambda>_.
      and_then (reads (lot_row account_id (ci_leader_id ci) (ci_token_id ci))) (\<lambda>lot.
      and_then (lift_result (lot_is_zero X lot)) (\<lambda>zero.
      and_then (assert_that zero UnresolvedRecovery) (\<lambda>_.
      and_then (must_hit_one (reject_intent_stmt (\<lambda>_. True) True
         ''no tracked virtual lot for leader sell; signal is not replayed'' intent_id)) (\<lambda>_.
      and_then (must_hit_one (close_case_stmt clock
         ''verified no virtual lot for leader/token; no order attempt existed'' (\<lambda>_. True) (rc_id rc))) (\<lambda>_.
      ret (rc_id rc)))))))))))"

section \<open>Exhausted retries\<close>

text \<open>\<open>SUM\<close> over no row is \<open>NULL\<close>, which does not decode as an \<open>i64\<close>.\<close>

definition verified_rejection :: "string \<Rightarrow> order_attempt_row \<Rightarrow> bool" where
  "verified_rejection pat r \<longleftrightarrow> oa_status r = ARejected \<and> oa_submission_started_at r \<noteq> None \<and>
     (case oa_failure_detail r of None \<Rightarrow> False | Some detail \<Rightarrow> sql_like detail pat)"

definition reserved_of_intent :: "int \<Rightarrow> int \<Rightarrow> db \<Rightarrow> nat" where
  "reserved_of_intent account_id intent_id d = length (filter (\<lambda>p. br_account_id p = account_id \<and> br_state p = Reserved \<and>
     (case attempt_by_id (br_order_attempt_id p) d of None \<Rightarrow> False | Some oa \<Rightarrow> oa_intent_id oa = intent_id))
     (budget_reservations d))"

definition resolve_exhausted ::
  "string \<Rightarrow> string \<Rightarrow> timestamp \<Rightarrow> int \<Rightarrow> int \<Rightarrow> (persistent_error, int) db_act" where
  "resolve_exhausted pat reason clock account_id intent_id = transaction
     (and_then (reads (joined_cases (\<lambda>rc ci. rc_account_id rc = account_id \<and> rc_intent_id rc = Some intent_id \<and>
         ci_status ci = NeedsReconcile \<and> rc_resolved_at rc = None \<and>
         rc_case_type rc = ''blocked_recovery'' \<and> rc_detail rc = Some ''retry budget exhausted''))) (\<lambda>rows.
      and_then (or_raise UnresolvedRecovery (exactly_one rows)) (\<lambda>(rc, ci).
      and_then (reads (\<lambda>d. filter (\<lambda>r. oa_intent_id r = intent_id) (order_attempts d))) (\<lambda>attempts.
      and_then (assert_that (attempts \<noteq> []) (PersDatabase ''unexpected null'')) (\<lambda>_.
      and_then (assert_that (\<not> (int (length attempts) < max_attempts_per_window \<or>
           length attempts \<noteq> length (filter (verified_rejection pat) attempts))) UnresolvedRecovery) (\<lambda>_.
      and_then (reads (reserved_of_intent account_id intent_id)) (\<lambda>reserved.
      and_then (assert_that (reserved = 0) UnresolvedRecovery) (\<lambda>_.
      and_then (must_hit_one (reject_intent_stmt (\<lambda>r. ci_account_id r = account_id) True reason intent_id)) (\<lambda>_.
      and_then (must_hit_one (close_case_stmt clock reason (\<lambda>_. True) (rc_id rc))) (\<lambda>_.
      ret (rc_id rc)))))))))))"

definition resolve_exhausted_fak_no_match :: "timestamp \<Rightarrow> int \<Rightarrow> int \<Rightarrow> (persistent_error, int) db_act" where
  "resolve_exhausted_fak_no_match = resolve_exhausted ''no orders found to match with FAK order''
     ''all retry-budget attempts received explicit FAK no-match rejections; signal will not be replayed''"

definition resolve_exhausted_maker_only_crossing :: "timestamp \<Rightarrow> int \<Rightarrow> int \<Rightarrow> (persistent_error, int) db_act" where
  "resolve_exhausted_maker_only_crossing = resolve_exhausted ''order crosses book''
     ''all retry-budget attempts received explicit post-only crossing rejections; signal will not be replayed''"

section \<open>Uncertain submissions\<close>

definition open_cases_of_attempt :: "int \<Rightarrow> int \<Rightarrow> int \<Rightarrow> (string \<Rightarrow> bool) \<Rightarrow> db \<Rightarrow> reconciliation_case_row list" where
  "open_cases_of_attempt account_id intent_id attempt_id ct d =
     filter (\<lambda>r. rc_account_id r = account_id \<and> rc_intent_id r = Some intent_id \<and>
       rc_order_attempt_id r = Some attempt_id \<and> ct (rc_case_type r) \<and> rc_resolved_at r = None) (reconciliation_cases d)"

definition resolve_linked_strict_query_failure ::
  "timestamp \<Rightarrow> int \<Rightarrow> int \<Rightarrow> int \<Rightarrow> string \<Rightarrow> (persistent_error, unit) db_act" where
  "resolve_linked_strict_query_failure clock account_id intent_id attempt_id resolution =
     and_then (reads (open_cases_of_attempt account_id intent_id attempt_id (\<lambda>ct. ct = ''strict_query_failure''))) (\<lambda>cases.
     if length cases > 1 then raise UnresolvedRecovery
     else case cases of
       [] \<Rightarrow> ret ()
     | rc # _ \<Rightarrow> must_hit_one (close_case_stmt clock resolution (\<lambda>r. rc_account_id r = account_id \<and>
         rc_intent_id r = Some intent_id \<and> rc_order_attempt_id r = Some attempt_id \<and>
         rc_case_type r = ''strict_query_failure'') (rc_id rc)))"

text \<open>\<open>order_attempts oa JOIN copy_intents ci ... WHERE oa.id = ? AND ci.account_id = ?\<close>\<close>

definition attempt_with_intent :: "int \<Rightarrow> int \<Rightarrow> db \<Rightarrow> (order_attempt_row \<times> copy_intent_row) option" where
  "attempt_with_intent account_id attempt_id d = (case attempt_by_id attempt_id d of
       None \<Rightarrow> None
     | Some oa \<Rightarrow> (case intent_by_id (oa_intent_id oa) d of
         None \<Rightarrow> None
       | Some ci \<Rightarrow> if ci_account_id ci = account_id then Some (oa, ci) else None))"

definition no_fill_attempt_stmt ::
  "(order_attempt_row \<Rightarrow> bool) \<Rightarrow> string \<Rightarrow> int \<Rightarrow> (persistent_error, nat) db_act" where
  "no_fill_attempt_stmt Q resolution attempt_id =
     update_attempts (\<lambda>r. oa_id r = attempt_id \<and> oa_status r = Uncertain \<and> Q r)
       (\<lambda>r. r\<lparr>oa_status := ARejected, oa_failure_detail := Some resolution\<rparr>)"

definition release_no_fill_stmt :: "timestamp \<Rightarrow> string \<Rightarrow> int \<Rightarrow> int \<Rightarrow> (persistent_error, nat) db_act" where
  "release_no_fill_stmt clock resolution account_id attempt_id =
     update_reservations (\<lambda>r. br_order_attempt_id r = attempt_id \<and> br_account_id r = account_id \<and> br_state r = Reserved)
       (\<lambda>r. r\<lparr>br_state := ReleasedOperatorNoFill, br_release_reason := Some resolution, br_released_at := Some clock\<rparr>)"

text \<open>\<open>json_extract\<close> of a missing order type is \<open>NULL\<close>, which does not decode as a \<open>String\<close>.\<close>

definition resolve_operator_confirmed_no_fill ::
  "ext \<Rightarrow> timestamp \<Rightarrow> int \<Rightarrow> int \<Rightarrow> string \<Rightarrow> (persistent_error, int) db_act" where
  "resolve_operator_confirmed_no_fill X clock account_id attempt_id operator_reason =
     and_then (lift_result (non_empty operator_reason ''operator_reason'')) (\<lambda>operator_reason. transaction
     (and_then (reads (attempt_with_intent account_id attempt_id)) (\<lambda>row.
      and_then (or_raise UnresolvedRecovery row) (\<lambda>(oa, ci).
      and_then (or_raise (PersDatabase ''unexpected null'') (order_type_of_json X (oa_envelope_json oa))) (\<lambda>order_type.
      and_then (assert_that (order_type \<noteq> ''GTD'') UnresolvedRecovery) (\<lambda>_.
      and_then (assert_that (ci_status ci = NeedsReconcile \<and> oa_status oa = Uncertain) UnresolvedRecovery) (\<lambda>_.
      and_then (reads (open_cases_of_attempt account_id (ci_id ci) attempt_id (\<lambda>ct. ct = ''unknown_submission''))) (\<lambda>cases.
      and_then (or_raise UnresolvedRecovery (exactly_one cases)) (\<lambda>rc.
      let resolution = ''operator confirmed no fill after fresh authenticated exact-envelope trade-history lookup: ''
            @ operator_reason
      in and_then (must_hit_one (no_fill_attempt_stmt (\<lambda>_. True) resolution attempt_id)) (\<lambda>_.
      and_then (must_hit_one (reject_intent_stmt (\<lambda>_. True) True resolution (ci_id ci))) (\<lambda>_.
      and_then (must_hit_one (release_no_fill_stmt clock resolution account_id attempt_id)) (\<lambda>_.
      and_then (must_hit_one (close_case_stmt clock resolution (\<lambda>_. True) (rc_id rc))) (\<lambda>_.
      and_then (resolve_linked_strict_query_failure clock account_id (ci_id ci) attempt_id resolution) (\<lambda>_.
      ret (rc_id rc)))))))))))))))"

section \<open>A GTD order proven unfilled on chain\<close>

text \<open>\<open>ZeroProof\<close>: the evidence of the chain scan.  \<open>eq_ignore_ascii_case\<close> compares lower-cased texts.\<close>

record zero_proof =
  zp_order_hash :: string
  zp_maker :: string
  zp_token :: string
  zp_detail :: string

definition account_by_id :: "int \<Rightarrow> db \<Rightarrow> account_row option" where
  "account_by_id account_id d = find_row (\<lambda>a. acc_id a = account_id) (accounts d)"

definition chain_evidence_matches ::
  "zero_proof \<Rightarrow> string \<Rightarrow> string \<Rightarrow> order_attempt_row \<Rightarrow> copy_intent_row \<Rightarrow> prepared_order_envelope
     \<Rightarrow> string \<Rightarrow> string \<Rightarrow> string \<Rightarrow> bool" where
  "chain_evidence_matches ev expected_submission expected_expiry oa ci env hash submission funder \<longleftrightarrow>
     ci_status ci = NeedsReconcile \<and> oa_status oa = Uncertain \<and> en_order_type env = ''GTD'' \<and>
     en_token_id env = ci_token_id ci \<and> hash = zp_order_hash ev \<and>
     to_ascii_lowercase funder = to_ascii_lowercase (zp_maker ev) \<and> ci_token_id ci = zp_token ev \<and>
     en_expected_taker_order_id env = hash \<and> submission = expected_submission \<and>
     en_expires_at env = Some expected_expiry"

text \<open>The operator message, its Chinese parts as the UTF-8 bytes of the source literal.\<close>

definition utf8 :: "nat list \<Rightarrow> string" where
  "utf8 bytes = map char_of bytes"

definition no_unknown_case_message :: string where
  "no_unknown_case_message =
     ''GTD '' @
     utf8 [233, 147, 190, 228, 184, 138, 229, 133, 179, 229, 141, 149, 233, 156, 128, 232, 166, 129, 230,
       129, 176, 229, 165, 189, 228, 184, 128, 228, 184, 170, 230, 156, 170, 229, 133, 179, 233, 151, 173,
       231, 154, 132] @
     '' unknown_submission case'' @
     utf8 [239, 188, 155, 232, 139, 165, 228, 187, 133, 230, 156, 137] @
     '' strict_query_failure'' @
     utf8 [239, 188, 140, 232, 175, 183, 229, 133, 136, 232, 191, 144, 232, 161, 140] @
     '' reconcile-uncertain <attempt-id> '' @
     utf8 [229, 136, 155, 229, 187, 186, 232, 175, 165] @
     '' case'' @
     utf8 [239, 188, 140, 231, 132, 182, 229, 144, 142, 233, 135, 141, 230, 150, 176, 230, 137, 167, 232,
       161, 140, 233, 147, 190, 228, 184, 138, 232, 175, 129, 230, 141, 174, 229, 145, 189, 228, 187, 164]"

definition resolve_chain_proven_gtd_no_fill ::
  "ext \<Rightarrow> timestamp \<Rightarrow> int \<Rightarrow> int \<Rightarrow> string \<Rightarrow> string \<Rightarrow> zero_proof \<Rightarrow> (persistent_error, int) db_act" where
  "resolve_chain_proven_gtd_no_fill X clock account_id attempt_id expected_submission expected_expiry ev =
     and_then (lift_result (non_empty (zp_detail ev) ''chain_evidence'')) (\<lambda>evidence_detail. transaction
     (and_then (reads (attempt_with_intent account_id attempt_id)) (\<lambda>row.
      and_then (or_raise UnresolvedRecovery row) (\<lambda>(oa, ci).
      and_then (reads (account_by_id account_id)) (\<lambda>account.
      and_then (or_raise UnresolvedRecovery account) (\<lambda>account.
      and_then (or_raise (PersDatabase ''unexpected null'') (oa_venue_order_id oa)) (\<lambda>hash.
      and_then (or_raise (PersDatabase ''unexpected null'') (oa_submission_started_at oa)) (\<lambda>submission.
      and_then (or_raise (PersDatabase ''unexpected null'') (acc_funder_address account)) (\<lambda>funder.
      and_then (or_raise UnresolvedRecovery (envelope_of_json X (oa_envelope_json oa))) (\<lambda>env.
      and_then (assert_that (chain_evidence_matches ev expected_submission expected_expiry oa ci env hash submission funder)
         UnresolvedRecovery) (\<lambda>_.
      and_then (reads (open_cases_of_attempt account_id (ci_id ci) attempt_id (\<lambda>ct. ct = ''unknown_submission''))) (\<lambda>cases.
      and_then (or_raise (Config no_unknown_case_message) (exactly_one cases)) (\<lambda>rc.
      let resolution = ''chain-proven GTD no fill; authenticated CLOB exact hash absent; '' @ evidence_detail
      in and_then (no_fill_attempt_stmt (\<lambda>r. oa_accounted_filled_qty r = ''0'') resolution attempt_id) (\<lambda>n1.
      and_then (reject_intent_stmt (\<lambda>_. True) True resolution (ci_id ci)) (\<lambda>n2.
      and_then (release_no_fill_stmt clock resolution account_id attempt_id) (\<lambda>n3.
      and_then (close_case_stmt clock resolution (\<lambda>r. rc_account_id r = account_id \<and> rc_intent_id r = Some (ci_id ci) \<and>
          rc_order_attempt_id r = Some attempt_id) (rc_id rc)) (\<lambda>n4.
      and_then (assert_that ([n1, n2, n3, n4] = [1, 1, 1, 1]) UnresolvedRecovery) (\<lambda>_.
      and_then (resolve_linked_strict_query_failure clock account_id (ci_id ci) attempt_id resolution) (\<lambda>_.
      ret (rc_id rc))))))))))))))))))))"

section \<open>Booking a recovered fill\<close>

definition recovered_receipt ::
  "ext \<Rightarrow> prepared_order_envelope \<Rightarrow> decimal \<Rightarrow> persistent_error + order_receipt" where
  "recovered_receipt X env filled =
     (if en_order_type env = ''GTD'' then
        (case parse_dec X (en_size env) of
           None \<Rightarrow> Inl UnresolvedRecovery
         | Some requested \<Rightarrow> (case from_expired_gtd_shares requested filled of
             Inl _ \<Rightarrow> Inl UnresolvedRecovery | Inr r \<Rightarrow> Inr r))
      else (case receipt_from_submitted_envelope X env filled filled of
             Inl _ \<Rightarrow> Inl UnresolvedRecovery | Inr r \<Rightarrow> Inr r))"

definition recoverable_case_type :: "string \<Rightarrow> bool" where
  "recoverable_case_type ct \<longleftrightarrow>
     ct = ''local_submission_failure'' \<or> ct = ''unknown_submission'' \<or> ct = ''strict_query_failure''"

definition primary_case :: "reconciliation_case_row list \<Rightarrow> int option" where
  "primary_case cases =
     (let primary = map rc_id (filter (\<lambda>r. rc_case_type r \<noteq> ''strict_query_failure'') cases);
          strict = map rc_id (filter (\<lambda>r. rc_case_type r = ''strict_query_failure'') cases)
      in if length primary > 1 \<or> length strict > 1 \<or> primary = [] \<and> strict = [] then None
         else case primary of i # _ \<Rightarrow> Some i | [] \<Rightarrow> Some (hd strict))"

definition execute_error_text :: "execute_error \<Rightarrow> string" where
  "execute_error_text e = (case e of
       ExecDatabase err \<Rightarrow> ''database error: '' @ err
     | Submission err \<Rightarrow> ''submission error: '' @ err
     | InvalidSide \<Rightarrow> ''invalid side stored on copy_intents''
     | InvalidTokenId \<Rightarrow> ''invalid token id''
     | ExecInvalidDecimal field \<Rightarrow> ''invalid decimal value in '' @ field
     | RatioLoopDiverges \<Rightarrow> [])"

definition restore_reservation_and_finalize_recovered_fill ::
  "ext \<Rightarrow> timestamp \<Rightarrow> int \<Rightarrow> int \<Rightarrow> decimal \<Rightarrow> decimal \<Rightarrow> (persistent_error, int) db_act" where
  "restore_reservation_and_finalize_recovered_fill X clock account_id attempt_id filled maker_notional_usdc =
     and_then (assert_that (\<not> (filled \<le> 0 \<or> maker_notional_usdc \<le> 0)) UnresolvedRecovery) (\<lambda>_. transaction
     (and_then (reads (attempt_with_intent account_id attempt_id)) (\<lambda>row.
      and_then (or_raise UnresolvedRecovery row) (\<lambda>(oa, ci).
      and_then (assert_that (ci_status ci = NeedsReconcile \<and> oa_status oa = Uncertain) UnresolvedRecovery) (\<lambda>_.
      and_then (or_raise UnresolvedRecovery (envelope_of_json X (oa_envelope_json oa))) (\<lambda>env.
      and_then (lift_result (recovered_receipt X env filled)) (\<lambda>receipt.
      and_then (assert_that (filled_qty receipt = filled) UnresolvedRecovery) (\<lambda>_.
      and_then (reads (open_cases_of_attempt account_id (ci_id ci) attempt_id recoverable_case_type)) (\<lambda>cases.
      and_then (or_raise UnresolvedRecovery (primary_case cases)) (\<lambda>case_id.
      and_then (must_hit_one (update_reservations (\<lambda>r. br_order_attempt_id r = attempt_id \<and> br_account_id r = account_id \<and>
           (br_state r = ReleasedPreBoundary \<or> br_state r = Reserved))
         (\<lambda>r. r\<lparr>br_amount_usdc := show_dec X maker_notional_usdc, br_state := Reserved,
                br_release_reason := None, br_released_at := None\<rparr>))) (\<lambda>_.
      and_then (map_error (\<lambda>e. PersDatabase (execute_error_text e))
         (finalize_receipt_with_conn X clock (ci_id ci) attempt_id receipt)) (\<lambda>_.
      and_then (must_hit_one (update_attempts (\<lambda>r. oa_id r = attempt_id \<and> oa_status r = Uncertain)
         (\<lambda>r. r\<lparr>oa_status := Finalized, oa_filled_qty := Some (show_dec X (filled_qty receipt)),
                oa_accepted_qty := Some (show_dec X (accepted_qty receipt)),
                oa_remaining_qty := Some (show_dec X (remaining_qty receipt)), oa_failure_detail := None\<rparr>))) (\<lambda>_.
      let resolution = ''operator accounted recovered venue fill: '' @ show_dec X (filled_qty receipt)
            @ '' shares; maker USDC principal '' @ show_dec X maker_notional_usdc
            @ ''; exact-envelope trade-history lookup''
      in and_then (must_hit_one (close_case_stmt clock resolution (\<lambda>_. True) case_id)) (\<lambda>_.
      and_then (resolve_linked_strict_query_failure clock account_id (ci_id ci) attempt_id resolution) (\<lambda>_.
      ret case_id)))))))))))))))"

section \<open>Effects of the pieces\<close>

lemma must_hit_one_ok:
  "must_hit_one (update_intents P f) d = (Inr u, d') \<longleftrightarrow>
     length (filter P (copy_intents d)) = 1 \<and> d' = put_intents (update_rows P f (copy_intents d)) d"
  "must_hit_one (update_attempts P' f') d = (Inr u, d') \<longleftrightarrow>
     length (filter P' (order_attempts d)) = 1 \<and> d' = put_attempts (update_rows P' f' (order_attempts d)) d"
  "must_hit_one (update_cases P'' f'') d = (Inr u, d') \<longleftrightarrow>
     length (filter P'' (reconciliation_cases d)) = 1 \<and> d' = put_cases (update_rows P'' f'' (reconciliation_cases d)) d"
  "must_hit_one (update_reservations P3 f3) d = (Inr u, d') \<longleftrightarrow>
     length (filter P3 (budget_reservations d)) = 1 \<and> d' = put_reservations (update_rows P3 f3 (budget_reservations d)) d"
  by (auto simp: must_hit_one_def act_ok stmt_ok)

lemma exactly_one_Some: "exactly_one xs = Some x \<longleftrightarrow> xs = [x]"
  by (auto simp: exactly_one_def split: list.splits)

lemma joined_case:
  assumes "joined_cases P d = [(rc, ci)]"
  obtains i where "rc \<in> set (reconciliation_cases d)" "rc_intent_id rc = Some i" "intent_by_id i d = Some ci" "ci_id ci = i" "P rc ci"
proof -
  have "(rc, ci) \<in> set (joined_cases P d)" using assms by simp
  then have "P rc ci" "rc \<in> set (reconciliation_cases d)"
    "(case rc_intent_id rc of None \<Rightarrow> None | Some i \<Rightarrow> (case intent_by_id i d of None \<Rightarrow> None | Some ci \<Rightarrow> Some (rc, ci))) = Some (rc, ci)"
    unfolding joined_cases_def by (auto simp: List.map_filter_def split: option.splits)
  then show thesis by (auto split: option.splits dest: intent_by_id_Some intro: that)
qed

abbreviation closed_case :: "timestamp \<Rightarrow> string \<Rightarrow> reconciliation_case_row \<Rightarrow> reconciliation_case_row" where
  "closed_case clock resolution \<equiv> (\<lambda>r. r\<lparr>rc_resolved_at := Some clock, rc_resolution := Some resolution\<rparr>)"

lemma linked_ok:
  assumes "resolve_linked_strict_query_failure clock acc i a res d = (Inr u, d')"
  obtains S where "d' = put_cases (update_rows S (closed_case clock res) (reconciliation_cases d)) d"
    "\<And>r. S r \<Longrightarrow> rc_intent_id r = Some i \<and> rc_order_attempt_id r = Some a \<and> rc_resolved_at r = None"
proof (cases "open_cases_of_attempt acc i a (\<lambda>ct. ct = ''strict_query_failure'') d")
  case Nil
  with assms have "d' = put_cases (update_rows (\<lambda>_. False) (closed_case clock res) (reconciliation_cases d)) d"
    by (simp add: resolve_linked_strict_query_failure_def act_ok update_rows_none)
  then show ?thesis by (rule that) simp
next
  case (Cons rc rest)
  with assms have "d' = put_cases (update_rows (\<lambda>r. rc_id r = rc_id rc \<and> (rc_account_id r = acc \<and>
         rc_intent_id r = Some i \<and> rc_order_attempt_id r = Some a \<and>
         rc_case_type r = ''strict_query_failure'') \<and> rc_resolved_at r = None) (closed_case clock res) (reconciliation_cases d)) d"
    by (auto simp: resolve_linked_strict_query_failure_def act_ok close_case_stmt_def must_hit_one_ok split: if_splits)
  then show ?thesis by (rule that) simp
qed

section \<open>The interface of the no-fill recoveries\<close>

text \<open>
  \<open>concludes_no_fill c d d'\<close>: one intent that needed reconciliation is now rejected and the others are as
  they were; case \<open>c\<close>, an unresolved case of that intent, is resolved; the cases of all other intents are
  untouched; no lot has moved.
\<close>

definition concludes_no_fill :: "int \<Rightarrow> db \<Rightarrow> db \<Rightarrow> bool" where
  "concludes_no_fill c d d' \<longleftrightarrow> (\<exists>i ci.
     intent_by_id i d = Some ci \<and> ci_status ci = NeedsReconcile \<and>
     map_option ci_status (intent_by_id i d') = Some IRejected \<and>
     (\<forall>j. j \<noteq> i \<longrightarrow> intent_by_id j d' = intent_by_id j d) \<and>
     (\<exists>rc \<in> set (reconciliation_cases d). rc_id rc = c \<and> rc_intent_id rc = Some i \<and> rc_resolved_at rc = None) \<and>
     (\<exists>rc \<in> set (reconciliation_cases d'). rc_id rc = c \<and> rc_intent_id rc = Some i \<and> rc_resolved_at rc \<noteq> None) \<and>
     filter (\<lambda>rc. rc_intent_id rc \<noteq> Some i) (reconciliation_cases d') =
       filter (\<lambda>rc. rc_intent_id rc \<noteq> Some i) (reconciliation_cases d) \<and>
     position_lots d' = position_lots d)"

lemma filter_update_none:
  "(\<And>r. S r \<Longrightarrow> \<not> Q r \<and> \<not> Q (f r)) \<Longrightarrow> filter Q (update_rows S f rs) = filter Q rs"
  by (induction rs) auto

lemma concludesI:
  assumes k: "intents.keyed d" and ci: "intent_by_id i d = Some ci"
    and rc: "rc \<in> set (reconciliation_cases d)" "rc_intent_id rc = Some i" "rc_resolved_at rc = None"
    and hit: "length (filter (\<lambda>r. ci_id r = i \<and> Q r \<and> ci_status r = NeedsReconcile) (copy_intents d)) = 1"
    and ci': "copy_intents d' = update_rows (\<lambda>r. ci_id r = i \<and> Q r \<and> ci_status r = NeedsReconcile) f (copy_intents d)"
    and f: "\<And>r. ci_id (f r) = ci_id r \<and> ci_status (f r) = IRejected"
    and one: "length (filter (\<lambda>r. rc_id r = rc_id rc \<and> Q' r \<and> rc_resolved_at r = None) (reconciliation_cases d)) = 1" "Q' rc"
    and rc': "reconciliation_cases d' = update_rows S (closed_case clock' res')
       (update_rows (\<lambda>r. rc_id r = rc_id rc \<and> Q' r \<and> rc_resolved_at r = None) (closed_case clock res) (reconciliation_cases d))"
    and S: "\<And>r. S r \<Longrightarrow> rc_intent_id r = Some i \<and> rc_resolved_at r = None"
    and lots: "position_lots d' = position_lots d"
  shows "concludes_no_fill (rc_id rc) d d'"
proof -
  have dis: "distinct (map ci_id (copy_intents d))" using k by (simp add: intents.keyed_def)
  obtain r where r: "r \<in> set (copy_intents d)" "ci_id r = i" "Q r" "ci_status r = NeedsReconcile"
    using filter_key_1 [OF hit] by metis
  have "r = ci" using keyed_same_row [OF dis ci [unfolded intent_by_id_def] r(1,2)] .
  with r have "Q ci" "ci_status ci = NeedsReconcile" "ci_id ci = i" by simp_all
  have i: "intent_by_id j d' = map_option (\<lambda>r. if ci_id r = i \<and> Q r \<and> ci_status r = NeedsReconcile then f r else r)
      (intent_by_id j d)" for j
    using f by (simp add: intent_by_id_def ci' find_row_update)
  have i1: "map_option ci_status (intent_by_id i d') = Some IRejected"
    using ci \<open>Q ci\<close> \<open>ci_status ci = NeedsReconcile\<close> \<open>ci_id ci = i\<close> f by (simp add: i)
  have i2: "intent_by_id j d' = intent_by_id j d" if "j \<noteq> i" for j
    using that by (cases "intent_by_id j d") (auto simp: i dest: intent_by_id_Some)
  let ?P = "\<lambda>r. rc_id r = rc_id rc \<and> Q' r \<and> rc_resolved_at r = None"
  let ?rs = "update_rows ?P (closed_case clock res) (reconciliation_cases d)"
  have "closed_case clock res rc \<in> set ?rs" using rc one(2) by (auto simp: set_update_rows)
  then have c: "closed_case clock res rc \<in> set (reconciliation_cases d')"
    unfolding rc' set_update_rows using S by force
  have only: "x = rc" if "x \<in> set (reconciliation_cases d)" "?P x" for x
  proof -
    obtain y where "filter ?P (reconciliation_cases d) = [y]" using filter_key_1 [OF one(1)] by metis
    moreover have "x \<in> set (filter ?P (reconciliation_cases d))" "rc \<in> set (filter ?P (reconciliation_cases d))"
      using that rc one(2) by auto
    ultimately show ?thesis by simp
  qed
  have "filter (\<lambda>x. rc_intent_id x \<noteq> Some i) ?rs = filter (\<lambda>x. rc_intent_id x \<noteq> Some i) (reconciliation_cases d)"
  proof -
    have "filter (\<lambda>x. rc_intent_id x \<noteq> Some i) (update_rows ?P (closed_case clock res) xs) =
        filter (\<lambda>x. rc_intent_id x \<noteq> Some i) xs" if "set xs \<subseteq> set (reconciliation_cases d)" for xs
      using that by (induction xs) (auto dest: only simp: rc(2))
    then show ?thesis by simp
  qed
  moreover have "filter (\<lambda>x. rc_intent_id x \<noteq> Some i) (reconciliation_cases d') = filter (\<lambda>x. rc_intent_id x \<noteq> Some i) ?rs"
    unfolding rc' by (rule filter_update_none) (use S in auto)
  ultimately have o: "filter (\<lambda>x. rc_intent_id x \<noteq> Some i) (reconciliation_cases d') =
      filter (\<lambda>x. rc_intent_id x \<noteq> Some i) (reconciliation_cases d)" by simp
  show ?thesis
    unfolding concludes_no_fill_def
  proof (intro exI conjI)
    show "intent_by_id i d = Some ci" "ci_status ci = NeedsReconcile" by fact+
    show "\<exists>x \<in> set (reconciliation_cases d). rc_id x = rc_id rc \<and> rc_intent_id x = Some i \<and> rc_resolved_at x = None"
      using rc by blast
    show "\<exists>x \<in> set (reconciliation_cases d'). rc_id x = rc_id rc \<and> rc_intent_id x = Some i \<and> rc_resolved_at x \<noteq> None"
      by (rule bexI [OF _ c]) (simp add: rc)
  qed (use i1 i2 o lots in auto)
qed

locale no_fill_resolution =
  fixes act :: "'k \<Rightarrow> (persistent_error, int) db_act"
  assumes atomic: "act k d = (Inl e, d') \<Longrightarrow> d' = d"
    and concludes: "intents.keyed d \<Longrightarrow> attempts.keyed d \<Longrightarrow> act k d = (Inr c, d') \<Longrightarrow> concludes_no_fill c d d'"
    and moves_forward: "fwd.stays (act k)"
begin

text \<open>A recovery never clears an account that another intent still blocks.\<close>

lemma others_still_block:
  assumes k: "intents.keyed d" "attempts.keyed d" and a: "act k d = (r, d')"
    and rc: "rc \<in> set (reconciliation_cases d)" "rc_account_id rc = acc" "rc_resolved_at rc = None"
      "rc_intent_id rc = Some j" "map_option ci_status (intent_by_id j d) \<noteq> Some NeedsReconcile \<or> intent_by_id j d' = intent_by_id j d"
  shows "\<not> startup_clear acc d'"
proof (cases r)
  case (Inl e)
  with a have "d' = d" by (simp add: atomic)
  with rc show ?thesis by (auto simp: startup_clear_def)
next
  case (Inr c)
  with a concludes [OF k] obtain i ci where i: "intent_by_id i d = Some ci" "ci_status ci = NeedsReconcile"
    "map_option ci_status (intent_by_id i d') = Some IRejected"
    "filter (\<lambda>rc. rc_intent_id rc \<noteq> Some i) (reconciliation_cases d') =
       filter (\<lambda>rc. rc_intent_id rc \<noteq> Some i) (reconciliation_cases d)"
    unfolding concludes_no_fill_def by blast
  have "j \<noteq> i" using rc(5) i(1-3) by auto
  then have "rc \<in> set (filter (\<lambda>rc. rc_intent_id rc \<noteq> Some i) (reconciliation_cases d))" using rc by simp
  then have "rc \<in> set (reconciliation_cases d')" unfolding i(4) [symmetric] by simp
  with rc show ?thesis by (auto simp: startup_clear_def)
qed

lemma settles:
  assumes "intents.keyed d" "attempts.keyed d" "act k d = (r, d')"
  shows "(case r of Inl e \<Rightarrow> d' = d | Inr c \<Rightarrow> concludes_no_fill c d d') \<and> forward d d'"
  using assms fwd.staysD [OF moves_forward assms(3)] by (cases r) (auto dest: atomic concludes)

lemma lots_unchanged: "intents.keyed d \<Longrightarrow> attempts.keyed d \<Longrightarrow> act k d = (r, d') \<Longrightarrow> position_lots d' = position_lots d"
  by (cases r) (auto simp: concludes_no_fill_def dest: atomic concludes)

end

section \<open>The five recoveries\<close>

lemma fwd_stmts:
  "fwd.stays stmt \<Longrightarrow> fwd.stays (must_hit_one stmt)"
  "fwd.stays (close_case_stmt clock res Q c)" "fwd.stays (reject_intent_stmt R b reason i)"
  "fwd.stays (no_fill_attempt_stmt Q' res a)" "fwd.stays (release_no_fill_stmt clock res acc a)"
proof -
  show "fwd.stays stmt \<Longrightarrow> fwd.stays (must_hit_one stmt)"
    unfolding must_hit_one_def by (intro fwd.stays_intros)
  show "fwd.stays (no_fill_attempt_stmt Q' res a)" unfolding no_fill_attempt_stmt_def
    by (rule fwd_prims) (auto simp: same_attempt_def may_follow_def stage_def)
qed (unfold close_case_stmt_def reject_intent_stmt_def release_no_fill_stmt_def, rule fwd_prims, rule fwd_prims, rule fwd_prims)

lemma fwd_linked: "fwd.stays (resolve_linked_strict_query_failure clock acc i a res)"
  unfolding resolve_linked_strict_query_failure_def
  by (auto intro!: fwd.stays_intros fwd_stmts split: list.splits)

lemma fwd_recoveries:
  "fwd.stays (resolve_pre_submit_balance_case clock acc)"
  "fwd.stays (resolve_no_virtual_lot_sell_case X clock acc i)"
  "fwd.stays (resolve_exhausted pat reason clock acc i)"
  "fwd.stays (resolve_operator_confirmed_no_fill X clock acc a why)"
  "fwd.stays (resolve_chain_proven_gtd_no_fill X clock acc a sub ex ev)"
  unfolding resolve_pre_submit_balance_case_def resolve_no_virtual_lot_sell_case_def resolve_exhausted_def
    resolve_operator_confirmed_no_fill_def resolve_chain_proven_gtd_no_fill_def
  by (intro fwd.stays_intros fwd_stmts fwd_linked)+

lemma close_ok:
  assumes "must_hit_one (close_case_stmt clock res Q c) d = (Inr u, d')"
  shows "length (filter (\<lambda>r. rc_id r = c \<and> Q r \<and> rc_resolved_at r = None) (reconciliation_cases d)) = 1"
    "d' = put_cases (update_rows (\<lambda>r. rc_id r = c \<and> Q r \<and> rc_resolved_at r = None) (closed_case clock res)
       (reconciliation_cases d)) d"
  using assms by (simp_all add: close_case_stmt_def must_hit_one_ok)

abbreviation rejected_intent :: "bool \<Rightarrow> string \<Rightarrow> copy_intent_row \<Rightarrow> copy_intent_row" where
  "rejected_intent b reason \<equiv> (\<lambda>r. r\<lparr>ci_status := IRejected, ci_rejection_reason := Some reason,
     ci_reserved_qty := (if b then ''0'' else ci_reserved_qty r)\<rparr>)"

lemma reject_ok:
  assumes "must_hit_one (reject_intent_stmt Q b reason i) d = (Inr u, d')"
  shows "length (filter (\<lambda>r. ci_id r = i \<and> Q r \<and> ci_status r = NeedsReconcile) (copy_intents d)) = 1"
    "d' = put_intents (update_rows (\<lambda>r. ci_id r = i \<and> Q r \<and> ci_status r = NeedsReconcile)
       (rejected_intent b reason) (copy_intents d)) d"
  using assms by (simp_all add: reject_intent_stmt_def must_hit_one_ok)

text \<open>The three recoveries that only reject the intent and close the case.\<close>

lemma reject_and_close:
  assumes k: "intents.keyed d" and rows: "joined_cases P d = [(rc, ci)]" and i: "ci_id ci = i" and P: "rc_resolved_at rc = None"
    and s1: "must_hit_one (reject_intent_stmt Q b reason i) d = (Inr u, d1)"
    and s2: "must_hit_one (close_case_stmt clock res (\<lambda>_. True) (rc_id rc)) d1 = (Inr v, d')"
  shows "concludes_no_fill (rc_id rc) d d'"
proof -
  obtain j where rc: "rc \<in> set (reconciliation_cases d)" "rc_intent_id rc = Some j" "intent_by_id j d = Some ci" "ci_id ci = j"
    by (rule joined_case [OF rows])
  have j: "j = i" using rc(4) i by simp
  have d1: "reconciliation_cases d1 = reconciliation_cases d" "copy_intents d1 = update_rows
      (\<lambda>r. ci_id r = i \<and> Q r \<and> ci_status r = NeedsReconcile) (rejected_intent b reason) (copy_intents d)"
    "position_lots d1 = position_lots d"
    using reject_ok(2) [OF s1] by simp_all
  show ?thesis
    by (rule concludesI [OF k rc(3) rc(1,2) P, where Q = Q and f = "rejected_intent b reason" and Q' = "\<lambda>_. True"
          and S = "\<lambda>_. False" and clock = clock and res = res and clock' = clock and res' = res])
      (use reject_ok(1) [OF s1] close_ok [OF s2] j in \<open>simp_all add: d1 update_rows_none\<close>)
qed

lemma pre_submit_ok:
  assumes "intents.keyed d" "resolve_pre_submit_balance_case clock acc d = (Inr c, d')"
  shows "concludes_no_fill c d d'"
proof -
  let ?P = "\<lambda>rc ci. rc_account_id rc = acc \<and> rc_resolved_at rc = None \<and>
         rc_case_type rc = ''balance_drift'' \<and> rc_detail rc = Some ''strict collateral allowance query failed''"
  from assms(2) obtain rc ci d1 where rows: "joined_cases ?P d = [(rc, ci)]"
    and s: "must_hit_one (reject_intent_stmt (\<lambda>_. True) False
         ''pre-submission allowance failure reconciled; signal is not replayed'' (ci_id ci)) d = (Inr (), d1)"
      "must_hit_one (close_case_stmt clock ''fresh strict collateral and allowance read passed; no order attempt existed''
         (\<lambda>_. True) (rc_id rc)) d1 = (Inr (), d')" "c = rc_id rc"
    unfolding resolve_pre_submit_balance_case_def transaction_ok and_then_ok reads_ok or_raise_ok exactly_one_Some
    by (auto simp: and_then_ok assert_that_ok reads_ok ret_ok)
  have "rc_resolved_at rc = None" by (rule joined_case [OF rows]) simp
  from reject_and_close [OF assms(1) rows refl this s(1,2)] show ?thesis by (simp add: s(3))
qed

lemma no_virtual_lot_ok:
  assumes "intents.keyed d" "resolve_no_virtual_lot_sell_case X clock acc i d = (Inr c, d')"
  shows "concludes_no_fill c d d'"
proof -
  let ?P = "\<lambda>rc ci. rc_account_id rc = acc \<and> rc_intent_id rc = Some i \<and> rc_resolved_at rc = None \<and>
         rc_case_type rc = ''balance_drift'' \<and> rc_detail rc = Some ''computed sell quantity is not positive'' \<and>
         ci_status ci = NeedsReconcile \<and> ci_side ci = ''SELL''"
  from assms(2) obtain rc ci d1 where rows: "joined_cases ?P d = [(rc, ci)]"
    and s: "must_hit_one (reject_intent_stmt (\<lambda>_. True) True
         ''no tracked virtual lot for leader sell; signal is not replayed'' i) d = (Inr (), d1)"
      "must_hit_one (close_case_stmt clock ''verified no virtual lot for leader/token; no order attempt existed''
         (\<lambda>_. True) (rc_id rc)) d1 = (Inr (), d')" "c = rc_id rc"
    unfolding resolve_no_virtual_lot_sell_case_def transaction_ok and_then_ok reads_ok or_raise_ok exactly_one_Some
    by (auto simp: and_then_ok assert_that_ok reads_ok ret_ok lift_result_ok)
  have "rc_resolved_at rc = None" "ci_id ci = i" by (rule joined_case [OF rows], simp)+
  from reject_and_close [OF assms(1) rows this(2,1) s(1,2)] show ?thesis by (simp add: s(3))
qed

lemma exhausted_ok:
  assumes "resolve_exhausted pat reason clock acc i d = (Inr c, d')"
  obtains rc ci d1 where "joined_cases (\<lambda>rc ci. rc_account_id rc = acc \<and> rc_intent_id rc = Some i \<and>
         ci_status ci = NeedsReconcile \<and> rc_resolved_at rc = None \<and>
         rc_case_type rc = ''blocked_recovery'' \<and> rc_detail rc = Some ''retry budget exhausted'') d = [(rc, ci)]"
    "max_attempts_per_window \<le> int (attempt_count i d)"
    "\<And>oa. oa \<in> set (order_attempts d) \<Longrightarrow> oa_intent_id oa = i \<Longrightarrow> verified_rejection pat oa"
    "reserved_of_intent acc i d = 0"
    "must_hit_one (reject_intent_stmt (\<lambda>r. ci_account_id r = acc) True reason i) d = (Inr (), d1)"
    "must_hit_one (close_case_stmt clock reason (\<lambda>_. True) (rc_id rc)) d1 = (Inr (), d')" "c = rc_id rc"
proof -
  let ?as = "filter (\<lambda>r. oa_intent_id r = i) (order_attempts d)"
  from assms obtain rc ci d1 where 1: "joined_cases (\<lambda>rc ci. rc_account_id rc = acc \<and> rc_intent_id rc = Some i \<and>
         ci_status ci = NeedsReconcile \<and> rc_resolved_at rc = None \<and>
         rc_case_type rc = ''blocked_recovery'' \<and> rc_detail rc = Some ''retry budget exhausted'') d = [(rc, ci)]"
    and 2: "\<not> (int (length ?as) < max_attempts_per_window \<or> length ?as \<noteq> length (filter (verified_rejection pat) ?as))"
    and 3: "reserved_of_intent acc i d = 0"
      "must_hit_one (reject_intent_stmt (\<lambda>r. ci_account_id r = acc) True reason i) d = (Inr (), d1)"
      "must_hit_one (close_case_stmt clock reason (\<lambda>_. True) (rc_id rc)) d1 = (Inr (), d')" "c = rc_id rc"
    unfolding resolve_exhausted_def transaction_ok and_then_ok reads_ok or_raise_ok exactly_one_Some
    by (auto simp: and_then_ok assert_that_ok reads_ok ret_ok simp del: filter_filter)
  have "length (filter (verified_rejection pat) ?as) = length ?as" using 2 by simp
  then have "\<forall>x \<in> set ?as. verified_rejection pat x"
    by (metis filter_id_conv filter_True length_filter_less linorder_neq_iff)
  then show thesis using 1 2 3 by (intro that) (auto simp: attempt_count_def not_less)
qed

lemma exhausted_concludes:
  assumes "intents.keyed d" "resolve_exhausted pat reason clock acc i d = (Inr c, d')"
  shows "concludes_no_fill c d d'"
proof -
  obtain rc ci d1 where rows: "joined_cases (\<lambda>rc ci. rc_account_id rc = acc \<and> rc_intent_id rc = Some i \<and>
         ci_status ci = NeedsReconcile \<and> rc_resolved_at rc = None \<and>
         rc_case_type rc = ''blocked_recovery'' \<and> rc_detail rc = Some ''retry budget exhausted'') d = [(rc, ci)]"
    and s: "must_hit_one (reject_intent_stmt (\<lambda>r. ci_account_id r = acc) True reason i) d = (Inr (), d1)"
    "must_hit_one (close_case_stmt clock reason (\<lambda>_. True) (rc_id rc)) d1 = (Inr (), d')" "c = rc_id rc"
    by (rule exhausted_ok [OF assms(2)])
  have "rc_resolved_at rc = None" "ci_id ci = i" by (rule joined_case [OF rows], simp)+
  from reject_and_close [OF assms(1) rows this(2,1) s(1,2)] show ?thesis by (simp add: s(3))
qed

lemma open_cases_Some:
  assumes "exactly_one (open_cases_of_attempt acc i a ct d) = Some rc"
  shows "rc \<in> set (reconciliation_cases d)" "rc_account_id rc = acc" "rc_intent_id rc = Some i"
    "rc_order_attempt_id rc = Some a" "ct (rc_case_type rc)" "rc_resolved_at rc = None"
proof -
  have "rc \<in> set (open_cases_of_attempt acc i a ct d)" using assms by (auto simp: exactly_one_Some)
  then show "rc \<in> set (reconciliation_cases d)" "rc_account_id rc = acc" "rc_intent_id rc = Some i"
    "rc_order_attempt_id rc = Some a" "ct (rc_case_type rc)" "rc_resolved_at rc = None"
    by (simp_all add: open_cases_of_attempt_def)
qed

lemma attempt_with_intent_Some:
  "attempt_with_intent acc a d = Some (oa, ci) \<longleftrightarrow>
     attempt_by_id a d = Some oa \<and> intent_by_id (oa_intent_id oa) d = Some ci \<and> ci_account_id ci = acc"
  by (auto simp: attempt_with_intent_def split: option.splits if_splits)

text \<open>
  \<open>refunded\<close>: the four writes the two no-fill resolutions of an uncertain attempt share.  The attempt
  becomes \<open>rejected\<close>, the intent \<open>rejected\<close> with nothing reserved, the reservation is released, the case
  and possibly a linked query-failure case of the same attempt are closed.
\<close>

definition refunded ::
  "timestamp \<Rightarrow> string \<Rightarrow> int \<Rightarrow> int \<Rightarrow> int \<Rightarrow> db \<Rightarrow> db \<Rightarrow> bool" where
  "refunded clock resolution acc i a d d' \<longleftrightarrow>
     order_attempts d' = update_rows (\<lambda>r. oa_id r = a)
       (\<lambda>r. r\<lparr>oa_status := ARejected, oa_failure_detail := Some resolution\<rparr>) (order_attempts d) \<and>
     copy_intents d' = update_rows (\<lambda>r. ci_id r = i)
       (\<lambda>r. r\<lparr>ci_status := IRejected, ci_rejection_reason := Some resolution, ci_reserved_qty := ''0''\<rparr>) (copy_intents d) \<and>
     budget_reservations d' = update_rows (\<lambda>r. br_order_attempt_id r = a \<and> br_account_id r = acc \<and> br_state r = Reserved)
       (\<lambda>r. r\<lparr>br_state := ReleasedOperatorNoFill, br_release_reason := Some resolution, br_released_at := Some clock\<rparr>)
       (budget_reservations d) \<and>
     length (filter (\<lambda>r. br_order_attempt_id r = a \<and> br_account_id r = acc \<and> br_state r = Reserved) (budget_reservations d)) = 1 \<and>
     position_lots d' = position_lots d \<and> execution_fuse d' = execution_fuse d"

lemma no_fill_steps:
  assumes k: "intents.keyed d" "attempts.keyed d"
    and oa: "attempt_with_intent acc a d = Some (oa, ci)" "oa_status oa = Uncertain" "ci_status ci = NeedsReconcile"
    and rc: "exactly_one (open_cases_of_attempt acc (ci_id ci) a ct d) = Some rc"
    and s1: "must_hit_one (no_fill_attempt_stmt Q res a) d = (Inr u1, d1)"
    and s2: "must_hit_one (reject_intent_stmt (\<lambda>_. True) True res (ci_id ci)) d1 = (Inr u2, d2)"
    and s3: "must_hit_one (release_no_fill_stmt clock res acc a) d2 = (Inr u3, d3)"
    and s4: "must_hit_one (close_case_stmt clock res Q' (rc_id rc)) d3 = (Inr u4, d4)" "Q' rc"
    and s5: "resolve_linked_strict_query_failure clock acc (ci_id ci) a res d4 = (Inr u5, d')"
  shows "concludes_no_fill (rc_id rc) d d'" "refunded clock res acc (ci_id ci) a d d'"
proof -
  note case_facts = open_cases_Some [OF rc]
  from oa(1) have a: "attempt_by_id a d = Some oa" "intent_by_id (oa_intent_id oa) d = Some ci"
    by (simp_all add: attempt_with_intent_Some)
  then have ci: "intent_by_id (ci_id ci) d = Some ci" using intent_by_id_Some by auto
  from s1 have 1: "length (filter (\<lambda>r. oa_id r = a \<and> oa_status r = Uncertain \<and> Q r) (order_attempts d)) = 1"
    "d1 = put_attempts (update_rows (\<lambda>r. oa_id r = a \<and> oa_status r = Uncertain \<and> Q r)
       (\<lambda>r. r\<lparr>oa_status := ARejected, oa_failure_detail := Some res\<rparr>) (order_attempts d)) d"
    by (simp_all add: no_fill_attempt_stmt_def must_hit_one_ok)
  note 2 = reject_ok [OF s2]
  from s3 have 3: "length (filter (\<lambda>r. br_order_attempt_id r = a \<and> br_account_id r = acc \<and> br_state r = Reserved) (budget_reservations d2)) = 1"
    "d3 = put_reservations (update_rows (\<lambda>r. br_order_attempt_id r = a \<and> br_account_id r = acc \<and> br_state r = Reserved)
       (\<lambda>r. r\<lparr>br_state := ReleasedOperatorNoFill, br_release_reason := Some res, br_released_at := Some clock\<rparr>)
       (budget_reservations d2)) d2"
    by (simp_all add: release_no_fill_stmt_def must_hit_one_ok)
  note 4 = close_ok [OF s4(1)]
  obtain S where S: "d' = put_cases (update_rows S (closed_case clock res) (reconciliation_cases d4)) d4"
    "\<And>r. S r \<Longrightarrow> rc_intent_id r = Some (ci_id ci) \<and> rc_order_attempt_id r = Some a \<and> rc_resolved_at r = None"
    by (rule linked_ok [OF s5]) blast
  have cs: "reconciliation_cases d3 = reconciliation_cases d" by (simp add: 1(2) 2(2) 3(2))
  have its: "copy_intents d' = update_rows (\<lambda>r. ci_id r = ci_id ci \<and> True \<and> ci_status r = NeedsReconcile)
      (rejected_intent True res) (copy_intents d)" by (simp add: 1(2) 2(2) 3(2) 4(2) S(1))
  have fr: "position_lots d' = position_lots d" "execution_fuse d' = execution_fuse d"
    by (simp_all add: 1(2) 2(2) 3(2) 4(2) S(1))
  show "concludes_no_fill (rc_id rc) d d'"
    by (rule concludesI [OF k(1) ci case_facts(1,3,6), where Q = "\<lambda>_. True" and f = "rejected_intent True res" and Q' = Q'
          and S = S and clock = clock and res = res and clock' = clock and res' = res])
      (use 2(1) 1(2) 4(1) S(2) s4(2) its fr in \<open>simp_all add: cs S(1) 4(2)\<close>)
  have dis: "distinct (map oa_id (order_attempts d))" "distinct (map ci_id (copy_intents d))"
    using k by (simp_all add: attempts.keyed_def intents.keyed_def)
  have "Q oa"
  proof -
    obtain r where "r \<in> set (order_attempts d)" "oa_id r = a \<and> oa_status r = Uncertain \<and> Q r"
      using filter_key_1 [OF 1(1)] by metis
    with keyed_same_row [OF dis(1) a(1) [unfolded attempt_by_id_def]] show ?thesis by auto
  qed
  then have "order_attempts d' = update_rows (\<lambda>r. oa_id r = a)
       (\<lambda>r. r\<lparr>oa_status := ARejected, oa_failure_detail := Some res\<rparr>) (order_attempts d)"
    using guarded_update(1) [OF dis(1) a(1) [unfolded attempt_by_id_def], of "\<lambda>r. oa_status r = Uncertain \<and> Q r"] oa(2)
    by (simp add: 1(2) 2(2) 3(2) 4(2) S(1))
  moreover have "copy_intents d' = update_rows (\<lambda>r. ci_id r = ci_id ci)
       (\<lambda>r. r\<lparr>ci_status := IRejected, ci_rejection_reason := Some res, ci_reserved_qty := ''0''\<rparr>) (copy_intents d)"
    using guarded_update(1) [OF dis(2) ci [unfolded intent_by_id_def], of "\<lambda>r. ci_status r = NeedsReconcile"] oa(3)
    by (simp add: its)
  moreover have "budget_reservations d2 = budget_reservations d" by (simp add: 1(2) 2(2))
  ultimately show "refunded clock res acc (ci_id ci) a d d'"
    using 3(1) fr by (simp add: refunded_def 3(2) 4(2) S(1))
qed

lemma operator_ok:
  assumes "resolve_operator_confirmed_no_fill X clock acc a why d = (Inr c, d')"
  obtains oa ci ot rc d1 d2 d3 d4 why' where "non_empty why ''operator_reason'' = Inr why'"
    "attempt_with_intent acc a d = Some (oa, ci)" "order_type_of_json X (oa_envelope_json oa) = Some ot" "ot \<noteq> ''GTD''"
    "ci_status ci = NeedsReconcile" "oa_status oa = Uncertain"
    "exactly_one (open_cases_of_attempt acc (ci_id ci) a (\<lambda>ct. ct = ''unknown_submission'') d) = Some rc" "c = rc_id rc"
    "must_hit_one (no_fill_attempt_stmt (\<lambda>_. True)
       (''operator confirmed no fill after fresh authenticated exact-envelope trade-history lookup: '' @ why') a) d = (Inr (), d1)"
    "must_hit_one (reject_intent_stmt (\<lambda>_. True) True
       (''operator confirmed no fill after fresh authenticated exact-envelope trade-history lookup: '' @ why') (ci_id ci)) d1 = (Inr (), d2)"
    "must_hit_one (release_no_fill_stmt clock
       (''operator confirmed no fill after fresh authenticated exact-envelope trade-history lookup: '' @ why') acc a) d2 = (Inr (), d3)"
    "must_hit_one (close_case_stmt clock
       (''operator confirmed no fill after fresh authenticated exact-envelope trade-history lookup: '' @ why') (\<lambda>_. True) (rc_id rc)) d3 = (Inr (), d4)"
    "resolve_linked_strict_query_failure clock acc (ci_id ci) a
       (''operator confirmed no fill after fresh authenticated exact-envelope trade-history lookup: '' @ why') d4 = (Inr (), d')"
proof -
  define pre :: string where "pre = ''operator confirmed no fill after fresh authenticated exact-envelope trade-history lookup: ''"
  from assms show thesis
    unfolding resolve_operator_confirmed_no_fill_def pre_def [symmetric] Let_def
    by (auto simp: and_then_ok transaction_ok assert_that_ok reads_ok ret_ok or_raise_ok lift_result_ok
        intro: that [folded pre_def])
qed

lemma operator_concludes:
  assumes "intents.keyed d" "attempts.keyed d" "resolve_operator_confirmed_no_fill X clock acc a why d = (Inr c, d')"
  shows "concludes_no_fill c d d'"
proof (rule operator_ok [OF assms(3)])
  fix oa ci ot rc d1 d2 d3 d4 why'
  assume h: "attempt_with_intent acc a d = Some (oa, ci)" "ci_status ci = NeedsReconcile" "oa_status oa = Uncertain"
    "exactly_one (open_cases_of_attempt acc (ci_id ci) a (\<lambda>ct. ct = ''unknown_submission'') d) = Some rc" "c = rc_id rc"
  assume s: "must_hit_one (no_fill_attempt_stmt (\<lambda>_. True)
       (''operator confirmed no fill after fresh authenticated exact-envelope trade-history lookup: '' @ why') a) d = (Inr (), d1)"
    "must_hit_one (reject_intent_stmt (\<lambda>_. True) True
       (''operator confirmed no fill after fresh authenticated exact-envelope trade-history lookup: '' @ why') (ci_id ci)) d1 = (Inr (), d2)"
    "must_hit_one (release_no_fill_stmt clock
       (''operator confirmed no fill after fresh authenticated exact-envelope trade-history lookup: '' @ why') acc a) d2 = (Inr (), d3)"
    "must_hit_one (close_case_stmt clock
       (''operator confirmed no fill after fresh authenticated exact-envelope trade-history lookup: '' @ why') (\<lambda>_. True) (rc_id rc)) d3 = (Inr (), d4)"
    "resolve_linked_strict_query_failure clock acc (ci_id ci) a
       (''operator confirmed no fill after fresh authenticated exact-envelope trade-history lookup: '' @ why') d4 = (Inr (), d')"
  show ?thesis unfolding h(5) by (rule no_fill_steps(1) [OF assms(1,2) h(1,3,2,4) s(1,2,3,4) TrueI s(5)])
qed

text \<open>A statement that hit one row, checked later.\<close>

lemma hit_one: "stmt d = (Inr n, d') \<Longrightarrow> n = 1 \<Longrightarrow> must_hit_one stmt d = (Inr (), d')"
  by (simp add: must_hit_one_def act_ok)

lemma chain_ok:
  assumes "resolve_chain_proven_gtd_no_fill X clock acc a sub ex ev d = (Inr c, d')"
  obtains oa ci account hash submission funder env rc res d1 d2 d3 d4 detail where
    "non_empty (zp_detail ev) ''chain_evidence'' = Inr detail"
    "res = ''chain-proven GTD no fill; authenticated CLOB exact hash absent; '' @ detail"
    "attempt_with_intent acc a d = Some (oa, ci)" "account_by_id acc d = Some account"
    "oa_venue_order_id oa = Some hash" "oa_submission_started_at oa = Some submission"
    "acc_funder_address account = Some funder" "envelope_of_json X (oa_envelope_json oa) = Some env"
    "chain_evidence_matches ev sub ex oa ci env hash submission funder"
    "exactly_one (open_cases_of_attempt acc (ci_id ci) a (\<lambda>ct. ct = ''unknown_submission'') d) = Some rc" "c = rc_id rc"
    "must_hit_one (no_fill_attempt_stmt (\<lambda>r. oa_accounted_filled_qty r = ''0'') res a) d = (Inr (), d1)"
    "must_hit_one (reject_intent_stmt (\<lambda>_. True) True res (ci_id ci)) d1 = (Inr (), d2)"
    "must_hit_one (release_no_fill_stmt clock res acc a) d2 = (Inr (), d3)"
    "must_hit_one (close_case_stmt clock res (\<lambda>r. rc_account_id r = acc \<and> rc_intent_id r = Some (ci_id ci) \<and>
          rc_order_attempt_id r = Some a) (rc_id rc)) d3 = (Inr (), d4)"
    "resolve_linked_strict_query_failure clock acc (ci_id ci) a res d4 = (Inr (), d')"
proof -
  define pre :: string where "pre = ''chain-proven GTD no fill; authenticated CLOB exact hash absent; ''"
  from assms show thesis
    unfolding resolve_chain_proven_gtd_no_fill_def pre_def [symmetric] Let_def
    by (auto simp: and_then_ok transaction_ok assert_that_ok reads_ok ret_ok or_raise_ok lift_result_ok
        dest!: hit_one intro: that [folded pre_def, OF _ refl])
qed

lemma chain_no_fill:
  assumes "intents.keyed d" "attempts.keyed d" "resolve_chain_proven_gtd_no_fill X clock acc a sub ex ev d = (Inr c, d')"
  shows "concludes_no_fill c d d'"
    "\<exists>oa ci account hash submission funder env detail. attempt_with_intent acc a d = Some (oa, ci) \<and>
       account_by_id acc d = Some account \<and> oa_venue_order_id oa = Some hash \<and>
       oa_submission_started_at oa = Some submission \<and> acc_funder_address account = Some funder \<and>
       envelope_of_json X (oa_envelope_json oa) = Some env \<and>
       chain_evidence_matches ev sub ex oa ci env hash submission funder \<and>
       refunded clock (''chain-proven GTD no fill; authenticated CLOB exact hash absent; '' @ detail) acc (ci_id ci) a d d'"
proof (atomize (full), rule chain_ok [OF assms(3)])
  fix oa ci account hash submission funder env rc res d1 d2 d3 d4 detail
  assume h: "attempt_with_intent acc a d = Some (oa, ci)" "account_by_id acc d = Some account"
    "oa_venue_order_id oa = Some hash" "oa_submission_started_at oa = Some submission"
    "acc_funder_address account = Some funder" "envelope_of_json X (oa_envelope_json oa) = Some env"
    "chain_evidence_matches ev sub ex oa ci env hash submission funder"
    and res: "res = ''chain-proven GTD no fill; authenticated CLOB exact hash absent; '' @ detail"
    and rc: "exactly_one (open_cases_of_attempt acc (ci_id ci) a (\<lambda>ct. ct = ''unknown_submission'') d) = Some rc" "c = rc_id rc"
    and s: "must_hit_one (no_fill_attempt_stmt (\<lambda>r. oa_accounted_filled_qty r = ''0'') res a) d = (Inr (), d1)"
    "must_hit_one (reject_intent_stmt (\<lambda>_. True) True res (ci_id ci)) d1 = (Inr (), d2)"
    "must_hit_one (release_no_fill_stmt clock res acc a) d2 = (Inr (), d3)"
    "must_hit_one (close_case_stmt clock res (\<lambda>r. rc_account_id r = acc \<and> rc_intent_id r = Some (ci_id ci) \<and>
          rc_order_attempt_id r = Some a) (rc_id rc)) d3 = (Inr (), d4)"
    "resolve_linked_strict_query_failure clock acc (ci_id ci) a res d4 = (Inr (), d')"
  have st: "oa_status oa = Uncertain" "ci_status ci = NeedsReconcile" using h(7) by (simp_all add: chain_evidence_matches_def)
  have q: "rc_account_id rc = acc \<and> rc_intent_id rc = Some (ci_id ci) \<and> rc_order_attempt_id rc = Some a"
    using open_cases_Some [OF rc(1)] by simp
  note f = no_fill_steps [OF assms(1,2) h(1) st rc(1) s(1-4) q s(5)]
  show "concludes_no_fill c d d' \<and> (\<exists>oa ci account hash submission funder env detail. attempt_with_intent acc a d = Some (oa, ci) \<and>
       account_by_id acc d = Some account \<and> oa_venue_order_id oa = Some hash \<and>
       oa_submission_started_at oa = Some submission \<and> acc_funder_address account = Some funder \<and>
       envelope_of_json X (oa_envelope_json oa) = Some env \<and>
       chain_evidence_matches ev sub ex oa ci env hash submission funder \<and>
       refunded clock (''chain-proven GTD no fill; authenticated CLOB exact hash absent; '' @ detail) acc (ci_id ci) a d d')"
    unfolding rc(2) by (rule conjI [OF f(1)]) (intro exI conjI, fact+, rule f(2) [unfolded res])
qed

lemma guarded_transaction_error:
  "and_then (lift_result r) (\<lambda>x. transaction (m x)) d = (Inl e, d') \<Longrightarrow> d' = d"
  by (auto simp: and_then_error lift_result_def dest: transaction_error)

interpretation pre_submit: no_fill_resolution "\<lambda>(clock, acc). resolve_pre_submit_balance_case clock acc"
proof unfold_locales
  fix k d e d' assume "(\<lambda>(clock, acc). resolve_pre_submit_balance_case clock acc) k d = (Inl e, d')"
  then show "d' = d" unfolding resolve_pre_submit_balance_case_def by (cases k) (auto dest: transaction_error)
qed (auto intro: pre_submit_ok fwd_recoveries split: prod.splits)

interpretation no_virtual_lot: no_fill_resolution "\<lambda>(X, clock, acc, i). resolve_no_virtual_lot_sell_case X clock acc i"
proof unfold_locales
  fix k d e d' assume "(\<lambda>(X, clock, acc, i). resolve_no_virtual_lot_sell_case X clock acc i) k d = (Inl e, d')"
  then show "d' = d" unfolding resolve_no_virtual_lot_sell_case_def by (cases k) (auto dest: transaction_error)
qed (auto intro: no_virtual_lot_ok fwd_recoveries split: prod.splits)

interpretation exhausted: no_fill_resolution "\<lambda>(pat, reason, clock, acc, i). resolve_exhausted pat reason clock acc i"
proof unfold_locales
  fix k d e d' assume "(\<lambda>(pat, reason, clock, acc, i). resolve_exhausted pat reason clock acc i) k d = (Inl e, d')"
  then show "d' = d" unfolding resolve_exhausted_def by (cases k) (auto dest: transaction_error)
qed (auto intro: exhausted_concludes fwd_recoveries split: prod.splits)

interpretation operator_no_fill:
  no_fill_resolution "\<lambda>(X, clock, acc, a, why). resolve_operator_confirmed_no_fill X clock acc a why"
proof unfold_locales
  fix k d e d' assume "(\<lambda>(X, clock, acc, a, why). resolve_operator_confirmed_no_fill X clock acc a why) k d = (Inl e, d')"
  then show "d' = d" unfolding resolve_operator_confirmed_no_fill_def by (cases k) (auto dest: guarded_transaction_error)
qed (auto intro: operator_concludes fwd_recoveries split: prod.splits)

interpretation chain_proven:
  no_fill_resolution "\<lambda>(X, clock, acc, a, sub, ex, ev). resolve_chain_proven_gtd_no_fill X clock acc a sub ex ev"
proof unfold_locales
  fix k d e d' assume "(\<lambda>(X, clock, acc, a, sub, ex, ev). resolve_chain_proven_gtd_no_fill X clock acc a sub ex ev) k d = (Inl e, d')"
  then show "d' = d" unfolding resolve_chain_proven_gtd_no_fill_def by (cases k) (auto dest: guarded_transaction_error)
qed (auto intro: chain_no_fill(1) fwd_recoveries split: prod.splits)

section \<open>The recoveries and the books\<close>

lemma books_stmts:
  "keeps.stays (books X) stmt \<Longrightarrow> keeps.stays (books X) (must_hit_one stmt)"
  "keeps.stays (books X) (close_case_stmt clock res Q c)" "keeps.stays (books X) (reject_intent_stmt R b reason i)"
  "keeps.stays (books X) (no_fill_attempt_stmt Q' res a)" "keeps.stays (books X) (release_no_fill_stmt clock res acc a)"
proof -
  show "keeps.stays (books X) stmt \<Longrightarrow> keeps.stays (books X) (must_hit_one stmt)"
    unfolding must_hit_one_def by (intro keeps.stays_intros)
qed (unfold close_case_stmt_def reject_intent_stmt_def release_no_fill_stmt_def no_fill_attempt_stmt_def,
    rule books_prims, rule books_prims, simp add: intent_identity_def, rule books_prims,
    simp add: attempt_identity_def, rule books_prims)

lemma books_linked: "keeps.stays (books X) (resolve_linked_strict_query_failure clock acc i a res)"
  unfolding resolve_linked_strict_query_failure_def
  by (auto intro!: keeps.stays_intros books_stmts split: list.splits)

text \<open>Booking a recovered fill: what a success went through.\<close>

abbreviation reopened :: "ext \<Rightarrow> decimal \<Rightarrow> reservation_row \<Rightarrow> reservation_row" where
  "reopened X notional \<equiv> (\<lambda>r. r\<lparr>br_amount_usdc := show_dec X notional, br_state := Reserved,
     br_release_reason := None, br_released_at := None\<rparr>)"

abbreviation restorable :: "int \<Rightarrow> int \<Rightarrow> reservation_row \<Rightarrow> bool" where
  "restorable acc a \<equiv> (\<lambda>r. br_order_attempt_id r = a \<and> br_account_id r = acc \<and>
     (br_state r = ReleasedPreBoundary \<or> br_state r = Reserved))"

lemma restore_ok:
  assumes "restore_reservation_and_finalize_recovered_fill X clock acc a q n d = (Inr c, d')"
  obtains oa ci env receipt d1 d2 d3 res where "0 < q" "0 < n"
    "attempt_with_intent acc a d = Some (oa, ci)" "ci_status ci = NeedsReconcile" "oa_status oa = Uncertain"
    "envelope_of_json X (oa_envelope_json oa) = Some env" "recovered_receipt X env q = Inr receipt" "filled_qty receipt = q"
    "primary_case (open_cases_of_attempt acc (ci_id ci) a recoverable_case_type d) = Some c"
    "length (filter (restorable acc a) (budget_reservations d)) = 1"
    "finalize_receipt_with_conn X clock (ci_id ci) a receipt
       (put_reservations (update_rows (restorable acc a) (reopened X n) (budget_reservations d)) d) = (Inr (), d1)"
    "length (filter (\<lambda>r. oa_id r = a \<and> oa_status r = Uncertain) (order_attempts d1)) = 1"
    "d2 = put_attempts (update_rows (\<lambda>r. oa_id r = a \<and> oa_status r = Uncertain)
         (\<lambda>r. r\<lparr>oa_status := Finalized, oa_filled_qty := Some (show_dec X (filled_qty receipt)),
                oa_accepted_qty := Some (show_dec X (accepted_qty receipt)),
                oa_remaining_qty := Some (show_dec X (remaining_qty receipt)), oa_failure_detail := None\<rparr>)
         (order_attempts d1)) d1"
    "must_hit_one (close_case_stmt clock res (\<lambda>_. True) c) d2 = (Inr (), d3)"
    "resolve_linked_strict_query_failure clock acc (ci_id ci) a res d3 = (Inr (), d')"
proof -
  from assms show thesis
    unfolding restore_reservation_and_finalize_recovered_fill_def Let_def
    by (auto simp: and_then_ok transaction_ok assert_that_ok reads_ok ret_ok or_raise_ok lift_result_ok map_error_ok
        must_hit_one_ok not_le intro: that [OF _ _ _ _ _ _ _ _ _ _ _ _ refl])
qed

lemma books_restore:
  assumes X: "dec_codec X"
  shows "keeps.stays (books X) (restore_reservation_and_finalize_recovered_fill X clock acc a q n)"
  unfolding keeps.stays_def
proof (intro allI impI)
  fix d assume b: "books X d"
  obtain r d' where f: "restore_reservation_and_finalize_recovered_fill X clock acc a q n d = (r, d')" by fastforce
  have "books X d'"
  proof (cases r)
    case (Inl e)
    with f have "d' = d" unfolding restore_reservation_and_finalize_recovered_fill_def
      by (auto simp: and_then_error assert_that_def dest: transaction_error split: if_splits)
    with b show ?thesis by simp
  next
    case (Inr c)
    show ?thesis
    proof (rule restore_ok [OF f [unfolded Inr]])
      fix oa ci env receipt d1 d2 d3 res
      let ?d0 = "put_reservations (update_rows (restorable acc a) (reopened X n) (budget_reservations d)) d"
      assume oa: "attempt_with_intent acc a d = Some (oa, ci)"
        and fin: "finalize_receipt_with_conn X clock (ci_id ci) a receipt ?d0 = (Inr (), d1)"
        and d2: "d2 = put_attempts (update_rows (\<lambda>r. oa_id r = a \<and> oa_status r = Uncertain)
         (\<lambda>r. r\<lparr>oa_status := Finalized, oa_filled_qty := Some (show_dec X (filled_qty receipt)),
                oa_accepted_qty := Some (show_dec X (accepted_qty receipt)),
                oa_remaining_qty := Some (show_dec X (remaining_qty receipt)), oa_failure_detail := None\<rparr>)
         (order_attempts d1)) d1"
        and s: "must_hit_one (close_case_stmt clock res (\<lambda>_. True) c) d2 = (Inr (), d3)"
          "resolve_linked_strict_query_failure clock acc (ci_id ci) a res d3 = (Inr (), d')"
      have "books X ?d0" using b by (subst books_cong [where d' = d]) (simp_all add: put_reservations_def)
      moreover have "oa_intent_id x = ci_id ci" if "attempt_by_id a ?d0 = Some x" for x
        using that oa intent_by_id_Some by (auto simp: attempt_with_intent_Some attempt_by_id_def)
      ultimately have "books X d1" by (intro books_finalize_with_conn [OF X _ fin])
      then have "books X d2" unfolding d2
        by (subst books_cong [where d' = d1])
          (auto simp: put_attempts_def attempt_identity_def intro!: map_update_rows)
      with keepsD [OF books_stmts(1) [OF books_stmts(2)] _ s(1)] keepsD [OF books_linked _ s(2)] show ?thesis by blast
    qed
  qed
  then show "books X (snd (restore_reservation_and_finalize_recovered_fill X clock acc a q n d))" by (simp add: f)
qed

lemma books_recoveries:
  "keeps.stays (books X) (resolve_pre_submit_balance_case clock acc)"
  "keeps.stays (books X) (resolve_no_virtual_lot_sell_case Y clock acc i)"
  "keeps.stays (books X) (resolve_exhausted pat reason clock acc i)"
  "keeps.stays (books X) (resolve_operator_confirmed_no_fill Y clock acc a why)"
  "keeps.stays (books X) (resolve_chain_proven_gtd_no_fill Y clock acc a sub ex ev)"
  unfolding resolve_pre_submit_balance_case_def resolve_no_virtual_lot_sell_case_def resolve_exhausted_def
    resolve_operator_confirmed_no_fill_def resolve_chain_proven_gtd_no_fill_def
  by (intro keeps.stays_intros books_stmts books_linked)+

section \<open>Properties\<close>

text \<open>An account with one uncertain attempt, its reservation held and its case open.\<close>

definition blocked_db0 :: db where
  "blocked_db0 = db1\<lparr>copy_intents := [intent0\<lparr>ci_status := NeedsReconcile\<rparr>],
     order_attempts := [attempt0\<lparr>oa_status := Uncertain, oa_venue_order_id := Some ''0xa'',
       oa_submission_started_at := Some (show_dec0 1000)\<rparr>],
     reconciliation_cases := [new_case 1 ''7'' 1 (Some 1) ''unknown_submission'' ''lost'' 1],
     budget_reservations := [new_reservation ext0 1 1 1 3 1000 1],
     accounts := [\<lparr>acc_id = 1, acc_label = ''main'', acc_signing_address = ''0x5'', acc_funder_address = Some ''0xF'', acc_signature_type = ''proxy''\<rparr>]\<rparr>"

lemma blocked_db0_tables:
  "copy_intents blocked_db0 = [intent0\<lparr>ci_status := NeedsReconcile\<rparr>]"
  "order_attempts blocked_db0 = [attempt0\<lparr>oa_status := Uncertain, oa_venue_order_id := Some ''0xa'',
       oa_submission_started_at := Some (show_dec0 1000)\<rparr>]"
  "reconciliation_cases blocked_db0 = [new_case 1 ''7'' 1 (Some 1) ''unknown_submission'' ''lost'' 1]"
  "budget_reservations blocked_db0 = [new_reservation ext0 1 1 1 3 1000 1]"
  "position_lots blocked_db0 = []" "accounts blocked_db0 = [\<lparr>acc_id = 1, acc_label = ''main'', acc_signing_address = ''0x5'', acc_funder_address = Some ''0xF'', acc_signature_type = ''proxy''\<rparr>]"
  "intents.keyed blocked_db0" "attempts.keyed blocked_db0"
  by (simp_all add: blocked_db0_def db1_def db0_def intents.keyed_def attempts.keyed_def)

lemma blocked_db0_rows:
  "ci_id intent0 = 1" "ci_account_id intent0 = 1" "ci_token_id intent0 = ''7''" "ci_leader_id intent0 = 1" "ci_side intent0 = ''BUY''"
  "oa_id attempt0 = 1" "oa_intent_id attempt0 = 1" "oa_accounted_filled_qty attempt0 = ''0''"
  by (simp_all add: intent0_def attempt0_def)

lemmas no_fill_defs = must_hit_one_def no_fill_attempt_stmt_def reject_intent_stmt_def release_no_fill_stmt_def
  close_case_stmt_def resolve_linked_strict_query_failure_def open_cases_of_attempt_def exactly_one_def
  attempt_with_intent_def attempt_by_id_def intent_by_id_def new_case_def new_reservation_def

text \<open>
  A no-fill recovery settles one intent and nothing else.  Each of the six operator recoveries that
  conclude "no fill" either fails and writes nothing, or rejects exactly one intent that needed
  reconciliation and resolves an open case of that intent; every other intent, every case of another
  intent and every lot is untouched, so an account another intent blocks stays blocked, and no attempt is
  moved back to a state from which it could be submitted.
\<close>

theorem recoveries_conclude_no_fill:
  assumes "intents.keyed d" "attempts.keyed d"
    and "recovery \<in> {resolve_pre_submit_balance_case clock acc, resolve_no_virtual_lot_sell_case X clock acc i,
      resolve_exhausted_fak_no_match clock acc i, resolve_exhausted_maker_only_crossing clock acc i,
      resolve_operator_confirmed_no_fill X clock acc a why,
      resolve_chain_proven_gtd_no_fill X clock acc a submission expiry proof}"
    and "recovery d = (r, d')"
  shows "(case r of Inl e \<Rightarrow> d' = d | Inr c \<Rightarrow> concludes_no_fill c d d') \<and> forward d d'"
  using assms(3,4) pre_submit.settles [OF assms(1,2), of "(clock, acc)"]
    no_virtual_lot.settles [OF assms(1,2), of "(X, clock, acc, i)"]
    exhausted.settles [OF assms(1,2), of "(_, _, clock, acc, i)"]
    operator_no_fill.settles [OF assms(1,2), of "(X, clock, acc, a, why)"]
    chain_proven.settles [OF assms(1,2), of "(X, clock, acc, a, submission, expiry, proof)"]
  by (auto simp: resolve_exhausted_fak_no_match_def resolve_exhausted_maker_only_crossing_def)

lemma operator_sample: "\<exists>d'. resolve_operator_confirmed_no_fill ext0 9 1 1 ''seen'' blocked_db0 = (Inr 1, d')"
  by (simp add: resolve_operator_confirmed_no_fill_def transaction_def act_simps no_fill_defs blocked_db0_tables
      blocked_db0_rows non_empty_def trim_def is_space_def sql_update_def Let_def)

theorem recoveries_conclude_no_fill_witness:
  "\<exists>d'. resolve_operator_confirmed_no_fill ext0 9 1 1 ''seen'' blocked_db0 = (Inr 1, d') \<and>
     concludes_no_fill 1 blocked_db0 d'"
proof -
  obtain d' where s: "resolve_operator_confirmed_no_fill ext0 9 1 1 ''seen'' blocked_db0 = (Inr 1, d')"
    using operator_sample by blast
  from recoveries_conclude_no_fill [where recovery = "resolve_operator_confirmed_no_fill ext0 9 1 1 ''seen''",
      OF blocked_db0_tables(7,8) _ s, of 9 1 ext0 0 1 "''seen''" "[]" "[]" undefined] s
  show ?thesis by auto
qed

lemma operator_no_fill_exact:
  assumes "intents.keyed d" "attempts.keyed d" "resolve_operator_confirmed_no_fill X clock acc a why d = (Inr c, d')"
  shows "\<exists>oa ci order_type. attempt_with_intent acc a d = Some (oa, ci) \<and> oa_status oa = Uncertain \<and>
        ci_status ci = NeedsReconcile \<and> order_type_of_json X (oa_envelope_json oa) = Some order_type \<and>
        order_type \<noteq> ''GTD'' \<and> trim why \<noteq> [] \<and>
        refunded clock (''operator confirmed no fill after fresh authenticated exact-envelope trade-history lookup: ''
          @ trim why) acc (ci_id ci) a d d'"
proof (rule operator_ok [OF assms(3)])
  fix oa ci ot rc d1 d2 d3 d4 why'
  assume w: "non_empty why ''operator_reason'' = Inr why'"
    and h: "attempt_with_intent acc a d = Some (oa, ci)" "order_type_of_json X (oa_envelope_json oa) = Some ot" "ot \<noteq> ''GTD''"
    "ci_status ci = NeedsReconcile" "oa_status oa = Uncertain"
    and rc: "exactly_one (open_cases_of_attempt acc (ci_id ci) a (\<lambda>ct. ct = ''unknown_submission'') d) = Some rc"
  assume s: "must_hit_one (no_fill_attempt_stmt (\<lambda>_. True)
     (''operator confirmed no fill after fresh authenticated exact-envelope trade-history lookup: '' @ why') a) d = (Inr (), d1)"
  "must_hit_one (reject_intent_stmt (\<lambda>_. True) True
     (''operator confirmed no fill after fresh authenticated exact-envelope trade-history lookup: '' @ why') (ci_id ci)) d1 = (Inr (), d2)"
  "must_hit_one (release_no_fill_stmt clock
     (''operator confirmed no fill after fresh authenticated exact-envelope trade-history lookup: '' @ why') acc a) d2 = (Inr (), d3)"
  "must_hit_one (close_case_stmt clock
     (''operator confirmed no fill after fresh authenticated exact-envelope trade-history lookup: '' @ why') (\<lambda>_. True) (rc_id rc)) d3 = (Inr (), d4)"
  "resolve_linked_strict_query_failure clock acc (ci_id ci) a
     (''operator confirmed no fill after fresh authenticated exact-envelope trade-history lookup: '' @ why') d4 = (Inr (), d')"
  from w have w: "why' = trim why" "trim why \<noteq> []" by (simp_all add: non_empty_def Let_def split: if_splits)
  note f = no_fill_steps(2) [OF assms(1,2) h(1,5,4) rc s(1-4) TrueI s(5), unfolded w(1)]
  show ?thesis by (rule exI [of _ oa], rule exI [of _ ci], rule exI [of _ ot]) (intro conjI h w(2) f)
qed

text \<open>
  C24. Refunding an uncertain attempt needs evidence about that attempt.  An operator can write an uncertain
  attempt off only when its order was not GTD, with a non-blank reason that is kept; a GTD attempt is written
  off only on a chain proof that names its order hash, its token, its account's funder address, and the
  submission and expiry instants of the persisted attempt, and only while no fill is accounted on it.  Either way the
  attempt and its intent become \<open>rejected\<close>, the one reservation held for it is released, and lots and the
  fuse are untouched.
\<close>

theorem no_fill_refund_needs_evidence:
  assumes "intents.keyed d" "attempts.keyed d"
  shows "(resolve_operator_confirmed_no_fill X clock acc a why d = (Inr c, d') \<longrightarrow>
      (\<exists>oa ci order_type. attempt_with_intent acc a d = Some (oa, ci) \<and> oa_status oa = Uncertain \<and>
        ci_status ci = NeedsReconcile \<and> order_type_of_json X (oa_envelope_json oa) = Some order_type \<and>
        order_type \<noteq> ''GTD'' \<and> trim why \<noteq> [] \<and>
        refunded clock (''operator confirmed no fill after fresh authenticated exact-envelope trade-history lookup: ''
          @ trim why) acc (ci_id ci) a d d')) \<and>
    (resolve_chain_proven_gtd_no_fill X clock acc a submission expiry ev d = (Inr c, d') \<longrightarrow>
      (\<exists>oa ci account funder env detail. attempt_with_intent acc a d = Some (oa, ci) \<and> oa_status oa = Uncertain \<and>
        ci_status ci = NeedsReconcile \<and> envelope_of_json X (oa_envelope_json oa) = Some env \<and>
        en_order_type env = ''GTD'' \<and> oa_venue_order_id oa = Some (zp_order_hash ev) \<and>
        en_expected_taker_order_id env = zp_order_hash ev \<and> ci_token_id ci = zp_token ev \<and>
        account_by_id acc d = Some account \<and> acc_funder_address account = Some funder \<and>
        to_ascii_lowercase funder = to_ascii_lowercase (zp_maker ev) \<and>
        oa_submission_started_at oa = Some submission \<and> en_expires_at env = Some expiry \<and>
        refunded clock (''chain-proven GTD no fill; authenticated CLOB exact hash absent; '' @ detail) acc (ci_id ci) a d d'))"
proof (rule conjI; rule impI)
  assume s: "resolve_chain_proven_gtd_no_fill X clock acc a submission expiry ev d = (Inr c, d')"
  from chain_no_fill(2) [OF assms s]
  show "\<exists>oa ci account funder env detail. attempt_with_intent acc a d = Some (oa, ci) \<and> oa_status oa = Uncertain \<and>
        ci_status ci = NeedsReconcile \<and> envelope_of_json X (oa_envelope_json oa) = Some env \<and>
        en_order_type env = ''GTD'' \<and> oa_venue_order_id oa = Some (zp_order_hash ev) \<and>
        en_expected_taker_order_id env = zp_order_hash ev \<and> ci_token_id ci = zp_token ev \<and>
        account_by_id acc d = Some account \<and> acc_funder_address account = Some funder \<and>
        to_ascii_lowercase funder = to_ascii_lowercase (zp_maker ev) \<and>
        oa_submission_started_at oa = Some submission \<and> en_expires_at env = Some expiry \<and>
        refunded clock (''chain-proven GTD no fill; authenticated CLOB exact hash absent; '' @ detail) acc (ci_id ci) a d d'"
    unfolding chain_evidence_matches_def by (elim exE conjE) (simp, blast)
qed (rule operator_no_fill_exact [OF assms])

definition zero_proof0 :: zero_proof where
  "zero_proof0 = \<lparr>zp_order_hash = ''0xa'', zp_maker = ''0xF'', zp_token = ''7'', zp_detail = ''scanned''\<rparr>"

definition gtd_ext0 :: ext where
  "gtd_ext0 = ext0\<lparr>envelope_of_json := \<lambda>_. Some (envelope0\<lparr>en_order_type := ''GTD'', en_expires_at := Some ''t''\<rparr>)\<rparr>"

theorem no_fill_refund_needs_evidence_witness:
  "(\<exists>d' ci. resolve_operator_confirmed_no_fill ext0 9 1 1 ''seen'' blocked_db0 = (Inr 1, d') \<and>
     refunded 9 (''operator confirmed no fill after fresh authenticated exact-envelope trade-history lookup: '' @ trim ''seen'')
       1 ci 1 blocked_db0 d') \<and>
   (\<exists>d' ci detail. resolve_chain_proven_gtd_no_fill gtd_ext0 9 1 1 (show_dec0 1000) ''t'' zero_proof0 blocked_db0 = (Inr 1, d') \<and>
     refunded 9 (''chain-proven GTD no fill; authenticated CLOB exact hash absent; '' @ detail) 1 ci 1 blocked_db0 d')"
proof -
  obtain d1 where 1: "resolve_operator_confirmed_no_fill ext0 9 1 1 ''seen'' blocked_db0 = (Inr 1, d1)"
    using operator_sample by blast
  have "\<exists>d'. resolve_chain_proven_gtd_no_fill gtd_ext0 9 1 1 (show_dec0 1000) ''t'' zero_proof0 blocked_db0 = (Inr 1, d')"
    by (simp add: resolve_chain_proven_gtd_no_fill_def transaction_def act_simps no_fill_defs blocked_db0_tables
      blocked_db0_rows non_empty_def trim_def is_space_def sql_update_def Let_def zero_proof0_def gtd_ext0_def
      account_by_id_def chain_evidence_matches_def envelope0_def to_ascii_lowercase_def ascii_lower_def less_eq_char_def)
  then obtain d2 where 2: "resolve_chain_proven_gtd_no_fill gtd_ext0 9 1 1 (show_dec0 1000) ''t'' zero_proof0 blocked_db0
      = (Inr 1, d2)" by blast
  show ?thesis
    using no_fill_refund_needs_evidence [OF blocked_db0_tables(7,8), of ext0 9 1 1 "''seen''" 1 d1] 1
      no_fill_refund_needs_evidence [OF blocked_db0_tables(7,8), of gtd_ext0 9 1 1 _ 1 d2 "show_dec0 1000" "''t''" zero_proof0] 2
    by blast
qed

lemma finalize_with_conn_lots:
  assumes "dec_codec X" "finalize_receipt_with_conn X now i a receipt d = (Inr u, d')"
  obtains ci oa sd so_far where "intent_by_id i d = Some ci" "attempt_by_id a d = Some oa"
    "side_from_str (ci_side ci) = Some sd" "parse_dec X (oa_accounted_filled_qty oa) = Some so_far"
    "\<And>acc ldr tok. lot_value X acc ldr tok d' = lot_value X acc ldr tok d +
       (if acc = ci_account_id ci \<and> ldr = ci_leader_id ci \<and> tok = ci_token_id ci
        then signed sd (max (filled_qty receipt - so_far) 0) else 0)"
    "budget_reservations d' = budget_reservations d" "reconciliation_cases d' = reconciliation_cases d"
    "copy_intents d' = update_rows (\<lambda>r. ci_id r = i)
       (closed_intent (remaining_qty receipt > 0 \<and> max (filled_qty receipt - so_far) 0 > 0)) (copy_intents d)"
proof (rule finalize_with_conn_ok [OF assms(2)])
  fix ci oa sd so_far delta
  assume h: "intent_by_id i d = Some ci" "attempt_by_id a d = Some oa" "side_from_str (ci_side ci) = Some sd"
    "parse_dec X (oa_accounted_filled_qty oa) = Some so_far" and dl: "delta = max (filled_qty receipt - so_far) 0"
    and d': "d' = (let dl = (if delta > 0 then book_lot X now ci (signed sd delta) d else d);
               da = put_attempts (update_rows (\<lambda>r. oa_id r = a) (booked_attempt X (so_far + delta) receipt)
                      (order_attempts dl)) dl
           in put_intents (update_rows (\<lambda>r. ci_id r = i) (closed_intent (remaining_qty receipt > 0 \<and> delta > 0))
                (copy_intents da)) da)"
  let ?dl = "if delta > 0 then book_lot X now ci (signed sd delta) d else d"
  have "position_lots d' = position_lots ?dl" by (simp add: d' Let_def)
  then have "lot_value X acc ldr tok d' = lot_value X acc ldr tok ?dl" for acc ldr tok
    by (simp only: lot_value_def lot_row_def)
  moreover have "0 \<le> delta" by (simp add: dl)
  ultimately have lots: "lot_value X acc ldr tok d' = lot_value X acc ldr tok d +
       (if acc = ci_account_id ci \<and> ldr = ci_leader_id ci \<and> tok = ci_token_id ci then signed sd delta else 0)" for acc ldr tok
    using lot_value_book [OF assms(1)] by (cases "delta > 0"; cases sd) auto
  have f: "budget_reservations d' = budget_reservations d" "reconciliation_cases d' = reconciliation_cases d"
    "copy_intents d' = update_rows (\<lambda>r. ci_id r = i) (closed_intent (remaining_qty receipt > 0 \<and> delta > 0)) (copy_intents d)"
    by (auto simp: d' Let_def book_lot_def upsert_lot_def split: option.splits)
  show thesis by (rule that [OF h lots [unfolded dl] f(1,2) f(3) [unfolded dl]])
qed

lemma find_row_map: "map (\<lambda>r. (key r, f r)) xs = map (\<lambda>r. (key r, f r)) ys \<Longrightarrow>
   map_option (\<lambda>r. (key r, f r)) (find_row (\<lambda>r. key r = k) xs) = map_option (\<lambda>r. (key r, f r)) (find_row (\<lambda>r. key r = k) ys)"
proof -
  have "map_option (\<lambda>r. (key r, f r)) (find_row (\<lambda>r. key r = k) zs) = find_row (\<lambda>t. fst t = k) (map (\<lambda>r. (key r, f r)) zs)" for zs
    by (induction zs) auto
  then show "map (\<lambda>r. (key r, f r)) xs = map (\<lambda>r. (key r, f r)) ys \<Longrightarrow> ?thesis" by simp
qed

lemma primary_case_in:
  assumes "primary_case cases = Some c"
  shows "\<exists>rc \<in> set cases. rc_id rc = c"
proof -
  let ?p = "filter (\<lambda>r. rc_case_type r \<noteq> ''strict_query_failure'') cases"
  let ?s = "filter (\<lambda>r. rc_case_type r = ''strict_query_failure'') cases"
  have "?p \<noteq> [] \<and> c = rc_id (hd ?p) \<or> ?s \<noteq> [] \<and> c = rc_id (hd ?s)"
    using assms by (cases ?p; cases ?s) (auto simp: primary_case_def Let_def split: if_splits)
  then have "c \<in> rc_id ` (set ?p \<union> set ?s)" using hd_in_set [of ?p] hd_in_set [of ?s] by blast
  then show ?thesis by auto
qed

text \<open>
  C19. A recovered fill is booked once, against the attempt it belongs to.  The operator's restore either
  fails and writes nothing, or it was called with positive quantities for an uncertain attempt of an intent
  that needs reconciliation with an open recoverable case: then the lot of that intent moves by exactly the
  part of the fill not accounted before, the books stay balanced, the reservation of the attempt is held again with
  the venue's principal, the intent leaves \<open>needs_reconcile\<close> with nothing reserved, and the attempt is \<open>finalized\<close>.
\<close>

theorem recovered_fill_booked:
  assumes X: "dec_codec X" and b: "books X d"
    and f: "restore_reservation_and_finalize_recovered_fill X clock acc a filled notional d = (r, d')"
  shows "books X d' \<and> (case r of
      Inl e \<Rightarrow> d' = d
    | Inr c \<Rightarrow> 0 < filled \<and> 0 < notional \<and> (\<exists>oa ci sd so_far.
        attempt_with_intent acc a d = Some (oa, ci) \<and> oa_status oa = Uncertain \<and> ci_status ci = NeedsReconcile \<and>
        side_from_str (ci_side ci) = Some sd \<and> parse_dec X (oa_accounted_filled_qty oa) = Some so_far \<and>
        (\<exists>rc \<in> set (reconciliation_cases d). rc_id rc = c \<and> rc_order_attempt_id rc = Some a \<and> rc_resolved_at rc = None) \<and>
        (\<forall>acc' ldr tok. lot_value X acc' ldr tok d' = lot_value X acc' ldr tok d +
           (if acc' = acc \<and> ldr = ci_leader_id ci \<and> tok = ci_token_id ci
            then (case sd of Buy \<Rightarrow> 1 | Sell \<Rightarrow> -1) * max (filled - so_far) 0 else 0)) \<and>
        budget_reservations d' = update_rows (restorable acc a) (reopened X notional) (budget_reservations d) \<and>
        map_option ci_status (intent_by_id (ci_id ci) d') \<in> {Some PartiallyFilled, Some Completed} \<and>
        map_option oa_status (attempt_by_id a d') = Some Finalized))"
proof -
  have b': "books X d'" by (rule keepsD [OF books_restore [OF X] b f])
  show ?thesis
  proof (cases r)
    case (Inl e)
    with f have "d' = d" unfolding restore_reservation_and_finalize_recovered_fill_def
      by (auto simp: and_then_error assert_that_def dest: transaction_error split: if_splits)
    with b Inl show ?thesis by simp
  next
    case (Inr c)
    show ?thesis
    proof (rule restore_ok [OF f [unfolded Inr]])
      fix oa ci env and receipt :: order_receipt and d1 d2 d3 res
      let ?d0 = "put_reservations (update_rows (restorable acc a) (reopened X notional) (budget_reservations d)) d"
      let ?fin = "\<lambda>r. r\<lparr>oa_status := Finalized, oa_filled_qty := Some (show_dec X (filled_qty receipt)),
                oa_accepted_qty := Some (show_dec X (accepted_qty receipt)),
                oa_remaining_qty := Some (show_dec X (remaining_qty receipt)), oa_failure_detail := None\<rparr>"
      assume pos: "0 < filled" "0 < notional" and oa: "attempt_with_intent acc a d = Some (oa, ci)"
        and st: "ci_status ci = NeedsReconcile" "oa_status oa = Uncertain" and fq: "filled_qty receipt = filled"
        and pc: "primary_case (open_cases_of_attempt acc (ci_id ci) a recoverable_case_type d) = Some c"
        and fin: "finalize_receipt_with_conn X clock (ci_id ci) a receipt ?d0 = (Inr (), d1)"
        and d2: "d2 = put_attempts (update_rows (\<lambda>r. oa_id r = a \<and> oa_status r = Uncertain) ?fin (order_attempts d1)) d1"
        and s: "must_hit_one (close_case_stmt clock res (\<lambda>_. True) c) d2 = (Inr (), d3)"
          "resolve_linked_strict_query_failure clock acc (ci_id ci) a res d3 = (Inr (), d')"
      obtain S where d': "d' = put_cases S d3"
        by (rule linked_ok [OF s(2)]) blast
      note d3 = close_ok(2) [OF s(1)]
      obtain ci' oa' sd so_far where l: "intent_by_id (ci_id ci) ?d0 = Some ci'" "attempt_by_id a ?d0 = Some oa'"
        "side_from_str (ci_side ci') = Some sd" "parse_dec X (oa_accounted_filled_qty oa') = Some so_far"
        and lots: "\<And>acc ldr tok. lot_value X acc ldr tok d1 = lot_value X acc ldr tok ?d0 +
           (if acc = ci_account_id ci' \<and> ldr = ci_leader_id ci' \<and> tok = ci_token_id ci'
            then signed sd (max (filled_qty receipt - so_far) 0) else 0)"
        and fr: "budget_reservations d1 = budget_reservations ?d0"
        and ci1: "copy_intents d1 = update_rows (\<lambda>r. ci_id r = ci_id ci)
          (closed_intent (remaining_qty receipt > 0 \<and> max (filled_qty receipt - so_far) 0 > 0)) (copy_intents ?d0)"
        by (rule finalize_with_conn_lots [OF X fin]) blast
      from oa have a: "attempt_by_id a d = Some oa" "intent_by_id (ci_id ci) d = Some ci" "ci_account_id ci = acc"
        using intent_by_id_Some by (auto simp: attempt_with_intent_Some)
      with l(1,2) have same: "ci' = ci" "oa' = oa" by (simp_all add: intent_by_id_def attempt_by_id_def)
      have "map_option ci_status (intent_by_id (ci_id ci) d') \<in> {Some PartiallyFilled, Some Completed}"
        using a(2) by (simp add: intent_by_id_def d' d3 d2 ci1 find_row_update closed_intent_def)
      moreover have "map_option oa_status (attempt_by_id a d') = Some Finalized"
      proof -
        have "map (\<lambda>r. (oa_id r, oa_status r)) (order_attempts d1) = map (\<lambda>r. (oa_id r, oa_status r)) (order_attempts d)"
          using arg_cong [OF finalize_with_conn_rows [OF fin], of "map (\<lambda>(i, _, s). (i, s))"] by (simp add: comp_def)
        from find_row_map [OF this, of a] have "map_option (\<lambda>r. (oa_id r, oa_status r)) (attempt_by_id a d1) = Some (a, Uncertain)"
          using a(1) st(2) attempt_by_id_Some [OF a(1)] by (simp add: attempt_by_id_def del: map_option_eq_Some)
        then show ?thesis by (auto simp: attempt_by_id_def d' d3 d2 find_row_update)
      qed
      moreover have "lot_value X acc' ldr tok d' = lot_value X acc' ldr tok d + (if acc' = acc \<and> ldr = ci_leader_id ci \<and>
          tok = ci_token_id ci then (case sd of Buy \<Rightarrow> 1 | Sell \<Rightarrow> -1) * max (filled - so_far) 0 else 0)" for acc' ldr tok
      proof -
        have "position_lots d' = position_lots d1" "position_lots ?d0 = position_lots d" by (simp_all add: d' d3 d2)
        then have "lot_value X acc' ldr tok d' = lot_value X acc' ldr tok d1"
          "lot_value X acc' ldr tok ?d0 = lot_value X acc' ldr tok d" by (simp_all only: lot_value_def lot_row_def)
        then show ?thesis using lots [of acc' ldr tok] a(3) by (simp add: same fq split: side.splits)
      qed
      moreover have "budget_reservations d' = update_rows (restorable acc a) (reopened X notional) (budget_reservations d)"
        by (simp add: d' d3 d2 fr)
      moreover have "\<exists>rc \<in> set (reconciliation_cases d). rc_id rc = c \<and> rc_order_attempt_id rc = Some a \<and> rc_resolved_at rc = None"
        using primary_case_in [OF pc] by (auto simp: open_cases_of_attempt_def)
      ultimately show ?thesis using b' pos oa st l(3,4) by (auto simp: Inr same)
    qed
  qed
qed


lemma blocked_db0_books: "books ext0 blocked_db0"
proof -
  have z: "dec_val ext0 ''0'' = 0" by (simp add: dec_val_def)
  have "booked ext0 acc ldr tok blocked_db0 = 0" for acc ldr tok
    by (simp add: booked_def blocked_db0_tables fill_of_def blocked_db0_rows z split: option.splits side.splits)
  then show ?thesis
    by (simp add: books_def lots_balanced_def lot_value_def lot_row_def blocked_db0_tables attempts_linked_def
        intent_by_id_def blocked_db0_rows)
qed

theorem recovered_fill_booked_witness:
  "\<exists>d'. restore_reservation_and_finalize_recovered_fill ext0 9 1 1 5 3 blocked_db0 = (Inr 1, d') \<and>
     books ext0 d' \<and> lot_value ext0 1 1 ''7'' d' = 5"
proof -
  have "\<exists>d'. restore_reservation_and_finalize_recovered_fill ext0 9 1 1 5 3 blocked_db0 = (Inr 1, d')"
    by (simp add: restore_reservation_and_finalize_recovered_fill_def transaction_def act_simps no_fill_defs
        blocked_db0_tables blocked_db0_rows recovered_receipt_def envelope0_def receipt_from_submitted_envelope_def
        parsed_envelope_size_def parsed_buy_budget_def receipt_Inr primary_case_def recoverable_case_type_def
        finalize_receipt_with_conn_def apply_lot_delta_def side_from_str_def sql_update_def put_defs Let_def upsert_lot_def
        lot_row_def from_fak_buy_budget_def receipt_checks receipt_new_def receipt_text_def)
  then obtain d' where s: "restore_reservation_and_finalize_recovered_fill ext0 9 1 1 5 3 blocked_db0 = (Inr 1, d')" by blast
  have v: "lot_value ext0 1 1 ''7'' blocked_db0 = 0" by (simp add: lot_value_def lot_row_def blocked_db0_tables)
  have r: "attempt_with_intent 1 1 blocked_db0 = Some (attempt0\<lparr>oa_status := Uncertain, oa_venue_order_id := Some ''0xa'',
       oa_submission_started_at := Some (show_dec0 1000)\<rparr>, intent0\<lparr>ci_status := NeedsReconcile\<rparr>)"
    by (simp add: no_fill_defs blocked_db0_tables blocked_db0_rows)
  from recovered_fill_booked [OF ext0_dec_codec blocked_db0_books s] have "lot_value ext0 1 1 ''7'' d' = 5 \<and> books ext0 d'"
    by (auto simp: r v blocked_db0_rows side_from_str_def)
  with s show ?thesis by blast
qed

text \<open>
  A case of exhausted retries is closed only on proof that every try was refused.  The two recoveries
  for an exhausted retry budget succeed only when the intent used up its attempts, every one of them was
  durably started and then rejected with the venue's own wording for that refusal, and no budget
  reservation is still held for any of them.
\<close>

theorem exhausted_needs_explicit_refusals:
  assumes "resolve_exhausted_fak_no_match clock acc i d = (Inr c, d') \<and> pat = ''no orders found to match with FAK order'' \<or>
    resolve_exhausted_maker_only_crossing clock acc i d = (Inr c, d') \<and> pat = ''order crosses book''"
  shows "max_attempts_per_window \<le> int (attempt_count i d) \<and>
    (\<forall>oa \<in> set (order_attempts d). oa_intent_id oa = i \<longrightarrow>
       oa_status oa = ARejected \<and> oa_submission_started_at oa \<noteq> None \<and>
       (\<exists>detail. oa_failure_detail oa = Some detail \<and> sql_like detail pat)) \<and>
    (\<forall>p \<in> set (budget_reservations d). \<forall>oa. br_account_id p = acc \<and> attempt_by_id (br_order_attempt_id p) d = Some oa \<and>
       oa_intent_id oa = i \<longrightarrow> br_state p \<noteq> Reserved)"
proof -
  obtain reason where s: "resolve_exhausted pat reason clock acc i d = (Inr c, d')"
    using assms unfolding resolve_exhausted_fak_no_match_def resolve_exhausted_maker_only_crossing_def by blast
  show ?thesis
  proof (rule exhausted_ok [OF s], intro conjI ballI impI)
    fix oa assume v: "\<And>oa. oa \<in> set (order_attempts d) \<Longrightarrow> oa_intent_id oa = i \<Longrightarrow> verified_rejection pat oa"
      and oa: "oa \<in> set (order_attempts d)" "oa_intent_id oa = i"
    show "oa_status oa = ARejected" "oa_submission_started_at oa \<noteq> None"
      "\<exists>detail. oa_failure_detail oa = Some detail \<and> sql_like detail pat"
      using v [OF oa] by (auto simp: verified_rejection_def split: option.splits)
  next
    fix p assume p: "p \<in> set (budget_reservations d)" and "reserved_of_intent acc i d = 0"
    then show "\<forall>oa. br_account_id p = acc \<and>
        attempt_by_id (br_order_attempt_id p) d = Some oa \<and> oa_intent_id oa = i \<longrightarrow> br_state p \<noteq> Reserved"
      using p by (auto simp: reserved_of_intent_def filter_empty_conv)
  qed
qed

text \<open>An intent whose five attempts were all refused as crossing the book.\<close>

definition refused_attempt :: "int \<Rightarrow> order_attempt_row" where
  "refused_attempt n = attempt0\<lparr>oa_id := n, oa_attempt_number := n, oa_status := ARejected,
     oa_submission_started_at := Some (show_dec0 1000), oa_failure_detail := Some ''order crosses book''\<rparr>"

definition exhausted_db0 :: db where
  "exhausted_db0 = db1\<lparr>copy_intents := [intent0\<lparr>ci_status := NeedsReconcile\<rparr>],
     order_attempts := map refused_attempt [1, 2, 3, 4, 5],
     reconciliation_cases := [new_case 1 ''7'' 1 None ''blocked_recovery'' ''retry budget exhausted'' 1]\<rparr>"

theorem exhausted_needs_explicit_refusals_witness:
  "\<exists>d'. resolve_exhausted_maker_only_crossing 9 1 1 exhausted_db0 = (Inr 1, d') \<and>
     max_attempts_per_window \<le> int (attempt_count 1 exhausted_db0)"
proof -
  have t: "copy_intents exhausted_db0 = [intent0\<lparr>ci_status := NeedsReconcile\<rparr>]"
    "order_attempts exhausted_db0 = map refused_attempt [1, 2, 3, 4, 5]" "budget_reservations exhausted_db0 = []"
    "reconciliation_cases exhausted_db0 = [new_case 1 ''7'' 1 None ''blocked_recovery'' ''retry budget exhausted'' 1]"
    by (simp_all add: exhausted_db0_def db1_def db0_def)
  have l: "sql_like ''order crosses book'' ''order crosses book''"
    by (simp add: sql_like_def to_ascii_lowercase_def ascii_lower_def less_eq_char_def)
  have v: "verified_rejection ''order crosses book'' (refused_attempt n)" "oa_intent_id (refused_attempt n) = 1" for n
    by (simp_all add: verified_rejection_def refused_attempt_def l attempt0_def)
  have "\<exists>d'. resolve_exhausted_maker_only_crossing 9 1 1 exhausted_db0 = (Inr 1, d')"
    by (simp add: resolve_exhausted_maker_only_crossing_def resolve_exhausted_def transaction_def act_simps t v
        joined_cases_def List.map_filter_def new_case_def intent_by_id_def blocked_db0_rows exactly_one_def
        max_attempts_per_window_def reserved_of_intent_def must_hit_one_def reject_intent_stmt_def close_case_stmt_def
        sql_update_def put_defs)
  then obtain d' where s: "resolve_exhausted_maker_only_crossing 9 1 1 exhausted_db0 = (Inr 1, d')" by blast
  from exhausted_needs_explicit_refusals [OF disjI2 [OF conjI [OF s refl]]] s show ?thesis by blast
qed

end
