(* ===== verification/Orchestrate.thy ===== *)
theory Orchestrate
  imports Maker Recovery "HOL-Library.Product_Lexorder" "HOL-Library.List_Lexorder"
begin

text \<open>
  The orchestrator, \<open>src/src/copytrading/orchestrate/mod.rs\<close>: one intent is claimed, sized, prepared, marked,
  submitted and walked through the recovery matrix.

  \<^item> The state is a \<open>world\<close>: the database and the list of calls of \<open>submit_exact_envelope\<close> made so far, each
    with the database at the moment of the call.  The list is a record of what happened; no code reads it.
  \<^item> The venue, the signing and the balance and history readers are parameters: whatever they answer, the
    properties hold.
  \<^item> \<open>clk k\<close> is the clock as read at program point \<open>k\<close> of a call (\<open>Utc::now()\<close> or SQLite's \<open>now\<close>); each point is
    passed at most once per call.  \<open>now\<close> is the instant the runner passes in.
  \<^item> \<open>record_maker_book_best_effort\<close> writes a diagnostic table that nothing here reads, and may be dropped by a
    timeout; it is left out.
\<close>

section \<open>The world\<close>

record post =
  ps_intent :: int
  ps_attempt :: int
  ps_envelope :: prepared_order_envelope
  ps_db :: db

record world =
  w_db :: db
  posted :: "post list"

type_synonym 'a orch = "(world, orchestrate_error, 'a) act"

definition on_db :: "('e \<Rightarrow> orchestrate_error) \<Rightarrow> ('e, 'a) db_act \<Rightarrow> 'a orch" where
  "on_db wrap m = (\<lambda>w. case m (w_db w) of
       (Inl e, d) \<Rightarrow> (Inl (wrap e), w\<lparr>w_db := d\<rparr>)
     | (Inr x, d) \<Rightarrow> (Inr x, w\<lparr>w_db := d\<rparr>))"

text \<open>\<open>?\<close> on a result of \<open>execute.rs\<close>, \<open>reconcile.rs\<close>, \<open>persistent.rs\<close>, and on one of the orchestrator itself.\<close>

abbreviation exe :: "(execute_error, 'a) db_act \<Rightarrow> 'a orch" where "exe \<equiv> on_db EExecute"
abbreviation recn :: "(reconcile_error, 'a) db_act \<Rightarrow> 'a orch" where "recn \<equiv> on_db EReconcile"
abbreviation pers :: "(persistent_error, 'a) db_act \<Rightarrow> 'a orch" where "pers \<equiv> on_db EPersistent"
abbreviation orc :: "(orchestrate_error, 'a) db_act \<Rightarrow> 'a orch" where "orc \<equiv> on_db id"

definition post_envelope ::
  "copy_execution \<Rightarrow> int \<Rightarrow> int \<Rightarrow> prepared_order_envelope \<Rightarrow> (submit_error + order_receipt) orch" where
  "post_envelope execution intent_id attempt_id env = (\<lambda>w.
     (Inr (submit_exact_envelope execution env),
      w\<lparr>posted := posted w @ [\<lparr>ps_intent = intent_id, ps_attempt = attempt_id, ps_envelope = env, ps_db = w_db w\<rparr>]\<rparr>))"

definition orchestrate_error_text :: "ext \<Rightarrow> orchestrate_error \<Rightarrow> string" where
  "orchestrate_error_text X e = (case e of
       EExecute err \<Rightarrow> execute_error_text err
     | EReconcile err \<Rightarrow> reconcile_error_text err
     | EPersistent err \<Rightarrow> persistent_error_text X err
     | EPrepare err \<Rightarrow> ''envelope prepare failed: '' @ err
     | ESubmit err \<Rightarrow> (case err of
          SubmitLocal t \<Rightarrow> ''local submission error: '' @ t
        | SubmitTransport t \<Rightarrow> ''transport submission error: '' @ t
        | SubmitRejected t \<Rightarrow> ''venue rejected order: '' @ t)
     | EReceipt err \<Rightarrow> ''receipt mapping failed: '' @ err)"

section \<open>Choosing work\<close>

text \<open>
  Deadlines are compared as text by SQL.
\<close>

definition latest_number :: "int \<Rightarrow> db \<Rightarrow> int option" where
  "latest_number intent_id d =
     (case map oa_attempt_number (filter (\<lambda>r. oa_intent_id r = intent_id) (order_attempts d)) of
        [] \<Rightarrow> None | n # ns \<Rightarrow> Some (fold max ns n))"

definition token_blocked :: "copy_intent_row \<Rightarrow> db \<Rightarrow> bool" where
  "token_blocked ci d \<longleftrightarrow>
     list_ex (\<lambda>b. ci_account_id b = ci_account_id ci \<and> ci_token_id b = ci_token_id ci \<and> ci_status b = NeedsReconcile)
       (copy_intents d) \<or>
     list_ex (\<lambda>rc. rc_account_id rc = ci_account_id ci \<and> rc_token_id rc = ci_token_id ci \<and> rc_resolved_at rc = None)
       (reconciliation_cases d)"

definition deadline_key :: "copy_intent_row \<Rightarrow> nat \<times> string \<times> int" where
  "deadline_key ci = (case ci_decision_deadline_at ci of
       None \<Rightarrow> (1, [], ci_id ci)
     | Some t \<Rightarrow> (0, t, ci_id ci))"

definition list_runnable_intents :: "int \<Rightarrow> (orchestrate_error, int list) db_act" where
  "list_runnable_intents account_id = reads (\<lambda>d. map ci_id (sort_key deadline_key (filter
     (\<lambda>ci. ci_account_id ci = account_id \<and> (ci_status ci = Pending \<or> ci_status ci = InProgress) \<and> \<not> token_blocked ci d)
     (copy_intents d))))"

definition accepted_gtd :: "ext \<Rightarrow> int \<Rightarrow> db \<Rightarrow> order_attempt_row \<Rightarrow> bool" where
  "accepted_gtd X intent_id d oa \<longleftrightarrow> oa_intent_id oa = intent_id \<and> oa_status oa = Accepted \<and>
     order_type_of_json X (oa_envelope_json oa) = Some ''GTD'' \<and> latest_number intent_id d = Some (oa_attempt_number oa)"

definition gtd_polls :: "ext \<Rightarrow> int \<Rightarrow> db \<Rightarrow> int list" where
  "gtd_polls X account_id d = sort (concat (map
     (\<lambda>ci. map (\<lambda>_. ci_id ci) (filter (accepted_gtd X (ci_id ci) d) (order_attempts d)))
     (filter (\<lambda>ci. ci_account_id ci = account_id \<and> ci_status ci = InProgress) (copy_intents d))))"

definition list_runnable_intents_by_phase ::
  "ext \<Rightarrow> int \<Rightarrow> (orchestrate_error, int list \<times> int list) db_act" where
  "list_runnable_intents_by_phase X account_id =
     and_then (reads (gtd_polls X account_id)) (\<lambda>polls.
     and_then (list_runnable_intents account_id) (\<lambda>work.
     ret (polls, filter (\<lambda>i. i \<notin> set polls) work)))"

text \<open>The intent's own case does not lock it.\<close>

definition token_has_open_reconciliation_lock :: "int \<Rightarrow> (orchestrate_error, bool) db_act" where
  "token_has_open_reconciliation_lock intent_id = reads (\<lambda>d. list_ex (\<lambda>ci. ci_id ci = intent_id \<and>
     (list_ex (\<lambda>b. ci_account_id b = ci_account_id ci \<and> ci_token_id b = ci_token_id ci \<and> ci_status b = NeedsReconcile \<and>
         ci_id b \<noteq> ci_id ci) (copy_intents d) \<or>
      list_ex (\<lambda>rc. rc_account_id rc = ci_account_id ci \<and> rc_token_id rc = ci_token_id ci \<and> rc_resolved_at rc = None \<and>
         rc_intent_id rc \<noteq> Some (ci_id ci)) (reconciliation_cases d))) (copy_intents d))"

section \<open>Attempts\<close>

record attempt_view =
  at_id :: int
  at_status :: attempt_status
  at_envelope :: prepared_order_envelope

definition latest_attempt :: "int \<Rightarrow> db \<Rightarrow> order_attempt_row option" where
  "latest_attempt intent_id d =
     find_row (\<lambda>r. oa_intent_id r = intent_id \<and> latest_number intent_id d = Some (oa_attempt_number r)) (order_attempts d)"

definition load_latest_attempt :: "ext \<Rightarrow> int \<Rightarrow> (orchestrate_error, attempt_view option) db_act" where
  "load_latest_attempt X intent_id =
     and_then (reads (latest_attempt intent_id)) (\<lambda>row. case row of
       None \<Rightarrow> ret None
     | Some r \<Rightarrow>
         and_then (or_raise (EReconcile InvalidEnvelope) (envelope_of_json X (oa_envelope_json r))) (\<lambda>env.
         ret (Some \<lparr>at_id = oa_id r, at_status = oa_status r, at_envelope = env\<rparr>)))"

definition persist_expected_venue_order_id ::
  "int \<Rightarrow> int \<Rightarrow> prepared_order_envelope \<Rightarrow> (orchestrate_error, unit) db_act" where
  "persist_expected_venue_order_id intent_id attempt_id env =
     and_then (update_attempts (\<lambda>r. oa_id r = attempt_id \<and> oa_intent_id r = intent_id \<and>
        (oa_venue_order_id r = None \<or> oa_venue_order_id r = Some (en_expected_taker_order_id env)))
        (\<lambda>r. r\<lparr>oa_venue_order_id := Some (en_expected_taker_order_id env)\<rparr>)) (\<lambda>n.
     assert_that (n = 1) (EReconcile ConflictingRecoveredOrderId))"

definition mark_attempt_accepted :: "int \<Rightarrow> int \<Rightarrow> (orchestrate_error, unit) db_act" where
  "mark_attempt_accepted intent_id attempt_id =
     and_then (update_attempts (\<lambda>r. oa_id r = attempt_id \<and> oa_intent_id r = intent_id \<and>
        (oa_status r = Submitting \<or> oa_status r = Accepted)) (\<lambda>r. r\<lparr>oa_status := Accepted\<rparr>)) (\<lambda>n.
     assert_that (n = 1) (EReconcile RecInvalidAttemptTransition))"

definition ensure_gtd_order_id_before_submit :: "ext \<Rightarrow> int \<Rightarrow> attempt_view \<Rightarrow> (orchestrate_error, unit) db_act" where
  "ensure_gtd_order_id_before_submit X intent_id attempt = transaction
     (and_then (reads (\<lambda>d. find_row (\<lambda>r. oa_id r = at_id attempt \<and> oa_intent_id r = intent_id) (order_attempts d))) (\<lambda>row.
      and_then (or_raise (EReconcile AttemptNotFound) row) (\<lambda>r.
      and_then (or_raise (EReconcile InvalidEnvelope) (envelope_of_json X (oa_envelope_json r))) (\<lambda>stored_envelope.
      let expected_id = en_expected_taker_order_id (at_envelope attempt)
      in and_then (assert_that (\<not> (oa_status r \<noteq> Prepared \<or> stored_envelope \<noteq> at_envelope attempt \<or>
             en_order_type stored_envelope \<noteq> ''GTD'' \<or> trim expected_id = [] \<or> trim expected_id \<noteq> expected_id))
           (EReconcile InvalidEnvelope)) (\<lambda>_.
      case oa_venue_order_id r of
        Some i \<Rightarrow> if i = expected_id then ret () else raise (EReconcile ConflictingRecoveredOrderId)
      | None \<Rightarrow>
          and_then (update_attempts (\<lambda>r. oa_id r = at_id attempt \<and> oa_intent_id r = intent_id \<and> oa_status r = Prepared \<and>
               oa_venue_order_id r = None) (\<lambda>r. r\<lparr>oa_venue_order_id := Some expected_id\<rparr>)) (\<lambda>n.
          assert_that (n = 1) (EReconcile RecInvalidAttemptTransition)))))))"

section \<open>Submission\<close>

text \<open>\<open>SubmitAttemptMarker\<close>: the mark that has to be durable before anything is sent.\<close>

type_synonym marker = "int \<Rightarrow> int \<Rightarrow> timestamp \<Rightarrow> (orchestrate_error, unit) db_act"

definition standard_marker :: "ext \<Rightarrow> marker" where
  "standard_marker X intent_id attempt_id now = map_error EReconcile (mark_attempt_submitting X intent_id attempt_id now)"

definition persistent_marker :: "ext \<Rightarrow> runtime_config \<Rightarrow> marker" where
  "persistent_marker X config intent_id attempt_id now =
     map_error EPersistent (persistent_mark_submitting X config intent_id attempt_id now)"

definition budget_refusal :: "orchestrate_error \<Rightarrow> bool" where
  "budget_refusal e \<longleftrightarrow> (case e of
       EPersistent (LeaderBudgetExhausted _ _ _ _) \<Rightarrow> True
     | EPersistent (OrderNotionalExceeded _ _) \<Rightarrow> True
     | EPersistent (AccountBudgetExhausted _ _ _) \<Rightarrow> True
     | _ \<Rightarrow> False)"

definition is_gtd_amount_rejection :: "string \<Rightarrow> bool" where
  "is_gtd_amount_rejection detail \<longleftrightarrow>
     (let message = to_ascii_lowercase detail
      in (str_contains message ''amount'' \<or> str_contains message ''size'') \<and>
         (str_contains message ''precision'' \<or> str_contains message ''decimal'' \<or>
          str_contains message ''minimum'' \<or> str_contains message ''invalid''))"

definition settle_submission ::
  "ext \<Rightarrow> (nat \<Rightarrow> timestamp) \<Rightarrow> int \<Rightarrow> attempt_view \<Rightarrow> submit_error + order_receipt \<Rightarrow> orchestrate_outcome orch" where
  "settle_submission X clk intent_id attempt answer = (case answer of
       Inr receipt \<Rightarrow>
         and_then (orc (mark_attempt_accepted intent_id (at_id attempt))) (\<lambda>_.
         if en_order_type (at_envelope attempt) = ''GTD'' then ret Resting else
         and_then (exe (finalize_receipt X (clk 0) intent_id (at_id attempt) receipt)) (\<lambda>_.
         ret (OFilled (filled_qty receipt))))
     | Inl (SubmitTransport detail) \<Rightarrow>
         and_then (recn (mark_attempt_uncertain_after_submission_error intent_id (at_id attempt) detail)) (\<lambda>_.
         ret OUncertain)
     | Inl (SubmitRejected detail) \<Rightarrow>
         and_then (recn (mark_attempt_rejected intent_id (at_id attempt) detail)) (\<lambda>_.
         and_then (pers (release_pre_boundary_failure (clk 0) (at_id attempt) ''venue definitively rejected order'')) (\<lambda>_.
         and_then (if en_order_type (at_envelope attempt) = ''GTD'' \<and> is_gtd_amount_rejection detail
                   then exe (reject_pre_submit_intent intent_id detail) else ret ()) (\<lambda>_.
         ret ORejected)))
     | Inl (SubmitLocal detail) \<Rightarrow>
         and_then (recn (open_local_submission_failure_case X (clk 0) intent_id (at_id attempt) detail)) (\<lambda>_.
         ret (ONeedsReconcile ''local submission failure'')))"

definition mark_and_submit ::
  "ext \<Rightarrow> copy_execution \<Rightarrow> marker \<Rightarrow> (nat \<Rightarrow> timestamp) \<Rightarrow> int \<Rightarrow> attempt_view \<Rightarrow> timestamp \<Rightarrow> orchestrate_outcome orch" where
  "mark_and_submit X execution mark clk intent_id attempt now =
     handle (\<lambda>e. \<not> budget_refusal e) (orc (mark intent_id (at_id attempt) now))
       (\<lambda>e. let reason = orchestrate_error_text X e
            in and_then (recn (mark_attempt_rejected intent_id (at_id attempt) reason)) (\<lambda>_.
               and_then (exe (reject_pre_submit_intent intent_id reason)) (\<lambda>_.
               ret ORejected)))
       (\<lambda>_. and_then (post_envelope execution intent_id (at_id attempt) (at_envelope attempt))
              (settle_submission X clk intent_id attempt))"

definition submit_prepared ::
  "ext \<Rightarrow> copy_execution \<Rightarrow> marker \<Rightarrow> (nat \<Rightarrow> timestamp) \<Rightarrow> int \<Rightarrow> attempt_view \<Rightarrow> timestamp \<Rightarrow> orchestrate_outcome orch" where
  "submit_prepared X execution mark clk intent_id attempt now =
     (if en_order_type (at_envelope attempt) = ''GTD'' then
        handle (\<lambda>_. False) (orc (ensure_gtd_order_id_before_submit X intent_id attempt))
          (\<lambda>e. and_then (recn (open_reconciliation_case intent_id (Some (at_id attempt)) ''blocked_recovery''
                  (''GTD prepared order ID could not be verified before submission: '' @ orchestrate_error_text X e))) (\<lambda>_.
               ret (ONeedsReconcile ''GTD prepared order ID is not verified'')))
          (\<lambda>_. mark_and_submit X execution mark clk intent_id attempt now)
      else mark_and_submit X execution mark clk intent_id attempt now)"

section \<open>Recovery of an existing attempt\<close>

definition is_terminal_gtd_status :: "string \<Rightarrow> bool" where
  "is_terminal_gtd_status status \<longleftrightarrow> to_ascii_lowercase (trim status) \<in>
     {''matched'', ''filled'', ''confirmed'', ''mined'', ''cancelled'', ''canceled'', ''expired''}"

definition is_terminal_filled_order_status :: "string \<Rightarrow> bool" where
  "is_terminal_filled_order_status status \<longleftrightarrow>
     to_ascii_lowercase (trim status) \<in> {''matched'', ''filled'', ''confirmed'', ''mined''}"

definition receipt_from_terminal_order_state ::
  "ext \<Rightarrow> prepared_order_envelope \<Rightarrow> venue_order_state \<Rightarrow> string + order_receipt" where
  "receipt_from_terminal_order_state X env st =
     (if \<not> is_terminal_filled_order_status (vs_status st)
      then Inl (''strict order lookup returned non-terminal status '' @ vs_status st @ '' for '' @ vs_order_id st)
      else if vs_size_matched st \<le> 0
      then Inl (''strict order lookup returned terminal status '' @ vs_status st @ '' but zero matched size for ''
             @ vs_order_id st)
      else receipt_from_submitted_envelope X env (vs_size_matched st) (vs_size_matched st))"

definition query_first ::
  "ext \<Rightarrow> copy_execution \<Rightarrow> trade_history_reader \<Rightarrow> (nat \<Rightarrow> timestamp) \<Rightarrow> int \<Rightarrow> attempt_view \<Rightarrow> timestamp
     \<Rightarrow> orchestrate_outcome orch" where
  "query_first X execution trade_history clk intent_id attempt now =
     and_then (recn (recover_lost_submission_response X trade_history intent_id (at_id attempt) now)) (\<lambda>out.
     case out of
       LostNeedsReconcile \<Rightarrow> ret (ONeedsReconcile ''lost submission'')
     | LostRecovered order_id \<Rightarrow> (case order_for_receipt execution order_id of
         Inl detail \<Rightarrow>
           and_then (recn (open_reconciliation_case intent_id (Some (at_id attempt)) ''strict_query_failure'' detail)) (\<lambda>_.
           ret (ONeedsReconcile ''strict order lookup failed''))
       | Inr st \<Rightarrow> (case receipt_from_terminal_order_state X (at_envelope attempt) st of
           Inl detail \<Rightarrow>
             and_then (recn (open_reconciliation_case intent_id (Some (at_id attempt)) ''unknown_submission'' detail)) (\<lambda>_.
             ret (ONeedsReconcile ''strict order state not terminal''))
         | Inr receipt \<Rightarrow>
             and_then (exe (finalize_receipt X (clk 0) intent_id (at_id attempt) receipt)) (\<lambda>_.
             ret (OFilled (filled_qty receipt))))))"

definition reconcile_or_finalize ::
  "ext \<Rightarrow> copy_execution \<Rightarrow> (nat \<Rightarrow> timestamp) \<Rightarrow> int \<Rightarrow> attempt_view \<Rightarrow> orchestrate_outcome orch" where
  "reconcile_or_finalize X execution clk intent_id attempt =
     (case query_prepared_envelope execution (at_envelope attempt) of
        Inl detail \<Rightarrow>
          and_then (recn (open_reconciliation_case intent_id (Some (at_id attempt)) ''strict_query_failure'' detail)) (\<lambda>_.
          ret (ONeedsReconcile ''prepared envelope lookup failed''))
      | Inr (Some receipt) \<Rightarrow>
          and_then (exe (finalize_receipt X (clk 0) intent_id (at_id attempt) receipt)) (\<lambda>_.
          ret (OFilled (filled_qty receipt)))
      | Inr None \<Rightarrow>
          and_then (recn (open_reconciliation_case intent_id (Some (at_id attempt)) ''unknown_submission''
             ''accepted attempt has no recoverable receipt'')) (\<lambda>_.
          ret (ONeedsReconcile ''accepted without receipt'')))"

section \<open>A resting GTD order\<close>

definition gtd_lookup_deadline :: "ext \<Rightarrow> prepared_order_envelope \<Rightarrow> timestamp option" where
  "gtd_lookup_deadline X env = (case en_expires_at env of
       None \<Rightarrow> None
     | Some raw \<Rightarrow> (case parse_time X raw of None \<Rightarrow> None | Some t \<Rightarrow> Some (t + 5 * 60 * 1000)))"

definition gtd_lookup_failed ::
  "ext \<Rightarrow> int \<Rightarrow> attempt_view \<Rightarrow> timestamp \<Rightarrow> string \<Rightarrow> orchestrate_outcome orch" where
  "gtd_lookup_failed X intent_id attempt now detail =
     (let escalate =
        and_then (recn (mark_attempt_gtd_lookup_failed X intent_id (at_id attempt)
           (''GTD live-order lookup failed after expiry margin or without a valid expires_at: '' @ detail))) (\<lambda>transitioned.
        ret (if transitioned then OUncertain else ONeedsReconcile ''GTD lookup failed; attempt already transitioned''))
      in case gtd_lookup_deadline X (at_envelope attempt) of
           Some deadline \<Rightarrow> if now < deadline then ret (GtdLookupRetry detail (deadline - now)) else escalate
         | None \<Rightarrow> escalate)"

definition close_unfilled_gtd :: "int \<Rightarrow> int \<Rightarrow> (orchestrate_error, unit) db_act" where
  "close_unfilled_gtd intent_id attempt_id = transaction
     (and_then (update_attempts (\<lambda>r. oa_id r = attempt_id \<and> oa_intent_id r = intent_id)
        (\<lambda>r. r\<lparr>oa_status := Finalized, oa_filled_qty := Some ''0'',
               oa_failure_detail := Some ''GTD expired or cancelled without a fill''\<rparr>)) (\<lambda>_.
      and_then (update_intents (\<lambda>r. ci_id r = intent_id \<and> ci_status r = InProgress)
        (\<lambda>r. r\<lparr>ci_status := Cancelled, ci_reserved_qty := ''0'',
               ci_rejection_reason := Some ''post-only GTD expired or cancelled without a fill''\<rparr>)) (\<lambda>_. ret ())))"

definition poll_resting_gtd ::
  "ext \<Rightarrow> copy_execution \<Rightarrow> (nat \<Rightarrow> timestamp) \<Rightarrow> int \<Rightarrow> attempt_view \<Rightarrow> timestamp \<Rightarrow> orchestrate_outcome orch" where
  "poll_resting_gtd X execution clk intent_id attempt now =
     (case order_for_receipt execution (en_expected_taker_order_id (at_envelope attempt)) of
        Inl detail \<Rightarrow> gtd_lookup_failed X intent_id attempt now detail
      | Inr st \<Rightarrow>
      if \<not> is_terminal_gtd_status (vs_status st) then
        and_then (orc (update_attempts (\<lambda>r. oa_id r = at_id attempt \<and> oa_intent_id r = intent_id)
           (\<lambda>r. r\<lparr>oa_filled_qty := Some (show_dec X (vs_size_matched st))\<rparr>))) (\<lambda>_. ret Resting)
      else if vs_size_matched st > 0 then
        (case parse_dec X (en_size (at_envelope attempt)) of
           None \<Rightarrow> raise (EReceipt ''invalid GTD envelope size'')
         | Some requested \<Rightarrow> (case receipt_new requested requested (vs_size_matched st) 0 of
             Inl e \<Rightarrow> raise (EReceipt (receipt_error_text X e))
           | Inr receipt \<Rightarrow>
               and_then (exe (finalize_receipt X (clk 0) intent_id (at_id attempt) receipt)) (\<lambda>_.
               ret (OFilled (vs_size_matched st)))))
      else and_then (orc (close_unfilled_gtd intent_id (at_id attempt))) (\<lambda>_. ret OExpired))"

definition poll_accepted_gtd_intent ::
  "ext \<Rightarrow> copy_execution \<Rightarrow> (nat \<Rightarrow> timestamp) \<Rightarrow> int \<Rightarrow> timestamp \<Rightarrow> orchestrate_outcome orch" where
  "poll_accepted_gtd_intent X execution clk intent_id now =
     and_then (orc (token_has_open_reconciliation_lock intent_id)) (\<lambda>locked.
     if locked then ret (OBlocked ''account/token needs reconciliation'') else
     and_then (orc (reads (\<lambda>d. map_option ci_status (intent_by_id intent_id d)))) (\<lambda>status.
     if status \<noteq> Some InProgress then ret NotClaimed else
     and_then (orc (load_latest_attempt X intent_id)) (\<lambda>latest. case latest of
       None \<Rightarrow> ret NotClaimed
     | Some attempt \<Rightarrow>
         if at_status attempt \<noteq> Accepted \<or> en_order_type (at_envelope attempt) \<noteq> ''GTD'' then ret NotClaimed
         else poll_resting_gtd X execution clk intent_id attempt now)))"


section \<open>The maker fallback after a FAK found no match\<close>

definition no_fak_text :: string where
  "no_fak_text = ''no orders found to match with FAK order''"

definition no_fak_rejected :: "order_attempt_row \<Rightarrow> bool" where
  "no_fak_rejected r \<longleftrightarrow> oa_status r = ARejected \<and>
     (case oa_failure_detail r of None \<Rightarrow> False | Some detail \<Rightarrow> sql_like detail no_fak_text)"

definition is_explicit_no_fak_rejection :: "int \<Rightarrow> (orchestrate_error, bool) db_act" where
  "is_explicit_no_fak_rejection attempt_id =
     reads (\<lambda>d. list_ex (\<lambda>r. oa_id r = attempt_id \<and> no_fak_rejected r) (order_attempts d))"

definition no_fak_rejection_count :: "int \<Rightarrow> (orchestrate_error, nat) db_act" where
  "no_fak_rejection_count intent_id =
     reads (\<lambda>d. length (filter (\<lambda>r. oa_intent_id r = intent_id \<and> no_fak_rejected r) (order_attempts d)))"

text \<open>Persisting the envelope of the next attempt, and loading it back.\<close>

definition persist_next_attempt ::
  "ext \<Rightarrow> timestamp \<Rightarrow> int \<Rightarrow> prepared_order_envelope \<Rightarrow> unit orch" where
  "persist_next_attempt X clock intent_id env =
     and_then (exe (next_attempt_number intent_id)) (\<lambda>attempt_number.
     and_then (recn (load_or_prepare_attempt X clock intent_id attempt_number env)) (\<lambda>_. ret ()))"

definition load_prepared :: "ext \<Rightarrow> int \<Rightarrow> string \<Rightarrow> attempt_view orch" where
  "load_prepared X intent_id missing =
     and_then (orc (load_latest_attempt X intent_id)) (\<lambda>latest.
     and_then (or_raise (EExecute (ExecDatabase missing)) latest) (\<lambda>attempt.
     and_then (orc (persist_expected_venue_order_id intent_id (at_id attempt) (at_envelope attempt))) (\<lambda>_.
     ret attempt)))"

definition reject_with :: "int \<Rightarrow> string \<Rightarrow> orchestrate_outcome orch" where
  "reject_with intent_id reason = and_then (exe (reject_pre_submit_intent intent_id reason)) (\<lambda>_. ret ORejected)"

definition submit_post_only_gtd_after_initial_no_fak ::
  "ext \<Rightarrow> balance_reader \<Rightarrow> copy_execution \<Rightarrow> envelope_factory \<Rightarrow> marker \<Rightarrow> (nat \<Rightarrow> timestamp) \<Rightarrow> claimed_intent \<Rightarrow> timestamp
     \<Rightarrow> orchestrate_outcome orch" where
  "submit_post_only_gtd_after_initial_no_fak X reader execution envelopes mark clk claimed now =
     (let intent_id = cl_intent_id claimed in
     and_then (exe (claim_or_resume_intent X intent_id)) (\<lambda>retry. case retry of
       None \<Rightarrow> ret NotClaimed
     | Some retry_claimed \<Rightarrow> (case cl_existing_decision retry_claimed of
         None \<Rightarrow>
           and_then (exe (open_balance_drift_case claimed
              ''post-only GTD retry is missing its persisted fixed-share decision'')) (\<lambda>_.
           ret (ONeedsReconcile ''post-only GTD retry is missing its persisted fixed-share decision''))
       | Some (target_qty, _, _) \<Rightarrow> (case ef_market_spec_for_gtd envelopes (cl_condition_id retry_claimed) of
           Inl detail \<Rightarrow> reject_with intent_id (''post-only GTD market-end lookup failed: '' @ detail)
         | Inr market \<Rightarrow>
     if gm_expires_at market \<le> now then and_then (exe (cancel_expired_intent intent_id)) (\<lambda>_. ret OExpired) else
     if target_qty < gm_minimum_order_size market
     then reject_with intent_id (''post-only GTD size '' @ show_dec X target_qty @ '' is below market minimum ''
            @ show_dec X (gm_minimum_order_size market) @ '' shares'') else
     and_then (lift_result (floor_to_valid_maker_price X (cl_leader_price retry_claimed) (gm_tick_size market) target_qty)) (\<lambda>maker_price.
     and_then (exe (reprice_fixed_share_buy_after_no_fak X (clk 0) reader retry_claimed maker_price)) (\<lambda>sized. case sized of
       SzNeedsReconcile reason \<Rightarrow> and_then (exe (open_balance_drift_case claimed reason)) (\<lambda>_. ret (ONeedsReconcile reason))
     | Expired \<Rightarrow> and_then (exe (cancel_expired_intent intent_id)) (\<lambda>_. ret OExpired)
     | SzRejected reason \<Rightarrow> reject_with intent_id reason
     | Decision decision \<Rightarrow> (case ef_prepare_post_only_gtd_buy envelopes decision (gm_expires_at market) of
         Inl detail \<Rightarrow> reject_with intent_id (''post-only GTD envelope preparation failed: '' @ detail)
       | Inr envelope \<Rightarrow>
           and_then (persist_next_attempt X (clk 1) intent_id envelope) (\<lambda>_.
           and_then (load_prepared X intent_id ''missing attempt after post-only GTD preparation'') (\<lambda>attempt.
           submit_prepared X execution mark (\<lambda>k. clk (2 + k)) intent_id attempt now)))))))))"

definition maybe_retry_no_fak_once ::
  "ext \<Rightarrow> balance_reader \<Rightarrow> copy_execution \<Rightarrow> envelope_factory \<Rightarrow> marker \<Rightarrow> (nat \<Rightarrow> timestamp) \<Rightarrow> claimed_intent
     \<Rightarrow> attempt_view \<Rightarrow> orchestrate_outcome \<Rightarrow> timestamp \<Rightarrow> orchestrate_outcome orch" where
  "maybe_retry_no_fak_once X reader execution envelopes mark clk claimed failed_attempt outcome now =
     (if outcome \<noteq> ORejected then ret outcome else
      and_then (orc (is_explicit_no_fak_rejection (at_id failed_attempt))) (\<lambda>explicit.
      if \<not> explicit then ret outcome else
      and_then (orc (no_fak_rejection_count (cl_intent_id claimed))) (\<lambda>no_match_count.
      if no_match_count = 1
      then submit_post_only_gtd_after_initial_no_fak X reader execution envelopes mark clk claimed now
      else reject_with (cl_intent_id claimed) ''unexpected repeated no-FAK rejection after maker fallback selection'')))"

section \<open>Preparing an attempt\<close>

datatype retry_preparation = RPrepared | RExpired | RRejected

definition refuse_maker_only :: "int \<Rightarrow> maker_only_error \<Rightarrow> 'a \<Rightarrow> 'a \<Rightarrow> 'a orch" where
  "refuse_maker_only intent_id e expired rejected = (case e of
       MkExpired \<Rightarrow> and_then (exe (cancel_expired_intent intent_id)) (\<lambda>_. ret expired)
     | MarketSpec detail \<Rightarrow>
         and_then (exe (reject_pre_submit_intent intent_id (''maker-only GTD market-end lookup failed: '' @ detail))) (\<lambda>_. ret rejected)
     | BestAsk detail \<Rightarrow>
         and_then (exe (reject_pre_submit_intent intent_id (''maker-only best-ask lookup failed: '' @ detail))) (\<lambda>_. ret rejected)
     | MkPrepare detail \<Rightarrow>
         and_then (exe (reject_pre_submit_intent intent_id (''maker-only envelope preparation failed: '' @ detail))) (\<lambda>_. ret rejected))"

definition prepare_new_attempt ::
  "ext \<Rightarrow> balance_reader \<Rightarrow> envelope_factory \<Rightarrow> (nat \<Rightarrow> timestamp) \<Rightarrow> claimed_intent \<Rightarrow> timestamp \<Rightarrow> retry_preparation orch" where
  "prepare_new_attempt X reader envelopes clk claimed now =
     (let intent_id = cl_intent_id claimed in
     and_then (exe (size_and_reserve X (clk 0) (clk 1) reader claimed)) (\<lambda>sized. case sized of
       SzNeedsReconcile reason \<Rightarrow>
         and_then (exe (open_balance_drift_case claimed reason)) (\<lambda>_. raise (EExecute (ExecDatabase reason)))
     | Expired \<Rightarrow> and_then (exe (cancel_expired_intent intent_id)) (\<lambda>_. ret RExpired)
     | SzRejected reason \<Rightarrow> and_then (exe (reject_pre_submit_intent intent_id reason)) (\<lambda>_. ret RRejected)
     | Decision decision \<Rightarrow>
         if sd_maker_only decision then
           (case prepare_maker_only_envelope X envelopes (cl_condition_id claimed) decision (cl_leader_price claimed) now of
              Inl e \<Rightarrow> refuse_maker_only intent_id e RExpired RRejected
            | Inr maker \<Rightarrow>
                and_then (persist_next_attempt X (clk 2) intent_id (mo_envelope maker)) (\<lambda>_. ret RPrepared))
         else
           (case ef_prepare envelopes decision of
              Inl detail \<Rightarrow>
                and_then (exe (reject_pre_submit_intent intent_id (''envelope preparation failed: '' @ detail))) (\<lambda>_. ret RRejected)
            | Inr envelope \<Rightarrow>
                and_then (persist_next_attempt X (clk 2) intent_id envelope) (\<lambda>_. ret RPrepared))))"

section \<open>Walking one intent\<close>

definition walk_existing_attempt ::
  "ext \<Rightarrow> balance_reader \<Rightarrow> copy_execution \<Rightarrow> envelope_factory \<Rightarrow> trade_history_reader \<Rightarrow> marker \<Rightarrow> (nat \<Rightarrow> timestamp)
     \<Rightarrow> claimed_intent \<Rightarrow> attempt_view \<Rightarrow> timestamp \<Rightarrow> orchestrate_outcome orch" where
  "walk_existing_attempt X reader execution envelopes trade_history mark clk claimed attempt now =
     (let intent_id = cl_intent_id claimed in
     if en_order_type (at_envelope attempt) = ''GTD'' \<and> at_status attempt = Accepted
     then poll_resting_gtd X execution clk intent_id attempt now else
     and_then (recn (attempts_in_window (clk 0) intent_id)) (\<lambda>window_count.
     case permitted_recovery_action (attempt_status_text (at_status attempt)) True window_count of
       MarkSubmittingThenSubmit \<Rightarrow>
         and_then (submit_prepared X execution mark (\<lambda>k. clk (1 + k)) intent_id attempt now) (\<lambda>outcome.
         maybe_retry_no_fak_once X reader execution envelopes mark (\<lambda>k. clk (10 + k)) claimed attempt outcome now)
     | QueryFirst \<Rightarrow> query_first X execution trade_history (\<lambda>k. clk (1 + k)) intent_id attempt now
     | ReconcileOrFinalize \<Rightarrow> reconcile_or_finalize X execution (\<lambda>k. clk (1 + k)) intent_id attempt
     | MayPrepareNewAttempt \<Rightarrow>
         and_then (orc (is_explicit_no_fak_rejection (at_id attempt))) (\<lambda>explicit.
         if explicit
         then maybe_retry_no_fak_once X reader execution envelopes mark (\<lambda>k. clk (10 + k)) claimed attempt ORejected now
         else
           and_then (prepare_new_attempt X reader envelopes (\<lambda>k. clk (1 + k)) claimed now) (\<lambda>prep. case prep of
             RExpired \<Rightarrow> ret OExpired
           | RRejected \<Rightarrow> ret ORejected
           | RPrepared \<Rightarrow>
               and_then (load_prepared X intent_id ''missing attempt after retry prepare'') (\<lambda>attempt.
               submit_prepared X execution mark (\<lambda>k. clk (10 + k)) intent_id attempt now)))
     | Blocked reason \<Rightarrow>
         and_then (recn (open_reconciliation_case intent_id (Some (at_id attempt)) ''blocked_recovery'' reason)) (\<lambda>_.
         ret (OBlocked reason))))"

definition start_first_attempt ::
  "ext \<Rightarrow> balance_reader \<Rightarrow> copy_execution \<Rightarrow> envelope_factory \<Rightarrow> marker \<Rightarrow> (nat \<Rightarrow> timestamp)
     \<Rightarrow> claimed_intent \<Rightarrow> timestamp \<Rightarrow> orchestrate_outcome orch" where
  "start_first_attempt X reader execution envelopes mark clk claimed now =
     (let intent_id = cl_intent_id claimed in
     and_then (exe (size_and_reserve X (clk 0) (clk 1) reader claimed)) (\<lambda>sized. case sized of
       SzNeedsReconcile reason \<Rightarrow> and_then (exe (open_balance_drift_case claimed reason)) (\<lambda>_. ret (ONeedsReconcile reason))
     | Expired \<Rightarrow> and_then (exe (cancel_expired_intent intent_id)) (\<lambda>_. ret OExpired)
     | SzRejected reason \<Rightarrow> reject_with intent_id reason
     | Decision decision \<Rightarrow>
         if sd_maker_only decision then
           (case prepare_maker_only_envelope X envelopes (cl_condition_id claimed) decision (cl_leader_price claimed) now of
              Inl e \<Rightarrow> refuse_maker_only intent_id e OExpired ORejected
            | Inr maker \<Rightarrow>
                and_then (persist_next_attempt X (clk 2) intent_id (mo_envelope maker)) (\<lambda>_.
                and_then (load_prepared X intent_id ''missing attempt after maker-only preparation'') (\<lambda>attempt.
                submit_prepared X execution mark (\<lambda>k. clk (3 + k)) intent_id attempt now)))
         else
           (case ef_prepare envelopes decision of
              Inl detail \<Rightarrow> reject_with intent_id (''envelope preparation failed: '' @ detail)
            | Inr envelope \<Rightarrow>
                and_then (persist_next_attempt X (clk 2) intent_id envelope) (\<lambda>_.
                and_then (load_prepared X intent_id ''missing attempt after prepare'') (\<lambda>attempt.
                and_then (submit_prepared X execution mark (\<lambda>k. clk (3 + k)) intent_id attempt now) (\<lambda>outcome.
                maybe_retry_no_fak_once X reader execution envelopes mark (\<lambda>k. clk (10 + k)) claimed attempt outcome now))))))"

definition execute_one_intent_with_marker ::
  "ext \<Rightarrow> balance_reader \<Rightarrow> copy_execution \<Rightarrow> envelope_factory \<Rightarrow> trade_history_reader \<Rightarrow> marker \<Rightarrow> (nat \<Rightarrow> timestamp)
     \<Rightarrow> int \<Rightarrow> timestamp \<Rightarrow> orchestrate_outcome orch" where
  "execute_one_intent_with_marker X reader execution envelopes trade_history mark clk intent_id now =
     and_then (orc (token_has_open_reconciliation_lock intent_id)) (\<lambda>locked.
     if locked then ret (OBlocked ''account/token needs reconciliation'') else
     and_then (exe (claim_or_resume_intent X intent_id)) (\<lambda>claimed. case claimed of
       None \<Rightarrow> ret NotClaimed
     | Some claimed \<Rightarrow>
         and_then (orc (load_latest_attempt X intent_id)) (\<lambda>latest. case latest of
           Some attempt \<Rightarrow>
             walk_existing_attempt X reader execution envelopes trade_history mark clk claimed attempt now
         | None \<Rightarrow> start_first_attempt X reader execution envelopes mark clk claimed now)))"

definition execute_one_intent ::
  "ext \<Rightarrow> balance_reader \<Rightarrow> copy_execution \<Rightarrow> envelope_factory \<Rightarrow> trade_history_reader \<Rightarrow> (nat \<Rightarrow> timestamp)
     \<Rightarrow> int \<Rightarrow> timestamp \<Rightarrow> orchestrate_outcome orch" where
  "execute_one_intent X reader execution envelopes trade_history clk intent_id now =
     execute_one_intent_with_marker X reader execution envelopes trade_history (standard_marker X) clk intent_id now"

section \<open>The operations move attempts forward\<close>

text \<open>Planning, claiming, sizing and closing an intent do not touch the attempts.\<close>

interpretation same_attempts: frame_rel "\<lambda>d d'. order_attempts d' = order_attempts d"
  by unfold_locales auto

lemma same_prims:
  "same_attempts.stays (update_intents P f)" "same_attempts.stays (insert_intent mk)"
  "same_attempts.stays (update_cases P' f')" "same_attempts.stays (insert_case mk')"
  "same_attempts.stays (update_reservations P'' f'')" "same_attempts.stays (insert_reservation mk'')"
  by (rule same_attempts.stays_update same_attempts.stays_insert, simp)+

lemma ro_same: "ro.stays m \<Longrightarrow> same_attempts.stays m"
  by (simp add: ro.stays_def same_attempts.stays_def)

lemma same_fwd: "same_attempts.stays m \<Longrightarrow> fwd.stays m"
  by (auto simp: same_attempts.stays_def fwd.stays_def intro: fwd_same)

lemma same_plan_batch: "same_attempts.stays (plan_next_batch_with_limit Y clk acc n)"
proof -
  have c: "same_attempts.stays (advance_cursor acc e)" for e
    unfolding advance_cursor_def by (rule same_attempts.stays_modifies) simp
  have l: "same_attempts.stays (insert_or_ignore_lock acc cond tok i)" for cond tok i
    unfolding insert_or_ignore_lock_def same_attempts.stays_def by simp
  have i: "same_attempts.stays (insert_or_ignore_intent acc ev sched dn)" for ev sched dn
    unfolding insert_or_ignore_intent_def same_attempts.stays_def
    by (simp add: and_then_def sql_insert_def Let_def ret_def)
  have tx: "same_attempts.stays (plan_event_tx acc ev sched dn)" for ev sched dn
    unfolding plan_event_tx_def market_direction_gate_def by (intro same_attempts.stays_intros c l i same_prims)
  have e: "same_attempts.stays (plan_events Y clk acc sched evs sm)" for sched evs sm
  proof (induction evs arbitrary: sm)
    case (Cons ev evs)
    have "same_attempts.stays (plan_one Y now acc sched ev sm)" for now
      unfolding plan_one_def by (intro same_attempts.stays_intros c tx ro_same [OF evaluate_event_ro])
    then show ?case by (simp add: same_attempts.stays_and_then Cons.IH)
  qed (simp add: same_attempts.stays_basic)
  show ?thesis unfolding plan_next_batch_with_limit_def
    by (intro same_attempts.stays_intros e ro_same [OF load_execution_schedule_ro])
qed

lemma same_claim: "same_attempts.stays (claim_or_resume_intent Y i)"
  unfolding claim_or_resume_intent_def claim_row_def
  by (intro same_attempts.stays_intros same_prims ro_same [OF claimed_of_row_ro])

lemma same_size: "same_attempts.stays (size_and_reserve Y now sql_now reader cl)"
proof -
  have "same_attempts.stays (size_fresh Y sql_now reader cl policy)" for policy
    unfolding size_fresh_def persist_decision_def
    by (cases "cl_side cl"; simp only: side.case)
      (intro same_attempts.stays_intros same_prims ro_same [OF load_ro(8)] ro_same [OF size_side_ro(1)] ro_same [OF size_side_ro(2)])+
  then show ?thesis unfolding size_and_reserve_def by (intro same_attempts.stays_intros ro_same [OF load_ro(1)])
qed

lemma same_reprice: "same_attempts.stays (reprice_fixed_share_buy_after_no_fak Y now reader cl p)"
  unfolding reprice_fixed_share_buy_after_no_fak_def fixed_share_mismatch_def
  by (intro same_attempts.stays_intros same_prims ro_same [OF load_ro(1)] ro_same [OF load_ro(7)])

lemma same_close:
  "same_attempts.stays (open_balance_drift_case cl reason)" "same_attempts.stays (reject_pre_submit_intent i reason)"
  "same_attempts.stays (release_pre_boundary_failure clock a why)" "same_attempts.stays (release_definitive_rejection clock acc a)"
  unfolding open_balance_drift_case_def reject_pre_submit_intent_def release_definitive_rejection_def
    release_pre_boundary_failure_def release_pre_boundary_failure_with_conn_def
  by (intro same_attempts.stays_intros same_prims)+

lemmas fwd_same_operations =
  same_plan_batch [THEN same_fwd] same_claim [THEN same_fwd] same_size [THEN same_fwd] same_reprice [THEN same_fwd]
  same_close [THEN same_fwd]

lemma fwd_cancel:
  "fwd.stays (cancel_expired_intent i)" "fwd.stays (cancel_overdue_pre_submit_intent Y now acc j)"
proof -
  show c: "fwd.stays (cancel_expired_intent i)" for i
    unfolding cancel_expired_intent_def
    by (intro fwd.stays_intros fwd_prims) (auto simp: same_attempt_def may_follow_def stage_def)
  show "fwd.stays (cancel_overdue_pre_submit_intent Y now acc j)"
    unfolding cancel_overdue_pre_submit_intent_def by (intro fwd.stays_intros c)
qed

lemma fwd_finalize_with_conn: "fwd.stays (finalize_receipt_with_conn X now i a receipt)"
proof -
  have u: "fwd.stays (modifies (upsert_lot acc ldr tok q t))" for acc ldr tok q t
    by (rule fwd.stays_modifies) (simp add: fwd_same upsert_lot_def split: option.splits)
  have l: "fwd.stays (apply_lot_delta X now ci sd q)" for ci sd q
    unfolding apply_lot_delta_def by (intro fwd.stays_intros u)
  show ?thesis unfolding finalize_receipt_with_conn_def
    by (intro fwd.stays_intros fwd_prims l) (simp add: same_attempt_def)
qed

lemma fwd_finalize: "fwd.stays (finalize_receipt X now i a receipt)"
  unfolding finalize_receipt_def finalize_receipt_transaction_def
  by (intro fwd.stays_intros fwd_finalize_with_conn fwd_prims)
    (auto simp: same_attempt_def may_follow_def stage_def finalizable_def)

lemma fwd_transaction_keeping: "fwd.stays m \<Longrightarrow> fwd.stays (transaction_keeping P m)"
  by (auto simp: fwd.stays_def transaction_keeping_def fwd.R_refl split: prod.splits sum.splits) (metis snd_conv)+

lemma fwd_mark: "fwd.stays (persistent_mark_submitting X config i a now)"
proof -
  have d: "fwd.stays (check_deadline X now ci)" for ci
    unfolding check_deadline_def by (intro fwd.stays_intros fwd_prims)
  have n: "fwd.stays (insert_new_reservation X a acc ldr amount now)" for acc ldr amount
    by (auto simp: fwd.stays_def insert_new_reservation_def fwd.R_refl sql_insert_def Let_def fwd_same)
  show ?thesis unfolding persistent_mark_submitting_def reserve_budget_and_mark_submitting_def reserve_body_def
    by (intro fwd.stays_intros fwd_transaction_keeping d n fwd_prims rolling_ro [THEN ro_fwd])
      (auto simp: same_attempt_def may_follow_def stage_def mark_submitting_row_def)
qed

lemma books_transaction_keeping: "keeps.stays (books X) m \<Longrightarrow> keeps.stays (books X) (transaction_keeping P m)"
  by (auto simp: keeps.stays_def transaction_keeping_def split: prod.splits sum.splits)

lemma books_budget:
  "keeps.stays (books Y) (persistent_mark_submitting X config i a now)"
  "keeps.stays (books Y) (release_pre_boundary_failure clock a reason)"
  "keeps.stays (books Y) (release_definitive_rejection clock acc a)"
proof -
  have d: "keeps.stays (books Y) (check_deadline X now ci)" for ci
    unfolding check_deadline_def by (intro keeps.stays_intros books_prims) (simp add: intent_identity_def)
  have n: "keeps.stays (books Y) (insert_new_reservation X a acc ldr amount now)" for acc ldr amount
    using books_other_tables(4) [of Y] by (auto simp: keeps.stays_def insert_new_reservation_def)
  show "keeps.stays (books Y) (persistent_mark_submitting X config i a now)"
    unfolding persistent_mark_submitting_def reserve_budget_and_mark_submitting_def reserve_body_def
    by (intro keeps.stays_intros books_transaction_keeping d n books_update_attempts rolling_ro [THEN ro_keeps])
      (simp add: attempt_identity_def mark_submitting_row_def)
  show r: "keeps.stays (books Y) (release_pre_boundary_failure clock a reason)" for reason
    unfolding release_pre_boundary_failure_def by (rule books_release)
  show "keeps.stays (books Y) (release_definitive_rejection clock acc a)"
    unfolding release_definitive_rejection_def by (intro keeps.stays_intros r)
qed

section \<open>Sound actions\<close>

text \<open>
  An action on the database is sound when it moves attempts forward and, where decimals print and parse
  back, keeps the books.
\<close>

definition sound :: "ext \<Rightarrow> db \<Rightarrow> db \<Rightarrow> bool" where
  "sound X d d' \<longleftrightarrow> forward d d' \<and> (dec_codec X \<longrightarrow> books X d \<longrightarrow> books X d')"

interpretation sound: frame_rel "sound X" for X
  by unfold_locales (auto simp: sound_def fwd.R_refl intro: fwd.R_trans)

lemma soundI: "fwd.stays m \<Longrightarrow> (dec_codec X \<Longrightarrow> keeps.stays (books X) m) \<Longrightarrow> sound.stays X m"
  by (auto simp: sound.stays_def sound_def fwd.stays_def keeps.stays_def)

lemma sound_prims:
  "(\<And>r. P r \<Longrightarrow> same_attempt r (f r)) \<Longrightarrow> (\<And>r. attempt_identity (f r) = attempt_identity r) \<Longrightarrow> sound.stays X (update_attempts P f)"
  "(\<And>r. intent_identity (g r) = intent_identity r) \<Longrightarrow> sound.stays X (update_intents Q g)"
  by (rule soundI; rule fwd_prims books_prims; assumption)+

lemmas sound_operations =
  soundI [OF fwd_same_operations(1) books_plan_batch] soundI [OF fwd_same_operations(2) books_claim]
  soundI [OF fwd_same_operations(3) books_size] soundI [OF fwd_same_operations(4) books_reprice]
  soundI [OF fwd_same_operations(5) books_close(1)] soundI [OF fwd_same_operations(6) books_close(3)]
  soundI [OF fwd_same_operations(7) books_budget(2)] soundI [OF fwd_same_operations(8) books_budget(3)]
  soundI [OF fwd_cancel(1) books_close(2)] soundI [OF fwd_cancel(2) books_close(4)]
  soundI [OF mark_uncertain.moves_forward mark_uncertain.books]
  soundI [OF mark_rejected.moves_forward mark_rejected.books]

section \<open>The invariant of the world\<close>

definition past_mark :: "int \<Rightarrow> db \<Rightarrow> bool" where
  "past_mark a d \<longleftrightarrow> (\<exists>oa \<in> set (order_attempts d). oa_id oa = a \<and> oa_status oa \<noteq> Prepared)"

definition view_ok :: "ext \<Rightarrow> attempt_view \<Rightarrow> db \<Rightarrow> bool" where
  "view_ok X v d \<longleftrightarrow>
     (\<exists>oa \<in> set (order_attempts d). oa_id oa = at_id v \<and> envelope_of_json X (oa_envelope_json oa) = Some (at_envelope v))"

text \<open>
  \<open>sent_ok\<close>: at the moment of the call the attempt was durably marked, with its submission instant, the
  envelope sent is the one persisted for it, and the marker's promise \<open>backed\<close> held.
\<close>

definition sent_ok :: "ext \<Rightarrow> (int \<Rightarrow> int \<Rightarrow> db \<Rightarrow> bool) \<Rightarrow> post \<Rightarrow> bool" where
  "sent_ok X backed p \<longleftrightarrow> backed (ps_intent p) (ps_attempt p) (ps_db p) \<and>
     (\<exists>oa. attempt_by_id (ps_attempt p) (ps_db p) = Some oa \<and> oa_intent_id oa = ps_intent p \<and>
        oa_status oa = Submitting \<and> oa_submission_started_at oa \<noteq> None \<and>
        envelope_of_json X (oa_envelope_json oa) = Some (ps_envelope p))"

definition engine_inv ::
  "ext \<Rightarrow> (int \<Rightarrow> int \<Rightarrow> db \<Rightarrow> bool) \<Rightarrow> attempt_view set \<Rightarrow> world \<Rightarrow> bool" where
  "engine_inv X backed V w \<longleftrightarrow> dec_codec X \<and> books X (w_db w) \<and> distinct (map ps_attempt (posted w)) \<and>
     (\<forall>p \<in> set (posted w). sent_ok X backed p \<and> past_mark (ps_attempt p) (w_db w)) \<and>
     (\<forall>v \<in> V. view_ok X v (w_db w))"

lemma past_mark_forward: "past_mark a d \<Longrightarrow> forward d d' \<Longrightarrow> past_mark a d'"
  unfolding past_mark_def by (elim bexE conjE, erule (1) forward_attempt) (auto simp: same_attempt_def may_follow_Prepared)

lemma view_ok_forward: "view_ok X v d \<Longrightarrow> forward d d' \<Longrightarrow> view_ok X v d'"
  unfolding view_ok_def by (elim bexE conjE, erule (1) forward_attempt) (auto simp: same_attempt_def)

lemma engine_inv_forward:
  "engine_inv X backed V w \<Longrightarrow> sound X (w_db w) d' \<Longrightarrow> engine_inv X backed V (w\<lparr>w_db := d'\<rparr>)"
  by (auto simp: engine_inv_def sound_def intro: past_mark_forward view_ok_forward)

lemma inv_on_db:
  assumes "sound.stays X m"
  shows "keeps.stays (engine_inv X backed V) (on_db wrap m)"
  unfolding keeps.stays_def
proof (intro allI impI)
  fix w assume i: "engine_inv X backed V w"
  obtain r d' where m: "m (w_db w) = (r, d')" by fastforce
  from engine_inv_forward [OF i sound.staysD [OF assms m]]
  show "engine_inv X backed V (snd (on_db wrap m w))" by (simp add: on_db_def m split: sum.splits)
qed

lemma inv_ro: "ro.stays m \<Longrightarrow> keeps.stays (engine_inv X backed V) (on_db wrap m)"
  by (rule inv_on_db) (simp add: ro.stays_def sound.stays_def sound.R_refl)

text \<open>An attempt loaded from the database joins the views the invariant speaks about.\<close>

lemma inv_bind_view:
  assumes m: "keeps.stays (engine_inv X backed V) m"
    and v: "\<And>w x w' av. m w = (Inr x, w') \<Longrightarrow> v x = Some av \<Longrightarrow> view_ok X av (w_db w')"
    and k: "\<And>x. keeps.stays (engine_inv X backed (case v x of None \<Rightarrow> V | Some av \<Rightarrow> insert av V)) (k x)"
  shows "keeps.stays (engine_inv X backed V) (and_then m k)"
  unfolding keeps.stays_def
proof (intro allI impI)
  fix w assume i: "engine_inv X backed V w"
  obtain r w' where mw: "m w = (r, w')" by fastforce
  have i': "engine_inv X backed V w'" by (rule keepsD [OF m i mw])
  show "engine_inv X backed V (snd (and_then m k w))"
  proof (cases r)
    case (Inr x)
    let ?V = "case v x of None \<Rightarrow> V | Some av \<Rightarrow> insert av V"
    have "engine_inv X backed ?V w'"
      using i' v [OF mw [unfolded Inr]] by (auto simp: engine_inv_def split: option.splits)
    with k [of x] have "engine_inv X backed ?V (snd (k x w'))" by (simp add: keeps.stays_def)
    then have "engine_inv X backed V (snd (k x w'))" by (auto simp: engine_inv_def split: option.splits)
    then show ?thesis by (simp add: and_then_def mw Inr)
  qed (simp add: and_then_def mw i')
qed

section \<open>The orchestrator's own statements\<close>

lemma orch_ro:
  "ro.stays (token_has_open_reconciliation_lock i)" "ro.stays (load_latest_attempt X i)"
  "ro.stays (is_explicit_no_fak_rejection a)" "ro.stays (no_fak_rejection_count i)" "ro.stays (next_attempt_number i)"
  unfolding token_has_open_reconciliation_lock_def load_latest_attempt_def is_explicit_no_fak_rejection_def
    no_fak_rejection_count_def next_attempt_number_def
  by (intro ro.stays_intros)+

lemma sound_orch:
  "sound.stays X (persist_expected_venue_order_id i a env)" "sound.stays X (mark_attempt_accepted i a)"
  "sound.stays X (ensure_gtd_order_id_before_submit Y i av)"
  unfolding persist_expected_venue_order_id_def mark_attempt_accepted_def ensure_gtd_order_id_before_submit_def
  by (intro sound.stays_intros sound_prims;
      auto simp: same_attempt_def may_follow_def stage_def attempt_identity_def intent_identity_def
        split: attempt_status.splits)+

lemma sound_codec:
  "sound.stays X (finalize_receipt X now i a receipt)"
  "sound.stays X (open_local_submission_failure_case Y clock i a detail)"
  "sound.stays X (load_or_prepare_attempt Y clock i n env)"
  "sound.stays X (open_reconciliation_case i att ct detail)"
  "sound.stays X (mark_attempt_gtd_lookup_failed Y i a detail)"
  "sound.stays X (recover_lost_submission_response Y reader i a t)"
  by (rule soundI, rule fwd_finalize fwd_reconcile,
      simp add: finalize_receipt_def books_finalize books_reconcile)+

text \<open>
  Closing an unfilled GTD order does not look at the attempt's status, so it is no forward step by itself; it
  keeps the invariant because it never makes an attempt \<open>prepared\<close>.
\<close>

lemma close_unfilled_eq:
  "close_unfilled_gtd i a d = (Inr (), put_intents (update_rows (\<lambda>r. ci_id r = i \<and> ci_status r = InProgress)
      (\<lambda>r. r\<lparr>ci_status := Cancelled, ci_reserved_qty := ''0'',
         ci_rejection_reason := Some ''post-only GTD expired or cancelled without a fill''\<rparr>) (copy_intents d))
    (put_attempts (update_rows (\<lambda>r. oa_id r = a \<and> oa_intent_id r = i)
      (\<lambda>r. r\<lparr>oa_status := Finalized, oa_filled_qty := Some ''0'',
         oa_failure_detail := Some ''GTD expired or cancelled without a fill''\<rparr>) (order_attempts d)) d))"
  by (simp add: close_unfilled_gtd_def transaction_def act_simps sql_update_def)

lemma close_unfilled_row:
  assumes "r \<in> set (order_attempts d)"
  shows "\<exists>r' \<in> set (order_attempts (snd (close_unfilled_gtd i a d))). oa_id r' = oa_id r \<and>
    oa_envelope_json r' = oa_envelope_json r \<and> (oa_status r \<noteq> Prepared \<longrightarrow> oa_status r' \<noteq> Prepared)"
proof -
  let ?P = "\<lambda>r. oa_id r = a \<and> oa_intent_id r = i"
    and ?f = "\<lambda>r. r\<lparr>oa_status := Finalized, oa_filled_qty := Some ''0'',
         oa_failure_detail := Some ''GTD expired or cancelled without a fill''\<rparr>"
  have "(if ?P r then ?f r else r) \<in> set (order_attempts (snd (close_unfilled_gtd i a d)))"
    using assms by (simp add: close_unfilled_eq set_update_rows)
  then show ?thesis by (rule bexI [rotated]) simp
qed

lemma inv_close_unfilled: "keeps.stays (engine_inv X backed V) (on_db wrap (close_unfilled_gtd i a))"
  unfolding keeps.stays_def
proof (intro allI impI)
  fix w assume inv: "engine_inv X backed V w"
  let ?d = "snd (close_unfilled_gtd i a (w_db w))"
  have "keeps.stays (books X) (close_unfilled_gtd i a)"
    unfolding close_unfilled_gtd_def
    by (intro keeps.stays_intros books_prims) (auto simp: attempt_identity_def intent_identity_def)
  then have "books X ?d" using inv by (simp add: engine_inv_def keeps.stays_def)
  moreover have "past_mark b ?d" if "past_mark b (w_db w)" for b
    using that close_unfilled_row [of _ "w_db w" i a] unfolding past_mark_def by fastforce
  moreover have "view_ok X v ?d" if "view_ok X v (w_db w)" for v
    using that close_unfilled_row [of _ "w_db w" i a] unfolding view_ok_def by fastforce
  ultimately have "engine_inv X backed V (w\<lparr>w_db := ?d\<rparr>)" using inv by (simp add: engine_inv_def)
  then show "engine_inv X backed V (snd (on_db wrap (close_unfilled_gtd i a) w))"
    by (simp add: on_db_def close_unfilled_eq)
qed

section \<open>The interface of a submit marker\<close>

text \<open>
  What the orchestrator relies on: a successful mark moves the attempt of the intent from \<open>prepared\<close> to
  \<open>submitting\<close>, durably and with its instant, and establishes \<open>backed\<close>; whatever happens, attempts only move
  forward and the books stay balanced.
\<close>

locale submit_marker =
  fixes X :: ext and mark :: marker and backed :: "int \<Rightarrow> int \<Rightarrow> db \<Rightarrow> bool"
  assumes mark_sound: "sound.stays X (mark i a now)"
    and mark_ready: "attempts.keyed d \<Longrightarrow> mark i a now d = (Inr u, d') \<Longrightarrow>
      \<exists>oa. attempt_by_id a d = Some oa \<and> oa_intent_id oa = i \<and> oa_status oa = Prepared"
    and mark_marks: "attempts.keyed d \<Longrightarrow> mark i a now d = (Inr u, d') \<Longrightarrow>
      map_option (\<lambda>r. (oa_status r, oa_submission_started_at r \<noteq> None)) (attempt_by_id a d') = Some (Submitting, True)"
    and mark_backed: "attempts.keyed d \<Longrightarrow> mark i a now d = (Inr u, d') \<Longrightarrow> backed i a d'"
begin

abbreviation inv :: "attempt_view set \<Rightarrow> world \<Rightarrow> bool" where
  "inv \<equiv> engine_inv X backed"

lemma post_after_mark:
  assumes i: "inv V w" and v: "v \<in> V" and m: "mark i (at_id v) now (w_db w) = (Inr u, d')"
  shows "inv V (snd (post_envelope execution i (at_id v) (at_envelope v) (w\<lparr>w_db := d'\<rparr>)))"
proof -
  let ?a = "at_id v"
  have k: "attempts.keyed (w_db w)" using i by (simp add: engine_inv_def books_def)
  have s: "sound X (w_db w) d'" by (rule sound.staysD [OF mark_sound m])
  have i': "inv V (w\<lparr>w_db := d'\<rparr>)" by (rule engine_inv_forward [OF i s])
  obtain oa where oa: "attempt_by_id ?a (w_db w) = Some oa" "oa_intent_id oa = i" "oa_status oa = Prepared"
    using mark_ready [OF k m] by blast
  obtain oa' where oa': "attempt_by_id ?a d' = Some oa'" "oa_status oa' = Submitting" "oa_submission_started_at oa' \<noteq> None"
    using mark_marks [OF k m] by auto
  have k': "distinct (map oa_id (order_attempts d'))" using i' by (simp add: engine_inv_def books_def attempts.keyed_def)
  have same: "same_attempt x oa'" if x: "x \<in> set (order_attempts (w_db w))" "oa_id x = ?a" for x
  proof -
    obtain y where y: "y \<in> set (order_attempts d')" "same_attempt x y"
      using forward_attempt [OF _ x(1)] s by (auto simp: sound_def)
    then have "oa_id y = ?a" using x(2) by (simp add: same_attempt_def)
    with keyed_same_row [OF k' oa'(1) [unfolded attempt_by_id_def] y(1)] y(2) show ?thesis by simp
  qed
  have "oa_intent_id oa' = i" using same oa attempt_by_id_Some [OF oa(1)] by (auto simp: same_attempt_def)
  moreover have "envelope_of_json X (oa_envelope_json oa') = Some (at_envelope v)"
    using i v same by (auto simp: engine_inv_def view_ok_def same_attempt_def)
  ultimately have ok: "sent_ok X backed \<lparr>ps_intent = i, ps_attempt = ?a, ps_envelope = at_envelope v, ps_db = d'\<rparr>"
    using oa' mark_backed [OF k m] by (simp add: sent_ok_def)
  have "past_mark ?a d'" using oa' attempt_by_id_Some [OF oa'(1)] by (auto simp: past_mark_def)
  moreover have "?a \<notin> ps_attempt ` set (posted w)"
  proof
    assume "?a \<in> ps_attempt ` set (posted w)"
    then obtain p where "p \<in> set (posted w)" "ps_attempt p = ?a" by auto
    with i obtain x where x: "x \<in> set (order_attempts (w_db w))" "oa_id x = ?a" "oa_status x \<noteq> Prepared"
      by (auto simp: engine_inv_def past_mark_def)
    have "distinct (map oa_id (order_attempts (w_db w)))" using k by (simp add: attempts.keyed_def)
    from keyed_same_row [OF this oa(1) [unfolded attempt_by_id_def] x(1,2)] oa(3) x(3) show False by simp
  qed
  ultimately show ?thesis using i' ok by (auto simp: engine_inv_def post_envelope_def)
qed

lemma inv_settle: "keeps.stays (inv V) (settle_submission X clk i av answer)"
  unfolding settle_submission_def
  by (cases answer rule: sum.exhaust; simp only: sum.case split: submit_error.splits)
    (auto intro!: keeps.stays_intros inv_on_db sound_orch sound_operations sound_codec
      split: submit_error.splits)

end

context submit_marker
begin

lemmas inv_db = keeps.stays_intros inv_on_db sound_orch sound_operations sound_codec
  orch_ro [THEN inv_ro] reconcile_ro(5) [THEN inv_ro]

lemma inv_mark_and_submit:
  assumes "v \<in> V"
  shows "keeps.stays (inv V) (mark_and_submit X execution mark clk i v now)"
  unfolding keeps.stays_def
proof (intro allI impI)
  fix w assume iw: "inv V w"
  obtain r d' where m: "mark i (at_id v) now (w_db w) = (r, d')" by fastforce
  let ?w = "w\<lparr>w_db := d'\<rparr>"
  have i': "inv V ?w" by (rule engine_inv_forward [OF iw sound.staysD [OF mark_sound m]])
  show "inv V (snd (mark_and_submit X execution mark clk i v now w))"
  proof (cases r)
    case (Inl e)
    have "keeps.stays (inv V) (let reason = orchestrate_error_text X e
            in and_then (recn (mark_attempt_rejected i (at_id v) reason)) (\<lambda>_.
               and_then (exe (reject_pre_submit_intent i reason)) (\<lambda>_. ret ORejected)))"
      by (intro inv_db)
    with i' show ?thesis
      by (simp add: mark_and_submit_def handle_def on_db_def [of id] m Inl keeps.stays_def)
  next
    case (Inr u)
    let ?p = "post_envelope execution i (at_id v) (at_envelope v) ?w"
    have p: "inv V (snd ?p)" by (rule post_after_mark [OF iw assms m [unfolded Inr]])
    have "snd (mark_and_submit X execution mark clk i v now w) =
        snd (settle_submission X clk i v (submit_exact_envelope execution (at_envelope v)) (snd ?p))"
      by (simp add: mark_and_submit_def handle_def on_db_def [of id] m Inr and_then_def post_envelope_def)
    moreover have "inv V (snd (settle_submission X clk i v (submit_exact_envelope execution (at_envelope v)) (snd ?p)))"
      using inv_settle p by (simp add: keeps.stays_def)
    ultimately show ?thesis by simp
  qed
qed

lemma inv_submit_prepared: "v \<in> V \<Longrightarrow> keeps.stays (inv V) (submit_prepared X execution mark clk i v now)"
  unfolding submit_prepared_def by (intro inv_db inv_mark_and_submit)

lemma inv_persist_next: "keeps.stays (inv V) (persist_next_attempt X clock i env)"
  unfolding persist_next_attempt_def by (intro inv_db)

lemma inv_load_prepared: "keeps.stays (inv V) (load_prepared X i missing)"
  unfolding load_prepared_def by (intro inv_db)

lemma inv_reject_with: "keeps.stays (inv V) (reject_with i reason)"
  unfolding reject_with_def by (intro inv_db)

lemma load_latest_view:
  assumes "on_db wrap (load_latest_attempt X i) w = (Inr (Some v), w')"
  shows "view_ok X v (w_db w')"
proof -
  from assms have l: "load_latest_attempt X i (w_db w) = (Inr (Some v), w_db w')"
    by (auto simp: on_db_def split: prod.splits sum.splits)
  moreover have "w_db w' = w_db w" by (rule ro_state [OF orch_ro(2) l])
  ultimately obtain r where r: "latest_attempt i (w_db w') = Some r" "v = \<lparr>at_id = oa_id r, at_status = oa_status r,
      at_envelope = the (envelope_of_json X (oa_envelope_json r))\<rparr>" "envelope_of_json X (oa_envelope_json r) \<noteq> None"
    by (auto simp: load_latest_attempt_def act_ok split: option.splits)
  have "r \<in> set (order_attempts (w_db w'))" using r(1) by (auto simp: latest_attempt_def dest: find_row_Some)
  then show ?thesis using r(2,3) by (auto simp: view_ok_def)
qed

lemma load_prepared_view:
  assumes "load_prepared X i missing w = (Inr v, w')"
  shows "view_ok X v (w_db w')"
proof -
  from assms obtain w1 where l: "orc (load_latest_attempt X i) w = (Inr (Some v), w1)"
    and p: "orc (persist_expected_venue_order_id i (at_id v) (at_envelope v)) w1 = (Inr (), w')"
    unfolding load_prepared_def by (auto simp: act_ok)
  from p have "persist_expected_venue_order_id i (at_id v) (at_envelope v) (w_db w1) = (Inr (), w_db w')"
    by (auto simp: on_db_def split: prod.splits sum.splits)
  then have "forward (w_db w1) (w_db w')" using sound.staysD [OF sound_orch(1)] by (auto simp: sound_def)
  with load_latest_view [OF l] show ?thesis by (rule view_ok_forward)
qed

lemma inv_load_then_submit:
  "keeps.stays (inv V) (and_then (load_prepared X i missing) (\<lambda>v. submit_prepared X execution mark clk i v now))"
  by (rule inv_bind_view [where v = Some]) (auto intro: inv_load_prepared load_prepared_view inv_submit_prepared)

lemma inv_fallback: "keeps.stays (inv V) (submit_post_only_gtd_after_initial_no_fak X reader execution envelopes mark clk cl now)"
  unfolding submit_post_only_gtd_after_initial_no_fak_def
  by (auto intro!: inv_db inv_reject_with inv_load_then_submit inv_persist_next split: sizing_outcome.splits)

lemma inv_retry: "keeps.stays (inv V) (maybe_retry_no_fak_once X reader execution envelopes mark clk cl v out now)"
  unfolding maybe_retry_no_fak_once_def by (intro inv_db inv_fallback inv_reject_with)

lemma inv_refuse: "keeps.stays (inv V) (refuse_maker_only i e expired rejected)"
  unfolding refuse_maker_only_def by (auto intro!: inv_db split: maker_only_error.splits)

lemma inv_prepare_new: "keeps.stays (inv V) (prepare_new_attempt X reader envelopes clk cl now)"
  unfolding prepare_new_attempt_def
  by (auto intro!: inv_db inv_refuse inv_persist_next split: sizing_outcome.splits)

lemma inv_query_first: "keeps.stays (inv V) (query_first X execution history clk i v now)"
  unfolding query_first_def by (auto intro!: inv_db split: lost_submission_outcome.splits)

lemma inv_reconcile_or_finalize: "keeps.stays (inv V) (reconcile_or_finalize X execution clk i v)"
  unfolding reconcile_or_finalize_def by (auto intro!: inv_db split: option.splits)

lemma inv_poll: "keeps.stays (inv V) (poll_resting_gtd X execution clk i v now)"
proof -
  have f: "keeps.stays (inv V) (gtd_lookup_failed X i v now detail)" for detail
    unfolding gtd_lookup_failed_def Let_def by (intro inv_db)
  show ?thesis unfolding poll_resting_gtd_def
    by (intro inv_close_unfilled inv_db f sound_prims) (auto simp: same_attempt_def attempt_identity_def)
qed

lemma inv_poll_accepted: "keeps.stays (inv V) (poll_accepted_gtd_intent X execution clk i now)"
  unfolding poll_accepted_gtd_intent_def
  by (intro inv_db inv_poll inv_ro ro.stays_basic)

lemma inv_walk:
  assumes "v \<in> V"
  shows "keeps.stays (inv V) (walk_existing_attempt X reader execution envelopes history mark clk cl v now)"
  unfolding walk_existing_attempt_def
  by (auto intro!: inv_db inv_poll inv_submit_prepared [OF assms] inv_retry inv_query_first inv_reconcile_or_finalize
      inv_prepare_new inv_load_then_submit split: recovery_action.splits retry_preparation.splits)

lemma inv_start: "keeps.stays (inv V) (start_first_attempt X reader execution envelopes mark clk cl now)"
proof -
  have s: "keeps.stays (inv V) (and_then (load_prepared X i missing) (\<lambda>v.
      and_then (submit_prepared X execution mark clk1 i v now) (\<lambda>out.
      maybe_retry_no_fak_once X reader execution envelopes mark clk2 cl v out now)))" for i missing clk1 clk2
    by (rule inv_bind_view [where v = Some])
      (auto intro!: inv_load_prepared load_prepared_view keeps.stays_and_then inv_submit_prepared inv_retry)
  show ?thesis
    unfolding start_first_attempt_def
    by (auto intro!: inv_db inv_reject_with inv_refuse inv_persist_next inv_load_then_submit s split: sizing_outcome.splits)
qed

lemma inv_execute:
  "keeps.stays (inv V) (execute_one_intent_with_marker X reader execution envelopes history mark clk i now)"
proof -
  have l: "keeps.stays (inv V) (and_then (orc (load_latest_attempt X i)) (\<lambda>latest. case latest of
           Some v \<Rightarrow> walk_existing_attempt X reader execution envelopes history mark clk cl v now
         | None \<Rightarrow> start_first_attempt X reader execution envelopes mark clk cl now))" for cl
    by (rule inv_bind_view [where v = id])
      (auto intro: inv_ro orch_ro load_latest_view inv_walk inv_start split: option.splits)
  show ?thesis unfolding execute_one_intent_with_marker_def by (intro inv_db l)
qed

end


lemma sound_standard_mark: "sound.stays X (standard_marker Y i a now)"
  unfolding standard_marker_def
  by (rule sound.stays_map_error, rule soundI [OF mark_submitting.moves_forward mark_submitting.books])

lemma sound_persistent_mark: "sound.stays X (persistent_marker Y config i a now)"
  unfolding persistent_marker_def by (rule sound.stays_map_error, rule soundI [OF fwd_mark books_budget(1)])

lemma marked_attempt:
  assumes "attempts.keyed d" "attempt_by_id a d = Some oa" "Q oa" "\<And>r. oa_id (f r) = oa_id r"
  shows "attempt_by_id a (put_attempts (update_rows (\<lambda>r. oa_id r = a \<and> Q r) f (order_attempts d)) d') = Some (f oa)"
  using assms attempt_by_id_Some [OF assms(2)] by (simp add: attempt_by_id_def find_row_update)

interpretation standard: submit_marker X "standard_marker X" "\<lambda>_ _ _. True" for X
proof
  show "sound.stays X (standard_marker X i a now)" for i a now by (rule sound_standard_mark)
  fix d i a now u d'
  assume k: "attempts.keyed d" and m: "standard_marker X i a now d = (Inr u, d')"
  then have "mark_attempt_submitting X i a now d = (Inr u, d')" by (simp add: standard_marker_def map_error_ok)
  then obtain oa where oa: "attempt_by_id a d = Some oa" "oa_intent_id oa = i" "oa_status oa = Prepared"
    and d': "d' = put_attempts (update_rows (\<lambda>r. oa_id r = a)
      (\<lambda>r. r\<lparr>oa_status := Submitting, oa_submission_started_at := Some (show_time X now)\<rparr>) (order_attempts d)) d"
    by (auto simp: mark_submitting.exact [OF k] split: option.splits if_splits)
  then show "\<exists>oa. attempt_by_id a d = Some oa \<and> oa_intent_id oa = i \<and> oa_status oa = Prepared" by blast
  show "map_option (\<lambda>r. (oa_status r, oa_submission_started_at r \<noteq> None)) (attempt_by_id a d') = Some (Submitting, True)"
    using marked_attempt [OF k oa(1), of "\<lambda>_. True"] by (simp add: d')
qed simp

text \<open>
  The persistent marker's promise: a reservation for the attempt is held in the account of the intent, which is
  the configured one, and the execution fuse of that account is closed.
\<close>

definition reservation_held :: "runtime_config \<Rightarrow> int \<Rightarrow> int \<Rightarrow> db \<Rightarrow> bool" where
  "reservation_held config i a d \<longleftrightarrow>
     (\<exists>r \<in> set (budget_reservations d). br_order_attempt_id r = a \<and> br_account_id r = cf_account_id config \<and> br_state r = Reserved) \<and>
     map_option ci_account_id (intent_by_id i d) = Some (cf_account_id config) \<and>
     \<not> list_ex (\<lambda>f. fu_account_id f = cf_account_id config) (execution_fuse d)"

interpretation persistent: submit_marker X "persistent_marker X config" "reservation_held config" for X config
proof
  show "sound.stays X (persistent_marker X config i a now)" for i a now by (rule sound_persistent_mark)
  fix d i a now u d'
  assume k: "attempts.keyed d" and m: "persistent_marker X config i a now d = (Inr u, d')"
  then have r: "reserve_budget_and_mark_submitting X config i a now d = (Inr u, d')"
    by (simp add: persistent_marker_def persistent_mark_submitting_def map_error_ok)
  obtain ci amount oa where ci: "intent_by_id i d = Some ci" "ci_account_id ci = cf_account_id config"
    and fuse: "\<not> list_ex (\<lambda>r. fu_account_id r = cf_account_id config) (execution_fuse d)"
    and oa: "oa \<in> set (order_attempts d)" "oa_id oa = a" "oa_intent_id oa = i" "oa_status oa = Prepared"
    and d': "d' = put_reservations (budget_reservations d @
        [new_reservation X a (cf_account_id config) (ci_leader_id ci) amount now (next_id br_id (budget_reservations d))])
       (put_attempts (update_rows (\<lambda>r. oa_id r = a \<and> oa_intent_id r = i \<and> oa_status r = Prepared)
          (mark_submitting_row X now) (order_attempts d)) d)"
    by (rule reserve_ok [OF r]) (rule that; assumption)
  have a: "attempt_by_id a d = Some oa"
    using find_row_unique [OF k [unfolded attempts.keyed_def] oa(1,2)] by (simp add: attempt_by_id_def)
  with oa show "\<exists>oa. attempt_by_id a d = Some oa \<and> oa_intent_id oa = i \<and> oa_status oa = Prepared" by blast
  have "attempt_by_id a d' = Some (mark_submitting_row X now oa)"
    using marked_attempt [OF k a, of "\<lambda>r. oa_intent_id r = i \<and> oa_status r = Prepared" "mark_submitting_row X now"] oa
    by (simp add: d' mark_submitting_row_def attempt_by_id_def)
  then show "map_option (\<lambda>r. (oa_status r, oa_submission_started_at r \<noteq> None)) (attempt_by_id a d') = Some (Submitting, True)"
    by (simp add: mark_submitting_row_def)
  show "reservation_held config i a d'"
    using ci fuse by (simp add: reservation_held_def d' new_reservation_def intent_by_id_def)
qed

section \<open>Calls that send nothing\<close>

text \<open>The frame of actions that leave the record of submissions alone.\<close>

interpretation quiet: frame_rel "\<lambda>w w'. posted w' = posted w"
  by unfold_locales auto

lemma quiet_on_db: "quiet.stays (on_db wrap m)"
  by (auto simp: quiet.stays_def on_db_def split: prod.splits sum.splits)

lemmas quiet_intros = quiet.stays_intros quiet_on_db

lemma quiet_poll: "quiet.stays (poll_resting_gtd X execution clk i v now)"
  unfolding poll_resting_gtd_def gtd_lookup_failed_def Let_def by (intro quiet_intros)

lemma quiet_poll_accepted: "quiet.stays (poll_accepted_gtd_intent X execution clk i now)"
  unfolding poll_accepted_gtd_intent_def by (intro quiet_intros quiet_poll)

lemma quiet_query:
  "quiet.stays (query_first X execution history clk i v now)" "quiet.stays (reconcile_or_finalize X execution clk i v)"
  unfolding query_first_def reconcile_or_finalize_def
  by (auto intro!: quiet_intros split: lost_submission_outcome.splits option.splits)

text \<open>An attempt that is neither prepared nor rejected is only ever looked up.\<close>

lemma quiet_walk:
  assumes "at_status v \<in> {Submitting, Uncertain, Accepted, Finalized, AError}"
  shows "quiet.stays (walk_existing_attempt X reader execution envelopes history mark clk cl v now)"
proof -
  have k: "quiet.stays (case action of
       MarkSubmittingThenSubmit \<Rightarrow> p | QueryFirst \<Rightarrow> query_first X execution history c1 i v now
     | ReconcileOrFinalize \<Rightarrow> reconcile_or_finalize X execution c2 i v | MayPrepareNewAttempt \<Rightarrow> q
     | Blocked reason \<Rightarrow> and_then (recn (open_reconciliation_case i (Some (at_id v)) ''blocked_recovery'' reason))
         (\<lambda>_. ret (OBlocked reason)))"
    if "action \<in> {QueryFirst, ReconcileOrFinalize, Blocked ''unrecognized attempt status''}" for action p q c1 c2 i
    using that by (elim insertE emptyE; simp only: recovery_action.case; intro quiet_intros quiet_query)
  have "permitted_recovery_action (attempt_status_text (at_status v)) True n
      \<in> {QueryFirst, ReconcileOrFinalize, Blocked ''unrecognized attempt status''}" for n
    using assms by (auto simp: permitted_recovery_action_def attempt_status_text_def)
  then show ?thesis unfolding walk_existing_attempt_def Let_def by (intro quiet_intros quiet_poll k)
qed

lemma latest_attempt_cong: "order_attempts d' = order_attempts d \<Longrightarrow> latest_attempt i d' = latest_attempt i d"
  by (simp add: latest_attempt_def latest_number_def)

lemma load_latest_ok:
  "load_latest_attempt X i d = (Inr latest, d') \<longleftrightarrow> d' = d \<and>
     (case latest_attempt i d of None \<Rightarrow> latest = None
      | Some r \<Rightarrow> (\<exists>env. envelope_of_json X (oa_envelope_json r) = Some env \<and>
          latest = Some \<lparr>at_id = oa_id r, at_status = oa_status r, at_envelope = env\<rparr>))"
  by (auto simp: load_latest_attempt_def act_ok split: option.splits)

lemma quiet_bind_at:
  assumes "m w = (r, w')" "posted w' = P" "\<And>x. r = Inr x \<Longrightarrow> posted (snd (k x w')) = P"
  shows "posted (snd (and_then m k w)) = P"
  using assms by (cases r) (simp_all add: and_then_def)

lemma quiet_resume:
  assumes oa: "latest_attempt i (w_db w) = Some oa" "oa_status oa \<in> {Submitting, Uncertain, Accepted, Finalized, AError}"
  shows "posted (snd (and_then (orc (load_latest_attempt X i)) (\<lambda>latest. case latest of
         Some v \<Rightarrow> walk_existing_attempt X reader execution envelopes history mark clk cl v now
       | None \<Rightarrow> start_first_attempt X reader execution envelopes mark clk cl now) w)) = posted w"
proof -
  obtain r w' where l: "orc (load_latest_attempt X i) w = (r, w')" by fastforce
  have p: "posted w' = posted w" using quiet.staysD [OF quiet_on_db l] .
  show ?thesis
  proof (rule quiet_bind_at, rule l, rule p)
    fix latest assume "r = Inr latest"
    with l have "load_latest_attempt X i (w_db w) = (Inr latest, w_db w')"
      by (auto simp: on_db_def split: prod.splits sum.splits)
    then obtain v where v: "latest = Some v" "at_status v = oa_status oa" using oa(1) by (auto simp: load_latest_ok)
    with quiet_walk [of v X reader execution envelopes history mark clk cl now] oa(2) p
    show "posted (snd ((case latest of
         Some v \<Rightarrow> walk_existing_attempt X reader execution envelopes history mark clk cl v now
       | None \<Rightarrow> start_first_attempt X reader execution envelopes mark clk cl now) w')) = posted w"
      by (simp add: quiet.stays_def)
  qed
qed

lemma quiet_execute_open:
  assumes oa: "latest_attempt i (w_db w) = Some oa" "oa_status oa \<in> {Submitting, Uncertain, Accepted, Finalized, AError}"
  shows "posted (snd (execute_one_intent_with_marker X reader execution envelopes history mark clk i now w)) = posted w"
proof -
  obtain r1 w1 where t: "orc (token_has_open_reconciliation_lock i) w = (r1, w1)" by fastforce
  then have w1: "w1 = w" by (simp add: on_db_def reads_def token_has_open_reconciliation_lock_def)
  obtain r2 w2 where c: "exe (claim_or_resume_intent X i) w = (r2, w2)" by fastforce
  have p2: "posted w2 = posted w" using quiet.staysD [OF quiet_on_db c] .
  obtain r d where e: "claim_or_resume_intent X i (w_db w) = (r, d)" by fastforce
  have "w_db w2 = d" using c e by (auto simp: on_db_def split: sum.splits)
  with same_attempts.staysD [OF same_claim e] have "order_attempts (w_db w2) = order_attempts (w_db w)" by simp
  then have l2: "latest_attempt i (w_db w2) = Some oa" using oa(1) latest_attempt_cong by metis
  have k: "posted (snd ((case claimed of None \<Rightarrow> ret NotClaimed | Some cl \<Rightarrow>
      and_then (orc (load_latest_attempt X i)) (\<lambda>latest. case latest of
         Some v \<Rightarrow> walk_existing_attempt X reader execution envelopes history mark clk cl v now
       | None \<Rightarrow> start_first_attempt X reader execution envelopes mark clk cl now)) w2)) = posted w" for claimed
    by (cases claimed) (simp_all only: option.case quiet_resume [OF l2 oa(2)] p2 ret_def snd_conv)
  show ?thesis unfolding execute_one_intent_with_marker_def
    by (rule quiet_bind_at, rule t, simp add: w1, simp only: w1 split: if_split)
      (intro conjI impI; (rule quiet_bind_at, rule c, rule p2, rule k)?; simp add: ret_def)
qed

section \<open>Properties\<close>

text \<open>
  C11. An order whose fate is open is never sent again.  Executing an intent whose latest attempt is
  \<open>submitting\<close>, \<open>uncertain\<close>, \<open>accepted\<close>, \<open>finalized\<close> or in an unknown state makes no submission call, whatever the
  venue, the history and the clock answer and however the call ends; polling a resting GTD order never makes
  one, and a poll whose lookup fails before the order's expiry plus five minutes changes nothing at all.
\<close>

theorem open_attempt_not_resubmitted:
  assumes "latest_attempt i (w_db w) = Some oa" "oa_status oa \<in> {Submitting, Uncertain, Accepted, Finalized, AError}"
  shows "posted (snd (execute_one_intent_with_marker X reader execution envelopes history mark clk i now w)) = posted w \<and>
    posted (snd (poll_accepted_gtd_intent X execution clk i now w)) = posted w \<and>
    (\<forall>v detail deadline. order_for_receipt execution (en_expected_taker_order_id (at_envelope v)) = Inl detail \<and>
       gtd_lookup_deadline X (at_envelope v) = Some deadline \<and> now < deadline \<longrightarrow>
       poll_resting_gtd X execution clk i v now w = (Inr (GtdLookupRetry detail (deadline - now)), w))"
proof (intro conjI allI impI)
  show "posted (snd (poll_accepted_gtd_intent X execution clk i now w)) = posted w"
    using quiet_poll_accepted by (simp add: quiet.stays_def)
  show "poll_resting_gtd X execution clk i v now w = (Inr (GtdLookupRetry detail (deadline - now)), w)"
    if "order_for_receipt execution (en_expected_taker_order_id (at_envelope v)) = Inl detail \<and>
       gtd_lookup_deadline X (at_envelope v) = Some deadline \<and> now < deadline" for v detail deadline
    using that by (simp add: poll_resting_gtd_def gtd_lookup_failed_def Let_def ret_def)
qed (rule quiet_execute_open [OF assms])

text \<open>A world with the sample intent and one attempt in the given state.\<close>

definition world1 :: "attempt_status \<Rightarrow> world" where
  "world1 s = \<lparr>w_db = db1\<lparr>order_attempts := [attempt0\<lparr>oa_status := s\<rparr>]\<rparr>, posted = []\<rparr>"

theorem open_attempt_not_resubmitted_witness:
  "latest_attempt 1 (w_db (world1 Uncertain)) = Some (attempt0\<lparr>oa_status := Uncertain\<rparr>) \<and>
   (\<forall>reader execution envelopes history clk now. posted (snd (execute_one_intent_with_marker ext0 reader execution envelopes history (standard_marker ext0) clk 1 now
     (world1 Uncertain))) = [])"
proof -
  have l: "latest_attempt 1 (w_db (world1 Uncertain)) = Some (attempt0\<lparr>oa_status := Uncertain\<rparr>)"
    by (simp add: latest_attempt_def latest_number_def world1_def db1_def attempt0_def)
  have s: "oa_status (attempt0\<lparr>oa_status := Uncertain\<rparr>) \<in> {Submitting, Uncertain, Accepted, Finalized, AError}" by simp
  have "posted (world1 Uncertain) = []" by (simp add: world1_def)
  with l open_attempt_not_resubmitted [OF l s, of ext0 _ _ _ _ "standard_marker ext0"] show ?thesis by auto
qed

lemma on_db_apply:
  "m (w_db w) = (Inr x, d) \<Longrightarrow> on_db wrap m w = (Inr x, w\<lparr>w_db := d\<rparr>)"
  "m (w_db w) = (Inl e, d) \<Longrightarrow> on_db wrap m w = (Inl (wrap e), w\<lparr>w_db := d\<rparr>)"
  by (simp_all add: on_db_def)

lemma locked_iff:
  assumes "intents.keyed d" "ci \<in> set (copy_intents d)"
  shows "token_has_open_reconciliation_lock (ci_id ci) d = (Inr
    ((\<exists>b \<in> set (copy_intents d). ci_account_id b = ci_account_id ci \<and> ci_token_id b = ci_token_id ci \<and>
        ci_status b = NeedsReconcile \<and> ci_id b \<noteq> ci_id ci) \<or>
     (\<exists>rc \<in> set (reconciliation_cases d). rc_account_id rc = ci_account_id ci \<and> rc_token_id rc = ci_token_id ci \<and>
        rc_resolved_at rc = None \<and> rc_intent_id rc \<noteq> Some (ci_id ci))), d)"
proof -
  have "x = ci" if "x \<in> set (copy_intents d)" "ci_id x = ci_id ci" for x
    using assms that by (auto simp: intents.keyed_def distinct_map inj_on_def)
  then show ?thesis using assms(2)
    by (auto simp: token_has_open_reconciliation_lock_def reads_def list_ex_iff)
qed

lemma runnable_not_locked:
  assumes "intents.keyed d" "ci \<in> set (copy_intents d)" "\<not> token_blocked ci d"
  shows "token_has_open_reconciliation_lock (ci_id ci) d = (Inr False, d)"
  using assms(3) unfolding locked_iff [OF assms(1,2)] by (auto simp: token_blocked_def list_ex_iff)

lemma locked_call_waits:
  assumes "token_has_open_reconciliation_lock i (w_db w) = (Inr True, w_db w)"
  shows "execute_one_intent_with_marker X reader execution envelopes history mark clk i now w
      = (Inr (OBlocked ''account/token needs reconciliation''), w)"
    "poll_accepted_gtd_intent X execution clk i now w
      = (Inr (OBlocked ''account/token needs reconciliation''), w)"
  by (simp_all add: execute_one_intent_with_marker_def poll_accepted_gtd_intent_def and_then_def
      on_db_apply(1) [where m = "token_has_open_reconciliation_lock i", OF assms] ret_def)

lemma set_gtd_polls:
  "i \<in> set (gtd_polls X acc d) \<longleftrightarrow> (\<exists>ci \<in> set (copy_intents d). ci_id ci = i \<and> ci_account_id ci = acc \<and> ci_status ci = InProgress \<and>
     (\<exists>oa \<in> set (order_attempts d). accepted_gtd X i d oa))"
  by (auto simp: gtd_polls_def)

section \<open>Properties of the work selection and of the submission\<close>

text \<open>
  A runner's tick works on exactly the right intents, in order.  The two phases are disjoint: first the
  in-progress intents whose latest attempt is an accepted GTD order, by id; then the pending and in-progress
  intents of the account whose account and token have no open recovery, earliest deadline first, those without
  a deadline last and ties by id.  An intent chosen for work passes the lock check of \<open>execute_one_intent\<close>; one
  whose account and token another intent or another intent's case keeps locked is only reported as blocked,
  by execution and by polling, and nothing is written or sent.
\<close>

theorem work_selection_exact:
  assumes k: "intents.keyed (w_db w)"
  shows "\<exists>polls rows. list_runnable_intents_by_phase X acc (w_db w) = (Inr (polls, map ci_id rows), w_db w) \<and>
    sorted polls \<and> sorted (map deadline_key rows) \<and> set polls \<inter> ci_id ` set rows = {} \<and>
    (\<forall>i. i \<in> set polls \<longleftrightarrow> (\<exists>ci \<in> set (copy_intents (w_db w)). ci_id ci = i \<and> ci_account_id ci = acc \<and>
       ci_status ci = InProgress \<and> (\<exists>oa \<in> set (order_attempts (w_db w)). accepted_gtd X i (w_db w) oa))) \<and>
    (\<forall>ci. ci \<in> set rows \<longleftrightarrow> ci \<in> set (copy_intents (w_db w)) \<and> ci_account_id ci = acc \<and>
       (ci_status ci = Pending \<or> ci_status ci = InProgress) \<and> \<not> token_blocked ci (w_db w) \<and> ci_id ci \<notin> set polls) \<and>
    (\<forall>ci \<in> set rows. token_has_open_reconciliation_lock (ci_id ci) (w_db w) = (Inr False, w_db w)) \<and>
    (\<forall>ci \<in> set (copy_intents (w_db w)).
       (\<exists>b \<in> set (copy_intents (w_db w)). ci_account_id b = ci_account_id ci \<and> ci_token_id b = ci_token_id ci \<and>
          ci_status b = NeedsReconcile \<and> ci_id b \<noteq> ci_id ci) \<or>
       (\<exists>rc \<in> set (reconciliation_cases (w_db w)). rc_account_id rc = ci_account_id ci \<and>
          rc_token_id rc = ci_token_id ci \<and> rc_resolved_at rc = None \<and> rc_intent_id rc \<noteq> Some (ci_id ci)) \<longrightarrow>
       execute_one_intent_with_marker X reader execution envelopes history mark clk (ci_id ci) now w
         = (Inr (OBlocked ''account/token needs reconciliation''), w) \<and>
       poll_accepted_gtd_intent X execution clk (ci_id ci) now w
         = (Inr (OBlocked ''account/token needs reconciliation''), w))"
proof -
  let ?d = "w_db w" and ?polls = "gtd_polls X acc (w_db w)"
  let ?all = "sort_key deadline_key (filter
     (\<lambda>ci. ci_account_id ci = acc \<and> (ci_status ci = Pending \<or> ci_status ci = InProgress) \<and> \<not> token_blocked ci ?d)
     (copy_intents ?d))"
  let ?rows = "filter (\<lambda>ci. ci_id ci \<notin> set ?polls) ?all"
  have "list_runnable_intents_by_phase X acc ?d = (Inr (?polls, map ci_id ?rows), ?d)"
    by (simp add: list_runnable_intents_by_phase_def list_runnable_intents_def act_simps filter_map o_def)
  moreover have "sorted ?polls" by (simp add: gtd_polls_def)
  moreover have "sorted (map deadline_key ?rows)" by (rule sorted_filter) simp
  moreover have "\<forall>ci. ci \<in> set ?rows \<longleftrightarrow> ci \<in> set (copy_intents ?d) \<and> ci_account_id ci = acc \<and>
       (ci_status ci = Pending \<or> ci_status ci = InProgress) \<and> \<not> token_blocked ci ?d \<and> ci_id ci \<notin> set ?polls" by auto
  moreover have "set ?polls \<inter> ci_id ` set ?rows = {}" by auto
  moreover have "\<forall>ci \<in> set ?rows. token_has_open_reconciliation_lock (ci_id ci) ?d = (Inr False, ?d)"
    by (auto intro: runnable_not_locked [OF k])
  moreover have "\<forall>i. i \<in> set ?polls \<longleftrightarrow> (\<exists>ci \<in> set (copy_intents ?d). ci_id ci = i \<and> ci_account_id ci = acc \<and>
       ci_status ci = InProgress \<and> (\<exists>oa \<in> set (order_attempts ?d). accepted_gtd X i ?d oa))"
    by (rule allI, rule set_gtd_polls)
  moreover have "\<forall>ci \<in> set (copy_intents ?d).
       (\<exists>b \<in> set (copy_intents ?d). ci_account_id b = ci_account_id ci \<and> ci_token_id b = ci_token_id ci \<and>
          ci_status b = NeedsReconcile \<and> ci_id b \<noteq> ci_id ci) \<or>
       (\<exists>rc \<in> set (reconciliation_cases ?d). rc_account_id rc = ci_account_id ci \<and>
          rc_token_id rc = ci_token_id ci \<and> rc_resolved_at rc = None \<and> rc_intent_id rc \<noteq> Some (ci_id ci)) \<longrightarrow>
       execute_one_intent_with_marker X reader execution envelopes history mark clk (ci_id ci) now w
         = (Inr (OBlocked ''account/token needs reconciliation''), w) \<and>
       poll_accepted_gtd_intent X execution clk (ci_id ci) now w
         = (Inr (OBlocked ''account/token needs reconciliation''), w)"
    by (intro ballI impI conjI locked_call_waits; simp only: locked_iff [OF k])
  ultimately show ?thesis by (intro exI [of _ ?polls] exI [of _ ?rows] conjI)
qed

theorem work_selection_exact_witness:
  "\<exists>polls rows. list_runnable_intents_by_phase ext0 1 db1 = (Inr (polls, map ci_id rows), db1) \<and>
     (\<forall>ci. ci \<in> set rows \<longleftrightarrow> ci = intent0)"
proof -
  let ?w = "\<lparr>w_db = db1, posted = []\<rparr>"
  fix reader :: balance_reader and execution envelopes history mark clk now
  have k: "intents.keyed (w_db ?w)" by (simp add: db1_def intents.keyed_def)
  obtain polls rows where r: "list_runnable_intents_by_phase ext0 1 db1 = (Inr (polls, map ci_id rows), db1)"
    and p: "\<forall>i. i \<in> set polls \<longleftrightarrow> (\<exists>ci \<in> set (copy_intents db1). ci_id ci = i \<and> ci_account_id ci = 1 \<and>
       ci_status ci = InProgress \<and> (\<exists>oa \<in> set (order_attempts db1). accepted_gtd ext0 i db1 oa))"
    and s: "\<forall>ci. ci \<in> set rows \<longleftrightarrow> ci \<in> set (copy_intents db1) \<and> ci_account_id ci = 1 \<and>
       (ci_status ci = Pending \<or> ci_status ci = InProgress) \<and> \<not> token_blocked ci db1 \<and> ci_id ci \<notin> set polls"
    using work_selection_exact [OF k, of ext0 1 reader execution envelopes history mark clk now, unfolded world.select_convs]
    by (elim exE conjE) (rule that, assumption+)
  have "\<not> accepted_gtd ext0 i db1 oa" for i oa by (simp add: accepted_gtd_def)
  with p have n: "i \<notin> set polls" for i by simp
  have "copy_intents db1 = [intent0]" "\<not> token_blocked intent0 db1" "ci_account_id intent0 = 1" "ci_status intent0 = InProgress"
    by (simp_all add: token_blocked_def db1_def db0_def intent0_def)
  with s n have "\<forall>ci. ci \<in> set rows \<longleftrightarrow> ci = intent0" by auto
  with r show ?thesis by blast
qed


lemma persistent_mark_error:
  assumes "persistent_mark_submitting X config i a now d = (Inl e, d')" "e \<noteq> DecisionExpired"
  shows "d' = d"
proof -
  from assms obtain e0 where e0: "reserve_budget_and_mark_submitting X config i a now d = (Inl e0, d')" "e0 \<noteq> DecisionExpired"
    by (cases "reserve_budget_and_mark_submitting X config i a now d")
      (auto simp: persistent_mark_submitting_def map_error_def split: sum.splits persistent_error.splits)
  from reserve_error [OF e0(1)] e0(2) show ?thesis by simp
qed

text \<open>
  Running into a spending limit costs one signal and nothing else.  When the submit marker refuses a
  prepared attempt because of the per-order ceiling, the leader's window or the account's window, the call
  returns \<open>Rejected\<close>: the attempt and its in-progress intent are closed with the limit as the reason, the intent's
  reservation is cleared, and no other row of any table changes, no budget is taken and nothing is sent.  Every
  other refusal of the marker ends the call with that error, again without a submission.
\<close>

theorem budget_refusal_skips_signal:
  assumes m: "persistent_mark_submitting X config i (at_id v) now (w_db w) = (Inl e, d')"
    and k: "attempts.keyed (w_db w)"
    and oa: "attempt_by_id (at_id v) (w_db w) = Some oa" "oa_intent_id oa = i" "oa_status oa = Prepared"
  shows "mark_and_submit X execution (persistent_marker X config) clk i v now w =
    (if budget_refusal (EPersistent e)
     then (Inr ORejected, w\<lparr>w_db := (w_db w)
       \<lparr>order_attempts := update_rows (\<lambda>r. oa_id r = at_id v)
           (\<lambda>r. r\<lparr>oa_status := ARejected, oa_failure_detail := Some (persistent_error_text X e)\<rparr>) (order_attempts (w_db w)),
         copy_intents := update_rows (\<lambda>r. ci_id r = i \<and> ci_status r = InProgress)
           (\<lambda>r. r\<lparr>ci_status := IRejected, ci_rejection_reason := Some (persistent_error_text X e), ci_reserved_qty := ''0''\<rparr>)
           (copy_intents (w_db w))\<rparr>\<rparr>)
     else (Inl (EPersistent e), w\<lparr>w_db := d'\<rparr>))"
proof -
  have mark: "orc (persistent_marker X config i (at_id v) now) w = (Inl (EPersistent e), w\<lparr>w_db := d'\<rparr>)"
    by (simp add: on_db_def persistent_marker_def map_error_def m)
  have d': "d' = w_db w" if "budget_refusal (EPersistent e)"
    using that by (intro persistent_mark_error [OF m]) (auto simp: budget_refusal_def)
  let ?t = "persistent_error_text X e"
  have "mark_attempt_rejected i (at_id v) ?t (w_db w) = (Inr (), (w_db w)\<lparr>order_attempts := update_rows (\<lambda>r. oa_id r = at_id v)
           (\<lambda>r. r\<lparr>oa_status := ARejected, oa_failure_detail := Some ?t\<rparr>) (order_attempts (w_db w))\<rparr>)"
    using oa by (simp add: mark_rejected.exact [OF k] put_attempts_def)
  from on_db_apply(1) [where m = "mark_attempt_rejected i (at_id v) ?t" and w = w and wrap = EReconcile, OF this]
  show ?thesis using d'
    by (simp add: mark_and_submit_def handle_def mark orchestrate_error_text_def and_then_def
        on_db_def [of EExecute] reject_pre_submit_intent_def sql_update_def put_intents_def ret_def Let_def)
qed

theorem budget_refusal_skips_signal_witness:
  "\<forall>execution clk. \<exists>d. mark_and_submit ext0 execution (persistent_marker ext0 (config0\<lparr>cf_max_order_notional := 1\<rparr>)) clk 1
      \<lparr>at_id = 1, at_status = Prepared, at_envelope = envelope0\<rparr> 1000 (world1 Prepared) = (Inr ORejected, \<lparr>w_db = d, posted = []\<rparr>) \<and>
    map ci_status (copy_intents d) = [IRejected] \<and> map oa_status (order_attempts d) = [ARejected] \<and>
    budget_reservations d = []"
proof -
  let ?v = "\<lparr>at_id = 1, at_status = Prepared, at_envelope = envelope0\<rparr>"
  have m: "persistent_mark_submitting ext0 (config0\<lparr>cf_max_order_notional := 1\<rparr>) 1 (at_id ?v) 1000 (w_db (world1 Prepared))
      = (Inl (OrderNotionalExceeded 3 1), w_db (world1 Prepared))"
    by (simp add: persistent_mark_submitting_def map_error_def reserve_budget_and_mark_submitting_def
      transaction_keeping_def reserve_body_def act_simps intent_by_id_def sample_defs config0_def world1_def
      check_deadline_def Let_def)
  have k: "attempts.keyed (w_db (world1 Prepared))" by (simp add: world1_def attempts.keyed_def)
  have oa: "attempt_by_id (at_id ?v) (w_db (world1 Prepared)) = Some attempt0"
    by (simp add: attempt_by_id_def world1_def attempt0_def)
  have "oa_intent_id attempt0 = 1" "oa_status attempt0 = Prepared" by (simp_all add: attempt0_def)
  from budget_refusal_skips_signal [OF m k oa this] show ?thesis
    by (simp add: budget_refusal_def world1_def sample_defs)
qed

lemma persistent_marked:
  assumes k: "attempts.keyed d" and m: "persistent_mark_submitting X config i a now d = (Inr u, d')"
  obtains oa ci where "attempts.keyed d'" "attempt_by_id a d' = Some oa" "oa_intent_id oa = i" "oa_status oa = Submitting"
    "intent_by_id i d' = Some ci" "copy_intents d' = copy_intents d"
proof -
  from m have r: "reserve_budget_and_mark_submitting X config i a now d = (Inr u, d')"
    by (simp add: persistent_mark_submitting_def map_error_ok)
  obtain ci amount oa where ci: "intent_by_id i d = Some ci"
    and oa: "oa \<in> set (order_attempts d)" "oa_id oa = a" "oa_intent_id oa = i" "oa_status oa = Prepared"
    and d': "d' = put_reservations (budget_reservations d @
        [new_reservation X a (cf_account_id config) (ci_leader_id ci) amount now (next_id br_id (budget_reservations d))])
       (put_attempts (update_rows (\<lambda>r. oa_id r = a \<and> oa_intent_id r = i \<and> oa_status r = Prepared)
          (mark_submitting_row X now) (order_attempts d)) d)"
    by (rule reserve_ok [OF r]) (rule that; assumption)
  have a: "attempt_by_id a d = Some oa"
    using find_row_unique [OF k [unfolded attempts.keyed_def] oa(1,2)] by (simp add: attempt_by_id_def)
  have "attempt_by_id a d' = Some (mark_submitting_row X now oa)"
    using marked_attempt [OF k a, of "\<lambda>r. oa_intent_id r = i \<and> oa_status r = Prepared" "mark_submitting_row X now"] oa
    by (simp add: d' mark_submitting_row_def attempt_by_id_def)
  moreover have "attempts.keyed d'"
    using k by (simp add: d' attempts.keyed_def map_update_rows mark_submitting_row_def)
  ultimately show thesis using that oa(3) ci by (simp add: mark_submitting_row_def d' intent_by_id_def)
qed

section \<open>Settling a submission\<close>

text \<open>What is left to do when the attempt of \<open>v\<close> is \<open>submitting\<close>, for each answer of the venue.\<close>

definition attempt_state :: "int \<Rightarrow> db \<Rightarrow> attempt_status option" where
  "attempt_state a d = map_option oa_status (attempt_by_id a d)"

lemma attempt_state_update:
  "attempt_by_id a d = Some oa \<Longrightarrow> (\<And>r. oa_id (f r) = oa_id r) \<Longrightarrow>
     attempt_state a (put_attempts (update_rows (\<lambda>r. oa_id r = a) f (order_attempts d)) d) = Some (oa_status (f oa))"
  using attempt_by_id_Some [of a d oa] by (simp add: attempt_state_def attempt_by_id_def find_row_update)

definition none_held :: "int \<Rightarrow> db \<Rightarrow> bool" where
  "none_held a d \<longleftrightarrow> list_all (\<lambda>b. \<not> (br_order_attempt_id b = a \<and> br_state b = Reserved)) (budget_reservations d)"

lemma settle_transport:
  assumes k: "attempts.keyed (w_db w)" and oa: "attempt_by_id (at_id v) (w_db w) = Some oa" "oa_intent_id oa = i" "oa_status oa = Submitting"
  shows "\<exists>d'. settle_submission X clk i v (Inl (SubmitTransport detail)) w = (Inr OUncertain, w\<lparr>w_db := d'\<rparr>) \<and>
    attempt_state (at_id v) d' = Some Uncertain \<and> budget_reservations d' = budget_reservations (w_db w)"
proof -
  let ?d = "put_attempts (update_rows (\<lambda>r. oa_id r = at_id v) (\<lambda>r. r\<lparr>oa_status := Uncertain, oa_failure_detail := Some detail\<rparr>)
    (order_attempts (w_db w))) (w_db w)"
  have "mark_attempt_uncertain_after_submission_error i (at_id v) detail (w_db w) = (Inr (), ?d)"
    using oa by (simp add: mark_uncertain.exact [OF k] in_flight_def)
  then have "settle_submission X clk i v (Inl (SubmitTransport detail)) w = (Inr OUncertain, w\<lparr>w_db := ?d\<rparr>)"
    by (simp add: settle_submission_def and_then_def on_db_def ret_def)
  moreover have "attempt_state (at_id v) ?d = Some Uncertain" by (simp add: attempt_state_update [OF oa(1)])
  ultimately show ?thesis by (intro exI [of _ ?d]) simp
qed

lemma settle_rejected:
  assumes k: "attempts.keyed (w_db w)" and oa: "attempt_by_id (at_id v) (w_db w) = Some oa" "oa_intent_id oa = i" "oa_status oa = Submitting"
  shows "\<exists>d'. settle_submission X clk i v (Inl (SubmitRejected detail)) w = (Inr ORejected, w\<lparr>w_db := d'\<rparr>) \<and>
    attempt_state (at_id v) d' = Some ARejected \<and> none_held (at_id v) d'"
proof -
  let ?d = "put_attempts (update_rows (\<lambda>r. oa_id r = at_id v) (\<lambda>r. r\<lparr>oa_status := ARejected, oa_failure_detail := Some detail\<rparr>)
    (order_attempts (w_db w))) (w_db w)"
  let ?r = "''venue definitively rejected order''"
  let ?e = "put_reservations (update_rows (\<lambda>r. br_order_attempt_id r = at_id v \<and> br_state r = Reserved)
      (\<lambda>r. r\<lparr>br_state := ReleasedPreBoundary, br_release_reason := Some ?r, br_released_at := Some (clk 0)\<rparr>)
      (budget_reservations (w_db w))) ?d"
  let ?f = "if en_order_type (at_envelope v) = ''GTD'' \<and> is_gtd_amount_rejection detail
    then put_intents (update_rows (\<lambda>r. ci_id r = i \<and> ci_status r = InProgress)
        (\<lambda>r. r\<lparr>ci_status := IRejected, ci_rejection_reason := Some detail, ci_reserved_qty := ''0''\<rparr>) (copy_intents ?e)) ?e else ?e"
  have 1: "mark_attempt_rejected i (at_id v) detail (w_db w) = (Inr (), ?d)"
    using oa by (simp add: mark_rejected.exact [OF k])
  have "release_pre_boundary_failure (clk 0) (at_id v) ?r ?d = (Inr (), ?e)"
    by (simp add: release_pre_boundary_failure_def release_pre_boundary_failure_with_conn_def act_simps sql_update_def
        non_empty_def trim_def is_space_def Let_def)
  then have "settle_submission X clk i v (Inl (SubmitRejected detail)) w = (Inr ORejected, w\<lparr>w_db := ?f\<rparr>)"
    by (simp add: settle_submission_def and_then_def on_db_def ret_def 1 reject_pre_submit_intent_def sql_update_def)
  moreover have "attempt_state (at_id v) ?f = Some ARejected"
    using attempt_state_update [OF oa(1), of "\<lambda>r. r\<lparr>oa_status := ARejected, oa_failure_detail := Some detail\<rparr>"]
    by (simp add: attempt_state_def attempt_by_id_def)
  moreover have "none_held (at_id v) ?f" by (simp add: none_held_def list_all_iff ball_update_rows)
  ultimately show ?thesis by blast
qed

lemma settle_local:
  assumes oa: "attempt_by_id (at_id v) (w_db w) = Some oa" "oa_intent_id oa = i" "oa_status oa = Submitting"
    and k: "attempts.keyed (w_db w)" and ci: "intent_by_id i (w_db w) = Some ci"
  shows "\<exists>d'. settle_submission X clk i v (Inl (SubmitLocal detail)) w
       = (Inr (ONeedsReconcile ''local submission failure''), w\<lparr>w_db := d'\<rparr>) \<and>
    attempt_state (at_id v) d' = Some Uncertain \<and> none_held (at_id v) d'"
proof -
  let ?a = "at_id v" and ?r = "''local submission failed before network boundary''"
  let ?d1 = "put_intents (update_rows (\<lambda>r. ci_id r = i) (\<lambda>r. r\<lparr>ci_status := NeedsReconcile\<rparr>) (copy_intents (w_db w))) (w_db w)"
  let ?d2 = "put_attempts (update_rows (\<lambda>r. oa_id r = ?a \<and> oa_intent_id r = i \<and> in_flight r)
      (\<lambda>r. r\<lparr>oa_status := Uncertain, oa_failure_detail := Some detail\<rparr>) (order_attempts (w_db w))) ?d1"
  let ?d3 = "put_reservations (update_rows (\<lambda>r. br_order_attempt_id r = ?a \<and> br_state r = Reserved)
      (\<lambda>r. r\<lparr>br_state := ReleasedPreBoundary, br_release_reason := Some ?r, br_released_at := Some (clk 0)\<rparr>)
      (budget_reservations (w_db w))) ?d2"
  have a2: "attempt_by_id ?a ?d2 = Some (oa\<lparr>oa_status := Uncertain, oa_failure_detail := Some detail\<rparr>)"
    using marked_attempt [OF k oa(1), of "\<lambda>r. oa_intent_id r = i \<and> in_flight r"] oa by (simp add: in_flight_def)
  then have a3: "attempt_by_id ?a ?d3 = Some (oa\<lparr>oa_status := Uncertain, oa_failure_detail := Some detail\<rparr>)"
    by (simp add: attempt_by_id_def)
  obtain u d' where c: "open_case_once (ci_account_id ci) (ci_token_id ci) i (Some ?a) ''local_submission_failure'' detail ?d3 = (Inr u, d')"
    using a3 by (simp add: open_case_once_ok)
  have "intent_row_of i (w_db w) = (Inr ci, w_db w)" using ci by (simp add: intent_row_of_def act_simps)
  moreover have "needs_reconcile i (w_db w) = (Inr (length (filter (\<lambda>r. ci_id r = i) (copy_intents (w_db w)))), ?d1)"
    by (simp add: needs_reconcile_def sql_update_def)
  moreover have "park_attempt i ?a detail ?d1 =
      (Inr (length (filter (\<lambda>r. oa_id r = ?a \<and> oa_intent_id r = i \<and> in_flight r) (order_attempts (w_db w)))), ?d2)"
    by (simp add: park_attempt_def sql_update_def)
  moreover have "release_pre_boundary_failure_with_conn (clk 0) ?a ?r ?d2 = (Inr (), ?d3)"
    by (simp add: release_pre_boundary_failure_with_conn_def act_simps sql_update_def non_empty_def trim_def is_space_def Let_def)
  ultimately have "open_local_submission_failure_case X (clk 0) i ?a detail (w_db w) = (Inr u, d')"
    using c by (simp add: open_local_submission_failure_case_def transaction_def and_then_def map_error_def)
  then have "settle_submission X clk i v (Inl (SubmitLocal detail)) w
       = (Inr (ONeedsReconcile ''local submission failure''), w\<lparr>w_db := d'\<rparr>)"
    by (simp add: settle_submission_def and_then_def on_db_def ret_def)
  moreover have "attempt_state ?a d' = Some Uncertain" using c a3
    by (auto simp: open_case_once_ok attempt_state_def attempt_by_id_def)
  moreover have "none_held ?a d'" using c by (auto simp: open_case_once_ok none_held_def list_all_iff ball_update_rows)
  ultimately show ?thesis by blast
qed

interpretation same_budget: frame_rel "\<lambda>d d'. budget_reservations d' = budget_reservations d"
  by unfold_locales auto

lemma finalize_same_budget: "same_budget.stays (finalize_receipt X now i a receipt)"
  unfolding finalize_receipt_def finalize_receipt_transaction_def finalize_receipt_with_conn_def Let_def
    apply_lot_delta_def upsert_lot_def
  by (intro same_budget.stays_intros same_budget.stays_update same_budget.stays_insert same_budget.stays_modifies; simp split: option.splits)

text \<open>A receipt: the attempt is accepted; a GTD order then rests, a FAK fill is booked or stays accepted.\<close>

lemma settle_receipt:
  assumes k: "attempts.keyed (w_db w)" "intents.keyed (w_db w)" and X: "dec_codec X"
    and oa: "attempt_by_id (at_id v) (w_db w) = Some oa" "oa_intent_id oa = i" "oa_status oa = Submitting"
  shows "\<exists>r d'. settle_submission X clk i v (Inr receipt) w = (r, w\<lparr>w_db := d'\<rparr>) \<and>
    (if en_order_type (at_envelope v) = ''GTD''
     then r = Inr Resting \<and> attempt_state (at_id v) d' = Some Accepted
     else case r of Inr out \<Rightarrow> out = OFilled (filled_qty receipt) \<and> attempt_state (at_id v) d' = Some Finalized
       | Inl e \<Rightarrow> attempt_state (at_id v) d' = Some Accepted) \<and>
    budget_reservations d' = budget_reservations (w_db w)"
proof -
  let ?a = "at_id v"
  let ?d = "put_attempts (update_rows (\<lambda>r. oa_id r = ?a) (\<lambda>r. r\<lparr>oa_status := Accepted\<rparr>) (order_attempts (w_db w))) (w_db w)"
  have u: "(update_attempts (\<lambda>r. oa_id r = ?a \<and> oa_intent_id r = i \<and> (oa_status r = Submitting \<or> oa_status r = Accepted))
      (\<lambda>r. r\<lparr>oa_status := Accepted\<rparr>) (w_db w) :: (orchestrate_error + nat) \<times> db) = (Inr 1, ?d)"
    by (subst attempts.cas_update [OF k(1) oa(1) [unfolded attempt_by_id_def]]) (simp add: oa)
  then have "mark_attempt_accepted i ?a (w_db w) = (Inr (), ?d)"
    by (simp add: mark_attempt_accepted_def and_then_def assert_that_def)
  then have s: "settle_submission X clk i v (Inr receipt) w =
     (if en_order_type (at_envelope v) = ''GTD'' then (Inr Resting, w\<lparr>w_db := ?d\<rparr>)
      else case finalize_receipt X (clk 0) i ?a receipt ?d of
         (Inl e, d') \<Rightarrow> (Inl (EExecute e), w\<lparr>w_db := d'\<rparr>)
       | (Inr _, d') \<Rightarrow> (Inr (OFilled (filled_qty receipt)), w\<lparr>w_db := d'\<rparr>))"
    by (simp add: settle_submission_def and_then_def on_db_def ret_def split: prod.splits sum.splits)
  have acc: "attempt_state ?a ?d = Some Accepted" by (simp add: attempt_state_update [OF oa(1)])
  have k': "attempts.keyed ?d" "intents.keyed ?d"
    using k by (simp_all add: attempts.keyed_def intents.keyed_def map_update_rows)
  obtain r d' where f: "finalize_receipt X (clk 0) i ?a receipt ?d = (r, d')" by fastforce
  have fin: "attempt_state ?a d' = Some Finalized" if "r = Inr u" for u
    using finalize_after_finalize [OF X k'(2,1) f [unfolded that]] by (auto simp: attempt_state_def)
  have b: "budget_reservations d' = budget_reservations (w_db w)"
    using same_budget.staysD [OF finalize_same_budget f] by simp
  show ?thesis
  proof (cases "en_order_type (at_envelope v) = ''GTD''")
    case True with s acc show ?thesis by auto
  next
    case False
    have "attempt_state ?a d' = Some Accepted" if "r = Inl e" for e
    proof -
      from f have "d' = ?d" unfolding that finalize_receipt_def finalize_receipt_transaction_def by (rule transaction_error)
      with acc show ?thesis by simp
    qed
    with False s f fin b show ?thesis by (cases r) auto
  qed
qed


text \<open>
  C8. A submission never leaves its attempt in the dark.  Once the persistent marker has marked a prepared
  attempt and reserved its budget, the call sends the attempt's envelope exactly once, and then always settles,
  by what the venue answered: a transport failure leaves the attempt \<open>uncertain\<close> with its budget held; a
  rejection leaves it \<open>rejected\<close> with its budget returned; a failure before the network parks it as \<open>uncertain\<close> with
  its budget returned; the receipt of a GTD order leaves it \<open>accepted\<close> and resting; the receipt of a FAK order is
  booked and the attempt \<open>finalized\<close>, or, should the booking fail, the attempt stays \<open>accepted\<close> and the error is
  returned.  It never stays \<open>submitting\<close>.
\<close>

theorem submission_settles:
  assumes m: "persistent_mark_submitting X config i (at_id v) now (w_db w) = (Inr u, d1)"
    and k: "attempts.keyed (w_db w)" "intents.keyed (w_db w)" and X: "dec_codec X"
  shows "\<exists>r d'. mark_and_submit X execution (persistent_marker X config) clk i v now w = (r, w\<lparr>w_db := d', posted := posted w @
       [\<lparr>ps_intent = i, ps_attempt = at_id v, ps_envelope = at_envelope v, ps_db = d1\<rparr>]\<rparr>) \<and>
    (case submit_exact_envelope execution (at_envelope v) of
       Inl (SubmitTransport detail) \<Rightarrow> r = Inr OUncertain \<and> attempt_state (at_id v) d' = Some Uncertain \<and>
         budget_reservations d' = budget_reservations d1
     | Inl (SubmitRejected detail) \<Rightarrow> r = Inr ORejected \<and> attempt_state (at_id v) d' = Some ARejected \<and> none_held (at_id v) d'
     | Inl (SubmitLocal detail) \<Rightarrow> r = Inr (ONeedsReconcile ''local submission failure'') \<and>
         attempt_state (at_id v) d' = Some Uncertain \<and> none_held (at_id v) d'
     | Inr receipt \<Rightarrow>
         (if en_order_type (at_envelope v) = ''GTD''
          then r = Inr Resting \<and> attempt_state (at_id v) d' = Some Accepted
          else case r of Inr out \<Rightarrow> out = OFilled (filled_qty receipt) \<and> attempt_state (at_id v) d' = Some Finalized
            | Inl e \<Rightarrow> attempt_state (at_id v) d' = Some Accepted) \<and>
         budget_reservations d' = budget_reservations d1)"
proof -
  let ?w = "w\<lparr>w_db := d1, posted := posted w @
     [\<lparr>ps_intent = i, ps_attempt = at_id v, ps_envelope = at_envelope v, ps_db = d1\<rparr>]\<rparr>"
  obtain oa ci where s: "attempts.keyed d1" "attempt_by_id (at_id v) d1 = Some oa" "oa_intent_id oa = i" "oa_status oa = Submitting"
    "intent_by_id i d1 = Some ci" "copy_intents d1 = copy_intents (w_db w)" by (rule persistent_marked [OF k(1) m])
  have ki: "intents.keyed d1" using k(2) s(6) by (simp add: intents.keyed_def)
  have e: "mark_and_submit X execution (persistent_marker X config) clk i v now w =
      settle_submission X clk i v (submit_exact_envelope execution (at_envelope v)) ?w"
    by (simp add: mark_and_submit_def handle_def on_db_def [of id] persistent_marker_def map_error_def m and_then_def post_envelope_def)
  have w: "attempts.keyed (w_db ?w)" "attempt_by_id (at_id v) (w_db ?w) = Some oa" "intent_by_id i (w_db ?w) = Some ci"
      "intents.keyed (w_db ?w)" using s ki by simp_all
  have c: "w\<lparr>posted := p, w_db := d\<rparr> = w\<lparr>w_db := d, posted := p\<rparr>" for p d by simp
  show ?thesis
  proof (cases "submit_exact_envelope execution (at_envelope v)")
    case (Inr receipt)
    from settle_receipt [OF w(1,4) X w(2) s(3,4), of clk receipt] show ?thesis by (simp add: e c Inr split del: if_split)
  next
    case (Inl err)
    show ?thesis
    proof (cases err)
      case (SubmitTransport detail)
      from settle_transport [OF w(1,2) s(3,4), of X clk detail] show ?thesis by (simp add: e c Inl SubmitTransport split del: if_split)
    next
      case (SubmitRejected detail)
      from settle_rejected [OF w(1,2) s(3,4), of X clk detail] show ?thesis by (simp add: e c Inl SubmitRejected split del: if_split)
    next
      case (SubmitLocal detail)
      from settle_local [OF w(2) s(3,4) w(1,3), of X clk detail] show ?thesis by (simp add: e c Inl SubmitLocal split del: if_split)
    qed
  qed
qed

theorem submission_settles_witness:
  "\<forall>execution clk. \<exists>r d'. mark_and_submit ext0 execution (persistent_marker ext0 config0) clk 1
      \<lparr>at_id = 1, at_status = Prepared, at_envelope = envelope0\<rparr> 1000 \<lparr>w_db = db1, posted = []\<rparr> =
    (r, \<lparr>w_db = d', posted = [\<lparr>ps_intent = 1, ps_attempt = 1, ps_envelope = envelope0, ps_db = reserved_db0\<rparr>]\<rparr>)"
proof (intro allI)
  fix execution clk
  let ?v = "\<lparr>at_id = 1, at_status = Prepared, at_envelope = envelope0\<rparr>"
  have m: "persistent_mark_submitting ext0 config0 1 (at_id ?v) 1000 (w_db \<lparr>w_db = db1, posted = []\<rparr>) = (Inr (), reserved_db0)"
    by (simp add: persistent_mark_submitting_def map_error_def reserve_sample)
  have k: "attempts.keyed (w_db \<lparr>w_db = db1, posted = []\<rparr>)" "intents.keyed (w_db \<lparr>w_db = db1, posted = []\<rparr>)"
    by (simp_all add: db1_def attempts.keyed_def intents.keyed_def)
  from submission_settles [OF m k ext0_dec_codec, of execution clk]
  show "\<exists>r d'. mark_and_submit ext0 execution (persistent_marker ext0 config0) clk 1 ?v 1000 \<lparr>w_db = db1, posted = []\<rparr> =
    (r, \<lparr>w_db = d', posted = [\<lparr>ps_intent = 1, ps_attempt = 1, ps_envelope = envelope0, ps_db = reserved_db0\<rparr>]\<rparr>)"
    by auto
qed

end
