(* ===== verification/Ingest.thy ===== *)
theory Ingest
  imports Plan "HOL-Library.List_Lexorder"
begin

text \<open>
  Activity ingestion, \<open>src/src/copytrading/ingest\<close>: the meaning of one raw message (\<open>normalize.rs\<close>), the
  resolution of a trader's address to a leader (\<open>address_resolver.rs\<close>) and the durable recording of one trade
  (\<open>apply.rs\<close>).

  \<^item> \<open>serde_json\<close> is the parameter \<open>decode\<close> from a text to the raw message.  A JSON number is its text together with
    its value as \<open>i64\<close>, if it has one.
  \<^item> A database call that fails is an input of the model: \<open>faults\<close> says at which of the calls of a try which error
    text is returned.  A failing call leaves the transaction uncommitted.
  \<^item> The abstract specification is the \<open>fill_book\<close>: one entry per canonical fill, executable or not.
\<close>

section \<open>normalize.rs\<close>

definition max_ws_frame_bytes :: nat where
  "max_ws_frame_bytes = 262144"

datatype activity_side = ActBuy | ActSell

record normalized_trade =
  nt_trader_address :: string
  nt_token_id :: string
  nt_condition_id :: string
  nt_outcome_index :: int
  nt_side :: activity_side
  nt_size :: string
  nt_price :: string
  nt_occurred_at_utc :: string
  nt_transaction_hash :: string

datatype json_value = JsonString string | JsonNumber string "int option" | JsonOther

record raw_activity_payload =
  rp_asset :: string
  rp_condition_id :: string
  rp_outcome_index :: "int option"
  rp_outcome :: "string option"
  rp_side :: string
  rp_price :: "json_value option"
  rp_size :: "json_value option"
  rp_timestamp :: "json_value option"
  rp_transaction_hash :: "string option"
  rp_trader :: "string option option" \<comment> \<open>\<open>RawTrader\<close>, whose one field is optional\<close>
  rp_proxy_wallet :: "string option"
  rp_is_combo :: "bool option"

record raw_activity_message =
  rm_topic :: string
  rm_message_type :: string
  rm_payload :: raw_activity_payload

datatype parse_result = PTrade normalized_trade | PRejected string | PSkip

text \<open>The byte length of a text in UTF-8, for code points up to 255.\<close>

definition utf8_len :: "string \<Rightarrow> nat" where
  "utf8_len s = sum_list (map (\<lambda>c. if (of_char c :: nat) < 128 then 1 else 2) s)"

definition eq_ignore_ascii_case :: "string \<Rightarrow> string \<Rightarrow> bool" where
  "eq_ignore_ascii_case s t \<longleftrightarrow> to_ascii_lowercase s = to_ascii_lowercase t"

definition to_ascii_uppercase :: "string \<Rightarrow> string" where
  "to_ascii_uppercase s =
     map (\<lambda>c. if CHR ''a'' \<le> c \<and> c \<le> CHR ''z'' then char_of (of_char c - (32 :: nat)) else c) s"

definition parse_side :: "string \<Rightarrow> activity_side option" where
  "parse_side raw = (if to_ascii_uppercase raw = ''BUY'' then Some ActBuy
     else if to_ascii_uppercase raw = ''SELL'' then Some ActSell else None)"

definition parse_outcome_index :: "string option \<Rightarrow> int option" where
  "parse_outcome_index outcome = (case outcome of
       None \<Rightarrow> None
     | Some raw \<Rightarrow>
        if to_ascii_uppercase raw \<in> {''YES'', ''UP'', ''TRUE''} then Some 0
        else if to_ascii_uppercase raw \<in> {''NO'', ''DOWN'', ''FALSE''} then Some 1 else None)"

definition value_to_decimal_text :: "json_value option \<Rightarrow> string option" where
  "value_to_decimal_text v = (case v of
       Some (JsonString text) \<Rightarrow> if text \<noteq> [] then Some text else None
     | Some (JsonNumber text _) \<Rightarrow> Some text
     | _ \<Rightarrow> None)"

definition checked_mul_i64 :: "int \<Rightarrow> int \<Rightarrow> int option" where
  "checked_mul_i64 a b = (if - (2 ^ 63) \<le> a * b \<and> a * b < 2 ^ 63 then Some (a * b) else None)"

definition value_to_utc_rfc3339 :: "ext \<Rightarrow> json_value \<Rightarrow> string option" where
  "value_to_utc_rfc3339 X v =
     (case (case v of JsonNumber _ i \<Rightarrow> i | JsonString text \<Rightarrow> parse_i64 text | JsonOther \<Rightarrow> None) of
        None \<Rightarrow> None
      | Some raw \<Rightarrow>
         (case (if \<bar>raw\<bar> < 1000000000000 then checked_mul_i64 raw 1000 else Some raw) of
            None \<Rightarrow> None
          | Some millis \<Rightarrow> rfc3339_millis X millis))"

definition non_empty_text :: "string option \<Rightarrow> string option" where
  "non_empty_text v = (case v of Some t \<Rightarrow> if t \<noteq> [] then Some t else None | None \<Rightarrow> None)"

definition payload_trader :: "raw_activity_payload \<Rightarrow> string option" where
  "payload_trader p = non_empty_text (case rp_proxy_wallet p of
       Some w \<Rightarrow> Some w
     | None \<Rightarrow> (case rp_trader p of None \<Rightarrow> None | Some address \<Rightarrow> address))"

definition parse :: "ext \<Rightarrow> (string \<Rightarrow> raw_activity_message option) \<Rightarrow> string \<Rightarrow> parse_result" where
  "parse X decode raw =
     (if utf8_len raw > max_ws_frame_bytes then PSkip else
      let trimmed = trim raw in
      if eq_ignore_ascii_case trimmed ''pong'' \<or> eq_ignore_ascii_case trimmed ''ping'' then PSkip else
      (case decode trimmed of
         None \<Rightarrow> PSkip
       | Some message \<Rightarrow>
      if rm_topic message \<noteq> ''activity'' \<or>
         rm_message_type message \<noteq> ''trades'' \<and> rm_message_type message \<noteq> ''orders_matched'' then PSkip else
      let payload = rm_payload message in
      if rp_is_combo payload = Some True
        then PRejected ''combination bet (isCombo) excluded, v1 does not support it'' else
      if rp_asset payload = [] \<or> rp_condition_id payload = [] then PRejected ''missing asset or conditionId'' else
      (case parse_side (rp_side payload) of
         None \<Rightarrow> PRejected ''missing or invalid side''
       | Some sd \<Rightarrow>
      (case value_to_decimal_text (rp_price payload) of
         None \<Rightarrow> PRejected ''missing or invalid price''
       | Some price \<Rightarrow>
      (case value_to_decimal_text (rp_size payload) of
         None \<Rightarrow> PRejected ''missing or invalid size''
       | Some sz \<Rightarrow>
      (case non_empty_text (rp_transaction_hash payload) of
         None \<Rightarrow> PRejected ''missing transactionHash''
       | Some tx \<Rightarrow>
      (case payload_trader payload of
         None \<Rightarrow> PRejected ''missing trader address''
       | Some trader \<Rightarrow>
      (case (case rp_outcome_index payload of Some i \<Rightarrow> Some i | None \<Rightarrow> parse_outcome_index (rp_outcome payload)) of
         None \<Rightarrow> PRejected ''missing or unrecognized outcome index''
       | Some outcome_index \<Rightarrow>
      (case (case rp_timestamp payload of None \<Rightarrow> None | Some v \<Rightarrow> value_to_utc_rfc3339 X v) of
         None \<Rightarrow> PRejected ''missing or invalid timestamp''
       | Some occurred_at \<Rightarrow>
      PTrade \<lparr>nt_trader_address = to_ascii_lowercase trader, nt_token_id = rp_asset payload,
        nt_condition_id = rp_condition_id payload, nt_outcome_index = outcome_index, nt_side = sd, nt_size = sz,
        nt_price = price, nt_occurred_at_utc = occurred_at, nt_transaction_hash = tx\<rparr>)))))))))"

section \<open>address\_resolver.rs\<close>

type_synonym address_resolver = "string \<rightharpoonup> int"

definition resolver_reload :: "(string \<times> int) list \<Rightarrow> address_resolver" where
  "resolver_reload pairs = fold (\<lambda>(address, leader_id) next. next(to_ascii_lowercase address \<mapsto> leader_id)) pairs Map.empty"

definition resolve :: "address_resolver \<Rightarrow> string \<Rightarrow> int option" where
  "resolve resolver address = resolver (to_ascii_lowercase address)"

definition watched_aliases :: "db \<Rightarrow> (string \<times> int) list" where
  "watched_aliases d = map (\<lambda>r. (wa_address r, wa_leader_id r))
     (filter (\<lambda>r. wa_enabled r \<and> list_ex (\<lambda>lc. lc_id lc = wa_leader_id r \<and> lc_enabled lc) (leader_config d))
       (wallet_aliases d))"

definition reload_from_db :: "db \<Rightarrow> address_resolver" where
  "reload_from_db d = resolver_reload (watched_aliases d)"

section \<open>apply.rs\<close>

definition canonical_decimal_token_id :: "string \<Rightarrow> string option" where
  "canonical_decimal_token_id raw =
     (let trimmed = trim raw in
      if \<not> all_digits trimmed then None
      else let stripped = dropWhile (\<lambda>c. c = CHR ''0'') trimmed
           in if stripped = [] then Some ''0'' else Some stripped)"

datatype process_outcome =
  Ingested int string
| Skip
| TradeRejected string
| NotWatched
| LeaderNotActivated
| BeforeActivation
| DatabaseError string

definition process_outcome_text :: "process_outcome \<Rightarrow> string" where
  "process_outcome_text out = (case out of
       Ingested leader_id key \<Rightarrow> ''ingested leader_id='' @ show_i64 leader_id @ '' key='' @ key
     | Skip \<Rightarrow> ''skip''
     | TradeRejected reason \<Rightarrow> ''rejected: '' @ reason
     | NotWatched \<Rightarrow> ''not watched''
     | LeaderNotActivated \<Rightarrow> ''leader not activated''
     | BeforeActivation \<Rightarrow> ''before activation''
     | DatabaseError e \<Rightarrow> ''database error: '' @ e)"

text \<open>\<open>Decimal::round_dp\<close>: to the nearest value with that many places, a tie to the even one.\<close>

definition round_dp :: "nat \<Rightarrow> decimal \<Rightarrow> decimal" where
  "round_dp dp q =
     (let y = q * 10 ^ dp; f = \<lfloor>y\<rfloor>; r = y - of_int f
      in of_int (if r < 1 / 2 \<or> r = 1 / 2 \<and> even f then f else f + 1) / 10 ^ dp)"

definition identity_price_dp :: nat where
  "identity_price_dp = 10"

definition activity_side_text :: "activity_side \<Rightarrow> string" where
  "activity_side_text sd = (case sd of ActBuy \<Rightarrow> ''BUY'' | ActSell \<Rightarrow> ''SELL'')"

definition canonical_price :: "ext \<Rightarrow> normalized_trade \<Rightarrow> string option" where
  "canonical_price X t = map_option (\<lambda>v. show_dec X (round_dp identity_price_dp v)) (parse_dec X (nt_price t))"

definition canonical_size :: "ext \<Rightarrow> normalized_trade \<Rightarrow> string option" where
  "canonical_size X t = (case parse_dec X (nt_size t) of
       Some v \<Rightarrow> if v > 0 then Some (show_dec X v) else None
     | None \<Rightarrow> None)"

definition canonical_token :: "normalized_trade \<Rightarrow> string" where
  "canonical_token t = (case canonical_decimal_token_id (nt_token_id t) of None \<Rightarrow> nt_token_id t | Some c \<Rightarrow> c)"

definition canonical_event_key :: "normalized_trade \<Rightarrow> string \<Rightarrow> string \<Rightarrow> string" where
  "canonical_event_key t price sz = join '':''
     [''activity'', to_ascii_lowercase (nt_transaction_hash t), to_ascii_lowercase (nt_trader_address t),
      to_ascii_lowercase (nt_condition_id t), canonical_token t, show_i64 (nt_outcome_index t),
      activity_side_text (nt_side t), price, sz]"

text \<open>The database calls of one try, in order.\<close>

datatype ingest_call = ReadActivation | BeginTx | InsertEvent | PromoteEvent | InsertObservation | CommitTx

type_synonym faults = "ingest_call \<Rightarrow> string option"

definition call_db :: "faults \<Rightarrow> ingest_call \<Rightarrow> (string, unit) db_act" where
  "call_db faults c = (case faults c of None \<Rightarrow> ret () | Some e \<Rightarrow> raise e)"

definition event_row_of :: "ext \<Rightarrow> timestamp \<Rightarrow> string \<Rightarrow> int \<Rightarrow> normalized_trade \<Rightarrow> bool \<Rightarrow> int \<Rightarrow> leader_event_row" where
  "event_row_of X now key leader_id t realtime i =
     \<lparr>le_id = i, le_canonical_event_key = key, le_leader_id = leader_id, le_condition_id = nt_condition_id t,
      le_token_id = nt_token_id t, le_outcome_index = nt_outcome_index t, le_side = activity_side_text (nt_side t),
      le_size = nt_size t, le_price = nt_price t, le_tx_hash = Some (nt_transaction_hash t),
      le_occurred_at = nt_occurred_at_utc t, le_observed_at = show_sql_time X now, le_realtime_observed = realtime\<rparr>"

text \<open>\<open>INSERT OR IGNORE INTO leader_events\<close>: the key is unique.\<close>

definition insert_or_ignore_event :: "string \<Rightarrow> (int \<Rightarrow> leader_event_row) \<Rightarrow> (string, unit) db_act" where
  "insert_or_ignore_event key mk = (\<lambda>d.
     if find_row (\<lambda>r. le_canonical_event_key r = key) (leader_events d) \<noteq> None then (Inr (), d)
     else and_then (insert_event mk) (\<lambda>_. ret ()) d)"

definition promote_event :: "string \<Rightarrow> (string, unit) db_act" where
  "promote_event key = and_then (update_events (\<lambda>r. le_canonical_event_key r = key)
     (\<lambda>r. r\<lparr>le_realtime_observed := True\<rparr>)) (\<lambda>_. ret ())"

text \<open>
  \<open>INSERT OR IGNORE INTO leader_event_observations ... SELECT\<close>: the pair of source and identifier is unique, and the
  source is one of the schema's.
\<close>

definition insert_or_ignore_observation :: "string \<Rightarrow> string \<Rightarrow> string \<Rightarrow> string \<Rightarrow> (string, unit) db_act" where
  "insert_or_ignore_observation source source_identifier payload key = (\<lambda>d.
     case find_row (\<lambda>r. le_canonical_event_key r = key) (leader_events d) of
       None \<Rightarrow> (Inr (), d)
     | Some ev \<Rightarrow>
        if source \<notin> {''activity_ws'', ''activity_backfill'', ''onchain_ws''} \<or>
           find_row (\<lambda>r. ob_source r = source \<and> ob_source_identifier r = Some source_identifier) (observations d) \<noteq> None
        then (Inr (), d)
        else and_then (insert_observation (\<lambda>i. \<lparr>ob_id = i, ob_leader_event_id = Some (le_id ev), ob_source = source,
               ob_source_identifier = Some source_identifier, ob_payload = payload\<rparr>)) (\<lambda>_. ret ()) d)"

definition record_trade ::
  "ext \<Rightarrow> faults \<Rightarrow> timestamp \<Rightarrow> string \<Rightarrow> int \<Rightarrow> normalized_trade \<Rightarrow> string \<Rightarrow> string \<Rightarrow> string \<Rightarrow> (string, unit) db_act" where
  "record_trade X faults now key leader_id t source source_identifier raw_payload =
     transaction
      (and_then (call_db faults BeginTx) (\<lambda>_.
       let realtime_observed = (source = ''activity_ws'') in
       and_then (call_db faults InsertEvent) (\<lambda>_.
       and_then (insert_or_ignore_event key (event_row_of X now key leader_id t realtime_observed)) (\<lambda>_.
       and_then (if realtime_observed then and_then (call_db faults PromoteEvent) (\<lambda>_. promote_event key) else ret ()) (\<lambda>_.
       and_then (call_db faults InsertObservation) (\<lambda>_.
       and_then (insert_or_ignore_observation source source_identifier raw_payload key) (\<lambda>_.
       call_db faults CommitTx)))))))"

definition activation_of :: "int \<Rightarrow> db \<Rightarrow> string option" where
  "activation_of leader_id d = (case find_row (\<lambda>r. lc_id r = leader_id) (leader_config d) of
       None \<Rightarrow> None | Some lc \<Rightarrow> lc_activation_at lc)"

definition apply_trade_once ::
  "ext \<Rightarrow> faults \<Rightarrow> timestamp \<Rightarrow> address_resolver \<Rightarrow> normalized_trade \<Rightarrow> string \<Rightarrow> string \<Rightarrow> string \<Rightarrow> db
     \<Rightarrow> process_outcome \<times> db" where
  "apply_trade_once X faults now resolver t source source_identifier raw_payload d =
     (case resolve resolver (nt_trader_address t) of
        None \<Rightarrow> (NotWatched, d)
      | Some leader_id \<Rightarrow>
     (case faults ReadActivation of
        Some e \<Rightarrow> (DatabaseError e, d)
      | None \<Rightarrow>
     (case activation_of leader_id d of
        None \<Rightarrow> (LeaderNotActivated, d)
      | Some activation_at \<Rightarrow>
     if nt_occurred_at_utc t < activation_at then (BeforeActivation, d) else
     (case canonical_price X t of
        None \<Rightarrow> (TradeRejected ''invalid price in normalized trade'', d)
      | Some price \<Rightarrow>
     (case canonical_size X t of
        None \<Rightarrow> (TradeRejected ''invalid size in normalized trade'', d)
      | Some sz \<Rightarrow>
     let key = canonical_event_key t price sz in
     (case record_trade X faults now key leader_id t source source_identifier raw_payload d of
        (Inl e, d') \<Rightarrow> (DatabaseError e, d')
      | (Inr _, d') \<Rightarrow> (Ingested leader_id key, d')))))))"

definition busy_retry_delays :: "nat list" where
  "busy_retry_delays = [50, 200, 750]"

definition is_sqlite_busy :: "string \<Rightarrow> bool" where
  "is_sqlite_busy error =
     (let e = to_ascii_lowercase error
      in str_contains e ''database is locked'' \<or> str_contains e ''database is busy'' \<or> str_contains e ''sqlite_busy'')"

text \<open>The retry loop; the clock and the faults are those of the try.\<close>

fun retry_while_busy :: "nat list \<Rightarrow> (nat \<Rightarrow> 's \<Rightarrow> process_outcome \<times> 's) \<Rightarrow> nat \<Rightarrow> 's \<Rightarrow> process_outcome \<times> 's" where
  "retry_while_busy [] once attempt d = once attempt d"
| "retry_while_busy (delay # delays) once attempt d =
     (case once attempt d of
        (DatabaseError e, d') \<Rightarrow>
          if is_sqlite_busy e then retry_while_busy delays once (attempt + 1) d' else (DatabaseError e, d')
      | (out, d') \<Rightarrow> (out, d'))"

definition apply_trade ::
  "ext \<Rightarrow> (nat \<Rightarrow> faults) \<Rightarrow> (nat \<Rightarrow> timestamp) \<Rightarrow> address_resolver \<Rightarrow> normalized_trade \<Rightarrow> string \<Rightarrow> string \<Rightarrow> string \<Rightarrow> db
     \<Rightarrow> process_outcome \<times> db" where
  "apply_trade X faults clk resolver t source source_identifier raw_payload =
     retry_while_busy busy_retry_delays
       (\<lambda>n. apply_trade_once X (faults n) (clk n) resolver t source source_identifier raw_payload) 0"

text \<open>\<open>activity_ws::process_message\<close>\<close>

definition process_message ::
  "ext \<Rightarrow> (string \<Rightarrow> raw_activity_message option) \<Rightarrow> (nat \<Rightarrow> faults) \<Rightarrow> (nat \<Rightarrow> timestamp) \<Rightarrow> address_resolver \<Rightarrow> string \<Rightarrow> db
     \<Rightarrow> process_outcome \<times> db" where
  "process_message X decode faults clk resolver raw d = (case parse X decode raw of
       PTrade t \<Rightarrow> apply_trade X faults clk resolver t ''activity_ws'' (nt_transaction_hash t) raw d
     | PSkip \<Rightarrow> (Skip, d)
     | PRejected reason \<Rightarrow> (TradeRejected reason, d))"

section \<open>The fill book\<close>

text \<open>
  The abstract specification.  A fill is what the venue executed; the book holds one entry per fill identity and
  whether the realtime stream has shown it.  Recording is the only operation: the first observation writes the
  entry, a later one may only make it executable.
\<close>

record fill =
  fi_leader_id :: int
  fi_condition_id :: string
  fi_token_id :: string
  fi_outcome_index :: int
  fi_side :: string
  fi_size :: string
  fi_price :: string
  fi_tx_hash :: "string option"
  fi_occurred_at :: string

type_synonym fill_book = "string \<rightharpoonup> fill \<times> bool"

definition fill_of_row :: "leader_event_row \<Rightarrow> fill" where
  "fill_of_row r = \<lparr>fi_leader_id = le_leader_id r, fi_condition_id = le_condition_id r, fi_token_id = le_token_id r,
     fi_outcome_index = le_outcome_index r, fi_side = le_side r, fi_size = le_size r, fi_price = le_price r,
     fi_tx_hash = le_tx_hash r, fi_occurred_at = le_occurred_at r\<rparr>"

definition fill_of_trade :: "int \<Rightarrow> normalized_trade \<Rightarrow> fill" where
  "fill_of_trade leader_id t = \<lparr>fi_leader_id = leader_id, fi_condition_id = nt_condition_id t, fi_token_id = nt_token_id t,
     fi_outcome_index = nt_outcome_index t, fi_side = activity_side_text (nt_side t), fi_size = nt_size t,
     fi_price = nt_price t, fi_tx_hash = Some (nt_transaction_hash t), fi_occurred_at = nt_occurred_at_utc t\<rparr>"

definition record_fill :: "string \<Rightarrow> fill \<Rightarrow> bool \<Rightarrow> fill_book \<Rightarrow> fill_book" where
  "record_fill key f streamed b = b(key \<mapsto> (case b key of None \<Rightarrow> (f, streamed) | Some (g, s) \<Rightarrow> (g, s \<or> streamed)))"

definition book :: "db \<Rightarrow> fill_book" where
  "book d key = map_option (\<lambda>r. (fill_of_row r, le_realtime_observed r))
     (find_row (\<lambda>r. le_canonical_event_key r = key) (leader_events d))"

text \<open>The schema's uniqueness of event ids and keys, and that ingestion writes events and observations only.\<close>

definition unique_events :: "db \<Rightarrow> bool" where
  "unique_events d \<longleftrightarrow> events.keyed d \<and> distinct (map le_canonical_event_key (leader_events d))"

definition event_tables_only :: "db \<Rightarrow> db \<Rightarrow> bool" where
  "event_tables_only d d' \<longleftrightarrow> d'\<lparr>leader_events := leader_events d, observations := observations d\<rparr> = d"

interpretation event_tables: frame_rel event_tables_only
proof
  fix d d' d'' :: db
  show "event_tables_only d d" by (simp add: event_tables_only_def)
  show "event_tables_only d d' \<Longrightarrow> event_tables_only d' d'' \<Longrightarrow> event_tables_only d d''"
    by (cases d; cases d'; cases d'') (simp add: event_tables_only_def)
qed

section \<open>Recording one trade\<close>

lemma call_db_ok: "call_db faults c d = (Inr u, d') \<longleftrightarrow> faults c = None \<and> d' = d"
  by (auto simp: call_db_def ret_def raise_def split: option.splits)

lemma insert_or_ignore_event_ok:
  "insert_or_ignore_event key mk d = (Inr u, d') \<longleftrightarrow>
     d' = (if find_row (\<lambda>r. le_canonical_event_key r = key) (leader_events d) \<noteq> None then d
           else put_events (leader_events d @ [mk (next_id le_id (leader_events d))]) d)"
  by (auto simp: insert_or_ignore_event_def act_simps sql_insert_def Let_def)

lemma promote_event_ok:
  "promote_event key d = (Inr u, d') \<longleftrightarrow>
     d' = put_events (update_rows (\<lambda>r. le_canonical_event_key r = key) (\<lambda>r. r\<lparr>le_realtime_observed := True\<rparr>) (leader_events d)) d"
  by (auto simp: promote_event_def act_simps sql_update_def)

lemma observation_events:
  "insert_or_ignore_observation source i p key d = (Inr u, d') \<Longrightarrow> leader_events d' = leader_events d"
  by (auto simp: insert_or_ignore_observation_def act_simps sql_insert_def Let_def put_observations_def
      split: option.splits if_splits)

lemma observation_total: "\<exists>d'. insert_or_ignore_observation source i p key d = (Inr (), d')"
  by (auto simp: insert_or_ignore_observation_def act_simps sql_insert_def Let_def split: option.splits)

lemma event_tables_prims:
  "event_tables.stays (call_db faults c)" "event_tables.stays (insert_or_ignore_event key mk)"
  "event_tables.stays (promote_event key)" "event_tables.stays (insert_or_ignore_observation source i p key)"
  by (auto simp: event_tables.stays_def call_db_def insert_or_ignore_event_def promote_event_def
      insert_or_ignore_observation_def act_simps sql_insert_def sql_update_def Let_def event_tables_only_def
      put_events_def put_observations_def split: option.splits)

lemma record_trade_frame:
  "event_tables.stays (record_trade X faults now key ldr t source ident payload)"
  unfolding record_trade_def by (intro event_tables.stays_intros event_tables_prims)

text \<open>The events after a committed try.\<close>

definition recorded_events :: "ext \<Rightarrow> timestamp \<Rightarrow> string \<Rightarrow> int \<Rightarrow> normalized_trade \<Rightarrow> bool \<Rightarrow> leader_event_row list \<Rightarrow> leader_event_row list" where
  "recorded_events X now key ldr t streamed evs =
     (let evs' = (if find_row (\<lambda>r. le_canonical_event_key r = key) evs \<noteq> None then evs
                  else evs @ [event_row_of X now key ldr t streamed (next_id le_id evs)])
      in if streamed then update_rows (\<lambda>r. le_canonical_event_key r = key) (\<lambda>r. r\<lparr>le_realtime_observed := True\<rparr>) evs'
         else evs')"

lemma record_trade_events:
  assumes "record_trade X faults now key ldr t source ident payload d = (Inr u, d')"
  shows "leader_events d' = recorded_events X now key ldr t (source = ''activity_ws'') (leader_events d)"
proof -
  have put: "leader_events (put_events rs e) = rs" for rs e by (simp add: put_events_def)
  from assms show ?thesis
    by (auto simp: record_trade_def transaction_ok and_then_ok call_db_ok Let_def insert_or_ignore_event_ok promote_event_ok
        ret_ok recorded_events_def put dest!: observation_events split: if_splits)
qed

lemma record_trade_faultless:
  assumes "faults = (\<lambda>_. None)"
  shows "\<exists>d'. record_trade X faults now key ldr t source ident payload d = (Inr (), d')"
proof -
  have "\<exists>d'. insert_or_ignore_event key mk d = (Inr (), d')" for mk d
    by (auto simp: insert_or_ignore_event_def act_simps sql_insert_def Let_def)
  then obtain d1 where d1: "insert_or_ignore_event key (event_row_of X now key ldr t (source = ''activity_ws'')) d = (Inr (), d1)"
    by blast
  have "\<exists>d2. (if source = ''activity_ws'' then and_then (call_db faults PromoteEvent) (\<lambda>_. promote_event key) else ret ()) d1
      = (Inr (), d2)"
    by (simp add: assms call_db_def promote_event_def act_simps sql_update_def)
  then obtain d2 where d2: "(if source = ''activity_ws'' then and_then (call_db faults PromoteEvent) (\<lambda>_. promote_event key) else ret ()) d1
      = (Inr (), d2)" by blast
  obtain d3 where d3: "insert_or_ignore_observation source ident payload key d2 = (Inr (), d3)"
    using observation_total by blast
  have "call_db faults c e = (Inr (), e)" for c e by (simp add: assms call_db_def ret_def)
  with d1 d2 d3 have "record_trade X faults now key ldr t source ident payload d = (Inr (), d3)"
    unfolding record_trade_def transaction_ok Let_def and_then_ok by blast
  then show ?thesis by blast
qed

lemma find_recorded:
  "map_option (\<lambda>r. (fill_of_row r, le_realtime_observed r))
     (find_row (\<lambda>r. le_canonical_event_key r = k) (recorded_events X now key ldr t streamed evs)) =
   record_fill key (fill_of_trade ldr t) streamed
     (\<lambda>k. map_option (\<lambda>r. (fill_of_row r, le_realtime_observed r)) (find_row (\<lambda>r. le_canonical_event_key r = k) evs)) k"
proof -
  have new: "le_canonical_event_key (event_row_of X now key ldr t s i) = key"
    "fill_of_row (event_row_of X now key ldr t s i) = fill_of_trade ldr t"
    "le_realtime_observed (event_row_of X now key ldr t s i) = s" for s i
    by (simp_all add: event_row_of_def fill_of_row_def fill_of_trade_def)
  have rt: "fill_of_row (r\<lparr>le_realtime_observed := b\<rparr>) = fill_of_row r" for r b by (simp add: fill_of_row_def)
  have upd: "find_row (\<lambda>r. le_canonical_event_key r = k)
       (update_rows (\<lambda>r. le_canonical_event_key r = key) (\<lambda>r. r\<lparr>le_realtime_observed := True\<rparr>) rs) =
     map_option (\<lambda>r. if le_canonical_event_key r = key then r\<lparr>le_realtime_observed := True\<rparr> else r)
       (find_row (\<lambda>r. le_canonical_event_key r = k) rs)" for rs k
    by (rule find_row_update) simp
  show ?thesis
  proof (cases "find_row (\<lambda>r. le_canonical_event_key r = key) evs")
    case None
    then show ?thesis
      unfolding recorded_events_def record_fill_def Let_def
      by (auto simp: upd find_row_append new rt split: option.splits dest: find_row_Some)
  next
    case (Some r)
    moreover from this have "le_canonical_event_key r = key" by (auto dest: find_row_Some)
    moreover have "map_option (\<lambda>r. (fill_of_row r, le_realtime_observed r))
        (map_option (\<lambda>r. if le_canonical_event_key r = key then r\<lparr>le_realtime_observed := True\<rparr> else r)
          (find_row (\<lambda>r. le_canonical_event_key r = k) evs)) =
        map_option (\<lambda>r. (fill_of_row r, le_realtime_observed r)) (find_row (\<lambda>r. le_canonical_event_key r = k) evs)"
      if "k \<noteq> key"
      using that by (cases "find_row (\<lambda>r. le_canonical_event_key r = k) evs") (auto dest: find_row_Some)
    ultimately show ?thesis
      unfolding recorded_events_def record_fill_def Let_def by (cases "k = key") (simp_all add: upd rt)
  qed
qed

lemma record_trade_book:
  assumes "record_trade X faults now key ldr t source ident payload d = (Inr u, d')"
  shows "book d' = record_fill key (fill_of_trade ldr t) (source = ''activity_ws'') (book d)"
  unfolding book_def record_trade_events [OF assms] by (rule ext) (simp add: find_recorded)

lemma record_trade_unique:
  assumes "record_trade X faults now key ldr t source ident payload d = (Inr u, d')" "unique_events d"
  shows "unique_events d'"
proof -
  have new: "le_canonical_event_key (event_row_of X now key ldr t s i) = key" "le_id (event_row_of X now key ldr t s i) = i" for s i
    by (simp_all add: event_row_of_def)
  have fresh: "find_row (\<lambda>r. le_canonical_event_key r = key) (leader_events d) = None \<Longrightarrow>
      key \<notin> le_canonical_event_key ` set (leader_events d)"
    by (auto simp: find_row_None)
  show ?thesis
    using assms(2) next_id_fresh [of le_id "leader_events d"] fresh
    unfolding unique_events_def events.keyed_def record_trade_events [OF assms(1)] recorded_events_def
    by (auto simp: Let_def map_update_rows new simp del: not_None_eq)
qed

section \<open>Applying one trade\<close>

text \<open>The identity of a trade's fill, and the leader and identity under which a trade is accepted.\<close>

definition event_identity :: "ext \<Rightarrow> normalized_trade \<Rightarrow> string option" where
  "event_identity X t = (case canonical_price X t of None \<Rightarrow> None | Some price \<Rightarrow>
     map_option (canonical_event_key t price) (canonical_size X t))"

definition accepted_as :: "ext \<Rightarrow> address_resolver \<Rightarrow> normalized_trade \<Rightarrow> db \<Rightarrow> (int \<times> string) option" where
  "accepted_as X resolver t d = (case resolve resolver (nt_trader_address t) of
       None \<Rightarrow> None
     | Some ldr \<Rightarrow> (case activation_of ldr d of
           None \<Rightarrow> None
         | Some a \<Rightarrow> if nt_occurred_at_utc t < a then None else map_option (Pair ldr) (event_identity X t)))"

lemma apply_once_ingested:
  assumes "apply_trade_once X faults now resolver t source ident payload d = (Ingested ldr key, d')"
  shows "accepted_as X resolver t d = Some (ldr, key) \<and>
    record_trade X faults now key ldr t source ident payload d = (Inr (), d')"
  using assms
  by (auto simp: apply_trade_once_def accepted_as_def event_identity_def Let_def
      split: option.splits if_splits prod.splits sum.splits)

lemma apply_once_other:
  assumes "apply_trade_once X faults now resolver t source ident payload d = (out, d')" "\<nexists>ldr key. out = Ingested ldr key"
  shows "d' = d"
proof -
  have tx: "record_trade X faults now key ldr t source ident payload d = (Inl e, e') \<Longrightarrow> e' = d" for key ldr e e'
    unfolding record_trade_def by (rule transaction_error)
  from assms show ?thesis
    by (auto simp: apply_trade_once_def Let_def dest: tx split: option.splits if_splits prod.splits sum.splits)
qed

lemma apply_once_faultless:
  assumes "accepted_as X resolver t d = Some (ldr, key)"
  shows "\<exists>d'. apply_trade_once X (\<lambda>_. None) now resolver t source ident payload d = (Ingested ldr key, d')"
proof -
  from assms obtain a price sz where 1: "resolve resolver (nt_trader_address t) = Some ldr" "activation_of ldr d = Some a"
    "\<not> nt_occurred_at_utc t < a" "canonical_price X t = Some price" "canonical_size X t = Some sz"
    "key = canonical_event_key t price sz"
    by (auto simp: accepted_as_def event_identity_def split: option.splits if_splits)
  obtain d' where "record_trade X (\<lambda>_. None) now key ldr t source ident payload d = (Inr (), d')"
    using record_trade_faultless by blast
  with 1 show ?thesis by (simp add: apply_trade_once_def Let_def)
qed

lemma apply_once_refused:
  assumes "accepted_as X resolver t d = None" "apply_trade_once X faults now resolver t source ident payload d = (out, d')"
  shows "d' = d" "\<And>ldr key. out \<noteq> Ingested ldr key"
proof -
  show no: "out \<noteq> Ingested ldr key" for ldr key using apply_once_ingested assms by fastforce
  with apply_once_other [OF assms(2)] show "d' = d" by blast
qed

text \<open>
  The retry loop: a failed try leaves no trace, so the result is that of a single try, either the last one or the
  first that does not fail as busy.
\<close>

lemma retry_single_try:
  assumes "\<And>n d out d'. once n d = (out, d') \<Longrightarrow> \<nexists>ldr key. out = Ingested ldr key \<Longrightarrow> d' = d"
  shows "\<exists>k \<ge> n. k \<le> n + length delays \<and> retry_while_busy delays once n d = once k d \<and>
    (\<forall>m. n \<le> m \<and> m < k \<longrightarrow> (\<exists>e. once m d = (DatabaseError e, d) \<and> is_sqlite_busy e)) \<and>
    (k < n + length delays \<longrightarrow> \<not> (\<exists>e. fst (once k d) = DatabaseError e \<and> is_sqlite_busy e))"
proof (induction delays arbitrary: n)
  case Nil
  show ?case by (rule exI [of _ n]) auto
next
  case (Cons delay delays)
  show ?case
  proof (cases "\<exists>e. fst (once n d) = DatabaseError e \<and> is_sqlite_busy e")
    case False
    then have "retry_while_busy (delay # delays) once n d = once n d"
      by (auto split: prod.splits process_outcome.splits)
    with False show ?thesis by (intro exI [of _ n]) auto
  next
    case True
    then obtain e d' where e: "once n d = (DatabaseError e, d')" "is_sqlite_busy e" by (metis prod.collapse)
    with assms [OF e(1)] have "d' = d" by auto
    with e have step: "once n d = (DatabaseError e, d)" "retry_while_busy (delay # delays) once n d = retry_while_busy delays once (n + 1) d"
      by auto
    from Cons.IH [of "n + 1"] obtain k where k: "n + 1 \<le> k" "k \<le> n + 1 + length delays"
      "retry_while_busy delays once (n + 1) d = once k d"
      "\<forall>m. n + 1 \<le> m \<and> m < k \<longrightarrow> (\<exists>e. once m d = (DatabaseError e, d) \<and> is_sqlite_busy e)"
      "k < n + 1 + length delays \<longrightarrow> \<not> (\<exists>e. fst (once k d) = DatabaseError e \<and> is_sqlite_busy e)" by blast
    have "\<forall>m. n \<le> m \<and> m < k \<longrightarrow> (\<exists>e. once m d = (DatabaseError e, d) \<and> is_sqlite_busy e)"
      using k(4) step(1) e(2) by (metis Suc_eq_plus1 Suc_leI le_eq_less_or_eq)
    with k step(2) show ?thesis by (intro exI [of _ k]) auto
  qed
qed

lemma apply_trade_single_try:
  obtains k where "k \<le> length busy_retry_delays"
    "apply_trade X faults clk resolver t source ident payload d =
       apply_trade_once X (faults k) (clk k) resolver t source ident payload d"
    "\<forall>m < k. \<exists>e. apply_trade_once X (faults m) (clk m) resolver t source ident payload d = (DatabaseError e, d) \<and> is_sqlite_busy e"
    "k < length busy_retry_delays \<longrightarrow> \<not> (\<exists>e. fst (apply_trade_once X (faults k) (clk k) resolver t source ident payload d)
       = DatabaseError e \<and> is_sqlite_busy e)"
proof -
  have "\<exists>k \<ge> 0. k \<le> 0 + length busy_retry_delays \<and> apply_trade X faults clk resolver t source ident payload d =
      apply_trade_once X (faults k) (clk k) resolver t source ident payload d \<and>
      (\<forall>m. 0 \<le> m \<and> m < k \<longrightarrow> (\<exists>e. apply_trade_once X (faults m) (clk m) resolver t source ident payload d = (DatabaseError e, d) \<and> is_sqlite_busy e)) \<and>
      (k < 0 + length busy_retry_delays \<longrightarrow> \<not> (\<exists>e. fst (apply_trade_once X (faults k) (clk k) resolver t source ident payload d)
       = DatabaseError e \<and> is_sqlite_busy e))"
    unfolding apply_trade_def by (rule retry_single_try) (rule apply_once_other)
  then show thesis using that by auto
qed

lemma apply_trade_ingested:
  assumes "apply_trade X faults clk resolver t source ident payload d = (Ingested ldr key, d')"
  shows "accepted_as X resolver t d = Some (ldr, key)"
    and "book d' = record_fill key (fill_of_trade ldr t) (source = ''activity_ws'') (book d)"
    and "unique_events d \<Longrightarrow> unique_events d'"
proof -
  obtain k where "apply_trade_once X (faults k) (clk k) resolver t source ident payload d = (Ingested ldr key, d')"
    using apply_trade_single_try [of X faults clk resolver t source ident payload d] assms by metis
  note 1 = apply_once_ingested [OF this]
  show "accepted_as X resolver t d = Some (ldr, key)" using 1 by blast
  show "book d' = record_fill key (fill_of_trade ldr t) (source = ''activity_ws'') (book d)"
    by (rule record_trade_book [OF conjunct2 [OF 1]])
  show "unique_events d \<Longrightarrow> unique_events d'" by (rule record_trade_unique [OF conjunct2 [OF 1]])
qed

lemma apply_trade_other:
  assumes "apply_trade X faults clk resolver t source ident payload d = (out, d')" "\<nexists>ldr key. out = Ingested ldr key"
  shows "d' = d"
  using apply_trade_single_try [of X faults clk resolver t source ident payload d] apply_once_other assms by metis

lemma apply_trade_frame: "event_tables_only d (snd (apply_trade X faults clk resolver t source ident payload d))"
proof -
  have once: "event_tables_only d d'" if o: "apply_trade_once X fs now resolver t source ident payload d = (out, d')" for fs now out d'
  proof (cases "\<exists>ldr key. out = Ingested ldr key")
    case True
    then obtain ldr key where "record_trade X fs now key ldr t source ident payload d = (Inr (), d')"
      using apply_once_ingested o by blast
    then show ?thesis by (rule event_tables.staysD [OF record_trade_frame])
  next
    case False
    with apply_once_other [OF o] show ?thesis by (simp add: event_tables.R_refl)
  qed
  obtain k where "apply_trade X faults clk resolver t source ident payload d =
      apply_trade_once X (faults k) (clk k) resolver t source ident payload d"
    by (rule apply_trade_single_try)
  then show ?thesis using once by (metis prod.collapse)
qed

section \<open>Deliveries\<close>

text \<open>One call of \<open>apply_trade\<close> by whichever source, with everything it depends on.\<close>

record delivery =
  dl_trade :: normalized_trade
  dl_source :: string
  dl_identifier :: string
  dl_payload :: string
  dl_resolver :: address_resolver
  dl_faults :: "nat \<Rightarrow> faults"
  dl_clock :: "nat \<Rightarrow> timestamp"

definition deliver :: "ext \<Rightarrow> delivery \<Rightarrow> db \<Rightarrow> process_outcome \<times> db" where
  "deliver X l = apply_trade X (dl_faults l) (dl_clock l) (dl_resolver l) (dl_trade l) (dl_source l) (dl_identifier l) (dl_payload l)"

fun deliver_all :: "ext \<Rightarrow> delivery list \<Rightarrow> db \<Rightarrow> process_outcome list \<times> db" where
  "deliver_all X [] d = ([], d)"
| "deliver_all X (l # ls) d =
     (let (out, d1) = deliver X l d; (outs, d') = deliver_all X ls d1 in (out # outs, d'))"

text \<open>The same on the book: an ingested delivery records its fill, any other leaves the book alone.\<close>

definition book_step :: "delivery \<Rightarrow> process_outcome \<Rightarrow> fill_book \<Rightarrow> fill_book" where
  "book_step l out b = (case out of
       Ingested ldr key \<Rightarrow> record_fill key (fill_of_trade ldr (dl_trade l)) (dl_source l = ''activity_ws'') b
     | _ \<Rightarrow> b)"

definition book_run :: "(delivery \<times> process_outcome) list \<Rightarrow> fill_book \<Rightarrow> fill_book" where
  "book_run = fold (\<lambda>(l, out). book_step l out)"

text \<open>A delivery is settled when one of its tries, before any that fails otherwise, meets no fault.\<close>

definition settled_delivery :: "delivery \<Rightarrow> bool" where
  "settled_delivery l \<longleftrightarrow> (\<exists>k \<le> length busy_retry_delays. dl_faults l k = (\<lambda>_. None) \<and>
     (\<forall>m < k. \<forall>c. \<forall>e. dl_faults l m c = Some e \<longrightarrow> is_sqlite_busy e))"

definition accepts :: "ext \<Rightarrow> delivery \<Rightarrow> db \<Rightarrow> (int \<times> string) option" where
  "accepts X l d = accepted_as X (dl_resolver l) (dl_trade l) d"

lemma deliver_book: "deliver X l d = (out, d') \<Longrightarrow> book d' = book_step l out (book d) \<and> (unique_events d \<longrightarrow> unique_events d')"
  unfolding deliver_def book_step_def
  by (cases out) (auto dest: apply_trade_ingested(2,3) apply_trade_other)

lemma deliver_ingested: "deliver X l d = (Ingested ldr key, d') \<Longrightarrow> accepts X l d = Some (ldr, key)"
  unfolding deliver_def accepts_def by (rule apply_trade_ingested(1))

lemma deliver_leaders: "deliver X l d = (out, d') \<Longrightarrow> leader_config d' = leader_config d"
proof -
  assume "deliver X l d = (out, d')"
  then have "event_tables_only d d'" using apply_trade_frame unfolding deliver_def by (metis snd_conv)
  then show ?thesis by (cases d; cases d') (simp add: event_tables_only_def)
qed

lemma accepts_cong: "leader_config d' = leader_config d \<Longrightarrow> accepts X l d' = accepts X l d"
  by (simp add: accepts_def accepted_as_def activation_of_def cong: option.case_cong)

lemma faulty_once_busy:
  assumes "apply_trade_once X faults now resolver t source ident payload d = (DatabaseError e, d')"
    "\<forall>c e. faults c = Some e \<longrightarrow> is_sqlite_busy e"
  shows "is_sqlite_busy e"
proof -
  have c: "call_db faults c d1 = (Inl e, d2) \<Longrightarrow> faults c = Some e" for c d1 d2 e
    by (auto simp: call_db_def ret_def raise_def split: option.splits)
  have p: "raises is_sqlite_busy (call_db faults c)" for c
    using assms(2) c unfolding raises_def by blast
  have q: "raises Q (insert_or_ignore_event key mk)" "raises Q (promote_event key)"
    "raises Q (insert_or_ignore_observation source ident payload key)" for Q key mk
    by (auto simp: raises_def insert_or_ignore_event_def promote_event_def insert_or_ignore_observation_def act_simps
        sql_insert_def sql_update_def Let_def split: option.splits if_splits)
  have "raises is_sqlite_busy (record_trade X faults now key ldr t source ident payload)" for key ldr
  proof -
    have tx: "raises R (transaction m)" if "raises R m" for R and m :: "(string, unit) db_act"
      using that transaction_fst [of m] unfolding raises_def by (metis fst_conv prod.collapse)
    show ?thesis unfolding record_trade_def by (intro tx raises_intros p q)
  qed
  then have r: "record_trade X faults now key ldr t source ident payload d = (Inl e, d') \<Longrightarrow> is_sqlite_busy e" for key ldr
    using raisesD by metis
  from assms show ?thesis
    by (auto simp: apply_trade_once_def Let_def dest: r split: option.splits if_splits prod.splits sum.splits)
qed

lemma deliver_settled:
  assumes "settled_delivery l" "accepts X l d = Some (ldr, key)"
  shows "\<exists>d'. deliver X l d = (Ingested ldr key, d')"
proof -
  note acc = assms(2) [unfolded accepts_def]
  let ?once = "\<lambda>k. apply_trade_once X (dl_faults l k) (dl_clock l k) (dl_resolver l) (dl_trade l) (dl_source l) (dl_identifier l) (dl_payload l) d"
  obtain j where j: "j \<le> length busy_retry_delays" "dl_faults l j = (\<lambda>_. None)"
    "\<forall>m < j. \<forall>c. \<forall>e. dl_faults l m c = Some e \<longrightarrow> is_sqlite_busy e" using assms(1) by (auto simp: settled_delivery_def)
  obtain dj where dj: "?once j = (Ingested ldr key, dj)" using apply_once_faultless [OF acc] j(2) by fastforce
  obtain k where k: "k \<le> length busy_retry_delays" "deliver X l d = ?once k"
    "\<forall>m < k. \<exists>e. ?once m = (DatabaseError e, d) \<and> is_sqlite_busy e"
    "k < length busy_retry_delays \<longrightarrow> \<not> (\<exists>e. fst (?once k) = DatabaseError e \<and> is_sqlite_busy e)"
    unfolding deliver_def by (rule apply_trade_single_try)
  have "k \<le> j" using k(3) dj by (metis not_le_imp_less prod.inject process_outcome.distinct(11))
  obtain out dk where o: "?once k = (out, dk)" by fastforce
  show ?thesis
  proof (cases out)
    case (Ingested ldr' key')
    with apply_once_ingested o acc have "ldr' = ldr" "key' = key" by fastforce+
    with k(2) o Ingested show ?thesis by auto
  next
    case (DatabaseError e)
    have "k < j" using dj o DatabaseError \<open>k \<le> j\<close> by (cases "k = j") auto
    moreover from this j have "is_sqlite_busy e" using faulty_once_busy o DatabaseError by blast
    ultimately show ?thesis using k(4) o DatabaseError j(1) by auto
  qed (use o acc in \<open>auto simp: apply_trade_once_def accepted_as_def event_identity_def Let_def
        split: option.splits if_splits prod.splits sum.splits\<close>)
qed

lemma deliver_all_cons:
  "deliver_all X (l # ls) d = (os, d') \<longleftrightarrow>
     (\<exists>out d1 outs. deliver X l d = (out, d1) \<and> deliver_all X ls d1 = (outs, d') \<and> os = out # outs)"
  by (auto simp: Let_def split: prod.splits)

declare deliver_all.simps(2) [simp del]

text \<open>What a delivery's outcome says about it.\<close>

definition outcome_ok :: "ext \<Rightarrow> db \<Rightarrow> delivery \<times> process_outcome \<Rightarrow> bool" where
  "outcome_ok X d = (\<lambda>(l, out). (\<forall>ldr key. out = Ingested ldr key \<longrightarrow> accepts X l d = Some (ldr, key)) \<and>
     (settled_delivery l \<longrightarrow> (\<forall>ldr key. accepts X l d = Some (ldr, key) \<longrightarrow> out = Ingested ldr key)))"

lemma outcome_ok_cong: "leader_config d' = leader_config d \<Longrightarrow> outcome_ok X d' = outcome_ok X d"
  using accepts_cong [of d' d X] unfolding outcome_ok_def by presburger

lemma deliver_outcome_ok:
  assumes "deliver X l d = (out, d')"
  shows "outcome_ok X d (l, out)"
  unfolding outcome_ok_def case_prod_conv
proof (intro conjI allI impI)
  show "accepts X l d = Some (ldr, key)" if "out = Ingested ldr key" for ldr key
    using assms unfolding that by (rule deliver_ingested)
  show "out = Ingested ldr key" if "settled_delivery l" "accepts X l d = Some (ldr, key)" for ldr key
    using deliver_settled [OF that] assms by auto
qed

lemma deliver_all_book:
  "deliver_all X ls d = (outs, d') \<Longrightarrow>
     length outs = length ls \<and> leader_config d' = leader_config d \<and> book d' = book_run (zip ls outs) (book d) \<and>
     (unique_events d \<longrightarrow> unique_events d') \<and> list_all (outcome_ok X d) (zip ls outs)"
proof (induction ls arbitrary: d outs)
  case Nil
  then show ?case by (simp add: book_run_def)
next
  case (Cons l ls)
  then obtain out d1 os where s: "deliver X l d = (out, d1)" "deliver_all X ls d1 = (os, d')" "outs = out # os"
    by (auto simp: deliver_all_cons)
  note lc = deliver_leaders [OF s(1)]
  from Cons.IH [OF s(2)] lc deliver_book [OF s(1)] deliver_outcome_ok [OF s(1)] show ?case
    by (simp add: s(3) book_run_def outcome_ok_cong [OF lc])
qed

section \<open>Which fills are known and which are executable\<close>

definition executable :: "db \<Rightarrow> string set" where
  "executable d = {key. \<exists>f. book d key = Some (f, True)}"

lemma record_fill_dom: "dom (record_fill key f s b) = insert key (dom b)"
  by (auto simp: record_fill_def)

lemma record_fill_executable:
  "{k. \<exists>g. record_fill key f s b k = Some (g, True)} = {k. \<exists>g. b k = Some (g, True)} \<union> (if s then {key} else {})"
  by (auto simp: record_fill_def split: option.splits if_splits)

text \<open>The keys a delivery's outcome adds, and those it makes executable.\<close>

definition recorded_key :: "delivery \<times> process_outcome \<Rightarrow> string set" where
  "recorded_key lo = (case lo of (l, Ingested ldr key) \<Rightarrow> {key} | _ \<Rightarrow> {})"

definition streamed_key :: "delivery \<times> process_outcome \<Rightarrow> string set" where
  "streamed_key lo = (if dl_source (fst lo) = ''activity_ws'' then recorded_key lo else {})"

lemma book_step_sets:
  "dom (book_step l out b) = dom b \<union> recorded_key (l, out)"
  "{k. \<exists>g. book_step l out b k = Some (g, True)} = {k. \<exists>g. b k = Some (g, True)} \<union> streamed_key (l, out)"
  by (cases out; simp add: book_step_def recorded_key_def streamed_key_def record_fill_dom record_fill_executable)+

lemma book_run_sets:
  "dom (book_run los b) = dom b \<union> \<Union> (recorded_key ` set los)"
  "{k. \<exists>g. book_run los b k = Some (g, True)} = {k. \<exists>g. b k = Some (g, True)} \<union> \<Union> (streamed_key ` set los)"
proof (induction los arbitrary: b)
  case Nil
  case 1
  show ?case by (simp add: book_run_def)
  case 2
  show ?case by (simp add: book_run_def)
next
  case (Cons lo los)
  obtain l out where lo: "lo = (l, out)" by fastforce
  have run: "book_run (lo # los) b = book_run los (book_step l out b)" for b by (simp add: book_run_def lo)
  case 1
  show ?case unfolding run Cons.IH(1) book_step_sets(1) by (auto simp: lo)
  case 2
  show ?case unfolding run Cons.IH(2) book_step_sets(2) by (auto simp: lo)
qed

lemma executable_rows:
  assumes "unique_events d"
  shows "executable d = le_canonical_event_key ` {r \<in> set (leader_events d). le_realtime_observed r}"
proof -
  have k: "distinct (map le_canonical_event_key (leader_events d))" using assms by (simp add: unique_events_def)
  have "\<exists>f. book d (le_canonical_event_key r) = Some (f, True)" if "r \<in> set (leader_events d)" "le_realtime_observed r" for r
    using find_row_unique [OF k that(1) refl] that(2) by (simp add: book_def)
  then show ?thesis by (force simp: executable_def book_def dest: find_row_Some)
qed

section \<open>The identity of a fill\<close>

definition same_fill :: "ext \<Rightarrow> normalized_trade \<Rightarrow> normalized_trade \<Rightarrow> bool" where
  "same_fill X t t' \<longleftrightarrow>
     to_ascii_lowercase (nt_transaction_hash t) = to_ascii_lowercase (nt_transaction_hash t') \<and>
     to_ascii_lowercase (nt_trader_address t) = to_ascii_lowercase (nt_trader_address t') \<and>
     to_ascii_lowercase (nt_condition_id t) = to_ascii_lowercase (nt_condition_id t') \<and>
     canonical_token t = canonical_token t' \<and> nt_outcome_index t = nt_outcome_index t' \<and> nt_side t = nt_side t' \<and>
     map_option (round_dp identity_price_dp) (parse_dec X (nt_price t)) =
       map_option (round_dp identity_price_dp) (parse_dec X (nt_price t')) \<and>
     parse_dec X (nt_size t) = parse_dec X (nt_size t')"

definition no_colon :: "string \<Rightarrow> bool" where
  "no_colon s \<longleftrightarrow> CHR '':'' \<notin> set s"

text \<open>The feed's identifiers and printed decimals do not contain the separator.\<close>

definition plain_ids :: "normalized_trade \<Rightarrow> bool" where
  "plain_ids t \<longleftrightarrow> no_colon (nt_transaction_hash t) \<and> no_colon (nt_trader_address t) \<and> no_colon (nt_condition_id t) \<and>
     no_colon (nt_token_id t)"

definition plain_decimals :: "ext \<Rightarrow> bool" where
  "plain_decimals X \<longleftrightarrow> (\<forall>v. no_colon (show_dec X v))"

lemma no_colon_lower: "no_colon s \<Longrightarrow> no_colon (to_ascii_lowercase s)"
proof -
  have "c = CHR '':''" if "ascii_lower c = CHR '':''" for c
  proof (cases "CHR ''A'' \<le> c \<and> c \<le> CHR ''Z''")
    case True
    then have b: "65 \<le> (of_char c :: nat)" "(of_char c :: nat) \<le> 90" by (simp_all add: less_eq_char_def)
    from that True have "of_char (char_of (of_char c + (32 :: nat)) :: char) = (58 :: nat)" by (simp add: ascii_lower_def)
    with b show ?thesis by (simp add: take_bit_eq_mod)
  qed (use that in \<open>auto simp: ascii_lower_def split: if_splits\<close>)
  then show "no_colon s \<Longrightarrow> no_colon (to_ascii_lowercase s)" by (fastforce simp: no_colon_def to_ascii_lowercase_def)
qed

lemma no_colon_token: "no_colon (nt_token_id t) \<Longrightarrow> no_colon (canonical_token t)"
proof -
  have dw: "no_colon s \<Longrightarrow> no_colon (dropWhile P s)" for P s by (auto simp: no_colon_def dest: set_dropWhileD)
  have "no_colon (rev s) \<longleftrightarrow> no_colon s" for s by (simp add: no_colon_def)
  then have tr: "no_colon s \<Longrightarrow> no_colon (trim s)" for s unfolding trim_def using dw by metis
  have "no_colon ''0''" by (simp add: no_colon_def)
  with dw tr show "no_colon (nt_token_id t) \<Longrightarrow> no_colon (canonical_token t)"
    unfolding canonical_token_def canonical_decimal_token_id_def Let_def by (auto split: option.splits if_splits)
qed

lemma no_colon_i64: "no_colon (show_i64 i)"
  using show_nat_chars [of "CHR '':''"] by (auto simp: no_colon_def show_i64_def less_eq_char_def)

lemma show_i64_inject: "show_i64 i = show_i64 j \<Longrightarrow> i = j"
proof -
  have n: "show_nat a = show_nat b \<Longrightarrow> a = b" for a b using parse_digits_show by (metis option.inject)
  have m: "show_nat a \<noteq> CHR ''-'' # s" for a s using show_nat_Cons [of a] by (auto simp: less_eq_char_def)
  show "show_i64 i = show_i64 j \<Longrightarrow> i = j"
    using n [of "nat (- i)" "nat (- j)"] n [of "nat i" "nat j"] m m [symmetric]
    by (auto simp: show_i64_def split: if_splits)
qed

lemma show_dec_inject: "dec_codec X \<Longrightarrow> show_dec X v = show_dec X w \<longleftrightarrow> v = w"
  by (auto simp: dec_codec_def) (metis option.inject)

lemma key_parts:
  assumes "plain_ids t" "no_colon price" "no_colon sz"
  shows "split_on (CHR '':'') (canonical_event_key t price sz) =
     [''activity'', to_ascii_lowercase (nt_transaction_hash t), to_ascii_lowercase (nt_trader_address t),
      to_ascii_lowercase (nt_condition_id t), canonical_token t, show_i64 (nt_outcome_index t),
      activity_side_text (nt_side t), price, sz]"
proof -
  have "no_colon (activity_side_text sd)" "no_colon ''activity''" for sd
    by (cases sd) (simp_all add: no_colon_def activity_side_text_def)
  with assms no_colon_lower no_colon_token no_colon_i64 show ?thesis
    unfolding canonical_event_key_def by (intro split_join) (auto simp: plain_ids_def no_colon_def)
qed


text \<open>A sample: one fill, spelled by the stream and by the audit source.\<close>

definition ws_trade0 :: normalized_trade where
  "ws_trade0 = \<lparr>nt_trader_address = ''0xa1'', nt_token_id = ''007'', nt_condition_id = ''0xC'', nt_outcome_index = 0,
     nt_side = ActBuy, nt_size = show_dec0 5, nt_price = show_dec0 (3/5), nt_occurred_at_utc = ''2026'',
     nt_transaction_hash = ''0xH''\<rparr>"

definition rest_trade0 :: normalized_trade where
  "rest_trade0 = ws_trade0\<lparr>nt_token_id := ''7'', nt_condition_id := ''0xc'', nt_occurred_at_utc := ''2027'',
     nt_transaction_hash := ''0xh''\<rparr>"

definition key0 :: string where
  "key0 = canonical_event_key rest_trade0 (show_dec0 (3/5)) (show_dec0 5)"

lemma plain_decimals0: "plain_decimals ext0"
  by (auto simp: plain_decimals_def no_colon_def show_dec0_def unary_def split: prod.splits if_splits)

lemma round_price0: "round_dp identity_price_dp (3/5) = 3/5"
  by (simp add: round_dp_def identity_price_dp_def Let_def)

lemma same_key0: "canonical_event_key ws_trade0 p s = canonical_event_key rest_trade0 p s"
proof -
  have "char_of (104 :: nat) = CHR ''h''" "char_of (99 :: nat) = CHR ''c''" by code_simp+
  then show ?thesis
    by (simp add: canonical_event_key_def ws_trade0_def rest_trade0_def to_ascii_lowercase_def ascii_lower_def
      canonical_token_def canonical_decimal_token_id_def trim_def is_space_def all_digits_def Let_def less_eq_char_def)
qed

lemma trade0_fields:
  "nt_price ws_trade0 = show_dec0 (3/5)" "nt_price rest_trade0 = show_dec0 (3/5)"
  "nt_size ws_trade0 = show_dec0 5" "nt_size rest_trade0 = show_dec0 5"
  "nt_trader_address ws_trade0 = ''0xa1''" "nt_trader_address rest_trade0 = ''0xa1''"
  "nt_occurred_at_utc ws_trade0 = ''2026''" "nt_occurred_at_utc rest_trade0 = ''2027''"
  by (simp_all add: ws_trade0_def rest_trade0_def)

lemma identity0: "event_identity ext0 ws_trade0 = Some key0" "event_identity ext0 rest_trade0 = Some key0"
  by (simp_all add: event_identity_def canonical_price_def canonical_size_def same_key0 trade0_fields round_price0 key0_def)


section \<open>Ingestion refines the fill book\<close>

text \<open>
  C7. Ingestion implements the fill book.  Whatever the sources deliver, in whatever order, with whatever database
  faults: every delivery returns an outcome; event ids and canonical keys stay unique; the stored events are, read as
  the book, exactly the book after recording the fills of the deliveries reported as ingested, the first observation
  fixing the entry and later ones at most making it executable; a delivery is reported as ingested only under the
  leader and identity its trade is acceptable for, and it is so reported whenever the trade is acceptable and one of
  the four tries meets no fault after tries that failed as busy; every other outcome writes nothing.
\<close>

theorem ingest_refines_fill_book:
  assumes "unique_events d" "deliver_all X ls d = (outs, d')"
  shows "length outs = length ls \<and> unique_events d' \<and> book d' = book_run (zip ls outs) (book d) \<and>
    list_all (outcome_ok X d) (zip ls outs)"
  using deliver_all_book [OF assms(2)] assms(1) by blast

definition watching_db0 :: db where
  "watching_db0 = db0\<lparr>leader_events := [], leader_config := [\<lparr>lc_id = 1, lc_label = ''alice'', lc_enabled = True,
     lc_activation_at = Some ''2025''\<rparr>]\<rparr>"

definition delivery0 :: "normalized_trade \<Rightarrow> string \<Rightarrow> delivery" where
  "delivery0 t source = \<lparr>dl_trade = t, dl_source = source, dl_identifier = nt_transaction_hash t, dl_payload = ''{}'',
     dl_resolver = reload_from_db watching_db0, dl_faults = (\<lambda>_ _. None), dl_clock = (\<lambda>_. 0)\<rparr>"

lemma settled0: "settled_delivery (delivery0 t source)"
  by (auto simp: settled_delivery_def delivery0_def intro: exI [of _ 0])

lemma unique0: "unique_events watching_db0"
  by (simp add: unique_events_def events.keyed_def watching_db0_def)

lemma outcome_settled:
  "outcome_ok X d (l, out) \<Longrightarrow> settled_delivery l \<Longrightarrow> accepts X l d = Some (ldr, key) \<Longrightarrow> out = Ingested ldr key"
  unfolding outcome_ok_def case_prod_conv by blast

lemma source0: "dl_source (delivery0 t src) = src" "dl_trade (delivery0 t src) = t"
  by (simp_all add: delivery0_def)

lemma resolves0: "reload_from_db watching_db0 ''0xa1'' = Some 1"
  by (simp add: reload_from_db_def resolver_reload_def watched_aliases_def watching_db0_def db0_def to_ascii_lowercase_def
      ascii_lower_def less_eq_char_def)

lemma accepts0:
  "accepts ext0 (delivery0 ws_trade0 src) watching_db0 = Some (1, key0)"
  "accepts ext0 (delivery0 rest_trade0 src) watching_db0 = Some (1, key0)"
proof -
  have "to_ascii_lowercase ''0xa1'' = ''0xa1''" by (simp add: to_ascii_lowercase_def ascii_lower_def less_eq_char_def)
  then show "accepts ext0 (delivery0 ws_trade0 src) watching_db0 = Some (1, key0)"
    "accepts ext0 (delivery0 rest_trade0 src) watching_db0 = Some (1, key0)"
    using identity0 resolves0
    by (simp_all add: accepts_def accepted_as_def delivery0_def resolve_def activation_of_def trade0_fields)
      (simp_all add: watching_db0_def less_char_def trade0_fields)
qed

theorem ingest_refines_fill_book_witness:
  "\<exists>outs d'. deliver_all ext0 [delivery0 rest_trade0 ''activity_backfill'', delivery0 ws_trade0 ''activity_ws''] watching_db0 = (outs, d') \<and>
     outs = [Ingested 1 key0, Ingested 1 key0] \<and> book d' key0 = Some (fill_of_trade 1 rest_trade0, True)"
proof -
  let ?ls = "[delivery0 rest_trade0 ''activity_backfill'', delivery0 ws_trade0 ''activity_ws'']"
  obtain outs d' where r: "deliver_all ext0 ?ls watching_db0 = (outs, d')" by (rule prod.exhaust)
  note t = ingest_refines_fill_book [OF unique0 r]
  then have len: "length outs = length ?ls" and b: "book d' = book_run (zip ?ls outs) (book watching_db0)"
    and ok: "list_all (outcome_ok ext0 watching_db0) (zip ?ls outs)" by blast+
  from len obtain x y where xy: "outs = [x, y]" by (auto simp: length_Suc_conv)
  from ok have ok: "outcome_ok ext0 watching_db0 (delivery0 rest_trade0 ''activity_backfill'', x)"
    "outcome_ok ext0 watching_db0 (delivery0 ws_trade0 ''activity_ws'', y)" unfolding xy by simp_all
  have x: "x = Ingested 1 key0" by (rule outcome_settled [OF ok(1) settled0 accepts0(2)])
  have y: "y = Ingested 1 key0" by (rule outcome_settled [OF ok(2) settled0 accepts0(1)])
  have "book watching_db0 key0 = None" by (simp add: book_def watching_db0_def)
  then have "book d' key0 = Some (fill_of_trade 1 rest_trade0, True)"
    unfolding b xy x y by (simp only: zip_Cons_Cons zip_Nil) (simp add: book_run_def book_step_def record_fill_def source0)
  with r show ?thesis unfolding xy x y by blast
qed

lemma recorded_key_iff: "key \<in> recorded_key (l, out) \<longleftrightarrow> (\<exists>ldr. out = Ingested ldr key)"
  by (cases out) (auto simp: recorded_key_def)

text \<open>
  Order, duplicates and retries do not matter.  When every delivery is settled, the fills known afterwards are those
  known before and those some delivery is acceptable for, and the executable ones are those executable before and
  those some delivery of the realtime stream is acceptable for; in particular the audit source never makes a fill
  executable, and any reordering or repetition of the deliveries ends with the same fills.
\<close>

theorem ingested_fills_exact:
  assumes "deliver_all X ls d = (outs, d')" "list_all settled_delivery ls"
  shows "dom (book d') = dom (book d) \<union> {key. \<exists>l ldr. l \<in> set ls \<and> accepts X l d = Some (ldr, key)} \<and>
    executable d' = executable d \<union>
      {key. \<exists>l ldr. l \<in> set ls \<and> dl_source l = ''activity_ws'' \<and> accepts X l d = Some (ldr, key)}"
proof -
  note r = deliver_all_book [OF assms(1)]
  have rec: "key \<in> recorded_key (l, out) \<longleftrightarrow> (\<exists>ldr. accepts X l d = Some (ldr, key))" if "(l, out) \<in> set (zip ls outs)" for l out key
  proof -
    have "outcome_ok X d (l, out)" using r that unfolding list_all_iff by blast
    moreover have "settled_delivery l" using assms(2) set_zip_leftD [OF that] by (auto simp: list_all_iff)
    ultimately show ?thesis unfolding recorded_key_iff outcome_ok_def by blast
  qed
  have ex: "\<exists>out. (l, out) \<in> set (zip ls outs)" if "l \<in> set ls" for l
    using r that by (metis in_set_impl_in_set_zip1)
  have all: "(\<exists>lo \<in> set (zip ls outs). P (fst lo) \<and> key \<in> recorded_key lo) \<longleftrightarrow>
      (\<exists>l ldr. l \<in> set ls \<and> P l \<and> accepts X l d = Some (ldr, key))" for P key
  proof
    assume "\<exists>lo \<in> set (zip ls outs). P (fst lo) \<and> key \<in> recorded_key lo"
    then obtain l out where lo: "(l, out) \<in> set (zip ls outs)" "P l" "key \<in> recorded_key (l, out)" by auto
    with rec [OF lo(1)] show "\<exists>l ldr. l \<in> set ls \<and> P l \<and> accepts X l d = Some (ldr, key)" using set_zip_leftD [OF lo(1)] by blast
  next
    assume "\<exists>l ldr. l \<in> set ls \<and> P l \<and> accepts X l d = Some (ldr, key)"
    then obtain l where l: "l \<in> set ls" "P l" "\<exists>ldr. accepts X l d = Some (ldr, key)" by blast
    then obtain out where "(l, out) \<in> set (zip ls outs)" using ex by blast
    with rec [OF this] l show "\<exists>lo \<in> set (zip ls outs). P (fst lo) \<and> key \<in> recorded_key lo" by (intro bexI) auto
  qed
  have 1: "\<Union> (recorded_key ` set (zip ls outs)) = {key. \<exists>l ldr. l \<in> set ls \<and> accepts X l d = Some (ldr, key)}"
    unfolding UN_iff [symmetric] using all [of "\<lambda>_. True"] by (intro set_eqI) simp
  have "\<Union> (streamed_key ` set (zip ls outs)) = {key. \<exists>lo \<in> set (zip ls outs). dl_source (fst lo) = ''activity_ws'' \<and> key \<in> recorded_key lo}"
    by (auto simp: streamed_key_def split: if_splits)
  then have 2: "\<Union> (streamed_key ` set (zip ls outs)) =
      {key. \<exists>l ldr. l \<in> set ls \<and> dl_source l = ''activity_ws'' \<and> accepts X l d = Some (ldr, key)}"
    unfolding all [of "\<lambda>l. dl_source l = ''activity_ws''"] .
  have b: "book d' = book_run (zip ls outs) (book d)" using r by blast
  show ?thesis unfolding executable_def b book_run_sets 1 2 by (rule conjI) (rule refl)+
qed

theorem ingested_fills_exact_witness:
  "\<exists>outs d'. deliver_all ext0 [delivery0 rest_trade0 ''activity_backfill'', delivery0 ws_trade0 ''activity_ws''] watching_db0 = (outs, d') \<and>
     dom (book d') = {key0} \<and> executable d' = {key0}"
proof -
  let ?ls = "[delivery0 rest_trade0 ''activity_backfill'', delivery0 ws_trade0 ''activity_ws'']"
  obtain outs d' where r: "deliver_all ext0 ?ls watching_db0 = (outs, d')" by (rule prod.exhaust)
  have "dom (book watching_db0) = {}" "executable watching_db0 = {}"
    by (auto simp: book_def executable_def watching_db0_def)
  moreover have "{key. \<exists>l ldr. l \<in> set ?ls \<and> accepts ext0 l watching_db0 = Some (ldr, key)} = {key0}"
    "{key. \<exists>l ldr. l \<in> set ?ls \<and> dl_source l = ''activity_ws'' \<and> accepts ext0 l watching_db0 = Some (ldr, key)} = {key0}"
    by (auto simp: accepts0 source0)
  moreover have "list_all settled_delivery ?ls" using settled0 by simp
  ultimately have "dom (book d') = {key0} \<and> executable d' = {key0}"
    using ingested_fills_exact [OF r] by (simp only: Un_empty_left simp_thms)
  with r show ?thesis by blast
qed

section \<open>From the stream to the intents\<close>

text \<open>
  Runs of deliveries and planning passes in any order, from a database without events.  The second component is the
  set of fills the realtime stream has delivered.
\<close>

inductive signal_run :: "ext \<Rightarrow> db \<Rightarrow> string set \<Rightarrow> bool" for X where
  fresh: "leader_events d = [] \<Longrightarrow> copy_intents d = [] \<Longrightarrow> signal_run X d {}"
| delivered: "signal_run X d K \<Longrightarrow> deliver X l d = (out, d') \<Longrightarrow> signal_run X d' (K \<union> streamed_key (l, out))"
| planned: "signal_run X d K \<Longrightarrow> plan_next_batch_with_limit X clk acc n d = (r, d') \<Longrightarrow> signal_run X d' K"

definition intents_streamed :: "db \<Rightarrow> bool" where
  "intents_streamed d \<longleftrightarrow> (\<forall>ci \<in> set (copy_intents d). \<exists>ev \<in> set (leader_events d).
     le_id ev = ci_event_id ci \<and> le_realtime_observed ev)"

lemma plan_batch_rows:
  assumes "plan_next_batch_with_limit X clk acc n d = (r, d')"
  obtains new where "plan_frame d d'" "copy_intents d' = copy_intents d @ new"
    "\<And>ci. ci \<in> set new \<Longrightarrow> \<exists>ev \<in> set (events_past_cursor acc n d). le_realtime_observed ev \<and> planned_from acc ev ci"
proof (cases "execution_schedule d")
  case None
  with assms have "d' = d" by (simp add: plan_next_batch_with_limit_def load_execution_schedule_def and_then_def)
  then show thesis using that [of "[]"] by (simp add: plan_frame_def)
next
  case (Some vn)
  let ?s0 = "\<lparr>sm_processed = 0, sm_pending = 0, sm_rejected = 0\<rparr>"
  from Some assms obtain sched where run: "plan_events X clk acc sched (events_past_cursor acc n d) ?s0 d = (r, d')"
    by (cases vn) (auto simp: plan_next_batch_with_limit_def load_execution_schedule_def and_then_def reads_def)
  obtain evs s where evs: "plan_events X clk acc sched evs ?s0 d = (Inr s, d')" "set evs \<subseteq> set (events_past_cursor acc n d)"
  proof (cases r)
    case (Inr s)
    with run that show thesis by blast
  next
    case (Inl e)
    from plan_events_prefix [OF run [unfolded Inl]] obtain ds ev rest s1 where
      "events_past_cursor acc n d = ds @ ev # rest" "plan_events X clk acc sched ds ?s0 d = (Inr s1, d')" by blast
    then show thesis using that [of ds s1] by auto
  qed
  from plan_events_ok [OF evs(1)] obtain new where "plan_frame d d'" "copy_intents d' = copy_intents d @ new"
    "\<forall>ci \<in> set new. \<exists>ev \<in> set evs. le_realtime_observed ev \<and> planned_from acc ev ci"
    by (auto simp: plan_batch_ok_def)
  then show thesis using evs(2) that [of new] by blast
qed

lemma past_cursor_events: "ev \<in> set (events_past_cursor acc n d) \<Longrightarrow> ev \<in> set (leader_events d)"
  by (auto simp: events_past_cursor_def Let_def dest: in_set_takeD split: if_splits)

lemma plan_frame_events: "plan_frame d d' \<Longrightarrow> leader_events d' = leader_events d"
  by (cases d; cases d') (simp add: plan_frame_def)

lemma plan_intents_streamed:
  assumes "plan_next_batch_with_limit X clk acc n d = (r, d')" "intents_streamed d"
  shows "intents_streamed d' \<and> leader_events d' = leader_events d"
proof -
  obtain new where new: "plan_frame d d'" "copy_intents d' = copy_intents d @ new"
    "\<And>ci. ci \<in> set new \<Longrightarrow> \<exists>ev \<in> set (events_past_cursor acc n d). le_realtime_observed ev \<and> planned_from acc ev ci"
    using plan_batch_rows [OF assms(1)] by metis
  have ev: "leader_events d' = leader_events d" by (rule plan_frame_events [OF new(1)])
  have "\<exists>ev \<in> set (leader_events d). le_id ev = ci_event_id ci \<and> le_realtime_observed ev" if "ci \<in> set (copy_intents d')" for ci
  proof (cases "ci \<in> set (copy_intents d)")
    case True
    with assms(2) show ?thesis by (simp add: intents_streamed_def)
  next
    case False
    with that new(2) have "ci \<in> set new" by auto
    from new(3) [OF this] obtain ev where "ev \<in> set (events_past_cursor acc n d)" "le_realtime_observed ev" "planned_from acc ev ci"
      by blast
    then show ?thesis using past_cursor_events by (auto simp: planned_from_def)
  qed
  with ev show ?thesis by (simp add: intents_streamed_def)
qed

lemma deliver_frame: "deliver X l d = (out, d') \<Longrightarrow> event_tables_only d d'"
  using apply_trade_frame unfolding deliver_def by (metis snd_conv)

text \<open>A delivery keeps the id, the key and the executability of the recorded events.\<close>

lemma recorded_events_keep:
  assumes "r \<in> set evs"
  shows "\<exists>r' \<in> set (recorded_events X now key ldr t streamed evs). le_id r' = le_id r \<and>
    le_canonical_event_key r' = le_canonical_event_key r \<and> (le_realtime_observed r \<longrightarrow> le_realtime_observed r')"
proof -
  let ?P = "\<lambda>r. le_canonical_event_key r = key" and ?f = "\<lambda>r. r\<lparr>le_realtime_observed := True\<rparr>"
  let ?evs = "if find_row ?P evs \<noteq> None then evs else evs @ [event_row_of X now key ldr t streamed (next_id le_id evs)]"
  have r: "r \<in> set ?evs" using assms by simp
  then have "(if ?P r then ?f r else r) \<in> set (update_rows ?P ?f ?evs)" by (simp only: update_rows_def set_map) (rule imageI)
  with r have "(if streamed \<and> ?P r then ?f r else r) \<in> set (recorded_events X now key ldr t streamed evs)"
    unfolding recorded_events_def Let_def by (cases streamed) simp_all
  then show ?thesis by (rule bexI [rotated]) auto
qed

lemma deliver_keeps_events:
  assumes "deliver X l d = (out, d')" "r \<in> set (leader_events d)"
  shows "\<exists>r' \<in> set (leader_events d'). le_id r' = le_id r \<and>
    le_canonical_event_key r' = le_canonical_event_key r \<and> (le_realtime_observed r \<longrightarrow> le_realtime_observed r')"
proof (cases "\<exists>ldr key. out = Ingested ldr key")
  case True
  then obtain ldr key where "deliver X l d = (Ingested ldr key, d')" using assms(1) by blast
  then obtain k where "apply_trade_once X (dl_faults l k) (dl_clock l k) (dl_resolver l) (dl_trade l) (dl_source l)
      (dl_identifier l) (dl_payload l) d = (Ingested ldr key, d')"
    using apply_trade_single_try unfolding deliver_def by metis
  from record_trade_events [OF conjunct2 [OF apply_once_ingested [OF this]]] recorded_events_keep [OF assms(2)]
  show ?thesis by metis
next
  case False
  with assms apply_trade_other have "d' = d" unfolding deliver_def by blast
  with assms(2) show ?thesis by blast
qed

lemma signal_run_inv:
  "signal_run X d K \<Longrightarrow> unique_events d \<and> unique_intents d \<and> executable d = K \<and> intents_streamed d"
proof (induction rule: signal_run.induct)
  case (fresh d)
  then show ?case
    by (simp add: unique_events_def events.keyed_def unique_intents_def executable_def book_def intents_streamed_def)
next
  case (delivered d K l out d')
  have u: "unique_events d'" and b: "book d' = book_step l out (book d)"
    using deliver_book [OF delivered.hyps(2)] delivered.IH by blast+
  have ci: "copy_intents d' = copy_intents d"
    using deliver_frame [OF delivered.hyps(2)] by (cases d; cases d') (simp add: event_tables_only_def)
  have "executable d' = K \<union> streamed_key (l, out)"
    using delivered.IH unfolding executable_def b book_step_sets by simp
  moreover have "intents_streamed d'"
    using delivered.IH deliver_keeps_events [OF delivered.hyps(2)] unfolding intents_streamed_def ci by metis
  ultimately show ?case using u delivered.IH ci by (simp add: unique_intents_def)
next
  case (planned d K clk acc n r d')
  with plan_intents_streamed [OF planned.hyps(2)] plan_batch_unique [OF planned.hyps(2)]
  show ?case by (simp add: unique_events_def events.keyed_def executable_def book_def)
qed

text \<open>
  C9. One order signal per streamed fill, and none for anything else.  Over every interleaving of deliveries, by
  either source and with any database faults, and planning passes for any accounts: an intent exists only for
  a recorded fill that the realtime stream delivered, and an account has at most one intent for one fill, however
  often, by whichever source and in whichever spelling the fill was observed.
\<close>

theorem streamed_fill_copied_once:
  assumes "signal_run X d K"
  shows "(\<forall>ci \<in> set (copy_intents d). \<exists>ev \<in> set (leader_events d). le_id ev = ci_event_id ci \<and> le_canonical_event_key ev \<in> K) \<and>
    (\<forall>ci \<in> set (copy_intents d). \<forall>ci' \<in> set (copy_intents d). \<forall>ev \<in> set (leader_events d). \<forall>ev' \<in> set (leader_events d).
       le_id ev = ci_event_id ci \<and> le_id ev' = ci_event_id ci' \<and>
       le_canonical_event_key ev = le_canonical_event_key ev' \<and> ci_account_id ci = ci_account_id ci' \<longrightarrow> ci = ci')"
proof (intro conjI ballI impI)
  note inv = signal_run_inv [OF assms]
  fix ci assume ci: "ci \<in> set (copy_intents d)"
  then obtain ev where ev: "ev \<in> set (leader_events d)" "le_id ev = ci_event_id ci" "le_realtime_observed ev"
    using inv by (auto simp: intents_streamed_def)
  with executable_rows [of d] inv show "\<exists>ev \<in> set (leader_events d). le_id ev = ci_event_id ci \<and> le_canonical_event_key ev \<in> K"
    by blast
  fix ci' ev ev' assume a: "ci' \<in> set (copy_intents d)" "ev \<in> set (leader_events d)" "ev' \<in> set (leader_events d)"
    "le_id ev = ci_event_id ci \<and> le_id ev' = ci_event_id ci' \<and>
       le_canonical_event_key ev = le_canonical_event_key ev' \<and> ci_account_id ci = ci_account_id ci'"
  have "ev = ev'" using inv a(2,3,4) by (auto simp: unique_events_def distinct_map inj_on_def)
  with a inv ci show "ci = ci'" by (auto simp: unique_intents_def distinct_map inj_on_def)
qed

theorem streamed_fill_copied_once_witness:
  "\<exists>d. signal_run ext0 d {key0} \<and> (\<exists>ev. ev \<in> set (leader_events d) \<and> le_canonical_event_key ev = key0) \<and>
     ci_event_id ` set (copy_intents d) \<subseteq> le_id ` {ev. ev \<in> set (leader_events d) \<and> le_canonical_event_key ev = key0}"
proof -
  have start: "signal_run ext0 watching_db0 {}" by (rule signal_run.fresh) (simp_all add: watching_db0_def db0_def)
  obtain d1 where d1: "deliver ext0 (delivery0 ws_trade0 ''activity_ws'') watching_db0 = (Ingested 1 key0, d1)"
    using deliver_settled [OF settled0 accepts0(1)] by blast
  have run1: "signal_run ext0 d1 {key0}"
    using signal_run.delivered [OF start d1] by (simp add: streamed_key_def recorded_key_def source0)
  obtain r d2 where "plan_next_batch_with_limit ext0 (\<lambda>_. 0) 1 10 d1 = (r, d2)" by (rule prod.exhaust)
  note run2 = signal_run.planned [OF run1 this]
  have "key0 \<in> executable d2" using signal_run_inv [OF run2] by blast
  then have "\<exists>ev \<in> set (leader_events d2). le_canonical_event_key ev = key0"
    by (auto simp: executable_def book_def dest: find_row_Some)
  moreover have "ci_event_id ` set (copy_intents d2) \<subseteq> le_id ` {ev. ev \<in> set (leader_events d2) \<and> le_canonical_event_key ev = key0}"
  proof (rule image_subsetI)
    fix ci assume "ci \<in> set (copy_intents d2)"
    with conjunct1 [OF streamed_fill_copied_once [OF run2]] obtain ev where
      "ev \<in> set (leader_events d2)" "le_id ev = ci_event_id ci" "le_canonical_event_key ev = key0" by blast
    then show "ci_event_id ci \<in> le_id ` {ev. ev \<in> set (leader_events d2) \<and> le_canonical_event_key ev = key0}"
      by (intro image_eqI [of _ _ ev]) simp_all
  qed
  ultimately show ?thesis using run2 by blast
qed

text \<open>
  The planner moves its cursor over an event the stream has not shown yet, so a later promotion of that event comes
  too late: no planning pass adds an intent for an event at or behind the cursor.
\<close>

theorem passed_event_never_planned:
  assumes "plan_next_batch_with_limit X clk acc n d = (r, d')" "planner_cursor d acc = Some c" "le_id ev \<le> c"
  shows "filter (\<lambda>ci. ci_event_id ci = le_id ev) (copy_intents d') = filter (\<lambda>ci. ci_event_id ci = le_id ev) (copy_intents d)"
proof -
  obtain new where new: "copy_intents d' = copy_intents d @ new"
    "\<And>ci. ci \<in> set new \<Longrightarrow> \<exists>ev \<in> set (events_past_cursor acc n d). le_realtime_observed ev \<and> planned_from acc ev ci"
    using plan_batch_rows [OF assms(1)] by metis
  have "c < le_id e" if "e \<in> set (events_past_cursor acc n d)" for e
    using that assms(2) by (auto simp: events_past_cursor_def Let_def dest: in_set_takeD split: if_splits)
  with new(2) have "ci_event_id ci \<noteq> le_id ev" if "ci \<in> set new" for ci
    using that assms(3) by (force simp: planned_from_def)
  then show ?thesis by (simp add: new(1) filter_empty_conv)
qed

text \<open>The second fill of a transaction gets no observation row of its own when the first one has been observed.\<close>

lemma shared_identifier_not_observed:
  assumes "find_row (\<lambda>r. ob_source r = source \<and> ob_source_identifier r = Some i) (observations d) \<noteq> None"
  shows "insert_or_ignore_observation source i payload key d = (Inr (), d)"
  using assms by (auto simp: insert_or_ignore_observation_def split: option.splits)

end
