(* ===== verification/Feeds.thy ===== *)
theory Feeds
  imports Ingest
begin

text \<open>
  The two feeds of the ingestion: the realtime stream (\<open>activity_ws.rs\<close>) with its heartbeat, watchdog, execution gate and
  reconnect backoff, the audit backfill over the REST interface (\<open>backfill.rs\<close>), and the supervisor that runs both
  (\<open>runtime.rs\<close>).

  The loop of a connection selects between the ping timer and the next frame; a connection is the list of what it
  selected, each entry with the instants the code reads and the answers of the socket.  An unfinished list is a
  connection that is still open.  Instants and durations are milliseconds.
\<close>

section \<open>activity\_ws.rs: liveness of a connection\<close>

definition ping_interval :: int where "ping_interval = 5000"
definition heartbeat_timeout :: int where "heartbeat_timeout = 15000"
definition stream_silence_timeout :: int where "stream_silence_timeout = 60000"
definition initial_reconnect_delay :: int where "initial_reconnect_delay = 3000"
definition max_reconnect_delay :: int where "max_reconnect_delay = 60000"

text \<open>\<open>Instant::duration_since\<close> is zero when the other instant is later.\<close>

definition duration_since :: "int \<Rightarrow> int \<Rightarrow> int" where
  "duration_since now earlier = max 0 (now - earlier)"

datatype heartbeat_tick = SendPing | AwaitingPong | TimedOut

definition heartbeat_step :: "int \<Rightarrow> int option \<Rightarrow> heartbeat_tick \<times> int option" where
  "heartbeat_step now awaiting_pong_since = (case awaiting_pong_since of
       Some sent_at \<Rightarrow>
         if duration_since now sent_at \<ge> heartbeat_timeout then (TimedOut, Some sent_at) else (AwaitingPong, Some sent_at)
     | None \<Rightarrow> (SendPing, Some now))"

definition is_silent :: "int \<Rightarrow> int \<Rightarrow> bool" where
  "is_silent now last_message_at \<longleftrightarrow> duration_since now last_message_at \<ge> stream_silence_timeout"

definition is_application_pong :: "string \<Rightarrow> bool" where
  "is_application_pong text \<longleftrightarrow> eq_ignore_ascii_case (trim text) ''pong''"

definition reset_backoff :: "int \<Rightarrow> int" where
  "reset_backoff delay = initial_reconnect_delay"

datatype activity_ws_error =
  WsConnect string | WsSend string | WsStream string | ConnectionClosed | HeartbeatTimedOut | StreamSilent

definition activity_ws_error_text :: "activity_ws_error \<Rightarrow> string" where
  "activity_ws_error_text e = (case e of
       WsConnect source \<Rightarrow> ''unable to connect: '' @ source
     | WsSend source \<Rightarrow> ''unable to send: '' @ source
     | WsStream source \<Rightarrow> ''stream error: '' @ source
     | ConnectionClosed \<Rightarrow> ''connection closed''
     | HeartbeatTimedOut \<Rightarrow> ''no application PONG received within 15s''
     | StreamSilent \<Rightarrow> ''subscription delivered no activity message within 60s while the transport stayed alive'')"

section \<open>activity\_ws.rs: one connection\<close>

text \<open>
  What the loop may select.  A tick carries the two instants it reads and the errors, if any, of the two sends; a text
  frame the instant, the resolver published at that moment, and what the database does to the tries.
\<close>

datatype ws_input =
  Tick int int "string option" "string option"
| TextFrame int string address_resolver "nat \<Rightarrow> faults" "nat \<Rightarrow> timestamp"
| PongFrame
| PingFrame "string option"
| CloseFrame
| OtherFrame
| FrameError string

datatype ws_frame = SentPing | SentControlPing | SentControlPong

record ws_session =
  ss_awaiting_pong_since :: "int option"
  ss_last_message_at :: int
  ss_sent :: "ws_frame list"
  ss_db :: db

definition ws_send :: "string option \<Rightarrow> ws_frame \<Rightarrow> ws_session \<Rightarrow> activity_ws_error + ws_session" where
  "ws_send failure frame s = (case failure of
       Some e \<Rightarrow> Inl (WsSend e)
     | None \<Rightarrow> Inr (s\<lparr>ss_sent := ss_sent s @ [frame]\<rparr>))"

definition ws_step ::
  "ext \<Rightarrow> (string \<Rightarrow> raw_activity_message option) \<Rightarrow> ws_input \<Rightarrow> ws_session \<Rightarrow> activity_ws_error + ws_session" where
  "ws_step X decode inp s = (case inp of
       Tick now1 now2 fail1 fail2 \<Rightarrow>
         if is_silent now1 (ss_last_message_at s) then Inl StreamSilent else
         (case heartbeat_step now2 (ss_awaiting_pong_since s) of
            (SendPing, hb) \<Rightarrow>
              (case ws_send fail1 SentPing (s\<lparr>ss_awaiting_pong_since := hb\<rparr>) of
                 Inl e \<Rightarrow> Inl e
               | Inr s' \<Rightarrow> ws_send fail2 SentControlPing s')
          | (AwaitingPong, hb) \<Rightarrow> Inr (s\<lparr>ss_awaiting_pong_since := hb\<rparr>)
          | (TimedOut, hb) \<Rightarrow> Inl HeartbeatTimedOut)
     | TextFrame now text resolver faults clk \<Rightarrow>
         if is_application_pong text then Inr (s\<lparr>ss_awaiting_pong_since := None\<rparr>)
         else Inr (s\<lparr>ss_last_message_at := now, ss_db := snd (process_message X decode faults clk resolver text (ss_db s))\<rparr>)
     | PongFrame \<Rightarrow> Inr (s\<lparr>ss_awaiting_pong_since := None\<rparr>)
     | PingFrame failure \<Rightarrow> ws_send failure SentControlPong s
     | CloseFrame \<Rightarrow> Inl ConnectionClosed
     | OtherFrame \<Rightarrow> Inr s
     | FrameError e \<Rightarrow> Inl (WsStream e))"

text \<open>The result is the error that ended the connection, with the database it leaves, or the open connection.\<close>

fun ws_loop ::
  "ext \<Rightarrow> (string \<Rightarrow> raw_activity_message option) \<Rightarrow> ws_input list \<Rightarrow> ws_session \<Rightarrow> (activity_ws_error \<times> db) + ws_session" where
  "ws_loop X decode [] s = Inr s"
| "ws_loop X decode (inp # inps) s = (case ws_step X decode inp s of
       Inl e \<Rightarrow> Inl (e, ss_db s)
     | Inr s' \<Rightarrow> ws_loop X decode inps s')"

text \<open>One attempt to connect: the connect and the subscribe call, and what the loop selected.\<close>

record ws_attempt =
  at_connect :: "string option"
  at_subscribe :: "string option"
  at_connected_text :: string \<comment> \<open>\<open>now_utc\<close> when it connects\<close>
  at_started :: int
  at_inputs :: "ws_input list"
  at_failed_text :: string \<comment> \<open>\<open>now_utc\<close> when it has failed\<close>

datatype ws_event_kind = WsConnected | WsDisconnected

record ws_connection_event =
  we_at_utc :: string
  we_kind :: ws_event_kind
  we_detail :: string
  we_next_reconnect_delay_ms :: "int option"

record ws_manager =
  wm_reconnect_delay :: int
  wm_connected :: bool
  wm_db :: db
  wm_events :: "ws_connection_event list"

definition run_once ::
  "ext \<Rightarrow> (string \<Rightarrow> raw_activity_message option) \<Rightarrow> ws_attempt \<Rightarrow> ws_manager \<Rightarrow> activity_ws_error option \<times> ws_manager" where
  "run_once X decode att m =
     (case at_connect att of
        Some e \<Rightarrow> (Some (WsConnect e), m)
      | None \<Rightarrow>
     (case at_subscribe att of
        Some e \<Rightarrow> (Some (WsSend e), m)
      | None \<Rightarrow>
     let m1 = m\<lparr>wm_events := wm_events m @ [\<lparr>we_at_utc = at_connected_text att, we_kind = WsConnected, we_detail = [],
                 we_next_reconnect_delay_ms = None\<rparr>],
               wm_connected := True, wm_reconnect_delay := initial_reconnect_delay\<rparr>
     in (case ws_loop X decode (at_inputs att)
                 \<lparr>ss_awaiting_pong_since = None, ss_last_message_at = at_started att, ss_sent = [], ss_db = wm_db m1\<rparr> of
           Inl (e, d) \<Rightarrow> (Some e, m1\<lparr>wm_db := d\<rparr>)
         | Inr s \<Rightarrow> (None, m1\<lparr>wm_db := ss_db s\<rparr>))))"

text \<open>
  The reconnect loop over the attempts made so far; it goes on to the next attempt only after the previous one has
  failed.
\<close>

definition note_failure :: "ws_attempt \<Rightarrow> activity_ws_error \<Rightarrow> ws_manager \<Rightarrow> ws_manager" where
  "note_failure att e m = m\<lparr>wm_connected := False,
     wm_events := wm_events m @ [\<lparr>we_at_utc = at_failed_text att, we_kind = WsDisconnected,
       we_detail = activity_ws_error_text e, we_next_reconnect_delay_ms = Some (wm_reconnect_delay m)\<rparr>],
     wm_reconnect_delay := min (wm_reconnect_delay m * 2) max_reconnect_delay\<rparr>"

fun reconnect_loop ::
  "ext \<Rightarrow> (string \<Rightarrow> raw_activity_message option) \<Rightarrow> ws_attempt list \<Rightarrow> ws_manager \<Rightarrow> ws_manager" where
  "reconnect_loop X decode [] m = m"
| "reconnect_loop X decode (att # atts) m = (case run_once X decode att m of
       (None, m1) \<Rightarrow> m1
     | (Some e, m1) \<Rightarrow> reconnect_loop X decode atts (note_failure att e m1))"

definition run_with_execution_gate ::
  "ext \<Rightarrow> (string \<Rightarrow> raw_activity_message option) \<Rightarrow> ws_attempt list \<Rightarrow> db \<Rightarrow> ws_manager" where
  "run_with_execution_gate X decode atts d = reconnect_loop X decode atts
     \<lparr>wm_reconnect_delay = initial_reconnect_delay, wm_connected = False, wm_db = d, wm_events = []\<rparr>"

section \<open>backfill.rs\<close>

definition page_limit :: int where "page_limit = 500"
definition max_page_offset :: int where "max_page_offset = 10000"
definition overlap_seconds :: int where "overlap_seconds = 30"

record backfill_summary =
  bs_fetched :: nat
  bs_ingested :: nat
  bs_skipped_not_watched :: nat
  bs_skipped_before_activation :: nat
  bs_rejected :: nat

datatype backfill_error =
  BfDatabase string
| InvalidWatermark string
| InvalidActivationTimestamp string
| BfLeaderNotActivated int
| BfInvalidAddress string
| InvalidLimit
| InvalidOffset
| PaginationLimit int int
| Fetch string

definition backfill_error_text :: "backfill_error \<Rightarrow> string" where
  "backfill_error_text e = (case e of
       BfDatabase error \<Rightarrow> ''database error: '' @ error
     | InvalidWatermark value \<Rightarrow> ''stored high-water mark is not valid RFC 3339: '' @ value
     | InvalidActivationTimestamp value \<Rightarrow> ''leader activation timestamp is not valid RFC 3339: '' @ value
     | BfLeaderNotActivated leader_id \<Rightarrow> ''leader '' @ show_i64 leader_id @ '' has no activation timestamp''
     | BfInvalidAddress value \<Rightarrow> ''invalid leader address: '' @ value
     | InvalidLimit \<Rightarrow> ''invalid page limit''
     | InvalidOffset \<Rightarrow> ''invalid activity pagination offset''
     | PaginationLimit start_unix end_unix \<Rightarrow>
         ''activity pagination exceeded the safe limit for '' @ show_i64 start_unix @ ''..'' @ show_i64 end_unix
     | Fetch error \<Rightarrow> ''unable to fetch activity: '' @ error)"

text \<open>
  A row of the Data API, by what the code reads of it: the texts are those its values print as, \<open>ra_debug\<close> is the debug
  rendering of the whole row.
\<close>

datatype rest_side = RestBuy | RestSell | RestUnknown

record rest_activity =
  ra_condition_id :: "string option"
  ra_asset :: "string option"
  ra_side :: "rest_side option"
  ra_outcome_index :: "int option"
  ra_price :: "string option"
  ra_size :: string
  ra_timestamp :: int
  ra_proxy_wallet :: string
  ra_transaction_hash :: string
  ra_debug :: string

text \<open>Multiplication of \<open>i64\<close> wraps around in a release build.\<close>

definition wrapping_mul_i64 :: "int \<Rightarrow> int \<Rightarrow> int" where
  "wrapping_mul_i64 a b = (a * b + 2 ^ 63) mod 2 ^ 64 - 2 ^ 63"

definition normalize_rest_activity :: "ext \<Rightarrow> rest_activity \<Rightarrow> normalized_trade option" where
  "normalize_rest_activity X a =
     (case ra_condition_id a of None \<Rightarrow> None | Some condition_id \<Rightarrow>
     (case ra_asset a of None \<Rightarrow> None | Some asset \<Rightarrow>
     (case (case ra_side a of Some RestBuy \<Rightarrow> Some ActBuy | Some RestSell \<Rightarrow> Some ActSell | _ \<Rightarrow> None) of
        None \<Rightarrow> None | Some sd \<Rightarrow>
     (case ra_outcome_index a of None \<Rightarrow> None | Some outcome_index \<Rightarrow>
     (case ra_price a of None \<Rightarrow> None | Some price \<Rightarrow>
     (case rfc3339_millis X (wrapping_mul_i64 (ra_timestamp a) 1000) of None \<Rightarrow> None | Some occurred_at \<Rightarrow>
     Some \<lparr>nt_trader_address = to_ascii_lowercase (ra_proxy_wallet a), nt_token_id = asset, nt_condition_id = condition_id,
       nt_outcome_index = outcome_index, nt_side = sd, nt_size = ra_size a, nt_price = price,
       nt_occurred_at_utc = occurred_at, nt_transaction_hash = ra_transaction_hash a\<rparr>))))))"

definition parse_cursor :: "ext \<Rightarrow> string \<Rightarrow> (string \<Rightarrow> backfill_error) \<Rightarrow> backfill_error + timestamp" where
  "parse_cursor X raw error = (case parse_time X raw of None \<Rightarrow> Inl (error raw) | Some t \<Rightarrow> Inr t)"

definition backfill_start_unix :: "ext \<Rightarrow> timestamp \<Rightarrow> string option \<Rightarrow> backfill_error + int" where
  "backfill_start_unix X activation_at high_water_mark =
     (case (case high_water_mark of Some w \<Rightarrow> parse_cursor X w InvalidWatermark | None \<Rightarrow> Inr activation_at) of
        Inl e \<Rightarrow> Inl e
      | Inr cursor \<Rightarrow> Inr (max (max (cursor - 1000 * overlap_seconds) activation_at div 1000) 0))"

text \<open>\<open>SELECT MAX(occurred_at)\<close> compares texts.\<close>

definition high_water_mark :: "int \<Rightarrow> db \<Rightarrow> string option" where
  "high_water_mark leader_id d =
     (case map le_occurred_at (filter (\<lambda>r. le_leader_id r = leader_id) (leader_events d)) of
        [] \<Rightarrow> None | t # ts \<Rightarrow> Some (fold max ts t))"

text \<open>The client of the Data API and the address parser it uses.  Its builder bounds limit and offset.\<close>

record activity_request =
  aq_user :: string
  aq_start :: int
  aq_end :: int
  aq_limit :: int
  aq_offset :: int

type_synonym data_client = "activity_request \<Rightarrow> string + rest_activity list"

definition validate_bound :: "int \<Rightarrow> int \<Rightarrow> int \<Rightarrow> bool" where
  "validate_bound v lo hi \<longleftrightarrow> lo \<le> v \<and> v \<le> hi"

function fetch_pages ::
  "data_client \<Rightarrow> string \<Rightarrow> int \<Rightarrow> int \<Rightarrow> int \<Rightarrow> rest_activity list \<Rightarrow> backfill_error + rest_activity list" where
  "fetch_pages client user start_unix end_unix offset activities =
     (if \<not> validate_bound page_limit 0 500 then Inl InvalidLimit else
      if \<not> validate_bound offset 0 10000 then Inl InvalidOffset else
      (case client \<lparr>aq_user = user, aq_start = start_unix, aq_end = end_unix, aq_limit = page_limit, aq_offset = offset\<rparr> of
         Inl e \<Rightarrow> Inl (Fetch e)
       | Inr page \<Rightarrow>
          if int (length page) < page_limit then Inr (activities @ page) else
          if offset \<ge> max_page_offset then Inl (PaginationLimit start_unix end_unix) else
          fetch_pages client user start_unix end_unix (offset + page_limit) (activities @ page)))"
  by pat_completeness auto
termination
  by (relation "measure (\<lambda>(_, _, _, _, offset, _). nat (max_page_offset + 1 - offset))")
    (auto simp: max_page_offset_def page_limit_def)

declare fetch_pages.simps [simp del]

definition count_outcome :: "process_outcome \<Rightarrow> backfill_summary \<Rightarrow> string + backfill_summary" where
  "count_outcome out summary = (case out of
       Ingested _ _ \<Rightarrow> Inr (summary\<lparr>bs_ingested := bs_ingested summary + 1\<rparr>)
     | NotWatched \<Rightarrow> Inr (summary\<lparr>bs_skipped_not_watched := bs_skipped_not_watched summary + 1\<rparr>)
     | LeaderNotActivated \<Rightarrow> Inr (summary\<lparr>bs_skipped_before_activation := bs_skipped_before_activation summary + 1\<rparr>)
     | BeforeActivation \<Rightarrow> Inr (summary\<lparr>bs_skipped_before_activation := bs_skipped_before_activation summary + 1\<rparr>)
     | TradeRejected _ \<Rightarrow> Inr (summary\<lparr>bs_rejected := bs_rejected summary + 1\<rparr>)
     | Skip \<Rightarrow> Inr (summary\<lparr>bs_rejected := bs_rejected summary + 1\<rparr>)
     | DatabaseError e \<Rightarrow> Inl e)"

fun apply_activities ::
  "ext \<Rightarrow> (nat \<Rightarrow> nat \<Rightarrow> faults) \<Rightarrow> (nat \<Rightarrow> nat \<Rightarrow> timestamp) \<Rightarrow> address_resolver \<Rightarrow> rest_activity list \<Rightarrow> nat \<Rightarrow> backfill_summary
     \<Rightarrow> db \<Rightarrow> (backfill_error + backfill_summary) \<times> db" where
  "apply_activities X faults clk resolver [] i summary d = (Inr summary, d)"
| "apply_activities X faults clk resolver (activity # activities) i summary d =
     (case normalize_rest_activity X activity of
        None \<Rightarrow> apply_activities X faults clk resolver activities (i + 1) (summary\<lparr>bs_rejected := bs_rejected summary + 1\<rparr>) d
      | Some t \<Rightarrow>
         (case apply_trade X (faults i) (clk i) resolver t ''activity_backfill'' (nt_transaction_hash t) (ra_debug activity) d of
            (out, d') \<Rightarrow> (case count_outcome out summary of
                Inl e \<Rightarrow> (Inl (BfDatabase e), d')
              | Inr summary' \<Rightarrow> apply_activities X faults clk resolver activities (i + 1) summary' d')))"

text \<open>\<open>query_faults\<close> are the errors of the two queries that precede the fetch.\<close>

definition backfill_leader ::
  "ext \<Rightarrow> (nat \<Rightarrow> string option) \<Rightarrow> (string \<Rightarrow> bool) \<Rightarrow> data_client \<Rightarrow> timestamp \<Rightarrow> (nat \<Rightarrow> nat \<Rightarrow> faults) \<Rightarrow> (nat \<Rightarrow> nat \<Rightarrow> timestamp) \<Rightarrow> address_resolver
     \<Rightarrow> int \<Rightarrow> string \<Rightarrow> db \<Rightarrow> (backfill_error + backfill_summary) \<times> db" where
  "backfill_leader X query_faults address_ok client now faults clk resolver leader_id leader_address d =
     (case query_faults 0 of
        Some e \<Rightarrow> (Inl (BfDatabase e), d)
      | None \<Rightarrow>
     (case activation_of leader_id d of
        None \<Rightarrow> (Inl (BfLeaderNotActivated leader_id), d)
      | Some activation_text \<Rightarrow>
     (case parse_cursor X activation_text InvalidActivationTimestamp of
        Inl e \<Rightarrow> (Inl e, d)
      | Inr activation_at \<Rightarrow>
     (case query_faults 1 of
        Some e \<Rightarrow> (Inl (BfDatabase e), d)
      | None \<Rightarrow>
     (case backfill_start_unix X activation_at (high_water_mark leader_id d) of
        Inl e \<Rightarrow> (Inl e, d)
      | Inr start_unix \<Rightarrow>
     let end_unix = max (now div 1000) 0 in
     if \<not> address_ok leader_address then (Inl (BfInvalidAddress leader_address), d) else
     (case fetch_pages client leader_address start_unix end_unix 0 [] of
        Inl e \<Rightarrow> (Inl e, d)
      | Inr activities \<Rightarrow>
         apply_activities X faults clk resolver activities 0
           \<lparr>bs_fetched = length activities, bs_ingested = 0, bs_skipped_not_watched = 0,
            bs_skipped_before_activation = 0, bs_rejected = 0\<rparr> d))))))"

section \<open>runtime.rs\<close>

definition initial_audit_retry_delay :: int where "initial_audit_retry_delay = 60000"
definition max_audit_retry_delay :: int where "max_audit_retry_delay = 900000"

definition realtime_connected :: "bool \<Rightarrow> bool \<Rightarrow> bool" where
  "realtime_connected realtime_finished gate_connected \<longleftrightarrow> \<not> realtime_finished \<and> gate_connected"

text \<open>
  One pass over the watched aliases; a failing leader is counted and does not stop the others.  \<open>one\<close> is the backfill
  of the alias with the given index.
\<close>

fun backfill_aliases ::
  "(nat \<Rightarrow> int \<Rightarrow> string \<Rightarrow> db \<Rightarrow> (backfill_error + backfill_summary) \<times> db) \<Rightarrow> (string \<times> int) list \<Rightarrow> nat \<Rightarrow> nat \<Rightarrow> db \<Rightarrow> nat \<times> db" where
  "backfill_aliases one [] index failures d = (failures, d)"
| "backfill_aliases one ((address, leader_id) # aliases) index failures d =
     (case one index leader_id address d of
        (Inr _, d') \<Rightarrow> backfill_aliases one aliases (index + 1) failures d'
      | (Inl _, d') \<Rightarrow> backfill_aliases one aliases (index + 1) (failures + 1) d')"

definition backfill_enabled_leaders ::
  "string option \<Rightarrow> (nat \<Rightarrow> int \<Rightarrow> string \<Rightarrow> db \<Rightarrow> (backfill_error + backfill_summary) \<times> db) \<Rightarrow> db \<Rightarrow> (string + nat) \<times> db" where
  "backfill_enabled_leaders query_fault one d = (case query_fault of
       Some e \<Rightarrow> (Inl e, d)
     | None \<Rightarrow> (case backfill_aliases one (watched_aliases d) 0 0 d of (failures, d') \<Rightarrow> (Inr failures, d')))"

text \<open>A pass of \<open>run_audit_backfill\<close> first publishes a fresh resolver.\<close>

definition audit_pass ::
  "string option \<Rightarrow> string option \<Rightarrow> (address_resolver \<Rightarrow> nat \<Rightarrow> int \<Rightarrow> string \<Rightarrow> db \<Rightarrow> (backfill_error + backfill_summary) \<times> db)
     \<Rightarrow> address_resolver \<Rightarrow> db \<Rightarrow> (string + nat) \<times> address_resolver \<times> db" where
  "audit_pass reload_fault query_fault one resolver d = (case reload_fault of
       Some e \<Rightarrow> (Inl e, resolver, d)
     | None \<Rightarrow> (let resolver' = reload_from_db d
               in case backfill_enabled_leaders query_fault (one resolver') d of (r, d') \<Rightarrow> (r, resolver', d')))"

text \<open>The loop body of \<open>run_audit_backfill\<close>: how long it sleeps after a pass, and the next retry delay.\<close>

definition audit_delay :: "int \<Rightarrow> string + nat \<Rightarrow> int \<Rightarrow> int \<times> int" where
  "audit_delay backfill_every result retry_delay = (case result of
       Inr failures \<Rightarrow> if failures = 0 then (backfill_every, initial_audit_retry_delay)
         else (retry_delay, min (retry_delay * 2) max_audit_retry_delay)
     | Inl _ \<Rightarrow> (retry_delay, min (retry_delay * 2) max_audit_retry_delay))"

fun audit_sleeps :: "int \<Rightarrow> (string + nat) list \<Rightarrow> int \<Rightarrow> int list" where
  "audit_sleeps backfill_every [] retry_delay = []"
| "audit_sleeps backfill_every (result # results) retry_delay =
     (let (sleep, next) = audit_delay backfill_every result retry_delay in sleep # audit_sleeps backfill_every results next)"

section \<open>A connection that stays open is alive\<close>

definition activity_time :: "ws_input \<Rightarrow> int set" where
  "activity_time inp = (case inp of TextFrame t text _ _ _ \<Rightarrow> if is_application_pong text then {} else {t} | _ \<Rightarrow> {})"

definition ping_time :: "ws_input \<Rightarrow> int set" where
  "ping_time inp = (case inp of Tick _ t _ _ \<Rightarrow> {t} | _ \<Rightarrow> {})"

definition activity_times :: "ws_input list \<Rightarrow> int set" where
  "activity_times inps = (\<Union>inp \<in> set inps. activity_time inp)"

definition ping_times :: "ws_input list \<Rightarrow> int set" where
  "ping_times inps = (\<Union>inp \<in> set inps. ping_time inp)"

lemma ws_loop_append:
  "ws_loop X decode (xs @ ys) s = (case ws_loop X decode xs s of Inl e \<Rightarrow> Inl e | Inr s' \<Rightarrow> ws_loop X decode ys s')"
  by (induction xs arbitrary: s) (auto split: sum.splits)

lemma ws_send_fields:
  "ws_send f fr s = Inr s' \<Longrightarrow> ss_awaiting_pong_since s' = ss_awaiting_pong_since s \<and>
     ss_last_message_at s' = ss_last_message_at s \<and> ss_db s' = ss_db s"
  by (auto simp: ws_send_def split: option.splits)

text \<open>One step: where the watchdog's and the heartbeat's instants come from.\<close>

lemma ws_step_clocks:
  assumes "ws_step X decode inp s = Inr s'"
  shows "ss_last_message_at s' \<in> insert (ss_last_message_at s) (activity_times [inp])"
    and "ss_awaiting_pong_since s' \<noteq> None \<Longrightarrow>
      the (ss_awaiting_pong_since s') \<in> set_option (ss_awaiting_pong_since s) \<union> ping_times [inp]"
proof -
  have step: "ss_last_message_at s' \<in> insert (ss_last_message_at s) (activity_time inp) \<and>
    (ss_awaiting_pong_since s' \<noteq> None \<longrightarrow> the (ss_awaiting_pong_since s') \<in> set_option (ss_awaiting_pong_since s) \<union> ping_time inp)"
  proof (cases inp)
    case (Tick t1 t2 f1 f2)
    show ?thesis
    proof (cases "ss_awaiting_pong_since s")
      case None
      then obtain s1 where "ws_send f1 SentPing (s\<lparr>ss_awaiting_pong_since := Some t2\<rparr>) = Inr s1" "ws_send f2 SentControlPing s1 = Inr s'"
        using assms by (auto simp: ws_step_def Tick heartbeat_step_def split: if_splits sum.splits)
      then show ?thesis by (auto dest!: ws_send_fields simp: Tick ping_time_def)
    next
      case (Some t)
      then show ?thesis using assms by (auto simp: ws_step_def Tick heartbeat_step_def split: if_splits)
    qed
  qed (use assms in \<open>auto simp: ws_step_def activity_time_def ping_time_def dest!: ws_send_fields split: if_splits\<close>)
  then show "ss_last_message_at s' \<in> insert (ss_last_message_at s) (activity_times [inp])"
    "ss_awaiting_pong_since s' \<noteq> None \<Longrightarrow>
      the (ss_awaiting_pong_since s') \<in> set_option (ss_awaiting_pong_since s) \<union> ping_times [inp]"
    by (simp_all add: activity_times_def ping_times_def)
qed

lemma ws_loop_clocks:
  assumes "ws_loop X decode inps s = Inr s'"
  shows "ss_last_message_at s' \<in> insert (ss_last_message_at s) (activity_times inps) \<and>
    (ss_awaiting_pong_since s' \<noteq> None \<longrightarrow>
      the (ss_awaiting_pong_since s') \<in> set_option (ss_awaiting_pong_since s) \<union> ping_times inps)"
  using assms
proof (induction inps arbitrary: s)
  case (Cons inp inps)
  then obtain s1 where s1: "ws_step X decode inp s = Inr s1" "ws_loop X decode inps s1 = Inr s'"
    by (auto split: sum.splits)
  have a: "activity_times (inp # inps) = activity_times [inp] \<union> activity_times inps" by (auto simp: activity_times_def)
  have p: "ping_times (inp # inps) = ping_times [inp] \<union> ping_times inps" by (auto simp: ping_times_def)
  show ?case
  proof (cases "ss_awaiting_pong_since s1")
    case None
    then show ?thesis using Cons.IH [OF s1(2)] ws_step_clocks(1) [OF s1(1)] unfolding a p by auto
  next
    case (Some t)
    then show ?thesis using Cons.IH [OF s1(2)] ws_step_clocks [OF s1(1)] unfolding a p by auto
  qed
qed simp

definition session0 :: "int \<Rightarrow> db \<Rightarrow> ws_session" where
  "session0 started d = \<lparr>ss_awaiting_pong_since = None, ss_last_message_at = started, ss_sent = [], ss_db = d\<rparr>"



section \<open>Reconnecting\<close>

definition delay_in_range :: "ws_connection_event \<Rightarrow> bool" where
  "delay_in_range e \<longleftrightarrow> (case we_next_reconnect_delay_ms e of None \<Rightarrow> True | Some t \<Rightarrow> 3000 \<le> t \<and> t \<le> 60000)"

lemma delay_in_range_mk:
  "delay_in_range \<lparr>we_at_utc = a, we_kind = k, we_detail = t, we_next_reconnect_delay_ms = None\<rparr>"
  "delay_in_range \<lparr>we_at_utc = a, we_kind = k, we_detail = t, we_next_reconnect_delay_ms = Some w\<rparr> \<longleftrightarrow> 3000 \<le> w \<and> w \<le> 60000"
  by (simp_all add: delay_in_range_def)

lemma reconnect_delay_range:
  assumes "3000 \<le> wm_reconnect_delay m" "wm_reconnect_delay m \<le> 60000"
    and "\<And>e. e \<in> set (wm_events m) \<Longrightarrow> delay_in_range e"
  shows "e \<in> set (wm_events (reconnect_loop X decode atts m)) \<Longrightarrow>
    delay_in_range e"
  using assms
proof (induction atts arbitrary: m)
  case Nil
  then show ?case by simp
next
  case (Cons att atts)
  obtain r m1 where r: "run_once X decode att m = (r, m1)" by (rule prod.exhaust)
  have m1: "3000 \<le> wm_reconnect_delay m1" "wm_reconnect_delay m1 \<le> 60000"
    "\<And>e. e \<in> set (wm_events m1) \<Longrightarrow> delay_in_range e"
    using r Cons.prems(2-4) by (auto simp: run_once_def Let_def initial_reconnect_delay_def delay_in_range_mk split: option.splits sum.splits prod.splits)
  show ?case
  proof (cases r)
    case None
    with r Cons.prems(1) m1(3) show ?thesis by simp
  next
    case (Some err)
    let ?m = "note_failure att err m1"
    have e: "e \<in> set (wm_events (reconnect_loop X decode atts ?m))" using Cons.prems(1) r Some by simp
    show ?thesis by (rule Cons.IH [OF e]) (use m1 in \<open>auto simp: note_failure_def max_reconnect_delay_def delay_in_range_mk\<close>)
  qed
qed

text \<open>After \<open>n\<close> failures to connect in a row the delay has doubled \<open>n\<close> times, up to the cap.\<close>

definition cannot_connect :: "ws_attempt \<Rightarrow> bool" where
  "cannot_connect att \<longleftrightarrow> at_connect att \<noteq> None \<or> at_subscribe att \<noteq> None"

lemma failing_attempts:
  "list_all cannot_connect atts \<Longrightarrow> 0 \<le> wm_reconnect_delay m \<Longrightarrow> wm_reconnect_delay m \<le> 60000 \<Longrightarrow>
     (let m' = reconnect_loop X decode atts m in
        wm_reconnect_delay m' = min (wm_reconnect_delay m * 2 ^ length atts) 60000 \<and> wm_db m' = wm_db m \<and>
        (atts \<noteq> [] \<longrightarrow> \<not> wm_connected m'))"
proof (induction atts arbitrary: m)
  case (Cons att atts)
  have r: "\<exists>e. run_once X decode att m = (Some e, m)"
    using Cons.prems(1) by (auto simp: run_once_def cannot_connect_def split: option.splits)
  then obtain e where e: "run_once X decode att m = (Some e, m)" by blast
  let ?m = "note_failure att e m"
  have IH: "(let m' = reconnect_loop X decode atts ?m in
        wm_reconnect_delay m' = min (wm_reconnect_delay ?m * 2 ^ length atts) 60000 \<and> wm_db m' = wm_db ?m \<and>
        (atts \<noteq> [] \<longrightarrow> \<not> wm_connected m'))"
    by (rule Cons.IH) (use Cons.prems in \<open>auto simp: note_failure_def max_reconnect_delay_def\<close>)
  have pow: "(1::int) \<le> 2 ^ length atts" by simp
  have "min (min (w * 2) 60000 * 2 ^ length atts) 60000 = min (w * 2 * 2 ^ length atts) 60000" for w :: int
  proof (cases "w * 2 \<le> 60000")
    case False
    then have "60000 \<le> w * 2 * 2 ^ length atts" using pow mult_mono [of 60000 "w * 2" 1 "2 ^ length atts"] by simp
    moreover have "60000 \<le> 60000 * (2::int) ^ length atts" using pow by simp
    moreover have "min (w * 2) 60000 = 60000" using False by simp
    ultimately show ?thesis by (simp add: min_absorb2)
  qed simp
  with IH e show ?case
    by (cases "atts = []") (auto simp: Let_def note_failure_def max_reconnect_delay_def mult.assoc)
qed simp

lemma gate_open_only_connected:
  "wm_connected (reconnect_loop X decode atts m) \<Longrightarrow> \<not> wm_connected m \<Longrightarrow>
     \<exists>pre att rest m1. atts = pre @ att # rest \<and> \<not> cannot_connect att \<and>
       (\<exists>s. ws_loop X decode (at_inputs att) (session0 (at_started att) m1) = Inr s \<and> wm_db (reconnect_loop X decode atts m) = ss_db s) \<and>
       wm_reconnect_delay (reconnect_loop X decode atts m) = 3000"
proof (induction atts arbitrary: m)
  case (Cons att atts)
  obtain r m1 where r: "run_once X decode att m = (r, m1)" by (rule prod.exhaust)
  show ?case
  proof (cases r)
    case None
    with r have c: "at_connect att = None" "at_subscribe att = None"
      "\<exists>s. ws_loop X decode (at_inputs att) (session0 (at_started att) (wm_db m)) = Inr s \<and> wm_db m1 = ss_db s" "wm_reconnect_delay m1 = 3000"
      by (auto simp: run_once_def Let_def session0_def initial_reconnect_delay_def split: option.splits sum.splits prod.splits)
    have "reconnect_loop X decode (att # atts) m = m1" using r None by simp
    with c show ?thesis
      by (intro exI [of _ "[]"] exI [of _ att] exI [of _ atts] exI [of _ "wm_db m"]) (simp add: cannot_connect_def)
  next
    case (Some e)
    let ?m = "note_failure att e m1"
    have eq: "reconnect_loop X decode (att # atts) m = reconnect_loop X decode atts ?m" using r Some by simp
    have "wm_connected (reconnect_loop X decode atts ?m)" "\<not> wm_connected ?m"
      using Cons.prems(1) unfolding eq by (simp_all add: note_failure_def)
    from Cons.IH [OF this] obtain pre a rest d1 where "atts = pre @ a # rest" "\<not> cannot_connect a"
      "\<exists>s. ws_loop X decode (at_inputs a) (session0 (at_started a) d1) = Inr s \<and> wm_db (reconnect_loop X decode atts ?m) = ss_db s"
      "wm_reconnect_delay (reconnect_loop X decode atts ?m) = 3000" by blast
    then show ?thesis unfolding eq
      by (intro exI [of _ "att # pre"] exI [of _ a] exI [of _ rest] exI [of _ d1]) simp
  qed
qed simp

text \<open>
  The execution gate and the backoff.  Over any sequence of connection attempts: the gate is open only while some
  attempt has connected, subscribed and not failed since; every announced reconnect delay lies between three and sixty
  seconds; and a sequence of \<open>n\<close> attempts that all fail to connect leaves the gate closed, the database untouched
  and the next delay at three seconds doubled \<open>n\<close> times, at most sixty.
\<close>

theorem reconnect_gate_and_backoff:
  "(wm_connected (run_with_execution_gate X decode atts d) \<longrightarrow>
      (\<exists>pre att rest d1 s. atts = pre @ att # rest \<and> \<not> cannot_connect att \<and>
         ws_loop X decode (at_inputs att) (session0 (at_started att) d1) = Inr s)) \<and>
   list_all delay_in_range (wm_events (run_with_execution_gate X decode atts d)) \<and>
   (list_all cannot_connect atts \<longrightarrow>
      wm_reconnect_delay (run_with_execution_gate X decode atts d) = min (3000 * 2 ^ length atts) 60000 \<and>
      wm_db (run_with_execution_gate X decode atts d) = d \<and> \<not> wm_connected (run_with_execution_gate X decode atts d))"
proof -
  let ?m = "\<lparr>wm_reconnect_delay = initial_reconnect_delay, wm_connected = False, wm_db = d, wm_events = []\<rparr>"
  have gate: "wm_connected (reconnect_loop X decode atts ?m) \<longrightarrow> (\<exists>pre att rest d1 s. atts = pre @ att # rest \<and> \<not> cannot_connect att \<and>
      ws_loop X decode (at_inputs att) (session0 (at_started att) d1) = Inr s)"
  proof
    assume "wm_connected (reconnect_loop X decode atts ?m)"
    moreover have "\<not> wm_connected ?m" by simp
    ultimately obtain pre att rest d1 s where "atts = pre @ att # rest" "\<not> cannot_connect att"
        "ws_loop X decode (at_inputs att) (session0 (at_started att) d1) = Inr s"
      by (rule gate_open_only_connected [THEN exE]) (elim exE conjE, blast)
    then show "\<exists>pre att rest d1 s. atts = pre @ att # rest \<and> \<not> cannot_connect att \<and>
        ws_loop X decode (at_inputs att) (session0 (at_started att) d1) = Inr s" by (intro exI conjI)
  qed
  have range: "list_all delay_in_range (wm_events (reconnect_loop X decode atts ?m))"
    unfolding list_all_iff
  proof
    fix e assume e: "e \<in> set (wm_events (reconnect_loop X decode atts ?m))"
    show "delay_in_range e" by (rule reconnect_delay_range [OF _ _ _ e]) (simp_all add: initial_reconnect_delay_def)
  qed
  have failing: "list_all cannot_connect atts \<longrightarrow> wm_reconnect_delay (reconnect_loop X decode atts ?m) = min (3000 * 2 ^ length atts) 60000 \<and>
      wm_db (reconnect_loop X decode atts ?m) = d \<and> \<not> wm_connected (reconnect_loop X decode atts ?m)"
  proof
    assume "list_all cannot_connect atts"
    from failing_attempts [OF this, of ?m X decode]
    show "wm_reconnect_delay (reconnect_loop X decode atts ?m) = min (3000 * 2 ^ length atts) 60000 \<and>
      wm_db (reconnect_loop X decode atts ?m) = d \<and> \<not> wm_connected (reconnect_loop X decode atts ?m)"
      by (cases "atts = []") (simp_all add: Let_def initial_reconnect_delay_def)
  qed
  show ?thesis unfolding run_with_execution_gate_def by (intro conjI gate range failing)
qed

theorem reconnect_gate_and_backoff_witness:
  "wm_reconnect_delay (run_with_execution_gate ext0 (\<lambda>_. None)
      [\<lparr>at_connect = Some ''refused'', at_subscribe = None, at_connected_text = [], at_started = 0, at_inputs = [], at_failed_text = []\<rparr>,
       \<lparr>at_connect = Some ''refused'', at_subscribe = None, at_connected_text = [], at_started = 0, at_inputs = [], at_failed_text = []\<rparr>] db0) = 12000"
  using reconnect_gate_and_backoff [of ext0 "\<lambda>_. None"
      "[\<lparr>at_connect = Some ''refused'', at_subscribe = None, at_connected_text = [], at_started = 0, at_inputs = [], at_failed_text = []\<rparr>,
       \<lparr>at_connect = Some ''refused'', at_subscribe = None, at_connected_text = [], at_started = 0, at_inputs = [], at_failed_text = []\<rparr>]" db0]
  by (simp add: cannot_connect_def)

section \<open>The audit backfill\<close>

definition request_of :: "string \<Rightarrow> int \<Rightarrow> int \<Rightarrow> int \<Rightarrow> activity_request" where
  "request_of user start_unix end_unix offset =
     \<lparr>aq_user = user, aq_start = start_unix, aq_end = end_unix, aq_limit = page_limit, aq_offset = offset\<rparr>"

text \<open>The documented paging of the Data API over a frozen range.\<close>

definition pages_of :: "data_client \<Rightarrow> string \<Rightarrow> int \<Rightarrow> int \<Rightarrow> rest_activity list \<Rightarrow> bool" where
  "pages_of client user start_unix end_unix rows \<longleftrightarrow>
     (\<forall>offset \<ge> 0. client (request_of user start_unix end_unix offset) = Inr (take 500 (drop (nat offset) rows)))"

lemma fetch_pages_from:
  assumes "pages_of client user s e rows" "k \<le> 20"
  shows "fetch_pages client user s e (500 * int k) (take (500 * k) rows) =
     (if length rows < 10500 then Inr rows else Inl (PaginationLimit s e)) \<or> length rows < 500 * k"
  using assms(2)
proof (induction "20 - k" arbitrary: k rule: less_induct)
  case less
  have page: "client (request_of user s e (500 * int k)) = Inr (take 500 (drop (500 * k) rows))"
    using assms(1) by (simp add: pages_of_def nat_mult_distrib)
  have join: "take (500 * k) rows @ take 500 (drop (500 * k) rows) = take (500 * (k + 1)) rows"
    by (simp add: take_add [symmetric] algebra_simps)
  have off: "validate_bound (500 * int k) 0 10000" "validate_bound page_limit 0 500"
    using less.prems by (simp_all add: validate_bound_def page_limit_def)
  note unfold = fetch_pages.simps [of client user s e "500 * int k" "take (500 * k) rows"] page [unfolded request_of_def]
  show ?case
  proof (cases "length rows < 500 * k")
    case False
    show ?thesis
    proof (cases "length rows < 500 * (k + 1)")
      case True
      then have "length rows - 500 * k < 500" using False by simp
      then have "fetch_pages client user s e (500 * int k) (take (500 * k) rows) = Inr (take (500 * (k + 1)) rows)"
        unfolding unfold(1) unfold(2) using off join by (simp add: page_limit_def)
      moreover have "length rows < 10500" using True less.prems by simp
      ultimately show ?thesis using True by simp
    next
      case full: False
      then have len: "length (take 500 (drop (500 * k) rows)) = 500" by simp
      show ?thesis
      proof (cases "k = 20")
        case True
        then have "fetch_pages client user s e (500 * int k) (take (500 * k) rows) = Inl (PaginationLimit s e)"
          unfolding unfold(1) unfold(2) using off len by (simp add: page_limit_def max_page_offset_def)
        moreover have "10500 \<le> length rows" using full True by simp
        ultimately show ?thesis by simp
      next
        case False
        then have k: "k < 20" using less.prems by simp
        then have "fetch_pages client user s e (500 * int k) (take (500 * k) rows) =
            fetch_pages client user s e (500 * int (k + 1)) (take (500 * (k + 1)) rows)"
          unfolding unfold(1) unfold(2) using off len join by (simp add: page_limit_def max_page_offset_def algebra_simps)
        with less.hyps [of "k + 1"] k full show ?thesis by simp
      qed
    qed
  qed simp
qed

lemma fetch_pages_exact:
  "pages_of client user s e rows \<Longrightarrow>
     fetch_pages client user s e 0 [] = (if length rows < 10500 then Inr rows else Inl (PaginationLimit s e))"
  using fetch_pages_from [of client user s e rows 0] by simp

text \<open>Every row is counted under one heading.\<close>

definition counted :: "backfill_summary \<Rightarrow> nat" where
  "counted s = bs_ingested s + bs_skipped_not_watched s + bs_skipped_before_activation s + bs_rejected s"

lemma count_outcome_ok:
  "count_outcome out s = Inr s' \<Longrightarrow> counted s' = counted s + 1 \<and> bs_fetched s' = bs_fetched s"
  by (cases out) (auto simp: count_outcome_def counted_def)

lemma apply_activities_counts:
  "apply_activities X faults clk resolver acts i s d = (Inr s', d') \<Longrightarrow>
     counted s' = counted s + length acts \<and> bs_fetched s' = bs_fetched s"
proof (induction acts arbitrary: i s d)
  case (Cons a acts)
  show ?case
  proof (cases "normalize_rest_activity X a")
    case None
    with Cons show ?thesis by (fastforce simp: counted_def)
  next
    case (Some t)
    with Cons.prems obtain out d1 s1 where "count_outcome out s = Inr s1"
      "apply_activities X faults clk resolver acts (i + 1) s1 d1 = (Inr s', d')"
      by (auto split: prod.splits sum.splits)
    with Cons.IH count_outcome_ok show ?thesis by fastforce
  qed
qed simp

text \<open>The database after the rows, as deliveries of the audit source.\<close>

fun rest_deliveries :: "ext \<Rightarrow> (nat \<Rightarrow> nat \<Rightarrow> faults) \<Rightarrow> (nat \<Rightarrow> nat \<Rightarrow> timestamp) \<Rightarrow> address_resolver \<Rightarrow> rest_activity list \<Rightarrow> nat \<Rightarrow> delivery list" where
  "rest_deliveries X faults clk resolver [] i = []"
| "rest_deliveries X faults clk resolver (a # acts) i =
     (case normalize_rest_activity X a of
        None \<Rightarrow> rest_deliveries X faults clk resolver acts (i + 1)
      | Some t \<Rightarrow> \<lparr>dl_trade = t, dl_source = ''activity_backfill'', dl_identifier = nt_transaction_hash t, dl_payload = ra_debug a,
          dl_resolver = resolver, dl_faults = faults i, dl_clock = clk i\<rparr> # rest_deliveries X faults clk resolver acts (i + 1))"

lemma rest_source: "l \<in> set (rest_deliveries X faults clk resolver acts i) \<Longrightarrow> dl_source l = ''activity_backfill''"
  by (induction acts arbitrary: i) (auto split: option.splits)

lemma apply_activities_deliveries:
  "apply_activities X faults clk resolver acts i s d = (Inr s', d') \<Longrightarrow>
     d' = snd (deliver_all X (rest_deliveries X faults clk resolver acts i) d)"
proof (induction acts arbitrary: i s d)
  case (Cons a acts)
  show ?case
  proof (cases "normalize_rest_activity X a")
    case None
    with Cons show ?thesis by simp
  next
    case (Some t)
    let ?l = "\<lparr>dl_trade = t, dl_source = ''activity_backfill'', dl_identifier = nt_transaction_hash t, dl_payload = ra_debug a,
          dl_resolver = resolver, dl_faults = faults i, dl_clock = clk i\<rparr>"
    obtain out d1 where del: "deliver X ?l d = (out, d1)" by (rule prod.exhaust)
    with Some Cons.prems obtain s1 where "apply_activities X faults clk resolver acts (i + 1) s1 d1 = (Inr s', d')"
      by (auto simp: deliver_def split: prod.splits sum.splits)
    from Cons.IH [OF this] del Some show ?thesis
      by (simp add: deliver_all.simps(2) Let_def split: prod.splits)
  qed
qed simp

lemma deliver_all_signal_run:
  "signal_run X d K \<Longrightarrow> list_all (\<lambda>l. dl_source l \<noteq> ''activity_ws'') ls \<Longrightarrow> signal_run X (snd (deliver_all X ls d)) K"
proof (induction ls arbitrary: d)
  case (Cons l ls)
  obtain out d1 where del: "deliver X l d = (out, d1)" by (rule prod.exhaust)
  from signal_run.delivered [OF Cons.prems(1) del] Cons.prems(2) have "signal_run X d1 K" by (simp add: streamed_key_def)
  moreover have "snd (deliver_all X (l # ls) d) = snd (deliver_all X ls d1)"
    using del by (simp add: deliver_all.simps(2) Let_def split: prod.splits)
  ultimately show ?case using Cons by simp
qed simp

text \<open>A pass that stops at a database error has delivered a part of the rows.\<close>

lemma apply_activities_signal_run:
  "signal_run X d K \<Longrightarrow> apply_activities X faults clk resolver acts i s d = (r, d') \<Longrightarrow> signal_run X d' K"
proof (induction acts arbitrary: i s d)
  case (Cons a acts)
  show ?case
  proof (cases "normalize_rest_activity X a")
    case None
    with Cons show ?thesis by fastforce
  next
    case (Some t)
    let ?l = "\<lparr>dl_trade = t, dl_source = ''activity_backfill'', dl_identifier = nt_transaction_hash t, dl_payload = ra_debug a,
          dl_resolver = resolver, dl_faults = faults i, dl_clock = clk i\<rparr>"
    obtain out d1 where del: "deliver X ?l d = (out, d1)" by (rule prod.exhaust)
    have run: "signal_run X d1 K" using signal_run.delivered [OF Cons.prems(1) del] by (simp add: streamed_key_def)
    from del Some Cons.prems(2) have "d' = d1 \<or> (\<exists>s1. apply_activities X faults clk resolver acts (i + 1) s1 d1 = (r, d'))"
      by (auto simp: deliver_def split: prod.splits sum.splits)
    with run Cons.IH show ?thesis by blast
  qed
qed simp

lemma apply_trade_no_fault:
  assumes "\<And>n. faults n = (\<lambda>_. None)"
  shows "fst (apply_trade X faults clk resolver t source ident payload d) \<noteq> DatabaseError e"
proof -
  obtain k where "apply_trade X faults clk resolver t source ident payload d =
      apply_trade_once X (faults k) (clk k) resolver t source ident payload d"
    by (rule apply_trade_single_try)
  moreover have "fst (apply_trade_once X (\<lambda>_. None) now resolver t source ident payload d) \<noteq> DatabaseError e" for now
  proof (cases "accepted_as X resolver t d")
    case None
    then show ?thesis
      by (auto simp: apply_trade_once_def accepted_as_def event_identity_def Let_def split: option.splits if_splits)
  next
    case (Some p)
    with apply_once_faultless show ?thesis by (metis fst_conv old.prod.exhaust process_outcome.distinct(11))
  qed
  ultimately show ?thesis using assms by simp
qed

lemma apply_activities_no_fault:
  assumes "\<And>i n. faults i n = (\<lambda>_. None)"
  shows "\<exists>s' d'. apply_activities X faults clk resolver acts i s d = (Inr s', d')"
proof (induction acts arbitrary: i s d)
  case (Cons a acts)
  show ?case
  proof (cases "normalize_rest_activity X a")
    case None
    with Cons show ?thesis by simp
  next
    case (Some t)
    obtain out d1 where o: "apply_trade X (faults i) (clk i) resolver t ''activity_backfill'' (nt_transaction_hash t) (ra_debug a) d = (out, d1)"
      by (rule prod.exhaust)
    have "out \<noteq> DatabaseError e" for e
      using apply_trade_no_fault [of "faults i", OF assms] o by (metis fst_conv)
    then obtain s1 where "count_outcome out s = Inr s1" by (cases out) (auto simp: count_outcome_def)
    with Some o Cons show ?thesis by simp
  qed
qed simp


definition rest_row0 :: rest_activity where
  "rest_row0 = \<lparr>ra_condition_id = None, ra_asset = None, ra_side = None, ra_outcome_index = None, ra_price = None, ra_size = [],
     ra_timestamp = 0, ra_proxy_wallet = [], ra_transaction_hash = [], ra_debug = []\<rparr>"


section \<open>The feeds as runs of deliveries\<close>

lemma backfill_signal_run:
  assumes "signal_run X d K" "backfill_leader X qf ok client now faults clk resolver ldr addr d = (r, d')"
  shows "signal_run X d' K"
proof -
  have "d' = d \<or> (\<exists>acts s. apply_activities X faults clk resolver acts 0 s d = (r, d'))"
    using assms(2) by (auto simp: backfill_leader_def Let_def split: option.splits sum.splits if_splits)
  with assms(1) apply_activities_signal_run show ?thesis by blast
qed

lemma aliases_signal_run:
  assumes "\<And>i ldr addr d r d'. signal_run X d K \<Longrightarrow> one i ldr addr d = (r, d') \<Longrightarrow> signal_run X d' K"
  shows "signal_run X d K \<Longrightarrow> backfill_aliases one as i n d = (m, d') \<Longrightarrow> signal_run X d' K"
proof (induction as arbitrary: i n d)
  case (Cons a as)
  obtain addr ldr where a: "a = (addr, ldr)" by fastforce
  obtain r d1 where o: "one i ldr addr d = (r, d1)" by (rule prod.exhaust)
  have "signal_run X d1 K" by (rule assms [OF Cons.prems(1) o])
  with Cons.IH Cons.prems(2) o show ?case by (cases r) (auto simp: a)
qed simp

text \<open>The audit writes events and observations only.\<close>

lemma apply_activities_frame: "event_tables_only d (snd (apply_activities X faults clk resolver acts i s d))"
proof (induction acts arbitrary: i s d)
  case (Cons a acts)
  show ?case
  proof (cases "normalize_rest_activity X a")
    case None
    with Cons show ?thesis by simp
  next
    case (Some t)
    obtain out d1 where o: "apply_trade X (faults i) (clk i) resolver t ''activity_backfill'' (nt_transaction_hash t) (ra_debug a) d = (out, d1)"
      by (rule prod.exhaust)
    then have "event_tables_only d d1" using apply_trade_frame by (metis snd_conv)
    with Some o Cons show ?thesis by (auto intro: event_tables.R_trans split: sum.splits)
  qed
qed (simp add: event_tables.R_refl)

lemma backfill_frame:
  "event_tables_only d (snd (backfill_leader X qf ok client now faults clk resolver ldr addr d))"
  by (auto simp: backfill_leader_def Let_def event_tables.R_refl apply_activities_frame split: option.splits sum.splits)

lemma aliases_frame:
  assumes "\<And>i ldr addr d. event_tables_only d (snd (one i ldr addr d))"
  shows "event_tables_only d (snd (backfill_aliases one as i n d))"
proof (induction as arbitrary: i n d)
  case (Cons a as)
  obtain addr ldr where a: "a = (addr, ldr)" by fastforce
  obtain r d1 where o: "one i ldr addr d = (r, d1)" by (rule prod.exhaust)
  have "event_tables_only d d1" using assms [of d i ldr addr] o by simp
  with Cons.IH o show ?case by (cases r) (auto simp: a intro: event_tables.R_trans)
qed (simp add: event_tables.R_refl)

lemma audit_pass_frame:
  assumes "\<And>resolver i ldr addr d. event_tables_only d (snd (one resolver i ldr addr d))"
  shows "event_tables_only d (snd (snd (audit_pass reload_fault query_fault one resolver d)))"
proof -
  have "event_tables_only d (snd (backfill_aliases (one rs) (watched_aliases d) 0 0 d))" for rs
    by (rule aliases_frame) (rule assms)
  then show ?thesis
    by (auto simp: audit_pass_def backfill_enabled_leaders_def Let_def event_tables.R_refl split: option.splits prod.splits) (metis snd_conv)
qed

text \<open>
  C29. The audit never triggers an order.  A pass of the audit worker, whatever the interface returns and whichever of
  its database calls fail, makes no fill executable and plans nothing: the state it leaves is one of a run in which the
  realtime stream has delivered the same fills as before, so by the planner no intent can arise from what it wrote.
\<close>

theorem audit_pass_not_executable:
  assumes "signal_run X d K"
    and "audit_pass reload_fault query_fault
      (\<lambda>resolver i. backfill_leader X (qf i) address_ok client (now i) (faults i) (clk i) resolver) resolver d = (r, resolver', d')"
  shows "signal_run X d' K \<and> executable d' = executable d \<and> copy_intents d' = copy_intents d"
proof -
  let ?one = "\<lambda>resolver i. backfill_leader X (qf i) address_ok client (now i) (faults i) (clk i) resolver"
  have run: "signal_run X e' K" if "signal_run X e K" "backfill_aliases (?one res) as i n e = (m, e')" for e e' res as i n m
    by (rule aliases_signal_run [OF backfill_signal_run that]) assumption+
  have d': "d' = d \<or> (\<exists>res m. backfill_aliases (?one res) (watched_aliases d) 0 0 d = (m, d'))"
    using assms(2) by (auto simp: audit_pass_def backfill_enabled_leaders_def Let_def split: option.splits prod.splits)
  then have "signal_run X d' K" using assms(1) run by blast
  moreover have "copy_intents d' = copy_intents d"
  proof -
    have "event_tables_only d d'" using audit_pass_frame [of ?one d reload_fault query_fault resolver, OF backfill_frame] assms(2) by simp
    then show ?thesis by (cases d; cases d') (simp add: event_tables_only_def)
  qed
  ultimately show ?thesis using signal_run_inv assms(1) by metis
qed

theorem audit_pass_not_executable_witness:
  "\<exists>r resolver' d'. audit_pass None None
      (\<lambda>resolver i. backfill_leader ext0 (\<lambda>_. None) (\<lambda>_. True) (\<lambda>q. Inr []) 0 (\<lambda>_ _ _. None) (\<lambda>_ _. 0) resolver) Map.empty watching_db0 =
      (r, resolver', d') \<and> signal_run ext0 d' {} \<and> executable d' = {} \<and> resolver' ''0xa1'' = Some 1"
proof -
  let ?p = "audit_pass None None
      (\<lambda>resolver i. backfill_leader ext0 (\<lambda>_. None) (\<lambda>_. True) (\<lambda>q. Inr []) 0 (\<lambda>_ _ _. None) (\<lambda>_ _. 0) resolver) Map.empty watching_db0"
  have start: "signal_run ext0 watching_db0 {}" by (rule signal_run.fresh) (simp_all add: watching_db0_def db0_def)
  obtain r resolver' d' where p: "?p = (r, resolver', d')" by (metis prod.exhaust)
  have "resolver' = reload_from_db watching_db0"
    using arg_cong [OF p, of "\<lambda>x. fst (snd x)"] by (simp add: audit_pass_def Let_def split: prod.splits)
  then have "resolver' ''0xa1'' = Some 1" using resolves0 by simp
  moreover have "executable watching_db0 = {}" using signal_run_inv [OF start] by blast
  ultimately show ?thesis
    using audit_pass_not_executable [where qf = "\<lambda>_ _. None" and now = "\<lambda>_. 0" and faults = "\<lambda>_ _ _ _. None" and clk = "\<lambda>_ _ _. 0", OF start p] p by metis
qed

section \<open>The stream as a run of deliveries\<close>

text \<open>A text frame is a delivery of the stream or leaves the database alone.\<close>

lemma process_message_frame: "event_tables_only d (snd (process_message X decode faults clk resolver text d))"
  by (cases "parse X decode text") (simp_all add: process_message_def event_tables.R_refl apply_trade_frame)

lemma process_message_run:
  assumes "signal_run X d K"
  shows "\<exists>K'. K \<subseteq> K' \<and> signal_run X (snd (process_message X decode faults clk resolver text d)) K'"
proof (cases "parse X decode text")
  case (PTrade t)
  let ?l = "\<lparr>dl_trade = t, dl_source = ''activity_ws'', dl_identifier = nt_transaction_hash t, dl_payload = text,
     dl_resolver = resolver, dl_faults = faults, dl_clock = clk\<rparr>"
  obtain out d' where del: "deliver X ?l d = (out, d')" by (rule prod.exhaust)
  then have "snd (process_message X decode faults clk resolver text d) = d'"
    by (simp add: process_message_def PTrade deliver_def)
  with signal_run.delivered [OF assms del] show ?thesis by blast
qed (use assms in \<open>auto simp: process_message_def\<close>)

lemma ws_loop_run:
  "signal_run X (ss_db s) K \<Longrightarrow>
     \<exists>K'. K \<subseteq> K' \<and> signal_run X (case ws_loop X decode inps s of Inl (e, d) \<Rightarrow> d | Inr s' \<Rightarrow> ss_db s') K'"
proof (induction inps arbitrary: s K)
  case (Cons inp inps)
  show ?case
  proof (cases "ws_step X decode inp s")
    case (Inl e)
    with Cons.prems show ?thesis by auto
  next
    case (Inr s1)
    have "\<exists>K1. K \<subseteq> K1 \<and> signal_run X (ss_db s1) K1"
    proof (cases "\<exists>now text resolver faults clk. inp = TextFrame now text resolver faults clk \<and> \<not> is_application_pong text")
      case True
      then obtain now body resolver faults clk where "inp = TextFrame now body resolver faults clk" "\<not> is_application_pong body" by blast
      with Inr process_message_run [OF Cons.prems, of decode faults clk resolver body] show ?thesis by (auto simp: ws_step_def)
    next
      case False
      then have "ss_db s1 = ss_db s"
        using Inr by (cases inp) (auto simp: ws_step_def heartbeat_step_def dest!: ws_send_fields
            split: if_splits option.splits sum.splits)
      with Cons.prems show ?thesis by auto
    qed
    then obtain K1 where "K \<subseteq> K1" "signal_run X (ss_db s1) K1" by blast
    with Cons.IH [OF this(2)] Inr show ?thesis by (auto intro: order_trans)
  qed
qed auto

text \<open>The audit's pauses after a failed pass stay between one and fifteen minutes.\<close>

lemma audit_sleeps_range:
  "60000 \<le> delay \<Longrightarrow> delay \<le> 900000 \<Longrightarrow> t \<in> set (audit_sleeps every results delay) \<Longrightarrow> t = every \<or> 60000 \<le> t \<and> t \<le> 900000"
proof (induction results arbitrary: delay)
  case (Cons r rs)
  obtain sleep next' where d: "audit_delay every r delay = (sleep, next')" by (rule prod.exhaust)
  have range: "60000 \<le> next'" "next' \<le> 900000" "sleep = every \<or> sleep = delay"
    using d Cons.prems(1,2)
    by (auto simp: audit_delay_def initial_audit_retry_delay_def max_audit_retry_delay_def split: sum.splits if_splits)
  from Cons.prems(3) d have "t = sleep \<or> t \<in> set (audit_sleeps every rs next')" by simp
  with range Cons.IH [OF range(1,2)] Cons.prems(1,2) show ?case by auto
qed simp

end
