(* ===== verification/Setup.thy ===== *)
theory Setup
  imports Budget Ingest
begin

text \<open>
  The declarative trading configuration, \<open>src/src/copytrading/setup.rs\<close>: validation and normalisation of the input, and
  the one transaction that makes the accounts, the leaders, their address books and their policies match it.

  The columns of a policy that the planner snapshots are the record \<open>policy_snapshot\<close>; the remaining two, the leader's
  own budget and its window, stand beside it, in the normalised policy as in the table.  A constraint of the schema that
  a statement may violate (the unique enabled address, the primary key of the policies) is a database error here;
  decimals that were parsed and are printed again keep their scale (\<open>reprint_dec\<close>).
\<close>

section \<open>The configuration\<close>

record account_config_input =
  ai_label :: string
  ai_signature_type :: string
  ai_funder_address :: "string option"

record leader_policy_input =
  pi_max_signal_age_seconds :: int
  pi_decision_window_seconds :: int
  pi_price_tolerance_bps :: int
  pi_tick_size :: string
  pi_min_price :: string
  pi_max_price :: string
  pi_max_order_notional :: string
  pi_min_leader_trade_size :: string
  pi_rolling_budget_usdc :: "string option"
  pi_budget_window_seconds :: "int option"
  pi_max_order_shares :: "string option"
  pi_balance_within_market :: bool
  pi_price_tolerance_abs :: "string option"
  pi_size_ratio :: "string option"
  pi_allow_repeated_market_direction :: bool
  pi_maker_only :: bool

record leader_config_input =
  li_label :: string
  li_enabled :: bool
  li_addresses :: "string list"
  li_policy :: leader_policy_input

record trading_config =
  tc_account :: account_config_input
  tc_leaders :: "leader_config_input list"

definition default_max_notional_ceiling :: decimal where
  "default_max_notional_ceiling = 1"

datatype change_kind = Created | Updated | Unchanged

record leader_apply_summary =
  ls_leader_id :: int
  ls_label :: string
  ls_change :: change_kind
  ls_aliases_added :: nat
  ls_aliases_disabled :: nat
  ls_policy_changed :: bool

record config_apply_summary =
  cs_account_id :: int
  cs_account_change :: change_kind
  cs_leaders :: "leader_apply_summary list"

datatype config_error =
  CfgDatabase string
| EmptyField string
| InvalidAddress string
| UnsupportedSignatureType
| UnexpectedFunderForEoa
| InvalidPolicyField string
| NotionalAboveCeiling string decimal decimal
| AccountIdentityLocked
| NoLeaders
| DuplicateLeaderLabel string

definition config_error_text :: "ext \<Rightarrow> config_error \<Rightarrow> string" where
  "config_error_text X e = (case e of
       CfgDatabase error \<Rightarrow> ''database error: '' @ error
     | EmptyField field \<Rightarrow> field @ '' must not be empty''
     | InvalidAddress field \<Rightarrow> ''invalid '' @ field
     | UnsupportedSignatureType \<Rightarrow> ''signature_type must be one of eoa, proxy, gnosis_safe, poly1271''
     | UnexpectedFunderForEoa \<Rightarrow> ''funder_address must not be set when signature_type is eoa (the signer funds itself)''
     | InvalidPolicyField field \<Rightarrow> ''invalid policy field: '' @ field
     | NotionalAboveCeiling leader_label value cap \<Rightarrow>
         ''leader \"'' @ leader_label @ ''\": max_order_notional '' @ show_dec X value @ '' exceeds the configured ceiling '' @
         show_dec X cap @ '' -- raise POLYCOPY_CONFIG_MAX_NOTIONAL_CEILING explicitly if this is intended''
     | AccountIdentityLocked \<Rightarrow>
         ''refusing to change this account's funder_address/signature_type: it already has recorded activity (copy_intents, reconciliation_cases, or position_lots). Add a new account instead of editing this one's wallet identity''
     | NoLeaders \<Rightarrow> ''config must list at least one leader''
     | DuplicateLeaderLabel label \<Rightarrow> ''leader label \"'' @ label @ ''\" appears more than once'')"

section \<open>Validation\<close>

definition cfg_non_empty :: "string \<Rightarrow> string \<Rightarrow> ('s, config_error, string) act" where
  "cfg_non_empty value field =
     (let trimmed = trim value in if trimmed = [] then raise (EmptyField field) else ret trimmed)"

definition is_ascii_hexdigit :: "char \<Rightarrow> bool" where
  "is_ascii_hexdigit c \<longleftrightarrow> CHR ''0'' \<le> c \<and> c \<le> CHR ''9'' \<or> CHR ''a'' \<le> c \<and> c \<le> CHR ''f'' \<or> CHR ''A'' \<le> c \<and> c \<le> CHR ''F''"

definition normalize_address :: "string \<Rightarrow> string \<Rightarrow> ('s, config_error, string) act" where
  "normalize_address value field =
     (let trimmed = trim value in
      if utf8_len trimmed \<noteq> 42 \<or> take 2 trimmed \<noteq> ''0x'' \<or> \<not> list_all is_ascii_hexdigit (drop 2 trimmed)
      then raise (InvalidAddress field) else ret (to_ascii_lowercase trimmed))"

definition normalize_funder_address :: "string option \<Rightarrow> string \<Rightarrow> ('s, config_error, string option) act" where
  "normalize_funder_address raw signature_type =
     (if signature_type = ''eoa'' then (case raw of None \<Rightarrow> ret None | Some _ \<Rightarrow> raise UnexpectedFunderForEoa)
      else (case raw of
              Some address \<Rightarrow> and_then (normalize_address address ''funder address'') (\<lambda>a. ret (Some a))
            | None \<Rightarrow> raise (EmptyField ''funder_address'')))"

definition parse_positive_decimal :: "ext \<Rightarrow> string \<Rightarrow> string \<Rightarrow> ('s, config_error, decimal) act" where
  "parse_positive_decimal X value field =
     and_then (or_raise (InvalidPolicyField field) (parse_dec X value)) (\<lambda>parsed.
     if parsed \<le> 0 then raise (InvalidPolicyField field) else ret parsed)"

definition parse_size_ratio :: "ext \<Rightarrow> string \<Rightarrow> string \<Rightarrow> ('s, config_error, string) act" where
  "parse_size_ratio X value field =
     and_then (or_raise (InvalidPolicyField field) (parse_dec X value)) (\<lambda>parsed.
     if parsed \<le> 0 \<or> parsed > 1 then raise (InvalidPolicyField field) else ret (show_dec X parsed))"

definition max_price_tolerance_abs :: decimal where
  "max_price_tolerance_abs = 10 / 100"

text \<open>\<open>option.map(..).transpose()?\<close>\<close>

definition on_some :: "('a \<Rightarrow> ('s, 'e, 'b) act) \<Rightarrow> 'a option \<Rightarrow> ('s, 'e, 'b option) act" where
  "on_some f v = (case v of None \<Rightarrow> ret None | Some x \<Rightarrow> and_then (f x) (\<lambda>y. ret (Some y)))"

record normalized_policy =
  np_snapshot :: policy_snapshot
  np_rolling_budget_usdc :: "string option"
  np_budget_window_seconds :: "int option"

definition check_budget_window :: "int option \<Rightarrow> ('s, config_error, unit) act" where
  "check_budget_window window = (case window of
       None \<Rightarrow> ret ()
     | Some seconds \<Rightarrow> assert_that (0 \<le> seconds \<and> min_budget_window_seconds \<le> nat seconds \<and> nat seconds \<le> max_budget_window_seconds)
         (InvalidPolicyField ''budget_window_seconds''))"

definition parse_price_tolerance_abs :: "ext \<Rightarrow> string option \<Rightarrow> ('s, config_error, string) act" where
  "parse_price_tolerance_abs X raw = (case raw of
       None \<Rightarrow> ret ''0''
     | Some raw \<Rightarrow>
        and_then (or_raise (InvalidPolicyField ''price_tolerance_abs'') (parse_dec X raw)) (\<lambda>parsed.
        if parsed < 0 \<or> parsed > max_price_tolerance_abs then raise (InvalidPolicyField ''price_tolerance_abs'')
        else ret (reprint_dec X raw)))"

definition normalize_policy ::
  "ext \<Rightarrow> leader_policy_input \<Rightarrow> string \<Rightarrow> decimal \<Rightarrow> ('s, config_error, normalized_policy) act" where
  "normalize_policy X policy leader_label max_notional_ceiling =
     and_then (assert_that (0 < pi_max_signal_age_seconds policy) (InvalidPolicyField ''max_signal_age_seconds'')) (\<lambda>_.
     and_then (assert_that (0 < pi_decision_window_seconds policy) (InvalidPolicyField ''decision_window_seconds'')) (\<lambda>_.
     and_then (assert_that (0 \<le> pi_price_tolerance_bps policy) (InvalidPolicyField ''price_tolerance_bps'')) (\<lambda>_.
     and_then (parse_positive_decimal X (pi_tick_size policy) ''tick_size'') (\<lambda>tick.
     and_then (parse_positive_decimal X (pi_min_price policy) ''min_price'') (\<lambda>mn.
     and_then (parse_positive_decimal X (pi_max_price policy) ''max_price'') (\<lambda>mx.
     and_then (assert_that (mn < mx) (InvalidPolicyField ''min_price/max_price'')) (\<lambda>_.
     and_then (parse_positive_decimal X (pi_max_order_notional policy) ''max_order_notional'') (\<lambda>notional.
     and_then (assert_that (notional \<le> max_notional_ceiling) (NotionalAboveCeiling leader_label notional max_notional_ceiling)) (\<lambda>_.
     and_then (or_raise (InvalidPolicyField ''min_leader_trade_size'') (parse_dec X (pi_min_leader_trade_size policy))) (\<lambda>min_size.
     and_then (assert_that (0 \<le> min_size) (InvalidPolicyField ''min_leader_trade_size'')) (\<lambda>_.
     and_then (on_some (\<lambda>raw. and_then (parse_positive_decimal X raw ''rolling_budget_usdc'') (\<lambda>_. ret (reprint_dec X raw)))
       (pi_rolling_budget_usdc policy)) (\<lambda>budget.
     and_then (check_budget_window (pi_budget_window_seconds policy)) (\<lambda>_.
     and_then (assert_that (\<not> (pi_budget_window_seconds policy \<noteq> None \<and> budget = None))
       (InvalidPolicyField ''budget_window_seconds'')) (\<lambda>_.
     and_then (on_some (\<lambda>raw. and_then (parse_positive_decimal X raw ''max_order_shares'') (\<lambda>_. ret (reprint_dec X raw)))
       (pi_max_order_shares policy)) (\<lambda>shares.
     and_then (parse_price_tolerance_abs X (pi_price_tolerance_abs policy)) (\<lambda>tolerance.
     and_then (on_some (\<lambda>raw. parse_size_ratio X raw ''size_ratio'') (pi_size_ratio policy)) (\<lambda>ratio.
     ret \<lparr>np_snapshot = \<lparr>max_signal_age_seconds = pi_max_signal_age_seconds policy,
            decision_window_seconds = pi_decision_window_seconds policy,
            price_tolerance_bps = pi_price_tolerance_bps policy,
            tick_size = reprint_dec X (pi_tick_size policy), min_price = reprint_dec X (pi_min_price policy),
            max_price = reprint_dec X (pi_max_price policy),
            max_order_notional = reprint_dec X (pi_max_order_notional policy), price_tolerance_abs = Some tolerance,
            max_order_shares = shares, balance_within_market = pi_balance_within_market policy,
            min_leader_trade_size = reprint_dec X (pi_min_leader_trade_size policy),
            allow_repeated_market_direction = pi_allow_repeated_market_direction policy,
            size_ratio = ratio, maker_only = pi_maker_only policy\<rparr>,
          np_rolling_budget_usdc = budget, np_budget_window_seconds = pi_budget_window_seconds policy\<rparr>)))))))))))))))))"

record normalized_leader =
  nl_label :: string
  nl_enabled :: bool
  nl_addresses :: "string list"
  nl_policy :: normalized_policy

fun check_labels :: "leader_config_input list \<Rightarrow> string list \<Rightarrow> ('s, config_error, unit) act" where
  "check_labels [] seen = ret ()"
| "check_labels (l # ls) seen =
     (if trim (li_label l) \<in> set seen then raise (DuplicateLeaderLabel (li_label l))
      else check_labels ls (trim (li_label l) # seen))"

fun normalize_addresses :: "string list \<Rightarrow> ('s, config_error, string list) act" where
  "normalize_addresses [] = ret []"
| "normalize_addresses (a # as) =
     and_then (normalize_address a ''leader address'') (\<lambda>a'.
     and_then (normalize_addresses as) (\<lambda>as'. ret (a' # as')))"

fun normalize_leaders :: "ext \<Rightarrow> decimal \<Rightarrow> leader_config_input list \<Rightarrow> ('s, config_error, normalized_leader list) act" where
  "normalize_leaders X cap [] = ret []"
| "normalize_leaders X cap (l # ls) =
     and_then (cfg_non_empty (li_label l) ''leader label'') (\<lambda>label.
     and_then (assert_that (li_addresses l \<noteq> []) (EmptyField ''leader addresses'')) (\<lambda>_.
     and_then (normalize_addresses (li_addresses l)) (\<lambda>addresses.
     and_then (normalize_policy X (li_policy l) label cap) (\<lambda>policy.
     and_then (normalize_leaders X cap ls) (\<lambda>rest.
     ret (\<lparr>nl_label = label, nl_enabled = li_enabled l, nl_addresses = addresses, nl_policy = policy\<rparr> # rest))))))"

section \<open>The transaction\<close>

definition unique_enabled_address :: "db \<Rightarrow> bool" where
  "unique_enabled_address d \<longleftrightarrow> distinct (map wa_address (filter wa_enabled (wallet_aliases d)))"

text \<open>A statement on the aliases fails when two enabled rows would share an address.\<close>

definition alias_stmt :: "(config_error, 'a) db_act \<Rightarrow> (config_error, 'a) db_act" where
  "alias_stmt m = and_then m (\<lambda>x.
     and_then (reads unique_enabled_address) (\<lambda>ok.
     if ok then ret x else raise (CfgDatabase ''UNIQUE constraint failed: leader_wallet_aliases.address'')))"

definition new_alias :: "int \<Rightarrow> string \<Rightarrow> (config_error, unit) db_act" where
  "new_alias leader_id address = and_then (alias_stmt (insert_alias (\<lambda>i.
     \<lparr>wa_id = i, wa_leader_id = leader_id, wa_address = address, wa_enabled = True\<rparr>))) (\<lambda>_. ret ())"

definition set_alias :: "bool \<Rightarrow> int \<Rightarrow> string \<Rightarrow> (config_error, unit) db_act" where
  "set_alias enabled leader_id address = and_then (alias_stmt
     (update_aliases (\<lambda>r. wa_leader_id r = leader_id \<and> wa_address r = address) (\<lambda>r. r\<lparr>wa_enabled := enabled\<rparr>))) (\<lambda>_. ret ())"

fun add_aliases :: "int \<Rightarrow> string list \<Rightarrow> (config_error, unit) db_act" where
  "add_aliases leader_id [] = ret ()"
| "add_aliases leader_id (a # as) = and_then (new_alias leader_id a) (\<lambda>_. add_aliases leader_id as)"

definition policy_row_of :: "int \<Rightarrow> normalized_policy \<Rightarrow> leader_policy_row" where
  "policy_row_of leader_id policy = \<lparr>lp_leader_id = leader_id, lp_policy = np_snapshot policy,
     lp_rolling_budget_usdc = np_rolling_budget_usdc policy, lp_budget_window_seconds = np_budget_window_seconds policy\<rparr>"

definition insert_policy :: "int \<Rightarrow> normalized_policy \<Rightarrow> (config_error, unit) db_act" where
  "insert_policy leader_id policy = (\<lambda>d.
     if find_row (\<lambda>r. lp_leader_id r = leader_id) (leader_policy d) \<noteq> None
     then (Inl (CfgDatabase ''UNIQUE constraint failed: leader_policy.leader_id''), d)
     else (Inr (), put_policies (leader_policy d @ [policy_row_of leader_id policy]) d))"

definition update_policy_if_changed :: "int \<Rightarrow> normalized_policy \<Rightarrow> (config_error, bool) db_act" where
  "update_policy_if_changed leader_id policy =
     and_then (reads (\<lambda>d. find_row (\<lambda>r. lp_leader_id r = leader_id) (leader_policy d))) (\<lambda>current.
     if current = Some (policy_row_of leader_id policy) then ret False else
     and_then (if current \<noteq> None
        then and_then (update_policies (\<lambda>r. lp_leader_id r = leader_id) (\<lambda>_. policy_row_of leader_id policy)) (\<lambda>_. ret ())
        else insert_policy leader_id policy) (\<lambda>_. ret True))"

fun enable_listed :: "int \<Rightarrow> (string \<times> bool) list \<Rightarrow> string list \<Rightarrow> (config_error, nat) db_act" where
  "enable_listed leader_id existing [] = ret 0"
| "enable_listed leader_id existing (a # as) =
     (case find_row (\<lambda>e. fst e = a) existing of
        None \<Rightarrow> and_then (new_alias leader_id a) (\<lambda>_. and_then (enable_listed leader_id existing as) (\<lambda>n. ret (n + 1)))
      | Some (_, True) \<Rightarrow> enable_listed leader_id existing as
      | Some (_, False) \<Rightarrow>
         and_then (set_alias True leader_id a) (\<lambda>_. and_then (enable_listed leader_id existing as) (\<lambda>n. ret (n + 1))))"

fun disable_unlisted :: "int \<Rightarrow> string list \<Rightarrow> (string \<times> bool) list \<Rightarrow> (config_error, nat) db_act" where
  "disable_unlisted leader_id addresses [] = ret 0"
| "disable_unlisted leader_id addresses ((a, enabled) # es) =
     (if enabled \<and> a \<notin> set addresses
      then and_then (set_alias False leader_id a) (\<lambda>_. and_then (disable_unlisted leader_id addresses es) (\<lambda>n. ret (n + 1)))
      else disable_unlisted leader_id addresses es)"

definition reconcile_aliases :: "int \<Rightarrow> string list \<Rightarrow> (config_error, nat \<times> nat) db_act" where
  "reconcile_aliases leader_id addresses =
     and_then (reads (\<lambda>d. map (\<lambda>r. (wa_address r, wa_enabled r)) (filter (\<lambda>r. wa_leader_id r = leader_id) (wallet_aliases d)))) (\<lambda>existing.
     and_then (enable_listed leader_id existing addresses) (\<lambda>added.
     and_then (disable_unlisted leader_id addresses existing) (\<lambda>disabled.
     ret (added, disabled))))"

definition leader_named :: "string \<Rightarrow> db \<Rightarrow> leader_config_row option" where
  "leader_named label d = find_row (\<lambda>r. lc_label r = label) (leader_config d)"

definition set_leader :: "bool \<Rightarrow> int \<Rightarrow> (config_error, unit) db_act" where
  "set_leader enabled leader_id = and_then (update_leaders (\<lambda>r. lc_id r = leader_id) (\<lambda>r. r\<lparr>lc_enabled := enabled\<rparr>)) (\<lambda>_. ret ())"

definition apply_one_leader :: "ext \<Rightarrow> (string \<Rightarrow> timestamp) \<Rightarrow> normalized_leader \<Rightarrow> (config_error, leader_apply_summary) db_act" where
  "apply_one_leader X clk l =
     and_then (reads (leader_named (nl_label l))) (\<lambda>existing.
     case existing of
       None \<Rightarrow>
         and_then (insert_leader (\<lambda>i. \<lparr>lc_id = i, lc_label = nl_label l, lc_enabled = nl_enabled l,
           lc_activation_at = Some (show_time X (clk (nl_label l)))\<rparr>)) (\<lambda>leader_id.
         and_then (add_aliases leader_id (nl_addresses l)) (\<lambda>_.
         and_then (insert_policy leader_id (nl_policy l)) (\<lambda>_.
         ret \<lparr>ls_leader_id = leader_id, ls_label = nl_label l, ls_change = Created,
              ls_aliases_added = length (nl_addresses l), ls_aliases_disabled = 0, ls_policy_changed = True\<rparr>)))
     | Some stored \<Rightarrow>
         let leader_id = lc_id stored; enabled_changed = (lc_enabled stored \<noteq> nl_enabled l) in
         and_then (if enabled_changed then set_leader (nl_enabled l) leader_id else ret ()) (\<lambda>_.
         and_then (reconcile_aliases leader_id (nl_addresses l)) (\<lambda>(added, disabled).
         and_then (update_policy_if_changed leader_id (nl_policy l)) (\<lambda>policy_changed.
         ret \<lparr>ls_leader_id = leader_id, ls_label = nl_label l,
              ls_change = (if enabled_changed \<or> added > 0 \<or> disabled > 0 \<or> policy_changed then Updated else Unchanged),
              ls_aliases_added = added, ls_aliases_disabled = disabled, ls_policy_changed = policy_changed\<rparr>))))"

fun apply_leaders :: "ext \<Rightarrow> (string \<Rightarrow> timestamp) \<Rightarrow> normalized_leader list \<Rightarrow> (config_error, leader_apply_summary list) db_act" where
  "apply_leaders X clk [] = ret []"
| "apply_leaders X clk (l # ls) =
     and_then (apply_one_leader X clk l) (\<lambda>s. and_then (apply_leaders X clk ls) (\<lambda>ss. ret (s # ss)))"

fun disable_missing :: "string set \<Rightarrow> leader_config_row list \<Rightarrow> (config_error, leader_apply_summary list) db_act" where
  "disable_missing seen [] = ret []"
| "disable_missing seen (r # rs) =
     (if lc_label r \<in> seen then disable_missing seen rs else
      and_then (if lc_enabled r then set_leader False (lc_id r) else ret ()) (\<lambda>_.
      and_then (disable_missing seen rs) (\<lambda>ss.
      ret (\<lparr>ls_leader_id = lc_id r, ls_label = lc_label r, ls_change = (if lc_enabled r then Updated else Unchanged),
           ls_aliases_added = 0, ls_aliases_disabled = 0, ls_policy_changed = False\<rparr> # ss))))"

definition work_count :: "int \<Rightarrow> db \<Rightarrow> nat" where
  "work_count account_id d = length (filter (\<lambda>r. ci_account_id r = account_id) (copy_intents d)) +
     length (filter (\<lambda>r. rc_account_id r = account_id) (reconciliation_cases d)) +
     length (filter (\<lambda>r. pl_account_id r = account_id) (position_lots d))"

definition apply_account :: "string \<Rightarrow> string \<Rightarrow> string option \<Rightarrow> string \<Rightarrow> (config_error, int \<times> change_kind) db_act" where
  "apply_account label signing funder signature_type =
     and_then (reads (\<lambda>d. find_row (\<lambda>r. acc_label r = label) (accounts d))) (\<lambda>existing.
     case existing of
       None \<Rightarrow>
         and_then (insert_account (\<lambda>i. \<lparr>acc_id = i, acc_label = label, acc_signing_address = signing,
           acc_funder_address = funder, acc_signature_type = signature_type\<rparr>)) (\<lambda>i. ret (i, Created))
     | Some a \<Rightarrow>
         if acc_signing_address a = signing \<and> acc_funder_address a = funder \<and> acc_signature_type a = signature_type
         then ret (acc_id a, Unchanged) else
         and_then (reads (work_count (acc_id a))) (\<lambda>n.
         if n > 0 then raise AccountIdentityLocked else
         and_then (update_accounts (\<lambda>r. acc_id r = acc_id a) (\<lambda>r. r\<lparr>acc_signing_address := signing,
           acc_funder_address := funder, acc_signature_type := signature_type\<rparr>)) (\<lambda>_.
         ret (acc_id a, Updated))))"

definition ensure_schedule :: "(config_error, unit) db_act" where
  "ensure_schedule = modifies (\<lambda>d. if execution_schedule d = None then d\<lparr>execution_schedule := Some (1, 1)\<rparr> else d)"

text \<open>What validation hands to the transaction.\<close>

record checked_config =
  cc_label :: string
  cc_signing :: string
  cc_funder :: "string option"
  cc_signature_type :: string
  cc_leaders :: "normalized_leader list"
  cc_seen :: "string set"

definition check_config :: "ext \<Rightarrow> trading_config \<Rightarrow> string \<Rightarrow> decimal \<Rightarrow> ('s, config_error, checked_config) act" where
  "check_config X config signing_address max_notional_ceiling =
     and_then (cfg_non_empty (ai_label (tc_account config)) ''account label'') (\<lambda>label.
     and_then (normalize_address signing_address ''signing address'') (\<lambda>signing.
     and_then (assert_that (ai_signature_type (tc_account config) \<in> {''eoa'', ''proxy'', ''gnosis_safe'', ''poly1271''})
       UnsupportedSignatureType) (\<lambda>_.
     and_then (normalize_funder_address (ai_funder_address (tc_account config)) (ai_signature_type (tc_account config))) (\<lambda>funder.
     and_then (assert_that (tc_leaders config \<noteq> []) NoLeaders) (\<lambda>_.
     and_then (check_labels (tc_leaders config) []) (\<lambda>_.
     and_then (normalize_leaders X max_notional_ceiling (tc_leaders config)) (\<lambda>leaders.
     ret \<lparr>cc_label = label, cc_signing = signing, cc_funder = funder, cc_signature_type = ai_signature_type (tc_account config),
       cc_leaders = leaders, cc_seen = set (map (\<lambda>l. trim (li_label l)) (tc_leaders config))\<rparr>)))))))"

definition apply_checked :: "ext \<Rightarrow> (string \<Rightarrow> timestamp) \<Rightarrow> checked_config \<Rightarrow> (config_error, config_apply_summary) db_act" where
  "apply_checked X clk c =
     and_then (apply_account (cc_label c) (cc_signing c) (cc_funder c) (cc_signature_type c)) (\<lambda>(account_id, account_change).
     and_then ensure_schedule (\<lambda>_.
     and_then (apply_leaders X clk (cc_leaders c)) (\<lambda>summaries.
     and_then (reads leader_config) (\<lambda>existing_leaders.
     and_then (disable_missing (cc_seen c) existing_leaders) (\<lambda>disabled.
     ret \<lparr>cs_account_id = account_id, cs_account_change = account_change, cs_leaders = summaries @ disabled\<rparr>)))))"

definition apply_trading_config ::
  "ext \<Rightarrow> (string \<Rightarrow> timestamp) \<Rightarrow> trading_config \<Rightarrow> string \<Rightarrow> decimal \<Rightarrow> (config_error, config_apply_summary) db_act" where
  "apply_trading_config X clk config signing_address max_notional_ceiling =
     and_then (check_config X config signing_address max_notional_ceiling) (\<lambda>c. transaction (apply_checked X clk c))"

section \<open>The address book of a leader\<close>

definition address_book :: "int \<Rightarrow> db \<Rightarrow> string set" where
  "address_book ldr d = wa_address ` {r \<in> set (wallet_aliases d). wa_leader_id r = ldr \<and> wa_enabled r}"

definition alias_pairs :: "db \<Rightarrow> (int \<times> string) list" where
  "alias_pairs d = map (\<lambda>r. (wa_leader_id r, wa_address r)) (wallet_aliases d)"

lemma in_book: "a \<in> address_book ldr d \<longleftrightarrow> (\<exists>r \<in> set (wallet_aliases d). wa_leader_id r = ldr \<and> wa_enabled r \<and> wa_address r = a)"
  by (auto simp: address_book_def)

lemma in_pairs: "(ldr, a) \<in> set (alias_pairs d) \<longleftrightarrow> (\<exists>r \<in> set (wallet_aliases d). wa_leader_id r = ldr \<and> wa_address r = a)"
  by (auto simp: alias_pairs_def)

text \<open>A change of one leader's rows of the alias table and of nothing else.\<close>

definition book_change :: "int \<Rightarrow> db \<Rightarrow> db \<Rightarrow> bool" where
  "book_change ldr d d' \<longleftrightarrow> d'\<lparr>wallet_aliases := wallet_aliases d\<rparr> = d \<and>
     filter (\<lambda>r. wa_leader_id r \<noteq> ldr) (wallet_aliases d') = filter (\<lambda>r. wa_leader_id r \<noteq> ldr) (wallet_aliases d)"

interpretation book_frame: frame_rel "book_change ldr" for ldr
proof
  fix d d' d'' :: db
  show "book_change ldr d d" by (simp add: book_change_def)
  show "book_change ldr d d' \<Longrightarrow> book_change ldr d' d'' \<Longrightarrow> book_change ldr d d''"
    by (cases d; cases d'; cases d'') (simp add: book_change_def)
qed

lemma filter_update_rows:
  assumes "\<And>r. P r \<Longrightarrow> \<not> Q r" "\<And>r. P r \<Longrightarrow> \<not> Q (f r)"
  shows "filter Q (update_rows P f rs) = filter Q rs"
  using assms by (induction rs) auto

lemma book_change_prims:
  "book_frame.stays ldr (new_alias ldr a)" "book_frame.stays ldr (set_alias b ldr a)"
proof -
  have "book_frame.stays ldr (alias_stmt m)" if "book_frame.stays ldr m" for m :: "(config_error, 'a) db_act"
    unfolding alias_stmt_def by (intro book_frame.stays_intros that)
  note stmt = this
  show "book_frame.stays ldr (new_alias ldr a)"
    unfolding new_alias_def by (intro book_frame.stays_intros stmt book_frame.stays_insert) (simp add: book_change_def put_aliases_def)
  show "book_frame.stays ldr (set_alias b ldr a)"
    unfolding set_alias_def
    by (intro book_frame.stays_intros stmt book_frame.stays_update)
      (auto simp: book_change_def put_aliases_def intro: filter_update_rows)
qed

lemma book_change_loops:
  "book_frame.stays ldr (add_aliases ldr as)" "book_frame.stays ldr (enable_listed ldr ex as)"
  "book_frame.stays ldr (disable_unlisted ldr as ex)"
proof -
  show "book_frame.stays ldr (add_aliases ldr as)"
    by (induction as) (auto intro!: book_frame.stays_intros book_change_prims)
  show "book_frame.stays ldr (enable_listed ldr ex as)"
    by (induction as) (auto intro!: book_frame.stays_intros book_change_prims split: option.splits prod.splits bool.splits)
  show "book_frame.stays ldr (disable_unlisted ldr as ex)"
    by (induction ex) (auto intro!: book_frame.stays_intros book_change_prims)
qed

lemma book_change_tables:
  assumes "book_change ldr d d'"
  shows "leader_config d' = leader_config d" "leader_policy d' = leader_policy d" "accounts d' = accounts d"
    "execution_schedule d' = execution_schedule d" "ldr' \<noteq> ldr \<Longrightarrow> address_book ldr' d' = address_book ldr' d"
proof -
  show "leader_config d' = leader_config d" "leader_policy d' = leader_policy d" "accounts d' = accounts d"
    "execution_schedule d' = execution_schedule d"
    using assms by (cases d; cases d'; simp add: book_change_def)+
  have f: "{r \<in> set (wallet_aliases e). wa_leader_id r = ldr' \<and> wa_enabled r} =
      {r \<in> set (filter (\<lambda>r. wa_leader_id r \<noteq> ldr) (wallet_aliases e)). wa_leader_id r = ldr' \<and> wa_enabled r}" if "ldr' \<noteq> ldr" for e
    using that by auto
  have g: "filter (\<lambda>r. wa_leader_id r \<noteq> ldr) (wallet_aliases d') = filter (\<lambda>r. wa_leader_id r \<noteq> ldr) (wallet_aliases d)"
    using assms by (simp add: book_change_def)
  show "address_book ldr' d' = address_book ldr' d" if "ldr' \<noteq> ldr"
    unfolding address_book_def f [OF that, of d'] f [OF that, of d] g ..
qed

lemma new_alias_ok:
  "new_alias ldr a d = (Inr u, d') \<longleftrightarrow> unique_enabled_address d' \<and>
     d' = put_aliases (wallet_aliases d @ [\<lparr>wa_id = next_id wa_id (wallet_aliases d), wa_leader_id = ldr, wa_address = a, wa_enabled = True\<rparr>]) d"
  by (auto simp: new_alias_def alias_stmt_def act_ok act_simps sql_insert_def Let_def split: if_splits)

lemma set_alias_ok:
  "set_alias b ldr a d = (Inr u, d') \<longleftrightarrow> unique_enabled_address d' \<and>
     d' = put_aliases (update_rows (\<lambda>r. wa_leader_id r = ldr \<and> wa_address r = a) (\<lambda>r. r\<lparr>wa_enabled := b\<rparr>) (wallet_aliases d)) d"
  by (auto simp: set_alias_def alias_stmt_def act_ok act_simps sql_update_def split: if_splits)

lemma new_alias_effect:
  assumes "new_alias ldr a d = (Inr u, d')"
  shows "address_book ldr d' = insert a (address_book ldr d)" "alias_pairs d' = alias_pairs d @ [(ldr, a)]"
    "unique_enabled_address d'" "a \<notin> address_book ldr d"
proof -
  from assms have d': "unique_enabled_address d'" "wallet_aliases d' = wallet_aliases d @
      [\<lparr>wa_id = next_id wa_id (wallet_aliases d), wa_leader_id = ldr, wa_address = a, wa_enabled = True\<rparr>]"
    unfolding new_alias_ok by (auto simp: put_aliases_def)
  show "address_book ldr d' = insert a (address_book ldr d)" by (rule set_eqI) (auto simp: in_book d'(2))
  show "alias_pairs d' = alias_pairs d @ [(ldr, a)]" by (simp add: alias_pairs_def d'(2))
  show "unique_enabled_address d'" by (rule d'(1))
  show "a \<notin> address_book ldr d" using d' by (auto simp: address_book_def unique_enabled_address_def)
qed

lemma set_alias_effect:
  assumes "set_alias b ldr a d = (Inr u, d')"
  shows "address_book ldr d' = (if b then address_book ldr d \<union> {a' . a' = a \<and> (ldr, a) \<in> set (alias_pairs d)} else address_book ldr d - {a})"
    "alias_pairs d' = alias_pairs d" "unique_enabled_address d'"
proof -
  from assms have d': "unique_enabled_address d'" "wallet_aliases d' =
      update_rows (\<lambda>r. wa_leader_id r = ldr \<and> wa_address r = a) (\<lambda>r. r\<lparr>wa_enabled := b\<rparr>) (wallet_aliases d)"
    unfolding set_alias_ok by (auto simp: put_aliases_def)
  show "alias_pairs d' = alias_pairs d" unfolding alias_pairs_def d'(2) by (rule map_update_rows) simp
  show "unique_enabled_address d'" by (rule d'(1))
  show "address_book ldr d' = (if b then address_book ldr d \<union> {a' . a' = a \<and> (ldr, a) \<in> set (alias_pairs d)} else address_book ldr d - {a})"
  proof (rule set_eqI)
    fix x
    have "x \<in> address_book ldr d' \<longleftrightarrow> (\<exists>r \<in> set (wallet_aliases d). wa_leader_id r = ldr \<and> wa_address r = x \<and> (if x = a then b else wa_enabled r))"
      unfolding in_book d'(2) update_rows_def set_map bex_simps(7) by (rule bex_cong [OF refl]) auto
    then show "x \<in> address_book ldr d' \<longleftrightarrow> x \<in> (if b then address_book ldr d \<union> {a' . a' = a \<and> (ldr, a) \<in> set (alias_pairs d)} else address_book ldr d - {a})"
      by (cases b; cases "x = a") (simp_all add: in_book in_pairs conj_commute conj_left_commute, blast)
  qed
qed

definition listed :: "(string \<times> bool) list \<Rightarrow> int \<Rightarrow> db \<Rightarrow> bool" where
  "listed ex ldr d \<longleftrightarrow> (\<forall>(a, b) \<in> set ex. (ldr, a) \<in> set (alias_pairs d) \<and> (b \<longrightarrow> a \<in> address_book ldr d)) \<and>
     (\<forall>a. (ldr, a) \<in> set (alias_pairs d) \<longrightarrow> a \<in> fst ` set ex \<or> a \<in> address_book ldr d)"

lemma enable_listed_effect:
  assumes "enable_listed ldr ex as d = (Inr n, d')" "listed ex ldr d" "distinct (alias_pairs d)" "unique_enabled_address d"
  shows "address_book ldr d' = address_book ldr d \<union> set as \<and> distinct (alias_pairs d') \<and> unique_enabled_address d' \<and>
    listed ex ldr d'"
  using assms
proof (induction as arbitrary: d n)
  case Nil
  then show ?case by (simp add: ret_def)
next
  case (Cons a as)
  consider (new) "find_row (\<lambda>e. fst e = a) ex = None" | (on) "find_row (\<lambda>e. fst e = a) ex = Some (a, True)"
    | (off) "find_row (\<lambda>e. fst e = a) ex = Some (a, False)"
  proof (cases "find_row (\<lambda>e. fst e = a) ex")
    case (Some e)
    then have "e = (a, snd e)" using find_row_Some [OF Some] by (cases e) auto
    with Some on off show thesis by (cases "snd e") auto
  qed (rule new)
  then show ?case
  proof cases
    case new
    with Cons.prems(1) obtain d1 m where s: "new_alias ldr a d = (Inr (), d1)" "enable_listed ldr ex as d1 = (Inr m, d')"
      by (auto simp: act_ok)
    note e = new_alias_effect [OF s(1)]
    have "a \<notin> fst ` set ex" using new by (auto simp: find_row_None)
    with Cons.prems(2) e(4) have "(ldr, a) \<notin> set (alias_pairs d)" by (auto simp: listed_def)
    then have "distinct (alias_pairs d1)" using Cons.prems(3) e(2) by simp
    moreover have "listed ex ldr d1" using Cons.prems(2) unfolding listed_def e by auto
    ultimately show ?thesis using Cons.IH [OF s(2)] e by auto
  next
    case on
    then have "(a, True) \<in> set ex" by (auto dest: find_row_Some)
    with Cons.prems(2) have "a \<in> address_book ldr d" by (auto simp: listed_def)
    moreover have "enable_listed ldr ex as d = (Inr n, d')" using Cons.prems(1) on by simp
    ultimately show ?thesis using Cons.IH Cons.prems(2-4) by auto
  next
    case off
    then have "(a, False) \<in> set ex" by (auto dest: find_row_Some)
    with Cons.prems(2) have p: "(ldr, a) \<in> set (alias_pairs d)" by (auto simp: listed_def)
    from off Cons.prems(1) obtain d1 m where s: "set_alias True ldr a d = (Inr (), d1)" "enable_listed ldr ex as d1 = (Inr m, d')"
      by (auto simp: act_ok)
    note e = set_alias_effect [OF s(1)]
    have book: "address_book ldr d1 = insert a (address_book ldr d)" using e(1) p by auto
    have "listed ex ldr d1" using Cons.prems(2) unfolding listed_def e(2) book by auto
    then show ?thesis using Cons.IH [OF s(2)] Cons.prems(3) e(2,3) book by auto
  qed
qed

lemma disable_unlisted_effect:
  assumes "disable_unlisted ldr as ex d = (Inr n, d')" "unique_enabled_address d"
  shows "address_book ldr d' = address_book ldr d - {a. (a, True) \<in> set ex \<and> a \<notin> set as} \<and> alias_pairs d' = alias_pairs d \<and>
    unique_enabled_address d'"
  using assms
proof (induction ex arbitrary: d n)
  case Nil
  then show ?case by (simp add: ret_def)
next
  case (Cons e ex)
  obtain a b where e: "e = (a, b)" by fastforce
  show ?case
  proof (cases "b \<and> a \<notin> set as")
    case True
    with Cons.prems(1) obtain d1 m where s: "set_alias False ldr a d = (Inr (), d1)" "disable_unlisted ldr as ex d1 = (Inr m, d')"
      by (auto simp: act_ok e)
    note f = set_alias_effect [OF s(1)]
    from Cons.IH [OF s(2) f(3)] f True show ?thesis by (auto simp: e)
  next
    case False
    then have "disable_unlisted ldr as ex d = (Inr n, d')" using Cons.prems(1) by (auto simp: e split: if_splits)
    from Cons.IH [OF this Cons.prems(2)] False show ?thesis by (auto simp: e)
  qed
qed

lemma reconcile_aliases_effect:
  assumes "reconcile_aliases ldr as d = (Inr nm, d')" "distinct (alias_pairs d)" "unique_enabled_address d"
  shows "address_book ldr d' = set as" "distinct (alias_pairs d')" "unique_enabled_address d'" "book_change ldr d d'"
proof -
  let ?ex = "map (\<lambda>r. (wa_address r, wa_enabled r)) (filter (\<lambda>r. wa_leader_id r = ldr) (wallet_aliases d))"
  from assms(1) obtain n d1 m where s: "enable_listed ldr ?ex as d = (Inr n, d1)" "disable_unlisted ldr as ?ex d1 = (Inr m, d')"
    by (auto simp: reconcile_aliases_def act_ok)
  have "listed ?ex ldr d" by (auto simp: listed_def in_pairs in_book image_image)
  note e = enable_listed_effect [OF s(1) this assms(2,3)]
  have book: "address_book ldr d = {a. (a, True) \<in> set ?ex}" by (auto simp: address_book_def image_iff)
  note f = disable_unlisted_effect [OF s(2), OF conjunct1 [OF conjunct2 [OF conjunct2 [OF e]]]]
  show "address_book ldr d' = set as" using e f unfolding book by blast
  show "distinct (alias_pairs d')" "unique_enabled_address d'" using e f by simp_all
  show "book_change ldr d d'"
    using book_frame.R_trans book_frame.staysD [OF book_change_loops(2) s(1)] book_frame.staysD [OF book_change_loops(3) s(2)] by blast
qed

lemma add_aliases_effect:
  assumes "add_aliases ldr as d = (Inr u, d')" "distinct (alias_pairs d)" "unique_enabled_address d" "ldr \<notin> fst ` set (alias_pairs d) \<union> {}"
  shows "address_book ldr d' = set as \<and> distinct (alias_pairs d') \<and> unique_enabled_address d' \<and>
    set (alias_pairs d') = set (alias_pairs d) \<union> Pair ldr ` set as"
proof -
  have "address_book ldr d' = address_book ldr d \<union> set as \<and> distinct (alias_pairs d') \<and> unique_enabled_address d' \<and>
      set (alias_pairs d') = set (alias_pairs d) \<union> Pair ldr ` set as"
    if "add_aliases ldr as d = (Inr u, d')" "distinct (alias_pairs d)" "unique_enabled_address d"
      "\<forall>a. (ldr, a) \<in> set (alias_pairs d) \<longrightarrow> a \<in> address_book ldr d" for d
    using that
  proof (induction as arbitrary: d)
    case Nil
    then show ?case by (simp add: ret_def)
  next
    case (Cons a as)
    then obtain d1 where s: "new_alias ldr a d = (Inr (), d1)" "add_aliases ldr as d1 = (Inr u, d')" by (auto simp: act_ok)
    note e = new_alias_effect [OF s(1)]
    from Cons.prems(4) e(4) have "(ldr, a) \<notin> set (alias_pairs d)" by blast
    with Cons.IH [OF s(2)] Cons.prems e show ?case by auto
  qed
  moreover have "address_book ldr d = {}" using assms(4) by (force simp: address_book_def alias_pairs_def)
  moreover have "\<forall>a. (ldr, a) \<in> set (alias_pairs d) \<longrightarrow> a \<in> address_book ldr d" using assms(4) by force
  ultimately show ?thesis using assms by auto
qed

section \<open>The configured state of a leader\<close>

abbreviation policy_of :: "int \<Rightarrow> db \<Rightarrow> leader_policy_row option" where
  "policy_of ldr d \<equiv> find_row (\<lambda>r. lp_leader_id r = ldr) (leader_policy d)"

text \<open>The keys, unique columns and references of the configuration tables.\<close>

definition config_tables_ok :: "db \<Rightarrow> bool" where
  "config_tables_ok d \<longleftrightarrow> leaders.keyed d \<and> distinct (map lc_label (leader_config d)) \<and>
     unique_enabled_address d \<and> distinct (alias_pairs d) \<and> policies.keyed d \<and>
     fst ` set (alias_pairs d) \<union> lp_leader_id ` set (leader_policy d) \<subseteq> lc_id ` set (leader_config d)"

definition leader_as :: "normalized_leader \<Rightarrow> db \<Rightarrow> bool" where
  "leader_as l d \<longleftrightarrow> (\<exists>lc. leader_named (nl_label l) d = Some lc \<and> lc_enabled lc = nl_enabled l \<and>
     address_book (lc_id lc) d = set (nl_addresses l) \<and> policy_of (lc_id lc) d = Some (policy_row_of (lc_id lc) (nl_policy l)))"

definition keeps_leader :: "string \<Rightarrow> db \<Rightarrow> db \<Rightarrow> bool" where
  "keeps_leader label d d' \<longleftrightarrow> (\<forall>lc. leader_named label d = Some lc \<longrightarrow> leader_named label d' = Some lc \<and>
     address_book (lc_id lc) d' = address_book (lc_id lc) d \<and> policy_of (lc_id lc) d' = policy_of (lc_id lc) d)"

lemma leader_as_keep: "leader_as l d \<Longrightarrow> keeps_leader (nl_label l) d d' \<Longrightarrow> leader_as l d'"
  by (auto simp: leader_as_def keeps_leader_def)

lemma find_policy_append:
  "find_row (\<lambda>r. lp_leader_id r = k) (rs @ [policy_row_of ldr np]) =
     (case find_row (\<lambda>r. lp_leader_id r = k) rs of Some r \<Rightarrow> Some r | None \<Rightarrow> if k = ldr then Some (policy_row_of ldr np) else None)"
  by (simp add: find_row_append policy_row_of_def split: option.splits)

lemma insert_policy_effect:
  assumes "insert_policy ldr np d = (Inr u, d')"
  shows "d' = put_policies (leader_policy d @ [policy_row_of ldr np]) d" "policy_of ldr d = None"
  using assms by (auto simp: insert_policy_def split: if_splits)

lemma update_policy_effect:
  assumes "update_policy_if_changed ldr np d = (Inr c, d')" "policies.keyed d"
  shows "policy_of ldr d' = Some (policy_row_of ldr np)" "\<And>k. k \<noteq> ldr \<Longrightarrow> policy_of k d' = policy_of k d"
    "policies.keyed d'" "lp_leader_id ` set (leader_policy d') = insert ldr (lp_leader_id ` set (leader_policy d))"
    "d' = put_policies (leader_policy d') d" "c \<longleftrightarrow> policy_of ldr d \<noteq> Some (policy_row_of ldr np)"
proof -
  have id: "lp_leader_id (policy_row_of k np) = k" for k by (simp add: policy_row_of_def)
  show "c \<longleftrightarrow> policy_of ldr d \<noteq> Some (policy_row_of ldr np)"
    using assms(1) by (auto simp: update_policy_if_changed_def act_ok split: if_splits)
  consider (same) "policy_of ldr d = Some (policy_row_of ldr np)" "d' = d"
    | (new) "policy_of ldr d = None" "d' = put_policies (leader_policy d @ [policy_row_of ldr np]) d"
    | (upd) r where "policy_of ldr d = Some r"
        "d' = put_policies (update_rows (\<lambda>r. lp_leader_id r = ldr) (\<lambda>_. policy_row_of ldr np) (leader_policy d)) d"
    using assms(1) by (auto simp: update_policy_if_changed_def act_ok policies.update_ok dest: insert_policy_effect split: if_splits)
  note cases = this
  have mem: "ldr \<in> lp_leader_id ` set (leader_policy d)" if "policy_of ldr d = Some r" for r
    using find_row_Some [OF that] by auto
  have rows: "policy_of ldr d' = Some (policy_row_of ldr np) \<and> (\<forall>k. k \<noteq> ldr \<longrightarrow> policy_of k d' = policy_of k d) \<and>
    policies.keyed d' \<and> lp_leader_id ` set (leader_policy d') = insert ldr (lp_leader_id ` set (leader_policy d)) \<and>
    d' = put_policies (leader_policy d') d"
    using cases
  proof cases
    case same
    then show ?thesis using assms(2) mem by (auto simp: put_policies_def)
  next
    case new
    have "ldr \<notin> lp_leader_id ` set (leader_policy d)" using new(1) by (auto simp: find_row_None)
    with new assms(2) show ?thesis
      by (auto simp: put_policies_def find_policy_append policies.keyed_def id split: option.splits)
  next
    case (upd r)
    have keys: "map lp_leader_id (leader_policy d') = map lp_leader_id (leader_policy d)"
      unfolding upd(2) by (simp add: put_policies_def) (rule map_update_rows, simp add: id)
    have "policy_of k d' = map_option (\<lambda>r. if lp_leader_id r = ldr then policy_row_of ldr np else r) (policy_of k d)" for k
    proof -
      have "find_row (\<lambda>r. lp_leader_id r = k) (update_rows (\<lambda>r. lp_leader_id r = ldr) (\<lambda>_. policy_row_of ldr np) rs) =
          map_option (\<lambda>r. if lp_leader_id r = ldr then policy_row_of ldr np else r) (find_row (\<lambda>r. lp_leader_id r = k) rs)" for rs
        by (induction rs) (auto simp: id)
      then show ?thesis by (simp add: upd(2) put_policies_def)
    qed
    note fr = this
    have "policy_of ldr d' = Some (policy_row_of ldr np)" using fr [of ldr] upd(1) find_row_Some [OF upd(1)] by simp
    moreover have "policy_of k d' = policy_of k d" if "k \<noteq> ldr" for k
      using fr [of k] that by (cases "policy_of k d") (auto dest: find_row_Some)
    moreover have "lp_leader_id ` set (leader_policy d') = lp_leader_id ` set (leader_policy d)"
      using arg_cong [OF keys, of set] by simp
    ultimately show ?thesis using assms(2) keys mem [OF upd(1)] upd(2)
      by (auto simp: policies.keyed_def put_policies_def)
  qed
  then show "policy_of ldr d' = Some (policy_row_of ldr np)" "\<And>k. k \<noteq> ldr \<Longrightarrow> policy_of k d' = policy_of k d"
    "policies.keyed d'" "lp_leader_id ` set (leader_policy d') = insert ldr (lp_leader_id ` set (leader_policy d))"
    "d' = put_policies (leader_policy d') d" by blast+
qed

lemma set_leader_effect:
  "set_leader b i d = (Inr (), put_leaders (update_rows (\<lambda>r. lc_id r = i) (\<lambda>r. r\<lparr>lc_enabled := b\<rparr>) (leader_config d)) d)"
  by (simp add: set_leader_def act_simps sql_update_def)

text \<open>Switching a leader on or off, by its row's id or label.\<close>

lemma named_after_switch:
  assumes "leaders.keyed d" "leader_named label d = Some lc"
  shows "leader_named label (put_leaders (update_rows (\<lambda>r. lc_id r = i) (\<lambda>r. r\<lparr>lc_enabled := b\<rparr>) (leader_config d)) d) =
     Some (if lc_id lc = i then lc\<lparr>lc_enabled := b\<rparr> else lc)"
  using assms(2) find_row_update [of lc_label "\<lambda>r. r\<lparr>lc_enabled := b\<rparr>" label "\<lambda>r. lc_id r = i" "leader_config d"]
  by (simp add: leader_named_def put_leaders_def)

lemma switch_tables:
  fixes d i b
  defines "d' \<equiv> put_leaders (update_rows (\<lambda>r. lc_id r = i) (\<lambda>r. r\<lparr>lc_enabled := b\<rparr>) (leader_config d)) d"
  shows "wallet_aliases d' = wallet_aliases d" "leader_policy d' = leader_policy d"
    "map lc_id (leader_config d') = map lc_id (leader_config d)" "map lc_label (leader_config d') = map lc_label (leader_config d)"
  by (simp_all add: d'_def put_leaders_def map_update_rows)

lemma switch_ok:
  "config_tables_ok d \<Longrightarrow> config_tables_ok (put_leaders (update_rows (\<lambda>r. lc_id r = i) (\<lambda>r. r\<lparr>lc_enabled := b\<rparr>) (leader_config d)) d)"
  using switch_tables [of i b d]
  by (simp add: config_tables_ok_def leaders.keyed_def policies.keyed_def unique_enabled_address_def alias_pairs_def)
    (metis list.set_map)

lemma switch_keeps:
  assumes "leaders.keyed d" "\<And>lc. leader_named label d = Some lc \<Longrightarrow> lc_id lc \<noteq> i"
  shows "keeps_leader label d (put_leaders (update_rows (\<lambda>r. lc_id r = i) (\<lambda>r. r\<lparr>lc_enabled := b\<rparr>) (leader_config d)) d)"
  using named_after_switch [OF assms(1)] assms(2) switch_tables [of i b d]
  by (auto simp: keeps_leader_def address_book_def)

lemma same_id_same_label:
  assumes "leaders.keyed d" "leader_named label d = Some lc" "leader_named label' d = Some lc'" "lc_id lc = lc_id lc'"
  shows "label = label'"
proof -
  have "lc \<in> set (leader_config d)" "lc' \<in> set (leader_config d)" "lc_label lc = label" "lc_label lc' = label'"
    using assms(2,3) by (auto simp: leader_named_def dest: find_row_Some)
  with assms(1,4) show ?thesis by (auto simp: leaders.keyed_def distinct_map inj_on_def)
qed

definition one_leader_ok :: "normalized_leader \<Rightarrow> db \<Rightarrow> db \<Rightarrow> bool" where
  "one_leader_ok l d d' \<longleftrightarrow> config_tables_ok d' \<and> leader_as l d' \<and>
     (\<forall>label. label \<noteq> nl_label l \<longrightarrow> keeps_leader label d d') \<and>
     lc_label ` set (leader_config d') = insert (nl_label l) (lc_label ` set (leader_config d))"

lemma create_leader_ok:
  assumes ok: "config_tables_ok d" and none: "leader_named (nl_label l) d = None"
    and run: "apply_one_leader X clk l d = (Inr s, d')"
  shows "one_leader_ok l d d'"
proof -
  let ?i = "next_id lc_id (leader_config d)"
  let ?row = "\<lparr>lc_id = ?i, lc_label = nl_label l, lc_enabled = nl_enabled l, lc_activation_at = Some (show_time X (clk (nl_label l)))\<rparr>"
  let ?d1 = "put_leaders (leader_config d @ [?row]) d"
  from run none obtain d2 where s: "add_aliases ?i (nl_addresses l) ?d1 = (Inr (), d2)" "insert_policy ?i (nl_policy l) d2 = (Inr (), d')"
    by (auto simp: apply_one_leader_def act_ok leaders.insert_ok)
  have fresh: "?i \<notin> lc_id ` set (leader_config d)" by (rule next_id_fresh)
  have t1: "alias_pairs ?d1 = alias_pairs d" "unique_enabled_address ?d1 = unique_enabled_address d" "leader_policy ?d1 = leader_policy d"
    by (simp_all add: alias_pairs_def unique_enabled_address_def put_leaders_def)
  have "?i \<notin> fst ` set (alias_pairs ?d1) \<union> {}" using ok fresh unfolding t1 by (auto simp: config_tables_ok_def)
  note a = add_aliases_effect [OF s(1) _ _ this]
  have a: "address_book ?i d2 = set (nl_addresses l)" "distinct (alias_pairs d2)" "unique_enabled_address d2"
    "set (alias_pairs d2) = set (alias_pairs d) \<union> Pair ?i ` set (nl_addresses l)"
    using a ok unfolding t1 by (auto simp: config_tables_ok_def)
  note bc = book_frame.staysD [OF book_change_loops(1) s(1)]
  note b = book_change_tables [OF bc]
  note p = insert_policy_effect [OF s(2)]
  have lc': "leader_config d' = leader_config d @ [?row]" using p(1) b(1) by (simp add: put_policies_def put_leaders_def)
  have pol: "leader_policy d' = leader_policy d @ [policy_row_of ?i (nl_policy l)]"
    using p(1) b(2) by (simp add: put_policies_def put_leaders_def)
  have al: "wallet_aliases d' = wallet_aliases d2" using p(1) by (simp add: put_policies_def)
  have new_label: "nl_label l \<notin> lc_label ` set (leader_config d)" using none by (auto simp: leader_named_def find_row_None)
  have named: "leader_named label d' = (if label = nl_label l then Some ?row else leader_named label d)" for label
    using none by (simp add: leader_named_def lc' find_row_append split: option.splits)
  have t': "alias_pairs d' = alias_pairs d2" "unique_enabled_address d' = unique_enabled_address d2"
    by (simp_all add: alias_pairs_def unique_enabled_address_def al)
  have refs: "fst ` set (alias_pairs d2) \<union> lp_leader_id ` set (leader_policy d') \<subseteq> lc_id ` set (leader_config d')"
    using ok unfolding a(4) lc' pol by (auto simp: config_tables_ok_def policy_row_of_def)
  have keys: "leaders.keyed d'" "distinct (map lc_label (leader_config d'))" "policies.keyed d'"
    using ok fresh new_label by (auto simp: config_tables_ok_def leaders.keyed_def policies.keyed_def lc' pol policy_row_of_def)
  have tables: "config_tables_ok d'" using keys a(2,3) refs unfolding config_tables_ok_def t' by blast
  have "policy_of ?i d' = Some (policy_row_of ?i (nl_policy l))"
    using p(2) b(2) by (simp add: pol find_policy_append put_leaders_def)
  then have "leader_as l d'" using a(1) named [of "nl_label l"] by (simp add: leader_as_def address_book_def al)
  moreover have "keeps_leader label d d'" if "label \<noteq> nl_label l" for label
    unfolding keeps_leader_def
  proof (intro allI impI)
    fix lc assume lc: "leader_named label d = Some lc"
    then have "lc \<in> set (leader_config d)" by (auto simp: leader_named_def dest: find_row_Some)
    with fresh have "lc_id lc \<noteq> ?i" by (metis imageI)
    with b(5) [OF this] have "address_book (lc_id lc) d2 = address_book (lc_id lc) d" by (simp add: address_book_def put_leaders_def)
    moreover have "policy_of (lc_id lc) d' = policy_of (lc_id lc) d"
      using \<open>lc_id lc \<noteq> ?i\<close> by (simp add: pol find_policy_append split: option.splits)
    ultimately show "leader_named label d' = Some lc \<and> address_book (lc_id lc) d' = address_book (lc_id lc) d \<and>
        policy_of (lc_id lc) d' = policy_of (lc_id lc) d"
      using named [of label] that lc by (simp add: address_book_def al)
  qed
  ultimately show ?thesis using tables by (simp add: one_leader_ok_def lc')
qed


lemma adjust_leader_ok:
  assumes ok: "config_tables_ok d" and some: "leader_named (nl_label l) d = Some lc"
    and run: "apply_one_leader X clk l d = (Inr s, d')"
  shows "one_leader_ok l d d'"
proof -
  let ?i = "lc_id lc"
  let ?sw = "put_leaders (update_rows (\<lambda>r. lc_id r = ?i) (\<lambda>r. r\<lparr>lc_enabled := nl_enabled l\<rparr>) (leader_config d)) d"
  define d1 where "d1 = (if lc_enabled lc \<noteq> nl_enabled l then ?sw else d)"
  from run some obtain nm d2 c where s: "reconcile_aliases ?i (nl_addresses l) d1 = (Inr nm, d2)"
    "update_policy_if_changed ?i (nl_policy l) d2 = (Inr c, d')"
    by (cases "lc_enabled lc = nl_enabled l") (auto simp: apply_one_leader_def act_ok set_leader_effect d1_def Let_def)
  have keyed: "leaders.keyed d" using ok by (simp add: config_tables_ok_def)
  have ok1: "config_tables_ok d1" using ok switch_ok by (simp add: d1_def)
  have name1: "\<exists>lc1. leader_named (nl_label l) d1 = Some lc1 \<and> lc_id lc1 = ?i \<and> lc_enabled lc1 = nl_enabled l"
    using named_after_switch [OF keyed some, of ?i "nl_enabled l"] some by (auto simp: d1_def)
  have keep1: "keeps_leader label d d1" if "label \<noteq> nl_label l" for label
  proof -
    have "keeps_leader label d ?sw"
    proof (rule switch_keeps [OF keyed])
      fix lc' assume "leader_named label d = Some lc'"
      from same_id_same_label [OF keyed this some] that show "lc_id lc' \<noteq> ?i" by blast
    qed
    then show ?thesis by (simp add: d1_def) (simp add: keeps_leader_def)
  qed
  have labels1: "lc_label ` set (leader_config d1) = lc_label ` set (leader_config d)"
  proof -
    have "map lc_label (leader_config d1) = map lc_label (leader_config d)"
      using switch_tables(4) [of ?i "nl_enabled l" d] by (simp add: d1_def)
    from arg_cong [OF this, of set] show ?thesis by simp
  qed
  have pre: "distinct (alias_pairs d1)" "unique_enabled_address d1" using ok1 by (simp_all add: config_tables_ok_def)
  note a = reconcile_aliases_effect [OF s(1) pre]
  note b = book_change_tables [OF a(4)]
  have "policies.keyed d2" using ok1 b(2) by (simp add: config_tables_ok_def policies.keyed_def)
  note p = update_policy_effect [OF s(2) this]
  have t': "leader_config d' = leader_config d1" "alias_pairs d' = alias_pairs d2" "unique_enabled_address d' = unique_enabled_address d2"
    "address_book k d' = address_book k d2" for k
  proof -
    from p(5) obtain rs where "d' = put_policies rs d2" by blast
    then show "leader_config d' = leader_config d1" "alias_pairs d' = alias_pairs d2" "unique_enabled_address d' = unique_enabled_address d2"
      "address_book k d' = address_book k d2" for k
      by (simp_all add: put_policies_def alias_pairs_def unique_enabled_address_def address_book_def b(1))
  qed
  have lc1: "?i \<in> lc_id ` set (leader_config d1)" using name1 by (metis find_row_Some imageI leader_named_def)
  have pairs: "fst ` set (alias_pairs d2) \<subseteq> lc_id ` set (leader_config d1)"
  proof
    fix k assume "k \<in> fst ` set (alias_pairs d2)"
    then obtain r where r: "r \<in> set (wallet_aliases d2)" "wa_leader_id r = k" by (auto simp: alias_pairs_def)
    show "k \<in> lc_id ` set (leader_config d1)"
    proof (cases "k = ?i")
      case False
      with r have "r \<in> set (filter (\<lambda>r. wa_leader_id r \<noteq> ?i) (wallet_aliases d2))" by simp
      then have "r \<in> set (filter (\<lambda>r. wa_leader_id r \<noteq> ?i) (wallet_aliases d1))"
        using a(4) by (simp only: book_change_def)
      then have "r \<in> set (wallet_aliases d1)" by simp
      with r ok1 show ?thesis by (auto simp: config_tables_ok_def alias_pairs_def image_image)
    qed (use lc1 in simp)
  qed
  have "config_tables_ok d'"
    using ok1 a(2,3) p(3,4) pairs lc1 b(2) unfolding config_tables_ok_def t' leaders.keyed_def by (simp add: b(2))
  moreover have "leader_as l d'"
    using name1 a(1) p(1) by (auto simp: leader_as_def leader_named_def t')
  moreover have "keeps_leader label d d'" if l: "label \<noteq> nl_label l" for label
    unfolding keeps_leader_def
  proof (intro allI impI)
    fix lc' assume lc': "leader_named label d = Some lc'"
    have ne: "lc_id lc' \<noteq> ?i" using same_id_same_label [OF keyed lc' some] l by blast
    have k: "leader_named label d1 = Some lc'" "address_book (lc_id lc') d1 = address_book (lc_id lc') d"
      "policy_of (lc_id lc') d1 = policy_of (lc_id lc') d"
      using keep1 [OF l] lc' by (auto simp: keeps_leader_def)
    show "leader_named label d' = Some lc' \<and> address_book (lc_id lc') d' = address_book (lc_id lc') d \<and>
        policy_of (lc_id lc') d' = policy_of (lc_id lc') d"
      using k b(2) b(5) [OF ne] p(2) [OF ne] by (simp add: leader_named_def t')
  qed
  moreover have "nl_label l \<in> lc_label ` set (leader_config d)" using find_row_Some [OF some [unfolded leader_named_def]] by (metis imageI)
  ultimately show ?thesis using labels1 by (simp add: one_leader_ok_def t' insert_absorb)
qed

lemma apply_one_leader_ok:
  "config_tables_ok d \<Longrightarrow> apply_one_leader X clk l d = (Inr s, d') \<Longrightarrow> one_leader_ok l d d'"
  by (cases "leader_named (nl_label l) d") (blast intro: create_leader_ok adjust_leader_ok)+

section \<open>The whole configuration\<close>

lemma keeps_leader_trans: "keeps_leader label d d1 \<Longrightarrow> keeps_leader label d1 d2 \<Longrightarrow> keeps_leader label d d2"
  by (auto simp: keeps_leader_def)

lemma apply_leaders_ok:
  "config_tables_ok d \<Longrightarrow> distinct (map nl_label ls) \<Longrightarrow> apply_leaders X clk ls d = (Inr ss, d') \<Longrightarrow>
     config_tables_ok d' \<and> list_all (\<lambda>l. leader_as l d') ls \<and>
     (\<forall>label. label \<notin> nl_label ` set ls \<longrightarrow> keeps_leader label d d') \<and>
     lc_label ` set (leader_config d') = nl_label ` set ls \<union> lc_label ` set (leader_config d)"
proof (induction ls arbitrary: d ss)
  case Nil
  then have "d' = d" by (simp add: ret_def)
  with Nil.prems(1) show ?case by (simp add: keeps_leader_def)
next
  case (Cons l ls)
  from Cons.prems(3) obtain s d1 ss1 where s: "apply_one_leader X clk l d = (Inr s, d1)" "apply_leaders X clk ls d1 = (Inr ss1, d')"
    by (auto simp: act_ok)
  note one = apply_one_leader_ok [OF Cons.prems(1) s(1), unfolded one_leader_ok_def]
  have "distinct (map nl_label ls)" using Cons.prems(2) by simp
  note IH = Cons.IH [OF _ this s(2)]
  have rest: "config_tables_ok d' \<and> list_all (\<lambda>l. leader_as l d') ls \<and>
     (\<forall>label. label \<notin> nl_label ` set ls \<longrightarrow> keeps_leader label d1 d') \<and>
     lc_label ` set (leader_config d') = nl_label ` set ls \<union> lc_label ` set (leader_config d1)"
    by (rule IH) (use one in blast)
  have "nl_label l \<notin> nl_label ` set ls" using Cons.prems(2) by simp
  then have "keeps_leader (nl_label l) d1 d'" using rest by blast
  moreover have "leader_as l d1" using one by blast
  ultimately have "leader_as l d'" by (rule leader_as_keep [rotated])
  moreover have "keeps_leader label d d'" if "label \<notin> nl_label ` set (l # ls)" for label
  proof -
    have ne: "label \<noteq> nl_label l" "label \<notin> nl_label ` set ls" using that by simp_all
    have "keeps_leader label d d1" using one ne(1) by blast
    moreover have "keeps_leader label d1 d'" using rest ne(2) by blast
    ultimately show ?thesis by (rule keeps_leader_trans)
  qed
  moreover have "lc_label ` set (leader_config d') = nl_label ` set (l # ls) \<union> lc_label ` set (leader_config d)"
    using rest one by simp
  moreover have "list_all (\<lambda>l. leader_as l d') (l # ls)" using \<open>leader_as l d'\<close> rest by simp
  ultimately show ?case using rest by blast
qed

text \<open>Switching off the leaders the configuration does not name.\<close>

abbreviation switch_off :: "(leader_config_row \<Rightarrow> bool) \<Rightarrow> db \<Rightarrow> db" where
  "switch_off P d \<equiv> put_leaders (update_rows P (\<lambda>r. r\<lparr>lc_enabled := False\<rparr>) (leader_config d)) d"

lemma switch_off_twice:
  assumes "\<And>r. P (r\<lparr>lc_enabled := False\<rparr>) = P r"
  shows "switch_off P (switch_off Q d) = switch_off (\<lambda>r. P r \<or> Q r) d"
proof -
  have "update_rows P f (update_rows Q f rs) = update_rows (\<lambda>r. P r \<or> Q r) f rs"
    if "f = (\<lambda>r. r\<lparr>lc_enabled := False\<rparr>)" for f rs using assms that by (induction rs) auto
  then show ?thesis by (simp add: put_leaders_def)
qed

definition missing_of :: "string set \<Rightarrow> leader_config_row list \<Rightarrow> leader_config_row \<Rightarrow> bool" where
  "missing_of seen rs r \<longleftrightarrow> (\<exists>r0 \<in> set rs. lc_label r0 \<notin> seen \<and> lc_enabled r0 \<and> lc_id r0 = lc_id r)"

definition missing_summary :: "leader_config_row \<Rightarrow> leader_apply_summary" where
  "missing_summary r = \<lparr>ls_leader_id = lc_id r, ls_label = lc_label r, ls_change = (if lc_enabled r then Updated else Unchanged),
     ls_aliases_added = 0, ls_aliases_disabled = 0, ls_policy_changed = False\<rparr>"

lemma disable_missing_eq:
  "disable_missing seen rs d = (Inr (map missing_summary (filter (\<lambda>r. lc_label r \<notin> seen) rs)), switch_off (missing_of seen rs) d)"
proof (induction rs arbitrary: d)
  case Nil
  have "update_rows (missing_of seen []) f xs = xs" for f xs by (induction xs) (auto simp: missing_of_def)
  then show ?case by (simp add: ret_def put_leaders_def)
next
  case (Cons r rs)
  show ?case
  proof (cases "lc_label r \<in> seen")
    case True
    then have "missing_of seen (r # rs) = missing_of seen rs" by (intro ext) (auto simp: missing_of_def)
    with True Cons show ?thesis by simp
  next
    case False
    let ?d1 = "if lc_enabled r then switch_off (\<lambda>x. lc_id x = lc_id r) d else d"
    have off: "switch_off (missing_of seen rs) ?d1 = switch_off (missing_of seen (r # rs)) d"
    proof (cases "lc_enabled r")
      case True
      have "switch_off (missing_of seen rs) ?d1 = switch_off (\<lambda>x. missing_of seen rs x \<or> lc_id x = lc_id r) d"
        unfolding if_P [OF True] by (rule switch_off_twice) (simp add: missing_of_def)
      moreover have "(\<lambda>x. missing_of seen rs x \<or> lc_id x = lc_id r) = missing_of seen (r # rs)"
        using True False by (intro ext) (auto simp: missing_of_def)
      ultimately show ?thesis by simp
    next
      case no: False
      then have "missing_of seen (r # rs) = missing_of seen rs" by (intro ext) (auto simp: missing_of_def)
      with no show ?thesis by simp
    qed
    have "(if lc_enabled r then set_leader False (lc_id r) else ret ()) d = (Inr (), ?d1)"
      by (simp add: set_leader_effect ret_def)
    with False Cons.IH [of ?d1] off show ?thesis
      by (simp add: and_then_def ret_def missing_summary_def)
  qed
qed

lemma missing_keyed:
  assumes "leaders.keyed d"
  shows "update_rows (missing_of seen (leader_config d)) f (leader_config d) =
     update_rows (\<lambda>r. lc_label r \<notin> seen \<and> lc_enabled r) f (leader_config d)"
proof -
  have "missing_of seen (leader_config d) r \<longleftrightarrow> lc_label r \<notin> seen \<and> lc_enabled r" if "r \<in> set (leader_config d)" for r
    using assms that by (auto simp: missing_of_def leaders.keyed_def distinct_map inj_on_def)
  then show ?thesis unfolding update_rows_def by (intro map_cong) auto
qed

lemma switch_off_ok:
  assumes "config_tables_ok d"
  shows "config_tables_ok (switch_off P d)" "map lc_label (leader_config (switch_off P d)) = map lc_label (leader_config d)"
proof -
  have "map lc_id (leader_config (switch_off P d)) = map lc_id (leader_config d)"
    by (simp add: put_leaders_def map_update_rows)
  moreover from this have "lc_id ` set (leader_config (switch_off P d)) = lc_id ` set (leader_config d)" by (metis list.set_map)
  moreover show lab: "map lc_label (leader_config (switch_off P d)) = map lc_label (leader_config d)"
    by (simp add: put_leaders_def map_update_rows)
  moreover have "wallet_aliases (switch_off P d) = wallet_aliases d" "leader_policy (switch_off P d) = leader_policy d"
    by (simp_all add: put_leaders_def)
  ultimately show "config_tables_ok (switch_off P d)"
    using assms unfolding config_tables_ok_def leaders.keyed_def policies.keyed_def unique_enabled_address_def alias_pairs_def by simp
qed

lemma switch_off_keeps:
  assumes "\<And>lc. leader_named label d = Some lc \<Longrightarrow> \<not> P lc"
  shows "keeps_leader label d (switch_off P d)"
  unfolding keeps_leader_def
proof (intro allI impI)
  fix lc assume lc: "leader_named label d = Some lc"
  have "leader_named label (switch_off P d) = map_option (\<lambda>r. if P r then r\<lparr>lc_enabled := False\<rparr> else r) (leader_named label d)"
    unfolding leader_named_def put_leaders_def by (simp add: find_row_update)
  then show "leader_named label (switch_off P d) = Some lc \<and> address_book (lc_id lc) (switch_off P d) = address_book (lc_id lc) d \<and>
      policy_of (lc_id lc) (switch_off P d) = policy_of (lc_id lc) d"
    using assms [OF lc] lc by (simp add: address_book_def put_leaders_def)
qed

section \<open>Validation\<close>

lemma check_labels_ok:
  "check_labels ls seen s = (Inr u, s') \<Longrightarrow> distinct (map (\<lambda>l. trim (li_label l)) ls) \<and>
     set (map (\<lambda>l. trim (li_label l)) ls) \<inter> set seen = {}"
proof (induction ls arbitrary: seen)
  case (Cons l ls)
  then have "trim (li_label l) \<notin> set seen" "check_labels ls (trim (li_label l) # seen) s = (Inr u, s')"
    by (auto simp: raise_def split: if_splits)
  with Cons.IH [OF this(2)] show ?case by auto
qed simp

lemma normalize_leaders_labels:
  "normalize_leaders X cap ls s = (Inr nls, s') \<Longrightarrow> map nl_label nls = map (\<lambda>l. trim (li_label l)) ls"
proof (induction ls arbitrary: nls s)
  case Nil
  then show ?case by (simp add: ret_def)
next
  case (Cons l ls)
  then obtain label as np rest s1 s2 where "cfg_non_empty (li_label l) ''leader label'' s = (Inr label, s1)"
    "normalize_leaders X cap ls s2 = (Inr rest, s')"
    "nls = \<lparr>nl_label = label, nl_enabled = li_enabled l, nl_addresses = as, nl_policy = np\<rparr> # rest"
    by (auto simp: act_ok)
  with Cons.IH show ?case by (auto simp: cfg_non_empty_def Let_def ret_def raise_def split: if_splits)
qed

text \<open>Validation does not look at the database, and does not change it.\<close>

definition state_free :: "('s, 'e, 'a) act \<Rightarrow> bool" where
  "state_free m \<longleftrightarrow> (\<exists>r. \<forall>s. m s = (r, s))"

lemma state_free_basic:
  "state_free (ret x)" "state_free (raise e)" "state_free (or_raise e v)" "state_free (assert_that b e)"
  by (auto simp: state_free_def act_simps)

lemma state_free_and_then:
  assumes "state_free m" "\<And>x. state_free (f x)"
  shows "state_free (and_then m f)"
proof -
  obtain r where r: "\<And>s. m s = (r, s)" using assms(1) by (auto simp: state_free_def)
  show ?thesis
  proof (cases r)
    case (Inl e)
    then show ?thesis by (auto simp: state_free_def and_then_def r)
  next
    case (Inr x)
    obtain q where "\<And>s. f x s = (q, s)" using assms(2) [of x] by (auto simp: state_free_def)
    with Inr show ?thesis by (auto simp: state_free_def and_then_def r)
  qed
qed

lemma state_free_control:
  "state_free m \<Longrightarrow> state_free n \<Longrightarrow> state_free (if b then m else n)"
  "state_free m \<Longrightarrow> (\<And>x. state_free (f x)) \<Longrightarrow> state_free (case v of None \<Rightarrow> m | Some x \<Rightarrow> f x)"
  "(\<And>x. state_free (f x)) \<Longrightarrow> state_free (Let y f)"
  by (auto split: option.splits)

lemmas state_free_intros = state_free_basic state_free_and_then state_free_control

lemma state_free_result: "state_free m \<Longrightarrow> m s = (r, s') \<Longrightarrow> m s2 = (r, s2)"
  unfolding state_free_def by (metis prod.inject)

lemma state_free_ro: "state_free m \<Longrightarrow> ro.stays m"
  by (auto simp: state_free_def ro.stays_def)

lemma free_validation:
  "state_free (cfg_non_empty v f)" "state_free (normalize_address v f)" "state_free (normalize_funder_address fa st)"
  "state_free (parse_positive_decimal X v f)" "state_free (parse_size_ratio X v f)" "state_free (check_budget_window w)"
  "state_free (parse_price_tolerance_abs X raw)"
  unfolding cfg_non_empty_def normalize_address_def normalize_funder_address_def parse_positive_decimal_def parse_size_ratio_def
    check_budget_window_def parse_price_tolerance_abs_def
  by (intro state_free_intros)+

lemma free_on_some: "(\<And>x. state_free (f x)) \<Longrightarrow> state_free (on_some f v)"
  unfolding on_some_def by (intro state_free_intros) blast

lemma free_normalize_policy: "state_free (normalize_policy X p l cap)"
  unfolding normalize_policy_def by (intro state_free_intros free_validation free_on_some)

lemma free_lists:
  "state_free (check_labels ls seen)" "state_free (normalize_addresses as)" "state_free (normalize_leaders X cap ls)"
proof -
  show "state_free (check_labels ls seen)" by (induction ls seen rule: check_labels.induct) (auto intro!: state_free_intros)
  have as: "state_free (normalize_addresses as)" for as
    by (induction as) (auto intro!: state_free_intros free_validation)
  show "state_free (normalize_addresses as)" by (rule as)
  show "state_free (normalize_leaders X cap ls)"
    by (induction ls) (auto intro!: state_free_intros free_validation as free_normalize_policy)
qed

lemma free_check_config: "state_free (check_config X config sig cap)"
  unfolding check_config_def by (intro state_free_intros free_validation free_lists)

lemmas ro_check_config = state_free_ro [OF free_check_config]

lemma check_config_ok:
  fixes s s' :: 's
  assumes "check_config X config sig cap s = (Inr c, s')"
  shows "s' = s" "map nl_label (cc_leaders c) = map (\<lambda>l. trim (li_label l)) (tc_leaders config)"
    "distinct (map nl_label (cc_leaders c))" "cc_seen c = nl_label ` set (cc_leaders c)" "cc_leaders c \<noteq> []"
    "\<exists>s1 s2 :: 's. normalize_leaders X cap (tc_leaders config) s1 = (Inr (cc_leaders c), s2)"
proof -
  show "s' = s" by (rule ro_state [OF ro_check_config assms])
  from assms obtain u and s0 s1 s2 :: 's where n: "check_labels (tc_leaders config) [] s0 = (Inr u, s1)"
    "normalize_leaders X cap (tc_leaders config) s1 = (Inr (cc_leaders c), s2)"
    "cc_seen c = set (map (\<lambda>l. trim (li_label l)) (tc_leaders config))" "tc_leaders config \<noteq> []"
    by (auto simp: check_config_def act_ok)
  note l = normalize_leaders_labels [OF n(2)]
  show lab: "map nl_label (cc_leaders c) = map (\<lambda>l. trim (li_label l)) (tc_leaders config)" by (rule l)
  show "distinct (map nl_label (cc_leaders c))" unfolding l using check_labels_ok [OF n(1)] by simp
  show "cc_seen c = nl_label ` set (cc_leaders c)" unfolding n(3) l [symmetric] by simp
  show "cc_leaders c \<noteq> []" using l n(4) by auto
  show "\<exists>s1 s2 :: 's. normalize_leaders X cap (tc_leaders config) s1 = (Inr (cc_leaders c), s2)" using n(2) by blast
qed

text \<open>The account and the schedule are other tables.\<close>

definition config_same :: "db \<Rightarrow> db \<Rightarrow> bool" where
  "config_same d d' \<longleftrightarrow> leader_config d' = leader_config d \<and> wallet_aliases d' = wallet_aliases d \<and> leader_policy d' = leader_policy d"

interpretation same_frame: frame_rel config_same
  by unfold_locales (auto simp: config_same_def)

lemma account_frame: "same_frame.stays (apply_account l sg f st)" "same_frame.stays ensure_schedule"
proof -
  show "same_frame.stays (apply_account l sg f st)"
    unfolding apply_account_def
    by (intro same_frame.stays_intros same_frame.stays_insert same_frame.stays_update)
      (simp_all add: config_same_def put_accounts_def)
  show "same_frame.stays ensure_schedule"
    unfolding ensure_schedule_def by (intro same_frame.stays_modifies) (simp add: config_same_def)
qed

lemma config_same_facts:
  assumes "config_same d d'"
  shows "config_tables_ok d' = config_tables_ok d" "leader_named label d' = leader_named label d" "address_book k d' = address_book k d"
    "leader_as l d' = leader_as l d" "leader_config d' = leader_config d"
  using assms by (simp_all add: config_same_def config_tables_ok_def leaders.keyed_def policies.keyed_def unique_enabled_address_def
      alias_pairs_def leader_named_def address_book_def leader_as_def)

lemma apply_checked_split:
  assumes "apply_checked X clk c d = (Inr s, d')"
  obtains d1 d2 ss where "config_same d d1" "apply_leaders X clk (cc_leaders c) d1 = (Inr ss, d2)"
    "d' = switch_off (missing_of (cc_seen c) (leader_config d2)) d2"
    "cs_leaders s = ss @ map missing_summary (filter (\<lambda>r. lc_label r \<notin> cc_seen c) (leader_config d2))"
proof -
  from assms obtain ac d0 d1 ss d2 ms where s: "apply_account (cc_label c) (cc_signing c) (cc_funder c) (cc_signature_type c) d = (Inr ac, d0)"
    "ensure_schedule d0 = (Inr (), d1)" "apply_leaders X clk (cc_leaders c) d1 = (Inr ss, d2)"
    "disable_missing (cc_seen c) (leader_config d2) d2 = (Inr ms, d')" "cs_leaders s = ss @ ms"
    unfolding apply_checked_def by (auto simp: act_ok split_beta)
  have "config_same d d1"
    using same_frame.R_trans same_frame.staysD [OF account_frame(1) s(1)] same_frame.staysD [OF account_frame(2) s(2)] by blast
  from this s(3) show thesis by (rule that) (use s(4,5) in \<open>simp_all add: disable_missing_eq\<close>)
qed

section \<open>The configuration is what the tables hold afterwards\<close>

definition enabled_labels :: "db \<Rightarrow> string set" where
  "enabled_labels d = lc_label ` {r \<in> set (leader_config d). lc_enabled r}"

definition switched_on :: "checked_config \<Rightarrow> normalized_leader set" where
  "switched_on c = {l \<in> set (cc_leaders c). nl_enabled l}"

lemma named_row:
  assumes "config_tables_ok d" "r \<in> set (leader_config d)"
  shows "leader_named (lc_label r) d = Some r"
  using find_row_unique [OF _ assms(2) refl] assms(1) by (auto simp: config_tables_ok_def leader_named_def)

definition matches_config :: "checked_config \<Rightarrow> db \<Rightarrow> bool" where
  "matches_config c d \<longleftrightarrow> config_tables_ok d \<and> list_all (\<lambda>l. leader_as l d) (cc_leaders c) \<and>
     enabled_labels d = nl_label ` switched_on c"

lemma apply_checked_matches:
  assumes ok: "config_tables_ok d" and lab: "distinct (map nl_label (cc_leaders c))" "cc_seen c = nl_label ` set (cc_leaders c)"
    and run: "apply_checked X clk c d = (Inr s, d')"
  shows "matches_config c d' \<and> lc_label ` set (leader_config d) \<subseteq> lc_label ` set (leader_config d')"
proof -
  from run obtain d1 d2 ss where s: "config_same d d1" "apply_leaders X clk (cc_leaders c) d1 = (Inr ss, d2)"
    "d' = switch_off (missing_of (cc_seen c) (leader_config d2)) d2" by (rule apply_checked_split)
  have ok1: "config_tables_ok d1" using ok config_same_facts(1) [OF s(1)] by simp
  note l = apply_leaders_ok [OF ok1 lab(1) s(2)]
  then have ok2: "config_tables_ok d2" by blast
  then have keyed: "leaders.keyed d2" by (simp add: config_tables_ok_def)
  have rows: "leader_config d' = update_rows (\<lambda>r. lc_label r \<notin> cc_seen c \<and> lc_enabled r) (\<lambda>r. r\<lparr>lc_enabled := False\<rparr>) (leader_config d2)"
    unfolding s(3) by (simp add: put_leaders_def missing_keyed [OF keyed])
  have ok': "config_tables_ok d'" and labels: "map lc_label (leader_config d') = map lc_label (leader_config d2)"
    unfolding s(3) by (rule switch_off_ok [OF ok2])+
  have as: "leader_as k d'" if k: "k \<in> set (cc_leaders c)" for k
  proof -
    have seen: "nl_label k \<in> cc_seen c" using lab(2) k by simp
    have "\<not> missing_of (cc_seen c) (leader_config d2) lc" if "leader_named (nl_label k) d2 = Some lc" for lc
      using keyed seen find_row_Some [OF that [unfolded leader_named_def]]
      by (auto simp: missing_of_def leaders.keyed_def distinct_map inj_on_def)
    then have "keeps_leader (nl_label k) d2 d'" unfolding s(3) by (rule switch_off_keeps)
    moreover have "leader_as k d2" using l k by (auto simp: list_all_iff)
    ultimately show ?thesis by (rule leader_as_keep [rotated])
  qed
  have "enabled_labels d' = nl_label ` switched_on c"
  proof (intro equalityI subsetI)
    fix x assume "x \<in> enabled_labels d'"
    then obtain r where r: "r \<in> set (leader_config d')" "lc_enabled r" "lc_label r = x" by (auto simp: enabled_labels_def)
    then have "x \<in> cc_seen c" unfolding rows by (auto simp: update_rows_def split: if_splits)
    then obtain k where k: "k \<in> set (cc_leaders c)" "nl_label k = x" using lab(2) by auto
    have "nl_enabled k" using as [OF k(1)] named_row [OF ok' r(1)] r k(2) by (auto simp: leader_as_def)
    with k show "x \<in> nl_label ` switched_on c" by (auto simp: switched_on_def)
  next
    fix x assume "x \<in> nl_label ` switched_on c"
    then obtain k where k: "k \<in> set (cc_leaders c)" "nl_enabled k" "x = nl_label k" by (auto simp: switched_on_def)
    from as [OF k(1)] obtain lc where "leader_named x d' = Some lc" "lc_enabled lc" using k by (auto simp: leader_as_def)
    then show "x \<in> enabled_labels d'" by (auto simp: enabled_labels_def leader_named_def dest: find_row_Some)
  qed
  moreover have "lc_label ` set (leader_config d) \<subseteq> lc_label ` set (leader_config d')"
    using l config_same_facts(5) [OF s(1)] arg_cong [OF labels, of set] by simp
  ultimately show ?thesis using ok' as by (simp add: matches_config_def list_all_iff)
qed

text \<open>What the resolver of the stream will watch.\<close>

lemma matches_watched:
  assumes "matches_config c d"
  shows "fst ` set (watched_aliases d) = (\<Union>l \<in> switched_on c. set (nl_addresses l))"
proof (intro equalityI subsetI)
  have as: "leader_as l d" if "l \<in> set (cc_leaders c)" for l
    using assms that by (auto simp: matches_config_def list_all_iff)
  have ok: "config_tables_ok d" using assms by (simp add: matches_config_def)
  fix a
  { assume "a \<in> fst ` set (watched_aliases d)"
    then obtain r lc where r: "r \<in> set (wallet_aliases d)" "wa_enabled r" "wa_address r = a" "lc \<in> set (leader_config d)"
      "lc_id lc = wa_leader_id r" "lc_enabled lc" by (auto simp: watched_aliases_def list_ex_iff)
    have "lc_label lc \<in> enabled_labels d" using r by (auto simp: enabled_labels_def)
    then obtain l where l: "l \<in> switched_on c" "nl_label l = lc_label lc" using assms by (auto simp: matches_config_def)
    have "address_book (lc_id lc) d = set (nl_addresses l)"
      using as [of l] l named_row [OF ok r(4)] by (auto simp: leader_as_def switched_on_def)
    moreover have "a \<in> address_book (lc_id lc) d" using r by (auto simp: in_book)
    ultimately show "a \<in> (\<Union>l \<in> switched_on c. set (nl_addresses l))" using l(1) by blast }
  assume "a \<in> (\<Union>l \<in> switched_on c. set (nl_addresses l))"
  then obtain l where l: "l \<in> set (cc_leaders c)" "nl_enabled l" "a \<in> set (nl_addresses l)" by (auto simp: switched_on_def)
  from as [OF l(1)] l obtain lc where lc: "leader_named (nl_label l) d = Some lc" "lc_enabled lc" "a \<in> address_book (lc_id lc) d"
    by (auto simp: leader_as_def)
  have "lc \<in> set (leader_config d)" using find_row_Some [OF lc(1) [unfolded leader_named_def]] by simp
  moreover from lc(3) obtain r where "r \<in> set (wallet_aliases d)" "wa_leader_id r = lc_id lc" "wa_enabled r" "wa_address r = a"
    by (auto simp: in_book)
  ultimately show "a \<in> fst ` set (watched_aliases d)" using lc(2) by (force simp: watched_aliases_def list_ex_iff)
qed

lemma apply_error_unchanged:
  assumes "apply_trading_config X clk config sig cap d = (Inl e, d')"
  shows "d' = d"
proof -
  from assms consider "check_config X config sig cap d = (Inl e, d')"
    | c d1 where "check_config X config sig cap d = (Inr c, d1)" "transaction (apply_checked X clk c) d1 = (Inl e, d')"
    unfolding apply_trading_config_def and_then_error by blast
  then show ?thesis
  proof cases
    case 1
    then show ?thesis by (rule ro_state [OF ro_check_config])
  next
    case 2
    show ?thesis using transaction_error [OF 2(2)] ro_state [OF ro_check_config 2(1)] by simp
  qed
qed

text \<open>
  C15.  Applying a configuration makes the tables match it: from tables that keep their keys and references, a run of
  \<open>apply_trading_config\<close> that returns leaves them so; every configured leader has a row with its label, its switch, exactly
  its addresses enabled and exactly its policy; the leaders switched on are those the configuration switches on, the
  others are off and none is deleted; and the addresses a resolver loaded afterwards watches are those of the leaders
  switched on.  A run that fails leaves the database as it was.
\<close>

theorem apply_is_declarative:
  assumes "config_tables_ok d" "apply_trading_config X clk config sig cap d = (r, d')"
  shows "case r of
      Inl e \<Rightarrow> d' = d
    | Inr summary \<Rightarrow> \<exists>c. check_config X config sig cap d = (Inr c, d) \<and>
        map nl_label (cc_leaders c) = map (\<lambda>l. trim (li_label l)) (tc_leaders config) \<and>
        config_tables_ok d' \<and> list_all (\<lambda>l. leader_as l d') (cc_leaders c) \<and>
        enabled_labels d' = nl_label ` switched_on c \<and>
        lc_label ` set (leader_config d) \<subseteq> lc_label ` set (leader_config d') \<and>
        fst ` set (watched_aliases d') = (\<Union>l \<in> switched_on c. set (nl_addresses l))"
proof (cases r)
  case (Inl e)
  from assms(2) have "d' = d" unfolding Inl by (rule apply_error_unchanged)
  with Inl show ?thesis by simp
next
  case (Inr summary)
  from assms(2) obtain c d0 where c: "check_config X config sig cap d = (Inr c, d0)" "apply_checked X clk c d0 = (Inr summary, d')"
    by (auto simp: Inr apply_trading_config_def act_ok transaction_ok)
  note k = check_config_ok [OF c(1)]
  have "apply_checked X clk c d = (Inr summary, d')" using c(2) k(1) by simp
  note m = apply_checked_matches [OF assms(1) k(3,4) this]
  have "matches_config c d'" using m by blast
  note w = matches_watched [OF this]
  have "check_config X config sig cap d = (Inr c, d)" using c(1) k(1) by simp
  with k(2) m w show ?thesis unfolding Inr sum.case matches_config_def by blast
qed

definition signer0 :: string where "signer0 = ''0x'' @ replicate 40 CHR ''5''"
definition wallet0 :: string where "wallet0 = ''0x'' @ replicate 40 CHR ''b''"

definition policy_input0 :: leader_policy_input where
  "policy_input0 = \<lparr>pi_max_signal_age_seconds = 60, pi_decision_window_seconds = 30, pi_price_tolerance_bps = 200,
     pi_tick_size = show_dec0 (1/100), pi_min_price = show_dec0 (1/100), pi_max_price = show_dec0 (99/100),
     pi_max_order_notional = show_dec0 1, pi_min_leader_trade_size = show_dec0 1, pi_rolling_budget_usdc = Some (show_dec0 20),
     pi_budget_window_seconds = Some 3600, pi_max_order_shares = None, pi_balance_within_market = False,
     pi_price_tolerance_abs = Some (show_dec0 (1/50)), pi_size_ratio = Some (show_dec0 (1/2)),
     pi_allow_repeated_market_direction = False, pi_maker_only = False\<rparr>"

definition trading_config0 :: trading_config where
  "trading_config0 = \<lparr>tc_account = \<lparr>ai_label = ''main'', ai_signature_type = ''eoa'', ai_funder_address = None\<rparr>,
     tc_leaders = [\<lparr>li_label = ''bob'', li_enabled = True, li_addresses = [wallet0], li_policy = policy_input0\<rparr>]\<rparr>"

lemma trim_id: "s \<noteq> [] \<Longrightarrow> \<not> is_space (hd s) \<Longrightarrow> \<not> is_space (last s) \<Longrightarrow> trim s = s"
proof -
  assume s: "s \<noteq> []" "\<not> is_space (hd s)" "\<not> is_space (last s)"
  then have "dropWhile is_space s = s" by (cases s) auto
  moreover have "dropWhile is_space (rev s) = rev s" using s by (cases s rule: rev_cases) auto
  ultimately show ?thesis by (simp add: trim_def)
qed

lemma hex_address:
  assumes "is_ascii_hexdigit c" "\<not> is_space c" "ascii_lower c = c" "(of_char c :: nat) < 128"
  shows "normalize_address (''0x'' @ replicate 40 c) f s = (Inr (''0x'' @ replicate 40 c), s)"
proof -
  let ?a = "''0x'' @ replicate 40 c"
  have "trim ?a = ?a" by (rule trim_id) (use assms(2) in \<open>simp_all add: is_space_def\<close>)
  moreover have "utf8_len ?a = 42" using assms(4) by (simp add: utf8_len_def map_replicate_const sum_list_replicate)
  moreover have "list_all is_ascii_hexdigit (drop 2 ?a)" using assms(1) by (simp add: list_all_iff)
  moreover have "to_ascii_lowercase ?a = ?a" using assms(3) by (simp add: to_ascii_lowercase_def ascii_lower_def less_eq_char_def)
  ultimately show ?thesis unfolding normalize_address_def by (simp add: Let_def ret_def)
qed

lemma addresses0: "normalize_address signer0 f s = (Inr signer0, s)" "normalize_address wallet0 f s = (Inr wallet0, s)"
  unfolding signer0_def wallet0_def
  by (rule hex_address; simp add: is_ascii_hexdigit_def is_space_def ascii_lower_def less_eq_char_def)+

definition normal0 :: normalized_policy where
  "normal0 = \<lparr>np_snapshot = policy0\<lparr>max_order_notional := show_dec0 1, price_tolerance_abs := Some (show_dec0 (1/50)), size_ratio := Some (show_dec0 (1/2))\<rparr>,
     np_rolling_budget_usdc = Some (show_dec0 20), np_budget_window_seconds = Some 3600\<rparr>"

lemma normal0: "normalize_policy ext0 policy_input0 l 1 s = (Inr normal0, s)"
  by (simp add: normalize_policy_def policy_input0_def normal0_def policy0_def act_simps parse_positive_decimal_def parse_size_ratio_def
    on_some_def check_budget_window_def parse_price_tolerance_abs_def max_price_tolerance_abs_def min_budget_window_seconds_def max_budget_window_seconds_def)

definition checked0 :: checked_config where
  "checked0 = \<lparr>cc_label = ''main'', cc_signing = signer0, cc_funder = None, cc_signature_type = ''eoa'',
     cc_leaders = [\<lparr>nl_label = ''bob'', nl_enabled = True, nl_addresses = [wallet0], nl_policy = normal0\<rparr>], cc_seen = {''bob''}\<rparr>"

lemma checked0: "check_config ext0 trading_config0 signer0 1 s = (Inr checked0, s)"
proof -
  have "trim ''main'' = ''main''" "trim ''bob'' = ''bob''" by (rule trim_id; simp add: is_space_def)+
  moreover from this have "normalize_leaders ext0 1 (tc_leaders trading_config0) s = (Inr (cc_leaders checked0), s)" for s :: 'a
    by (simp add: trading_config0_def checked0_def cfg_non_empty_def and_then_def ret_def assert_that_def addresses0 normal0)
  moreover have "check_labels (tc_leaders trading_config0) [] s = (Inr (), s)" for s :: 'a by (simp add: trading_config0_def ret_def)
  moreover have "tc_account trading_config0 = \<lparr>ai_label = ''main'', ai_signature_type = ''eoa'', ai_funder_address = None\<rparr>"
    "tc_leaders trading_config0 \<noteq> []" "set (map (\<lambda>l. trim (li_label l)) (tc_leaders trading_config0)) = {trim ''bob''}"
    by (simp_all add: trading_config0_def)
  ultimately show ?thesis
    by (simp add: check_config_def cfg_non_empty_def and_then_def assert_that_def ret_def normalize_funder_address_def addresses0)
      (simp add: checked0_def)
qed

definition db0_applied :: db where
  "db0_applied = db0\<lparr>accounts := [\<lparr>acc_id = 1, acc_label = ''main'', acc_signing_address = signer0, acc_funder_address = None, acc_signature_type = ''eoa''\<rparr>],
     leader_config := [\<lparr>lc_id = 1, lc_label = ''alice'', lc_enabled = False, lc_activation_at = None\<rparr>,
       \<lparr>lc_id = 2, lc_label = ''bob'', lc_enabled = True, lc_activation_at = Some (show_dec0 0)\<rparr>],
     wallet_aliases := [\<lparr>wa_id = 1, wa_leader_id = 1, wa_address = ''0xa1'', wa_enabled = True\<rparr>,
       \<lparr>wa_id = 2, wa_leader_id = 2, wa_address = wallet0, wa_enabled = True\<rparr>],
     leader_policy := leader_policy db0 @ [policy_row_of 2 normal0]\<rparr>"

lemma wallet0_other: "wallet0 \<noteq> ''0xa1''" "''0xa1'' \<noteq> wallet0"
  by (simp_all add: wallet0_def numeral_eq_Suc)

lemma applied0: "\<exists>s. apply_trading_config ext0 (\<lambda>_. 0) trading_config0 signer0 1 db0 = (Inr s, db0_applied)"
proof -
  let ?d1 = "db0\<lparr>accounts := accounts db0_applied\<rparr>"
  have 1: "apply_account ''main'' signer0 None ''eoa'' db0 = (Inr (1, Updated), ?d1)"
    by (simp add: apply_account_def act_simps sql_update_def db0_def db0_applied_def work_count_def signer0_def numeral_eq_Suc put_accounts_def)
  have 2: "ensure_schedule ?d1 = (Inr (), ?d1)" by (simp add: ensure_schedule_def act_simps db0_def)
  have 3: "\<exists>ss. apply_leaders ext0 (\<lambda>_. 0) (cc_leaders checked0) ?d1 = (Inr ss, db0_applied\<lparr>leader_config := leader_config db0 @ tl (leader_config db0_applied)\<rparr>)"
    by (simp add: checked0_def apply_one_leader_def act_simps leader_named_def db0_def db0_applied_def sql_insert_def next_id_def Let_def
      new_alias_def alias_stmt_def unique_enabled_address_def put_aliases_def put_leaders_def put_policies_def insert_policy_def wallet0_other)
      (auto simp: wallet0_other)
  then obtain ss where 3: "apply_leaders ext0 (\<lambda>_. 0) (cc_leaders checked0) ?d1 = (Inr ss, db0_applied\<lparr>leader_config := leader_config db0 @ tl (leader_config db0_applied)\<rparr>)" ..
  let ?d2 = "db0_applied\<lparr>leader_config := leader_config db0 @ tl (leader_config db0_applied)\<rparr>"
  have 4: "\<exists>ms. disable_missing (cc_seen checked0) (leader_config ?d2) ?d2 = (Inr ms, db0_applied)"
    by (simp add: db0_def db0_applied_def checked0_def set_leader_effect and_then_def ret_def put_leaders_def)
  then obtain ms where 4: "disable_missing (cc_seen checked0) (leader_config ?d2) ?d2 = (Inr ms, db0_applied)" ..
  have c: "cc_label checked0 = ''main''" "cc_signing checked0 = signer0" "cc_funder checked0 = None" "cc_signature_type checked0 = ''eoa''"
    by (simp_all add: checked0_def)
  have "\<exists>s. apply_checked ext0 (\<lambda>_. 0) checked0 db0 = (Inr s, db0_applied)"
    unfolding apply_checked_def c and_then_ok reads_ok ret_ok by (intro exI conjI, rule 1, unfold prod.case, unfold and_then_ok reads_ok ret_ok) (use 2 3 4 in blast)
  then show ?thesis by (simp add: apply_trading_config_def act_ok checked0 transaction_ok)
qed

lemma config_tables0: "config_tables_ok db0"
  by (simp add: config_tables_ok_def leaders.keyed_def policies.keyed_def unique_enabled_address_def alias_pairs_def db0_def)

theorem apply_is_declarative_witness:
  "\<exists>s d'. apply_trading_config ext0 (\<lambda>_. 0) trading_config0 signer0 1 db0 = (Inr s, d') \<and> config_tables_ok d' \<and>
     enabled_labels d' = {''bob''} \<and> fst ` set (watched_aliases d') = {wallet0}"
proof -
  obtain s where s: "apply_trading_config ext0 (\<lambda>_. 0) trading_config0 signer0 1 db0 = (Inr s, db0_applied)" using applied0 ..
  have "switched_on checked0 = set (cc_leaders checked0)" by (auto simp: switched_on_def checked0_def)
  then have "nl_label ` switched_on checked0 = {''bob''}" "(\<Union>l \<in> switched_on checked0. set (nl_addresses l)) = {wallet0}"
    by (simp_all add: checked0_def)
  with apply_is_declarative [OF config_tables0 s] s show ?thesis by (auto simp: checked0)
qed

section \<open>Stored policies are well typed\<close>

definition dec_in :: "ext \<Rightarrow> (decimal \<Rightarrow> bool) \<Rightarrow> string \<Rightarrow> bool" where
  "dec_in X P raw \<longleftrightarrow> (case parse_dec X raw of None \<Rightarrow> False | Some q \<Rightarrow> P q)"

definition snapshot_typed :: "ext \<Rightarrow> policy_snapshot \<Rightarrow> bool" where
  "snapshot_typed X p \<longleftrightarrow> 0 < max_signal_age_seconds p \<and> 0 < decision_window_seconds p \<and> 0 \<le> price_tolerance_bps p \<and>
     dec_in X (\<lambda>q. 0 < q) (tick_size p) \<and>
     dec_in X (\<lambda>lo. 0 < lo \<and> dec_in X (\<lambda>hi. lo < hi) (max_price p)) (min_price p) \<and>
     dec_in X (\<lambda>q. 0 < q) (max_order_notional p) \<and> dec_in X (\<lambda>q. 0 \<le> q) (min_leader_trade_size p) \<and>
     pred_option (dec_in X (\<lambda>q. 0 \<le> q \<and> q \<le> max_price_tolerance_abs)) (price_tolerance_abs p) \<and>
     pred_option (dec_in X (\<lambda>q. 0 < q)) (max_order_shares p) \<and>
     pred_option (dec_in X (\<lambda>q. 0 < q \<and> q \<le> 1)) (size_ratio p)"

definition budget_typed :: "ext \<Rightarrow> string option \<Rightarrow> int option \<Rightarrow> bool" where
  "budget_typed X budget window \<longleftrightarrow> pred_option (dec_in X (\<lambda>q. 0 < q)) budget \<and>
     pred_option (\<lambda>w. int min_budget_window_seconds \<le> w \<and> w \<le> int max_budget_window_seconds \<and> budget \<noteq> None) window"

definition policy_typed :: "ext \<Rightarrow> leader_policy_row \<Rightarrow> bool" where
  "policy_typed X r \<longleftrightarrow> snapshot_typed X (lp_policy r) \<and> budget_typed X (lp_rolling_budget_usdc r) (lp_budget_window_seconds r)"

definition policies_typed :: "ext \<Rightarrow> db \<Rightarrow> bool" where
  "policies_typed X d \<longleftrightarrow> list_all (policy_typed X) (leader_policy d)"

definition normal_typed :: "ext \<Rightarrow> normalized_policy \<Rightarrow> bool" where
  "normal_typed X np \<longleftrightarrow> snapshot_typed X (np_snapshot np) \<and> budget_typed X (np_rolling_budget_usdc np) (np_budget_window_seconds np)"

lemma typed_row: "policy_typed X (policy_row_of i np) = normal_typed X np"
  by (simp add: policy_typed_def policy_row_of_def normal_typed_def)

lemma dec_in_reprint: "reprint_codec X \<Longrightarrow> dec_in X P s \<Longrightarrow> dec_in X P (reprint_dec X s)"
  unfolding reprint_codec_def dec_in_def by (cases "parse_dec X s") auto

lemma positive_decimal_ok:
  "parse_positive_decimal X v f s = (Inr q, s') \<longleftrightarrow> s' = s \<and> parse_dec X v = Some q \<and> 0 < q"
  by (cases "parse_dec X v") (auto simp: parse_positive_decimal_def act_simps)

lemma on_some_ok:
  "on_some f v s = (Inr r, s') \<longleftrightarrow> (v = None \<and> r = None \<and> s' = s) \<or> (\<exists>x y. v = Some x \<and> r = Some y \<and> f x s = (Inr y, s'))"
  by (auto simp: on_some_def act_ok split: option.splits)

lemma typed_optional:
  assumes "reprint_codec X" "on_some (\<lambda>raw. and_then (parse_positive_decimal X raw f) (\<lambda>_. ret (reprint_dec X raw))) v s = (Inr r, s')"
  shows "pred_option (dec_in X (\<lambda>q. 0 < q)) r"
proof (cases v)
  case None
  then show ?thesis using assms(2) by (simp add: on_some_ok)
next
  case (Some raw)
  then obtain q where q: "parse_dec X raw = Some q" "0 < q" "r = Some (reprint_dec X raw)"
    using assms(2) by (auto simp: on_some_ok act_ok positive_decimal_ok)
  have "dec_in X (\<lambda>q. 0 < q) (reprint_dec X raw)" by (rule dec_in_reprint [OF assms(1)]) (simp add: dec_in_def q)
  then show ?thesis by (simp add: q(3))
qed

lemma typed_tolerance:
  assumes "reprint_codec X" "dec_codec X" "parse_price_tolerance_abs X raw s = (Inr t, s')"
  shows "dec_in X (\<lambda>q. 0 \<le> q \<and> q \<le> max_price_tolerance_abs) t"
proof (cases raw)
  case None
  then have "t = ''0''" using assms(3) by (simp add: parse_price_tolerance_abs_def ret_def)
  then show ?thesis using assms(2) by (simp add: dec_in_def dec_codec_def max_price_tolerance_abs_def)
next
  case (Some r)
  then obtain q where "parse_dec X r = Some q" "0 \<le> q" "q \<le> max_price_tolerance_abs" "t = reprint_dec X r"
    using assms(3) by (auto simp: parse_price_tolerance_abs_def act_ok raise_def ret_def split: if_splits)
  note q = this
  have "dec_in X (\<lambda>q. 0 \<le> q \<and> q \<le> max_price_tolerance_abs) r" using q(1-3) by (simp add: dec_in_def)
  then show ?thesis unfolding q(4) by (rule dec_in_reprint [OF assms(1)])
qed

lemma typed_ratio:
  assumes "dec_codec X" "on_some (\<lambda>raw. parse_size_ratio X raw f) v s = (Inr r, s')"
  shows "pred_option (dec_in X (\<lambda>q. 0 < q \<and> q \<le> 1)) r"
  using assms by (auto simp: on_some_ok parse_size_ratio_def act_ok raise_def ret_def dec_in_def dec_codec_def split: if_splits)

lemma normalize_policy_typed:
  fixes s s' :: 's
  assumes "reprint_codec X" "dec_codec X" "normalize_policy X p l cap s = (Inr np, s')"
  shows "normal_typed X np"
proof -
  from assms(3) obtain tick mn mx notional mins budget shares tol ratio u and s1 s2 s3 s4 s5 s6 s7 s8 :: 's where
    n: "0 < pi_max_signal_age_seconds p" "0 < pi_decision_window_seconds p" "0 \<le> pi_price_tolerance_bps p"
    "parse_dec X (pi_tick_size p) = Some tick" "0 < tick" "parse_dec X (pi_min_price p) = Some mn" "0 < mn"
    "parse_dec X (pi_max_price p) = Some mx" "mn < mx" "parse_dec X (pi_max_order_notional p) = Some notional" "0 < notional"
    "parse_dec X (pi_min_leader_trade_size p) = Some mins" "0 \<le> mins"
    "on_some (\<lambda>raw. and_then (parse_positive_decimal X raw ''rolling_budget_usdc'') (\<lambda>_. ret (reprint_dec X raw))) (pi_rolling_budget_usdc p) s1 = (Inr budget, s2)"
    "check_budget_window (pi_budget_window_seconds p) s2 = (Inr u, s3)"
    "\<not> (pi_budget_window_seconds p \<noteq> None \<and> budget = None)"
    "on_some (\<lambda>raw. and_then (parse_positive_decimal X raw ''max_order_shares'') (\<lambda>_. ret (reprint_dec X raw))) (pi_max_order_shares p) s4 = (Inr shares, s5)"
    "parse_price_tolerance_abs X (pi_price_tolerance_abs p) s5 = (Inr tol, s6)"
    "on_some (\<lambda>raw. parse_size_ratio X raw ''size_ratio'') (pi_size_ratio p) s7 = (Inr ratio, s8)"
    "np = \<lparr>np_snapshot = \<lparr>max_signal_age_seconds = pi_max_signal_age_seconds p,
            decision_window_seconds = pi_decision_window_seconds p,
            price_tolerance_bps = pi_price_tolerance_bps p,
            tick_size = reprint_dec X (pi_tick_size p), min_price = reprint_dec X (pi_min_price p),
            max_price = reprint_dec X (pi_max_price p),
            max_order_notional = reprint_dec X (pi_max_order_notional p), price_tolerance_abs = Some tol,
            max_order_shares = shares, balance_within_market = pi_balance_within_market p,
            min_leader_trade_size = reprint_dec X (pi_min_leader_trade_size p),
            allow_repeated_market_direction = pi_allow_repeated_market_direction p,
            size_ratio = ratio, maker_only = pi_maker_only p\<rparr>,
          np_rolling_budget_usdc = budget, np_budget_window_seconds = pi_budget_window_seconds p\<rparr>"
    unfolding normalize_policy_def and_then_ok assert_that_ok or_raise_ok ret_ok positive_decimal_ok by blast
  note opts = typed_optional [OF assms(1) n(14)] typed_optional [OF assms(1) n(17)] typed_tolerance [OF assms(1,2) n(18)] typed_ratio [OF assms(2) n(19)]
  have hi: "dec_in X (\<lambda>hi. mn < hi) (reprint_dec X (pi_max_price p))"
    by (rule dec_in_reprint [OF assms(1)]) (simp add: dec_in_def n)
  have decs: "dec_in X (\<lambda>q. 0 < q) (reprint_dec X (pi_tick_size p))"
    "dec_in X (\<lambda>lo. 0 < lo \<and> dec_in X (\<lambda>hi. lo < hi) (reprint_dec X (pi_max_price p))) (reprint_dec X (pi_min_price p))"
    "dec_in X (\<lambda>q. 0 < q) (reprint_dec X (pi_max_order_notional p))" "dec_in X (\<lambda>q. 0 \<le> q) (reprint_dec X (pi_min_leader_trade_size p))"
    using n hi by (intro dec_in_reprint [OF assms(1)]; simp add: dec_in_def [of X _ "pi_tick_size p"] dec_in_def [of X _ "pi_min_price p"]
      dec_in_def [of X _ "pi_max_order_notional p"] dec_in_def [of X _ "pi_min_leader_trade_size p"])+
  have "pred_option (\<lambda>w. int min_budget_window_seconds \<le> w \<and> w \<le> int max_budget_window_seconds \<and> budget \<noteq> None) (pi_budget_window_seconds p)"
    using n(15,16) by (cases "pi_budget_window_seconds p") (auto simp: check_budget_window_def assert_that_ok)
  with opts decs n(1-3) show ?thesis by (simp add: n(20) normal_typed_def snapshot_typed_def budget_typed_def)
qed


lemma normalize_leaders_typed:
  fixes s s' :: 's
  assumes "reprint_codec X" "dec_codec X" "normalize_leaders X cap ls s = (Inr nls, s')"
  shows "list_all (\<lambda>l. normal_typed X (nl_policy l)) nls"
  using assms(3)
proof (induction ls arbitrary: nls s)
  case Nil
  then show ?case by (simp add: ret_def)
next
  case (Cons l ls)
  then obtain label as np rest and s1 s2 s3 :: 's where "normalize_policy X (li_policy l) label cap s1 = (Inr np, s2)"
    "normalize_leaders X cap ls s3 = (Inr rest, s')"
    "nls = \<lparr>nl_label = label, nl_enabled = li_enabled l, nl_addresses = as, nl_policy = np\<rparr> # rest"
    by (auto simp: act_ok)
  with Cons.IH normalize_policy_typed [OF assms(1,2)] show ?case by simp
qed

text \<open>Only the two policy statements write the table.\<close>

lemma typed_frame:
  "keeps.stays (policies_typed X) (add_aliases ldr as)" "keeps.stays (policies_typed X) (reconcile_aliases ldr as)"
  "keeps.stays (policies_typed X) (set_leader b ldr)"
  "normal_typed X np \<Longrightarrow> keeps.stays (policies_typed X) (insert_policy ldr np)"
  "normal_typed X np \<Longrightarrow> keeps.stays (policies_typed X) (update_policy_if_changed ldr np)"
proof -
  have book: "keeps.stays (policies_typed X) m" if "book_frame.stays ldr m" for m :: "(config_error, 'a) db_act"
    using that book_change_tables(2) unfolding keeps.stays_def book_frame.stays_def policies_typed_def by metis
  show "keeps.stays (policies_typed X) (add_aliases ldr as)" "keeps.stays (policies_typed X) (reconcile_aliases ldr as)"
    unfolding reconcile_aliases_def by (intro book book_frame.stays_intros book_change_loops)+
  show "keeps.stays (policies_typed X) (set_leader b ldr)"
    by (simp add: keeps.stays_def set_leader_effect policies_typed_def put_leaders_def)
  assume np: "normal_typed X np"
  show ins: "keeps.stays (policies_typed X) (insert_policy ldr np)"
    using np by (simp add: keeps.stays_def insert_policy_def policies_typed_def put_policies_def typed_row)
  have "list_all P (update_rows Q f rs)" if "list_all P rs" "\<And>r. P (f r)" for P Q and f :: "leader_policy_row \<Rightarrow> leader_policy_row" and rs
    using that by (induction rs) auto
  then have "keeps.stays (policies_typed X) (update_policies (\<lambda>r. lp_leader_id r = ldr) (\<lambda>_. policy_row_of ldr np))"
    using np by (simp add: keeps.stays_def sql_update_def policies_typed_def put_policies_def typed_row)
  with ins show "keeps.stays (policies_typed X) (update_policy_if_changed ldr np)"
    unfolding update_policy_if_changed_def by (intro keeps.stays_intros)
qed

lemma typed_leaders:
  "list_all (\<lambda>l. normal_typed X (nl_policy l)) ls \<Longrightarrow> keeps.stays (policies_typed X) (apply_leaders X clk ls)"
proof (induction ls)
  case Nil
  show ?case by (simp add: keeps.stays_basic)
next
  case (Cons l ls)
  have "keeps.stays (policies_typed X) (insert_leader mk)" for mk
    by (intro keeps.stays_insert) (simp add: policies_typed_def put_leaders_def)
  moreover have "normal_typed X (nl_policy l)" using Cons.prems by simp
  ultimately have "keeps.stays (policies_typed X) (apply_one_leader X clk l)"
    unfolding apply_one_leader_def by (intro keeps.stays_intros typed_frame)
  with Cons show ?case by (auto intro!: keeps.stays_intros)
qed

lemma typed_price_policy:
  assumes "snapshot_typed X p"
  shows "\<exists>pp. parse_price_policy X p d = (Inr pp, d) \<and> 0 < pp_tick_size pp \<and> 0 < pp_min_price pp \<and> pp_min_price pp < pp_max_price pp \<and>
    0 \<le> pp_tolerance_abs pp \<and> pp_tolerance_abs pp \<le> max_price_tolerance_abs"
proof -
  have dec: "\<exists>q. parse_dec X raw = Some q \<and> P q" if "dec_in X P raw" for P raw using that by (auto simp: dec_in_def split: option.splits)
  from assms dec obtain tick where tick: "parse_dec X (tick_size p) = Some tick" "0 < tick" unfolding snapshot_typed_def by blast
  from assms dec obtain lo where lo: "parse_dec X (min_price p) = Some lo" "0 < lo" "dec_in X (\<lambda>hi. lo < hi) (max_price p)"
    unfolding snapshot_typed_def by blast
  from dec [OF lo(3)] obtain hi where hi: "parse_dec X (max_price p) = Some hi" "lo < hi" by blast
  have "\<exists>tol. (case price_tolerance_abs p of None \<Rightarrow> ret 0 | Some raw \<Rightarrow> dec_of X ''leader_policy.price_tolerance_abs'' raw) d = (Inr tol, d) \<and>
      0 \<le> tol \<and> tol \<le> max_price_tolerance_abs"
  proof (cases "price_tolerance_abs p")
    case None
    then show ?thesis by (simp add: ret_def max_price_tolerance_abs_def)
  next
    case (Some raw)
    then have "dec_in X (\<lambda>q. 0 \<le> q \<and> q \<le> max_price_tolerance_abs) raw" using assms by (simp add: snapshot_typed_def)
    from dec [OF this] Some show ?thesis by (auto simp: act_simps)
  qed
  with tick lo hi show ?thesis by (auto simp: parse_price_policy_def and_then_def or_raise_def ret_def)
qed

lemma typed_same: "same_frame.stays m \<Longrightarrow> keeps.stays (policies_typed X) m"
  unfolding keeps.stays_def same_frame.stays_def config_same_def policies_typed_def by simp

lemma typed_checked:
  assumes "list_all (\<lambda>l. normal_typed X (nl_policy l)) (cc_leaders c)"
  shows "keeps.stays (policies_typed X) (transaction (apply_checked X clk c))"
proof -
  have miss: "keeps.stays (policies_typed X) (disable_missing seen rs)" for seen rs
    by (simp add: keeps.stays_def disable_missing_eq policies_typed_def put_leaders_def)
  show ?thesis unfolding apply_checked_def
    by (intro keeps.stays_intros typed_same [OF account_frame(1)] typed_same [OF account_frame(2)] typed_leaders [OF assms] miss)
qed

text \<open>
  C30.  The policies the engine reads are well typed.  If every stored policy is (every decimal column parses, the seconds
  and the tick are positive, the price band is not empty, the tolerances, the size ratio and the window of the budget lie
  in their ranges), they still are after a configuration was applied, whatever it says; and executing with any of them
  cannot fail to read its prices: the price policy parses, with a positive tick and a band that is not empty.
\<close>

theorem applied_policies_typed:
  assumes "dec_codec X" "reprint_codec X" "policies_typed X d" "apply_trading_config X clk config sig cap d = (r, d')"
  shows "policies_typed X d' \<and>
    list_all (\<lambda>row. \<exists>pp. parse_price_policy X (lp_policy row) d' = (Inr pp, d') \<and> 0 < pp_tick_size pp \<and> 0 < pp_min_price pp \<and>
      pp_min_price pp < pp_max_price pp \<and> 0 \<le> pp_tolerance_abs pp \<and> pp_tolerance_abs pp \<le> max_price_tolerance_abs) (leader_policy d')"
proof -
  have "policies_typed X d'"
  proof (cases "fst (check_config X config sig cap d)")
    case (Inl e)
    obtain s1 where k: "check_config X config sig cap d = (Inl e, s1)" using Inl by (cases "check_config X config sig cap d") simp
    have "s1 = d" by (rule ro_state [OF ro_check_config k])
    with k have "d' = d" using assms(4) by (simp add: apply_trading_config_def and_then_def)
    with assms(3) show ?thesis by simp
  next
    case (Inr c)
    then obtain s1 where "check_config X config sig cap d = (Inr c, s1)" by (cases "check_config X config sig cap d") simp
    then have c: "check_config X config sig cap d = (Inr c, d)" by (rule state_free_result [OF free_check_config])
    from check_config_ok(6) [OF c] obtain s1 s2 :: db where n: "normalize_leaders X cap (tc_leaders config) s1 = (Inr (cc_leaders c), s2)"
      by blast
    note typed_checked [OF normalize_leaders_typed [OF assms(2,1) n]]
    moreover have "transaction (apply_checked X clk c) d = (r, d')"
      using assms(4) c by (simp add: apply_trading_config_def and_then_def)
    ultimately show ?thesis using keepsD [of "policies_typed X"] assms(3) by blast
  qed
  moreover from this have "list_all (\<lambda>row. \<exists>pp. parse_price_policy X (lp_policy row) d' = (Inr pp, d') \<and> 0 < pp_tick_size pp \<and> 0 < pp_min_price pp \<and>
      pp_min_price pp < pp_max_price pp \<and> 0 \<le> pp_tolerance_abs pp \<and> pp_tolerance_abs pp \<le> max_price_tolerance_abs) (leader_policy d')"
    unfolding policies_typed_def by (rule list.pred_mono_strong) (unfold policy_typed_def, elim conjE, erule typed_price_policy)
  ultimately show ?thesis ..
qed

lemma typed0: "policies_typed ext0 db0"
  by (simp add: policies_typed_def policy_typed_def snapshot_typed_def budget_typed_def dec_in_def db0_def policy0_def)

theorem applied_policies_typed_witness:
  "\<exists>s d'. apply_trading_config ext0 (\<lambda>_. 0) trading_config0 signer0 1 db0 = (Inr s, d') \<and> policies_typed ext0 d' \<and> length (leader_policy d') = 2"
proof -
  obtain s where s: "apply_trading_config ext0 (\<lambda>_. 0) trading_config0 signer0 1 db0 = (Inr s, db0_applied)" using applied0 ..
  have "length (leader_policy db0_applied) = 2" by (simp add: db0_applied_def db0_def)
  with applied_policies_typed [OF ext0_dec_codec ext0_reprint_codec typed0 s] s show ?thesis by blast
qed

section \<open>Applying twice\<close>

definition config_only :: "db \<Rightarrow> db \<Rightarrow> bool" where
  "config_only d d' \<longleftrightarrow> d'\<lparr>leader_config := leader_config d, wallet_aliases := wallet_aliases d, leader_policy := leader_policy d\<rparr> = d"

interpretation config_frame: frame_rel config_only
proof
  fix d d' d'' :: db
  show "config_only d d" by (simp add: config_only_def)
  show "config_only d d' \<Longrightarrow> config_only d' d'' \<Longrightarrow> config_only d d''"
    by (cases d; cases d'; cases d'') (simp add: config_only_def)
qed

lemma config_only_tables:
  "config_only d d' \<Longrightarrow> accounts d' = accounts d" "config_only d d' \<Longrightarrow> execution_schedule d' = execution_schedule d"
  by (cases d; cases d'; simp add: config_only_def)+

lemma leaders_frame: "config_frame.stays (apply_leaders X clk ls)"
proof -
  have book: "config_frame.stays m" if "book_frame.stays ldr m" for m :: "(config_error, 'a) db_act" and ldr
    unfolding config_frame.stays_def
  proof
    fix d
    have "book_change ldr d (snd (m d))" using that by (simp add: book_frame.stays_def)
    then show "config_only d (snd (m d))" by (cases d; cases "snd (m d)") (simp add: book_change_def config_only_def)
  qed
  have ins: "config_frame.stays (insert_leader mk)" for mk
    by (intro config_frame.stays_insert) (simp add: config_only_def put_leaders_def)
  have sw: "config_frame.stays (set_leader b i)" for b i
    by (simp add: config_frame.stays_def set_leader_effect config_only_def put_leaders_def)
  have pol: "config_frame.stays (insert_policy i np)" "config_frame.stays (update_policies P f)" for i np P f
    by (simp_all add: config_frame.stays_def insert_policy_def sql_update_def config_only_def put_policies_def)
  have upd: "config_frame.stays (update_policy_if_changed i np)" for i np
    unfolding update_policy_if_changed_def by (intro config_frame.stays_intros pol)
  have rec: "config_frame.stays (reconcile_aliases i as)" for i as
    unfolding reconcile_aliases_def by (intro config_frame.stays_intros book [OF book_change_loops(2)] book [OF book_change_loops(3)])
  have "config_frame.stays (apply_one_leader X clk l)" for l
    unfolding apply_one_leader_def by (intro config_frame.stays_intros ins sw pol upd rec book [OF book_change_loops(1)])
  then show ?thesis by (induction ls) (auto intro!: config_frame.stays_intros)
qed

lemma reconcile_aliases_noop:
  assumes "config_tables_ok d" "address_book ldr d = set as"
  shows "reconcile_aliases ldr as d = (Inr (0, 0), d)"
proof -
  let ?ex = "map (\<lambda>r. (wa_address r, wa_enabled r)) (filter (\<lambda>r. wa_leader_id r = ldr) (wallet_aliases d))"
  have "distinct (map fst ?ex)"
  proof -
    have "distinct (map (\<lambda>r. (wa_leader_id r, wa_address r)) (filter (\<lambda>r. wa_leader_id r = ldr) (wallet_aliases d)))"
      using assms(1) by (simp add: config_tables_ok_def alias_pairs_def distinct_map_filter)
    then show ?thesis by (auto simp: distinct_map inj_on_def comp_def)
  qed
  then have found: "find_row (\<lambda>e. fst e = a) ?ex = Some (a, b)" if "(a, b) \<in> set ?ex" for a b
    using find_row_unique [of fst ?ex "(a, b)" a] that by simp
  have listed: "(a, True) \<in> set ?ex" if "a \<in> set as" for a using assms(2) that by (auto simp: address_book_def image_iff)
  have 1: "enable_listed ldr ?ex bs d = (Inr 0, d)" if "set bs \<subseteq> set as" for bs
    using that by (induction bs) (auto simp: ret_def found [OF listed])
  have "disable_unlisted ldr as es d = (Inr 0, d)" if "\<forall>(a, b) \<in> set es. b \<longrightarrow> a \<in> set as" for es
    using that by (induction es) (auto simp: ret_def)
  moreover have "\<forall>(a, b) \<in> set ?ex. b \<longrightarrow> a \<in> set as" using assms(2) by (auto simp: address_book_def)
  ultimately have 2: "disable_unlisted ldr as ?ex d = (Inr 0, d)" by blast
  show ?thesis using 1 [of as] 2 by (simp add: reconcile_aliases_def and_then_def reads_def ret_def)
qed

lemma apply_one_leader_noop:
  assumes "config_tables_ok d" "leader_as l d"
  shows "\<exists>s. apply_one_leader X clk l d = (Inr s, d) \<and> ls_change s = Unchanged"
proof -
  from assms(2) obtain lc where lc: "leader_named (nl_label l) d = Some lc" "lc_enabled lc = nl_enabled l"
    "address_book (lc_id lc) d = set (nl_addresses l)" "policy_of (lc_id lc) d = Some (policy_row_of (lc_id lc) (nl_policy l))"
    by (auto simp: leader_as_def)
  have "update_policy_if_changed (lc_id lc) (nl_policy l) d = (Inr False, d)"
    by (simp add: update_policy_if_changed_def and_then_def reads_def lc(4) ret_def)
  then show ?thesis
    by (simp add: apply_one_leader_def and_then_def reads_def lc(1,2) Let_def ret_def reconcile_aliases_noop [OF assms(1) lc(3)])
qed

lemma apply_leaders_noop:
  "config_tables_ok d \<Longrightarrow> list_all (\<lambda>l. leader_as l d) ls \<Longrightarrow>
     \<exists>ss. apply_leaders X clk ls d = (Inr ss, d) \<and> list_all (\<lambda>s. ls_change s = Unchanged) ss"
proof (induction ls)
  case Nil
  show ?case by (simp add: ret_def)
next
  case (Cons l ls)
  then obtain ss where "apply_leaders X clk ls d = (Inr ss, d)" "list_all (\<lambda>s. ls_change s = Unchanged) ss" by auto
  moreover from Cons.prems obtain s where "apply_one_leader X clk l d = (Inr s, d)" "ls_change s = Unchanged"
    using apply_one_leader_noop by fastforce
  ultimately show ?case by (simp add: and_then_def ret_def)
qed

lemma disable_missing_noop:
  assumes "enabled_labels d \<subseteq> seen"
  shows "disable_missing seen (leader_config d) d = (Inr (map missing_summary (filter (\<lambda>r. lc_label r \<notin> seen) (leader_config d))), d)"
    "list_all (\<lambda>s. ls_change s = Unchanged) (map missing_summary (filter (\<lambda>r. lc_label r \<notin> seen) (leader_config d)))"
proof -
  have off: "\<not> lc_enabled r" if "r \<in> set (leader_config d)" "lc_label r \<notin> seen" for r
    using assms that by (auto simp: enabled_labels_def)
  then have "missing_of seen (leader_config d) = (\<lambda>_. False)" by (intro ext) (auto simp: missing_of_def)
  moreover have "update_rows (\<lambda>_. False) f rs = rs" for f and rs :: "leader_config_row list" by (induction rs) auto
  ultimately have "switch_off (missing_of seen (leader_config d)) d = d" by (simp add: put_leaders_def)
  then show "disable_missing seen (leader_config d) d = (Inr (map missing_summary (filter (\<lambda>r. lc_label r \<notin> seen) (leader_config d))), d)"
    by (simp add: disable_missing_eq)
  show "list_all (\<lambda>s. ls_change s = Unchanged) (map missing_summary (filter (\<lambda>r. lc_label r \<notin> seen) (leader_config d)))"
    using off by (auto simp: list_all_iff missing_summary_def)
qed

lemma apply_account_settles:
  assumes "apply_account l sg f st d = (Inr ac, d')"
  shows "\<exists>a. find_row (\<lambda>r. acc_label r = l) (accounts d') = Some a \<and> acc_signing_address a = sg \<and> acc_funder_address a = f \<and> acc_signature_type a = st"
proof (cases "find_row (\<lambda>r. acc_label r = l) (accounts d)")
  case None
  then show ?thesis using assms
    by (auto simp: apply_account_def act_ok accts.insert_ok find_row_append split: option.splits)
next
  case (Some a)
  let ?f = "\<lambda>r. r\<lparr>acc_signing_address := sg, acc_funder_address := f, acc_signature_type := st\<rparr>"
  show ?thesis
  proof (cases "acc_signing_address a = sg \<and> acc_funder_address a = f \<and> acc_signature_type a = st")
    case True
    then have "d' = d" using assms Some by (simp add: apply_account_def act_ok)
    with True Some show ?thesis by simp
  next
    case False
    then have "d' = put_accounts (update_rows (\<lambda>r. acc_id r = acc_id a) ?f (accounts d)) d"
      using assms Some by (auto simp: apply_account_def act_ok accts.update_ok raise_def split: if_splits)
    moreover have "find_row (\<lambda>r. acc_label r = l) (update_rows (\<lambda>r. acc_id r = acc_id a) ?f (accounts d)) = Some (?f a)"
      using Some find_row_update [of acc_label ?f l "\<lambda>r. acc_id r = acc_id a" "accounts d"] by simp
    ultimately show ?thesis by (simp add: put_accounts_def)
  qed
qed


lemma apply_account_noop:
  assumes "find_row (\<lambda>r. acc_label r = l) (accounts d) = Some a" "acc_signing_address a = sg" "acc_funder_address a = f" "acc_signature_type a = st"
  shows "apply_account l sg f st d = (Inr (acc_id a, Unchanged), d)"
  using assms by (simp add: apply_account_def and_then_def reads_def ret_def)

lemma apply_checked_account:
  assumes "apply_checked X clk c d = (Inr s, d')"
  obtains ac d0 where "apply_account (cc_label c) (cc_signing c) (cc_funder c) (cc_signature_type c) d = (Inr ac, d0)"
    "accounts d' = accounts d0" "execution_schedule d' \<noteq> None"
proof -
  from assms obtain ac d0 d1 ss d2 ms where s: "apply_account (cc_label c) (cc_signing c) (cc_funder c) (cc_signature_type c) d = (Inr ac, d0)"
    "ensure_schedule d0 = (Inr (), d1)" "apply_leaders X clk (cc_leaders c) d1 = (Inr ss, d2)"
    "disable_missing (cc_seen c) (leader_config d2) d2 = (Inr ms, d')"
    unfolding apply_checked_def by (auto simp: act_ok split_beta)
  have d1: "accounts d1 = accounts d0" "execution_schedule d1 \<noteq> None" using s(2) by (auto simp: ensure_schedule_def modifies_def)
  have "config_only d1 d2" by (rule config_frame.staysD [OF leaders_frame s(3)])
  then have d2: "accounts d2 = accounts d0" "execution_schedule d2 \<noteq> None" using d1 by (simp_all add: config_only_tables)
  have d': "accounts d' = accounts d0" "execution_schedule d' \<noteq> None" using s(4) d2 by (auto simp: disable_missing_eq put_leaders_def)
  show thesis by (rule that [OF s(1) d'])
qed

lemma apply_checked_settles:
  assumes "apply_checked X clk c d = (Inr s, d')"
  shows "execution_schedule d' \<noteq> None"
    "\<exists>a. find_row (\<lambda>r. acc_label r = cc_label c) (accounts d') = Some a \<and> acc_signing_address a = cc_signing c \<and>
       acc_funder_address a = cc_funder c \<and> acc_signature_type a = cc_signature_type c"
proof -
  from assms obtain ac d0 where s: "apply_account (cc_label c) (cc_signing c) (cc_funder c) (cc_signature_type c) d = (Inr ac, d0)"
    "accounts d' = accounts d0" "execution_schedule d' \<noteq> None" by (rule apply_checked_account)
  then show "execution_schedule d' \<noteq> None" by blast
  show "\<exists>a. find_row (\<lambda>r. acc_label r = cc_label c) (accounts d') = Some a \<and> acc_signing_address a = cc_signing c \<and>
       acc_funder_address a = cc_funder c \<and> acc_signature_type a = cc_signature_type c"
    using apply_account_settles [OF s(1)] by (simp add: s(2))
qed

text \<open>
  Applying a configuration twice is applying it once: after a run that returned, a second run with the same
  configuration, at any later time, returns, reports no change of the account nor of any leader, and leaves the database
  exactly as it is.
\<close>

theorem apply_idempotent:
  assumes "config_tables_ok d" "apply_trading_config X clk config sig cap d = (Inr s, d')"
  shows "\<exists>s'. apply_trading_config X clk' config sig cap d' = (Inr s', d') \<and> cs_account_change s' = Unchanged \<and>
    list_all (\<lambda>l. ls_change l = Unchanged) (cs_leaders s')"
proof -
  from assms(2) obtain c d0 where c: "check_config X config sig cap d = (Inr c, d0)" "apply_checked X clk c d0 = (Inr s, d')"
    by (auto simp: apply_trading_config_def act_ok transaction_ok)
  note k = check_config_ok [OF c(1)]
  have run: "apply_checked X clk c d = (Inr s, d')" using c(2) k(1) by simp
  have m: "config_tables_ok d'" "list_all (\<lambda>l. leader_as l d') (cc_leaders c)" "enabled_labels d' = nl_label ` switched_on c"
    using apply_checked_matches [OF assms(1) k(3,4) run] by (simp_all add: matches_config_def)
  from apply_checked_settles(2) [OF run] obtain a where a: "find_row (\<lambda>r. acc_label r = cc_label c) (accounts d') = Some a"
    "acc_signing_address a = cc_signing c" "acc_funder_address a = cc_funder c" "acc_signature_type a = cc_signature_type c" by blast
  note 1 = apply_account_noop [OF a]
  have 2: "ensure_schedule d' = (Inr (), d')" using apply_checked_settles(1) [OF run] by (simp add: ensure_schedule_def modifies_def)
  from apply_leaders_noop [OF m(1,2)] obtain ss where 3: "apply_leaders X clk' (cc_leaders c) d' = (Inr ss, d')"
    "list_all (\<lambda>l. ls_change l = Unchanged) ss" by blast
  have "enabled_labels d' \<subseteq> cc_seen c" using m(3) k(4) by (auto simp: switched_on_def)
  note 4 = disable_missing_noop [OF this]
  have "\<exists>s'. apply_checked X clk' c d' = (Inr s', d') \<and> cs_account_change s' = Unchanged \<and> list_all (\<lambda>l. ls_change l = Unchanged) (cs_leaders s')"
    using 4(2) 3(2) by (simp add: apply_checked_def and_then_def reads_def ret_def 1 2 3(1) 4(1))
  moreover have "check_config X config sig cap d' = (Inr c, d')"
    by (rule state_free_result [OF free_check_config c(1)])
  ultimately show ?thesis by (auto simp: apply_trading_config_def and_then_def transaction_def)
qed


theorem apply_idempotent_witness:
  "\<exists>s. apply_trading_config ext0 (\<lambda>_. 7) trading_config0 signer0 1 db0_applied = (Inr s, db0_applied) \<and> cs_account_change s = Unchanged"
proof -
  obtain s where "apply_trading_config ext0 (\<lambda>_. 0) trading_config0 signer0 1 db0 = (Inr s, db0_applied)" using applied0 ..
  from apply_idempotent [OF config_tables0 this, of "\<lambda>_. 7"] show ?thesis by blast
qed

section \<open>The account\<close>

lemma apply_account_keeps_busy:
  assumes "a \<in> set (accounts d)" "0 < work_count (acc_id a) d" "apply_account l sg f st d = (r, d')"
  shows "a \<in> set (accounts d')"
proof (cases "find_row (\<lambda>r. acc_label r = l) (accounts d)")
  case None
  then show ?thesis using assms(1,3)
    by (auto simp: apply_account_def and_then_def reads_def ret_def sql_insert_def Let_def put_accounts_def)
next
  case (Some b)
  have b: "b \<in> set (accounts d)" using find_row_Some [OF Some] by simp
  consider "d' = d" | "work_count (acc_id b) d = 0" "accounts d' = update_rows (\<lambda>r. acc_id r = acc_id b)
      (\<lambda>r. r\<lparr>acc_signing_address := sg, acc_funder_address := f, acc_signature_type := st\<rparr>) (accounts d)"
    using assms(3) Some by (auto simp: apply_account_def and_then_def reads_def ret_def raise_def sql_update_def put_accounts_def split: if_splits)
  then show ?thesis
  proof cases
    case 1
    with assms(1) show ?thesis by simp
  next
    case 2
    then have "acc_id a \<noteq> acc_id b" using assms(2) by auto
    with assms(1) show ?thesis unfolding 2(2) update_rows_def by (force simp: image_iff)
  qed
qed

lemma apply_account_locked:
  assumes "find_row (\<lambda>r. acc_label r = l) (accounts d) = Some a" "0 < work_count (acc_id a) d"
    "(sg, f, st) \<noteq> (acc_signing_address a, acc_funder_address a, acc_signature_type a)"
  shows "apply_account l sg f st d = (Inl AccountIdentityLocked, d)"
  using assms by (auto simp: apply_account_def and_then_def reads_def raise_def)

text \<open>
  The wallet of an account that has worked is never changed: whatever the configuration says and however the run
  ends, an account with intents, cases or lots on record is stored as before; and a configuration that names it with
  another signer, funder or signature type is refused as a whole, with the error that says so.
\<close>

theorem worked_account_locked:
  assumes "a \<in> set (accounts d)" "0 < work_count (acc_id a) d" "apply_trading_config X clk config sig cap d = (r, d')"
  shows "a \<in> set (accounts d') \<and>
    (\<forall>c. check_config X config sig cap d = (Inr c, d) \<and> find_row (\<lambda>r. acc_label r = cc_label c) (accounts d) = Some a \<and>
      (cc_signing c, cc_funder c, cc_signature_type c) \<noteq> (acc_signing_address a, acc_funder_address a, acc_signature_type a) \<longrightarrow>
      r = Inl AccountIdentityLocked \<and> d' = d)"
proof (intro conjI allI impI)
  show "a \<in> set (accounts d')"
  proof (cases r)
    case (Inl e)
    with assms(1,3) apply_error_unchanged show ?thesis by blast
  next
    case (Inr s)
    from assms(3) obtain c d0 where c: "check_config X config sig cap d = (Inr c, d0)" "apply_checked X clk c d0 = (Inr s, d')"
      by (auto simp: Inr apply_trading_config_def act_ok transaction_ok)
    have "apply_checked X clk c d = (Inr s, d')" using c check_config_ok(1) [OF c(1)] by simp
    then obtain ac d1 where "apply_account (cc_label c) (cc_signing c) (cc_funder c) (cc_signature_type c) d = (Inr ac, d1)" "accounts d' = accounts d1"
      by (rule apply_checked_account)
    with apply_account_keeps_busy [OF assms(1,2)] show ?thesis by metis
  qed
next
  fix c
  assume c: "check_config X config sig cap d = (Inr c, d) \<and> find_row (\<lambda>r. acc_label r = cc_label c) (accounts d) = Some a \<and>
      (cc_signing c, cc_funder c, cc_signature_type c) \<noteq> (acc_signing_address a, acc_funder_address a, acc_signature_type a)"
  then have "apply_account (cc_label c) (cc_signing c) (cc_funder c) (cc_signature_type c) d = (Inl AccountIdentityLocked, d)"
    by (intro apply_account_locked [OF _ assms(2)]) simp_all
  then have "apply_trading_config X clk config sig cap d = (Inl AccountIdentityLocked, d)"
    using c by (simp add: apply_trading_config_def and_then_def transaction_def apply_checked_def)
  with assms(3) show "r = Inl AccountIdentityLocked" "d' = d" by simp_all
qed

theorem worked_account_locked_witness:
  "fst (apply_trading_config ext0 (\<lambda>_. 0) trading_config0 signer0 1 db1) = Inl AccountIdentityLocked \<and>
    accounts db1 \<noteq> [] \<and> work_count 1 db1 = 1"
proof -
  obtain r d' where run: "apply_trading_config ext0 (\<lambda>_. 0) trading_config0 signer0 1 db1 = (r, d')" by (rule prod.exhaust)
  let ?a = "hd (accounts db1)"
  have w: "work_count 1 db1 = 1" by (simp add: work_count_def db1_def db0_def intent0_def)
  have a: "accounts db1 = [?a]" "acc_id ?a = 1" "acc_label ?a = ''main''" "acc_signing_address ?a = ''0x5''"
    by (simp_all add: db1_def db0_def)
  have "find_row (\<lambda>r. acc_label r = cc_label checked0) (accounts db1) = Some ?a" using a by (simp add: checked0_def db1_def db0_def)
  moreover have "cc_signing checked0 \<noteq> acc_signing_address ?a" using a(4) by (simp add: checked0_def signer0_def numeral_eq_Suc)
  moreover have "?a \<in> set (accounts db1)" "0 < work_count (acc_id ?a) db1" using a w by (metis list.set_intros(1), simp)
  note worked_account_locked [OF this run]
  ultimately have "r = Inl AccountIdentityLocked" using checked0 [of db1] by blast
  with run w a(1) show ?thesis by (metis fst_conv list.distinct(1))
qed

text \<open>
  A new leader cannot take an address that another one, even one the configuration drops, still has enabled: the
  addresses of a leader that is switched off stay enabled.
\<close>

lemma new_alias_taken:
  assumes "r \<in> set (wallet_aliases d)" "wa_enabled r" "wa_address r = a"
  shows "\<exists>e d'. new_alias ldr a d = (Inl (CfgDatabase e), d')"
proof -
  have "\<not> unique_enabled_address (put_aliases (wallet_aliases d @ [\<lparr>wa_id = i, wa_leader_id = ldr, wa_address = a, wa_enabled = True\<rparr>]) d)" for i
    using assms by (force simp: unique_enabled_address_def put_aliases_def)
  then show ?thesis by (simp add: new_alias_def alias_stmt_def and_then_def reads_def sql_insert_def Let_def raise_def)
qed

lemma new_alias_raises: "raises (\<lambda>e. \<exists>m. e = CfgDatabase m) (new_alias ldr a)"
  unfolding new_alias_def alias_stmt_def by (intro raises_intros) simp

lemma add_aliases_taken:
  assumes "r \<in> set (wallet_aliases d)" "wa_enabled r" "wa_address r \<in> set as"
  shows "\<exists>e d'. add_aliases ldr as d = (Inl (CfgDatabase e), d')"
  using assms
proof (induction as arbitrary: d)
  case (Cons a as)
  show ?case
  proof (cases "fst (new_alias ldr a d)")
    case (Inl e)
    then obtain d1 where "new_alias ldr a d = (Inl e, d1)" by (cases "new_alias ldr a d") simp
    moreover from raisesD [OF new_alias_raises this] obtain m where "e = CfgDatabase m" ..
    ultimately show ?thesis by (simp add: and_then_def)
  next
    case (Inr u)
    then obtain d1 where s: "new_alias ldr a d = (Inr (), d1)" by (cases "new_alias ldr a d") auto
    then have "d1 = put_aliases (wallet_aliases d @ [\<lparr>wa_id = next_id wa_id (wallet_aliases d), wa_leader_id = ldr, wa_address = a, wa_enabled = True\<rparr>]) d"
      unfolding new_alias_ok by blast
    then have "set (wallet_aliases d) \<subseteq> set (wallet_aliases d1)" by (auto simp: put_aliases_def)
    moreover have "wa_address r \<noteq> a"
    proof
      assume "wa_address r = a"
      from new_alias_taken [OF Cons.prems(1,2) this, of ldr] s show False by simp
    qed
    ultimately have "r \<in> set (wallet_aliases d1)" "wa_address r \<in> set as" using Cons.prems by auto
    from Cons.IH [OF this(1) Cons.prems(2) this(2)] show ?thesis by (simp add: and_then_def s)
  qed
qed simp

theorem renamed_leader_refused:
  assumes "check_config X config sig cap d = (Inr c, d)" "cc_leaders c = [l]" "leader_named (nl_label l) d = None"
    "r \<in> set (wallet_aliases d)" "wa_enabled r" "wa_address r \<in> set (nl_addresses l)"
  shows "\<exists>e. apply_trading_config X clk config sig cap d = (Inl e, d)"
proof -
  obtain res d' where run: "apply_trading_config X clk config sig cap d = (res, d')" by (rule prod.exhaust)
  have False if "res = Inr s" for s
  proof -
    have "apply_checked X clk c d = (Inr s, d')" using run assms(1) that by (simp add: apply_trading_config_def and_then_def transaction_ok)
    then obtain d1 d2 ss where s: "config_same d d1" "apply_leaders X clk (cc_leaders c) d1 = (Inr ss, d2)" by (rule apply_checked_split)
    let ?mk = "\<lambda>i. \<lparr>lc_id = i, lc_label = nl_label l, lc_enabled = nl_enabled l, lc_activation_at = Some (show_time X (clk (nl_label l)))\<rparr>"
    have none: "leader_named (nl_label l) d1 = None" using assms(3) config_same_facts(2) [OF s(1)] by simp
    from s(2) obtain su d3 where "apply_one_leader X clk l d1 = (Inr su, d3)" by (auto simp: assms(2) act_ok)
    with none obtain i d4 d5 where i: "(insert_leader ?mk :: (config_error, int) db_act) d1 = (Inr i, d4)" "add_aliases i (nl_addresses l) d4 = (Inr (), d5)"
      by (auto simp: apply_one_leader_def act_ok)
    have "wallet_aliases d4 = wallet_aliases d" using i(1) s(1) by (auto simp: leaders.insert_ok put_leaders_def config_same_def)
    with add_aliases_taken [of r d4 "nl_addresses l" i] assms(4-6) i(2) show False by simp
  qed
  then obtain e where "res = Inl e" by (cases res) auto
  with run apply_error_unchanged show ?thesis by blast
qed

section \<open>What trading has recorded\<close>

text \<open>A configuration never touches the intents, the attempts, the lots, the cases or the budget.\<close>

definition trading_same :: "db \<Rightarrow> db \<Rightarrow> bool" where
  "trading_same d d' \<longleftrightarrow> copy_intents d' = copy_intents d \<and> order_attempts d' = order_attempts d \<and> position_lots d' = position_lots d \<and>
     reconciliation_cases d' = reconciliation_cases d \<and> budget_reservations d' = budget_reservations d \<and> market_locks d' = market_locks d"

interpretation trading_frame: frame_rel trading_same
  by unfold_locales (auto simp: trading_same_def)

lemma config_only_trading: "config_only d d' \<Longrightarrow> trading_same d d'"
  by (cases d; cases d') (simp add: config_only_def trading_same_def)

lemma apply_keeps_trading: "trading_frame.stays (apply_trading_config X clk config sig cap)"
proof -
  have account: "trading_frame.stays (apply_account l sg f st)" for l sg f st
    unfolding apply_account_def
    by (intro trading_frame.stays_intros trading_frame.stays_insert trading_frame.stays_update)
      (simp_all add: trading_same_def put_accounts_def)
  have schedule: "trading_frame.stays ensure_schedule"
    unfolding ensure_schedule_def by (intro trading_frame.stays_modifies) (simp add: trading_same_def)
  have leaders: "trading_frame.stays (apply_leaders X clk ls)" for ls
    using leaders_frame config_only_trading by (auto simp: trading_frame.stays_def config_frame.stays_def)
  have missing: "trading_frame.stays (disable_missing seen rs)" for seen rs
    by (simp add: trading_frame.stays_def disable_missing_eq trading_same_def put_leaders_def)
  have check: "trading_frame.stays (check_config X config sig cap)"
    using ro_check_config [of X config sig cap] unfolding trading_frame.stays_def ro.stays_def by (metis trading_frame.R_refl)
  show ?thesis
    unfolding apply_trading_config_def apply_checked_def
    by (intro trading_frame.stays_intros check account schedule leaders missing)
qed

end
