(* ===== verification/Engine.thy ===== *)
theory Engine
  imports Orchestrate Feeds Setup
begin

text \<open>
  The engine as a whole: runs of planning, execution, polling, cancellation, budget and fuse operations and
  operator recoveries over one database and one venue, in any order and for whatever the venue answers.
\<close>

section \<open>Steady actions\<close>

text \<open>
  A steady action adds no attempt and moves the existing ones forward; in particular a rejected attempt stays
  rejected.
\<close>

interpretation count: frame_rel "\<lambda>d d'. length (order_attempts d') = length (order_attempts d)"
  by unfold_locales auto

definition steady :: "db \<Rightarrow> db \<Rightarrow> bool" where
  "steady d d' \<longleftrightarrow> forward d d' \<and> length (order_attempts d') = length (order_attempts d)"

interpretation steady: frame_rel steady
  by unfold_locales (auto simp: steady_def fwd.R_refl intro: fwd.R_trans)

lemma steadyI: "fwd.stays m \<Longrightarrow> count.stays m \<Longrightarrow> steady.stays m"
  by (simp add: steady.stays_def steady_def fwd.stays_def count.stays_def)

lemma same_count: "same_attempts.stays m \<Longrightarrow> count.stays m"
  by (simp add: same_attempts.stays_def count.stays_def)

lemma count_update_attempts: "count.stays (update_attempts P f)"
  by (rule count.stays_update) (simp add: update_rows_def)

lemmas count_prims = count_update_attempts same_prims [THEN same_count]

lemma ro_count: "ro.stays m \<Longrightarrow> count.stays m"
  by (simp add: ro.stays_def count.stays_def)

lemma count_transaction_keeping: "count.stays m \<Longrightarrow> count.stays (transaction_keeping P m)"
  by (auto simp: count.stays_def transaction_keeping_def split: prod.splits sum.splits) (metis snd_conv)+

lemma count_case_steps:
  "count.stays (transition_attempt ready change refused i a)" "count.stays (needs_reconcile i)"
  "count.stays (park_attempt i a detail)" "count.stays (open_case_once acc tok i att ct detail)"
  "count.stays (open_reconciliation_case i att ct detail)" "count.stays (insert_linked_case acc tok i att ct detail)"
  unfolding transition_attempt_def needs_reconcile_def park_attempt_def open_case_once_def insert_linked_case_def
    open_reconciliation_case_def
  by (intro count.stays_intros count_prims reconcile_ro [THEN ro_count])+

lemma count_reconcile:
  "count.stays (mark_attempt_submitting X i a t)" "count.stays (mark_attempt_uncertain_after_submission_error i a detail)"
  "count.stays (mark_attempt_rejected i a detail)"
  "count.stays (open_local_submission_failure_case X clock i a detail)"
  "count.stays (mark_attempt_gtd_lookup_failed X i a detail)"
  "count.stays (recover_lost_submission_response X reader i a t')"
proof -
  have b: "count.stays (block_submission i a ct detail)" for ct detail
    unfolding block_submission_def by (intro count.stays_intros count_case_steps)
  show "count.stays (recover_lost_submission_response X reader i a t')"
    unfolding recover_lost_submission_response_def persist_recovered_order_id_def
    by (rule count.stays_handle)
      (auto intro!: count.stays_intros count.stays_handle b count_case_steps reconcile_ro(3) [THEN ro_count]
        split: trade_history_lookup.splits sum.splits)
qed (unfold mark_attempt_submitting_def mark_attempt_uncertain_after_submission_error_def mark_attempt_rejected_def
    open_local_submission_failure_case_def mark_attempt_gtd_lookup_failed_def release_pre_boundary_failure_with_conn_def,
  (intro count.stays_intros count_prims count_case_steps reconcile_ro [THEN ro_count])+)

lemma count_execute:
  "count.stays (finalize_receipt_with_conn X now i a receipt)" "count.stays (finalize_receipt X now i a receipt)"
  "count.stays (cancel_expired_intent i)" "count.stays (cancel_overdue_pre_submit_intent Y now acc i)"
  "count.stays (persistent_mark_submitting X config i a now)"
proof -
  have u: "count.stays (modifies (upsert_lot acc ldr tok q t))" for acc ldr tok q t
    by (rule count.stays_modifies) (simp add: upsert_lot_def split: option.splits)
  show f: "count.stays (finalize_receipt_with_conn X now i a receipt)"
    unfolding finalize_receipt_with_conn_def apply_lot_delta_def by (intro count.stays_intros count_prims u)
  show "count.stays (finalize_receipt X now i a receipt)"
    unfolding finalize_receipt_def finalize_receipt_transaction_def by (intro count.stays_intros count_prims f)
  have n: "count.stays (insert_new_reservation X a acc ldr amount now)" for acc ldr amount
    by (auto simp: count.stays_def insert_new_reservation_def sql_insert_def Let_def)
  show "count.stays (persistent_mark_submitting X config i a now)"
    unfolding persistent_mark_submitting_def reserve_budget_and_mark_submitting_def reserve_body_def check_deadline_def
    by (intro count.stays_intros count_transaction_keeping n count_prims rolling_ro [THEN ro_count])
qed (unfold cancel_overdue_pre_submit_intent_def cancel_expired_intent_def, (intro count.stays_intros count_prims)+)

lemma steady_orchestrator:
  "steady.stays (persist_expected_venue_order_id i a env)" "steady.stays (mark_attempt_accepted i a)"
  "steady.stays (ensure_gtd_order_id_before_submit Y i av)"
  unfolding persist_expected_venue_order_id_def mark_attempt_accepted_def ensure_gtd_order_id_before_submit_def
  by (rule steadyI; intro fwd.stays_intros fwd_prims count.stays_intros count_prims;
      auto simp: same_attempt_def may_follow_def stage_def split: attempt_status.splits)+

lemma steady_mark:
  "steady.stays (standard_marker X i a now)" "steady.stays (persistent_marker X config i a now)"
  unfolding standard_marker_def persistent_marker_def
  by (intro steady.stays_intros steadyI [OF mark_submitting.moves_forward count_reconcile(1)]
      steadyI [OF fwd_mark count_execute(5)])+

lemma same_steady: "same_attempts.stays m \<Longrightarrow> steady.stays m"
  by (intro steadyI same_fwd same_count)

lemma ro_steady: "ro.stays m \<Longrightarrow> steady.stays m"
  by (intro same_steady ro_same)

lemmas steady_operations = same_claim [THEN same_steady] same_size [THEN same_steady] same_reprice [THEN same_steady]
  same_close [THEN same_steady] steadyI [OF fwd_cancel(1) count_execute(3)] steadyI [OF fwd_finalize count_execute(2)]
  steadyI [OF mark_uncertain.moves_forward count_reconcile(2)] steadyI [OF mark_rejected.moves_forward count_reconcile(3)]
  steadyI [OF fwd_reconcile(3) count_reconcile(4)] steadyI [OF fwd_reconcile(4) count_reconcile(5)]
  steadyI [OF fwd_reconcile(5) count_reconcile(6)] steadyI [OF fwd_reconcile(2) count_case_steps(5)]
  steady_orchestrator orch_ro [THEN ro_steady] reconcile_ro(5) [THEN ro_steady]

section \<open>One live attempt per intent\<close>

text \<open>
  Of two attempts of one intent the earlier one is rejected; so at most one attempt of an intent is not.
\<close>

definition one_live :: "db \<Rightarrow> bool" where
  "one_live d \<longleftrightarrow> attempts.keyed d \<and>
     (\<forall>oa \<in> set (order_attempts d). \<forall>oa' \<in> set (order_attempts d).
        oa_intent_id oa = oa_intent_id oa' \<and> oa_id oa \<noteq> oa_id oa' \<longrightarrow>
          oa_attempt_number oa < oa_attempt_number oa' \<and> oa_status oa = ARejected \<or>
          oa_attempt_number oa' < oa_attempt_number oa \<and> oa_status oa' = ARejected)"

definition all_rejected :: "int \<Rightarrow> db \<Rightarrow> bool" where
  "all_rejected i d \<longleftrightarrow> (\<forall>oa \<in> set (order_attempts d). oa_intent_id oa = i \<longrightarrow> oa_status oa = ARejected)"

definition newest :: "int \<Rightarrow> int \<Rightarrow> db \<Rightarrow> bool" where
  "newest i a d \<longleftrightarrow> (\<exists>r \<in> set (order_attempts d). oa_id r = a \<and> oa_intent_id r = i \<and>
     (\<forall>oa \<in> set (order_attempts d). oa_intent_id oa = i \<longrightarrow> oa_attempt_number oa \<le> oa_attempt_number r))"

definition in_state :: "int \<Rightarrow> attempt_status \<Rightarrow> db \<Rightarrow> bool" where
  "in_state a st d \<longleftrightarrow> (\<forall>r \<in> set (order_attempts d). oa_id r = a \<longrightarrow> oa_status r = st)"

lemma may_follow_rejected: "may_follow ARejected t \<longleftrightarrow> t = ARejected"
  by (cases t) (auto simp: may_follow_def stage_def)

lemma steady_rows:
  assumes "steady d d'"
  shows "oa' \<in> set (order_attempts d') \<Longrightarrow> \<exists>oa \<in> set (order_attempts d). same_attempt oa oa'"
    and "map oa_id (order_attempts d') = map oa_id (order_attempts d)"
  using assms unfolding steady_def forward_def
  by (auto simp: in_set_conv_nth same_attempt_def intro!: nth_equalityI) (metis in_set_conv_nth)

lemma steady_one_live: "steady d d' \<Longrightarrow> one_live d \<Longrightarrow> one_live d'"
proof -
  assume s: "steady d d'" and l: "one_live d"
  have "attempts.keyed d'" using l steady_rows(2) [OF s] by (simp add: one_live_def attempts.keyed_def)
  moreover have "oa_attempt_number x < oa_attempt_number y \<and> oa_status x = ARejected \<or>
      oa_attempt_number y < oa_attempt_number x \<and> oa_status y = ARejected"
    if xy: "x \<in> set (order_attempts d')" "y \<in> set (order_attempts d')" "oa_intent_id x = oa_intent_id y" "oa_id x \<noteq> oa_id y" for x y
  proof -
    obtain x0 y0 where 0: "x0 \<in> set (order_attempts d)" "same_attempt x0 x" "y0 \<in> set (order_attempts d)" "same_attempt y0 y"
      using steady_rows(1) [OF s xy(1)] steady_rows(1) [OF s xy(2)] by blast
    with l xy(3,4) have "oa_attempt_number x0 < oa_attempt_number y0 \<and> oa_status x0 = ARejected \<or>
        oa_attempt_number y0 < oa_attempt_number x0 \<and> oa_status y0 = ARejected"
      unfolding one_live_def same_attempt_def by metis
    with 0(2,4) show ?thesis by (auto simp: same_attempt_def may_follow_rejected)
  qed
  ultimately show ?thesis unfolding one_live_def by blast
qed

lemma steady_all_rejected: "steady d d' \<Longrightarrow> all_rejected i d \<Longrightarrow> all_rejected i d'"
  unfolding all_rejected_def using steady_rows(1) by (fastforce simp: same_attempt_def may_follow_rejected)

lemma steady_newest:
  assumes s: "steady d d'" and n: "newest i a d"
  shows "newest i a d'"
proof -
  from n obtain r where r: "r \<in> set (order_attempts d)" "oa_id r = a" "oa_intent_id r = i"
    "\<forall>oa \<in> set (order_attempts d). oa_intent_id oa = i \<longrightarrow> oa_attempt_number oa \<le> oa_attempt_number r"
    by (auto simp: newest_def)
  have "forward d d'" using s by (simp add: steady_def)
  then obtain r' where r': "r' \<in> set (order_attempts d')" "same_attempt r r'"
    using r(1) by (rule forward_attempt)
  have "oa_attempt_number oa \<le> oa_attempt_number r'" if "oa \<in> set (order_attempts d')" "oa_intent_id oa = i" for oa
    using steady_rows(1) [OF s that(1)] r(4) r'(2) that(2) by (auto simp: same_attempt_def)
  with r r' show ?thesis by (auto simp: newest_def same_attempt_def)
qed

lemma newest_rejected:
  assumes "one_live d" "newest i a d" "\<exists>r \<in> set (order_attempts d). oa_id r = a \<and> oa_status r = ARejected"
  shows "all_rejected i d"
proof -
  obtain r where r: "r \<in> set (order_attempts d)" "oa_id r = a" "oa_intent_id r = i"
    "\<forall>oa \<in> set (order_attempts d). oa_intent_id oa = i \<longrightarrow> oa_attempt_number oa \<le> oa_attempt_number r"
    using assms(2) by (auto simp: newest_def)
  have u: "x = r" if "x \<in> set (order_attempts d)" "oa_id x = a" for x
    using assms(1) r(1,2) that by (auto simp: one_live_def attempts.keyed_def distinct_map inj_on_def)
  then have "oa_status r = ARejected" using assms(3) by auto
  moreover have "oa_status oa = ARejected" if "oa \<in> set (order_attempts d)" "oa_intent_id oa = i" "oa_id oa \<noteq> a" for oa
    using assms(1) r that unfolding one_live_def by (metis linorder_not_less)
  ultimately show ?thesis using u by (auto simp: all_rejected_def)
qed

section \<open>A small program logic\<close>

text \<open>
  \<open>triple E P m Q\<close>: from a state with \<open>P\<close>, the action ends with \<open>E\<close> when it fails and with \<open>Q\<close> of its result
  when it succeeds.
\<close>

definition triple ::
  "('s \<Rightarrow> bool) \<Rightarrow> ('s \<Rightarrow> bool) \<Rightarrow> ('s, 'e, 'a) act \<Rightarrow> ('a \<Rightarrow> 's \<Rightarrow> bool) \<Rightarrow> bool" where
  "triple E P m Q \<longleftrightarrow> (\<forall>s. P s \<longrightarrow> (case m s of (Inl _, s') \<Rightarrow> E s' | (Inr x, s') \<Rightarrow> Q x s'))"

lemma triple_bind: "triple E P m Q \<Longrightarrow> (\<And>x. triple E (Q x) (k x) R) \<Longrightarrow> triple E P (and_then m k) R"
  unfolding triple_def and_then_def by (fastforce split: prod.splits sum.splits)

lemma triple_ret: "(\<And>s. P s \<Longrightarrow> Q x s) \<Longrightarrow> triple E P (ret x) Q"
  by (simp add: triple_def ret_def)

lemma triple_raise: "(\<And>s. P s \<Longrightarrow> E s) \<Longrightarrow> triple E P (raise e) Q"
  by (simp add: triple_def raise_def)

lemma triple_lift: "(\<And>s. P s \<Longrightarrow> E s) \<Longrightarrow> triple E P (lift_result r) (\<lambda>_. P)"
  by (cases r) (simp_all add: triple_def lift_result_def)

lemma triple_conseq: "triple E P m Q \<Longrightarrow> (\<And>s. P' s \<Longrightarrow> P s) \<Longrightarrow> (\<And>x s. Q x s \<Longrightarrow> Q' x s) \<Longrightarrow> triple E P' m Q'"
  unfolding triple_def by (fastforce split: prod.splits sum.splits)

lemma triple_if: "(b \<Longrightarrow> triple E P m Q) \<Longrightarrow> (\<not> b \<Longrightarrow> triple E P n Q) \<Longrightarrow> triple E P (if b then m else n) Q"
  by simp

lemma tripleD: "triple E P m Q \<Longrightarrow> P s \<Longrightarrow> (\<And>x s. Q x s \<Longrightarrow> E s) \<Longrightarrow> E (snd (m s))"
  unfolding triple_def by (fastforce split: prod.splits sum.splits)

section \<open>Calm calls of the orchestrator\<close>

interpretation calm: frame_rel "\<lambda>w w'. steady (w_db w) (w_db w')"
  by unfold_locales (auto simp: steady.R_refl intro: steady.R_trans)

lemma calm_on_db: "steady.stays m \<Longrightarrow> calm.stays (on_db wrap m)"
  by (auto simp: calm.stays_def on_db_def steady.stays_def split: prod.splits sum.splits) (metis snd_conv)+

lemma calm_post: "calm.stays (post_envelope execution i a env)"
  by (simp add: calm.stays_def post_envelope_def steady.R_refl)

lemmas calm_db = calm.stays_intros calm_on_db steady_operations

locale steady_marker =
  fixes mark :: marker
  assumes mark_steady: "steady.stays (mark i a now)"
begin

lemma calm_settle: "calm.stays (settle_submission X clk i v answer)"
  unfolding settle_submission_def
  by (cases answer rule: sum.exhaust; simp only: sum.case split: submit_error.splits)
    (auto intro!: calm_db split: submit_error.splits)

lemma calm_submit: "calm.stays (submit_prepared X execution mark clk i v now)"
proof -
  have m: "calm.stays (mark_and_submit X execution mark clk i v now)"
    unfolding mark_and_submit_def by (intro calm.stays_handle calm_db mark_steady calm_post calm_settle)
  show ?thesis unfolding submit_prepared_def by (intro calm.stays_handle calm_db m)
qed

lemma calm_load: "calm.stays (load_prepared X i missing)"
  unfolding load_prepared_def by (intro calm_db)

lemma calm_refuse: "calm.stays (refuse_maker_only i e expired rejected)"
  unfolding refuse_maker_only_def by (auto intro!: calm_db split: maker_only_error.splits)

lemma calm_reject: "calm.stays (reject_with i reason)"
  unfolding reject_with_def by (intro calm_db)

lemma calm_query:
  "calm.stays (query_first X execution history clk i v now)" "calm.stays (reconcile_or_finalize X execution clk i v)"
  unfolding query_first_def reconcile_or_finalize_def
  by (auto intro!: calm_db split: lost_submission_outcome.splits option.splits)

abbreviation live :: "world \<Rightarrow> bool" where
  "live w \<equiv> one_live (w_db w)"

abbreviation ready :: "int \<Rightarrow> world \<Rightarrow> bool" where
  "ready i w \<equiv> live w \<and> all_rejected i (w_db w)"

abbreviation latest :: "int \<Rightarrow> int \<Rightarrow> world \<Rightarrow> bool" where
  "latest i a w \<equiv> live w \<and> newest i a (w_db w)"

lemma calm_triple:
  assumes "calm.stays m" "\<And>w w'. steady (w_db w) (w_db w') \<Longrightarrow> P w \<Longrightarrow> P w'" "\<And>w. P w \<Longrightarrow> live w"
  shows "triple live P m (\<lambda>_. P)"
  unfolding triple_def
proof (intro allI impI)
  fix w assume p: "P w"
  obtain r w' where m: "m w = (r, w')" by fastforce
  from assms(2) [OF calm.staysD [OF assms(1) m] p] assms(3) [of w']
  show "case m w of (Inl _, s') \<Rightarrow> live s' | (Inr _, s') \<Rightarrow> P s'" by (simp add: m split: sum.splits)
qed

lemma calm_keeps:
  assumes "calm.stays m"
  shows "triple live live m (\<lambda>_. live)" "triple live (ready i) m (\<lambda>_. ready i)" "triple live (latest i a) m (\<lambda>_. latest i a)"
  by (rule calm_triple [OF assms]; auto intro: steady_one_live steady_all_rejected steady_newest)+

lemma calm_ends:
  assumes "calm.stays m"
  shows "triple live (ready i) m (\<lambda>_. live)" "triple live (latest i a) m (\<lambda>_. live)"
  by (rule triple_conseq [OF calm_keeps(1) [OF assms]]; simp)+

end

interpretation standard_steady: steady_marker "standard_marker X" for X
  by unfold_locales (rule steady_mark)

interpretation persistent_steady: steady_marker "persistent_marker X config" for X config
  by unfold_locales (rule steady_mark)

lemma latest_number_max:
  "latest_number i d = Some n \<Longrightarrow> oa \<in> set (order_attempts d) \<Longrightarrow> oa_intent_id oa = i \<Longrightarrow> oa_attempt_number oa \<le> n"
proof -
  assume n: "latest_number i d = Some n" and oa: "oa \<in> set (order_attempts d)" "oa_intent_id oa = i"
  let ?ns = "map oa_attempt_number (filter (\<lambda>r. oa_intent_id r = i) (order_attempts d))"
  have "oa_attempt_number oa \<in> set ?ns" using oa by auto
  moreover obtain m ms where ms: "?ns = m # ms" "n = fold max ms m" using n by (auto simp: latest_number_def split: list.splits)
  ultimately have "oa_attempt_number oa = m \<or> oa_attempt_number oa \<in> set ms" by simp
  with ms(2) fold_max_ge [of _ ms m] fold_max_acc [of m ms] show ?thesis by auto
qed

lemma latest_number_exists: "latest_number i d = Some n \<Longrightarrow> \<exists>r \<in> set (order_attempts d). oa_intent_id r = i \<and> oa_attempt_number r = n"
proof -
  assume n: "latest_number i d = Some n"
  let ?ns = "map oa_attempt_number (filter (\<lambda>r. oa_intent_id r = i) (order_attempts d))"
  obtain m ms where ms: "?ns = m # ms" "n = fold max ms m" using n by (auto simp: latest_number_def split: list.splits)
  have "fold max ms m \<in> insert m (set ms)"
  proof (induction ms arbitrary: m)
    case (Cons a ms)
    from Cons.IH [of "max a m"] show ?case by (auto simp: max_def split: if_splits)
  qed simp
  then have "n \<in> set ?ns" using ms by simp
  then show ?thesis by auto
qed

lemma latest_attempt_newest:
  "latest_attempt i d = Some r \<Longrightarrow> r \<in> set (order_attempts d) \<and> newest i (oa_id r) d"
  unfolding latest_attempt_def newest_def by (auto dest!: find_row_Some intro!: bexI [of _ r] dest: latest_number_max)

lemma latest_attempt_None: "latest_attempt i d = None \<Longrightarrow> all_rejected i d"
proof (cases "latest_number i d")
  case None
  then show ?thesis by (auto simp: latest_number_def all_rejected_def filter_empty_conv split: list.splits)
next
  case (Some n)
  moreover assume "latest_attempt i d = None"
  ultimately show ?thesis using latest_number_exists [OF Some] by (auto simp: latest_attempt_def find_row_None)
qed

lemma keyed_in_state:
  "attempts.keyed d \<Longrightarrow> r \<in> set (order_attempts d) \<Longrightarrow> in_state (oa_id r) (oa_status r) d"
  by (auto simp: in_state_def attempts.keyed_def distinct_map inj_on_def)

lemma prepare_one_live:
  assumes l: "one_live d" "all_rejected i d"
    and n: "\<And>oa. oa \<in> set (order_attempts d) \<Longrightarrow> oa_intent_id oa = i \<Longrightarrow> oa_attempt_number oa < n"
    and p: "load_or_prepare_attempt X c i n env d = (r, d')"
  shows "one_live d'"
proof -
  have "attempt_numbered i n d = None" using n by (auto simp: attempt_numbered_def find_row_None)
  then consider "d' = d" | json order_id where
    "d' = put_attempts (order_attempts d @ [prepared_row c i n json env order_id (next_id oa_id (order_attempts d))]) d"
  proof (cases r)
    case (Inl e)
    then have "d' = d" using p unfolding load_or_prepare_attempt_def by (auto dest: transaction_error)
    then show thesis by (rule that)
  next
    case (Inr x)
    assume "attempt_numbered i n d = None"
    with p Inr that show thesis
      by (auto simp: load_or_prepare_attempt_def act_ok insert_new_attempt_def sql_insert_def Let_def gtd_order_id_def
          split: if_splits)
  qed
  then show ?thesis
  proof cases
    case 2
    let ?new = "prepared_row c i n json env order_id (next_id oa_id (order_attempts d))"
    have new: "oa_id ?new = next_id oa_id (order_attempts d)" "oa_intent_id ?new = i" "oa_attempt_number ?new = n"
      by (simp_all add: prepared_row_def)
    have "attempts.keyed d'" unfolding 2
      using attempts.keyed_insert [of d "prepared_row c i n json env order_id"] l(1) new(1) by (simp add: one_live_def)
    moreover have "oa_attempt_number oa < oa_attempt_number ?new \<and> oa_status oa = ARejected"
      if "oa \<in> set (order_attempts d)" "oa_intent_id oa = i" for oa
      using l(2) n that by (simp add: new all_rejected_def)
    ultimately show ?thesis using l(1) unfolding one_live_def 2
      by (auto simp only: attempts.rows_put set_append list.set Un_iff insert_iff empty_iff new(2) ball_Un)
  qed (simp add: l)
qed

context steady_marker
begin

lemma persist_live: "triple live (ready i) (persist_next_attempt X c i env) (\<lambda>_. live)"
  unfolding triple_def
proof (intro allI impI)
  fix w assume r: "ready i w"
  let ?n = "(case map oa_attempt_number (filter (\<lambda>r. oa_intent_id r = i) (order_attempts (w_db w))) of
        [] \<Rightarrow> 0 | n # ns \<Rightarrow> fold max ns n) + 1"
  have "?n = (case latest_number i (w_db w) of None \<Rightarrow> 0 | Some n \<Rightarrow> n) + 1"
    by (simp add: latest_number_def split: list.splits)
  then have n: "oa_attempt_number oa < ?n" if "oa \<in> set (order_attempts (w_db w))" "oa_intent_id oa = i" for oa
    using latest_number_max [OF _ that] that
    by (cases "latest_number i (w_db w)") (force simp: latest_number_def filter_empty_conv split: list.splits)+
  obtain x d' where p: "load_or_prepare_attempt X c i ?n env (w_db w) = (x, d')" by fastforce
  have "one_live d'" by (rule prepare_one_live [OF _ _ n p]) (use r in auto)
  moreover have "snd (persist_next_attempt X c i env w) = w\<lparr>w_db := d'\<rparr>"
    by (simp add: persist_next_attempt_def next_attempt_number_def and_then_def on_db_def reads_def p ret_def split: sum.splits)
  ultimately show "case persist_next_attempt X c i env w of (Inl _, w') \<Rightarrow> live w' | (Inr _, w') \<Rightarrow> live w'"
    by (metis (no_types, lifting) case_prod_beta sum.case_eq_if world.select_convs(1) world.surjective world.update_convs(1))
qed

lemma load_latest_live:
  "triple live live (orc (load_latest_attempt X i)) (\<lambda>l w. live w \<and> (case l of None \<Rightarrow> all_rejected i (w_db w)
     | Some v \<Rightarrow> newest i (at_id v) (w_db w) \<and> in_state (at_id v) (at_status v) (w_db w)))"
  unfolding triple_def
proof (intro allI impI)
  fix w assume w: "live w"
  obtain l d where l: "load_latest_attempt X i (w_db w) = (l, d)" by fastforce
  have d: "d = w_db w" by (rule ro_state [OF orch_ro(2) l])
  have "case x of None \<Rightarrow> all_rejected i (w_db w)
     | Some v \<Rightarrow> newest i (at_id v) (w_db w) \<and> in_state (at_id v) (at_status v) (w_db w)" if "l = Inr x" for x
    using l [unfolded that d] w
    by (auto simp: load_latest_ok one_live_def latest_attempt_None split: option.splits
        dest: latest_attempt_newest intro: keyed_in_state [OF _ conjunct1 [OF latest_attempt_newest]])
  with w show "case orc (load_latest_attempt X i) w of (Inl _, s') \<Rightarrow> live s' | (Inr l, w) \<Rightarrow> live w \<and> (case l of None \<Rightarrow> all_rejected i (w_db w)
     | Some v \<Rightarrow> newest i (at_id v) (w_db w) \<and> in_state (at_id v) (at_status v) (w_db w))"
    by (simp add: on_db_def l d split: sum.splits)
qed

end

lemma triple_cases:
  "(x = None \<Longrightarrow> triple E P m Q) \<Longrightarrow> (\<And>y. x = Some y \<Longrightarrow> triple E P (k y) Q) \<Longrightarrow>
     triple E P (case x of None \<Rightarrow> m | Some y \<Rightarrow> k y) Q"
  "(\<And>e. z = Inl e \<Longrightarrow> triple E P (f e) Q) \<Longrightarrow> (\<And>y. z = Inr y \<Longrightarrow> triple E P (g y) Q) \<Longrightarrow>
     triple E P (case z of Inl e \<Rightarrow> f e | Inr y \<Rightarrow> g y) Q"
  "(\<And>a b. pr = (a, b) \<Longrightarrow> triple E P (h a b) Q) \<Longrightarrow> triple E P (case pr of (a, b) \<Rightarrow> h a b) Q"
  "(\<And>d. triple E P (f1 d) Q) \<Longrightarrow> (\<And>r. triple E P (f2 r) Q) \<Longrightarrow> triple E P f3 Q \<Longrightarrow> (\<And>r. triple E P (f4 r) Q) \<Longrightarrow>
     triple E P (case sized of Decision d \<Rightarrow> f1 d | SzNeedsReconcile r \<Rightarrow> f2 r | Expired \<Rightarrow> f3 | SzRejected r \<Rightarrow> f4 r) Q"
  by (simp_all split: option.split sum.split prod.split sizing_outcome.split)

context steady_marker
begin

lemma ready_bind:
  "calm.stays m \<Longrightarrow> (\<And>x. triple live (ready i) (k x) R) \<Longrightarrow> triple live (ready i) (and_then m k) R"
  by (rule triple_bind [OF calm_keeps(2)])

lemma latest_bind:
  "calm.stays m \<Longrightarrow> (\<And>x. triple live (latest i a) (k x) R) \<Longrightarrow> triple live (latest i a) (and_then m k) R"
  by (rule triple_bind [OF calm_keeps(3)])

lemma submit_tail:
  "triple live (ready i) (and_then (persist_next_attempt X c i env) (\<lambda>_.
     and_then (load_prepared X i missing) (\<lambda>v. submit_prepared X execution mark clk i v now))) (\<lambda>_. live)"
  by (rule triple_bind [OF persist_live], rule calm_keeps(1), intro calm_db calm_load calm_submit)

lemmas ready_rules = submit_tail triple_if triple_cases ready_bind calm_ends(1) calm_db calm_reject calm_refuse calm_load calm_submit

lemma fallback_live:
  "triple live (ready (cl_intent_id cl)) (submit_post_only_gtd_after_initial_no_fak X reader execution envelopes mark clk cl now) (\<lambda>_. live)"
  unfolding submit_post_only_gtd_after_initial_no_fak_def Let_def by (intro ready_rules)

lemma persist_tail: "calm.stays (k ()) \<Longrightarrow> triple live (ready i) (and_then (persist_next_attempt X c i env) k) (\<lambda>_. live)"
  by (rule triple_bind [OF persist_live], rule calm_keeps(1)) simp

lemma prepare_new_live:
  "triple live (ready (cl_intent_id cl)) (prepare_new_attempt X reader envelopes clk cl now) (\<lambda>_. live)"
  unfolding prepare_new_attempt_def Let_def
  by (intro persist_tail ready_rules)

text \<open>The fallback runs only when the newest attempt is the rejected one.\<close>

lemma explicit_ready:
  "triple live (latest i a) (orc (is_explicit_no_fak_rejection a)) (\<lambda>b. if b then ready i else live)"
  unfolding triple_def
proof (intro allI impI)
  fix w assume "latest i a w"
  then show "case orc (is_explicit_no_fak_rejection a) w of (Inl _, s') \<Rightarrow> live s' | (Inr b, s') \<Rightarrow> (if b then ready i else live) s'"
    using newest_rejected [of "w_db w" i a]
    by (auto simp: is_explicit_no_fak_rejection_def on_db_def reads_def list_ex_iff no_fak_rejected_def)
qed

lemma retry_live:
  "triple live (latest (cl_intent_id cl) (at_id v)) (maybe_retry_no_fak_once X reader execution envelopes mark clk cl v out now) (\<lambda>_. live)"
proof -
  let ?k = "and_then (orc (no_fak_rejection_count (cl_intent_id cl))) (\<lambda>no_match_count.
      if no_match_count = 1
      then submit_post_only_gtd_after_initial_no_fak X reader execution envelopes mark clk cl now
      else reject_with (cl_intent_id cl) ''unexpected repeated no-FAK rejection after maker fallback selection'')"
  have k: "triple live (ready (cl_intent_id cl)) ?k (\<lambda>_. live)" by (intro fallback_live ready_rules)
  have "triple live (if b then ready (cl_intent_id cl) else live) (if \<not> b then ret out else ?k) (\<lambda>_. live)" for b
    using k by (cases b) (simp_all add: triple_ret)
  from triple_bind [OF explicit_ready this] show ?thesis
    unfolding maybe_retry_no_fak_once_def by (intro triple_if triple_ret) simp_all
qed

lemma load_prepared_live: "triple live live (load_prepared X i missing) (\<lambda>v. latest i (at_id v))"
proof -
  have "triple live (\<lambda>w. live w \<and> (case l of None \<Rightarrow> all_rejected i (w_db w)
     | Some v \<Rightarrow> newest i (at_id v) (w_db w) \<and> in_state (at_id v) (at_status v) (w_db w)))
    (and_then (or_raise (EExecute (ExecDatabase missing)) l) (\<lambda>attempt.
     and_then (orc (persist_expected_venue_order_id i (at_id attempt) (at_envelope attempt))) (\<lambda>_. ret attempt)))
    (\<lambda>v. latest i (at_id v))" for l
  proof (cases l)
    case (Some v)
    have "triple live (latest i (at_id v)) (and_then (orc (persist_expected_venue_order_id i (at_id v) (at_envelope v))) (\<lambda>_. ret v))
        (\<lambda>v. latest i (at_id v))" by (rule latest_bind, intro calm_db) (simp add: triple_ret)
    then show ?thesis by (simp add: Some triple_def and_then_def or_raise_def)
  qed (simp add: triple_def and_then_def or_raise_def)
  from triple_bind [OF load_latest_live this] show ?thesis unfolding load_prepared_def .
qed

lemma start_live:
  "triple live (ready (cl_intent_id cl)) (start_first_attempt X reader execution envelopes mark clk cl now) (\<lambda>_. live)"
proof -
  let ?i = "cl_intent_id cl"
  have t: "triple live (ready ?i) (and_then (persist_next_attempt X c ?i env) (\<lambda>_.
      and_then (load_prepared X ?i missing) (\<lambda>attempt.
      and_then (submit_prepared X execution mark clk1 ?i attempt now) (\<lambda>outcome.
      maybe_retry_no_fak_once X reader execution envelopes mark clk2 cl attempt outcome now)))) (\<lambda>_. live)" for c env missing clk1 clk2
    by (rule triple_bind [OF persist_live], rule triple_bind [OF load_prepared_live], rule latest_bind, rule calm_submit, rule retry_live)
  show ?thesis unfolding start_first_attempt_def Let_def by (intro t ready_rules)
qed

end

lemma claim_intent_id: "claim_or_resume_intent X i d = (Inr (Some cl), d') \<Longrightarrow> cl_intent_id cl = i"
  by (auto simp: claim_or_resume_intent_def act_ok claimed_of_row_Inr split: option.splits if_splits)

context steady_marker
begin

abbreviation current :: "int \<Rightarrow> attempt_view \<Rightarrow> world \<Rightarrow> bool" where
  "current i v w \<equiv> latest i (at_id v) w \<and> in_state (at_id v) (at_status v) (w_db w)"

lemma ro_triple: "ro.stays m \<Longrightarrow> (\<And>w. P w \<Longrightarrow> live w) \<Longrightarrow> triple live P (on_db wrap m) (\<lambda>_. P)"
  by (auto simp: triple_def on_db_def ro.stays_def split: prod.splits sum.splits) (metis snd_conv world.surjective world.update_convs(1))+

text \<open>Closing an accepted GTD order is a forward step of its attempt.\<close>

lemma close_unfilled_live:
  assumes "one_live d" "in_state a st d" "st \<noteq> ARejected"
  shows "one_live (snd (close_unfilled_gtd i a d))"
proof -
  let ?f = "\<lambda>r. r\<lparr>oa_status := Finalized, oa_filled_qty := Some ''0'',
         oa_failure_detail := Some ''GTD expired or cancelled without a fill''\<rparr>"
  let ?rs = "update_rows (\<lambda>r. oa_id r = a \<and> oa_intent_id r = i) ?f (order_attempts d)"
  have keyed: "map oa_id ?rs = map oa_id (order_attempts d)" by (rule map_update_rows) simp
  have rows: "\<exists>x \<in> set (order_attempts d). oa_id x = oa_id y \<and> oa_intent_id x = oa_intent_id y \<and>
      oa_attempt_number x = oa_attempt_number y \<and> (oa_status x = ARejected \<longrightarrow> oa_status y = ARejected)" if "y \<in> set ?rs" for y
    using that assms(2,3) by (auto simp: set_update_rows in_state_def)
  have "oa_attempt_number x < oa_attempt_number y \<and> oa_status x = ARejected \<or>
      oa_attempt_number y < oa_attempt_number x \<and> oa_status y = ARejected"
    if "x \<in> set ?rs" "y \<in> set ?rs" "oa_intent_id x = oa_intent_id y" "oa_id x \<noteq> oa_id y" for x y
    using rows [OF that(1)] rows [OF that(2)] that(3,4) assms(1) unfolding one_live_def by metis
  then show ?thesis using assms(1) keyed by (simp add: one_live_def close_unfilled_eq attempts.keyed_def)
qed

lemma poll_live:
  assumes "at_status v = Accepted"
  shows "triple live (current i v) (poll_resting_gtd X execution clk i v now) (\<lambda>_. live)"
proof -
  have c: "triple live (current i v) m (\<lambda>_. live)" if "calm.stays m" for m :: "orchestrate_outcome orch"
    by (rule triple_conseq [OF calm_keeps(1) [OF that]]) simp_all
  have u: "steady.stays (update_attempts (\<lambda>r. oa_id r = at_id v \<and> oa_intent_id r = i) (\<lambda>r. r\<lparr>oa_filled_qty := Some q\<rparr>))" for q
    by (rule steadyI [OF fwd_update_attempts count_update_attempts]) (simp add: same_attempt_def)
  have "triple live (current i v) (and_then (orc (close_unfilled_gtd i (at_id v))) (\<lambda>_. ret OExpired)) (\<lambda>_. live)"
    using close_unfilled_live [where i = i and a = "at_id v"] assms
    by (auto simp: triple_def and_then_def on_db_def close_unfilled_eq ret_def)
  then show ?thesis
    unfolding poll_resting_gtd_def gtd_lookup_failed_def Let_def by (intro triple_if triple_cases) (assumption | rule c, intro calm_db u)+
qed

lemma walk_live:
  assumes i: "i = cl_intent_id cl"
  shows "triple live (current i v) (walk_existing_attempt X reader execution envelopes history mark clk cl v now) (\<lambda>_. live)"
proof (cases "en_order_type (at_envelope v) = ''GTD'' \<and> at_status v = Accepted")
  case True
  then show ?thesis using poll_live by (simp add: walk_existing_attempt_def i Let_def)
next
  case False
  let ?fresh = "and_then (orc (is_explicit_no_fak_rejection (at_id v))) (\<lambda>explicit.
         if explicit
         then maybe_retry_no_fak_once X reader execution envelopes mark (\<lambda>k. clk (10 + k)) cl v ORejected now
         else
           and_then (prepare_new_attempt X reader envelopes (\<lambda>k. clk (1 + k)) cl now) (\<lambda>prep. case prep of
             RExpired \<Rightarrow> ret OExpired
           | RRejected \<Rightarrow> ret ORejected
           | RPrepared \<Rightarrow>
               and_then (load_prepared X i ''missing attempt after retry prepare'') (\<lambda>attempt.
               submit_prepared X execution mark (\<lambda>k. clk (10 + k)) i attempt now)))"
  have new: "triple live (\<lambda>w. ready i w \<and> newest i (at_id v) (w_db w)) ?fresh (\<lambda>_. live)"
  proof (rule triple_bind [where Q = "\<lambda>_ w. ready i w \<and> newest i (at_id v) (w_db w)"], rule calm_triple, intro calm_db)
    fix explicit
    have n: "triple live (ready i) (and_then (prepare_new_attempt X reader envelopes (\<lambda>k. clk (1 + k)) cl now) (\<lambda>prep. case prep of
             RExpired \<Rightarrow> ret OExpired
           | RRejected \<Rightarrow> ret ORejected
           | RPrepared \<Rightarrow>
               and_then (load_prepared X i ''missing attempt after retry prepare'') (\<lambda>attempt.
               submit_prepared X execution mark (\<lambda>k. clk (10 + k)) i attempt now))) (\<lambda>_. live)"
      unfolding i
      by (rule triple_bind [OF prepare_new_live], rule calm_keeps(1))
        (auto split: retry_preparation.split intro!: calm_db calm_load calm_submit)
    show "triple live (\<lambda>w. ready i w \<and> newest i (at_id v) (w_db w)) (if explicit
         then maybe_retry_no_fak_once X reader execution envelopes mark (\<lambda>k. clk (10 + k)) cl v ORejected now
         else and_then (prepare_new_attempt X reader envelopes (\<lambda>k. clk (1 + k)) cl now) (\<lambda>prep. case prep of
             RExpired \<Rightarrow> ret OExpired
           | RRejected \<Rightarrow> ret ORejected
           | RPrepared \<Rightarrow>
               and_then (load_prepared X i ''missing attempt after retry prepare'') (\<lambda>attempt.
               submit_prepared X execution mark (\<lambda>k. clk (10 + k)) i attempt now))) (\<lambda>_. live)"
      by (rule triple_if; rule triple_conseq [OF retry_live [of cl v, folded i]] triple_conseq [OF n]; simp)
  qed (auto intro: steady_one_live steady_all_rejected steady_newest)
  have step: "triple live (current i v) (case action of
       MarkSubmittingThenSubmit \<Rightarrow>
         and_then (submit_prepared X execution mark (\<lambda>k. clk (1 + k)) i v now) (\<lambda>outcome.
         maybe_retry_no_fak_once X reader execution envelopes mark (\<lambda>k. clk (10 + k)) cl v outcome now)
     | QueryFirst \<Rightarrow> query_first X execution history (\<lambda>k. clk (1 + k)) i v now
     | ReconcileOrFinalize \<Rightarrow> reconcile_or_finalize X execution (\<lambda>k. clk (1 + k)) i v
     | MayPrepareNewAttempt \<Rightarrow> ?fresh
     | Blocked reason \<Rightarrow>
         and_then (recn (open_reconciliation_case i (Some (at_id v)) ''blocked_recovery'' reason)) (\<lambda>_.
         ret (OBlocked reason))) (\<lambda>_. live)"
    if "action = MayPrepareNewAttempt \<Longrightarrow> at_status v = ARejected" for action
  proof (cases action)
    case MarkSubmittingThenSubmit
    have t: "triple live (latest i (at_id v)) (and_then (submit_prepared X execution mark (\<lambda>k. clk (1 + k)) i v now) (\<lambda>outcome.
         maybe_retry_no_fak_once X reader execution envelopes mark (\<lambda>k. clk (10 + k)) cl v outcome now)) (\<lambda>_. live)"
      unfolding i by (rule latest_bind [OF calm_submit], rule retry_live)
    show ?thesis unfolding MarkSubmittingThenSubmit recovery_action.case by (rule triple_conseq [OF t]) simp_all
  next
    case MayPrepareNewAttempt
    have "ready i w \<and> newest i (at_id v) (w_db w)" if "current i v w" for w
      using that newest_rejected [of "w_db w" i "at_id v"] MayPrepareNewAttempt \<open>action = MayPrepareNewAttempt \<Longrightarrow> _\<close>
      by (auto simp: newest_def in_state_def)
    then show ?thesis unfolding MayPrepareNewAttempt recovery_action.case by (intro triple_conseq [OF new]) simp_all
  qed (simp_all only: recovery_action.case, (rule triple_conseq [OF calm_keeps(1)], intro calm_db calm_query, simp_all)+)
  have "permitted_recovery_action (attempt_status_text (at_status v)) True n = MayPrepareNewAttempt \<Longrightarrow> at_status v = ARejected" for n
    by (cases "at_status v") (auto simp: permitted_recovery_action_def attempt_status_text_def split: if_splits)
  from step [OF this] show ?thesis
    unfolding walk_existing_attempt_def Let_def if_not_P [OF False] i [symmetric]
    by (rule triple_bind [OF ro_triple [OF reconcile_ro(5)], rotated]) (simp, blast)
qed

lemma execute_live:
  "triple live live (execute_one_intent_with_marker X reader execution envelopes history mark clk i now) (\<lambda>_. live)"
proof -
  have l: "triple live live (and_then (orc (load_latest_attempt X i)) (\<lambda>latest. case latest of
           Some v \<Rightarrow> walk_existing_attempt X reader execution envelopes history mark clk cl v now
         | None \<Rightarrow> start_first_attempt X reader execution envelopes mark clk cl now)) (\<lambda>_. live)"
    if "cl_intent_id cl = i" for cl
  proof (rule triple_bind [OF load_latest_live])
    fix l
    show "triple live (\<lambda>w. live w \<and> (case l of None \<Rightarrow> all_rejected i (w_db w)
       | Some v \<Rightarrow> newest i (at_id v) (w_db w) \<and> in_state (at_id v) (at_status v) (w_db w)))
      (case l of Some v \<Rightarrow> walk_existing_attempt X reader execution envelopes history mark clk cl v now
         | None \<Rightarrow> start_first_attempt X reader execution envelopes mark clk cl now) (\<lambda>_. live)"
      using start_live [of cl, unfolded that] walk_live [OF that [symmetric]] by (cases l) (simp_all add: conj_assoc)
  qed
  have claim: "triple live live (exe (claim_or_resume_intent X i)) (\<lambda>c w. live w \<and> (\<forall>cl. c = Some cl \<longrightarrow> cl_intent_id cl = i))"
    unfolding triple_def
  proof (intro allI impI)
    fix w assume w: "live w"
    obtain r w' where c: "exe (claim_or_resume_intent X i) w = (r, w')" by fastforce
    have "calm.stays (exe (claim_or_resume_intent X i))" by (intro calm_db)
    from steady_one_live [OF calm.staysD [OF this c] w] have "live w'" .
    moreover have "cl_intent_id cl = i" if "r = Inr (Some cl)" for cl
      using c that by (auto simp: on_db_def split: prod.splits sum.splits dest: claim_intent_id)
    ultimately show "case exe (claim_or_resume_intent X i) w of (Inl _, s') \<Rightarrow> live s'
        | (Inr c, w) \<Rightarrow> live w \<and> (\<forall>cl. c = Some cl \<longrightarrow> cl_intent_id cl = i)"
      by (simp add: c split: sum.splits)
  qed
  have k: "triple live (\<lambda>w. live w \<and> (\<forall>cl. c = Some cl \<longrightarrow> cl_intent_id cl = i)) (case c of None \<Rightarrow> ret NotClaimed | Some cl \<Rightarrow>
      and_then (orc (load_latest_attempt X i)) (\<lambda>latest. case latest of
           Some v \<Rightarrow> walk_existing_attempt X reader execution envelopes history mark clk cl v now
         | None \<Rightarrow> start_first_attempt X reader execution envelopes mark clk cl now)) (\<lambda>_. live)" for c
  proof (cases c)
    case (Some cl)
    show ?thesis
    proof (cases "cl_intent_id cl = i")
      case True
      show ?thesis unfolding Some option.case by (rule triple_conseq [OF l [OF True]]) simp_all
    qed (simp add: Some triple_def)
  qed (simp, rule triple_ret, simp)
  show ?thesis unfolding execute_one_intent_with_marker_def
    by (rule triple_bind [OF calm_keeps(1)], intro calm_db, rule triple_if, rule triple_ret, assumption, rule triple_bind [OF claim k])
qed

lemma poll_accepted_live: "triple live live (poll_accepted_gtd_intent X execution clk i now) (\<lambda>_. live)"
proof -
  have p: "triple live (\<lambda>w. live w \<and> (case l of None \<Rightarrow> all_rejected i (w_db w)
       | Some v \<Rightarrow> newest i (at_id v) (w_db w) \<and> in_state (at_id v) (at_status v) (w_db w)))
     (case l of None \<Rightarrow> ret NotClaimed | Some v \<Rightarrow>
        if at_status v \<noteq> Accepted \<or> en_order_type (at_envelope v) \<noteq> ''GTD'' then ret NotClaimed
        else poll_resting_gtd X execution clk i v now) (\<lambda>_. live)" for l
    using poll_live by (cases l) (auto intro!: triple_ret)
  show ?thesis unfolding poll_accepted_gtd_intent_def
    by (rule triple_bind [OF calm_keeps(1)], intro calm_db, rule triple_if, rule triple_ret, assumption,
        rule triple_bind [OF calm_keeps(1)], intro calm_db ro_steady ro.stays_basic, rule triple_if, rule triple_ret, assumption,
        rule triple_bind [OF load_latest_live p])
qed

end

section \<open>The operations outside the orchestrator\<close>

definition healthy :: "ext \<Rightarrow> db \<Rightarrow> db \<Rightarrow> bool" where
  "healthy X d d' \<longleftrightarrow> sound X d d' \<and> steady d d'"

interpretation healthy: frame_rel "healthy X" for X
  by unfold_locales (auto simp: healthy_def sound.R_refl steady.R_refl intro: sound.R_trans steady.R_trans)

lemma healthyI:
  "fwd.stays m \<Longrightarrow> count.stays m \<Longrightarrow> (dec_codec X \<Longrightarrow> keeps.stays (books X) m) \<Longrightarrow> healthy.stays X m"
  using soundI [of m X] steadyI [of m] by (simp add: healthy.stays_def healthy_def sound.stays_def steady.stays_def)

lemma healthy_other_tables:
  "order_attempts d' = order_attempts d \<Longrightarrow> copy_intents d' = copy_intents d \<Longrightarrow> position_lots d' = position_lots d \<Longrightarrow> healthy X d d'"
  using books_cong [of d d' X] by (auto simp: healthy_def sound_def steady_def fwd_same)

lemma ro_healthy: "ro.stays m \<Longrightarrow> healthy.stays X m"
  by (simp add: ro.stays_def healthy.stays_def healthy.R_refl)

lemma healthy_config:
  "healthy.stays X (pause_fuse clock acc reason actor)" "healthy.stays X (resume_fuse acc reason)"
  "healthy.stays X (init_config Y config)" "healthy.stays X (reconfigure_config Y clock config)"
proof -
  have s: "healthy.stays X (assert_startup_clear acc)" for acc
    unfolding assert_startup_clear_def by (intro healthy.stays_intros)
  have v: "healthy.stays X (validate_account_and_leaders config)"
    unfolding validate_account_and_leaders_def by (intro healthy.stays_intros)
  show "healthy.stays X (pause_fuse clock acc reason actor)"
    unfolding pause_fuse_def by (intro healthy.stays_intros healthy.stays_modifies healthy_other_tables) simp_all
  show "healthy.stays X (resume_fuse acc reason)"
    unfolding resume_fuse_def by (intro healthy.stays_intros s healthy.stays_modifies healthy_other_tables) simp_all
  show "healthy.stays X (init_config Y config)"
    unfolding init_config_def by (intro healthy.stays_intros v healthy.stays_modifies healthy_other_tables) simp_all
  show "healthy.stays X (reconfigure_config Y clock config)"
    unfolding reconfigure_config_def
    by (intro healthy.stays_intros s v ro_healthy rolling_ro healthy.stays_modifies healthy_other_tables) simp_all
qed

lemma count_stmts:
  "count.stays stmt \<Longrightarrow> count.stays (must_hit_one stmt)"
  "count.stays (close_case_stmt clock res Q c)" "count.stays (reject_intent_stmt R b reason i)"
  "count.stays (no_fill_attempt_stmt Q' res a)" "count.stays (release_no_fill_stmt clock res acc a)"
  "count.stays (resolve_linked_strict_query_failure clock acc j a res)"
proof -
  show m: "count.stays stmt \<Longrightarrow> count.stays (must_hit_one stmt)" for stmt :: "(persistent_error, nat) db_act"
    unfolding must_hit_one_def by (intro count.stays_intros)
  show "count.stays (resolve_linked_strict_query_failure clock acc j a res)"
    unfolding resolve_linked_strict_query_failure_def close_case_stmt_def
    by (auto intro!: count.stays_intros m count_prims split: list.splits)
qed (unfold close_case_stmt_def reject_intent_stmt_def release_no_fill_stmt_def no_fill_attempt_stmt_def, (rule count_prims)+)

lemma count_recoveries:
  "count.stays (resolve_pre_submit_balance_case clock acc)"
  "count.stays (resolve_no_virtual_lot_sell_case X clock acc i)"
  "count.stays (resolve_exhausted pat reason clock acc i)"
  "count.stays (resolve_operator_confirmed_no_fill X clock acc a why)"
  "count.stays (resolve_chain_proven_gtd_no_fill X clock acc a sub ex ev)"
  "count.stays (restore_reservation_and_finalize_recovered_fill X clock acc a q n)"
  unfolding resolve_pre_submit_balance_case_def resolve_no_virtual_lot_sell_case_def resolve_exhausted_def
    resolve_operator_confirmed_no_fill_def resolve_chain_proven_gtd_no_fill_def
    restore_reservation_and_finalize_recovered_fill_def
  by (intro count.stays_intros count_stmts count_prims count_execute)+

lemma fwd_restore: "fwd.stays (restore_reservation_and_finalize_recovered_fill X clock acc a q n)"
  unfolding restore_reservation_and_finalize_recovered_fill_def
  by (intro fwd.stays_intros fwd_stmts fwd_linked fwd_finalize_with_conn fwd_prims)
    (auto simp: same_attempt_def may_follow_def stage_def)

lemma healthy_restore: "healthy.stays X (restore_reservation_and_finalize_recovered_fill X clock acc a q n)"
  by (rule healthyI, rule fwd_restore, rule count_recoveries, erule books_restore)

lemma healthy_cases:
  "healthy.stays X (open_reconciliation_case i att ct detail)" "healthy.stays X (mark_attempt_gtd_lookup_failed Y i a detail)"
  by (rule healthyI, rule fwd_reconcile, rule count_case_steps count_reconcile, erule books_reconcile)+

lemmas healthy_operations =
  healthyI [OF fwd_same_operations(1) same_count [OF same_plan_batch] books_plan_batch]
  healthyI [OF fwd_same_operations(7) same_count [OF same_close(3)] books_budget(2)]
  healthyI [OF fwd_same_operations(8) same_count [OF same_close(4)] books_budget(3)]
  healthyI [OF fwd_cancel(2) count_execute(4) books_close(4)]
  healthyI [OF fwd_recoveries(1) count_recoveries(1) books_recoveries(1)]
  healthyI [OF fwd_recoveries(2) count_recoveries(2) books_recoveries(2)]
  healthyI [OF fwd_recoveries(3) count_recoveries(3) books_recoveries(3)]
  healthyI [OF fwd_recoveries(4) count_recoveries(4) books_recoveries(4)]
  healthyI [OF fwd_recoveries(5) count_recoveries(5) books_recoveries(5)]
  healthy_restore healthy_config healthy_cases

lemma healthy_events: "event_tables_only d d' \<Longrightarrow> healthy X d d'"
  by (intro healthy_other_tables) (cases d; cases d'; simp add: event_tables_only_def)+

section \<open>Runs of the engine\<close>

text \<open>
  A step of the database outside the orchestrator: planning, the cancellation of overdue intents, the releases,
  the fuse, the execution configuration, the operator's cases and recoveries; a message of the activity stream, a pass of the audit
  worker, and an application of the trading configuration.
\<close>

inductive database_step :: "ext \<Rightarrow> db \<Rightarrow> db \<Rightarrow> bool" for X where
  plan: "plan_next_batch_with_limit X clk acc n d = (r, d') \<Longrightarrow> database_step X d d'"
| cancel_overdue: "cancel_overdue_pre_submit_intent X now acc i d = (r, d') \<Longrightarrow> database_step X d d'"
| release: "release_pre_boundary_failure clock a reason d = (r, d') \<Longrightarrow> database_step X d d'"
| release_rejected: "release_definitive_rejection clock acc a d = (r, d') \<Longrightarrow> database_step X d d'"
| pause: "pause_fuse clock acc reason actor d = (r, d') \<Longrightarrow> database_step X d d'"
| resume: "resume_fuse acc reason d = (r, d') \<Longrightarrow> database_step X d d'"
| init: "init_config X config d = (r, d') \<Longrightarrow> database_step X d d'"
| reconfigure: "reconfigure_config X clock config d = (r, d') \<Longrightarrow> database_step X d d'"
| pre_submit: "resolve_pre_submit_balance_case clock acc d = (r, d') \<Longrightarrow> database_step X d d'"
| no_virtual_lot: "resolve_no_virtual_lot_sell_case X clock acc i d = (r, d') \<Longrightarrow> database_step X d d'"
| exhausted_fak: "resolve_exhausted_fak_no_match clock acc i d = (r, d') \<Longrightarrow> database_step X d d'"
| exhausted_maker: "resolve_exhausted_maker_only_crossing clock acc i d = (r, d') \<Longrightarrow> database_step X d d'"
| operator_no_fill: "resolve_operator_confirmed_no_fill X clock acc a why d = (r, d') \<Longrightarrow> database_step X d d'"
| chain_proven: "resolve_chain_proven_gtd_no_fill X clock acc a sub ex ev d = (r, d') \<Longrightarrow> database_step X d d'"
| recovered_fill: "restore_reservation_and_finalize_recovered_fill X clock acc a q n d = (r, d') \<Longrightarrow> database_step X d d'"
| open_case: "open_reconciliation_case i att ct detail d = (r, d') \<Longrightarrow> database_step X d d'"
| gtd_uncertain: "mark_attempt_gtd_lookup_failed X i a detail d = (r, d') \<Longrightarrow> database_step X d d'"
| stream: "process_message X decode faults clk resolver frame d = (out, d') \<Longrightarrow> database_step X d d'"
| audit: "audit_pass reload_fault query_fault (\<lambda>resolver i. backfill_leader X (qf i) address_ok client (now i) (faults i) (clk i) resolver)
    resolver d = (passed, resolver', d') \<Longrightarrow> database_step X d d'"
| configure: "apply_trading_config X clk tcfg sig cap d = (r, d') \<Longrightarrow> database_step X d d'"

lemma database_step_healthy: "database_step X d d' \<Longrightarrow> healthy X d d'"
proof (induction rule: database_step.induct)
  case (exhausted_fak clock acc i d r d')
  then show ?case unfolding resolve_exhausted_fak_no_match_def by (rule healthy.staysD [OF healthy_operations(7)])
next
  case (exhausted_maker clock acc i d r d')
  then show ?case unfolding resolve_exhausted_maker_only_crossing_def by (rule healthy.staysD [OF healthy_operations(7)])
next
  case (stream decode faults clk resolver frame d out d')
  then have "event_tables_only d d'" using process_message_frame [of d X decode faults clk resolver frame] by simp
  then show ?case by (rule healthy_events)
next
  case (audit reload_fault query_fault qf address_ok client now faults clk resolver d passed resolver' d')
  let ?one = "\<lambda>resolver i. backfill_leader X (qf i) address_ok client (now i) (faults i) (clk i) resolver"
  have "event_tables_only d d'"
    using audit_pass_frame [of ?one d reload_fault query_fault resolver, OF backfill_frame] audit by simp
  then show ?case by (rule healthy_events)
next
  case (configure clk tcfg sig cap d r d')
  then have "trading_same d d'" by (rule trading_frame.staysD [OF apply_keeps_trading])
  then show ?case by (intro healthy_other_tables) (simp_all add: trading_same_def)
qed (erule healthy.staysD [OF healthy_operations(1)] healthy.staysD [OF healthy_operations(2)]
  healthy.staysD [OF healthy_operations(3)] healthy.staysD [OF healthy_operations(4)] healthy.staysD [OF healthy_operations(5)]
  healthy.staysD [OF healthy_operations(6)] healthy.staysD [OF healthy_operations(8)] healthy.staysD [OF healthy_operations(9)]
  healthy.staysD [OF healthy_operations(10)] healthy.staysD [OF healthy_operations(11)] healthy.staysD [OF healthy_operations(12)]
  healthy.staysD [OF healthy_operations(13)] healthy.staysD [OF healthy_operations(14)]
  healthy.staysD [OF healthy_operations(15)] healthy.staysD [OF healthy_operations(16)])+

inductive engine_run :: "ext \<Rightarrow> runtime_config \<Rightarrow> world \<Rightarrow> bool" for X config where
  start: "books X d \<Longrightarrow> one_live d \<Longrightarrow> engine_run X config \<lparr>w_db = d, posted = []\<rparr>"
| database: "engine_run X config w \<Longrightarrow> database_step X (w_db w) d' \<Longrightarrow> engine_run X config (w\<lparr>w_db := d'\<rparr>)"
| execute: "engine_run X config w \<Longrightarrow>
    execute_one_intent_with_marker X reader execution envelopes history (persistent_marker X config) clk i now w = (r, w') \<Longrightarrow>
    engine_run X config w'"
| poll: "engine_run X config w \<Longrightarrow> poll_accepted_gtd_intent X execution clk i now w = (r, w') \<Longrightarrow> engine_run X config w'"

lemma engine_run_inv:
  assumes X: "dec_codec X"
  shows "engine_run X config w \<Longrightarrow> engine_inv X (reservation_held config) {} w \<and> one_live (w_db w)"
proof (induction rule: engine_run.induct)
  case (start d)
  with X show ?case by (simp add: engine_inv_def)
next
  case (database w d')
  then have "healthy X (w_db w) d'" by (intro database_step_healthy)
  with database.IH show ?case by (auto simp: healthy_def intro: engine_inv_forward steady_one_live)
next
  case (execute w reader execution envelopes history clk i now r w')
  have "engine_inv X (reservation_held config) {} w'"
    using keepsD [OF persistent.inv_execute conjunct1 [OF execute.IH] execute.hyps(2)] .
  moreover have "one_live (w_db (snd (execute_one_intent_with_marker X reader execution envelopes history
      (persistent_marker X config) clk i now w)))"
    by (rule tripleD [OF persistent_steady.execute_live conjunct2 [OF execute.IH]])
  ultimately show ?case using execute.hyps(2) by simp
next
  case (poll w execution clk i now r w')
  have "engine_inv X (reservation_held config) {} w'"
    using keepsD [OF persistent.inv_poll_accepted conjunct1 [OF poll.IH] poll.hyps(2)] .
  moreover have "one_live (w_db (snd (poll_accepted_gtd_intent X execution clk i now w)))"
    by (rule tripleD [OF persistent_steady.poll_accepted_live conjunct2 [OF poll.IH]])
  ultimately show ?case using poll.hyps(2) by simp
qed


section \<open>Properties\<close>

text \<open>
  C1. At most one live order per signal.  In every state the engine can reach, whatever mix of planning, execution,
  polling, cancellation, operator recovery and configuration led there and whatever the venue answered, all
  attempts of a copy intent except at most one are rejected, and every attempt but the intent's newest is.
  A signal is thus never copied by two orders that could both fill, the maker fallback after an
  unmatched FAK order and the retries included.
\<close>

theorem engine_one_live_order:
  assumes "dec_codec X" "engine_run X config w"
    and "oa \<in> set (order_attempts (w_db w))" "oa' \<in> set (order_attempts (w_db w))"
    and "oa_intent_id oa = oa_intent_id oa'" "oa_id oa \<noteq> oa_id oa'"
  shows "(oa_status oa = ARejected \<or> oa_status oa' = ARejected) \<and>
    (oa_attempt_number oa < oa_attempt_number oa' \<longrightarrow> oa_status oa = ARejected)"
  using conjunct2 [OF engine_run_inv [OF assms(1,2)]] assms(3-) unfolding one_live_def by (metis less_asym)

definition retried_db0 :: db where
  "retried_db0 = db1\<lparr>order_attempts := [attempt0\<lparr>oa_status := ARejected\<rparr>, attempt0\<lparr>oa_id := 2, oa_attempt_number := 2\<rparr>]\<rparr>"

lemma sample_books: "books ext0 db1" "books ext0 retried_db0"
  by (auto simp: books_def lots_balanced_def lot_value_def booked_def fill_of_def attempts_linked_def intents.keyed_def
      attempts.keyed_def retried_db0_def sample_defs intent_by_id_def lot_row_def dec_val_def side_from_str_def)

lemma sample_live: "one_live db1" "one_live retried_db0"
  by (auto simp: one_live_def attempts.keyed_def retried_db0_def sample_defs)

theorem engine_one_live_order_witness:
  "engine_run ext0 config0 \<lparr>w_db = retried_db0, posted = []\<rparr> \<and>
   oa_status (attempt0\<lparr>oa_status := ARejected\<rparr>) = ARejected \<and> oa_attempt_number attempt0 < 2"
proof -
  let ?w = "\<lparr>w_db = retried_db0, posted = []\<rparr>"
  have r: "engine_run ext0 config0 ?w" by (rule engine_run.start [OF sample_books(2) sample_live(2)])
  have m: "attempt0\<lparr>oa_status := ARejected\<rparr> \<in> set (order_attempts (w_db ?w))"
    "attempt0\<lparr>oa_id := 2, oa_attempt_number := 2\<rparr> \<in> set (order_attempts (w_db ?w))" by (simp_all add: retried_db0_def)
  have "oa_intent_id (attempt0\<lparr>oa_status := ARejected\<rparr>) = oa_intent_id (attempt0\<lparr>oa_id := 2, oa_attempt_number := 2\<rparr>)"
    "oa_id (attempt0\<lparr>oa_status := ARejected\<rparr>) \<noteq> oa_id (attempt0\<lparr>oa_id := 2, oa_attempt_number := 2\<rparr>)"
    by (simp_all add: attempt0_def)
  from engine_one_live_order [OF ext0_dec_codec r m this] r show ?thesis by (simp add: attempt0_def)
qed

text \<open>
  C2. The engine sends each order at most once, and only under cover.  In every run, each attempt is submitted
  at most once; at the moment of each submission the attempt was durably marked \<open>submitting\<close> with its instant, the
  envelope sent was the one persisted for it, its budget was reserved in the configured account, and that
  account's fuse was closed; and the books balance: every lot equals the sum of its booked fills.
\<close>

theorem engine_submits_once_under_cover:
  assumes "dec_codec X" "engine_run X config w"
  shows "books X (w_db w) \<and> distinct (map ps_attempt (posted w)) \<and>
    (\<forall>p \<in> set (posted w). \<exists>oa.
       attempt_by_id (ps_attempt p) (ps_db p) = Some oa \<and> oa_intent_id oa = ps_intent p \<and> oa_status oa = Submitting \<and>
       oa_submission_started_at oa \<noteq> None \<and> envelope_of_json X (oa_envelope_json oa) = Some (ps_envelope p) \<and>
       reservation_held config (ps_intent p) (ps_attempt p) (ps_db p))"
  using conjunct1 [OF engine_run_inv [OF assms]] by (auto simp: engine_inv_def sent_ok_def)


text \<open>A run that submits: the prepared attempt of the sample, whose response is lost.\<close>

lemma sample_submission:
  "posted (snd (execute_one_intent_with_marker ext0 reader (execution\<lparr>submit_exact_envelope := \<lambda>_. Inl (SubmitTransport ''lost'')\<rparr>)
     envelopes history (persistent_marker ext0 config0) clk 1 1000 \<lparr>w_db = db1, posted = []\<rparr>)) =
   [\<lparr>ps_intent = 1, ps_attempt = 1, ps_envelope = envelope0, ps_db = reserved_db0\<rparr>]"
proof -
  let ?w = "\<lparr>w_db = db1, posted = []\<rparr>"
  let ?v = "\<lparr>at_id = 1, at_status = Prepared, at_envelope = envelope0\<rparr>"
  let ?e = "execution\<lparr>submit_exact_envelope := \<lambda>_. Inl (SubmitTransport ''lost'')\<rparr>"
  have lock: "token_has_open_reconciliation_lock 1 db1 = (Inr False, db1)"
    by (simp add: token_has_open_reconciliation_lock_def reads_def sample_defs)
  have "\<exists>cl. claim_or_resume_intent ext0 1 db1 = (Inr (Some cl), db1)"
    by (simp add: claim_or_resume_intent_def claim_row_def claimed_of_row_def existing_decision_of_def act_simps sql_update_def
        intent_by_id_def event_of_intent_def event_by_id_def side_from_str_def sample_defs put_intents_def Let_def)
  then obtain cl where claim: "claim_or_resume_intent ext0 1 db1 = (Inr (Some cl), db1)" by blast
  have id: "cl_intent_id cl = 1" by (rule claim_intent_id [OF claim])
  have load: "load_latest_attempt ext0 1 db1 = (Inr (Some ?v), db1)"
    by (simp add: load_latest_attempt_def latest_attempt_def latest_number_def act_simps sample_defs)
  have mark: "persistent_marker ext0 config0 1 1 1000 db1 = (Inr (), reserved_db0)"
    by (simp add: persistent_marker_def persistent_mark_submitting_def map_error_def reserve_sample)
  have action: "permitted_recovery_action (attempt_status_text Prepared) True n = MarkSubmittingThenSubmit" for n
    by (simp add: permitted_recovery_action_def attempt_status_text_def)
  show ?thesis
    by (simp add: execute_one_intent_with_marker_def and_then_def on_db_def lock claim load walk_existing_attempt_def Let_def
      attempts_in_window_def reads_def action id submit_prepared_def mark_and_submit_def handle_def mark post_envelope_def
      envelope0_def maybe_retry_no_fak_once_def ret_def settle_submission_def
      split: prod.splits sum.splits)
qed


theorem engine_submits_once_under_cover_witness:
  "\<exists>w. engine_run ext0 config0 w \<and>
     posted w = [\<lparr>ps_intent = 1, ps_attempt = 1, ps_envelope = envelope0, ps_db = reserved_db0\<rparr>] \<and>
     books ext0 (w_db w) \<and> reservation_held config0 1 1 reserved_db0"
proof -
  fix reader :: balance_reader and execution :: copy_execution and envelopes history clk
  let ?call = "execute_one_intent_with_marker ext0 reader (execution\<lparr>submit_exact_envelope := \<lambda>_. Inl (SubmitTransport ''lost'')\<rparr>)
     envelopes history (persistent_marker ext0 config0) clk 1 1000 \<lparr>w_db = db1, posted = []\<rparr>"
  have "engine_run ext0 config0 \<lparr>w_db = db1, posted = []\<rparr>" by (rule engine_run.start [OF sample_books(1) sample_live(1)])
  then have r: "engine_run ext0 config0 (snd ?call)" by (rule engine_run.execute) (rule prod.collapse [symmetric])
  from engine_submits_once_under_cover [OF ext0_dec_codec r] r sample_submission [of reader execution envelopes history clk]
  show ?thesis by (intro exI [of _ "snd ?call"]) auto
qed

end
