(* ===== verification/Runner.thy ===== *)
theory Runner
  imports Engine
begin

text \<open>
  The persistent runner (\<open>src/src/bin/copy_persistent.rs\<close>) and the process lock it takes (\<open>src/src/engine_lock.rs\<close>): the checks
  before the first tick, one tick, and the loop.

  What a tick sees from outside is the record \<open>tick_input\<close>: whether the stream task has ended or is connected, the faults of
  the database, and for the \<open>k\<close>-th intent of the tick the balances, the venue, the envelope factory, the
  trade history and the clocks.  The ingest tasks share the database: \<open>ti_ingest k\<close> is what they did to it before the
  \<open>k\<close>-th operation of the tick.  Log lines and sleeping are left out.
\<close>

section \<open>The process lock\<close>

text \<open>The lock files of the machine: which cannot be opened or locked, and which are held.\<close>

record lock_files =
  lf_io_error :: "string \<Rightarrow> string option"
  lf_held :: "string set"

datatype engine_lock_error = AlreadyHeld string | LockIo string string

definition engine_lock_error_text :: "engine_lock_error \<Rightarrow> string" where
  "engine_lock_error_text e = (case e of
       AlreadyHeld path \<Rightarrow> ''copy-engine process lock is already held: '' @ path
     | LockIo path source \<Rightarrow> ''cannot acquire copy-engine process lock '' @ path @ '': '' @ source)"

definition path_for_database :: "string \<Rightarrow> string" where
  "path_for_database database_path = database_path @ ''.lock''"

definition try_acquire :: "string \<Rightarrow> (lock_files, engine_lock_error, string) act" where
  "try_acquire path = (\<lambda>fs. case lf_io_error fs path of
       Some source \<Rightarrow> (Inl (LockIo path source), fs)
     | None \<Rightarrow> if path \<in> lf_held fs then (Inl (AlreadyHeld path), fs)
               else (Inr path, fs\<lparr>lf_held := insert path (lf_held fs)\<rparr>))"

definition acquire_for_database :: "string \<Rightarrow> (lock_files, engine_lock_error, string) act" where
  "acquire_for_database database_path = try_acquire (path_for_database database_path)"

definition release_lock :: "string \<Rightarrow> lock_files \<Rightarrow> lock_files" where
  "release_lock path fs = fs\<lparr>lf_held := lf_held fs - {path}\<rparr>"

section \<open>Errors\<close>

definition exit_lock_collision :: int where "exit_lock_collision = 20"

datatype runner_error = LockCollision | RPersistent persistent_error | ROther string

definition runner_exit_code :: "runner_error \<Rightarrow> int" where
  "runner_exit_code e = (case e of LockCollision \<Rightarrow> exit_lock_collision | RPersistent error \<Rightarrow> exit_code error | ROther _ \<Rightarrow> exit_config)"

definition runner_error_text :: "ext \<Rightarrow> runner_error \<Rightarrow> string" where
  "runner_error_text X e = (case e of
       LockCollision \<Rightarrow> ''copy-engine process lock is already held''
     | RPersistent error \<Rightarrow> persistent_error_text X error
     | ROther error \<Rightarrow> error)"

definition plan_error_text :: "plan_error \<Rightarrow> string" where
  "plan_error_text e = (case e of
       PlanDatabase error \<Rightarrow> ''database error: '' @ error
     | NoExecutionSchedule \<Rightarrow> ''no execution_schedule row exists yet; the planner refuses to guess a lane count''
     | ScheduleChangedWithPendingWork stale_intent_count \<Rightarrow>
         ''execution_schedule changed while '' @ show_nat stale_intent_count @ '' non-terminal intent(s) were '' @
         ''planned under the old lane count/shard scheme; refusing to start until they reach '' @ ''a terminal status''
     | PlanInvalidTimestamp \<Rightarrow> ''a stored event timestamp is not valid RFC 3339''
     | PlanInvalidDecimal field \<Rightarrow> ''invalid decimal value in '' @ field)"

section \<open>Startup\<close>

type_synonym 'a runner_act = "(world, runner_error, 'a) act"

definition runner_db :: "('e \<Rightarrow> runner_error) \<Rightarrow> ('e, 'a) db_act \<Rightarrow> 'a runner_act" where
  "runner_db wrap m = (\<lambda>w. case m (w_db w) of
       (Inl e, d) \<Rightarrow> (Inl (wrap e), w\<lparr>w_db := d\<rparr>)
     | (Inr x, d) \<Rightarrow> (Inr x, w\<lparr>w_db := d\<rparr>))"

definition verify_single_allowed_leader_scope :: "int list \<Rightarrow> (persistent_error, unit) db_act" where
  "verify_single_allowed_leader_scope allowed_leader_ids =
     and_then (reads (\<lambda>d. set (map lc_id (filter lc_enabled (leader_config d))))) (\<lambda>enabled_set.
     if enabled_set \<noteq> set allowed_leader_ids then raise ConfigMismatch else ret ())"

text \<open>What the process finds when it starts: the environment, the lock, the database file, the venue and the stream client.\<close>

record startup_input =
  si_env :: "string \<rightharpoonup> string"
  si_locks :: lock_files
  si_open_error :: "string option"
  si_adapter_error :: "string option"
  si_reload_error :: "string option"
  si_spawn_error :: "string option"

definition fail_if :: "(string \<Rightarrow> 'e) \<Rightarrow> string option \<Rightarrow> ('s, 'e, unit) act" where
  "fail_if wrap error = (case error of Some e \<Rightarrow> raise (wrap e) | None \<Rightarrow> ret ())"

definition runner_startup :: "ext \<Rightarrow> startup_input \<Rightarrow> (runtime_config \<times> address_resolver) runner_act" where
  "runner_startup X si =
     and_then (or_raise (RPersistent (Config ''missing POLYCOPY_DB_PATH'')) (si_env si ''POLYCOPY_DB_PATH'')) (\<lambda>db_path.
     and_then (lift_result (case from_env X (si_env si) of Inl e \<Rightarrow> Inl (RPersistent e) | Inr c \<Rightarrow> Inr c)) (\<lambda>config.
     and_then (lift_result (case fst (acquire_for_database db_path (si_locks si)) of
         Inr lock \<Rightarrow> Inr lock
       | Inl (AlreadyHeld _) \<Rightarrow> Inl LockCollision
       | Inl e \<Rightarrow> Inl (ROther (engine_lock_error_text e)))) (\<lambda>lock.
     and_then (fail_if ROther (si_open_error si)) (\<lambda>_.
     and_then (runner_db RPersistent (verify_config X config)) (\<lambda>_.
     and_then (runner_db (\<lambda>e. ROther (plan_error_text e)) verify_schedule_compatible_with_pending_work) (\<lambda>_.
     and_then (runner_db RPersistent (verify_single_allowed_leader_scope (cf_allowed_leader_ids config))) (\<lambda>_.
     and_then (runner_db RPersistent (ensure_fuse_clear (cf_account_id config))) (\<lambda>_.
     and_then (runner_db RPersistent (assert_startup_clear (cf_account_id config))) (\<lambda>_.
     and_then (fail_if ROther (si_adapter_error si)) (\<lambda>_.
     and_then (fail_if ROther (si_reload_error si)) (\<lambda>_.
     and_then (reads (\<lambda>w. reload_from_db (w_db w))) (\<lambda>resolver.
     and_then (fail_if ROther (si_spawn_error si)) (\<lambda>_.
     ret (config, resolver))))))))))))))"

section \<open>One tick\<close>

record tick_input =
  ti_realtime_finished :: bool
  ti_gate_connected :: bool
  ti_fuse_faults :: "nat \<Rightarrow> string option"
  ti_plan_faults :: "nat \<Rightarrow> (int \<times> string) option"
  ti_list_faults :: "nat \<Rightarrow> string option"
  ti_pause_fault :: "string option"
  ti_pause_clock :: timestamp
  ti_plan_clk :: "nat \<Rightarrow> int \<Rightarrow> timestamp"
  ti_reader :: "nat \<Rightarrow> balance_reader"
  ti_execution :: "nat \<Rightarrow> copy_execution"
  ti_envelopes :: "nat \<Rightarrow> envelope_factory"
  ti_history :: "nat \<Rightarrow> trade_history_reader"
  ti_clk :: "nat \<Rightarrow> nat \<Rightarrow> timestamp"
  ti_now :: "nat \<Rightarrow> timestamp"
  ti_ingest :: "nat \<Rightarrow> db \<Rightarrow> db"

text \<open>The other tasks' work on the database, before an operation.\<close>

definition ingest_meanwhile :: "tick_input \<Rightarrow> nat \<Rightarrow> unit runner_act" where
  "ingest_meanwhile t k = modifies (\<lambda>w. w\<lparr>w_db := ti_ingest t k (w_db w)\<rparr>)"

fun retry_local_busy :: "nat list \<Rightarrow> ('e \<Rightarrow> string) \<Rightarrow> (nat \<Rightarrow> ('s, 'e, 'a) act) \<Rightarrow> nat \<Rightarrow> ('s, 'e, 'a) act" where
  "retry_local_busy [] show_error work attempt = work attempt"
| "retry_local_busy (delay # delays) show_error work attempt = (\<lambda>s. case work attempt s of
       (Inl e, s') \<Rightarrow> if is_sqlite_busy (show_error e) then retry_local_busy delays show_error work (attempt + 1) s' else (Inl e, s')
     | (Inr x, s') \<Rightarrow> (Inr x, s'))"

definition faulty :: "('e, 'a) db_act \<Rightarrow> (string \<Rightarrow> 'e) \<Rightarrow> string option \<Rightarrow> ('e, 'a) db_act" where
  "faulty m wrap fault = (case fault of Some e \<Rightarrow> raise (wrap e) | None \<Rightarrow> m)"

text \<open>Planning commits event by event, so a fault may strike after some events.\<close>

definition faulty_plan :: "ext \<Rightarrow> (int \<Rightarrow> timestamp) \<Rightarrow> int \<Rightarrow> (int \<times> string) option \<Rightarrow> (plan_error, plan_summary) db_act" where
  "faulty_plan X clk account_id fault = (case fault of
       Some (n, e) \<Rightarrow> and_then (plan_next_batch_with_limit X clk account_id n) (\<lambda>_. raise (PlanDatabase e))
     | None \<Rightarrow> plan_next_batch X clk account_id)"

text \<open>An operation of the tick: retried while the database is busy, the tick given up when it stays busy.\<close>

definition tick_op ::
  "('e \<Rightarrow> string) \<Rightarrow> ('e \<Rightarrow> runner_error) \<Rightarrow> (nat \<Rightarrow> ('e, 'a) db_act) \<Rightarrow> ('a \<Rightarrow> unit runner_act) \<Rightarrow> unit runner_act" where
  "tick_op show_error wrap work k = (\<lambda>w. case retry_local_busy busy_retry_delays show_error work 0 (w_db w) of
       (Inl e, d) \<Rightarrow> if is_sqlite_busy (show_error e) then (Inr (), w\<lparr>w_db := d\<rparr>) else (Inl (wrap e), w\<lparr>w_db := d\<rparr>)
     | (Inr x, d) \<Rightarrow> k x (w\<lparr>w_db := d\<rparr>))"

fun select_allowed ::
  "ext \<Rightarrow> int list \<Rightarrow> decimal \<Rightarrow> (bool \<times> int) list \<Rightarrow> int list \<Rightarrow> int list \<Rightarrow> (persistent_error, int list \<times> int list) db_act" where
  "select_allowed X allowed max_notional [] polls work = ret (polls, work)"
| "select_allowed X allowed max_notional ((is_poll, intent_id) # ids) polls work =
     (if \<not> is_poll \<and> work \<noteq> [] then ret (polls, work) else
      and_then (reads (intent_by_id intent_id)) (\<lambda>row.
      and_then (or_raise (PersDatabase ''no rows returned by a query that expected to return at least one row'') row) (\<lambda>ci.
      if ci_leader_id ci \<in> set allowed then
        and_then (or_raise MalformedBudgetState (policy_of_json X (ci_config_snapshot_json ci))) (\<lambda>snapshot.
        and_then (or_raise MalformedBudgetState (parse_dec X (max_order_notional snapshot))) (\<lambda>snapshot_max.
        if snapshot_max > max_notional then raise ConfigMismatch
        else if is_poll then select_allowed X allowed max_notional ids (polls @ [intent_id]) work
        else select_allowed X allowed max_notional ids polls (work @ [intent_id])))
      else select_allowed X allowed max_notional ids polls work)))"

definition runnable_intents_for_allowed_leaders ::
  "ext \<Rightarrow> int \<Rightarrow> int list \<Rightarrow> decimal \<Rightarrow> (persistent_error, int list \<times> int list) db_act" where
  "runnable_intents_for_allowed_leaders X account_id allowed max_notional =
     and_then (map_error (\<lambda>e. PersDatabase (orchestrate_error_text X e)) (list_runnable_intents_by_phase X account_id)) (\<lambda>(poll_ids, work_ids).
     select_allowed X allowed max_notional (map (Pair True) poll_ids @ map (Pair False) work_ids) [] [])"

definition open_runtime_fuse :: "tick_input \<Rightarrow> int \<Rightarrow> string \<Rightarrow> unit runner_act" where
  "open_runtime_fuse t account_id reason =
     runner_db RPersistent (faulty (pause_fuse (ti_pause_clock t) account_id reason ''copy_persistent'') PersDatabase (ti_pause_fault t))"

definition stop_with_fuse :: "tick_input \<Rightarrow> int \<Rightarrow> string \<Rightarrow> unit runner_act" where
  "stop_with_fuse t account_id reason =
     and_then (open_runtime_fuse t account_id reason) (\<lambda>_. raise (RPersistent FuseOpen))"

definition leaves_fuse_closed :: "persistent_error \<Rightarrow> bool" where
  "leaves_fuse_closed e \<longleftrightarrow> (case e of
       BudgetExceeded _ _ _ \<Rightarrow> True | LeaderBudgetExhausted _ _ _ _ \<Rightarrow> True | AccountBudgetExhausted _ _ _ \<Rightarrow> True | _ \<Rightarrow> False)"

text \<open>\<open>match outcome\<close>\<close>

definition after_outcome ::
  "ext \<Rightarrow> (orchestrate_outcome \<Rightarrow> string) \<Rightarrow> tick_input \<Rightarrow> int \<Rightarrow> bool \<Rightarrow> int \<Rightarrow> orchestrate_error + orchestrate_outcome \<Rightarrow> unit runner_act" where
  "after_outcome X debug t account_id is_poll intent_id outcome = (case outcome of
       Inr out \<Rightarrow>
         if is_poll \<and> gtd_poll_requires_fuse out
         then stop_with_fuse t account_id (''GTD poll intent '' @ show_i64 intent_id @ '' requires reconciliation: Ok('' @ debug out @ '')'')
         else (case out of
             OBlocked reason \<Rightarrow> stop_with_fuse t account_id reason
           | ONeedsReconcile reason \<Rightarrow> stop_with_fuse t account_id reason
           | OUncertain \<Rightarrow> stop_with_fuse t account_id ''uncertain submission''
           | _ \<Rightarrow> ret ())
     | Inl (EPersistent error) \<Rightarrow>
         if error = DecisionExpired \<and> \<not> is_poll then ret ()
         else if is_poll then stop_with_fuse t account_id (persistent_error_text X error)
         else if leaves_fuse_closed error then raise (RPersistent error)
         else and_then (open_runtime_fuse t account_id (persistent_error_text X error)) (\<lambda>_. raise (RPersistent error))
     | Inl error \<Rightarrow> stop_with_fuse t account_id (orchestrate_error_text X error))"

definition work_one :: "ext \<Rightarrow> runtime_config \<Rightarrow> tick_input \<Rightarrow> nat \<Rightarrow> bool \<times> int \<Rightarrow> orchestrate_outcome orch" where
  "work_one X config t k = (\<lambda>(is_poll, intent_id).
     if is_poll then poll_accepted_gtd_intent X (ti_execution t k) (ti_clk t k) intent_id (ti_now t k)
     else execute_one_intent_with_marker X (ti_reader t k) (ti_execution t k) (ti_envelopes t k) (ti_history t k)
       (persistent_marker X config) (ti_clk t k) intent_id (ti_now t k))"

fun work_intents ::
  "ext \<Rightarrow> (orchestrate_outcome \<Rightarrow> string) \<Rightarrow> runtime_config \<Rightarrow> tick_input \<Rightarrow> nat \<Rightarrow> (bool \<times> int) list \<Rightarrow> unit runner_act" where
  "work_intents X debug config t k [] = ret ()"
| "work_intents X debug config t k (p # ps) =
     and_then (ingest_meanwhile t (k + 3)) (\<lambda>_.
     and_then (\<lambda>w. case work_one X config t k p w of (outcome, w') \<Rightarrow>
         after_outcome X debug t (cf_account_id config) (fst p) (snd p) outcome w') (\<lambda>_.
     work_intents X debug config t (k + 1) ps))"

definition runner_tick :: "ext \<Rightarrow> (orchestrate_outcome \<Rightarrow> string) \<Rightarrow> runtime_config \<Rightarrow> tick_input \<Rightarrow> unit runner_act" where
  "runner_tick X debug config t =
     (if ti_realtime_finished t then stop_with_fuse t (cf_account_id config) ''activity websocket supervisor stopped''
      else if \<not> realtime_connected (ti_realtime_finished t) (ti_gate_connected t) then ret () else
      and_then (ingest_meanwhile t 0) (\<lambda>_.
      tick_op (persistent_error_text X) RPersistent
        (\<lambda>n. faulty (ensure_fuse_clear (cf_account_id config)) PersDatabase (ti_fuse_faults t n)) (\<lambda>_.
      and_then (ingest_meanwhile t 1) (\<lambda>_.
      tick_op plan_error_text (\<lambda>e. ROther (plan_error_text e))
        (\<lambda>n. faulty_plan X (ti_plan_clk t n) (cf_account_id config) (ti_plan_faults t n)) (\<lambda>_.
      and_then (ingest_meanwhile t 2) (\<lambda>_.
      tick_op (persistent_error_text X) RPersistent
        (\<lambda>n. faulty (runnable_intents_for_allowed_leaders X (cf_account_id config) (cf_allowed_leader_ids config)
           (cf_max_order_notional config)) PersDatabase (ti_list_faults t n)) (\<lambda>(poll_ids, work_ids).
      work_intents X debug config t 0 (map (Pair True) poll_ids @ map (Pair False) work_ids))))))))"

text \<open>The loop over the ticks so far; it ends only with an error.\<close>

fun runner_loop :: "ext \<Rightarrow> (orchestrate_outcome \<Rightarrow> string) \<Rightarrow> runtime_config \<Rightarrow> tick_input list \<Rightarrow> unit runner_act" where
  "runner_loop X debug config [] = ret ()"
| "runner_loop X debug config (t # ts) = and_then (runner_tick X debug config t) (\<lambda>_. runner_loop X debug config ts)"

definition copy_persistent :: "ext \<Rightarrow> (orchestrate_outcome \<Rightarrow> string) \<Rightarrow> startup_input \<Rightarrow> tick_input list \<Rightarrow> unit runner_act" where
  "copy_persistent X debug si ts = and_then (runner_startup X si) (\<lambda>(config, resolver). runner_loop X debug config ts)"

section \<open>The runner is a run of the engine\<close>

text \<open>What the ingest tasks do between two operations is a sequence of their steps.\<close>

definition ingest_ok :: "ext \<Rightarrow> tick_input \<Rightarrow> bool" where
  "ingest_ok X t \<longleftrightarrow> (\<forall>k d. (database_step X)\<^sup>*\<^sup>* d (ti_ingest t k d))"

interpretation steps: frame_rel "(database_step X)\<^sup>*\<^sup>*" for X
  by unfold_locales auto

lemma steps_ro: "ro.stays m \<Longrightarrow> steps.stays X m"
  by (simp add: steps.stays_def ro.stays_def)

lemma engine_run_steps: "(database_step X)\<^sup>*\<^sup>* (w_db w) d \<Longrightarrow> engine_run X config w \<Longrightarrow> engine_run X config (w\<lparr>w_db := d\<rparr>)"
proof (induction rule: rtranclp_induct)
  case (step d d')
  from engine_run.database [OF step.IH [OF step.prems], of d'] step.hyps(2) show ?case by simp
qed simp

abbreviation running :: "ext \<Rightarrow> runtime_config \<Rightarrow> world \<Rightarrow> bool" where
  "running X config \<equiv> engine_run X config"

lemma running_db: "steps.stays X m \<Longrightarrow> keeps.stays (running X config) (runner_db wrap m)"
  unfolding keeps.stays_def runner_db_def
  by (auto split: prod.splits sum.splits dest: steps.staysD intro: engine_run_steps)

lemma running_ingest: "ingest_ok X t \<Longrightarrow> keeps.stays (running X config) (ingest_meanwhile t k)"
  unfolding ingest_meanwhile_def ingest_ok_def by (intro keeps.stays_modifies) (blast intro: engine_run_steps)

lemma retry_steps:
  assumes "\<And>n. steps.stays X (work n)"
  shows "steps.stays X (retry_local_busy delays txt work n)"
proof -
  have "(database_step X)\<^sup>*\<^sup>* d (snd (retry_local_busy delays txt work n d))" for d
  proof (induction delays arbitrary: n d)
    case Nil
    then show ?case using assms [of n] by (simp add: steps.stays_def)
  next
    case (Cons delay delays)
    obtain r d1 where w: "work n d = (r, d1)" by (cases "work n d")
    have s: "(database_step X)\<^sup>*\<^sup>* d d1" using steps.staysD [OF assms w] .
    show ?case
    proof (cases r)
      case (Inl e)
      with Cons.IH [where n = "n + 1" and d = d1] s w show ?thesis by (auto intro: rtranclp_trans)
    next
      case (Inr x)
      with s w show ?thesis by simp
    qed
  qed
  then show ?thesis by (simp add: steps.stays_def)
qed

lemma running_tick_op:
  assumes "\<And>n. steps.stays X (work n)" and "\<And>x. keeps.stays (running X config) (k x)"
  shows "keeps.stays (running X config) (tick_op txt wrap work k)"
proof (unfold keeps.stays_def, intro allI impI)
  fix w assume run: "running X config w"
  obtain r d where op: "retry_local_busy busy_retry_delays txt work 0 (w_db w) = (r, d)" by (cases "retry_local_busy busy_retry_delays txt work 0 (w_db w)")
  have run': "running X config (w\<lparr>w_db := d\<rparr>)" using steps.staysD [OF retry_steps [OF assms(1)] op] run by (rule engine_run_steps)
  show "running X config (snd (tick_op txt wrap work k w))"
    using run' keepsD [OF assms(2) run' prod.collapse [symmetric]] by (cases r) (simp_all add: tick_op_def op)
qed

lemma steps_raise: "steps.stays X (raise e)"
  by (simp add: steps.stays_def raise_def)

lemma steps_plan: "steps.stays X (plan_next_batch_with_limit X clk acc n)"
  unfolding steps.stays_def by (auto intro: database_step.plan prod.collapse [symmetric])

lemma steps_pause: "steps.stays X (faulty (pause_fuse clock acc reason actor) PersDatabase fault)"
  by (cases fault) (auto simp: faulty_def steps_raise steps.stays_def raise_def intro: database_step.pause prod.collapse [symmetric])


lemma steps_plan_faulty: "steps.stays X (faulty_plan X clk acc fault)"
proof (cases fault)
  case None
  then show ?thesis by (simp add: faulty_plan_def plan_next_batch_def steps_plan)
next
  case (Some p)
  obtain n e where p: "p = (n, e)" by (cases p)
  have "snd (and_then (plan_next_batch_with_limit X clk acc n) (\<lambda>_. raise (PlanDatabase e) :: (plan_error, plan_summary) db_act) d) =
      snd (plan_next_batch_with_limit X clk acc n d)" for d
    by (auto simp: and_then_def raise_def split: prod.splits sum.splits)
  with steps_plan [of X clk acc n] show ?thesis by (simp add: steps.stays_def faulty_plan_def Some p)
qed

lemma ro_faulty: "ro.stays m \<Longrightarrow> ro.stays (faulty m wrap fault)"
  unfolding faulty_def by (auto intro: ro.stays_intros split: option.splits)

lemma ro_select: "ro.stays (select_allowed X allowed cap ids polls work)"
  by (induction X allowed cap ids polls work rule: select_allowed.induct) (auto intro!: ro.stays_intros)

lemma ro_runnable: "ro.stays (runnable_intents_for_allowed_leaders X acc allowed cap)"
proof -
  have "ro.stays (list_runnable_intents_by_phase X acc)"
    unfolding list_runnable_intents_by_phase_def list_runnable_intents_def by (intro ro.stays_intros)
  then show ?thesis
    unfolding runnable_intents_for_allowed_leaders_def by (auto intro!: ro.stays_intros ro_select split: prod.splits)
qed

lemma ro_startup_checks:
  "ro.stays (verify_config X config)" "ro.stays verify_schedule_compatible_with_pending_work"
  "ro.stays (verify_single_allowed_leader_scope allowed)" "ro.stays (ensure_fuse_clear acc)" "ro.stays (assert_startup_clear acc)"
  unfolding verify_config_def validate_account_and_leaders_def verify_schedule_compatible_with_pending_work_def
    verify_single_allowed_leader_scope_def ensure_fuse_clear_def fuse_status_def assert_startup_clear_def
  by (intro ro.stays_intros load_execution_schedule_ro)+

lemma running_stop: "keeps.stays (running X config) (stop_with_fuse t acc reason)" "keeps.stays (running X config) (open_runtime_fuse t acc reason)"
  unfolding stop_with_fuse_def open_runtime_fuse_def by (intro keeps.stays_intros running_db steps_pause)+

lemma running_after: "keeps.stays (running X config) (after_outcome X debug t acc is_poll i out)"
  unfolding after_outcome_def by (auto intro!: keeps.stays_intros running_stop split: sum.splits orchestrate_outcome.splits orchestrate_error.splits)

lemma running_work_one: "running X config w \<Longrightarrow> work_one X config t k p w = (r, w') \<Longrightarrow> running X config w'"
  by (cases p) (auto simp: work_one_def split: if_splits intro: engine_run.execute engine_run.poll)

lemma running_work: "ingest_ok X t \<Longrightarrow> keeps.stays (running X config) (work_intents X debug config t k ps)"
proof (induction ps arbitrary: k)
  case Nil
  then show ?case by (simp add: keeps.stays_basic)
next
  case (Cons p ps)
  have "keeps.stays (running X config) (\<lambda>w. case work_one X config t k p w of (outcome, w') \<Rightarrow>
         after_outcome X debug t (cf_account_id config) (fst p) (snd p) outcome w')"
    unfolding keeps.stays_def
  proof (intro allI impI)
    fix w assume "running X config w"
    moreover obtain r w1 where one: "work_one X config t k p w = (r, w1)" by (cases "work_one X config t k p w")
    ultimately have "running X config w1" by (rule running_work_one)
    with running_after show "running X config (snd (case work_one X config t k p w of (outcome, w') \<Rightarrow>
         after_outcome X debug t (cf_account_id config) (fst p) (snd p) outcome w'))"
      unfolding one by (simp add: keeps.stays_def)
  qed
  with Cons show ?case unfolding work_intents.simps by (intro keeps.stays_and_then running_ingest)
qed

lemma running_tick:
  assumes "ingest_ok X t"
  shows "keeps.stays (running X config) (runner_tick X debug config t)"
proof -
  have "keeps.stays (running X config) (case r of (poll_ids, work_ids) \<Rightarrow>
      work_intents X debug config t 0 (map (Pair True) poll_ids @ map (Pair False) work_ids))" for r
    by (cases r) (simp add: running_work [OF assms])
  with assms show ?thesis
    unfolding runner_tick_def
    by (intro keeps.stays_if keeps.stays_and_then running_stop keeps.stays_basic running_ingest running_tick_op
        steps_ro ro_faulty ro_startup_checks ro_runnable steps_plan_faulty)
qed

lemma running_loop: "\<forall>t \<in> set ts. ingest_ok X t \<Longrightarrow> keeps.stays (running X config) (runner_loop X debug config ts)"
  by (induction ts) (auto intro!: keeps.stays_intros running_tick)

lemma ro_runner_db: "ro.stays m \<Longrightarrow> ro.stays (runner_db wrap m)"
  unfolding ro.stays_def runner_db_def by (auto split: prod.splits sum.splits) (metis old.prod.inject prod.collapse world.surjective world.update_convs(1))+

lemma ro_fail: "ro.stays (fail_if wrap e)"
  unfolding fail_if_def by (auto intro: ro.stays_intros split: option.splits)

lemma ro_startup: "ro.stays (runner_startup X si)"
  unfolding runner_startup_def by (intro ro.stays_intros ro_fail ro_runner_db ro_startup_checks)

lemma case_err_ok: "(case r of Inl e \<Rightarrow> Inl (f e) | Inr c \<Rightarrow> Inr c) = Inr x \<longleftrightarrow> r = Inr x"
  by (cases r) simp_all

lemma and_then_stays_ok:
  assumes "and_then m f s = (r, s')" "ro.stays m"
  shows "(\<exists>e. m s = (Inl e, s) \<and> r = Inl e \<and> s' = s) \<or> (\<exists>x. m s = (Inr x, s) \<and> f x s = (r, s'))"
proof -
  obtain q t where q: "m s = (q, t)" by (cases "m s")
  then have "t = s" by (rule ro_state [OF assms(2)])
  with q assms(1) show ?thesis by (cases q) (auto simp: and_then_def)
qed

lemma ro_peelE:
  assumes "and_then m f s = (Inr y, s')" "ro.stays m"
  obtains x where "m s = (Inr x, s)" "f x s = (Inr y, s')"
  using and_then_stays_ok [OF assms] by auto

lemma startup_ok:
  assumes "runner_startup X si w = (Inr (config, resolver), w')"
  shows "from_env X (si_env si) = Inr config \<and> runner_db RPersistent (ensure_fuse_clear (cf_account_id config)) w = (Inr (), w)"
  using assms unfolding runner_startup_def
  apply -
  apply (erule ro_peelE, (rule ro.stays_basic ro_fail ro_runner_db [OF ro_startup_checks(1)] ro_runner_db [OF ro_startup_checks(2)]
      ro_runner_db [OF ro_startup_checks(3)] ro_runner_db [OF ro_startup_checks(4)] ro_runner_db [OF ro_startup_checks(5)]))+
  apply (simp add: lift_result_ok case_err_ok ret_ok)
  done

text \<open>
  C5. The program that runs is the engine the theorems are about.  Whatever the process finds at startup, whatever the ticks
  bring (stream state, database faults, venue answers, clocks) and whatever the ingest tasks do to the shared database in
  between, a run of the persistent runner that passes its startup checks is a run of the engine under the
  configuration it was started with, so every reachable-state theorem holds for it; a run that does not pass them changes nothing.
\<close>

theorem runner_refines_engine:
  assumes "\<forall>t \<in> set ts. ingest_ok X t"
    and "\<forall>config. from_env X (si_env si) = Inr config \<longrightarrow> engine_run X config w"
    and "copy_persistent X debug si ts w = (r, w')"
  shows "(\<exists>e. fst (runner_startup X si w) = Inl e \<and> r = Inl e \<and> w' = w) \<or>
    (\<exists>config resolver. fst (runner_startup X si w) = Inr (config, resolver) \<and> from_env X (si_env si) = Inr config \<and> engine_run X config w')"
proof -
  from and_then_stays_ok [OF assms(3) [unfolded copy_persistent_def] ro_startup]
  consider e where "runner_startup X si w = (Inl e, w)" "r = Inl e" "w' = w"
    | config resolver where "runner_startup X si w = (Inr (config, resolver), w)" "runner_loop X debug config ts w = (r, w')"
    by auto
  then show ?thesis
  proof cases
    case 2
    have c: "from_env X (si_env si) = Inr config" using startup_ok [OF 2(1)] by blast
    have "engine_run X config w" using assms(2) c by blast
    then have "engine_run X config w'" by (rule keepsD [OF running_loop [OF assms(1)] _ 2(2)])
    with 2(1) c show ?thesis by simp
  qed simp
qed

section \<open>Doubt stops the runner\<close>

definition fuse_latched :: "int \<Rightarrow> db \<Rightarrow> bool" where
  "fuse_latched account_id d \<longleftrightarrow> list_ex (\<lambda>r. fu_account_id r = account_id) (execution_fuse d)"

definition pause_refused :: "tick_input \<Rightarrow> int \<Rightarrow> db \<Rightarrow> persistent_error \<Rightarrow> bool" where
  "pause_refused t account_id d p \<longleftrightarrow> (\<exists>reason.
     faulty (pause_fuse (ti_pause_clock t) account_id reason ''copy_persistent'') PersDatabase (ti_pause_fault t) d = (Inl p, d))"

text \<open>The outcomes after which the next intent may be worked.\<close>

definition clean_outcome :: "bool \<Rightarrow> orchestrate_error + orchestrate_outcome \<Rightarrow> bool" where
  "clean_outcome is_poll outcome \<longleftrightarrow> (case outcome of
       Inr out \<Rightarrow> (case out of OUncertain \<Rightarrow> False | ONeedsReconcile _ \<Rightarrow> False | OBlocked _ \<Rightarrow> False | _ \<Rightarrow> True)
     | Inl e \<Rightarrow> e = EPersistent DecisionExpired \<and> \<not> is_poll)"

lemma pause_error: "pause_fuse clock acc reason actor d = (Inl p, d') \<Longrightarrow> d' = d"
  unfolding pause_fuse_def
  by (auto simp: and_then_error reads_ok assert_that_ok lift_result_ok reads_def assert_that_def lift_result_def raise_def ret_def modifies_def
      split: if_splits)

lemma open_fuse_cases:
  assumes "open_runtime_fuse t acc reason w = (r, w')"
  shows "(r = Inr () \<and> fuse_latched acc (w_db w')) \<or> (\<exists>p. r = Inl (RPersistent p) \<and> w' = w \<and> pause_refused t acc (w_db w) p)"
proof -
  obtain q d where q: "faulty (pause_fuse (ti_pause_clock t) acc reason ''copy_persistent'') PersDatabase (ti_pause_fault t) (w_db w) = (q, d)"
    by (cases "faulty (pause_fuse (ti_pause_clock t) acc reason ''copy_persistent'') PersDatabase (ti_pause_fault t) (w_db w)")
  show ?thesis
  proof (cases q)
    case (Inl p)
    then have d: "d = w_db w" using q by (auto simp: faulty_def raise_def dest: pause_error split: option.splits)
    with Inl q assms show ?thesis unfolding pause_refused_def by (auto simp: open_runtime_fuse_def runner_db_def)
  next
    case (Inr u)
    with q have "pause_fuse (ti_pause_clock t) acc reason ''copy_persistent'' (w_db w) = (Inr u, d)"
      by (auto simp: faulty_def raise_def split: option.splits)
    from pause_opens(1) [OF this] Inr q assms show ?thesis by (auto simp: open_runtime_fuse_def runner_db_def fuse_latched_def list_ex_iff)
  qed
qed

definition stopped_safely :: "tick_input \<Rightarrow> int \<Rightarrow> db \<Rightarrow> runner_error \<Rightarrow> bool" where
  "stopped_safely t account_id d e \<longleftrightarrow> fuse_latched account_id d \<or>
     (\<exists>p. e = RPersistent p \<and> (leaves_fuse_closed p \<or> pause_refused t account_id d p))"

lemma stop_cases:
  assumes "stop_with_fuse t acc reason w = (r, w')"
  shows "\<exists>e. r = Inl e \<and> stopped_safely t acc (w_db w') e"
proof -
  obtain q w1 where q: "open_runtime_fuse t acc reason w = (q, w1)" by (cases "open_runtime_fuse t acc reason w")
  from open_fuse_cases [OF q] show ?thesis
    using assms q by (auto simp: stop_with_fuse_def and_then_def raise_def stopped_safely_def)
qed

lemma open_then_raise:
  assumes "and_then (open_runtime_fuse t acc reason) (\<lambda>_. raise e) w = (r, w')"
  shows "\<exists>e. r = Inl e \<and> stopped_safely t acc (w_db w') e"
proof -
  obtain q w1 where q: "open_runtime_fuse t acc reason w = (q, w1)" by (cases "open_runtime_fuse t acc reason w")
  from open_fuse_cases [OF q] show ?thesis
    using assms q by (auto simp: and_then_def raise_def stopped_safely_def)
qed

lemma after_outcome_cases:
  assumes "after_outcome X debug t acc is_poll i out w = (r, w')"
  shows "(r = Inr () \<and> w' = w \<and> clean_outcome is_poll out) \<or> (\<exists>e. r = Inl e \<and> stopped_safely t acc (w_db w') e \<and> \<not> clean_outcome is_poll out)"
proof (cases out)
  case (Inr o')
  then show ?thesis
    using assms stop_cases [of t acc _ w r w']
    by (cases o') (auto simp: after_outcome_def clean_outcome_def gtd_poll_requires_fuse_def ret_def split: if_splits)
next
  case (Inl e)
  then show ?thesis
    using assms stop_cases [of t acc _ w r w'] open_then_raise [of t acc _ _ w r w']
    by (cases e) (auto simp: after_outcome_def clean_outcome_def ret_def raise_def stopped_safely_def split: if_splits)
qed

lemma work_stops_safely:
  "work_intents X debug config t k ps w = (Inl e, w') \<Longrightarrow> stopped_safely t (cf_account_id config) (w_db w') e"
proof (induction ps arbitrary: k w)
  case Nil
  then show ?case by (simp add: ret_def)
next
  case (Cons p ps)
  let ?w = "w\<lparr>w_db := ti_ingest t (k + 3) (w_db w)\<rparr>"
  obtain out w1 where one: "work_one X config t k p ?w = (out, w1)" by (cases "work_one X config t k p ?w")
  obtain r w2 where after: "after_outcome X debug t (cf_account_id config) (fst p) (snd p) out w1 = (r, w2)"
    by (cases "after_outcome X debug t (cf_account_id config) (fst p) (snd p) out w1")
  have eq: "work_intents X debug config t k (p # ps) w =
      (case r of Inl e \<Rightarrow> (Inl e, w2) | Inr _ \<Rightarrow> work_intents X debug config t (Suc k) ps w2)"
    by (simp add: and_then_def ingest_meanwhile_def modifies_def one after)
  show ?case
  proof (cases r)
    case (Inl e')
    with Cons.prems eq after_outcome_cases [OF after] show ?thesis by auto
  next
    case (Inr u)
    with Cons.prems eq Cons.IH [of "Suc k" w2] show ?thesis by simp
  qed
qed

lemma latched_refuses: "fuse_latched acc (w_db w) \<Longrightarrow> runner_db RPersistent (ensure_fuse_clear acc) w \<noteq> (Inr (), w)"
  by (auto simp: fuse_latched_def runner_db_def ensure_fuse_clear_def fuse_status_def act_simps find_row_def list_ex_iff find_None_iff
      split: option.splits)

text \<open>
  C6. Doubt stops the runner and keeps it stopped.  After an intent is worked the loop goes on only when its outcome is
  clean and then changes nothing: an uncertain, blocked or needs-reconciliation outcome and every error but
  an expired decision end the tick with an error.  When a tick ends with an error while working intents, the account's fuse
  is open, or the error is one of the three budget refusals, or it is the error that writing the fuse itself returned.  While the
  fuse is open no start of the runner passes its checks.
\<close>

theorem runner_stops_on_doubt:
  "(after_outcome X debug t acc is_poll i out w = (Inr (), w1) \<longrightarrow> clean_outcome is_poll out \<and> w1 = w) \<and>
   (work_intents X debug config t k ps w = (Inl e, w2) \<longrightarrow>
      fuse_latched (cf_account_id config) (w_db w2) \<or>
      (\<exists>p. e = RPersistent p \<and> (leaves_fuse_closed p \<or> pause_refused t (cf_account_id config) (w_db w2) p))) \<and>
   (fuse_latched (cf_account_id config) (w_db w) \<and> from_env X (si_env si) = Inr config \<longrightarrow>
      (\<exists>e. runner_startup X si w = (Inl e, w)))"
proof (intro conjI impI)
  assume "after_outcome X debug t acc is_poll i out w = (Inr (), w1)"
  from after_outcome_cases [OF this] show "clean_outcome is_poll out" "w1 = w" by auto
next
  assume "work_intents X debug config t k ps w = (Inl e, w2)"
  from work_stops_safely [OF this] show "fuse_latched (cf_account_id config) (w_db w2) \<or>
      (\<exists>p. e = RPersistent p \<and> (leaves_fuse_closed p \<or> pause_refused t (cf_account_id config) (w_db w2) p))"
    by (simp add: stopped_safely_def)
next
  assume a: "fuse_latched (cf_account_id config) (w_db w) \<and> from_env X (si_env si) = Inr config"
  obtain r w' where s: "runner_startup X si w = (r, w')" by (cases "runner_startup X si w")
  have "w' = w" by (rule ro_state [OF ro_startup s])
  moreover have "r \<noteq> Inr (c, rs)" for c rs
    using startup_ok [of X si w c rs w'] s a latched_refuses [of "cf_account_id config" w] by auto
  ultimately show "\<exists>e. runner_startup X si w = (Inl e, w)" using s by (cases r) auto
qed

section \<open>Which intents a tick works\<close>

definition allowed_intent :: "int list \<Rightarrow> db \<Rightarrow> int \<Rightarrow> bool" where
  "allowed_intent allowed d i \<longleftrightarrow> (case intent_by_id i d of Some ci \<Rightarrow> ci_leader_id ci \<in> set allowed | None \<Rightarrow> False)"

definition capped_intent :: "ext \<Rightarrow> decimal \<Rightarrow> db \<Rightarrow> int \<Rightarrow> bool" where
  "capped_intent X cap d i \<longleftrightarrow> (\<exists>ci snapshot q. intent_by_id i d = Some ci \<and> policy_of_json X (ci_config_snapshot_json ci) = Some snapshot \<and>
     parse_dec X (max_order_notional snapshot) = Some q \<and> q \<le> cap)"

lemma select_step:
  assumes "select_allowed X allowed cap ((b, i) # ids) polls work d = (Inr r, d')" "b \<or> work = []"
  shows "(allowed_intent allowed d i \<longrightarrow> capped_intent X cap d i) \<and>
    select_allowed X allowed cap ids (if b \<and> allowed_intent allowed d i then polls @ [i] else polls)
      (if \<not> b \<and> allowed_intent allowed d i then work @ [i] else work) d = (Inr r, d')"
proof -
  have "\<exists>ci. intent_by_id i d = Some ci"
    using assms by (cases "intent_by_id i d") (auto simp: act_simps)
  then obtain ci where ci: "intent_by_id i d = Some ci" ..
  show ?thesis
  proof (cases "ci_leader_id ci \<in> set allowed")
    case False
    then show ?thesis using assms ci by (auto simp: act_simps allowed_intent_def)
  next
    case True
    have "\<exists>s q. policy_of_json X (ci_config_snapshot_json ci) = Some s \<and> parse_dec X (max_order_notional s) = Some q \<and> q \<le> cap"
      using assms ci True
      by (cases "policy_of_json X (ci_config_snapshot_json ci)"; cases "parse_dec X (max_order_notional (the (policy_of_json X (ci_config_snapshot_json ci))))")
        (auto simp: act_simps not_less split: if_splits)
    then show ?thesis using assms ci True by (auto simp: act_simps allowed_intent_def capped_intent_def)
  qed
qed

lemma select_polls:
  "select_allowed X allowed cap (map (Pair True) ps @ ids) polls work d = (Inr r, d') \<Longrightarrow>
   (\<forall>i \<in> set (filter (allowed_intent allowed d) ps). capped_intent X cap d i) \<and>
   select_allowed X allowed cap ids (polls @ filter (allowed_intent allowed d) ps) work d = (Inr r, d')"
proof (induction ps arbitrary: polls)
  case (Cons i ps)
  from select_step [OF Cons.prems [unfolded list.map append_Cons]] have
    c: "allowed_intent allowed d i \<longrightarrow> capped_intent X cap d i" and
    s: "select_allowed X allowed cap (map (Pair True) ps @ ids) (if allowed_intent allowed d i then polls @ [i] else polls) work d = (Inr r, d')"
    by simp_all
  from Cons.IH [OF s] c show ?case by (cases "allowed_intent allowed d i") auto
qed simp

lemma select_work:
  "select_allowed X allowed cap (map (Pair False) ws) polls [] d = (Inr r, d') \<Longrightarrow>
   (\<forall>i \<in> set (take 1 (filter (allowed_intent allowed d) ws)). capped_intent X cap d i) \<and>
   r = (polls, take 1 (filter (allowed_intent allowed d) ws))"
proof (induction ws)
  case (Cons i ws)
  from select_step [OF Cons.prems [unfolded list.map]] have
    c: "allowed_intent allowed d i \<longrightarrow> capped_intent X cap d i" and
    s: "select_allowed X allowed cap (map (Pair False) ws) polls (if allowed_intent allowed d i then [i] else []) d = (Inr r, d')"
    by (auto split: if_splits)
  show ?case
  proof (cases "allowed_intent allowed d i")
    case True
    then have "r = (polls, [i])" using s by (cases ws) (simp_all add: ret_def)
    with True c show ?thesis by simp
  next
    case False
    with s Cons.IH show ?thesis by simp
  qed
qed (simp add: ret_def)

text \<open>
  C32. A tick polls every live order of the allowed leaders and opens at most one new piece of work.  The selection reads the
  database only; the polls are exactly the accepted GTD orders of intents of allowed leaders, and the work is the
  first runnable intent of an allowed leader in deadline order, so an intent of another leader neither runs nor keeps the
  allowed ones waiting; every selected intent was planned under a per-order cap that the configuration still permits.
\<close>

theorem selection_scoped_and_capped:
  assumes "runnable_intents_for_allowed_leaders X acc allowed cap d = (Inr (polls, work), d')"
  shows "d' = d \<and> polls = filter (allowed_intent allowed d) (gtd_polls X acc d) \<and>
    (\<exists>runnable. list_runnable_intents acc d = (Inr runnable, d) \<and>
       work = take 1 (filter (allowed_intent allowed d) (filter (\<lambda>i. i \<notin> set (gtd_polls X acc d)) runnable))) \<and>
    (\<forall>i \<in> set (polls @ work). capped_intent X cap d i)"
proof -
  have d: "d' = d" by (rule ro_state [OF ro_runnable assms])
  define runnable where "runnable = map ci_id (sort_key deadline_key (filter
     (\<lambda>ci. ci_account_id ci = acc \<and> (ci_status ci = Pending \<or> ci_status ci = InProgress) \<and> \<not> token_blocked ci d) (copy_intents d)))"
  have l: "list_runnable_intents acc d = (Inr runnable, d)" by (simp add: list_runnable_intents_def reads_def runnable_def)
  have "list_runnable_intents_by_phase X acc d = (Inr (gtd_polls X acc d, filter (\<lambda>i. i \<notin> set (gtd_polls X acc d)) runnable), d)"
    by (simp add: list_runnable_intents_by_phase_def act_simps l)
  then have s: "select_allowed X allowed cap (map (Pair True) (gtd_polls X acc d) @
      map (Pair False) (filter (\<lambda>i. i \<notin> set (gtd_polls X acc d)) runnable)) [] [] d = (Inr (polls, work), d')"
    using assms by (simp add: runnable_intents_for_allowed_leaders_def and_then_def map_error_def)
  from select_polls [OF s] have p: "\<forall>i \<in> set (filter (allowed_intent allowed d) (gtd_polls X acc d)). capped_intent X cap d i"
    and s': "select_allowed X allowed cap (map (Pair False) (filter (\<lambda>i. i \<notin> set (gtd_polls X acc d)) runnable))
      (filter (allowed_intent allowed d) (gtd_polls X acc d)) [] d = (Inr (polls, work), d')" by simp_all
  from select_work [OF s'] p d l show ?thesis by auto
qed

text \<open>While one process holds the lock of a database, a second one ends with the collision's exit code; after the release it may start.\<close>

lemma second_runner_refused:
  assumes "acquire_for_database path fs = (Inr lock, fs')" "si_locks si = fs'" "si_env si ''POLYCOPY_DB_PATH'' = Some path"
    and "from_env X (si_env si) = Inr config"
  shows "runner_startup X si w = (Inl LockCollision, w) \<and> runner_exit_code LockCollision = 20 \<and>
    (lf_io_error fs (path_for_database path) = None \<and> path_for_database path \<notin> lf_held (release_lock lock fs'))"
proof -
  from assms(1) have lock: "lock = path_for_database path" "lf_io_error fs lock = None"
    and fs': "fs' = fs\<lparr>lf_held := insert lock (lf_held fs)\<rparr>"
    by (auto simp: acquire_for_database_def try_acquire_def split: option.splits if_splits)
  have "acquire_for_database path (si_locks si) = (Inl (AlreadyHeld lock), fs')"
    using lock by (simp add: assms(2) fs' acquire_for_database_def try_acquire_def)
  then have "runner_startup X si w = (Inl LockCollision, w)"
    by (simp add: runner_startup_def and_then_def or_raise_def ret_def lift_result_def raise_def assms(3,4))
  with lock show ?thesis by (simp add: fs' release_lock_def runner_exit_code_def exit_lock_collision_def)
qed

section \<open>The properties on a sample\<close>

definition configured_db0 :: db where
  "configured_db0 = db1\<lparr>execution_config := Some (config_row ext0 config0)\<rparr>"

definition startup0 :: startup_input where
  "startup0 = \<lparr>si_env = env0(''POLYCOPY_DB_PATH'' \<mapsto> ''db''), si_locks = \<lparr>lf_io_error = (\<lambda>_. None), lf_held = {}\<rparr>,
     si_open_error = None, si_adapter_error = None, si_reload_error = None, si_spawn_error = None\<rparr>"

definition tick0 :: "copy_execution \<Rightarrow> envelope_factory \<Rightarrow> trade_history_reader \<Rightarrow> tick_input" where
  "tick0 execution envelopes history = \<lparr>ti_realtime_finished = True, ti_gate_connected = False, ti_fuse_faults = (\<lambda>_. None),
     ti_plan_faults = (\<lambda>_. None), ti_list_faults = (\<lambda>_. None), ti_pause_fault = None, ti_pause_clock = 9,
     ti_plan_clk = (\<lambda>_ _. 0), ti_reader = (\<lambda>_. reader0), ti_execution = (\<lambda>_. execution), ti_envelopes = (\<lambda>_. envelopes),
     ti_history = (\<lambda>_. history), ti_clk = (\<lambda>_ _. 0), ti_now = (\<lambda>_. 0), ti_ingest = (\<lambda>_ d. d)\<rparr>"

lemma startup0_env: "from_env ext0 (si_env startup0) = Inr config0"
proof -
  let ?env = "env0(''POLYCOPY_DB_PATH'' \<mapsto> ''db'')"
  have "required_env ?env n = required_env env0 n" if "n \<noteq> ''POLYCOPY_DB_PATH''" for n using that by (simp add: required_env_def)
  then have "parse_i64_env ?env n = parse_i64_env env0 n" "parse_u64_env ?env n = parse_u64_env env0 n" "required_env ?env n = required_env env0 n"
    if "n \<noteq> ''POLYCOPY_DB_PATH''" for n using that by (simp_all add: parse_i64_env_def parse_u64_env_def)
  then have "from_env ext0 ?env = from_env ext0 env0" by (simp add: from_env_def cong: sum.case_cong)
  then show ?thesis by (simp add: startup0_def from_env0)
qed

lemma verify_configured: "verify_config ext0 config0 configured_db0 = (Inr (), configured_db0)"
proof -
  have v: "valid_config config0" using from_env0 from_env_values [of ext0 env0 config0] from_values_valid(1) by metis
  let ?row = "config_row ext0 config0"
  have f: "from_values ext0 (ec_account_id ?row) (ec_enabled ?row) (ec_allowed_leader_ids ?row)
        (ec_max_order_notional_usdc ?row) (ec_rolling_budget_usdc ?row) (as_u64 (ec_budget_window_seconds ?row))
        (as_u64 (ec_tick_seconds ?row)) (as_u64 (ec_backfill_every_seconds ?row)) = Inr config0"
    by (rule from_values_row [OF v ext0_dec_codec]) (simp_all add: config0_def)
  have e: "execution_config configured_db0 = Some ?row" by (simp add: configured_db0_def)
  have "validate_account_and_leaders config0 configured_db0 = (Inr (), configured_db0)"
    by (simp add: validate_account_and_leaders_def act_simps configured_db0_def sample_defs config0_def del: set_filter)
  moreover have "cf_enabled config0" by (simp add: config0_def)
  ultimately show ?thesis by (simp add: verify_config_def act_simps e f)
qed

lemma startup0_ok:
  "runner_startup ext0 startup0 \<lparr>w_db = configured_db0, posted = []\<rparr> =
     (Inr (config0, reload_from_db configured_db0), \<lparr>w_db = configured_db0, posted = []\<rparr>)"
proof -
  let ?w = "\<lparr>w_db = configured_db0, posted = []\<rparr>"
  have 1: "runner_db RPersistent (verify_config ext0 config0) ?w = (Inr (), ?w)" by (simp add: runner_db_def verify_configured)
  have 2: "runner_db wrap verify_schedule_compatible_with_pending_work ?w = (Inr (), ?w)" for wrap
    by (simp add: runner_db_def verify_schedule_compatible_with_pending_work_def load_execution_schedule_def act_simps configured_db0_def sample_defs)
  have 3: "runner_db RPersistent (verify_single_allowed_leader_scope (cf_allowed_leader_ids config0)) ?w = (Inr (), ?w)"
    by (simp add: runner_db_def verify_single_allowed_leader_scope_def act_simps configured_db0_def sample_defs config0_def del: set_filter)
  have 4: "runner_db RPersistent (ensure_fuse_clear acc) ?w = (Inr (), ?w)" for acc
    by (simp add: runner_db_def ensure_fuse_clear_def fuse_status_def find_row_def act_simps configured_db0_def sample_defs)
  have 5: "runner_db RPersistent (assert_startup_clear acc) ?w = (Inr (), ?w)" for acc
    by (simp add: runner_db_def assert_startup_clear_def act_simps configured_db0_def sample_defs)
  have l: "fst (acquire_for_database ''db'' (si_locks startup0)) = Inr (path_for_database ''db'')"
    by (simp add: acquire_for_database_def try_acquire_def startup0_def)
  have s: "si_env startup0 ''POLYCOPY_DB_PATH'' = Some ''db''" "si_open_error startup0 = None" "si_adapter_error startup0 = None" "si_reload_error startup0 = None" "si_spawn_error startup0 = None"
    by (simp_all add: startup0_def)
  show ?thesis
    unfolding runner_startup_def and_then_def
    by (simp add: startup0_env 1 2 3 4 5 l s or_raise_def lift_result_def ret_def fail_if_def reads_def)
qed

lemma configured_run: "engine_run ext0 config0 \<lparr>w_db = configured_db0, posted = []\<rparr>"
proof (rule engine_run.start)
  show "books ext0 configured_db0"
    by (auto simp: books_def lots_balanced_def lot_value_def booked_def fill_of_def attempts_linked_def intents.keyed_def
        attempts.keyed_def configured_db0_def sample_defs intent_by_id_def lot_row_def dec_val_def side_from_str_def)
  show "one_live configured_db0" by (auto simp: one_live_def attempts.keyed_def configured_db0_def sample_defs)
qed

lemma stop_sample:
  assumes "list_ex (\<lambda>r. acc_id r = acc) (accounts (w_db w))" "trim reason \<noteq> []" "ti_pause_fault t = None"
  shows "\<exists>w'. stop_with_fuse t acc reason w = (Inl (RPersistent FuseOpen), w') \<and> posted w' = posted w"
  using assms
  by (simp add: stop_with_fuse_def open_runtime_fuse_def runner_db_def faulty_def pause_fuse_def non_empty_def act_simps trim_def is_space_def)

theorem runner_refines_engine_witness:
  "\<exists>t w'. ingest_ok ext0 t \<and>
     copy_persistent ext0 (\<lambda>_. []) startup0 [t] \<lparr>w_db = configured_db0, posted = []\<rparr> = (Inl (RPersistent FuseOpen), w') \<and>
     engine_run ext0 config0 w'"
proof -
  fix execution :: copy_execution and envelopes history
  let ?t = "tick0 execution envelopes history" and ?w = "\<lparr>w_db = configured_db0, posted = []\<rparr>"
  have i: "ingest_ok ext0 ?t" by (simp add: ingest_ok_def tick0_def)
  have "\<exists>w'. stop_with_fuse ?t 1 ''activity websocket supervisor stopped'' ?w = (Inl (RPersistent FuseOpen), w') \<and> posted w' = posted ?w"
    by (rule stop_sample) (simp_all add: configured_db0_def sample_defs tick0_def trim_def is_space_def)
  then obtain w' where s: "stop_with_fuse ?t 1 ''activity websocket supervisor stopped'' ?w = (Inl (RPersistent FuseOpen), w')" by blast
  have f: "ti_realtime_finished ?t" "cf_account_id config0 = 1" by (simp_all add: tick0_def config0_def)
  have c: "copy_persistent ext0 (\<lambda>_. []) startup0 [?t] ?w = (Inl (RPersistent FuseOpen), w')"
    by (simp add: copy_persistent_def and_then_def startup0_ok runner_tick_def f s)
  have e: "\<forall>config. from_env ext0 (si_env startup0) = Inr config \<longrightarrow> engine_run ext0 config ?w"
    using configured_run by (simp add: startup0_env)
  from i have "\<forall>t \<in> set [?t]. ingest_ok ext0 t" by simp
  from runner_refines_engine [OF this e c] have "engine_run ext0 config0 w'" by (auto simp: startup0_ok)
  with i c show ?thesis by blast
qed

definition doubtful_db0 :: db where
  "doubtful_db0 = configured_db0\<lparr>copy_intents := [intent0, intent0\<lparr>ci_id := 2, ci_status := NeedsReconcile\<rparr>]\<rparr>"

theorem runner_stops_on_doubt_witness:
  "\<exists>t w2 e. work_intents ext0 (\<lambda>_. []) config0 t 0 [(False, 1)] \<lparr>w_db = doubtful_db0, posted = []\<rparr> = (Inl (RPersistent FuseOpen), w2) \<and>
     fuse_latched 1 (w_db w2) \<and> runner_startup ext0 startup0 w2 = (Inl e, w2)"
proof -
  fix execution :: copy_execution and envelopes history
  let ?t = "tick0 execution envelopes history" and ?w = "\<lparr>w_db = doubtful_db0, posted = []\<rparr>"
  let ?reason = "''account/token needs reconciliation''"
  have b: "work_one ext0 config0 ?t 0 (False, 1) ?w = (Inr (OBlocked ?reason), ?w)"
    by (simp add: work_one_def execute_one_intent_with_marker_def and_then_def on_db_def token_has_open_reconciliation_lock_def reads_def ret_def
        doubtful_db0_def sample_defs)
  have "\<exists>w'. stop_with_fuse ?t 1 ?reason ?w = (Inl (RPersistent FuseOpen), w') \<and> posted w' = posted ?w"
    by (rule stop_sample) (simp_all add: doubtful_db0_def configured_db0_def sample_defs tick0_def trim_def is_space_def)
  then obtain w2 where s: "stop_with_fuse ?t 1 ?reason ?w = (Inl (RPersistent FuseOpen), w2)" by blast
  have a: "after_outcome ext0 (\<lambda>_. []) ?t 1 False 1 (Inr (OBlocked ?reason)) ?w = (Inl (RPersistent FuseOpen), w2)"
    by (simp add: after_outcome_def s)
  have m: "ingest_meanwhile ?t 3 ?w = (Inr (), ?w)" by (simp add: ingest_meanwhile_def modifies_def tick0_def)
  have acc: "cf_account_id config0 = 1" by (simp add: config0_def)
  have c: "work_intents ext0 (\<lambda>_. []) config0 ?t 0 [(False, 1)] ?w = (Inl (RPersistent FuseOpen), w2)"
    by (simp add: and_then_def m b a acc)
  have n: "\<not> leaves_fuse_closed FuseOpen" "\<not> pause_refused ?t 1 d FuseOpen" for d
    by (auto simp: leaves_fuse_closed_def pause_refused_def tick0_def faulty_def pause_fuse_def non_empty_def act_simps Let_def split: if_splits)
  have l: "fuse_latched 1 (w_db w2)"
    using runner_stops_on_doubt [of ext0 "\<lambda>_. []" ?t 1 False 1 "Inr (OBlocked ?reason)" ?w w2 config0 0 "[(False, 1)]" "RPersistent FuseOpen" w2 startup0] c n acc
    by auto
  then have "\<exists>e. runner_startup ext0 startup0 w2 = (Inl e, w2)"
    using runner_stops_on_doubt [of ext0 "\<lambda>_. []" ?t 1 False 1 "Inr (OBlocked ?reason)" w2 w2 config0 0 "[(False, 1)]" "RPersistent FuseOpen" w2 startup0] acc
    by (simp add: startup0_env)
  with c l show ?thesis by blast
qed

theorem selection_scoped_and_capped_witness:
  "runnable_intents_for_allowed_leaders ext0 1 [1] 5 db1 = (Inr ([], [1]), db1) \<and> capped_intent ext0 5 db1 1"
proof -
  have "gtd_polls ext0 1 db1 = []" by (simp add: gtd_polls_def accepted_gtd_def sample_defs)
  then have r: "runnable_intents_for_allowed_leaders ext0 1 [1] 5 db1 = (Inr ([], [1]), db1)"
    by (simp add: runnable_intents_for_allowed_leaders_def list_runnable_intents_by_phase_def list_runnable_intents_def act_simps map_error_def
        token_blocked_def sample_defs intent_by_id_def)
  from selection_scoped_and_capped [OF r] r show ?thesis by simp
qed

end
