(* ===== verification/Json.thy ===== *)
theory Json
  imports Setup
begin

text \<open>
  JSON values as \<open>serde_json::Value\<close> has them, with the accessors the code uses, and the hexadecimal numbers and hashes that
  travel in them (\<open>hex_number\<close> and \<open>hash\<close> of \<open>src/src/venue/gtd_chain_evidence.rs\<close>).  A number that is not an integer is kept as
  its text; the keys of an object are unique.
\<close>

section \<open>JSON values\<close>

datatype json = JNull | JBool bool | JNumber int | JDecimal string | JString string | JArray "json list" | JObject "(string \<times> json) list"

text \<open>\<open>value.get(name)\<close>, \<open>value[name]\<close> and \<open>value[i]\<close>, which are null where there is nothing.\<close>

definition json_get :: "string \<Rightarrow> json \<Rightarrow> json option" where
  "json_get name v = (case v of JObject fs \<Rightarrow> map_of fs name | _ \<Rightarrow> None)"

definition json_field :: "json \<Rightarrow> string \<Rightarrow> json" where
  "json_field v name = (case json_get name v of None \<Rightarrow> JNull | Some x \<Rightarrow> x)"

definition json_nth :: "json \<Rightarrow> nat \<Rightarrow> json" where
  "json_nth v i = (case v of JArray xs \<Rightarrow> if i < length xs then xs ! i else JNull | _ \<Rightarrow> JNull)"

definition as_str :: "json \<Rightarrow> string option" where
  "as_str v = (case v of JString s \<Rightarrow> Some s | _ \<Rightarrow> None)"

definition as_array :: "json \<Rightarrow> json list option" where
  "as_array v = (case v of JArray xs \<Rightarrow> Some xs | _ \<Rightarrow> None)"

definition json_u64 :: "json \<Rightarrow> nat option" where
  "json_u64 v = (case v of JNumber i \<Rightarrow> if 0 \<le> i \<and> i < 2 ^ 64 then Some (nat i) else None | _ \<Rightarrow> None)"

definition is_text :: "string \<Rightarrow> json \<Rightarrow> bool" where
  "is_text s v \<longleftrightarrow> (case as_str v of None \<Rightarrow> False | Some t \<Rightarrow> eq_ignore_ascii_case t s)"

section \<open>Numbers and hashes\<close>

definition hex_value :: "char \<Rightarrow> nat" where
  "hex_value c = (if c \<le> CHR ''9'' then of_char c - 48 else if c \<le> CHR ''F'' then of_char c - 55 else of_char c - 87)"

definition parse_hex :: "string \<Rightarrow> nat option" where
  "parse_hex s = (if s \<noteq> [] \<and> list_all is_ascii_hexdigit s then Some (foldl (\<lambda>n c. 16 * n + hex_value c) 0 s) else None)"

definition parse_hex_u64 :: "string \<Rightarrow> nat option" where
  "parse_hex_u64 s = (case parse_hex (case s of c # cs \<Rightarrow> if c = CHR ''+'' then cs else s | [] \<Rightarrow> []) of
       None \<Rightarrow> None | Some n \<Rightarrow> if n < 2 ^ 64 then Some n else None)"

definition hex_digit :: "nat \<Rightarrow> char" where
  "hex_digit n = ''0123456789abcdef'' ! n"

fun show_hex :: "nat \<Rightarrow> string" where
  "show_hex n = (if n < 16 then [hex_digit n] else show_hex (n div 16) @ [hex_digit (n mod 16)])"

declare show_hex.simps [simp del]

definition strip_0x :: "string \<Rightarrow> string option" where
  "strip_0x s = (if take 2 s = ''0x'' then Some (drop 2 s) else None)"

definition hex_number :: "json \<Rightarrow> string + nat" where
  "hex_number value = (case as_str value of
       None \<Rightarrow> Inl ''RPC number missing''
     | Some t \<Rightarrow> (case strip_0x t of
         None \<Rightarrow> Inl ''RPC number is not hex''
       | Some digits \<Rightarrow> (case parse_hex_u64 digits of None \<Rightarrow> Inl ''invalid RPC hex number'' | Some n \<Rightarrow> Inr n)))"

definition is_hex_text :: "nat \<Rightarrow> string \<Rightarrow> bool" where
  "is_hex_text n s \<longleftrightarrow> utf8_len s = n \<and> take 2 s = ''0x'' \<and> list_all is_ascii_hexdigit (drop 2 s)"

definition block_hash :: "json \<Rightarrow> string + string" where
  "block_hash value = (case as_str value of
       None \<Rightarrow> Inl ''missing block hash''
     | Some t \<Rightarrow> if is_hex_text 66 t then Inr (to_ascii_lowercase t) else Inl ''invalid block hash'')"

lemma hex_digit_ok:
  assumes "n < 16"
  shows "is_ascii_hexdigit (hex_digit n) \<and> hex_value (hex_digit n) = n \<and> hex_digit n \<noteq> CHR ''+''"
proof -
  from assms have "n \<in> {0, 1, 2, 3, 4, 5, 6, 7, 8, 9, 10, 11, 12, 13, 14, 15}" by (simp, arith)
  then show ?thesis
    by (elim insertE emptyE) (simp_all add: hex_digit_def hex_value_def is_ascii_hexdigit_def less_eq_char_def)
qed

lemma show_hex_digits:
  "show_hex n \<noteq> [] \<and> list_all is_ascii_hexdigit (show_hex n) \<and> hd (show_hex n) \<noteq> CHR ''+'' \<and>
   foldl (\<lambda>n c. 16 * n + hex_value c) 0 (show_hex n) = n"
proof (induction n rule: show_hex.induct)
  case (1 n)
  show ?case
  proof (cases "n < 16")
    case True
    then show ?thesis using hex_digit_ok [OF True] by (simp add: show_hex.simps [of n])
  next
    case False
    have "n mod 16 < 16" by simp
    from hex_digit_ok [OF this] 1 [OF False] False show ?thesis by (simp add: show_hex.simps [of n])
  qed
qed

lemma hex_number_show:
  assumes "n < 2 ^ 64" shows "hex_number (JString (''0x'' @ show_hex n)) = Inr n"
proof -
  obtain c cs where s: "show_hex n = c # cs" using show_hex_digits [of n] by (cases "show_hex n") auto
  with show_hex_digits [of n] have "parse_hex (show_hex n) = Some n" "c \<noteq> CHR ''+''" by (auto simp: parse_hex_def)
  with s assms show ?thesis by (simp add: hex_number_def as_str_def strip_0x_def parse_hex_u64_def)
qed

end
