(* ===== verification/Signing.thy ===== *)
theory Signing
  imports Json
begin

text \<open>
  Preparation of signed orders: the offline order id (\<open>src/src/venue/order_hash.rs\<close>), the envelope of a sized decision
  (\<open>src/src/copytrading/prepare.rs\<close>), the signed order rebuilt from the persisted text (\<open>src/src/venue/signed_order.rs\<close>), and the
  check that a persisted text is the order its id names (\<open>src/src/venue/gtd_signed_identity.rs\<close>).

  The types and the printing of a signed order are those of the vendored SDK; its parsers, hashes, builders and the signature
  are the records \<open>sdk\<close> and \<open>order_client\<close>.  A 256-bit integer is a natural number, an address, a hash or a signature is a text.
\<close>

definition try_then :: "'e + 'a \<Rightarrow> ('a \<Rightarrow> 'e + 'b) \<Rightarrow> 'e + 'b" where
  "try_then r f = (case r of Inl e \<Rightarrow> Inl e | Inr x \<Rightarrow> f x)"

definition map_err :: "('e \<Rightarrow> 'f) \<Rightarrow> 'e + 'a \<Rightarrow> 'f + 'a" where
  "map_err g r = (case r of Inl e \<Rightarrow> Inl (g e) | Inr x \<Rightarrow> Inr x)"

definition ok_or :: "'e \<Rightarrow> 'a option \<Rightarrow> 'e + 'a" where
  "ok_or e x = (case x of None \<Rightarrow> Inl e | Some v \<Rightarrow> Inr v)"

lemma try_then_ok: "try_then r f = Inr y \<longleftrightarrow> (\<exists>x. r = Inr x \<and> f x = Inr y)"
  by (cases r) (auto simp: try_then_def)

lemma map_err_ok: "map_err g r = Inr y \<longleftrightarrow> r = Inr y"
  by (cases r) (auto simp: map_err_def)

lemma ok_or_ok: "ok_or e x = Inr y \<longleftrightarrow> x = Some y"
  by (cases x) (auto simp: ok_or_def)

lemma sum_if_ok: "(if b then Inl e else r) = Inr y \<longleftrightarrow> \<not> b \<and> r = Inr y"
  by auto

lemmas result_ok = try_then_ok map_err_ok ok_or_ok sum_if_ok

section \<open>Orders of the SDK\<close>

record order_v1 =
  v1_salt :: nat
  v1_maker :: string
  v1_signer :: string
  v1_taker :: string
  v1_token_id :: nat
  v1_maker_amount :: nat
  v1_taker_amount :: nat
  v1_expiration :: nat
  v1_nonce :: nat
  v1_fee_rate_bps :: nat
  v1_side :: nat
  v1_signature_type :: nat

record order_v2 =
  v2_salt :: nat
  v2_maker :: string
  v2_signer :: string
  v2_token_id :: nat
  v2_maker_amount :: nat
  v2_taker_amount :: nat
  v2_side :: nat
  v2_signature_type :: nat
  v2_timestamp :: nat
  v2_metadata :: string
  v2_builder :: string

datatype order_payload = PayloadV1 order_v1 | PayloadV2 order_v2 nat | OtherPayload

datatype order_type = GTC | FOK | GTD | FAK | UnknownType string

datatype order_signature = Ecdsa string | Wrapped string

record signed_order =
  so_payload :: order_payload
  so_signature :: order_signature
  so_order_type :: order_type
  so_owner :: string
  so_post_only :: "bool option"
  so_defer_exec :: "bool option"

record exchange_addresses =
  ea_v1 :: string
  ea_v2 :: "string option"

record eip712_domain =
  ed_name :: string
  ed_version :: string
  ed_chain_id :: nat
  ed_verifying_contract :: string

record sdk =
  parse_u256 :: "string \<Rightarrow> string + nat"
  parse_address :: "string \<Rightarrow> string + string"
  parse_b256 :: "string \<Rightarrow> string + string"
  parse_signature :: "string \<Rightarrow> string + string"
  parse_owner :: "string \<Rightarrow> string option"
  show_address :: "string \<Rightarrow> string"
  lower_hex_address :: "string \<Rightarrow> string"
  show_b256 :: "string \<Rightarrow> string"
  show_signature :: "string \<Rightarrow> string"
  show_owner :: "string \<Rightarrow> string"
  signing_hash_v1 :: "order_v1 \<Rightarrow> eip712_domain \<Rightarrow> string"
  signing_hash_v2 :: "order_v2 \<Rightarrow> eip712_domain \<Rightarrow> string"
  contract_config :: "bool \<Rightarrow> exchange_addresses option"
  read_json :: "string \<Rightarrow> string + json"
  print_json :: "json \<Rightarrow> string option"
  serde_error :: "string \<Rightarrow> string"

definition polygon :: nat where "polygon = 137"

section \<open>order\_hash.rs\<close>

datatype order_hash_error = HashUnsupportedSignatureType | MissingV2ExchangeAddress | UnsupportedPayloadVersion

definition order_hash_error_text :: "order_hash_error \<Rightarrow> string" where
  "order_hash_error_text e = (case e of
       HashUnsupportedSignatureType \<Rightarrow> ''order-ID computation does not support Poly1271 (deposit wallet) orders''
     | MissingV2ExchangeAddress \<Rightarrow> ''no V2 exchange contract is configured for this chain/neg-risk combination''
     | UnsupportedPayloadVersion \<Rightarrow> ''order-ID computation does not recognize this order payload version'')"

definition poly1271 :: nat where "poly1271 = 3"

definition order_domain :: "string \<Rightarrow> nat \<Rightarrow> string \<Rightarrow> eip712_domain" where
  "order_domain version chain_id exchange =
     \<lparr>ed_name = ''Polymarket CTF Exchange'', ed_version = version, ed_chain_id = chain_id, ed_verifying_contract = exchange\<rparr>"

definition expected_order_id :: "sdk \<Rightarrow> order_payload \<Rightarrow> exchange_addresses \<Rightarrow> nat \<Rightarrow> order_hash_error + string" where
  "expected_order_id S payload exchanges chain_id = (case payload of
       PayloadV1 order \<Rightarrow>
        if v1_signature_type order = poly1271 then Inl HashUnsupportedSignatureType
        else Inr (signing_hash_v1 S order (order_domain ''1'' chain_id (ea_v1 exchanges)))
     | PayloadV2 order _ \<Rightarrow>
        if v2_signature_type order = poly1271 then Inl HashUnsupportedSignatureType
        else (case ea_v2 exchanges of
                None \<Rightarrow> Inl MissingV2ExchangeAddress
              | Some exchange \<Rightarrow> Inr (signing_hash_v2 S order (order_domain ''2'' chain_id exchange)))
     | OtherPayload \<Rightarrow> Inl UnsupportedPayloadVersion)"

definition format_order_id :: "sdk \<Rightarrow> string \<Rightarrow> string" where
  "format_order_id S hash = show_b256 S hash"

section \<open>prepare.rs\<close>

datatype prepare_error =
  InvalidTokenId string
| MissingBuyBudget
| PostOnlyGtdRequiresFixedShareBuy
| InvalidBuyBudget decimal
| NonCentFixedShareMakerAmount decimal decimal decimal
| FixedShareBudgetMismatch decimal decimal
| OrderBuilding string
| OrderSigning string
| NegRiskQuery string
| MissingContractConfig
| UnsupportedPayload
| OrderHash order_hash_error
| OrderSerialization

definition prepare_error_text :: "ext \<Rightarrow> prepare_error \<Rightarrow> string" where
  "prepare_error_text X e = (case e of
       InvalidTokenId detail \<Rightarrow> ''invalid outcome token ID in decision: '' @ detail
     | MissingBuyBudget \<Rightarrow> ''BUY decision is missing its maker-side USDC budget''
     | PostOnlyGtdRequiresFixedShareBuy \<Rightarrow> ''post-only GTD requires a fixed-share BUY decision''
     | InvalidBuyBudget budget \<Rightarrow> ''BUY maker-side USDC budget must be positive with at most two decimals: '' @ show_dec X budget
     | NonCentFixedShareMakerAmount qty price maker_amount \<Rightarrow>
         ''fixed-share BUY ('' @ show_dec X qty @ '' shares at '' @ show_dec X price @ '') has non-cent maker amount: '' @
         show_dec X maker_amount
     | FixedShareBudgetMismatch expected actual \<Rightarrow>
         ''fixed-share BUY budget must equal its signed maker amount ('' @ show_dec X expected @ ''), got '' @ show_dec X actual
     | OrderBuilding source \<Rightarrow> ''order building failed: '' @ source
     | OrderSigning source \<Rightarrow> ''order signing failed: '' @ source
     | NegRiskQuery source \<Rightarrow> ''neg-risk query failed: '' @ source
     | MissingContractConfig \<Rightarrow> ''no contract config for the resolved chain/neg-risk''
     | UnsupportedPayload \<Rightarrow> ''unsupported order payload version''
     | OrderHash e \<Rightarrow> ''offline order hash failed: '' @ order_hash_error_text e
     | OrderSerialization \<Rightarrow> ''failed to serialize signed order to JSON'')"

text \<open>\<open>scale\<close> is the number of decimals a value is held with, which its value does not determine.\<close>

definition construction_amount :: "(decimal \<Rightarrow> nat) \<Rightarrow> sized_decision \<Rightarrow> prepare_error + clob_order_amount" where
  "construction_amount scale decision =
     (if sd_side decision = Buy \<and> sd_buy_shares_exact decision then
        let maker_amount = sd_qty decision * sd_limit_price decision in
        if maker_amount \<le> 0 \<or> more_than_cents maker_amount
        then Inl (NonCentFixedShareMakerAmount (sd_qty decision) (sd_limit_price decision) maker_amount)
        else (case sd_buy_budget decision of
                Some budget \<Rightarrow>
                  if budget = maker_amount then Inr (BuyTakerShares (sd_qty decision))
                  else Inl (FixedShareBudgetMismatch maker_amount budget)
              | None \<Rightarrow> Inl MissingBuyBudget)
      else (case (sd_side decision, sd_buy_budget decision) of
              (Buy, Some budget) \<Rightarrow>
                if 0 < budget \<and> scale budget \<le> 2 then Inr (BuyMakerUsdc budget) else Inl (InvalidBuyBudget budget)
            | (Buy, None) \<Rightarrow> Inl MissingBuyBudget
            | (Sell, _) \<Rightarrow> Inr (SellMakerShares (sd_qty decision))))"

text \<open>What the preparer asks of the SDK client, the signer and the neg-risk resolver.\<close>

datatype order_amount = Usdc decimal | Shares decimal

record order_spec =
  os_market :: bool
  os_token_id :: nat
  os_side :: side
  os_price :: decimal
  os_amount :: order_amount
  os_expiration :: "timestamp option"
  os_order_type :: order_type
  os_post_only :: bool

record order_client =
  amount_check :: "order_amount \<Rightarrow> string option"
  build_order :: "order_spec \<Rightarrow> string + order_payload"
  sign_order :: "order_spec \<Rightarrow> order_payload \<Rightarrow> string + signed_order"
  neg_risk :: "nat \<Rightarrow> string + bool"

definition fak_spec :: "nat \<Rightarrow> sized_decision \<Rightarrow> clob_order_amount \<Rightarrow> order_spec" where
  "fak_spec token_id decision amount =
     \<lparr>os_market = (case amount of SellMakerShares _ \<Rightarrow> False | _ \<Rightarrow> True), os_token_id = token_id, os_side = sd_side decision,
      os_price = sd_limit_price decision,
      os_amount = (case amount of BuyMakerUsdc budget \<Rightarrow> Usdc budget | BuyTakerShares shares \<Rightarrow> Shares shares
        | SellMakerShares shares \<Rightarrow> Shares shares),
      os_expiration = None, os_order_type = FAK, os_post_only = False\<rparr>"

definition checked_amount :: "order_client \<Rightarrow> clob_order_amount \<Rightarrow> prepare_error + unit" where
  "checked_amount c amount =
     (let check = (\<lambda>a. case amount_check c a of None \<Rightarrow> Inr () | Some e \<Rightarrow> Inl (OrderBuilding e)) in
      case amount of BuyMakerUsdc budget \<Rightarrow> check (Usdc budget) | BuyTakerShares shares \<Rightarrow> check (Shares shares)
        | SellMakerShares _ \<Rightarrow> Inr ())"

definition payload_token :: "order_payload \<Rightarrow> nat option" where
  "payload_token payload = (case payload of
       PayloadV2 order _ \<Rightarrow> Some (v2_token_id order) | PayloadV1 order \<Rightarrow> Some (v1_token_id order) | OtherPayload \<Rightarrow> None)"

definition compute_expected_taker_order_id :: "sdk \<Rightarrow> order_payload \<Rightarrow> exchange_addresses \<Rightarrow> nat \<Rightarrow> prepare_error + string" where
  "compute_expected_taker_order_id S payload exchanges chain_id =
     map_err OrderHash (case expected_order_id S payload exchanges chain_id of
       Inl e \<Rightarrow> Inl e | Inr hash \<Rightarrow> Inr (format_order_id S hash))"

definition extract_salt :: "signed_order \<Rightarrow> nat option" where
  "extract_salt so = (case (case so_payload so of
         PayloadV2 order _ \<Rightarrow> Some (v2_salt order) | PayloadV1 order \<Rightarrow> Some (v1_salt order) | OtherPayload \<Rightarrow> None) of
       None \<Rightarrow> None | Some salt \<Rightarrow> if salt < 2 ^ 64 then Some salt else None)"

definition assemble_envelope :: "ext \<Rightarrow> sized_decision \<Rightarrow> signed_order \<Rightarrow> string \<Rightarrow> string \<Rightarrow> prepared_order_envelope" where
  "assemble_envelope X decision so order_id signed_json =
     \<lparr>en_token_id = sd_token_id decision, en_side = side_as_str (sd_side decision), en_price = show_dec X (sd_limit_price decision),
      en_size = show_dec X (sd_qty decision), en_buy_budget_usdc = map_option (show_dec X) (sd_buy_budget decision),
      en_buy_shares_exact = sd_buy_shares_exact decision, en_salt = (case extract_salt so of None \<Rightarrow> 0 | Some s \<Rightarrow> s),
      en_order_type = ''FAK'', en_expires_at = None, en_post_only = False, en_expected_taker_order_id = order_id,
      en_signed_order_json = signed_json\<rparr>"

text \<open>The SDK's \<open>Serialize\<close> of a signed order.\<close>

definition side_json :: "nat \<Rightarrow> json option" where
  "side_json side = (if side = 0 then Some (JString ''BUY'') else if side = 1 then Some (JString ''SELL'') else None)"

definition order_type_json :: "order_type \<Rightarrow> json" where
  "order_type_json t = JString (case t of GTC \<Rightarrow> ''GTC'' | FOK \<Rightarrow> ''FOK'' | GTD \<Rightarrow> ''GTD'' | FAK \<Rightarrow> ''FAK'' | UnknownType s \<Rightarrow> s)"

definition signature_text :: "sdk \<Rightarrow> order_signature \<Rightarrow> string" where
  "signature_text S sig = (case sig of Ecdsa s \<Rightarrow> show_signature S s | Wrapped s \<Rightarrow> s)"

definition body_json_v2 :: "sdk \<Rightarrow> order_v2 \<Rightarrow> nat \<Rightarrow> json \<Rightarrow> string \<Rightarrow> json" where
  "body_json_v2 S order expiration side sig =
     JObject [(''salt'', JNumber (int (v2_salt order))), (''maker'', JString (show_address S (v2_maker order))),
       (''signer'', JString (show_address S (v2_signer order))), (''tokenId'', JString (show_nat (v2_token_id order))),
       (''makerAmount'', JString (show_nat (v2_maker_amount order))), (''takerAmount'', JString (show_nat (v2_taker_amount order))),
       (''side'', side), (''expiration'', JString (show_nat expiration)), (''signatureType'', JNumber (int (v2_signature_type order))),
       (''timestamp'', JString (show_nat (v2_timestamp order))), (''metadata'', JString (show_b256 S (v2_metadata order))),
       (''builder'', JString (show_b256 S (v2_builder order))), (''signature'', JString sig)]"

definition body_json_v1 :: "sdk \<Rightarrow> order_v1 \<Rightarrow> json \<Rightarrow> string \<Rightarrow> json" where
  "body_json_v1 S order side sig =
     JObject [(''salt'', JNumber (int (v1_salt order))), (''maker'', JString (show_address S (v1_maker order))),
       (''signer'', JString (show_address S (v1_signer order))), (''taker'', JString (show_address S (v1_taker order))),
       (''tokenId'', JString (show_nat (v1_token_id order))),
       (''makerAmount'', JString (show_nat (v1_maker_amount order))), (''takerAmount'', JString (show_nat (v1_taker_amount order))),
       (''side'', side), (''expiration'', JString (show_nat (v1_expiration order))), (''nonce'', JString (show_nat (v1_nonce order))),
       (''feeRateBps'', JString (show_nat (v1_fee_rate_bps order))), (''signatureType'', JNumber (int (v1_signature_type order))),
       (''signature'', JString sig)]"

definition signed_order_json :: "sdk \<Rightarrow> signed_order \<Rightarrow> json option" where
  "signed_order_json S so =
     (let sig = signature_text S (so_signature so);
          body = (case so_payload so of
              PayloadV2 order expiration \<Rightarrow>
                if v2_salt order < 2 ^ 64 then map_option (\<lambda>side. body_json_v2 S order expiration side sig) (side_json (v2_side order)) else None
            | PayloadV1 order \<Rightarrow>
                if v1_salt order < 2 ^ 64 then map_option (\<lambda>side. body_json_v1 S order side sig) (side_json (v1_side order)) else None
            | OtherPayload \<Rightarrow> None)
      in map_option (\<lambda>b. JObject ([(''order'', b), (''orderType'', order_type_json (so_order_type so)),
           (''owner'', JString (show_owner S (so_owner so)))] @
           (case so_post_only so of None \<Rightarrow> [] | Some v \<Rightarrow> [(''postOnly'', JBool v)]) @
           (case so_defer_exec so of None \<Rightarrow> [] | Some v \<Rightarrow> [(''deferExec'', JBool v)]))) body)"

definition serialize_order :: "sdk \<Rightarrow> signed_order \<Rightarrow> string option" where
  "serialize_order S so = (case signed_order_json S so of None \<Rightarrow> None | Some v \<Rightarrow> print_json S v)"

text \<open>Signing, the offline order id and the text, common to both kinds of order.\<close>

definition sign_and_identify ::
  "sdk \<Rightarrow> order_client \<Rightarrow> order_spec \<Rightarrow> prepare_error + (signed_order \<times> string \<times> string)" where
  "sign_and_identify S c spec =
     try_then (map_err OrderBuilding (build_order c spec)) (\<lambda>payload.
     try_then (map_err OrderSigning (sign_order c spec payload)) (\<lambda>so.
     try_then (ok_or UnsupportedPayload (payload_token (so_payload so))) (\<lambda>token_id_match.
     try_then (map_err NegRiskQuery (neg_risk c token_id_match)) (\<lambda>neg.
     try_then (ok_or MissingContractConfig (contract_config S neg)) (\<lambda>config.
     try_then (compute_expected_taker_order_id S (so_payload so) config polygon) (\<lambda>order_id.
     try_then (ok_or OrderSerialization (serialize_order S so)) (\<lambda>json_text.
     Inr (so, order_id, json_text))))))))"

definition prepare :: "ext \<Rightarrow> sdk \<Rightarrow> (decimal \<Rightarrow> nat) \<Rightarrow> order_client \<Rightarrow> sized_decision \<Rightarrow> prepare_error + (prepared_order_envelope \<times> signed_order)" where
  "prepare X S scale c decision =
     try_then (map_err InvalidTokenId (parse_u256 S (sd_token_id decision))) (\<lambda>token_id.
     try_then (construction_amount scale decision) (\<lambda>amount.
     try_then (checked_amount c amount) (\<lambda>_.
     try_then (sign_and_identify S c (fak_spec token_id decision amount)) (\<lambda>(so, order_id, json_text).
     Inr (assemble_envelope X decision so order_id json_text, so)))))"

definition gtd_spec :: "nat \<Rightarrow> sized_decision \<Rightarrow> timestamp \<Rightarrow> order_spec" where
  "gtd_spec token_id decision expires_at =
     \<lparr>os_market = False, os_token_id = token_id, os_side = Buy, os_price = sd_limit_price decision,
      os_amount = Shares (sd_qty decision), os_expiration = Some expires_at, os_order_type = GTD, os_post_only = True\<rparr>"

definition prepare_post_only_gtd_buy ::
  "ext \<Rightarrow> sdk \<Rightarrow> (timestamp \<Rightarrow> string) \<Rightarrow> order_client \<Rightarrow> sized_decision \<Rightarrow> timestamp \<Rightarrow> prepare_error + (prepared_order_envelope \<times> signed_order)" where
  "prepare_post_only_gtd_buy X S show_seconds c decision expires_at =
     (if sd_side decision \<noteq> Buy \<or> \<not> sd_buy_shares_exact decision then Inl PostOnlyGtdRequiresFixedShareBuy else
      try_then (map_err InvalidTokenId (parse_u256 S (sd_token_id decision))) (\<lambda>token_id.
      try_then (sign_and_identify S c (gtd_spec token_id decision expires_at)) (\<lambda>(so, order_id, json_text).
      Inr ((assemble_envelope X decision so order_id json_text)
             \<lparr>en_order_type := ''GTD'', en_expires_at := Some (show_seconds expires_at), en_post_only := True\<rparr>, so))))"

section \<open>signed\_order.rs\<close>

text \<open>The derived \<open>Deserialize\<close>: required and optional members; members it does not name are ignored.\<close>

definition str_member :: "string \<Rightarrow> json \<Rightarrow> string option" where
  "str_member name v = (case json_get name v of Some x \<Rightarrow> as_str x | None \<Rightarrow> None)"

definition opt_member :: "(json \<Rightarrow> 'a option) \<Rightarrow> string \<Rightarrow> json \<Rightarrow> 'a option option" where
  "opt_member f name v = (case json_get name v of
       None \<Rightarrow> Some None
     | Some x \<Rightarrow> if x = JNull then Some None else map_option Some (f x))"

definition as_bool :: "json \<Rightarrow> bool option" where
  "as_bool v = (case v of JBool b \<Rightarrow> Some b | _ \<Rightarrow> None)"

definition u64_member :: "string \<Rightarrow> json \<Rightarrow> nat option" where
  "u64_member name v = (case json_get name v of Some x \<Rightarrow> json_u64 x | None \<Rightarrow> None)"

definition side_of_text :: "string \<Rightarrow> nat" where
  "side_of_text s = (if s \<in> {''BUY'', ''buy''} then 0 else if s \<in> {''SELL'', ''sell''} then 1 else 255)"

definition order_type_of_text :: "string \<Rightarrow> order_type" where
  "order_type_of_text s = (if s \<in> {''GTC'', ''gtc''} then GTC else if s \<in> {''FOK'', ''fok''} then FOK
     else if s \<in> {''GTD'', ''gtd''} then GTD else if s \<in> {''FAK'', ''fak''} then FAK else UnknownType s)"

record order_body_json =
  ob_salt :: nat
  ob_maker :: string
  ob_signer :: string
  ob_token_id :: string
  ob_maker_amount :: string
  ob_taker_amount :: string
  ob_side :: nat
  ob_signature_type :: nat
  ob_signature :: string
  ob_expiration :: "string option"
  ob_timestamp :: "string option"
  ob_metadata :: "string option"
  ob_builder :: "string option"

record signed_order_input =
  sj_order :: order_body_json
  sj_order_type :: order_type
  sj_owner :: string
  sj_post_only :: "bool option"
  sj_defer_exec :: "bool option"

definition decode_body :: "json \<Rightarrow> order_body_json option" where
  "decode_body v = (case
      (u64_member ''salt'' v, str_member ''maker'' v, str_member ''signer'' v, str_member ''tokenId'' v,
       str_member ''makerAmount'' v, str_member ''takerAmount'' v, str_member ''side'' v) of
     (Some salt, Some maker, Some signer, Some token_id, Some maker_amount, Some taker_amount, Some side) \<Rightarrow>
      (case (u64_member ''signatureType'' v, str_member ''signature'' v, opt_member as_str ''expiration'' v,
          opt_member as_str ''timestamp'' v, opt_member as_str ''metadata'' v, opt_member as_str ''builder'' v) of
        (Some signature_type, Some sig, Some expiration, Some timestamp, Some metadata, Some builder) \<Rightarrow>
          if signature_type < 256 then
            Some \<lparr>ob_salt = salt, ob_maker = maker, ob_signer = signer, ob_token_id = token_id, ob_maker_amount = maker_amount,
              ob_taker_amount = taker_amount, ob_side = side_of_text side, ob_signature_type = signature_type, ob_signature = sig,
              ob_expiration = expiration, ob_timestamp = timestamp, ob_metadata = metadata, ob_builder = builder\<rparr>
          else None
      | _ \<Rightarrow> None)
   | _ \<Rightarrow> None)"

definition decode_signed_order :: "json \<Rightarrow> signed_order_input option" where
  "decode_signed_order v = (case
      (case json_get ''order'' v of None \<Rightarrow> None | Some b \<Rightarrow> decode_body b, str_member ''orderType'' v, str_member ''owner'' v,
       opt_member as_bool ''postOnly'' v, opt_member as_bool ''deferExec'' v) of
     (Some body, Some order_type, Some owner, Some post_only, Some defer_exec) \<Rightarrow>
       Some \<lparr>sj_order = body, sj_order_type = order_type_of_text order_type, sj_owner = owner, sj_post_only = post_only,
         sj_defer_exec = defer_exec\<rparr>
   | _ \<Rightarrow> None)"

definition is_v2 :: "order_body_json \<Rightarrow> bool" where
  "is_v2 body \<longleftrightarrow> ob_timestamp body \<noteq> None"

definition signature_type_from_u8 :: "nat \<Rightarrow> string + nat" where
  "signature_type_from_u8 value = (if value \<le> 3 then Inr value else Inl (''unknown signatureType: '' @ show_nat value))"

definition parse_ecdsa_signature :: "sdk \<Rightarrow> string \<Rightarrow> nat \<Rightarrow> string + string" where
  "parse_ecdsa_signature S sig_str signature_type =
     (if signature_type = poly1271 then Inl ''Poly1271 order reconstruction is not supported in the copy engine''
      else (case parse_signature S sig_str of
              Inr s \<Rightarrow> Inr s
            | Inl _ \<Rightarrow> map_err (\<lambda>e. ''cannot parse signature as ECDSA: '' @ e)
                (parse_signature S (case strip_0x sig_str of None \<Rightarrow> sig_str | Some hex \<Rightarrow> hex))))"

definition reconstruct_v2 :: "sdk \<Rightarrow> signed_order_input \<Rightarrow> nat \<Rightarrow> string \<Rightarrow> string + signed_order" where
  "reconstruct_v2 S parsed signature_type owner =
     (let body = sj_order parsed in
      try_then (ok_or ''V2 order missing timestamp'' (ob_timestamp body)) (\<lambda>timestamp_str.
      try_then (ok_or ''V2 order missing metadata'' (ob_metadata body)) (\<lambda>metadata_str.
      try_then (ok_or ''V2 order missing builder'' (ob_builder body)) (\<lambda>builder_str.
      try_then (ok_or ''V2 order missing expiration'' (ob_expiration body)) (\<lambda>expiration_str.
      try_then (map_err (\<lambda>e. ''invalid tokenId: '' @ e) (parse_u256 S (ob_token_id body))) (\<lambda>token_id.
      try_then (map_err (\<lambda>e. ''invalid maker: '' @ e) (parse_address S (ob_maker body))) (\<lambda>maker.
      try_then (map_err (\<lambda>e. ''invalid signer: '' @ e) (parse_address S (ob_signer body))) (\<lambda>signer.
      try_then (map_err (\<lambda>e. ''invalid makerAmount: '' @ e) (parse_u256 S (ob_maker_amount body))) (\<lambda>maker_amount.
      try_then (map_err (\<lambda>e. ''invalid takerAmount: '' @ e) (parse_u256 S (ob_taker_amount body))) (\<lambda>taker_amount.
      try_then (map_err (\<lambda>e. ''invalid timestamp: '' @ e) (parse_u256 S timestamp_str)) (\<lambda>timestamp.
      try_then (map_err (\<lambda>e. ''invalid metadata: '' @ e) (parse_b256 S metadata_str)) (\<lambda>metadata.
      try_then (map_err (\<lambda>e. ''invalid builder: '' @ e) (parse_b256 S builder_str)) (\<lambda>builder.
      try_then (map_err (\<lambda>e. ''invalid expiration: '' @ e) (parse_u256 S expiration_str)) (\<lambda>expiration.
      try_then (parse_ecdsa_signature S (ob_signature body) signature_type) (\<lambda>sig.
      Inr \<lparr>so_payload = PayloadV2 \<lparr>v2_salt = ob_salt body, v2_maker = maker, v2_signer = signer, v2_token_id = token_id,
             v2_maker_amount = maker_amount, v2_taker_amount = taker_amount, v2_side = ob_side body,
             v2_signature_type = ob_signature_type body, v2_timestamp = timestamp, v2_metadata = metadata, v2_builder = builder\<rparr> expiration,
           so_signature = Ecdsa sig, so_order_type = sj_order_type parsed, so_owner = owner,
           so_post_only = sj_post_only parsed, so_defer_exec = sj_defer_exec parsed\<rparr>)))))))))))))))"

definition reconstruct_signed_order :: "sdk \<Rightarrow> string \<Rightarrow> string + signed_order" where
  "reconstruct_signed_order S body_text =
     try_then (map_err (\<lambda>e. ''cannot parse signed_order_json: '' @ e) (read_json S body_text)) (\<lambda>v.
     try_then (ok_or (''cannot parse signed_order_json: '' @ serde_error S body_text) (decode_signed_order v)) (\<lambda>parsed.
     try_then (signature_type_from_u8 (ob_signature_type (sj_order parsed))) (\<lambda>signature_type.
     try_then (ok_or (''cannot parse owner ApiKey from JSON: '' @ sj_owner parsed) (parse_owner S (sj_owner parsed))) (\<lambda>owner.
     if is_v2 (sj_order parsed) then reconstruct_v2 S parsed signature_type owner
     else Inl ''V1 order reconstruction is not supported in the copy engine''))))"

section \<open>gtd\_signed\_identity.rs\<close>

definition exchanges :: "string list" where
  "exchanges = [''0xe111180000d2663c0091e4f400237545b87b996b'', ''0xe2222d279d744050d28e00520010520000310f59'']"

definition identity_mismatch :: string where
  "identity_mismatch = ''persisted signed V2 identity mismatch or unsupported format''"

definition identity_field :: "json \<Rightarrow> string \<Rightarrow> string + string" where
  "identity_field body name = ok_or identity_mismatch (str_member name body)"

definition identity_uint :: "sdk \<Rightarrow> json \<Rightarrow> string \<Rightarrow> string + nat" where
  "identity_uint S body name =
     try_then (identity_field body name) (\<lambda>raw. map_err (\<lambda>_. identity_mismatch) (parse_u256 S raw))"

definition identity_address :: "sdk \<Rightarrow> json \<Rightarrow> string \<Rightarrow> string + string" where
  "identity_address S body name =
     try_then (identity_field body name) (\<lambda>raw. map_err (\<lambda>_. identity_mismatch) (parse_address S raw))"

definition identity_b256 :: "sdk \<Rightarrow> json \<Rightarrow> string \<Rightarrow> string + string" where
  "identity_b256 S body name =
     try_then (identity_field body name) (\<lambda>raw. map_err (\<lambda>_. identity_mismatch) (parse_b256 S raw))"

definition identity_order :: "sdk \<Rightarrow> json \<Rightarrow> string + order_v2" where
  "identity_order S body =
     try_then (ok_or identity_mismatch (json_u64 (json_field body ''salt''))) (\<lambda>salt.
     try_then (identity_address S body ''maker'') (\<lambda>maker.
     try_then (identity_address S body ''signer'') (\<lambda>signer.
     try_then (identity_uint S body ''tokenId'') (\<lambda>token_id.
     try_then (identity_uint S body ''makerAmount'') (\<lambda>maker_amount.
     try_then (identity_uint S body ''takerAmount'') (\<lambda>taker_amount.
     try_then (identity_uint S body ''timestamp'') (\<lambda>timestamp.
     try_then (identity_b256 S body ''metadata'') (\<lambda>metadata.
     try_then (identity_b256 S body ''builder'') (\<lambda>builder.
     if json_field body ''side'' \<noteq> JString ''BUY'' then Inl identity_mismatch else
     try_then (ok_or identity_mismatch (json_u64 (json_field body ''signatureType''))) (\<lambda>signature_type.
     if signature_type \<ge> 256 then Inl identity_mismatch else
     Inr \<lparr>v2_salt = salt, v2_maker = maker, v2_signer = signer, v2_token_id = token_id, v2_maker_amount = maker_amount,
       v2_taker_amount = taker_amount, v2_side = 0, v2_signature_type = signature_type, v2_timestamp = timestamp,
       v2_metadata = metadata, v2_builder = builder\<rparr>))))))))))"

definition signed_expiry :: "ext \<Rightarrow> prepared_order_envelope \<Rightarrow> string option" where
  "signed_expiry X env = (case en_expires_at env of None \<Rightarrow> None
     | Some v \<Rightarrow> (case parse_time X v of None \<Rightarrow> None | Some t \<Rightarrow> Some (show_i64 (t div 1000))))"

definition verify_v2_identity :: "ext \<Rightarrow> sdk \<Rightarrow> prepared_order_envelope \<Rightarrow> string \<Rightarrow> bool \<Rightarrow> string + string" where
  "verify_v2_identity X S env funder neg =
     (if en_order_type env \<noteq> ''GTD'' \<or> en_side env \<noteq> ''BUY'' \<or> \<not> en_post_only env then Inl identity_mismatch else
      try_then (map_err (\<lambda>_. identity_mismatch) (read_json S (en_signed_order_json env))) (\<lambda>so.
      try_then (ok_or identity_mismatch (json_get ''order'' so)) (\<lambda>body.
      if json_field so ''orderType'' \<noteq> JString ''GTD'' \<or> json_field so ''postOnly'' \<noteq> JBool True \<or>
         json_get ''timestamp'' body = None \<or> json_get ''metadata'' body = None \<or> json_get ''builder'' body = None \<or>
         json_get ''taker'' body \<noteq> None
      then Inl identity_mismatch else
      try_then (identity_order S body) (\<lambda>order.
      try_then (if v2_signature_type order > 2 \<or> show_nat (v2_token_id order) \<noteq> en_token_id env then Inl identity_mismatch
        else map_err (\<lambda>_. identity_mismatch) (parse_address S funder)) (\<lambda>funder_address.
      if v2_maker order \<noteq> funder_address \<or> as_str (json_field body ''expiration'') \<noteq> signed_expiry X env
      then Inl identity_mismatch else
      try_then (ok_or identity_mismatch (contract_config S neg)) (\<lambda>config.
      try_then (ok_or identity_mismatch (ea_v2 config)) (\<lambda>contract.
      let contract_text = lower_hex_address S contract in
      if \<not> list_ex (\<lambda>value. eq_ignore_ascii_case value contract_text) exchanges then Inl identity_mismatch else
      try_then (identity_uint S body ''expiration'') (\<lambda>expiration.
      try_then (map_err (\<lambda>_. identity_mismatch) (expected_order_id S (PayloadV2 order expiration) config polygon)) (\<lambda>actual.
      if \<not> eq_ignore_ascii_case (show_b256 S actual) (en_expected_taker_order_id env) then Inl identity_mismatch
      else Inr contract_text)))))))))"

section \<open>What is persisted is what was signed\<close>

text \<open>The SDK's texts can be read back.\<close>

definition sdk_codec :: "sdk \<Rightarrow> bool" where
  "sdk_codec S \<longleftrightarrow> (\<forall>n < 2 ^ 256. parse_u256 S (show_nat n) = Inr n) \<and> (\<forall>a. parse_address S (show_address S a) = Inr a) \<and>
     (\<forall>h. parse_b256 S (show_b256 S h) = Inr h) \<and> (\<forall>s. parse_signature S (show_signature S s) = Inr s) \<and>
     (\<forall>k. parse_owner S (show_owner S k) = Some k) \<and> (\<forall>v t. print_json S v = Some t \<longrightarrow> read_json S t = Inr v)"

definition sized_v2 :: "order_v2 \<Rightarrow> nat \<Rightarrow> bool" where
  "sized_v2 order expiration \<longleftrightarrow> v2_token_id order < 2 ^ 256 \<and> v2_maker_amount order < 2 ^ 256 \<and> v2_taker_amount order < 2 ^ 256 \<and>
     v2_timestamp order < 2 ^ 256 \<and> expiration < 2 ^ 256 \<and> v2_signature_type order < poly1271"

definition regular_order :: "signed_order \<Rightarrow> bool" where
  "regular_order so \<longleftrightarrow> (\<exists>order expiration. so_payload so = PayloadV2 order expiration \<and> sized_v2 order expiration) \<and>
     (\<exists>s. so_signature so = Ecdsa s) \<and> so_order_type so \<in> {GTC, FOK, GTD, FAK}"

lemma member_simps:
  "json_get name (JObject fs) = map_of fs name"
  by (simp add: json_get_def)

lemma body_members:
  fixes S order expiration side sig
  defines "b \<equiv> body_json_v2 S order expiration side sig"
  shows "json_get ''salt'' b = Some (JNumber (int (v2_salt order)))" "json_get ''maker'' b = Some (JString (show_address S (v2_maker order)))"
    "json_get ''signer'' b = Some (JString (show_address S (v2_signer order)))" "json_get ''tokenId'' b = Some (JString (show_nat (v2_token_id order)))"
    "json_get ''makerAmount'' b = Some (JString (show_nat (v2_maker_amount order)))"
    "json_get ''takerAmount'' b = Some (JString (show_nat (v2_taker_amount order)))" "json_get ''side'' b = Some side"
    "json_get ''expiration'' b = Some (JString (show_nat expiration))"
    "json_get ''signatureType'' b = Some (JNumber (int (v2_signature_type order)))"
    "json_get ''timestamp'' b = Some (JString (show_nat (v2_timestamp order)))"
    "json_get ''metadata'' b = Some (JString (show_b256 S (v2_metadata order)))"
    "json_get ''builder'' b = Some (JString (show_b256 S (v2_builder order)))" "json_get ''signature'' b = Some (JString sig)"
    "json_get ''taker'' b = None"
  unfolding b_def body_json_v2_def member_simps by simp_all

lemma decode_bodyI:
  assumes "u64_member ''salt'' v = Some salt" "str_member ''maker'' v = Some maker" "str_member ''signer'' v = Some signer"
    "str_member ''tokenId'' v = Some token" "str_member ''makerAmount'' v = Some ma" "str_member ''takerAmount'' v = Some ta"
    "str_member ''side'' v = Some side" "u64_member ''signatureType'' v = Some st" "str_member ''signature'' v = Some sig"
    "opt_member as_str ''expiration'' v = Some ex" "opt_member as_str ''timestamp'' v = Some ts" "opt_member as_str ''metadata'' v = Some md"
    "opt_member as_str ''builder'' v = Some bu" "st < 256"
  shows "decode_body v = Some \<lparr>ob_salt = salt, ob_maker = maker, ob_signer = signer, ob_token_id = token, ob_maker_amount = ma,
    ob_taker_amount = ta, ob_side = side_of_text side, ob_signature_type = st, ob_signature = sig,
    ob_expiration = ex, ob_timestamp = ts, ob_metadata = md, ob_builder = bu\<rparr>"
  using assms by (simp add: decode_body_def)

lemma member_ok:
  "json_get name v = Some (JString t) \<Longrightarrow> str_member name v = Some t"
  "json_get name v = Some (JString t) \<Longrightarrow> opt_member as_str name v = Some (Some t)"
  "json_get name v = Some (JNumber (int n)) \<Longrightarrow> n < 2 ^ 64 \<Longrightarrow> u64_member name v = Some n"
  by (simp_all add: str_member_def opt_member_def u64_member_def as_str_def json_u64_def)

lemma decode_body_v2:
  assumes "v2_salt order < 2 ^ 64" "v2_signature_type order < 256" "side_json (v2_side order) = Some side"
  shows "decode_body (body_json_v2 S order expiration side sig) = Some \<lparr>ob_salt = v2_salt order, ob_maker = show_address S (v2_maker order),
    ob_signer = show_address S (v2_signer order), ob_token_id = show_nat (v2_token_id order), ob_maker_amount = show_nat (v2_maker_amount order),
    ob_taker_amount = show_nat (v2_taker_amount order), ob_side = v2_side order, ob_signature_type = v2_signature_type order, ob_signature = sig,
    ob_expiration = Some (show_nat expiration), ob_timestamp = Some (show_nat (v2_timestamp order)),
    ob_metadata = Some (show_b256 S (v2_metadata order)), ob_builder = Some (show_b256 S (v2_builder order))\<rparr>"
proof -
  have st: "v2_signature_type order < 2 ^ 64" using assms(2) by simp
  obtain s where s: "side = JString s" "side_of_text s = v2_side order"
    using assms(3) by (auto simp: side_json_def side_of_text_def split: if_splits)
  note m = body_members [of S order expiration side sig]
  have side: "json_get ''side'' (body_json_v2 S order expiration side sig) = Some (JString s)" using m(7) s(1) by simp
  show ?thesis
    by (rule decode_bodyI [OF member_ok(3) [OF m(1) assms(1)] member_ok(1) [OF m(2)] member_ok(1) [OF m(3)] member_ok(1) [OF m(4)]
        member_ok(1) [OF m(5)] member_ok(1) [OF m(6)] member_ok(1) [OF side] member_ok(3) [OF m(9) st] member_ok(1) [OF m(13)]
        member_ok(2) [OF m(8)] member_ok(2) [OF m(10)] member_ok(2) [OF m(11)] member_ok(2) [OF m(12)] assms(2), unfolded s(2)])
qed

lemma signed_members:
  assumes "signed_order_json S so = Some v" "so_payload so = PayloadV2 order expiration"
  obtains side where "v2_salt order < 2 ^ 64" "side_json (v2_side order) = Some side"
    "json_get ''order'' v = Some (body_json_v2 S order expiration side (signature_text S (so_signature so)))"
    "json_get ''orderType'' v = Some (order_type_json (so_order_type so))" "json_get ''owner'' v = Some (JString (show_owner S (so_owner so)))"
    "json_get ''postOnly'' v = map_option JBool (so_post_only so)" "json_get ''deferExec'' v = map_option JBool (so_defer_exec so)"
proof -
  from assms obtain side where s: "v2_salt order < 2 ^ 64" "side_json (v2_side order) = Some side"
    and v: "v = JObject ([(''order'', body_json_v2 S order expiration side (signature_text S (so_signature so))),
       (''orderType'', order_type_json (so_order_type so)), (''owner'', JString (show_owner S (so_owner so)))] @
       (case so_post_only so of None \<Rightarrow> [] | Some v \<Rightarrow> [(''postOnly'', JBool v)]) @
       (case so_defer_exec so of None \<Rightarrow> [] | Some v \<Rightarrow> [(''deferExec'', JBool v)]))"
    by (auto simp: signed_order_json_def Let_def split: if_splits)
  show thesis
    by (rule that [OF s]; cases "so_post_only so"; cases "so_defer_exec so") (simp_all add: v member_simps)
qed

lemma decode_serialized:
  assumes "signed_order_json S so = Some v" "so_payload so = PayloadV2 order expiration" "v2_signature_type order < 256"
    and "so_order_type so \<in> {GTC, FOK, GTD, FAK}"
  obtains input where "decode_signed_order v = Some input" "sj_order_type input = so_order_type so" "sj_owner input = show_owner S (so_owner so)"
    "sj_post_only input = so_post_only so" "sj_defer_exec input = so_defer_exec so"
    "ob_salt (sj_order input) = v2_salt order" "ob_maker (sj_order input) = show_address S (v2_maker order)"
    "ob_signer (sj_order input) = show_address S (v2_signer order)" "ob_token_id (sj_order input) = show_nat (v2_token_id order)"
    "ob_maker_amount (sj_order input) = show_nat (v2_maker_amount order)" "ob_taker_amount (sj_order input) = show_nat (v2_taker_amount order)"
    "ob_side (sj_order input) = v2_side order" "ob_signature_type (sj_order input) = v2_signature_type order"
    "ob_signature (sj_order input) = signature_text S (so_signature so)" "ob_expiration (sj_order input) = Some (show_nat expiration)"
    "ob_timestamp (sj_order input) = Some (show_nat (v2_timestamp order))" "ob_metadata (sj_order input) = Some (show_b256 S (v2_metadata order))"
    "ob_builder (sj_order input) = Some (show_b256 S (v2_builder order))"
proof -
  from assms(1,2) obtain side where m: "v2_salt order < 2 ^ 64" "side_json (v2_side order) = Some side"
    "json_get ''order'' v = Some (body_json_v2 S order expiration side (signature_text S (so_signature so)))"
    "json_get ''orderType'' v = Some (order_type_json (so_order_type so))" "json_get ''owner'' v = Some (JString (show_owner S (so_owner so)))"
    "json_get ''postOnly'' v = map_option JBool (so_post_only so)" "json_get ''deferExec'' v = map_option JBool (so_defer_exec so)"
    by (rule signed_members)
  have flag: "opt_member as_bool name v = Some b" if "json_get name v = map_option JBool b" for name b
    using that by (cases b) (simp_all add: opt_member_def as_bool_def)
  obtain t where t: "order_type_json (so_order_type so) = JString t" "order_type_of_text t = so_order_type so"
    using assms(4) by (auto simp: order_type_json_def order_type_of_text_def)
  show thesis
    by (rule that; (simp add: decode_signed_order_def m(3) decode_body_v2 [OF m(1) assms(3) m(2)] str_member_def as_str_def m(4,5) t
        flag [OF m(6)] flag [OF m(7)])?; simp)
qed

lemma reconstruct_v2I:
  assumes "ob_timestamp (sj_order p) = Some ts" "ob_metadata (sj_order p) = Some md" "ob_builder (sj_order p) = Some bu"
    "ob_expiration (sj_order p) = Some ex" "parse_u256 S (ob_token_id (sj_order p)) = Inr token_id"
    "parse_address S (ob_maker (sj_order p)) = Inr maker" "parse_address S (ob_signer (sj_order p)) = Inr signer"
    "parse_u256 S (ob_maker_amount (sj_order p)) = Inr maker_amount" "parse_u256 S (ob_taker_amount (sj_order p)) = Inr taker_amount"
    "parse_u256 S ts = Inr timestamp" "parse_b256 S md = Inr metadata" "parse_b256 S bu = Inr builder" "parse_u256 S ex = Inr expiration"
    "parse_ecdsa_signature S (ob_signature (sj_order p)) signature_type = Inr sig"
  shows "reconstruct_v2 S p signature_type owner =
      Inr \<lparr>so_payload = PayloadV2 \<lparr>v2_salt = ob_salt (sj_order p), v2_maker = maker, v2_signer = signer, v2_token_id = token_id,
             v2_maker_amount = maker_amount, v2_taker_amount = taker_amount, v2_side = ob_side (sj_order p),
             v2_signature_type = ob_signature_type (sj_order p), v2_timestamp = timestamp, v2_metadata = metadata, v2_builder = builder\<rparr> expiration,
           so_signature = Ecdsa sig, so_order_type = sj_order_type p, so_owner = owner,
           so_post_only = sj_post_only p, so_defer_exec = sj_defer_exec p\<rparr>"
  using assms by (simp add: reconstruct_v2_def Let_def try_then_def ok_or_def map_err_def)

lemma reconstruct_signed_orderI:
  assumes "read_json S t = Inr v" "decode_signed_order v = Some p" "ob_signature_type (sj_order p) \<le> 3"
    and "parse_owner S (sj_owner p) = Some owner" "is_v2 (sj_order p)"
  shows "reconstruct_signed_order S t = reconstruct_v2 S p (ob_signature_type (sj_order p)) owner"
  using assms by (simp add: reconstruct_signed_order_def try_then_def ok_or_def map_err_def signature_type_from_u8_def)

lemma reconstruct_serialized:
  assumes S: "sdk_codec S" and so: "regular_order so" and t: "serialize_order S so = Some t"
  shows "reconstruct_signed_order S t = Inr so"
proof -
  from so obtain order expiration s where p: "so_payload so = PayloadV2 order expiration" and z: "sized_v2 order expiration"
    and s: "so_signature so = Ecdsa s" and ty: "so_order_type so \<in> {GTC, FOK, GTD, FAK}" by (auto simp: regular_order_def)
  from t obtain v where v: "signed_order_json S so = Some v" "print_json S v = Some t"
    by (auto simp: serialize_order_def split: option.splits)
  have st: "v2_signature_type order < 256" "v2_signature_type order < 3" using z by (auto simp: sized_v2_def poly1271_def)
  obtain i where i: "decode_signed_order v = Some i" "sj_order_type i = so_order_type so" "sj_owner i = show_owner S (so_owner so)"
    "sj_post_only i = so_post_only so" "sj_defer_exec i = so_defer_exec so"
    "ob_salt (sj_order i) = v2_salt order" "ob_maker (sj_order i) = show_address S (v2_maker order)"
    "ob_signer (sj_order i) = show_address S (v2_signer order)" "ob_token_id (sj_order i) = show_nat (v2_token_id order)"
    "ob_maker_amount (sj_order i) = show_nat (v2_maker_amount order)" "ob_taker_amount (sj_order i) = show_nat (v2_taker_amount order)"
    "ob_side (sj_order i) = v2_side order" "ob_signature_type (sj_order i) = v2_signature_type order"
    "ob_signature (sj_order i) = signature_text S (so_signature so)" "ob_expiration (sj_order i) = Some (show_nat expiration)"
    "ob_timestamp (sj_order i) = Some (show_nat (v2_timestamp order))" "ob_metadata (sj_order i) = Some (show_b256 S (v2_metadata order))"
    "ob_builder (sj_order i) = Some (show_b256 S (v2_builder order))"
    by (rule decode_serialized [OF v(1) p st(1) ty])
  have sig: "parse_ecdsa_signature S (ob_signature (sj_order i)) (v2_signature_type order) = Inr s"
    using S st(2) by (simp add: i(14) s signature_text_def parse_ecdsa_signature_def poly1271_def sdk_codec_def)
  note c = S [unfolded sdk_codec_def] and z' = z [unfolded sized_v2_def]
  have "reconstruct_signed_order S t = reconstruct_v2 S i (v2_signature_type order) (so_owner so)"
    using c v(2) st(2) by (subst reconstruct_signed_orderI [OF _ i(1)]) (auto simp: i is_v2_def)
  also have "\<dots> = Inr so"
    using c z' by (subst reconstruct_v2I [OF i(16) i(17) i(18) i(15) _ _ _ _ _ _ _ _ _ sig]; (simp add: i)?)
       (cases so; cases order; use p s in \<open>simp add: i\<close>)
  finally show ?thesis .
qed

lemma sign_and_identify_ok:
  assumes "sign_and_identify S c spec = Inr (so, order_id, t)"
  obtains payload token neg config hash where "build_order c spec = Inr payload" "sign_order c spec payload = Inr so"
    "payload_token (so_payload so) = Some token" "neg_risk c token = Inr neg" "contract_config S neg = Some config"
    "expected_order_id S (so_payload so) config polygon = Inr hash" "order_id = show_b256 S hash" "serialize_order S so = Some t"
proof -
  from assms obtain payload token neg config where
    a: "build_order c spec = Inr payload" "sign_order c spec payload = Inr so"
    "payload_token (so_payload so) = Some token" "neg_risk c token = Inr neg" "contract_config S neg = Some config"
    and id: "compute_expected_taker_order_id S (so_payload so) config polygon = Inr order_id"
    and t: "serialize_order S so = Some t"
    by (auto simp: sign_and_identify_def result_ok)
  from id obtain hash where "expected_order_id S (so_payload so) config polygon = Inr hash" "order_id = show_b256 S hash"
    by (auto simp: compute_expected_taker_order_id_def map_err_ok format_order_id_def split: sum.splits)
  with a t show thesis by (intro that)
qed

text \<open>The order id names the signed order under the exchange of its own token.\<close>

definition id_of_signed :: "sdk \<Rightarrow> order_client \<Rightarrow> signed_order \<Rightarrow> string \<Rightarrow> bool" where
  "id_of_signed S c so order_id \<longleftrightarrow> (\<exists>token neg config hash. payload_token (so_payload so) = Some token \<and> neg_risk c token = Inr neg \<and>
     contract_config S neg = Some config \<and> expected_order_id S (so_payload so) config polygon = Inr hash \<and> order_id = format_order_id S hash)"

definition envelope_of :: "ext \<Rightarrow> sized_decision \<Rightarrow> prepared_order_envelope \<Rightarrow> bool" where
  "envelope_of X d env \<longleftrightarrow> en_token_id env = sd_token_id d \<and> en_side env = side_as_str (sd_side d) \<and>
     parse_dec X (en_price env) = Some (sd_limit_price d) \<and> parse_dec X (en_size env) = Some (sd_qty d) \<and>
     map_option (parse_dec X) (en_buy_budget_usdc env) = map_option Some (sd_buy_budget d)"

lemma envelope_of_assembled: "dec_codec X \<Longrightarrow> envelope_of X d (assemble_envelope X d so order_id t)"
  by (cases "sd_buy_budget d") (simp_all add: envelope_of_def assemble_envelope_def dec_codec_def)

text \<open>The order was built and signed for the decision's token, side and price.\<close>

definition spec_of :: "sdk \<Rightarrow> sized_decision \<Rightarrow> order_spec \<Rightarrow> bool" where
  "spec_of S d spec \<longleftrightarrow> parse_u256 S (sd_token_id d) = Inr (os_token_id spec) \<and> os_side spec = sd_side d \<and> os_price spec = sd_limit_price d"

definition built_for :: "sdk \<Rightarrow> order_client \<Rightarrow> sized_decision \<Rightarrow> signed_order \<Rightarrow> bool" where
  "built_for S c d so \<longleftrightarrow> (\<exists>spec payload. spec_of S d spec \<and> build_order c spec = Inr payload \<and> sign_order c spec payload = Inr so)"

lemma prepare_ok:
  assumes "prepare X S scale c d = Inr (env, so)"
  obtains spec order_id t where "spec_of S d spec" "sign_and_identify S c spec = Inr (so, order_id, t)" "env = assemble_envelope X d so order_id t"
proof -
  from assms obtain token_id amount r where "parse_u256 S (sd_token_id d) = Inr token_id" "sign_and_identify S c (fak_spec token_id d amount) = Inr r"
    and "(case r of (so, order_id, t) \<Rightarrow> Inr (assemble_envelope X d so order_id t, so)) = (Inr (env, so) :: prepare_error + _)"
    unfolding prepare_def try_then_ok map_err_ok by blast
  moreover from this(1) have "spec_of S d (fak_spec token_id d amount)" by (simp add: spec_of_def fak_spec_def)
  ultimately show thesis by (cases r) (auto intro: that)
qed

lemma prepare_gtd_ok:
  assumes "prepare_post_only_gtd_buy X S f c d expires_at = Inr (env, so)"
  obtains spec order_id t where "spec_of S d spec" "sign_and_identify S c spec = Inr (so, order_id, t)"
    "env = (assemble_envelope X d so order_id t)\<lparr>en_order_type := ''GTD'', en_expires_at := Some (f expires_at), en_post_only := True\<rparr>"
proof -
  from assms obtain token_id r where "\<not> (sd_side d \<noteq> Buy \<or> \<not> sd_buy_shares_exact d)" "parse_u256 S (sd_token_id d) = Inr token_id" "sign_and_identify S c (gtd_spec token_id d expires_at) = Inr r"
    and "(case r of (so, order_id, t) \<Rightarrow> Inr ((assemble_envelope X d so order_id t)
             \<lparr>en_order_type := ''GTD'', en_expires_at := Some (f expires_at), en_post_only := True\<rparr>, so)) = (Inr (env, so) :: prepare_error + _)"
    unfolding prepare_post_only_gtd_buy_def sum_if_ok try_then_ok map_err_ok by blast
  moreover from this(1,2) have "spec_of S d (gtd_spec token_id d expires_at)" by (simp add: spec_of_def gtd_spec_def)
  ultimately show thesis by (cases r) (auto intro: that)
qed

lemma prepared_order:
  fixes d :: sized_decision
  assumes "sdk_codec S" "dec_codec X" "regular_order so" "spec_of S d spec" "sign_and_identify S c spec = Inr (so, order_id, t)"
  defines "env \<equiv> assemble_envelope X d so order_id t"
  shows "reconstruct_signed_order S (en_signed_order_json env) = Inr so \<and> id_of_signed S c so (en_expected_taker_order_id env) \<and>
     envelope_of X d env \<and> built_for S c d so"
proof -
  from assms(5) obtain payload token neg config hash where b: "build_order c spec = Inr payload" "sign_order c spec payload = Inr so"
    and h: "payload_token (so_payload so) = Some token" "neg_risk c token = Inr neg"
    "contract_config S neg = Some config" "expected_order_id S (so_payload so) config polygon = Inr hash" "order_id = show_b256 S hash"
    and t: "serialize_order S so = Some t"
    by (rule sign_and_identify_ok)
  have "id_of_signed S c so order_id" unfolding id_of_signed_def format_order_id_def using h by blast
  moreover have "built_for S c d so" unfolding built_for_def using b assms(4) by blast
  ultimately show ?thesis
    using reconstruct_serialized [OF assms(1,3) t] envelope_of_assembled [OF assms(2)] by (simp add: env_def assemble_envelope_def)
qed

text \<open>
  C34. An order that was prepared, immediate or resting, can be recovered from what the attempt's row persists: rebuilding
  the signed order from the envelope's text gives exactly the order that was signed (payload, signature, owner and flags), which
  was built for the decision's token, side and price; the envelope's expected order id is the hash of that payload under the exchange the order's token trades on; and token, side, price,
  size and budget of the envelope are the decision's.
\<close>

theorem persisted_order_is_signed_order:
  assumes "sdk_codec S" and "dec_codec X" and "regular_order so"
    and "prepare X S scale c d = Inr (env, so) \<or> prepare_post_only_gtd_buy X S show_seconds c d expires_at = Inr (env, so)"
  shows "reconstruct_signed_order S (en_signed_order_json env) = Inr so \<and> id_of_signed S c so (en_expected_taker_order_id env) \<and>
    envelope_of X d env \<and> built_for S c d so"
  using assms(4)
proof
  assume "prepare X S scale c d = Inr (env, so)"
  then obtain spec order_id t where s: "spec_of S d spec" "sign_and_identify S c spec = Inr (so, order_id, t)" "env = assemble_envelope X d so order_id t"
    by (rule prepare_ok)
  show ?thesis using prepared_order [OF assms(1-3) s(1,2)] by (simp add: s(3))
next
  assume "prepare_post_only_gtd_buy X S show_seconds c d expires_at = Inr (env, so)"
  then obtain spec order_id t where s: "spec_of S d spec" "sign_and_identify S c spec = Inr (so, order_id, t)"
    "env = (assemble_envelope X d so order_id t)\<lparr>en_order_type := ''GTD'', en_expires_at := Some (show_seconds expires_at), en_post_only := True\<rparr>"
    by (rule prepare_gtd_ok)
  show ?thesis using prepared_order [OF assms(1-3) s(1,2)] by (simp add: s(3) envelope_of_def)
qed

definition order0 :: order_v2 where
  "order0 = \<lparr>v2_salt = 7, v2_maker = ''m'', v2_signer = ''s'', v2_token_id = 5, v2_maker_amount = 1000000, v2_taker_amount = 2000000,
     v2_side = 0, v2_signature_type = 2, v2_timestamp = 9, v2_metadata = ''0'', v2_builder = ''0''\<rparr>"

definition signed0 :: signed_order where
  "signed0 = \<lparr>so_payload = PayloadV2 order0 1800, so_signature = Ecdsa ''sig'', so_order_type = GTD, so_owner = ''key'',
     so_post_only = Some True, so_defer_exec = None\<rparr>"

definition sdk1 :: sdk where
  "sdk1 = \<lparr>parse_u256 = (\<lambda>s. case parse_digits s of None \<Rightarrow> Inl ''digit'' | Some n \<Rightarrow> Inr n), parse_address = Inr, parse_b256 = Inr,
     parse_signature = Inr, parse_owner = Some, show_address = id, lower_hex_address = id, show_b256 = id, show_signature = id, show_owner = id,
     signing_hash_v1 = (\<lambda>_ _. ''h1''), signing_hash_v2 = (\<lambda>_ _. ''h2''),
     contract_config = (\<lambda>_. Some \<lparr>ea_v1 = ''e1'', ea_v2 = Some (exchanges ! 0)\<rparr>),
     read_json = (\<lambda>_. Inl ''eof''), print_json = (\<lambda>_. None), serde_error = id\<rparr>"

definition signed_tree0 :: json where
  "signed_tree0 = the (signed_order_json sdk1 signed0)"

definition sdk0 :: sdk where
  "sdk0 = sdk1\<lparr>print_json := (\<lambda>v. if v = signed_tree0 then Some ''{}'' else None),
     read_json := (\<lambda>t. if t = ''{}'' then Inr signed_tree0 else Inl ''eof'')\<rparr>"

definition order_client0 :: order_client where
  "order_client0 = \<lparr>amount_check = (\<lambda>_. None), build_order = (\<lambda>_. Inr (PayloadV2 order0 1800)), sign_order = (\<lambda>_ _. Inr signed0), neg_risk = (\<lambda>_. Inr False)\<rparr>"

definition gtd_decision0 :: sized_decision where
  "gtd_decision0 = \<lparr>sd_intent_id = 1, sd_token_id = ''5'', sd_side = Buy, sd_qty = 2, sd_limit_price = 1/2, sd_buy_budget = Some 1,
     sd_buy_shares_exact = True, sd_maker_only = True\<rparr>"

lemma sdk0_codec: "sdk_codec sdk0"
  by (simp add: sdk_codec_def sdk0_def sdk1_def parse_digits_show)

lemma signed0_regular: "regular_order signed0"
  by (simp add: regular_order_def signed0_def order0_def sized_v2_def poly1271_def)

lemma serialized0: "serialize_order sdk0 signed0 = Some ''{}''"
proof -
  have "signed_order_json sdk0 signed0 = Some signed_tree0"
    by (simp add: signed_tree0_def sdk0_def sdk1_def signed_order_json_def signed0_def order0_def side_json_def body_json_v2_def signature_text_def)
  then show ?thesis by (simp add: serialize_order_def sdk0_def)
qed

lemma prepared0:
  "prepare_post_only_gtd_buy ext0 sdk0 (\<lambda>_. ''1800'') order_client0 gtd_decision0 1800000 =
     Inr ((assemble_envelope ext0 gtd_decision0 signed0 ''h2'' ''{}'')
       \<lparr>en_order_type := ''GTD'', en_expires_at := Some ''1800'', en_post_only := True\<rparr>, signed0)"
proof -
  have p: "so_payload signed0 = PayloadV2 order0 1800" "v2_signature_type order0 = 2" by (simp_all add: signed0_def order0_def)
  have c: "contract_config sdk0 = (\<lambda>_. Some \<lparr>ea_v1 = ''e1'', ea_v2 = Some (exchanges ! 0)\<rparr>)" "signing_hash_v2 sdk0 = (\<lambda>_ _. ''h2'')"
    "show_b256 sdk0 = id" by (simp_all add: sdk0_def sdk1_def)
  have "sign_and_identify sdk0 order_client0 spec = Inr (signed0, ''h2'', ''{}'')" for spec
    by (simp add: sign_and_identify_def order_client0_def try_then_def map_err_def ok_or_def payload_token_def
        compute_expected_taker_order_id_def expected_order_id_def poly1271_def format_order_id_def p c serialized0)
  moreover have "parse_u256 sdk0 ''5'' = Inr 5"
    by (simp add: sdk0_def sdk1_def parse_digits_def all_digits_def)
  ultimately show ?thesis
    by (simp add: prepare_post_only_gtd_buy_def gtd_decision0_def try_then_def map_err_def)
qed

theorem persisted_order_is_signed_order_witness:
  "reconstruct_signed_order sdk0 ''{}'' = Inr signed0 \<and> id_of_signed sdk0 order_client0 signed0 ''h2''"
  using persisted_order_is_signed_order [OF sdk0_codec ext0_dec_codec signed0_regular disjI2 [OF prepared0]]
  by (simp add: assemble_envelope_def)

end
