(* ===== verification/ChainEvidence.thy ===== *)
theory ChainEvidence
  imports Recovery Signing
begin

text \<open>
  The evidence behind a no-fill refund of a resting order: the strict, read-only scan of the chain
  (\<open>src/src/venue/gtd_chain_evidence.rs\<close>), the check of the persisted signed order
  (\<open>src/src/venue/gtd_signed_identity.rs\<close>), and the operator command that joins them with the authenticated trade history
  and the resolution of the case (\<open>src/src/bin/persistent_control/gtd_chain_no_fill.rs\<close>).

  The network is a function of the number of calls made so far, so a node may change its mind between two calls; block
  heights are natural numbers, the answers' numbers are checked at 64 bits.
\<close>

section \<open>The request\<close>

definition order_filled_topic :: string where
  "order_filled_topic = ''0xd543adfd945773f1a62f74f0ee55a5e3b9b1a28262980ba90b1a89f2ea84d8ee''"

definition finality :: nat where "finality = 128"
definition max_blocks :: nat where "max_blocks = 5001"

record scan_request =
  sr_order_hash :: string
  sr_maker :: string
  sr_token :: string
  sr_start :: nat
  sr_end :: nat
  sr_submitted :: timestamp
  sr_settled :: timestamp

section \<open>Calls\<close>

type_synonym network = "nat \<Rightarrow> string \<Rightarrow> string \<Rightarrow> json \<Rightarrow> string + json"
type_synonym 'a rpc_act = "(nat, string, 'a) act"

definition rpc_new :: "bool \<Rightarrow> string list \<Rightarrow> string + string list" where
  "rpc_new client_ok endpoints =
     (if length endpoints < 2 \<or> list_ex (\<lambda>e. take 8 e \<noteq> ''https://'') endpoints \<or> \<not> distinct endpoints
      then Inl ''at least two distinct HTTPS RPC endpoints required''
      else if \<not> client_ok then Inl ''RPC client setup failed'' else Inr endpoints)"

definition rpc_call :: "network \<Rightarrow> string \<Rightarrow> string \<Rightarrow> json \<Rightarrow> json rpc_act" where
  "rpc_call net url method params = (\<lambda>n. (case net n url method params of
       Inl e \<Rightarrow> Inl e
     | Inr value \<Rightarrow>
        (if (case json_get ''jsonrpc'' value of None \<Rightarrow> None | Some v \<Rightarrow> as_str v) \<noteq> Some ''2.0'' \<or>
            json_get ''id'' value \<noteq> Some (JNumber 1) \<or>
            (case json_get ''error'' value of None \<Rightarrow> False | Some v \<Rightarrow> v \<noteq> JNull) \<or>
            json_field value ''result'' = JNull
         then Inl (method @ '' RPC error or missing result'') else Inr (json_field value ''result'')), n + 1))"

definition rpc_block :: "network \<Rightarrow> string \<Rightarrow> nat \<Rightarrow> (string \<times> nat) rpc_act" where
  "rpc_block net url number =
     and_then (rpc_call net url ''eth_getBlockByNumber'' (JArray [JString (''0x'' @ show_hex number), JBool False])) (\<lambda>block.
     and_then (lift_result (hex_number (json_field block ''number''))) (\<lambda>height.
     and_then (assert_that (height = number) ''block height mismatch'') (\<lambda>_.
     and_then (lift_result (block_hash (json_field block ''hash''))) (\<lambda>h.
     and_then (lift_result (hex_number (json_field block ''timestamp''))) (\<lambda>t.
     ret (h, t))))))"

definition rpc_head :: "network \<Rightarrow> string \<Rightarrow> nat rpc_act" where
  "rpc_head net url =
     and_then (rpc_call net url ''eth_blockNumber'' (JArray [])) (\<lambda>v. lift_result (hex_number v))"

text \<open>\<open>while left < right\<close>\<close>

function first_search :: "network \<Rightarrow> string \<Rightarrow> nat \<Rightarrow> nat \<Rightarrow> nat \<Rightarrow> nat rpc_act" where
  "first_search net url timestamp left right n =
     (if left < right then
        let mid = left + (right - left) div 2 in
        (case rpc_block net url mid n of
           (Inl e, n') \<Rightarrow> (Inl e, n')
         | (Inr (h, t), n') \<Rightarrow>
            if t < timestamp then first_search net url timestamp (mid + 1) right n'
            else first_search net url timestamp left mid n')
      else (Inr left, n))"
  by pat_completeness auto
termination by (relation "measure (\<lambda>(_, _, _, left, right, _). right - left)") auto

declare first_search.simps [simp del]

definition not_final_yet :: string where
  "not_final_yet = utf8 [229, 176, 154, 230, 156, 170, 232, 190, 190, 229, 136, 176, 230, 156, 128, 231, 187, 136, 231, 161, 174,
     232, 174, 164, 58, 32]"

definition chain_too_short :: string where
  "chain_too_short = not_final_yet @ utf8 [233, 147, 190, 233, 171, 152, 229, 186, 166, 228, 184, 141, 232, 182, 179]"

definition final_block_too_early :: string where
  "final_block_too_early = not_final_yet @ utf8 [230, 156, 128, 230, 150, 176, 229, 183, 178, 231, 161, 174, 232, 174, 164, 229,
     140, 186, 229, 157, 151, 230, 151, 169, 228, 186, 142, 231, 155, 174, 230, 160, 135, 230, 151, 182, 233, 151, 180]"

definition first_block_at :: "network \<Rightarrow> string list \<Rightarrow> nat \<Rightarrow> nat rpc_act" where
  "first_block_at net endpoints timestamp =
     and_then (or_raise ''panic: index out of bounds'' (case endpoints of [] \<Rightarrow> None | url # _ \<Rightarrow> Some url)) (\<lambda>url.
     and_then (rpc_head net url) (\<lambda>head.
     and_then (or_raise chain_too_short
        (if finality \<le> head \<and> 1 \<le> head - finality then Some (head - finality) else None)) (\<lambda>right.
     and_then (rpc_block net url right) (\<lambda>(_, t).
     if t < timestamp then raise final_block_too_early
     else first_search net url timestamp 1 right))))"

section \<open>The scan\<close>

definition logs_params :: "string \<Rightarrow> nat \<Rightarrow> nat \<Rightarrow> json list \<Rightarrow> json" where
  "logs_params exchange from_block to_block topics =
     JArray [JObject [(''address'', JString exchange), (''fromBlock'', JString (''0x'' @ show_hex from_block)),
       (''toBlock'', JString (''0x'' @ show_hex to_block)), (''topics'', JArray topics)]]"

definition log_malformed :: "string \<Rightarrow> nat \<Rightarrow> nat \<Rightarrow> json \<Rightarrow> string + bool" where
  "log_malformed exchange from_block to_block ev =
     (if json_field ev ''removed'' = JBool True \<or> \<not> is_text exchange (json_field ev ''address'') then Inr True
      else (case hex_number (json_field ev ''blockNumber'') of
              Inl e \<Rightarrow> Inl e
            | Inr b \<Rightarrow> Inr (b < from_block \<or> b > to_block \<or>
                \<not> is_text order_filled_topic (json_nth (json_field ev ''topics'') 0))))"

definition pad_address :: "string \<Rightarrow> string" where
  "pad_address maker = (let digits = drop 2 maker in ''0x'' @ replicate (64 - length digits) CHR ''0'' @ digits)"

text \<open>A ev of the exact-hash query: every branch is an error.\<close>

definition exact_log_error :: "scan_request \<Rightarrow> json \<Rightarrow> string" where
  "exact_log_error r ev =
     (if \<not> is_text (sr_order_hash r) (json_nth (json_field ev ''topics'') 1) then ''exact-hash log topic mismatch''
      else (case as_array (json_field ev ''topics'') of
        None \<Rightarrow> ''malformed event topics''
      | Some topics \<Rightarrow>
        if length topics \<noteq> 4 \<or> \<not> is_text (pad_address (sr_maker r)) (topics ! 2)
        then ''exact-hash event maker mismatch; no-fill forbidden''
        else (case as_str (json_field ev ''data'') of
          None \<Rightarrow> ''missing event data''
        | Some data \<Rightarrow>
          if \<not> is_hex_text 450 data then ''malformed exact-hash event data; no-fill forbidden''
          else (case parse_hex_u64 (take 64 (drop 2 data)) of
            None \<Rightarrow> ''invalid event side''
          | Some side \<Rightarrow> (case parse_hex (take 64 (drop 66 data)) of
            None \<Rightarrow> ''invalid event token''
          | Some event_token \<Rightarrow>
            if side \<noteq> 0 \<or> show_nat event_token \<noteq> sr_token r
            then ''exact-hash event side/token mismatch; no-fill forbidden''
            else ''exact-hash OrderFilled exists; no-fill forbidden'')))))"

definition control_log :: "(json \<Rightarrow> string) \<Rightarrow> scan_request \<Rightarrow> json \<Rightarrow> string + string" where
  "control_log show_json r ev =
     (if is_text (sr_order_hash r) (json_nth (json_field ev ''topics'') 1)
      then Inl ''control stream contains target order absent from exact-hash query''
      else (case block_hash (json_field ev ''transactionHash'') of
        Inl e \<Rightarrow> Inl e
      | Inr tx \<Rightarrow> (case block_hash (json_field ev ''blockHash'') of
        Inl e \<Rightarrow> Inl e
      | Inr bh \<Rightarrow> (case hex_number (json_field ev ''logIndex'') of
        Inl e \<Rightarrow> Inl e
      | Inr index_in_block \<Rightarrow>
          Inr (bh @ '':'' @ tx @ '':'' @ show_nat index_in_block @ '':'' @ show_json ev)))))"

fun scan_logs :: "(json \<Rightarrow> string) \<Rightarrow> scan_request \<Rightarrow> string \<Rightarrow> bool \<Rightarrow> nat \<Rightarrow> nat \<Rightarrow> json list \<Rightarrow> string + string list" where
  "scan_logs show_json r exchange control from_block to_block [] = Inr []"
| "scan_logs show_json r exchange control from_block to_block (ev # logs) =
     (case log_malformed exchange from_block to_block ev of
        Inl e \<Rightarrow> Inl e
      | Inr True \<Rightarrow> Inl ''malformed or out-of-window OrderFilled log''
      | Inr False \<Rightarrow>
         if \<not> control then Inl (exact_log_error r ev)
         else (case control_log show_json r ev of
             Inl e \<Rightarrow> Inl e
           | Inr entry \<Rightarrow> (case scan_logs show_json r exchange control from_block to_block logs of
               Inl e \<Rightarrow> Inl e | Inr entries \<Rightarrow> Inr (entry # entries))))"

definition query_topics :: "bool \<Rightarrow> scan_request \<Rightarrow> json list" where
  "query_topics control r = (if control then [JString order_filled_topic] else [JString order_filled_topic, JString (sr_order_hash r)])"

definition scan_query ::
  "network \<Rightarrow> (json \<Rightarrow> string) \<Rightarrow> string \<Rightarrow> scan_request \<Rightarrow> string \<Rightarrow> bool \<Rightarrow> nat \<Rightarrow> nat \<Rightarrow> string list rpc_act" where
  "scan_query net show_json url r exchange control from_block to_block =
     and_then (rpc_call net url ''eth_getLogs'' (logs_params exchange from_block to_block (query_topics control r))) (\<lambda>v.
     and_then (or_raise ''RPC logs not an array'' (as_array v)) (\<lambda>logs.
     lift_result (scan_logs show_json r exchange control from_block to_block logs)))"

text \<open>The streams of control entries, one per exchange.\<close>

fun scan_exchanges ::
  "network \<Rightarrow> (json \<Rightarrow> string) \<Rightarrow> string \<Rightarrow> scan_request \<Rightarrow> nat \<Rightarrow> nat \<Rightarrow> string list \<Rightarrow> string list list rpc_act" where
  "scan_exchanges net show_json url r from_block to_block [] = ret []"
| "scan_exchanges net show_json url r from_block to_block (exchange # es) =
     and_then (scan_query net show_json url r exchange False from_block to_block) (\<lambda>_.
     and_then (scan_query net show_json url r exchange True from_block to_block) (\<lambda>entries.
     and_then (scan_exchanges net show_json url r from_block to_block es) (\<lambda>rest.
     ret (entries # rest))))"

fun scan_windows ::
  "network \<Rightarrow> (json \<Rightarrow> string) \<Rightarrow> string \<Rightarrow> scan_request \<Rightarrow> nat list \<Rightarrow> string list list rpc_act" where
  "scan_windows net show_json url r [] = ret [[], []]"
| "scan_windows net show_json url r (from_block # fs) =
     and_then (scan_exchanges net show_json url r from_block (min (from_block + 99) (sr_end r)) exchanges) (\<lambda>streams.
     and_then (scan_windows net show_json url r fs) (\<lambda>rest.
     ret (map2 (@) streams rest)))"

text \<open>\<open>(start..=end).step_by(100)\<close>\<close>

definition window_starts :: "scan_request \<Rightarrow> nat list" where
  "window_starts r = map (\<lambda>k. sr_start r + 100 * k) [0..<Suc ((sr_end r - sr_start r) div 100)]"

definition unix_seconds :: "timestamp \<Rightarrow> int" where
  "unix_seconds t = t div 1000"

type_synonym boundary_snapshot = "(string \<times> nat) list \<times> string list list"

definition scan_endpoint :: "network \<Rightarrow> (json \<Rightarrow> string) \<Rightarrow> scan_request \<Rightarrow> string \<Rightarrow> boundary_snapshot rpc_act" where
  "scan_endpoint net show_json r url =
     and_then (rpc_head net url) (\<lambda>head.
     and_then (assert_that (min (sr_end r + finality) (2 ^ 64 - 1) \<le> head) ''insufficient finality'') (\<lambda>_.
     and_then (rpc_block net url (sr_start r - 1)) (\<lambda>before.
     and_then (rpc_block net url (sr_start r)) (\<lambda>first.
     and_then (rpc_block net url (sr_end r)) (\<lambda>last.
     and_then (rpc_block net url (sr_end r + 1)) (\<lambda>after.
     and_then (assert_that (int (snd before) < unix_seconds (sr_submitted r) \<and> unix_seconds (sr_settled r) \<le> int (snd last))
       ''scan does not cover submission through settlement'') (\<lambda>_.
     and_then (scan_windows net show_json url r (window_starts r)) (\<lambda>controls.
     and_then (assert_that (\<not> list_ex (\<lambda>stream. stream = []) controls)
       ''control query found no OrderFilled on a scanned exchange'') (\<lambda>_.
     ret ([before, first, last, after], map sort controls))))))))))"

fun scan_endpoints ::
  "network \<Rightarrow> (json \<Rightarrow> string) \<Rightarrow> scan_request \<Rightarrow> string list \<Rightarrow> boundary_snapshot option \<Rightarrow> boundary_snapshot option rpc_act" where
  "scan_endpoints net show_json r [] canonical = ret canonical"
| "scan_endpoints net show_json r (url # urls) canonical =
     and_then (scan_endpoint net show_json r url) (\<lambda>snapshot.
     if canonical \<noteq> None \<and> canonical \<noteq> Some snapshot
     then raise ''RPC nodes disagree on boundary blocks or control evidence''
     else scan_endpoints net show_json r urls (Some snapshot))"

definition request_ok :: "ext \<Rightarrow> timestamp \<Rightarrow> scan_request \<Rightarrow> bool" where
  "request_ok X now r \<longleftrightarrow> sr_start r \<noteq> 0 \<and> sr_start r \<le> sr_end r \<and> sr_end r - sr_start r < max_blocks \<and> sr_settled r \<le> now \<and>
     0 \<le> unix_seconds (sr_submitted r) \<and> unix_seconds (sr_submitted r) \<le> unix_seconds (sr_settled r) \<and>
     is_hex_text 66 (sr_order_hash r) \<and> is_hex_text 42 (sr_maker r) \<and> u256_ok X (sr_token r)"

definition show_strings :: "string list \<Rightarrow> string" where
  "show_strings ss = ''['' @ join '', '' (map (\<lambda>s. ''\"'' @ s @ ''\"'') ss) @ '']''"

definition prove_zero :: "ext \<Rightarrow> network \<Rightarrow> (json \<Rightarrow> string) \<Rightarrow> timestamp \<Rightarrow> string list \<Rightarrow> scan_request \<Rightarrow> zero_proof rpc_act" where
  "prove_zero X net show_json now endpoints r =
     and_then (assert_that (request_ok X now r) ''invalid order, maker, token, or bounded mature window'') (\<lambda>_.
     and_then (scan_endpoints net show_json r endpoints None) (\<lambda>canonical.
     and_then (or_raise ''panic: called `Option::unwrap()` on a `None` value'' canonical) (\<lambda>(blocks, _).
     ret \<lparr>zp_order_hash = sr_order_hash r, zp_maker = sr_maker r, zp_token = sr_token r,
       zp_detail = ''two-node exact-hash zero; range='' @ show_nat (sr_start r) @ ''..='' @ show_nat (sr_end r) @
         ''; boundary hashes='' @ show_strings (map fst blocks)\<rparr>)))"

section \<open>The operator command\<close>

text \<open>
  \<open>run\<close> of \<open>gtd_chain_no_fill.rs\<close>: what it reads from outside is the process's clock at three instants, the setup of the
  authenticated adapter, its neg-risk lookup and its trade history, the environment variable of the endpoints, and the network.
\<close>

record no_fill_world =
  nw_clock :: "nat \<Rightarrow> timestamp"
  nw_adapter_ok :: bool
  nw_neg_risk :: "nat \<Rightarrow> string + bool"
  nw_rpcs :: "string option"
  nw_client_ok :: bool
  nw_net :: network
  nw_show_json :: "json \<Rightarrow> string"
  nw_reader :: trade_history_reader

definition settlement_margin :: timestamp where "settlement_margin = 1800000"

definition rpc_endpoints :: "string \<Rightarrow> string list" where
  "rpc_endpoints raw = map trim (split_on CHR '','' raw)"

definition attempt_identity_ok :: "ext \<Rightarrow> order_attempt_row \<Rightarrow> copy_intent_row \<Rightarrow> prepared_order_envelope \<Rightarrow> string \<Rightarrow> bool" where
  "attempt_identity_ok X oa ci env order_id \<longleftrightarrow>
     ci_status ci = NeedsReconcile \<and> oa_status oa = Uncertain \<and> ci_side ci = ''BUY'' \<and> en_token_id env = ci_token_id ci \<and>
     en_order_type env = ''GTD'' \<and> en_post_only env \<and> en_expected_taker_order_id env = order_id \<and>
     parse_dec X (oa_accounted_filled_qty oa) = Some 0"

definition exact_hash_traded :: "string \<Rightarrow> account_trade list \<Rightarrow> bool" where
  "exact_hash_traded order_id trades \<longleftrightarrow> list_ex (\<lambda>trade. eq_ignore_ascii_case (tr_taker_order_id trade) order_id \<or>
     list_ex (\<lambda>fill. eq_ignore_ascii_case (mf_order_id fill) order_id) (tr_maker_orders trade)) trades"

text \<open>The two searches and the scan, on one connection.\<close>

definition chain_scan :: "ext \<Rightarrow> no_fill_world \<Rightarrow> string list \<Rightarrow> string \<Rightarrow> string \<Rightarrow> string \<Rightarrow> timestamp \<Rightarrow> timestamp \<Rightarrow> zero_proof rpc_act" where
  "chain_scan X w endpoints order_id funder token submitted settled_at =
     and_then (first_block_at (nw_net w) endpoints (nat (unix_seconds (submitted - 1000)))) (\<lambda>first.
     and_then (first_block_at (nw_net w) endpoints (nat (unix_seconds settled_at))) (\<lambda>end_block.
     prove_zero X (nw_net w) (nw_show_json w) (nw_clock w 1) endpoints
       \<lparr>sr_order_hash = order_id, sr_maker = funder, sr_token = token, sr_start = first, sr_end = end_block,
        sr_submitted = submitted, sr_settled = settled_at\<rparr>))"

definition no_fill_evidence ::
  "ext \<Rightarrow> sdk \<Rightarrow> no_fill_world \<Rightarrow> string \<Rightarrow> string \<Rightarrow> prepared_order_envelope \<Rightarrow> string \<Rightarrow> string \<Rightarrow> string + (zero_proof \<times> string \<times> string)" where
  "no_fill_evidence X S w token funder env order_id submitted_raw =
     try_then (ok_or ''missing or invalid persisted GTD time'' (parse_time X submitted_raw)) (\<lambda>submitted.
     try_then (ok_or ''GTD has no signed expiry'' (en_expires_at env)) (\<lambda>expires_raw.
     try_then (ok_or ''missing or invalid persisted GTD time'' (parse_time X expires_raw)) (\<lambda>expires.
     let settled_at = expires + settlement_margin in
     if expires < submitted \<or> nw_clock w 0 < settled_at then Inl ''GTD expiry plus settlement margin has not elapsed'' else
     if \<not> nw_adapter_ok w then Inl ''authenticated CLOB setup failed'' else
     if \<not> outcome_token_id_ok X token then Inl ''invalid persisted token'' else
     try_then (map_err (\<lambda>_. ''invalid token for neg-risk query'') (parse_u256 S token)) (\<lambda>token_id.
     try_then (map_err (\<lambda>_. ''neg-risk lookup failed'') (nw_neg_risk w token_id)) (\<lambda>neg.
     try_then (verify_v2_identity X S env funder neg) (\<lambda>signed_exchange.
     try_then (ok_or ''set POLYCOPY_GTD_CHAIN_RPCS to two independent HTTPS endpoints'' (nw_rpcs w)) (\<lambda>raw.
     try_then (rpc_new (nw_client_ok w) (rpc_endpoints raw)) (\<lambda>endpoints.
     if unix_seconds (submitted - 1000) < 0 then Inl ''submission window precedes chain genesis'' else
     try_then (fst (chain_scan X w endpoints order_id funder token submitted settled_at 0)) (\<lambda>ev.
     try_then (map_err (\<lambda>_. ''invalid authenticated CLOB window'')
        (trade_history_window_new (submitted - 1000) (settled_at + 1000))) (\<lambda>window.
     try_then (map_err (\<lambda>_. ''authenticated CLOB history unavailable or incomplete'')
        (trades_between_unfiltered (nw_reader w) token (tw_after window) (tw_before window))) (\<lambda>trades.
     if exact_hash_traded order_id trades then Inl ''authenticated CLOB contains exact order hash; no-fill forbidden''
     else Inr (ev, expires_raw, signed_exchange))))))))))))"

definition gtd_chain_no_fill :: "ext \<Rightarrow> sdk \<Rightarrow> no_fill_world \<Rightarrow> int \<Rightarrow> int \<Rightarrow> (persistent_error, int \<times> string) db_act" where
  "gtd_chain_no_fill X S w account_id attempt_id =
     and_then (reads (attempt_with_intent account_id attempt_id)) (\<lambda>row.
     and_then (or_raise UnresolvedRecovery row) (\<lambda>(oa, ci).
     and_then (reads (account_by_id account_id)) (\<lambda>account.
     and_then (or_raise UnresolvedRecovery account) (\<lambda>account.
     and_then (or_raise (PersDatabase ''unexpected null'') (acc_funder_address account)) (\<lambda>funder.
     and_then (or_raise (PersDatabase ''unexpected null'') (oa_venue_order_id oa)) (\<lambda>order_id.
     and_then (or_raise (PersDatabase ''unexpected null'') (oa_submission_started_at oa)) (\<lambda>submitted_raw.
     and_then (or_raise UnresolvedRecovery (envelope_of_json X (oa_envelope_json oa))) (\<lambda>env.
     and_then (assert_that (attempt_identity_ok X oa ci env order_id) UnresolvedRecovery) (\<lambda>_.
     and_then (lift_result (map_err Config (no_fill_evidence X S w (ci_token_id ci) funder env order_id submitted_raw))) (\<lambda>(ev, expires_raw, signed_exchange).
     and_then (resolve_chain_proven_gtd_no_fill X (nw_clock w 2) account_id attempt_id submitted_raw expires_raw ev) (\<lambda>case_id.
     ret (case_id, signed_exchange))))))))))))"

section \<open>What a completed scan saw\<close>

text \<open>Every call is counted; a block is one call.\<close>

lemma rpc_call_counts: "rpc_call net url method params n = (r, n') \<Longrightarrow> n' = n + 1"
  by (simp add: rpc_call_def)

lemma rpc_block_ok:
  assumes "rpc_block net url b n = (Inr (h, t), n')"
  obtains v where "rpc_call net url ''eth_getBlockByNumber'' (JArray [JString (''0x'' @ show_hex b), JBool False]) n = (Inr v, n')"
    "hex_number (json_field v ''number'') = Inr b" "block_hash (json_field v ''hash'') = Inr h"
    "hex_number (json_field v ''timestamp'') = Inr t"
  using assms by (auto simp: rpc_block_def act_ok)

lemma rpc_block_counts: "rpc_block net url b n = (Inr x, n') \<Longrightarrow> n' = n + 1"
  by (cases x) (auto elim!: rpc_block_ok dest: rpc_call_counts)

text \<open>Any log of the exact-hash query ends the scan.\<close>

lemma exact_scan_empty: "scan_logs sj r ex False f t logs = Inr es \<Longrightarrow> logs = []"
  by (cases logs) (auto split: sum.splits bool.splits)

definition exact_query :: "string \<Rightarrow> nat \<Rightarrow> nat \<Rightarrow> string \<Rightarrow> json" where
  "exact_query exchange from_block to_block hash =
     logs_params exchange from_block to_block [JString order_filled_topic, JString hash]"

lemma scan_query_exact:
  assumes "scan_query net sj url r ex False f t n = (Inr es, n')"
  shows "rpc_call net url ''eth_getLogs'' (exact_query ex f t (sr_order_hash r)) n = (Inr (JArray []), n')"
proof -
  from assms obtain v logs where "rpc_call net url ''eth_getLogs'' (exact_query ex f t (sr_order_hash r)) n = (Inr v, n')"
    "as_array v = Some logs" "scan_logs sj r ex False f t logs = Inr es"
    by (auto simp: scan_query_def act_ok query_topics_def exact_query_def)
  then show ?thesis by (cases v) (auto simp: as_array_def dest: exact_scan_empty)
qed

lemma scan_exchanges_exact:
  assumes "scan_exchanges net sj url r f t es n = (Inr ss, n')" "ex \<in> set es"
  shows "\<exists>m m'. rpc_call net url ''eth_getLogs'' (exact_query ex f t (sr_order_hash r)) m = (Inr (JArray []), m')"
  using assms
proof (induction es arbitrary: n ss n')
  case (Cons e es)
  from Cons.prems(1) obtain x n1 y n2 z n3 where s: "scan_query net sj url r e False f t n = (Inr x, n1)"
    "scan_exchanges net sj url r f t es n2 = (Inr z, n3)"
    by (auto simp: act_ok)
  show ?case
  proof (cases "ex = e")
    case True
    with scan_query_exact [OF s(1)] show ?thesis by blast
  next
    case False
    with Cons.prems(2) show ?thesis by (intro Cons.IH [OF s(2)]) simp
  qed
qed simp

lemma scan_windows_exact:
  assumes "scan_windows net sj url r fs n = (Inr ss, n')" "f \<in> set fs" "ex \<in> set exchanges"
  shows "\<exists>m m'. rpc_call net url ''eth_getLogs'' (exact_query ex f (min (f + 99) (sr_end r)) (sr_order_hash r)) m = (Inr (JArray []), m')"
  using assms(1,2)
proof (induction fs arbitrary: n ss n')
  case (Cons g fs)
  from Cons.prems(1) obtain x n1 z n2 where s: "scan_exchanges net sj url r g (min (g + 99) (sr_end r)) exchanges n = (Inr x, n1)"
    "scan_windows net sj url r fs n1 = (Inr z, n2)"
    by (auto simp: act_ok)
  show ?case
  proof (cases "f = g")
    case True
    then show ?thesis using scan_exchanges_exact [OF s(1) assms(3)] by simp
  next
    case False
    with Cons.prems(2) show ?thesis by (intro Cons.IH [OF s(2)]) simp
  qed
qed simp

text \<open>The windows cover the range.\<close>

lemma window_covers:
  assumes "sr_start r \<le> b" "b \<le> sr_end r"
  shows "\<exists>f \<in> set (window_starts r). f \<le> b \<and> b \<le> min (f + 99) (sr_end r)"
proof -
  define k where "k = (b - sr_start r) div 100"
  have "k \<le> (sr_end r - sr_start r) div 100" unfolding k_def using assms by (intro div_le_mono) simp
  then have "sr_start r + 100 * k \<in> set (window_starts r)" by (auto simp: window_starts_def)
  moreover have "100 * k \<le> b - sr_start r" "b - sr_start r < 100 * k + 100" unfolding k_def by simp_all
  then have "sr_start r + 100 * k \<le> b \<and> b \<le> min (sr_start r + 100 * k + 99) (sr_end r)" using assms by linarith
  ultimately show ?thesis by blast
qed

lemma scan_endpoint_ok:
  assumes "scan_endpoint net sj r url n = (Inr snap, n')"
  obtains h t h' t' m1 m2 m3 m4 m5 m6 cs where
    "rpc_block net url (sr_start r - 1) m1 = (Inr (h, t), m2)" "int t < unix_seconds (sr_submitted r)"
    "rpc_block net url (sr_end r) m3 = (Inr (h', t'), m4)" "unix_seconds (sr_settled r) \<le> int t'"
    "scan_windows net sj url r (window_starts r) m5 = (Inr cs, m6)" "\<forall>stream \<in> set cs. stream \<noteq> []"
proof -
  from assms obtain m1 m2 m3 m4 m5 h t h' t' cs where
    "rpc_block net url (sr_start r - 1) m1 = (Inr (h, t), m2)" "int t < unix_seconds (sr_submitted r)"
    "rpc_block net url (sr_end r) m3 = (Inr (h', t'), m4)" "unix_seconds (sr_settled r) \<le> int t'"
    "scan_windows net sj url r (window_starts r) m5 = (Inr cs, n')" "[] \<notin> set cs"
    by (auto simp: scan_endpoint_def act_ok list_ex_iff)
  then show thesis by (intro that [of m1 h t m2 m3 h' t' m4 m5 cs n']) auto
qed

lemma scan_endpoints_each:
  assumes "scan_endpoints net sj r urls c n = (Inr c', n')" "url \<in> set urls"
  shows "\<exists>m snap m'. scan_endpoint net sj r url m = (Inr snap, m') \<and> c' = Some snap"
  using assms
proof (induction urls arbitrary: c n)
  case (Cons u us)
  from Cons.prems(1) obtain snap n1 where s: "scan_endpoint net sj r u n = (Inr snap, n1)"
    "scan_endpoints net sj r us (Some snap) n1 = (Inr c', n')"
    by (auto simp: act_ok split: if_splits)
  have keep: "c' = Some x" if "scan_endpoints net sj r vs (Some x) m = (Inr c', m')" for vs x m m'
    using that by (induction vs arbitrary: x m) (auto simp: act_ok split: if_splits)
  show ?case
  proof (cases "url = u")
    case True
    with s(1) keep [OF s(2)] show ?thesis by blast
  next
    case False
    with Cons.prems(2) show ?thesis by (intro Cons.IH [OF s(2)]) simp
  qed
qed simp

section \<open>Nodes that tell the truth\<close>

text \<open>
  The chain as it is: the time of every block, and the blocks with an \<open>OrderFilled\<close> event of an order hash on an exchange.
  A node is honest when a block it reports has the block's time and a filtered log query over a range that has such
  an event is not answered by the empty list; it may fail or refuse at any call.
\<close>

record chain =
  block_time :: "nat \<Rightarrow> nat"
  filled_in :: "string \<Rightarrow> string \<Rightarrow> nat \<Rightarrow> bool"

definition chain_ok_times :: "chain \<Rightarrow> bool" where
  "chain_ok_times ch \<longleftrightarrow> (\<forall>b b'. b \<le> b' \<longrightarrow> block_time ch b \<le> block_time ch b')"

definition honest_times :: "network \<Rightarrow> chain \<Rightarrow> string \<Rightarrow> bool" where
  "honest_times net ch url \<longleftrightarrow> (\<forall>b n h t n'. rpc_block net url b n = (Inr (h, t), n') \<longrightarrow> t = block_time ch b)"

definition honest_logs :: "network \<Rightarrow> chain \<Rightarrow> string \<Rightarrow> bool" where
  "honest_logs net ch url \<longleftrightarrow> (\<forall>ex f t hash b n n'. f \<le> b \<longrightarrow> b \<le> t \<longrightarrow> filled_in ch ex hash b \<longrightarrow>
     rpc_call net url ''eth_getLogs'' (exact_query ex f t hash) n \<noteq> (Inr (JArray []), n'))"

lemma block_before:
  assumes "chain_ok_times ch" "block_time ch b < block_time ch b'" shows "b < b'"
proof (rule ccontr)
  assume "\<not> b < b'"
  then have "block_time ch b' \<le> block_time ch b" using assms(1) by (simp add: chain_ok_times_def)
  with assms(2) show False by simp
qed

lemma scanned_block_unfilled:
  assumes net: "honest_times net ch url" "honest_logs net ch url" "chain_ok_times ch"
    and scan: "scan_endpoint net sj r url n = (Inr snap, n')" and start: "sr_start r \<noteq> 0"
    and ex: "ex \<in> set exchanges"
    and b: "unix_seconds (sr_submitted r) \<le> int (block_time ch b)" "int (block_time ch b) < unix_seconds (sr_settled r)"
  shows "\<not> filled_in ch ex (sr_order_hash r) b"
proof -
  from scan obtain h t h' t' m1 m2 m3 m4 m5 m6 cs where
    s: "rpc_block net url (sr_start r - 1) m1 = (Inr (h, t), m2)" "int t < unix_seconds (sr_submitted r)"
    "rpc_block net url (sr_end r) m3 = (Inr (h', t'), m4)" "unix_seconds (sr_settled r) \<le> int t'"
    "scan_windows net sj url r (window_starts r) m5 = (Inr cs, m6)"
    by (rule scan_endpoint_ok)
  have t: "t = block_time ch (sr_start r - 1)" "t' = block_time ch (sr_end r)"
    using net(1) s(1,3) unfolding honest_times_def by blast+
  have "sr_start r - 1 < b" "b < sr_end r"
    using s(2,4) b t by (auto intro: block_before [OF net(3)])
  then have "sr_start r \<le> b" "b \<le> sr_end r" by linarith+
  then obtain f where f: "f \<in> set (window_starts r)" "f \<le> b" "b \<le> min (f + 99) (sr_end r)"
    using window_covers [of r b] by blast
  from scan_windows_exact [OF s(5) f(1) ex] obtain m m' where
    "rpc_call net url ''eth_getLogs'' (exact_query ex f (min (f + 99) (sr_end r)) (sr_order_hash r)) m = (Inr (JArray []), m')" by blast
  with net(2) f(2,3) show ?thesis unfolding honest_logs_def by blast
qed

lemma prove_zero_ok:
  assumes "prove_zero X net sj now endpoints r n = (Inr ev, n')"
  obtains blocks controls where "request_ok X now r" "scan_endpoints net sj r endpoints None n = (Inr (Some (blocks, controls)), n')"
    "zp_order_hash ev = sr_order_hash r" "zp_maker ev = sr_maker r" "zp_token ev = sr_token r"
  using assms by (auto simp: prove_zero_def act_ok)

lemma scanned_unfilled:
  assumes "prove_zero X net show_json now endpoints r n = (Inr ev, n')"
    and "url \<in> set endpoints" "honest_times net ch url" "honest_logs net ch url" "chain_ok_times ch"
    and "ex \<in> set exchanges"
    and "unix_seconds (sr_submitted r) \<le> int (block_time ch b)" "int (block_time ch b) < unix_seconds (sr_settled r)"
  shows "\<not> filled_in ch ex (sr_order_hash r) b"
proof (rule prove_zero_ok [OF assms(1)])
  fix blocks controls
  assume ok: "request_ok X now r" "scan_endpoints net show_json r endpoints None n = (Inr (Some (blocks, controls)), n')"
  from scan_endpoints_each [OF ok(2) assms(2)] obtain m snap m' where "scan_endpoint net show_json r url m = (Inr snap, m')" by blast
  from scanned_block_unfilled [OF assms(3-5) this _ assms(6-8)] ok(1) show ?thesis by (simp add: request_ok_def)
qed

text \<open>
  C21. A zero proof means there was no fill.  When the scan hands out a proof and at least one of the endpoints it asked is
  honest, then no block from the second of the submission up to the settlement instant has an \<open>OrderFilled\<close> event of
  the order's hash on either exchange; the proof names the hash, maker and token that were asked about.  This holds
  whatever the other endpoints answer, whatever the nodes answer at other calls, and for every window of at most 5001 blocks.
\<close>

theorem zero_proof_sound:
  assumes "prove_zero X net show_json now endpoints r n = (Inr ev, n')"
    and "url \<in> set endpoints" "honest_times net ch url" "honest_logs net ch url" "chain_ok_times ch"
    and "ex \<in> set exchanges"
    and "unix_seconds (sr_submitted r) \<le> int (block_time ch b)" "int (block_time ch b) < unix_seconds (sr_settled r)"
  shows "\<not> filled_in ch ex (zp_order_hash ev) b \<and> zp_order_hash ev = sr_order_hash r \<and> zp_maker ev = sr_maker r \<and>
    zp_token ev = sr_token r \<and> sr_settled r \<le> now"
proof -
  have "sr_settled r \<le> now" "zp_order_hash ev = sr_order_hash r" "zp_maker ev = sr_maker r" "zp_token ev = sr_token r"
    by (rule prove_zero_ok [OF assms(1)], simp add: request_ok_def)+
  with scanned_unfilled [OF assms] show ?thesis by simp
qed

section \<open>The first block at a time\<close>

definition least_block :: "chain \<Rightarrow> nat \<Rightarrow> nat \<Rightarrow> bool" where
  "least_block ch timestamp b \<longleftrightarrow> 1 \<le> b \<and> timestamp \<le> block_time ch b \<and> (\<forall>b'. 1 \<le> b' \<and> b' < b \<longrightarrow> block_time ch b' < timestamp)"

text \<open>A node that answers: the head is \<open>head\<close> and every block can be had.\<close>

definition answers :: "network \<Rightarrow> chain \<Rightarrow> string \<Rightarrow> nat \<Rightarrow> bool" where
  "answers net ch url head \<longleftrightarrow> (\<forall>n. rpc_head net url n = (Inr head, n + 1)) \<and>
     (\<forall>b n. b \<le> head \<longrightarrow> (\<exists>h. rpc_block net url b n = (Inr (h, block_time ch b), n + 1)))"

lemma first_search_stop: "\<not> left < right \<Longrightarrow> first_search net url timestamp left right n = (Inr left, n)"
  by (simp add: first_search.simps)

lemma first_search_step:
  assumes "left < right" "rpc_block net url (left + (right - left) div 2) n = (Inr (h, t), n')"
  shows "first_search net url timestamp left right n =
    (if t < timestamp then first_search net url timestamp (left + (right - left) div 2 + 1) right n'
     else first_search net url timestamp left (left + (right - left) div 2) n')"
  using assms by (subst first_search.simps) (simp add: Let_def)

lemma first_search_fails:
  assumes "left < right" "rpc_block net url (left + (right - left) div 2) n = (Inl e, n')"
  shows "first_search net url timestamp left right n = (Inl e, n')"
  using assms by (subst first_search.simps) (simp add: Let_def)

lemma first_search_least:
  assumes net: "honest_times net ch url" "chain_ok_times ch"
  shows "first_search net url timestamp left right n = (Inr b, n') \<Longrightarrow> 1 \<le> left \<Longrightarrow> left \<le> right \<Longrightarrow>
     timestamp \<le> block_time ch right \<Longrightarrow> \<forall>b'. 1 \<le> b' \<and> b' < left \<longrightarrow> block_time ch b' < timestamp \<Longrightarrow> least_block ch timestamp b"
proof (induction "right - left" arbitrary: left right n rule: less_induct)
  case less
  define mid where "mid = left + (right - left) div 2"
  show ?case
  proof (cases "left < right")
    case False
    with less.prems show ?thesis by (simp add: first_search_stop least_block_def)
  next
    case True
    then have mid: "left \<le> mid" "mid < right" by (auto simp: mid_def)
    obtain h t n1 where blk: "rpc_block net url mid n = (Inr (h, t), n1)"
      using less.prems(1) first_search_fails [OF True] unfolding mid_def
      by (cases "rpc_block net url (left + (right - left) div 2) n"; cases "fst (rpc_block net url (left + (right - left) div 2) n)") auto
    then have t: "t = block_time ch mid" using net(1) unfolding honest_times_def by blast
    note step = first_search_step [OF True, folded mid_def, OF blk, of timestamp]
    show ?thesis
    proof (cases "t < timestamp")
      case True
      have "block_time ch b' < timestamp" if "b' < mid + 1" for b'
      proof -
        have "block_time ch b' \<le> block_time ch mid" using net(2) that by (simp add: chain_ok_times_def)
        with True t show ?thesis by simp
      qed
      with less.hyps [of right "mid + 1" n1] less.prems mid step True show ?thesis by simp
    next
      case False
      with less.hyps [of mid left n1] less.prems mid step t show ?thesis by simp
    qed
  qed
qed

lemma first_search_answers:
  assumes net: "answers net ch url head"
  shows "right \<le> head \<Longrightarrow> right - left < 2 ^ k \<Longrightarrow> \<exists>b n'. first_search net url timestamp left right n = (Inr b, n') \<and> n' \<le> n + k"
proof (induction k arbitrary: left right n)
  case 0
  then show ?case by (simp add: first_search_stop)
next
  case (Suc k)
  define mid where "mid = left + (right - left) div 2"
  show ?case
  proof (cases "left < right")
    case False
    then show ?thesis by (simp add: first_search_stop)
  next
    case True
    then have mid: "left \<le> mid" "mid < right" "mid \<le> head" using Suc.prems(1) by (auto simp: mid_def)
    from net mid(3) obtain h where blk: "rpc_block net url mid n = (Inr (h, block_time ch mid), n + 1)"
      unfolding answers_def by blast
    note step = first_search_step [OF True, folded mid_def, OF blk, of timestamp]
    have half: "mid - left < 2 ^ k" "right - (mid + 1) < 2 ^ k" using Suc.prems(2) True by (auto simp: mid_def)
    from Suc.IH [OF Suc.prems(1) half(2), of "n + 1"] Suc.IH [of mid left "n + 1"] half(1) mid(3) step
    show ?thesis by (cases "block_time ch mid < timestamp") (fastforce, fastforce)
  qed
qed

lemma first_block_at_ok:
  assumes "first_block_at net (url # rest) timestamp n = (Inr b, n')"
  obtains head n1 h t n2 where "rpc_head net url n = (Inr head, n1)" "finality < head" "rpc_block net url (head - finality) n1 = (Inr (h, t), n2)"
    "\<not> t < timestamp" "first_search net url timestamp 1 (head - finality) n2 = (Inr b, n')"
proof -
  from assms obtain head n1 right h t n2 where "rpc_head net url n = (Inr head, n1)"
    and right: "(if finality \<le> head \<and> 1 \<le> head - finality then Some (head - finality) else None) = Some right"
    and "rpc_block net url right n1 = (Inr (h, t), n2)"
    and s: "(if t < timestamp then raise final_block_too_early else first_search net url timestamp 1 right) n2 = (Inr b, n')"
    unfolding first_block_at_def and_then_ok or_raise_ok by fastforce
  moreover from right have "right = head - finality" "finality < head" by (auto split: if_splits)
  moreover from s have "\<not> t < timestamp" "first_search net url timestamp 1 right n2 = (Inr b, n')"
    by (auto simp: raise_ok split: if_splits)
  ultimately show thesis by (intro that) auto
qed

lemma first_block_at_least:
  assumes "honest_times net ch url" "chain_ok_times ch" "first_block_at net (url # rest) timestamp n = (Inr b, n')"
  shows "least_block ch timestamp b"
proof (rule first_block_at_ok [OF assms(3)])
  fix head n1 h t n2
  assume a: "rpc_head net url n = (Inr head, n1)" "finality < head" "rpc_block net url (head - finality) n1 = (Inr (h, t), n2)"
    "\<not> t < timestamp" "first_search net url timestamp 1 (head - finality) n2 = (Inr b, n')"
  have "t = block_time ch (head - finality)" using assms(1) a(3) unfolding honest_times_def by blast
  then show ?thesis using first_search_least [OF assms(1,2) a(5)] a(2,4) by simp
qed

lemma first_block_at_eq:
  assumes "answers net ch url head"
  shows "first_block_at net (url # rest) timestamp n =
    (if head \<le> finality then (Inl chain_too_short, n + 1)
     else if block_time ch (head - finality) < timestamp then (Inl final_block_too_early, n + 2)
     else first_search net url timestamp 1 (head - finality) (n + 2))"
proof -
  from assms obtain h where hd: "rpc_head net url n = (Inr head, n + 1)"
    and blk: "rpc_block net url (head - finality) (n + 1) = (Inr (h, block_time ch (head - finality)), n + 2)"
    unfolding answers_def by (metis add.assoc diff_le_self one_add_one)
  show ?thesis
  proof (cases "head \<le> finality")
    case True
    then show ?thesis by (simp add: first_block_at_def and_then_def or_raise_def raise_def ret_def hd)
  next
    case False
    then have pos: "finality \<le> head" "Suc 0 \<le> head - finality" by simp_all
    then show ?thesis using False blk by (simp add: first_block_at_def and_then_def or_raise_def raise_def ret_def hd)
  qed
qed

lemma first_search_ends:
  assumes "answers net ch url head" "head < 2 ^ 64"
  shows "\<exists>b n'. first_search net url timestamp 1 (head - finality) n = (Inr b, n') \<and> n' \<le> n + 64"
proof -
  have "head - finality - 1 < 2 ^ 64" using assms(2) by linarith
  from first_search_answers [OF assms(1) diff_le_self this] show ?thesis .
qed

text \<open>
  C38. Finding the first block at a time.  On a chain whose block times do not decrease, with a node that answers, the
  search returns within 66 calls the first block from 1 on whose time reaches the target, unless the newest final block
  (128 below the head) is still too early or the chain is too short, and then it says which; a node that fails in
  between makes it fail, and every block it does return is that first block.
\<close>

theorem first_block_at_correct:
  assumes "chain_ok_times ch" "honest_times net ch url" "answers net ch url head" "head < 2 ^ 64"
  shows "if head \<le> finality then first_block_at net (url # rest) timestamp n = (Inl chain_too_short, n + 1)
    else if block_time ch (head - finality) < timestamp
      then first_block_at net (url # rest) timestamp n = (Inl final_block_too_early, n + 2)
    else \<exists>b n'. first_block_at net (url # rest) timestamp n = (Inr b, n') \<and> n' \<le> n + 66 \<and> least_block ch timestamp b"
proof -
  obtain b n' where "first_search net url timestamp 1 (head - finality) (n + 2) = (Inr b, n')" "n' \<le> n + 2 + 64"
    using first_search_ends [OF assms(3,4)] by blast
  with first_block_at_eq [OF assms(3), of rest timestamp n] first_block_at_least [OF assms(2,1), of rest timestamp n b n']
  show ?thesis by auto
qed

lemma no_fill_evidence_ok:
  assumes "no_fill_evidence X S w token funder env order_id submitted_raw = Inr (ev, expires_raw, signed_exchange)"
  obtains submitted expires neg raw endpoints n' trades where
    "parse_time X submitted_raw = Some submitted" "en_expires_at env = Some expires_raw" "parse_time X expires_raw = Some expires"
    "submitted \<le> expires" "verify_v2_identity X S env funder neg = Inr signed_exchange" "nw_rpcs w = Some raw"
    "rpc_new (nw_client_ok w) (rpc_endpoints raw) = Inr endpoints"
    "chain_scan X w endpoints order_id funder token submitted (expires + settlement_margin) 0 = (Inr ev, n')"
    "trades_between_unfiltered (nw_reader w) token (submitted - 1000) (expires + settlement_margin + 1000) = Inr trades"
    "\<not> exact_hash_traded order_id trades"
proof -
  from assms obtain submitted expires_raw' expires token_id neg exch raw endpoints ev' window trades where
    a: "parse_time X submitted_raw = Some submitted" "en_expires_at env = Some expires_raw'" "parse_time X expires_raw' = Some expires"
    and le: "\<not> (expires < submitted \<or> nw_clock w 0 < expires + settlement_margin)"
    and neg: "parse_u256 S token = Inr token_id" "nw_neg_risk w token_id = Inr neg"
    and r: "verify_v2_identity X S env funder neg = Inr exch" "nw_rpcs w = Some raw" "rpc_new (nw_client_ok w) (rpc_endpoints raw) = Inr endpoints"
    and c: "fst (chain_scan X w endpoints order_id funder token submitted (expires + settlement_margin) 0) = Inr ev'"
    and w: "trade_history_window_new (submitted - 1000) (expires + settlement_margin + 1000) = Inr window"
    "trades_between_unfiltered (nw_reader w) token (tw_after window) (tw_before window) = Inr trades" "\<not> exact_hash_traded order_id trades"
    and e: "Inr (ev', expires_raw', exch) = (Inr (ev, expires_raw, signed_exchange) :: string + _)"
    unfolding no_fill_evidence_def Let_def try_then_ok ok_or_ok map_err_ok sum_if_ok by (elim exE conjE) (rule that; assumption)
  from c obtain n' where "chain_scan X w endpoints order_id funder token submitted (expires + settlement_margin) 0 = (Inr ev', n')"
    by (cases "chain_scan X w endpoints order_id funder token submitted (expires + settlement_margin) 0") simp
  moreover have "tw_after window = submitted - 1000" "tw_before window = expires + settlement_margin + 1000"
    using w(1) by (auto simp: trade_history_window_new_def split: if_splits)
  ultimately show thesis
    using a r w(2,3) e le by (intro that [of submitted expires neg raw endpoints n' trades]) simp_all
qed

lemma gtd_chain_no_fill_ok:
  assumes "gtd_chain_no_fill X S w acc a d = (Inr (c, signed_exchange), d')"
  obtains oa ci account funder order_id submitted_raw env ev expires_raw where
    "attempt_with_intent acc a d = Some (oa, ci)" "account_by_id acc d = Some account" "acc_funder_address account = Some funder"
    "oa_venue_order_id oa = Some order_id" "oa_submission_started_at oa = Some submitted_raw"
    "envelope_of_json X (oa_envelope_json oa) = Some env" "attempt_identity_ok X oa ci env order_id"
    "no_fill_evidence X S w (ci_token_id ci) funder env order_id submitted_raw = Inr (ev, expires_raw, signed_exchange)"
    "resolve_chain_proven_gtd_no_fill X (nw_clock w 2) acc a submitted_raw expires_raw ev d = (Inr c, d')"
proof -
  from assms show thesis
    unfolding gtd_chain_no_fill_def
    by (auto simp: and_then_ok assert_that_ok reads_ok ret_ok or_raise_ok lift_result_ok map_err_ok intro: that)
qed

lemma chain_scan_ok:
  assumes "chain_scan X w endpoints order_id funder token submitted settled_at n = (Inr ev, n')"
  obtains r m where "prove_zero X (nw_net w) (nw_show_json w) (nw_clock w 1) endpoints r m = (Inr ev, n')"
    "sr_order_hash r = order_id" "sr_submitted r = submitted" "sr_settled r = settled_at"
proof -
  from assms obtain f e m where "prove_zero X (nw_net w) (nw_show_json w) (nw_clock w 1) endpoints
       \<lparr>sr_order_hash = order_id, sr_maker = funder, sr_token = token, sr_start = f, sr_end = e,
        sr_submitted = submitted, sr_settled = settled_at\<rparr> m = (Inr ev, n')"
    unfolding chain_scan_def and_then_ok by blast
  then show thesis by (rule that) simp_all
qed

text \<open>What an accepted identity check says of the persisted order.\<close>

lemma verify_v2_identity_ok:
  assumes "verify_v2_identity X S env funder neg = Inr contract"
  obtains v body order expiration config exchange hash where
    "read_json S (en_signed_order_json env) = Inr v" "json_get ''order'' v = Some body" "identity_order S body = Inr order"
    "show_nat (v2_token_id order) = en_token_id env" "parse_address S funder = Inr (v2_maker order)"
    "contract_config S neg = Some config" "ea_v2 config = Some exchange" "contract = lower_hex_address S exchange"
    "list_ex (\<lambda>value. eq_ignore_ascii_case value contract) exchanges"
    "expected_order_id S (PayloadV2 order expiration) config polygon = Inr hash"
    "eq_ignore_ascii_case (show_b256 S hash) (en_expected_taker_order_id env)"
proof -
  from assms obtain v body order funder_address config exchange expiration hash where
    v: "read_json S (en_signed_order_json env) = Inr v" "json_get ''order'' v = Some body" "identity_order S body = Inr order"
    and token: "\<not> (2 < v2_signature_type order \<or> show_nat (v2_token_id order) \<noteq> en_token_id env)"
    and funder: "parse_address S funder = Inr funder_address"
    "\<not> (v2_maker order \<noteq> funder_address \<or> as_str (json_field body ''expiration'') \<noteq> signed_expiry X env)"
    and config: "contract_config S neg = Some config" "ea_v2 config = Some exchange"
    "\<not> \<not> list_ex (\<lambda>value. eq_ignore_ascii_case value (lower_hex_address S exchange)) exchanges"
    and hash: "identity_uint S body ''expiration'' = Inr expiration"
    "expected_order_id S (PayloadV2 order expiration) config polygon = Inr hash"
    "\<not> \<not> eq_ignore_ascii_case (show_b256 S hash) (en_expected_taker_order_id env)"
    and contract: "Inr (lower_hex_address S exchange) = (Inr contract :: string + string)"
    unfolding verify_v2_identity_def Let_def try_then_ok ok_or_ok map_err_ok sum_if_ok by (elim exE conjE) (rule that; assumption)
  then show thesis by (intro that [of v body order config exchange expiration hash]) auto
qed

lemma no_fill_evidence_sound:
  assumes "no_fill_evidence X S w token funder env order_id submitted_raw = Inr (ev, expires_raw, signed_exchange)"
    and "nw_rpcs w = Some raw" "url \<in> set (rpc_endpoints raw)" "honest_times (nw_net w) ch url" "honest_logs (nw_net w) ch url"
    "chain_ok_times ch" "ex \<in> set exchanges"
    and "parse_time X submitted_raw = Some submitted" "parse_time X expires_raw = Some expires"
    and "unix_seconds submitted \<le> int (block_time ch b)" "int (block_time ch b) < unix_seconds (expires + settlement_margin)"
  shows "\<not> filled_in ch ex order_id b"
proof (rule no_fill_evidence_ok [OF assms(1)])
  fix submitted' expires' raw' endpoints n'
  assume e: "parse_time X submitted_raw = Some submitted'" "parse_time X expires_raw = Some expires'" "nw_rpcs w = Some raw'"
    "rpc_new (nw_client_ok w) (rpc_endpoints raw') = Inr endpoints"
    "chain_scan X w endpoints order_id funder token submitted' (expires' + settlement_margin) 0 = (Inr ev, n')"
  have endpoints: "endpoints = rpc_endpoints raw" using e(3,4) assms(2) by (simp add: rpc_new_def split: if_splits)
  from e(5) obtain r m where r: "prove_zero X (nw_net w) (nw_show_json w) (nw_clock w 1) endpoints r m = (Inr ev, n')"
    "sr_order_hash r = order_id" "sr_submitted r = submitted'" "sr_settled r = expires' + settlement_margin"
    by (rule chain_scan_ok)
  show ?thesis
    using r(2-4) e(1,2) assms(8-11) endpoints
    by (intro scanned_unfilled [OF r(1) _ assms(4-7), simplified r(2)]) (simp_all add: assms(3))
qed

lemma chain_proven_error:
  "resolve_chain_proven_gtd_no_fill X clock acc a sub ex ev d = (Inl e, d') \<Longrightarrow> d' = d"
  unfolding resolve_chain_proven_gtd_no_fill_def by (rule guarded_transaction_error)

lemma gtd_chain_no_fill_error:
  assumes "gtd_chain_no_fill X S w acc a d = (Inl e, d')" shows "d' = d"
  using assms unfolding gtd_chain_no_fill_def
  by (auto simp: and_then_error reads_ok or_raise_ok assert_that_ok lift_result_ok ret_def reads_def or_raise_def raise_def assert_that_def
      lift_result_def dest: chain_proven_error split: option.splits if_splits)

text \<open>No event of an order on a scanned exchange in a block of the time range.\<close>

definition unfilled_between :: "chain \<Rightarrow> string \<Rightarrow> int \<Rightarrow> int \<Rightarrow> bool" where
  "unfilled_between ch order_id from_second to_second \<longleftrightarrow>
     (\<forall>ex b. ex \<in> set exchanges \<longrightarrow> from_second \<le> int (block_time ch b) \<longrightarrow> int (block_time ch b) < to_second \<longrightarrow> \<not> filled_in ch ex order_id b)"

text \<open>
  C20. The operator command that writes off a resting order refunds nothing that was filled.  Either it fails and leaves the
  database as it was, or, when one of the configured endpoints is honest: the attempt is an uncertain GTD attempt of
  the account with nothing booked on it; its persisted signed order was made by the account's funder for an exchange that was scanned;
  the chain has no \<open>OrderFilled\<close> event of its order id on either exchange from the second of its submission to
  half an hour after its expiry; and what is written is the refund of that one attempt.
\<close>

theorem gtd_refund_only_without_fill:
  assumes "intents.keyed d" "attempts.keyed d"
    and "gtd_chain_no_fill X S w acc a d = (r, d')"
    and "nw_rpcs w = Some raw" "url \<in> set (rpc_endpoints raw)" "honest_times (nw_net w) ch url" "honest_logs (nw_net w) ch url"
    "chain_ok_times ch"
  shows "case r of Inl e \<Rightarrow> d' = d
    | Inr (c, signed_exchange) \<Rightarrow> \<exists>oa ci env order_id submitted_raw expires_raw submitted expires detail account funder.
        attempt_with_intent acc a d = Some (oa, ci) \<and> oa_status oa = Uncertain \<and> parse_dec X (oa_accounted_filled_qty oa) = Some 0 \<and>
        envelope_of_json X (oa_envelope_json oa) = Some env \<and> en_order_type env = ''GTD'' \<and>
        oa_venue_order_id oa = Some order_id \<and> en_expected_taker_order_id env = order_id \<and>
        account_by_id acc d = Some account \<and> acc_funder_address account = Some funder \<and>
        (\<exists>neg. verify_v2_identity X S env funder neg = Inr signed_exchange) \<and>
        list_ex (\<lambda>value. eq_ignore_ascii_case value signed_exchange) exchanges \<and>
        oa_submission_started_at oa = Some submitted_raw \<and> parse_time X submitted_raw = Some submitted \<and>
        en_expires_at env = Some expires_raw \<and> parse_time X expires_raw = Some expires \<and>
        unfilled_between ch order_id (unix_seconds submitted) (unix_seconds (expires + settlement_margin)) \<and>
        refunded (nw_clock w 2) (''chain-proven GTD no fill; authenticated CLOB exact hash absent; '' @ detail) acc (ci_id ci) a d d'"
proof (cases r)
  case (Inl e)
  with assms(3) gtd_chain_no_fill_error show ?thesis by simp
next
  case (Inr p)
  obtain c signed_exchange where p: "p = (c, signed_exchange)" by (cases p)
  from assms(3) [unfolded Inr p] show ?thesis
  proof (rule gtd_chain_no_fill_ok)
    fix oa ci account funder order_id submitted_raw env ev expires_raw
    assume h: "attempt_with_intent acc a d = Some (oa, ci)" "account_by_id acc d = Some account" "acc_funder_address account = Some funder"
      "oa_venue_order_id oa = Some order_id" "oa_submission_started_at oa = Some submitted_raw"
      "envelope_of_json X (oa_envelope_json oa) = Some env"
      and id: "attempt_identity_ok X oa ci env order_id"
      and ev: "no_fill_evidence X S w (ci_token_id ci) funder env order_id submitted_raw = Inr (ev, expires_raw, signed_exchange)"
      and res: "resolve_chain_proven_gtd_no_fill X (nw_clock w 2) acc a submitted_raw expires_raw ev d = (Inr c, d')"
    obtain submitted expires neg where t: "parse_time X submitted_raw = Some submitted" "en_expires_at env = Some expires_raw"
      "parse_time X expires_raw = Some expires" and v: "verify_v2_identity X S env funder neg = Inr signed_exchange"
      by (rule no_fill_evidence_ok [OF ev])
    have ex: "list_ex (\<lambda>value. eq_ignore_ascii_case value signed_exchange) exchanges"
      by (rule verify_v2_identity_ok [OF v])
    have un: "unfilled_between ch order_id (unix_seconds submitted) (unix_seconds (expires + settlement_margin))"
      unfolding unfilled_between_def using no_fill_evidence_sound [OF ev assms(4-8) _ t(1,3)] by blast
    obtain detail where "refunded (nw_clock w 2) (''chain-proven GTD no fill; authenticated CLOB exact hash absent; '' @ detail) acc (ci_id ci) a d d'"
      using chain_no_fill(2) [OF assms(1,2) res] h(1) by auto
    with h id t v ex un show ?thesis
      unfolding Inr p attempt_identity_ok_def sum.case prod.case by blast
  qed
qed

section \<open>A sample network\<close>

text \<open>Block \<open>b\<close> has time \<open>b\<close>, the head is block 4096, and every window has one fill of another order on each exchange.\<close>

definition hash_a :: string where "hash_a = ''0x'' @ replicate 64 CHR ''a''"
definition hash_b :: string where "hash_b = ''0x'' @ replicate 64 CHR ''b''"
definition funder0 :: string where "funder0 = ''0x'' @ replicate 40 CHR ''c''"

definition log0 :: "json \<Rightarrow> json" where
  "log0 q = JObject [(''address'', json_field q ''address''), (''blockNumber'', json_field q ''fromBlock''),
     (''topics'', JArray [JString order_filled_topic, JString hash_b]), (''transactionHash'', JString hash_b),
     (''blockHash'', JString hash_b), (''logIndex'', JString (''0x'' @ show_hex 0))]"

definition answer0 :: "string \<Rightarrow> json \<Rightarrow> json" where
  "answer0 method params =
     (if method = ''eth_blockNumber'' then JString (''0x'' @ show_hex 4096)
      else if method = ''eth_getBlockByNumber''
      then JObject [(''number'', json_nth params 0), (''hash'', JString hash_b), (''timestamp'', json_nth params 0)]
      else let q = json_nth params 0 in
        if json_field q ''topics'' = JArray [JString order_filled_topic, JString hash_a] then JArray [] else JArray [log0 q])"

definition network0 :: network where
  "network0 = (\<lambda>n url method params. Inr (JObject [(''jsonrpc'', JString ''2.0''), (''id'', JNumber 1), (''result'', answer0 method params)]))"

definition chain0 :: chain where
  "chain0 = \<lparr>block_time = id, filled_in = (\<lambda>ex hash b. hash = hash_b)\<rparr>"

lemma call0: "rpc_call network0 url method params n = (Inr (answer0 method params), n + 1)"
  by (auto simp: rpc_call_def network0_def json_get_def json_field_def as_str_def answer0_def Let_def)

lemma hash_b_ok: "block_hash (JString hash_b) = Inr hash_b"
  by (simp add: block_hash_def as_str_def is_hex_text_def hash_b_def utf8_len_def is_ascii_hexdigit_def less_eq_char_def
      to_ascii_lowercase_def ascii_lower_def list_all_iff sum_list_replicate)

lemma block0: "b < 2 ^ 64 \<Longrightarrow> rpc_block network0 url b n = (Inr (hash_b, b), n + 1)"
  using hex_number_show [of b] hash_b_ok
  by (simp add: rpc_block_def and_then_def call0 answer0_def json_nth_def json_field_def json_get_def lift_result_def assert_that_def ret_def raise_def)

lemma head0: "rpc_head network0 url n = (Inr 4096, n + 1)"
  using hex_number_show [of 4096] by (simp add: rpc_head_def and_then_def call0 answer0_def lift_result_def ret_def raise_def)

lemma honest0: "honest_times network0 chain0 url" "honest_logs network0 chain0 url" "chain_ok_times chain0"
proof -
  show "honest_times network0 chain0 url"
    unfolding honest_times_def
  proof (intro allI impI)
    fix b n h t n' assume "rpc_block network0 url b n = (Inr (h, t), n')"
    then show "t = block_time chain0 b"
      by (rule rpc_block_ok) (simp add: call0 answer0_def json_field_def json_get_def chain0_def)
  qed
  show "honest_logs network0 chain0 url"
    by (auto simp: honest_logs_def chain0_def call0 answer0_def exact_query_def logs_params_def json_nth_def json_field_def json_get_def
        hash_a_def hash_b_def)
  show "chain_ok_times chain0" by (simp add: chain_ok_times_def chain0_def)
qed

lemma answers0: "answers network0 chain0 url 4096"
  by (simp add: answers_def head0 block0 chain0_def)

theorem first_block_at_correct_witness:
  "\<exists>b n'. first_block_at network0 [''https://a''] 7 0 = (Inr b, n') \<and> n' \<le> 66 \<and> least_block chain0 7 b"
  using first_block_at_correct [OF honest0(3,1) answers0, of "''https://a''" "[]" 7 0] by (simp add: finality_def chain0_def)

definition request0 :: "nat \<Rightarrow> nat \<Rightarrow> timestamp \<Rightarrow> timestamp \<Rightarrow> scan_request" where
  "request0 first end_block submitted settled_at = \<lparr>sr_order_hash = hash_a, sr_maker = funder0, sr_token = ''7'', sr_start = first, sr_end = end_block,
     sr_submitted = submitted, sr_settled = settled_at\<rparr>"

lemma exact0: "scan_query network0 sj url (request0 s e sub se) ex False f t n = (Inr [], n + 1)"
  by (simp add: scan_query_def and_then_def call0 answer0_def Let_def logs_params_def query_topics_def json_nth_def json_field_def json_get_def
      request0_def as_array_def or_raise_def ret_def lift_result_def)

lemma control0:
  assumes "f < 2 ^ 64" "f \<le> t"
  shows "\<exists>entry. \<forall>url n. scan_query network0 sj url (request0 s e sub se) ex True f t n = (Inr [entry], n + 1)"
proof -
  define q where "q = JObject [(''address'', JString ex), (''fromBlock'', JString (''0x'' @ show_hex f)),
       (''toBlock'', JString (''0x'' @ show_hex t)), (''topics'', JArray [JString order_filled_topic])]"
  have log: "answer0 ''eth_getLogs'' (logs_params ex f t [JString order_filled_topic]) = JArray [log0 q]"
    by (simp add: answer0_def logs_params_def json_nth_def json_field_def json_get_def q_def Let_def)
  have l: "json_field (log0 q) ''removed'' = JNull" "json_field (log0 q) ''address'' = JString ex"
    "json_field (log0 q) ''blockNumber'' = JString (''0x'' @ show_hex f)"
    "json_nth (json_field (log0 q) ''topics'') 0 = JString order_filled_topic"
    "json_nth (json_field (log0 q) ''topics'') (Suc 0) = JString hash_b"
    "json_field (log0 q) ''transactionHash'' = JString hash_b" "json_field (log0 q) ''blockHash'' = JString hash_b"
    "json_field (log0 q) ''logIndex'' = JString (''0x'' @ show_hex 0)"
    by (simp_all add: log0_def json_field_def json_get_def q_def json_nth_def)
  have "log_malformed ex f t (log0 q) = Inr False"
    using hex_number_show [OF assms(1)] assms(2) by (simp add: log_malformed_def l is_text_def as_str_def eq_ignore_ascii_case_def)
  moreover have "\<not> is_text hash_a (JString hash_b)"
    by (simp add: is_text_def as_str_def eq_ignore_ascii_case_def to_ascii_lowercase_def ascii_lower_def hash_a_def hash_b_def less_eq_char_def)
  then obtain entry where "control_log sj (request0 s e sub se) (log0 q) = Inr entry"
    using hash_b_ok hex_number_show [of 0] by (auto simp: control_log_def l request0_def)
  ultimately have "scan_logs sj (request0 s e sub se) ex True f t [log0 q] = Inr [entry]" by simp
  then show ?thesis
    by (intro exI [of _ entry]) (simp add: scan_query_def and_then_def call0 query_topics_def log as_array_def or_raise_def ret_def lift_result_def)
qed

lemma exchanges0:
  assumes "f < 2 ^ 64" "f \<le> t"
  shows "\<exists>x y. \<forall>url n. scan_exchanges network0 sj url (request0 s e sub se) f t exchanges n = (Inr [[x], [y]], n + 4)"
proof -
  obtain e0 e1 where es: "exchanges = [e0, e1]" by (simp add: exchanges_def)
  from control0 [OF assms, of sj s e sub se e0] control0 [OF assms, of sj s e sub se e1]
  obtain x y where c: "\<And>url n. scan_query network0 sj url (request0 s e sub se) e0 True f t n = (Inr [x], n + 1)"
    "\<And>url n. scan_query network0 sj url (request0 s e sub se) e1 True f t n = (Inr [y], n + 1)" by blast
  show ?thesis unfolding es by (rule exI [of _ x], rule exI [of _ y]) (simp add: and_then_def exact0 ret_def c [simplified])
qed

lemma windows0:
  assumes "\<forall>f \<in> set fs. f < 2 ^ 64 \<and> f \<le> e"
  shows "\<exists>xs ys. \<forall>url n. \<exists>n'. scan_windows network0 sj url (request0 s e sub se) fs n = (Inr [xs, ys], n') \<and> (fs \<noteq> [] \<longrightarrow> xs \<noteq> [] \<and> ys \<noteq> [])"
  using assms
proof (induction fs)
  case Nil
  then show ?case by (simp add: ret_def)
next
  case (Cons f fs)
  then obtain xs ys where r: "\<And>url n. \<exists>n'. scan_windows network0 sj url (request0 s e sub se) fs n = (Inr [xs, ys], n')" by fastforce
  from Cons.prems exchanges0 [of f "min (f + 99) e" sj s e sub se] obtain x y where
    x: "\<And>url n. scan_exchanges network0 sj url (request0 s e sub se) f (min (f + 99) e) exchanges n = (Inr [[x], [y]], n + 4)" by auto
  have e: "sr_end (request0 s e sub se) = e" by (simp add: request0_def)
  show ?case
  proof (rule exI [of _ "x # xs"], rule exI [of _ "y # ys"], intro allI)
    fix url n
    from r [of url "n + 4"] obtain n' where "scan_windows network0 sj url (request0 s e sub se) fs (n + 4) = (Inr [xs, ys], n')" by blast
    then have "scan_windows network0 sj url (request0 s e sub se) (f # fs) n = (Inr [x # xs, y # ys], n')"
      by (simp add: and_then_def x e ret_def)
    then show "\<exists>n'. scan_windows network0 sj url (request0 s e sub se) (f # fs) n = (Inr [x # xs, y # ys], n') \<and>
        (f # fs \<noteq> [] \<longrightarrow> x # xs \<noteq> [] \<and> y # ys \<noteq> [])" by blast
  qed
qed

lemma endpoint0:
  assumes "1 \<le> s" "s \<le> e" "e < 2000" "int s - 1 < unix_seconds sub" "unix_seconds se \<le> int e"
  shows "\<exists>snap. \<forall>url n. \<exists>n'. scan_endpoint network0 sj (request0 s e sub se) url n = (Inr snap, n')"
proof -
  have f: "\<forall>f \<in> set (window_starts (request0 s e sub se)). f < 2 ^ 64 \<and> f \<le> e"
  proof
    fix f assume "f \<in> set (window_starts (request0 s e sub se))"
    then obtain k where k: "f = s + 100 * k" "k \<le> (e - s) div 100" by (auto simp: window_starts_def request0_def)
    then have "100 * k \<le> e - s" by (simp add: div_le_mono less_eq_div_iff_mult_less_eq mult.commute)
    with k(1) assms(2,3) have "f \<le> e" "f < 2000" by linarith+
    then show "f < 2 ^ 64 \<and> f \<le> e" by simp
  qed
  have ne: "window_starts (request0 s e sub se) \<noteq> []" by (simp add: window_starts_def)
  from windows0 [OF f, of sj s sub se] ne obtain xs ys where
    w: "\<And>url n. \<exists>n'. scan_windows network0 sj url (request0 s e sub se) (window_starts (request0 s e sub se)) n = (Inr [xs, ys], n')"
    and xy: "xs \<noteq> []" "ys \<noteq> []" by fastforce
  have r: "sr_start (request0 s e sub se) = s" "sr_end (request0 s e sub se) = e" "sr_submitted (request0 s e sub se) = sub"
    "sr_settled (request0 s e sub se) = se" by (simp_all add: request0_def)
  have small: "s - Suc 0 < 2 ^ 64" "s < 2 ^ 64" "e < 2 ^ 64" "Suc e < 2 ^ 64" "min (e + finality) 18446744073709551615 \<le> 4096"
    using assms(2,3) by (simp_all add: finality_def)
  show ?thesis
  proof (intro exI [of _ "([(hash_b, s - Suc 0), (hash_b, s), (hash_b, e), (hash_b, Suc e)], map sort [xs, ys])"] allI)
    fix url n
    from w [of url "Suc (Suc (Suc (Suc (Suc n))))"] obtain n' where n': "scan_windows network0 sj url (request0 s e sub se) (window_starts (request0 s e sub se)) (Suc (Suc (Suc (Suc (Suc n))))) = (Inr [xs, ys], n')"
      by blast
    have "scan_endpoint network0 sj (request0 s e sub se) url n =
      (Inr ([(hash_b, s - Suc 0), (hash_b, s), (hash_b, e), (hash_b, Suc e)], map sort [xs, ys]), n')"
      using assms n' xy small
      by (simp add: scan_endpoint_def and_then_def head0 block0 r assert_that_def ret_def raise_def)
    then show "\<exists>n'. scan_endpoint network0 sj (request0 s e sub se) url n =
      (Inr ([(hash_b, s - Suc 0), (hash_b, s), (hash_b, e), (hash_b, Suc e)], map sort [xs, ys]), n')" by blast
  qed
qed

lemma hash_a_ok: "is_hex_text 66 hash_a" "is_hex_text 42 funder0"
  by (simp_all add: is_hex_text_def hash_a_def funder0_def utf8_len_def is_ascii_hexdigit_def less_eq_char_def list_all_iff sum_list_replicate)

lemma prove_zero0:
  assumes "1 \<le> s" "s \<le> e" "e < 2000" "int s - 1 < unix_seconds sub" "unix_seconds se \<le> int e" "0 \<le> unix_seconds sub"
    "unix_seconds sub \<le> unix_seconds se" "se \<le> now" "u256_ok X ''7''"
  shows "\<exists>ev n'. prove_zero X network0 sj now [u1, u2] (request0 s e sub se) n = (Inr ev, n') \<and> zp_order_hash ev = hash_a \<and>
    zp_maker ev = funder0 \<and> zp_token ev = ''7'' \<and> trim (zp_detail ev) \<noteq> []"
proof -
  from endpoint0 [OF assms(1-5), of sj] obtain snap where
    sn: "\<And>url n. \<exists>n'. scan_endpoint network0 sj (request0 s e sub se) url n = (Inr snap, n')" by blast
  from sn obtain n1 where 1: "scan_endpoint network0 sj (request0 s e sub se) u1 n = (Inr snap, n1)" by blast
  from sn obtain n2 where 2: "scan_endpoint network0 sj (request0 s e sub se) u2 n1 = (Inr snap, n2)" by blast
  have eps: "scan_endpoints network0 sj (request0 s e sub se) [u1, u2] None n = (Inr (Some snap), n2)"
    by (simp add: and_then_def 1 2 ret_def)
  have ok: "request_ok X now (request0 s e sub se)"
    using assms hash_a_ok by (simp add: request_ok_def request0_def max_blocks_def)
  obtain blocks cs where snap: "snap = (blocks, cs)" by (cases snap)
  have detail: "trim (CHR ''t'' # xs) \<noteq> []" for xs
    by (simp add: trim_def is_space_def dropWhile_eq_Nil_conv)
  have r: "sr_order_hash (request0 s e sub se) = hash_a" "sr_maker (request0 s e sub se) = funder0" "sr_token (request0 s e sub se) = ''7''"
    by (simp_all add: request0_def)
  show ?thesis
    by (simp add: prove_zero_def and_then_def eps ok snap assert_that_def or_raise_def ret_def r detail del: scan_endpoints.simps)
qed

theorem zero_proof_sound_witness:
  "\<exists>ev n'. prove_zero ext0 network0 (\<lambda>_. ''{}'') 9000 [''https://a'', ''https://b''] (request0 2 3 2000 3000) 0 = (Inr ev, n') \<and>
     \<not> filled_in chain0 (exchanges ! 0) (zp_order_hash ev) 2"
proof -
  obtain ev n' where p: "prove_zero ext0 network0 (\<lambda>_. ''{}'') 9000 [''https://a'', ''https://b''] (request0 2 3 2000 3000) 0 = (Inr ev, n')"
    using prove_zero0 [of 2 3 2000 3000 9000 ext0 "\<lambda>_. ''{}''" "''https://a''" "''https://b''" 0] by (auto simp: unix_seconds_def)
  have "exchanges ! 0 \<in> set exchanges" "unix_seconds (sr_submitted (request0 2 3 2000 3000)) \<le> int (block_time chain0 2)"
    "int (block_time chain0 2) < unix_seconds (sr_settled (request0 2 3 2000 3000))"
    by (simp_all add: exchanges_def unix_seconds_def request0_def chain0_def)
  from zero_proof_sound [OF p list.set_intros(1) honest0 this] p show ?thesis by blast
qed

lemma first0:
  assumes "T \<le> 3968"
  shows "\<exists>n'. first_block_at network0 (url # rest) T n = (Inr (max 1 T), n')"
proof -
  have head: "\<not> (4096 \<le> finality)" "\<not> block_time chain0 (4096 - finality) < T" using assms by (simp_all add: finality_def chain0_def)
  obtain b n' where "first_search network0 url T 1 (4096 - finality) (n + 2) = (Inr b, n')"
    using first_search_ends [OF answers0] by force
  then have b: "first_block_at network0 (url # rest) T n = (Inr b, n')" using head by (simp add: first_block_at_eq [OF answers0])
  note b = b first_block_at_least [OF honest0(1,3) b]
  have "b = max 1 T"
  proof (rule ccontr)
    assume "b \<noteq> max 1 T"
    then have "max 1 T < b" using b(2) by (auto simp: least_block_def chain0_def)
    moreover have "\<forall>b'. 1 \<le> b' \<and> b' < b \<longrightarrow> b' < T" using b(2) by (simp add: least_block_def chain0_def)
    ultimately have "max 1 T < T" by (metis max.cobounded1)
    then show False by simp
  qed
  with b(1) show ?thesis by blast
qed

definition order1 :: order_v2 where
  "order1 = order0\<lparr>v2_maker := funder0, v2_token_id := 7\<rparr>"

definition signed1 :: signed_order where
  "signed1 = signed0\<lparr>so_payload := PayloadV2 order1 3\<rparr>"

definition sdk2 :: sdk where
  "sdk2 = sdk1\<lparr>signing_hash_v2 := (\<lambda>_ _. hash_a), read_json := (\<lambda>_. Inr (the (signed_order_json sdk1 signed1)))\<rparr>"

definition gtd_envelope0 :: prepared_order_envelope where
  "gtd_envelope0 = envelope0\<lparr>en_order_type := ''GTD'', en_expires_at := Some (show_dec0 3000), en_post_only := True, en_expected_taker_order_id := hash_a\<rparr>"

definition gtd_ext1 :: ext where
  "gtd_ext1 = ext0\<lparr>envelope_of_json := \<lambda>_. Some gtd_envelope0\<rparr>"

definition gtd_db0 :: db where
  "gtd_db0 = blocked_db0\<lparr>order_attempts := [attempt0\<lparr>oa_status := Uncertain, oa_venue_order_id := Some hash_a,
       oa_submission_started_at := Some (show_dec0 1000)\<rparr>],
     accounts := [\<lparr>acc_id = 1, acc_label = ''main'', acc_signing_address = ''0x5'', acc_funder_address = Some funder0, acc_signature_type = ''proxy''\<rparr>]\<rparr>"

definition world0 :: no_fill_world where
  "world0 = \<lparr>nw_clock = (\<lambda>_. 9000000), nw_adapter_ok = True, nw_neg_risk = (\<lambda>_. Inr False), nw_rpcs = Some ''https://a,https://b'',
     nw_client_ok = True, nw_net = network0, nw_show_json = (\<lambda>_. ''{}''), nw_reader = no_trades\<rparr>"

lemma gtd_db0_tables:
  "copy_intents gtd_db0 = [intent0\<lparr>ci_status := NeedsReconcile\<rparr>]"
  "order_attempts gtd_db0 = [attempt0\<lparr>oa_status := Uncertain, oa_venue_order_id := Some hash_a,
       oa_submission_started_at := Some (show_dec0 1000)\<rparr>]"
  "reconciliation_cases gtd_db0 = [new_case 1 ''7'' 1 (Some 1) ''unknown_submission'' ''lost'' 1]"
  "budget_reservations gtd_db0 = [new_reservation ext0 1 1 1 3 1000 1]"
  "accounts gtd_db0 = [\<lparr>acc_id = 1, acc_label = ''main'', acc_signing_address = ''0x5'', acc_funder_address = Some funder0, acc_signature_type = ''proxy''\<rparr>]"
  "intents.keyed gtd_db0" "attempts.keyed gtd_db0"
  by (simp_all add: gtd_db0_def blocked_db0_tables intents.keyed_def attempts.keyed_def)

lemma signed_identity0: "verify_v2_identity gtd_ext1 sdk2 gtd_envelope0 funder0 False = Inr (exchanges ! 0)"
proof -
  define body where "body = body_json_v2 sdk2 order1 3 (JString ''BUY'') ''sig''"
  have rd: "read_json sdk2 t = Inr (JObject [(''order'', body), (''orderType'', JString ''GTD''), (''owner'', JString ''key''), (''postOnly'', JBool True)])" for t
    by (simp add: sdk2_def sdk1_def signed1_def signed0_def order1_def order0_def signed_order_json_def side_json_def signature_text_def
        order_type_json_def body_def body_json_v2_def)
  note m = body_members [of sdk2 order1 3 "JString ''BUY''" "''sig''", folded body_def]
  have s: "parse_u256 sdk2 (show_nat n) = Inr n" "parse_address sdk2 a = Inr a" "parse_b256 sdk2 h = Inr h" "show_address sdk2 a = a"
    "show_b256 sdk2 h = h" "lower_hex_address sdk2 a = a" "contract_config sdk2 False = Some \<lparr>ea_v1 = ''e1'', ea_v2 = Some (exchanges ! 0)\<rparr>"
    "signing_hash_v2 sdk2 od dm = hash_a" for n a h od dm
    by (simp_all add: sdk2_def sdk1_def parse_digits_show)
  have o1: "v2_salt order1 = 7" "v2_maker order1 = funder0" "v2_token_id order1 = 7" "v2_signature_type order1 = 2" "v2_side order1 = 0"
    by (simp_all add: order1_def order0_def)
  have ord: "identity_order sdk2 body = Inr order1"
    by (simp add: identity_order_def identity_address_def identity_uint_def identity_b256_def identity_field_def str_member_def as_str_def
        json_field_def json_u64_def try_then_def ok_or_def map_err_def m s o1)
  have seven: "show_nat 7 = ''7''" by code_simp
  have env: "en_order_type gtd_envelope0 = ''GTD''" "en_side gtd_envelope0 = ''BUY''" "en_post_only gtd_envelope0"
    "en_token_id gtd_envelope0 = show_nat 7" "en_expected_taker_order_id gtd_envelope0 = hash_a"
    by (simp_all add: gtd_envelope0_def envelope0_def seven)
  have ex: "signed_expiry gtd_ext1 gtd_envelope0 = Some (show_nat 3)"
    by (simp add: signed_expiry_def gtd_envelope0_def gtd_ext1_def show_i64_def)
  show ?thesis
    by (simp add: verify_v2_identity_def env rd member_simps try_then_def map_err_def ok_or_def json_field_def m ord o1 s ex as_str_def
        exchanges_def eq_ignore_ascii_case_def identity_uint_def identity_field_def str_member_def expected_order_id_def poly1271_def)
qed

lemma endpoints0: "rpc_endpoints ''https://a,https://b'' = [''https://a'', ''https://b'']"
  by (simp add: rpc_endpoints_def trim_def is_space_def)

lemma scan0:
  "\<exists>ev n'. chain_scan gtd_ext1 world0 [''https://a'', ''https://b''] hash_a funder0 ''7'' 1000 1803000 0 = (Inr ev, n') \<and>
     zp_order_hash ev = hash_a \<and> zp_maker ev = funder0 \<and> zp_token ev = ''7'' \<and> trim (zp_detail ev) \<noteq> []"
proof -
  from first0 [of 0 "''https://a''" "[''https://b'']" 0] obtain n1 where
    1: "first_block_at network0 [''https://a'', ''https://b''] 0 0 = (Inr 1, n1)" by auto
  from first0 [of 1803 "''https://a''" "[''https://b'']" n1] obtain n2 where
    2: "first_block_at network0 [''https://a'', ''https://b''] 1803 n1 = (Inr 1803, n2)" by auto
  have "u256_ok gtd_ext1 ''7''" by (simp add: gtd_ext1_def)
  with prove_zero0 [of 1 1803 1000 1803000 9000000 gtd_ext1 "\<lambda>_. ''{}''" "''https://a''" "''https://b''" n2] obtain ev n' where
    3: "prove_zero gtd_ext1 network0 (\<lambda>_. ''{}'') 9000000 [''https://a'', ''https://b''] (request0 1 1803 1000 1803000) n2 = (Inr ev, n')"
    "zp_order_hash ev = hash_a" "zp_maker ev = funder0" "zp_token ev = ''7''" "trim (zp_detail ev) \<noteq> []"
    by (auto simp: unix_seconds_def)
  then show ?thesis
    by (simp add: chain_scan_def and_then_def world0_def unix_seconds_def 1 2 [simplified] request0_def)
qed

lemma evidence0:
  "\<exists>ev. no_fill_evidence gtd_ext1 sdk2 world0 ''7'' funder0 gtd_envelope0 hash_a (show_dec0 1000) = Inr (ev, show_dec0 3000, exchanges ! 0) \<and>
     zp_order_hash ev = hash_a \<and> zp_maker ev = funder0 \<and> zp_token ev = ''7'' \<and> trim (zp_detail ev) \<noteq> []"
proof -
  from scan0 obtain ev n' where ev: "chain_scan gtd_ext1 world0 [''https://a'', ''https://b''] hash_a funder0 ''7'' 1000 1803000 0 = (Inr ev, n')"
    "zp_order_hash ev = hash_a" "zp_maker ev = funder0" "zp_token ev = ''7''" "trim (zp_detail ev) \<noteq> []" by blast
  have t: "parse_time gtd_ext1 (show_dec0 1000) = Some 1000" "parse_time gtd_ext1 (show_dec0 3000) = Some 3000" "outcome_token_id_ok gtd_ext1 ''7''"
    by (simp_all add: gtd_ext1_def outcome_token_id_ok_def)
  have u: "parse_u256 sdk2 ''7'' = Inr 7" by (simp add: sdk2_def sdk1_def parse_digits_def all_digits_def)
  have w: "nw_clock world0 0 = 9000000" "nw_adapter_ok world0" "nw_neg_risk world0 7 = Inr False" "nw_rpcs world0 = Some ''https://a,https://b''"
    "nw_client_ok world0" "trades_between_unfiltered (nw_reader world0) t1 t2 t3 = Inr []" for t1 t2 t3
    by (simp_all add: world0_def no_trades_def)
  have n: "rpc_new True [''https://a'', ''https://b''] = Inr [''https://a'', ''https://b'']" by (simp add: rpc_new_def)
  have e: "en_expires_at gtd_envelope0 = Some (show_dec0 3000)" by (simp add: gtd_envelope0_def)
  have "no_fill_evidence gtd_ext1 sdk2 world0 ''7'' funder0 gtd_envelope0 hash_a (show_dec0 1000) = Inr (ev, show_dec0 3000, exchanges ! 0)"
    by (simp add: no_fill_evidence_def t u w n e ev(1) signed_identity0 [simplified] endpoints0 try_then_def ok_or_def map_err_def Let_def settlement_margin_def unix_seconds_def
        trade_history_window_new_def exact_hash_traded_def)
  with ev show ?thesis by blast
qed

lemma resolve0:
  assumes "zp_order_hash ev = hash_a" "zp_maker ev = funder0" "zp_token ev = ''7''" "trim (zp_detail ev) \<noteq> []"
  shows "\<exists>d'. resolve_chain_proven_gtd_no_fill gtd_ext1 clock 1 1 (show_dec0 1000) (show_dec0 3000) ev gtd_db0 = (Inr 1, d')"
proof -
  have x: "envelope_of_json gtd_ext1 j = Some gtd_envelope0" for j by (simp add: gtd_ext1_def)
  have e: "en_order_type gtd_envelope0 = ''GTD''" "en_token_id gtd_envelope0 = ''7''" "en_expected_taker_order_id gtd_envelope0 = hash_a"
    "en_expires_at gtd_envelope0 = Some (show_dec0 3000)" by (simp_all add: gtd_envelope0_def envelope0_def)
  show ?thesis
    using assms
    by (simp add: resolve_chain_proven_gtd_no_fill_def transaction_def act_simps no_fill_defs gtd_db0_tables
      blocked_db0_rows non_empty_def sql_update_def Let_def account_by_id_def chain_evidence_matches_def x e)
qed

theorem gtd_refund_only_without_fill_witness:
  "\<exists>d' c. gtd_chain_no_fill gtd_ext1 sdk2 world0 1 1 gtd_db0 = (Inr (c, exchanges ! 0), d') \<and>
     unfilled_between chain0 hash_a 1 1803 \<and> (\<exists>clock detail. refunded clock detail 1 1 1 gtd_db0 d')"
proof -
  from evidence0 obtain ev where ev: "no_fill_evidence gtd_ext1 sdk2 world0 ''7'' funder0 gtd_envelope0 hash_a (show_dec0 1000) = Inr (ev, show_dec0 3000, exchanges ! 0)"
    "zp_order_hash ev = hash_a" "zp_maker ev = funder0" "zp_token ev = ''7''" "trim (zp_detail ev) \<noteq> []" by blast
  from resolve0 [OF ev(2-5)] obtain d' where
    d': "resolve_chain_proven_gtd_no_fill gtd_ext1 (nw_clock world0 2) 1 1 (show_dec0 1000) (show_dec0 3000) ev gtd_db0 = (Inr 1, d')" by blast
  have x: "envelope_of_json gtd_ext1 j = Some gtd_envelope0" for j by (simp add: gtd_ext1_def)
  have id: "attempt_identity_ok gtd_ext1 (attempt0\<lparr>oa_status := Uncertain, oa_venue_order_id := Some hash_a,
       oa_submission_started_at := Some (show_dec0 1000)\<rparr>) (intent0\<lparr>ci_status := NeedsReconcile\<rparr>) gtd_envelope0 hash_a"
    by (simp add: attempt_identity_ok_def gtd_ext1_def gtd_envelope0_def envelope0_def blocked_db0_rows)
  have rows: "attempt_with_intent 1 1 gtd_db0 = Some (attempt0\<lparr>oa_status := Uncertain, oa_venue_order_id := Some hash_a,
       oa_submission_started_at := Some (show_dec0 1000)\<rparr>, intent0\<lparr>ci_status := NeedsReconcile\<rparr>)"
    by (simp add: attempt_with_intent_def attempt_by_id_def intent_by_id_def gtd_db0_tables blocked_db0_rows)
  have run: "gtd_chain_no_fill gtd_ext1 sdk2 world0 1 1 gtd_db0 = (Inr (1, exchanges ! 0), d')"
    by (simp add: gtd_chain_no_fill_def act_simps rows account_by_id_def gtd_db0_tables(5) x id ev(1) [simplified] d' [simplified] map_err_def
        lift_result_def blocked_db0_rows)
  have w: "nw_rpcs world0 = Some ''https://a,https://b''" "''https://a'' \<in> set (rpc_endpoints ''https://a,https://b'')" "nw_net world0 = network0"
    by (simp_all add: world0_def endpoints0)
  from gtd_refund_only_without_fill [OF gtd_db0_tables(6,7) run w(1,2), unfolded w(3), OF honest0] rows
  obtain submitted expires clock detail where s: "parse_time gtd_ext1 (show_dec0 1000) = Some submitted" "parse_time gtd_ext1 (show_dec0 3000) = Some expires"
    "unfilled_between chain0 hash_a (unix_seconds submitted) (unix_seconds (expires + settlement_margin))"
    "refunded clock detail 1 (ci_id (intent0\<lparr>ci_status := NeedsReconcile\<rparr>)) 1 gtd_db0 d'"
    by (auto simp: x gtd_envelope0_def)
  from s(1,2) have "submitted = 1000" "expires = 3000" by (simp_all add: gtd_ext1_def)
  with s(3,4) run show ?thesis by (auto simp: unix_seconds_def settlement_margin_def blocked_db0_rows)
qed

end
