(* ===== verification/Control.thy ===== *)
theory Control
  imports Runner ChainEvidence
begin

text \<open>
  The operator's tool (\<open>src/src/bin/persistent_control.rs\<close>): every command as an action on the database, from the environment and
  the arguments to what it reports.

  The record \<open>control_input\<close> is what the process finds: environment, arguments, lock files, whether the database opens and the
  venue authenticates, the answers of the venue and of the chain, the clocks.  A command returns the values it prints as a
  \<open>control_report\<close>; the wording around them is left out.
\<close>

section \<open>Arguments\<close>

record control_input =
  cn_env :: "string \<rightharpoonup> string"
  cn_args :: "string list"
  cn_locks :: lock_files
  cn_open_error :: "string option"
  cn_adapter_error :: "string option"
  cn_reader :: trade_history_reader
  cn_balances :: balance_reader
  cn_clock :: "nat \<Rightarrow> timestamp"
  cn_no_fill :: no_fill_world

datatype control_report =
    TradesDumped "(string \<times> nat \<times> account_trade list) list"
  | ConfigInitialized runtime_config
  | ConfigReconfigured runtime_config
  | FuseReport int "fuse_row option"
  | FusePaused int string
  | FuseResumed int string
  | OverdueCancelled int int
  | RejectionReleased int int
  | IntentResolved int int int
  | ChainNoFillResolved int int int string
  | NoFillConfirmed int int int
  | NoMatchRecorded int int
  | FillAccounted int int string decimal decimal int
  | PreflightResolved int decimal
  | GtdMarkedUncertain int int int

type_synonym control_act = "(persistent_error, control_report) db_act"

definition nth_arg :: "nat \<Rightarrow> string list \<Rightarrow> string option" where
  "nth_arg n args = (if n < length args then Some (args ! n) else None)"

definition account_id_from_env :: "(string \<rightharpoonup> string) \<Rightarrow> persistent_error + int" where
  "account_id_from_env env = (case env ''POLYCOPY_PERSISTENT_ACCOUNT_ID'' of
       None \<Rightarrow> Inl (Config ''missing POLYCOPY_PERSISTENT_ACCOUNT_ID'')
     | Some raw \<Rightarrow> (case parse_i64 raw of
           None \<Rightarrow> Inl (Config ''invalid POLYCOPY_PERSISTENT_ACCOUNT_ID'')
         | Some account_id \<Rightarrow> Inr account_id))"

definition required_reason :: "string list \<Rightarrow> persistent_error + string" where
  "required_reason args = (let reason = join '' '' (drop 2 args) in
     if trim reason = [] then Inl (Config ''pause/resume requires an explicit reason'') else Inr reason)"

definition reconcile_uncertain_arguments :: "string list \<Rightarrow> persistent_error + (int \<times> string option)" where
  "reconcile_uncertain_arguments all_args = (let args = drop 2 all_args in
     case nth_arg 0 args of
       None \<Rightarrow> Inl (Config ''reconcile-uncertain requires an attempt id'')
     | Some raw \<Rightarrow> (case parse_i64 raw of
           None \<Rightarrow> Inl (Config ''invalid attempt id'')
         | Some attempt_id \<Rightarrow> (case nth_arg 1 args of
               None \<Rightarrow> Inr (attempt_id, None)
             | Some flag \<Rightarrow>
                 if flag = ''--confirm-no-fill'' then
                   let reason = join '' '' (drop 2 args) in
                   if trim reason = [] then Inl (Config ''--confirm-no-fill requires an explicit operator reason'')
                   else Inr (attempt_id, Some reason)
                 else Inl (Config ''reconcile-uncertain accepts only --confirm-no-fill <reason> after the attempt id''))))"

text \<open>The id after the command: \<open>what\<close> is \<open>attempt id\<close> or \<open>intent id\<close>.\<close>

definition id_argument :: "string list \<Rightarrow> string \<Rightarrow> string \<Rightarrow> persistent_error + int" where
  "id_argument args missing what = (case nth_arg 2 args of
       None \<Rightarrow> Inl (Config missing)
     | Some raw \<Rightarrow> (case parse_i64 raw of None \<Rightarrow> Inl (Config (''invalid '' @ what)) | Some n \<Rightarrow> Inr n))"

definition control_lock :: "control_input \<Rightarrow> string \<Rightarrow> string \<Rightarrow> (persistent_error, unit) db_act" where
  "control_lock ci db_path refusal = lift_result (case fst (acquire_for_database db_path (cn_locks ci)) of
       Inr lock \<Rightarrow> Inr ()
     | Inl e \<Rightarrow> Inl (Config (refusal @ engine_lock_error_text e)))"

definition control_account :: "control_input \<Rightarrow> (persistent_error, int) db_act" where
  "control_account ci = lift_result (account_id_from_env (cn_env ci))"

definition control_adapter :: "control_input \<Rightarrow> string \<Rightarrow> (persistent_error, unit) db_act" where
  "control_adapter ci refusal = fail_if (\<lambda>e. Config (refusal @ e)) (cn_adapter_error ci)"

text \<open>\<open>{:?}\<close> of a string\<close>

definition debug_char :: "char \<Rightarrow> string" where
  "debug_char c = (let n = (of_char c :: nat) in
     if c = CHR 0x22 then [CHR 0x5C, CHR 0x22]
     else if c = CHR 0x5C then [CHR 0x5C, CHR 0x5C]
     else if n = 9 then [CHR 0x5C, CHR ''t'']
     else if n = 10 then [CHR 0x5C, CHR ''n'']
     else if n = 13 then [CHR 0x5C, CHR ''r'']
     else if n = 0 then [CHR 0x5C, CHR ''0'']
     else if n < 32 \<or> (127 \<le> n \<and> n < 160) \<or> n = 173 then [CHR 0x5C, CHR ''u'', CHR 0x7B] @ show_hex n @ [CHR 0x7D]
     else [c])"

definition debug_str :: "string \<Rightarrow> string" where
  "debug_str s = [CHR 0x22] @ concat (map debug_char s) @ [CHR 0x22]"

section \<open>The commands\<close>

definition dumpable_attempt :: "int \<Rightarrow> int \<Rightarrow> db \<Rightarrow> (order_attempt_row \<times> copy_intent_row) option" where
  "dumpable_attempt account_id attempt_id d = (case attempt_with_intent account_id attempt_id d of
       Some (oa, ci) \<Rightarrow> if oa_status oa = Uncertain \<or> oa_status oa = ARejected then Some (oa, ci) else None
     | None \<Rightarrow> None)"

definition dump_query :: "string \<Rightarrow> string \<Rightarrow> string + account_trade list \<Rightarrow> persistent_error + (string \<times> nat \<times> account_trade list)" where
  "dump_query order_id label answer = (case answer of
       Inl e \<Rightarrow> Inl (Config (label @ '' strict trade-history query failed: '' @ e))
     | Inr trades \<Rightarrow> Inr (label, length trades,
         filter (\<lambda>trade. list_ex (\<lambda>fill. mf_order_id fill = order_id) (tr_maker_orders trade)) trades))"

definition dump_trades :: "ext \<Rightarrow> control_input \<Rightarrow> control_act" where
  "dump_trades X ci =
     and_then (control_account ci) (\<lambda>account_id.
     and_then (lift_result (id_argument (cn_args ci) ''dump-trades requires an attempt id'' ''attempt id'')) (\<lambda>attempt_id.
     and_then (reads (dumpable_attempt account_id attempt_id)) (\<lambda>row.
     and_then (or_raise UnresolvedRecovery row) (\<lambda>(oa, intent).
     and_then (or_raise (PersDatabase ''unexpected null'') (oa_venue_order_id oa)) (\<lambda>order_id.
     and_then (or_raise (PersDatabase ''unexpected null'') (oa_submission_started_at oa)) (\<lambda>started_at.
     and_then (or_raise UnresolvedRecovery (envelope_of_json X (oa_envelope_json oa))) (\<lambda>envelope.
     and_then (assert_that (\<not> (en_order_type envelope \<noteq> ''GTD'' \<or> en_token_id envelope \<noteq> ci_token_id intent \<or>
        order_id \<noteq> en_expected_taker_order_id envelope \<or> order_id = [])) UnresolvedRecovery) (\<lambda>_.
     and_then (assert_that (outcome_token_id_ok X (ci_token_id intent)) UnresolvedRecovery) (\<lambda>_.
     and_then (or_raise UnresolvedRecovery (parse_time X started_at)) (\<lambda>started.
     and_then (control_adapter ci ''authenticated trade-history setup failed: '') (\<lambda>_.
     and_then (lift_result (dump_query order_id ''asset-filtered''
        (trades_for_token_between (cn_reader ci) (ci_token_id intent) (started - 1000) (started + 900000)))) (\<lambda>filtered.
     and_then (lift_result (dump_query order_id ''unfiltered''
        (trades_between_unfiltered (cn_reader ci) (ci_token_id intent) (started - 1000) (started + 900000)))) (\<lambda>unfiltered.
     ret (TradesDumped [filtered, unfiltered]))))))))))))))"

definition control_init_config :: "ext \<Rightarrow> control_input \<Rightarrow> string \<Rightarrow> control_act" where
  "control_init_config X ci db_path =
     and_then (control_lock ci db_path ''cannot initialize persistent config while an engine owns the database: '') (\<lambda>_.
     and_then (lift_result (from_env X (cn_env ci))) (\<lambda>config.
     and_then (init_config X config) (\<lambda>_. ret (ConfigInitialized config))))"

definition control_reconfigure :: "ext \<Rightarrow> control_input \<Rightarrow> string \<Rightarrow> control_act" where
  "control_reconfigure X ci db_path =
     and_then (control_lock ci db_path ''cannot reconfigure persistent mode while an engine owns the database: '') (\<lambda>_.
     and_then (lift_result (from_env X (cn_env ci))) (\<lambda>config.
     and_then (reconfigure_config X (cn_clock ci 0) config) (\<lambda>_. ret (ConfigReconfigured config))))"

definition control_status :: "control_input \<Rightarrow> control_act" where
  "control_status ci =
     and_then (control_account ci) (\<lambda>account_id.
     and_then (fuse_status account_id) (\<lambda>st. ret (FuseReport account_id st)))"

definition control_pause :: "control_input \<Rightarrow> control_act" where
  "control_pause ci =
     and_then (control_account ci) (\<lambda>account_id.
     and_then (lift_result (required_reason (cn_args ci))) (\<lambda>reason.
     and_then (pause_fuse (cn_clock ci 0) account_id reason ''persistent_control'') (\<lambda>_. ret (FusePaused account_id reason))))"

definition control_resume :: "control_input \<Rightarrow> control_act" where
  "control_resume ci =
     and_then (control_account ci) (\<lambda>account_id.
     and_then (lift_result (required_reason (cn_args ci))) (\<lambda>reason.
     and_then (resume_fuse account_id reason) (\<lambda>_. ret (FuseResumed account_id reason))))"

text \<open>The commands that take the lock and one id.\<close>

definition locked_id_command :: "control_input \<Rightarrow> string \<Rightarrow> string \<Rightarrow> string \<Rightarrow> string \<Rightarrow> (int \<Rightarrow> int \<Rightarrow> control_act) \<Rightarrow> control_act" where
  "locked_id_command ci db_path refusal missing what work =
     and_then (control_lock ci db_path refusal) (\<lambda>_.
     and_then (control_account ci) (\<lambda>account_id.
     and_then (lift_result (id_argument (cn_args ci) missing what)) (\<lambda>n. work account_id n)))"

definition control_cancel_overdue :: "ext \<Rightarrow> control_input \<Rightarrow> string \<Rightarrow> control_act" where
  "control_cancel_overdue X ci db_path =
     locked_id_command ci db_path ''cannot cancel an overdue intent while an engine owns the database: ''
       ''cancel-overdue-pre-submit requires an intent id'' ''intent id'' (\<lambda>account_id intent_id.
     and_then (map_error (\<lambda>e. Config (''refusing overdue pre-submit cancellation: '' @ execute_error_text e))
        (cancel_overdue_pre_submit_intent X (cn_clock ci 0) account_id intent_id)) (\<lambda>_.
     ret (OverdueCancelled account_id intent_id)))"

definition control_release_rejection :: "control_input \<Rightarrow> string \<Rightarrow> control_act" where
  "control_release_rejection ci db_path =
     locked_id_command ci db_path ''cannot release a rejected reservation while an engine owns the database: ''
       ''release-definitive-rejection requires an attempt id'' ''attempt id'' (\<lambda>account_id attempt_id.
     and_then (release_definitive_rejection (cn_clock ci 0) account_id attempt_id) (\<lambda>_.
     ret (RejectionReleased account_id attempt_id)))"

definition control_exhausted_fak :: "control_input \<Rightarrow> string \<Rightarrow> control_act" where
  "control_exhausted_fak ci db_path =
     locked_id_command ci db_path ''cannot resolve exhausted FAK retries while an engine owns the database: ''
       ''resolve-exhausted-fak-no-match requires an intent id'' ''intent id'' (\<lambda>account_id intent_id.
     and_then (resolve_exhausted_fak_no_match (cn_clock ci 0) account_id intent_id) (\<lambda>case_id.
     ret (IntentResolved account_id intent_id case_id)))"

definition control_exhausted_maker :: "control_input \<Rightarrow> string \<Rightarrow> control_act" where
  "control_exhausted_maker ci db_path =
     locked_id_command ci db_path ''cannot resolve exhausted maker-only crossing retries while an engine owns the database: ''
       ''resolve-exhausted-maker-only-crossing requires an intent id'' ''intent id'' (\<lambda>account_id intent_id.
     and_then (resolve_exhausted_maker_only_crossing (cn_clock ci 0) account_id intent_id) (\<lambda>case_id.
     ret (IntentResolved account_id intent_id case_id)))"

definition control_no_virtual_lot :: "ext \<Rightarrow> control_input \<Rightarrow> string \<Rightarrow> control_act" where
  "control_no_virtual_lot X ci db_path =
     locked_id_command ci db_path ''cannot resolve a sell case while an engine owns the database: ''
       ''resolve-no-virtual-lot-sell requires an intent id'' ''intent id'' (\<lambda>account_id intent_id.
     and_then (resolve_no_virtual_lot_sell_case X (cn_clock ci 0) account_id intent_id) (\<lambda>case_id.
     ret (IntentResolved account_id intent_id case_id)))"

definition control_chain_no_fill :: "ext \<Rightarrow> sdk \<Rightarrow> control_input \<Rightarrow> string \<Rightarrow> control_act" where
  "control_chain_no_fill X S ci db_path =
     and_then (control_lock ci db_path ''cannot reconcile while an engine owns the database: '') (\<lambda>_.
     and_then (control_account ci) (\<lambda>account_id.
     let args = drop 2 (cn_args ci) in
     and_then (assert_that (length args = 1) (Config ''usage: persistent_control reconcile-gtd-chain-no-fill <attempt-id>'')) (\<lambda>_.
     and_then (or_raise (Config ''invalid attempt id'') (parse_i64 (args ! 0))) (\<lambda>attempt_id.
     and_then (gtd_chain_no_fill X S (cn_no_fill ci) account_id attempt_id) (\<lambda>(case_id, signed_exchange).
     ret (ChainNoFillResolved account_id attempt_id case_id signed_exchange))))))"

text \<open>The refusal is a Chinese sentence, given by its UTF-8 bytes.\<close>

definition gtd_confirmation_refusal :: string where
  "gtd_confirmation_refusal = ''GTD '' @ map char_of [228, 184, 141, 230, 148, 175, 230, 140, 129, 228, 186, 186, 229, 183, 165, 231, 161, 174, 232, 174, 164, 230, 151, 160, 230, 136, 144, 228, 186, 164, 44, 232, 175, 183, 228, 189, 191, 231, 148, 168, 233, 147, 190, 228, 184, 138, 232, 175, 129, 230, 141, 174, 229, 145, 189, 228, 187, 164 :: nat]"

definition refuse_gtd_confirmation :: "ext \<Rightarrow> int \<Rightarrow> int \<Rightarrow> string option \<Rightarrow> (persistent_error, unit) db_act" where
  "refuse_gtd_confirmation X account_id attempt_id confirmation =
     (if confirmation = None then ret () else
      and_then (reads (uncertain_of_account account_id attempt_id)) (\<lambda>row. case row of
        None \<Rightarrow> ret ()
      | Some oa \<Rightarrow>
          and_then (or_raise (PersDatabase ''unexpected null'') (order_type_of_json X (oa_envelope_json oa))) (\<lambda>order_type.
          if order_type = ''GTD'' then raise (Config gtd_confirmation_refusal) else ret ())))"

definition operator_inspection ::
  "ext \<Rightarrow> control_input \<Rightarrow> int \<Rightarrow> int \<Rightarrow> string \<Rightarrow> (persistent_error, operator_uncertain_lookup) db_act" where
  "operator_inspection X ci account_id attempt_id refusal =
     and_then (control_adapter ci ''strict trade-history lookup could not authenticate: '') (\<lambda>_.
     map_error (\<lambda>e. Config (''uncertain attempt remains unresolved; strict lookup did not '' @ refusal @ '': '' @ reconcile_error_text e))
       (inspect_uncertain_attempt_for_operator X (cn_reader ci) account_id attempt_id (cn_clock ci 0)))"

definition record_no_match :: "int \<Rightarrow> int \<Rightarrow> (persistent_error, unit) db_act" where
  "record_no_match account_id attempt_id =
     and_then (reads (uncertain_of_account account_id attempt_id)) (\<lambda>row.
     and_then (or_raise UnresolvedRecovery row) (\<lambda>oa.
     map_error (\<lambda>e. Config (''could not record no-match reconciliation state: '' @ reconcile_error_text e))
       (open_reconciliation_case (oa_intent_id oa) (Some attempt_id) ''unknown_submission''
          ''operator strict trade-history lookup contained no exact prepared-order identifier'')))"

definition conclude_uncertain :: "ext \<Rightarrow> control_input \<Rightarrow> int \<Rightarrow> int \<Rightarrow> string option \<Rightarrow> operator_uncertain_lookup \<Rightarrow> control_act" where
  "conclude_uncertain X ci account_id attempt_id confirmation lookup = (case lookup of
       OpNotFound \<Rightarrow>
         and_then (record_no_match account_id attempt_id) (\<lambda>_. case confirmation of
           Some reason \<Rightarrow>
             and_then (resolve_operator_confirmed_no_fill X (cn_clock ci 1) account_id attempt_id reason) (\<lambda>case_id.
             ret (NoFillConfirmed account_id attempt_id case_id))
         | None \<Rightarrow> ret (NoMatchRecorded account_id attempt_id))
     | OpRecovered order_id filled _ \<Rightarrow>
         raise (Config (''strict history recovered venue order id '' @ order_id @ '' filled_qty='' @ show_dec X filled @
           ''; refusing no-fill resolution; run persistent_control reconcile-fill '' @ show_i64 attempt_id)))"

definition control_reconcile_uncertain :: "ext \<Rightarrow> control_input \<Rightarrow> string \<Rightarrow> control_act" where
  "control_reconcile_uncertain X ci db_path =
     and_then (control_lock ci db_path ''cannot reconcile an uncertain attempt while an engine owns the database: '') (\<lambda>_.
     and_then (control_account ci) (\<lambda>account_id.
     and_then (lift_result (reconcile_uncertain_arguments (cn_args ci))) (\<lambda>(attempt_id, confirmation).
     and_then (refuse_gtd_confirmation X account_id attempt_id confirmation) (\<lambda>_.
     and_then (operator_inspection X ci account_id attempt_id ''prove no-fill'') (\<lambda>lookup.
     conclude_uncertain X ci account_id attempt_id confirmation lookup)))))"

definition conclude_fill :: "ext \<Rightarrow> control_input \<Rightarrow> int \<Rightarrow> int \<Rightarrow> operator_uncertain_lookup \<Rightarrow> control_act" where
  "conclude_fill X ci account_id attempt_id lookup = (case lookup of
       OpNotFound \<Rightarrow> raise (Config ''strict history did not recover this envelope; do not invent a fill'')
     | OpRecovered order_id filled maker_notional_usdc \<Rightarrow>
         and_then (restore_reservation_and_finalize_recovered_fill X (cn_clock ci 1) account_id attempt_id filled maker_notional_usdc) (\<lambda>case_id.
         ret (FillAccounted account_id attempt_id order_id filled maker_notional_usdc case_id)))"

definition control_reconcile_fill :: "ext \<Rightarrow> control_input \<Rightarrow> string \<Rightarrow> control_act" where
  "control_reconcile_fill X ci db_path =
     locked_id_command ci db_path ''cannot reconcile a recovered fill while an engine owns the database: ''
       ''reconcile-fill requires an attempt id'' ''attempt id'' (\<lambda>account_id attempt_id.
     and_then (operator_inspection X ci account_id attempt_id ''recover a fill'') (\<lambda>lookup.
     conclude_fill X ci account_id attempt_id lookup))"

definition control_preflight :: "ext \<Rightarrow> control_input \<Rightarrow> control_act" where
  "control_preflight X ci =
     and_then (lift_result (from_env X (cn_env ci))) (\<lambda>config.
     and_then (verify_config X config) (\<lambda>_.
     and_then (control_adapter ci ''strict collateral preflight could not authenticate: '') (\<lambda>_.
     and_then (lift_result (map_err (\<lambda>e. Config (''strict collateral balance preflight failed: '' @ e)) (collateral_balance_strict (cn_balances ci)))) (\<lambda>balance.
     and_then (lift_result (map_err (\<lambda>e. Config (''strict collateral allowance preflight failed: '' @ e)) (collateral_allowance_strict (cn_balances ci)))) (\<lambda>allowance.
     let usable = min balance allowance in
     and_then (assert_that (\<not> usable < cf_max_order_notional config) (Config (''strict preflight usable collateral '' @ show_dec X usable @
        '' is below the configured per-order cap '' @ show_dec X (cf_max_order_notional config)))) (\<lambda>_.
     and_then (resolve_pre_submit_balance_case (cn_clock ci 0) (cf_account_id config)) (\<lambda>case_id.
     ret (PreflightResolved case_id usable))))))))"

definition gtd_uncertain_detail :: string where
  "gtd_uncertain_detail = ''operator manually marked GTD attempt uncertain after poll_resting_gtd'' @ [CHR 0x27] @ ''s live-order lookup went cold (see docs/poll-resting-gtd-404-permanently-blocks-startup.md)''"

definition quoted_accepted :: string where
  "quoted_accepted = [CHR 0x60, CHR 0x27] @ ''accepted'' @ [CHR 0x27, CHR 0x60]"

definition control_mark_gtd_uncertain :: "ext \<Rightarrow> control_input \<Rightarrow> string \<Rightarrow> control_act" where
  "control_mark_gtd_uncertain X ci db_path =
     locked_id_command ci db_path ''cannot mark an attempt uncertain while an engine owns the database: ''
       ''mark-attempt-gtd-uncertain requires an attempt id'' ''attempt id'' (\<lambda>account_id attempt_id.
     and_then (reads (attempt_with_intent account_id attempt_id)) (\<lambda>row.
     and_then (or_raise (Config (''attempt '' @ show_i64 attempt_id @ '' not found for account '' @ show_i64 account_id @
        '' (wrong account or unknown attempt)'')) row) (\<lambda>(oa, intent).
     and_then (or_raise (PersDatabase ''unexpected null'') (order_type_of_json X (oa_envelope_json oa))) (\<lambda>order_type.
     and_then (assert_that (order_type = ''GTD'') (Config (''mark-attempt-gtd-uncertain only applies to GTD attempts; attempt '' @
        show_i64 attempt_id @ '' has order_type='' @ debug_str order_type @
        '' (the orchestrator already has recovery machinery for non-GTD '' @ quoted_accepted @ '' attempts)''))) (\<lambda>_.
     and_then (assert_that (oa_status oa = Accepted) (Config (''mark-attempt-gtd-uncertain only applies to '' @ quoted_accepted @
        '' GTD attempts; attempt '' @ show_i64 attempt_id @ '' has status='' @ debug_str (attempt_status_text (oa_status oa)) @
        '' (re-routing through the recovery matrix is the orchestrator'' @ [CHR 0x27] @ ''s job, not this command'' @ [CHR 0x27] @ ''s)''))) (\<lambda>_.
     and_then (map_error (\<lambda>e. PersDatabase (reconcile_error_text e))
        (mark_attempt_gtd_lookup_failed X (oa_intent_id oa) attempt_id gtd_uncertain_detail)) (\<lambda>transitioned.
     and_then (assert_that transitioned (Config (''mark-attempt-gtd-uncertain: attempt row was no longer in '' @ quoted_accepted @
        '' state when the update ran; another runner tick or operator command already moved it. Re-run reconcile-uncertain '' @
        ''to inspect the current status.''))) (\<lambda>_.
     ret (GtdMarkedUncertain account_id attempt_id (oa_intent_id oa))))))))))"

section \<open>The program\<close>

definition control_usage :: string where
  "control_usage = ''usage: persistent_control init-config|reconfigure|status|pause|resume [reason]|cancel-overdue-pre-submit <intent-id>|'' @
     ''release-definitive-rejection <attempt-id>|resolve-exhausted-fak-no-match <intent-id>|'' @
     ''resolve-exhausted-maker-only-crossing <intent-id>|resolve-no-virtual-lot-sell <intent-id>|'' @
     ''reconcile-uncertain <attempt-id> [--confirm-no-fill <reason>]|reconcile-gtd-chain-no-fill <attempt-id>|'' @
     ''reconcile-fill <attempt-id>|reconcile-preflight|mark-attempt-gtd-uncertain <attempt-id>''"

definition control_command :: "ext \<Rightarrow> sdk \<Rightarrow> control_input \<Rightarrow> string \<Rightarrow> string \<Rightarrow> control_act" where
  "control_command X S ci db_path command =
     (if command = ''dump-trades'' then dump_trades X ci
      else if command = ''init-config'' then control_init_config X ci db_path
      else if command = ''reconfigure'' then control_reconfigure X ci db_path
      else if command = ''status'' then control_status ci
      else if command = ''pause'' then control_pause ci
      else if command = ''resume'' then control_resume ci
      else if command = ''cancel-overdue-pre-submit'' then control_cancel_overdue X ci db_path
      else if command = ''release-definitive-rejection'' then control_release_rejection ci db_path
      else if command = ''resolve-exhausted-fak-no-match'' then control_exhausted_fak ci db_path
      else if command = ''resolve-exhausted-maker-only-crossing'' then control_exhausted_maker ci db_path
      else if command = ''resolve-no-virtual-lot-sell'' then control_no_virtual_lot X ci db_path
      else if command = ''reconcile-gtd-chain-no-fill'' then control_chain_no_fill X S ci db_path
      else if command = ''reconcile-uncertain'' then control_reconcile_uncertain X ci db_path
      else if command = ''reconcile-fill'' then control_reconcile_fill X ci db_path
      else if command = ''reconcile-preflight'' then control_preflight X ci
      else if command = ''mark-attempt-gtd-uncertain'' then control_mark_gtd_uncertain X ci db_path
      else raise (Config control_usage))"

definition persistent_control :: "ext \<Rightarrow> sdk \<Rightarrow> control_input \<Rightarrow> control_act" where
  "persistent_control X S ci =
     and_then (or_raise (Config ''missing POLYCOPY_DB_PATH'') (cn_env ci ''POLYCOPY_DB_PATH'')) (\<lambda>db_path.
     and_then (or_raise (Config control_usage) (nth_arg 1 (cn_args ci))) (\<lambda>command.
     and_then (fail_if PersDatabase (cn_open_error ci)) (\<lambda>_.
     control_command X S ci db_path command)))"

section \<open>Every command is a sequence of engine steps\<close>

lemma steps_one:
  "steps.stays X (init_config X config)" "steps.stays X (reconfigure_config X clock config)"
  "steps.stays X (pause_fuse clock acc reason actor)" "steps.stays X (resume_fuse acc reason)"
  "steps.stays X (cancel_overdue_pre_submit_intent X clock acc i)" "steps.stays X (release_definitive_rejection clock acc a)"
  "steps.stays X (resolve_exhausted_fak_no_match clock acc i)" "steps.stays X (resolve_exhausted_maker_only_crossing clock acc i)"
  "steps.stays X (resolve_no_virtual_lot_sell_case X clock acc i)" "steps.stays X (resolve_pre_submit_balance_case clock acc)"
  "steps.stays X (resolve_operator_confirmed_no_fill X clock acc a reason)"
  "steps.stays X (resolve_chain_proven_gtd_no_fill X clock acc a sub ex ev)"
  "steps.stays X (restore_reservation_and_finalize_recovered_fill X clock acc a q n)"
  "steps.stays X (open_reconciliation_case i att ct detail)" "steps.stays X (mark_attempt_gtd_lookup_failed X i a detail)"
  unfolding steps.stays_def by (blast intro: database_step.intros prod.collapse [symmetric])+

lemma ro_control:
  "ro.stays (control_lock ci path refusal)" "ro.stays (control_account ci)" "ro.stays (control_adapter ci refusal)"
  "ro.stays (fuse_status acc)" "ro.stays (refuse_gtd_confirmation X acc a confirmation)" "ro.stays (operator_inspection X ci acc a refusal)"
proof -
  show 3: "ro.stays (control_adapter ci refusal)" for refusal unfolding control_adapter_def by (rule ro_fail)
  show "ro.stays (operator_inspection X ci acc a refusal)"
    unfolding operator_inspection_def by (intro ro.stays_intros 3 reconcile_ro)
  show "ro.stays (refuse_gtd_confirmation X acc a confirmation)"
    unfolding refuse_gtd_confirmation_def by (auto intro!: ro.stays_intros split: option.splits)
qed (unfold control_lock_def control_account_def fuse_status_def, (rule ro.stays_basic)+)

lemmas steps_control = ro_control [THEN steps_ro] ro_startup_checks(1) [THEN steps_ro] ro_fail [THEN steps_ro]

lemma ro_dump: "ro.stays (dump_trades X ci)"
  unfolding dump_trades_def by (auto intro!: ro.stays_intros ro_control split: prod.splits)

lemma steps_locked_id: "(\<And>acc n. steps.stays X (work acc n)) \<Longrightarrow> steps.stays X (locked_id_command ci path refusal missing what work)"
  unfolding locked_id_command_def by (intro steps.stays_intros steps_control)

lemma steps_commands:
  "steps.stays X (control_init_config X ci path)" "steps.stays X (control_reconfigure X ci path)" "steps.stays X (control_status ci)"
  "steps.stays X (control_pause ci)" "steps.stays X (control_resume ci)" "steps.stays X (control_cancel_overdue X ci path)"
  "steps.stays X (control_release_rejection ci path)" "steps.stays X (control_exhausted_fak ci path)"
  "steps.stays X (control_exhausted_maker ci path)" "steps.stays X (control_no_virtual_lot X ci path)" "steps.stays X (control_preflight X ci)"
  unfolding control_init_config_def control_reconfigure_def control_status_def control_pause_def control_resume_def control_cancel_overdue_def
    control_release_rejection_def control_exhausted_fak_def control_exhausted_maker_def control_no_virtual_lot_def control_preflight_def
  by (intro steps.stays_intros steps_control steps_one steps_locked_id)+

lemma steps_chain_command: "steps.stays X (gtd_chain_no_fill X S w acc a)" "steps.stays X (control_chain_no_fill X S ci path)"
proof -
  show g: "steps.stays X (gtd_chain_no_fill X S w acc a)" for w acc a
    unfolding gtd_chain_no_fill_def by (auto intro!: steps.stays_intros steps_one split: prod.splits)
  show "steps.stays X (control_chain_no_fill X S ci path)"
    unfolding control_chain_no_fill_def Let_def by (auto intro!: steps.stays_intros steps_control g split: prod.splits)
qed

lemma steps_record: "steps.stays X (record_no_match acc a)"
  unfolding record_no_match_def by (intro steps.stays_intros steps_one)

lemma steps_reconcile_commands:
  "steps.stays X (control_reconcile_uncertain X ci path)" "steps.stays X (control_reconcile_fill X ci path)"
  "steps.stays X (control_mark_gtd_uncertain X ci path)"
  unfolding control_reconcile_uncertain_def conclude_uncertain_def control_reconcile_fill_def conclude_fill_def control_mark_gtd_uncertain_def
  by (auto intro!: steps.stays_intros steps_control steps_one steps_record steps_locked_id split: prod.splits option.splits operator_uncertain_lookup.splits)

lemma steps_persistent_control: "steps.stays X (persistent_control X S ci)"
  unfolding persistent_control_def control_command_def
  by (intro steps.stays_intros steps_control steps_commands steps_chain_command steps_reconcile_commands steps_ro [OF ro_dump])

text \<open>The commands that may run beside the engine: they look, or use one transaction.\<close>

definition unlocked_commands :: "string list" where
  "unlocked_commands = [''dump-trades'', ''status'', ''pause'', ''resume'', ''reconcile-preflight'']"

lemma lock_refused:
  assumes "path_for_database path \<in> lf_held (cn_locks ci)"
  shows "\<exists>m. control_lock ci path refusal d = (Inl (Config m), d)"
  using assms by (auto simp: control_lock_def acquire_for_database_def try_acquire_def lift_result_def split: option.splits)

lemma locked_refused:
  assumes "path_for_database path \<in> lf_held (cn_locks ci)" "command \<notin> set unlocked_commands"
  shows "\<exists>e. control_command X S ci path command d = (Inl e, d)"
proof -
  have l: "\<exists>e. and_then (control_lock ci path refusal) f d = (Inl e, d)" for refusal :: string and f :: "unit \<Rightarrow> control_act"
    using lock_refused [OF assms(1), of refusal d] by (auto simp: and_then_def)
  show ?thesis
    using assms(2) unfolding control_command_def unlocked_commands_def control_init_config_def control_reconfigure_def control_cancel_overdue_def
      control_release_rejection_def control_exhausted_fak_def control_exhausted_maker_def control_no_virtual_lot_def control_chain_no_fill_def
      control_reconcile_uncertain_def control_reconcile_fill_def control_mark_gtd_uncertain_def locked_id_command_def
    by (simp add: l raise_def)
qed

lemma ro_status: "ro.stays (control_status ci)"
  unfolding control_status_def by (intro ro.stays_intros ro_control)

lemma ro_looking: "command = ''status'' \<or> command = ''dump-trades'' \<Longrightarrow> ro.stays (control_command X S ci path command)"
  by (elim disjE) (simp_all add: control_command_def ro_status ro_dump)

lemma control_started:
  assumes "persistent_control X S ci d = (r, d')" "cn_env ci ''POLYCOPY_DB_PATH'' = Some path" "nth_arg 1 (cn_args ci) = Some command"
  shows "(\<exists>e. r = Inl e \<and> d' = d) \<or> control_command X S ci path command d = (r, d')"
  using assms by (auto simp: persistent_control_def and_then_def or_raise_def ret_def fail_if_def raise_def split: option.splits)


section \<open>Resolutions need evidence\<close>

definition report_backed :: "ext \<Rightarrow> control_input \<Rightarrow> db \<Rightarrow> control_report \<Rightarrow> bool" where
  "report_backed X ci d report \<longleftrightarrow> (case report of
       NoFillConfirmed account_id attempt_id _ \<Rightarrow>
         account_id_from_env (cn_env ci) = Inr account_id \<and>
         (\<exists>oa order_type reason. uncertain_of_account account_id attempt_id d = Some oa \<and>
            order_type_of_json X (oa_envelope_json oa) = Some order_type \<and> order_type \<noteq> ''GTD'' \<and>
            reconcile_uncertain_arguments (cn_args ci) = Inr (attempt_id, Some reason) \<and> trim reason \<noteq> []) \<and>
         inspect_uncertain_attempt_for_operator X (cn_reader ci) account_id attempt_id (cn_clock ci 0) d = (Inr OpNotFound, d)
     | FillAccounted account_id attempt_id order_id filled notional _ \<Rightarrow>
         account_id_from_env (cn_env ci) = Inr account_id \<and>
         inspect_uncertain_attempt_for_operator X (cn_reader ci) account_id attempt_id (cn_clock ci 0) d = (Inr (OpRecovered order_id filled notional), d)
     | GtdMarkedUncertain account_id attempt_id intent_id \<Rightarrow>
         (\<exists>oa intent. attempt_with_intent account_id attempt_id d = Some (oa, intent) \<and> oa_intent_id oa = intent_id \<and>
            oa_status oa = Accepted \<and> order_type_of_json X (oa_envelope_json oa) = Some ''GTD'')
     | PreflightResolved _ usable \<Rightarrow>
         (\<exists>config balance allowance. from_env X (cn_env ci) = Inr config \<and> verify_config X config d = (Inr (), d) \<and>
            collateral_balance_strict (cn_balances ci) = Inr balance \<and> collateral_allowance_strict (cn_balances ci) = Inr allowance \<and>
            usable = min balance allowance \<and> cf_max_order_notional config \<le> usable)
     | _ \<Rightarrow> True)"

lemma plain_reports:
  "dump_trades X ci d = (Inr report, d') \<Longrightarrow> report_backed X ci d report"
  "control_init_config X ci path d = (Inr report, d') \<Longrightarrow> report_backed X ci d report"
  "control_reconfigure X ci path d = (Inr report, d') \<Longrightarrow> report_backed X ci d report"
  "control_status ci d = (Inr report, d') \<Longrightarrow> report_backed X ci d report"
  "control_pause ci d = (Inr report, d') \<Longrightarrow> report_backed X ci d report"
  "control_resume ci d = (Inr report, d') \<Longrightarrow> report_backed X ci d report"
  "control_cancel_overdue X ci path d = (Inr report, d') \<Longrightarrow> report_backed X ci d report"
  "control_release_rejection ci path d = (Inr report, d') \<Longrightarrow> report_backed X ci d report"
  "control_exhausted_fak ci path d = (Inr report, d') \<Longrightarrow> report_backed X ci d report"
  "control_exhausted_maker ci path d = (Inr report, d') \<Longrightarrow> report_backed X ci d report"
  "control_no_virtual_lot X ci path d = (Inr report, d') \<Longrightarrow> report_backed X ci d report"
  "control_chain_no_fill X S ci path d = (Inr report, d') \<Longrightarrow> report_backed X ci d report"
  unfolding dump_trades_def control_init_config_def control_reconfigure_def control_status_def control_pause_def control_resume_def
    control_cancel_overdue_def control_release_rejection_def control_exhausted_fak_def control_exhausted_maker_def control_no_virtual_lot_def
    control_chain_no_fill_def locked_id_command_def Let_def and_then_ok
  by (auto simp: ret_ok report_backed_def and_then_ok)

lemma control_lock_ok: "control_lock ci path refusal d = (Inr u, d') \<longleftrightarrow> d' = d \<and> (\<exists>lock. fst (acquire_for_database path (cn_locks ci)) = Inr lock)"
  by (auto simp: control_lock_def lift_result_ok split: sum.splits)

lemma control_account_ok: "control_account ci d = (Inr acc, d') \<longleftrightarrow> d' = d \<and> account_id_from_env (cn_env ci) = Inr acc"
  by (auto simp: control_account_def lift_result_ok)

lemma control_adapter_ok: "control_adapter ci refusal d = (Inr u, d') \<longleftrightarrow> d' = d \<and> cn_adapter_error ci = None"
  by (auto simp: control_adapter_def fail_if_def ret_def raise_def split: option.splits)

lemma operator_inspection_ok:
  "operator_inspection X ci acc a refusal d = (Inr lookup, d') \<longleftrightarrow> cn_adapter_error ci = None \<and> d' = d \<and>
     inspect_uncertain_attempt_for_operator X (cn_reader ci) acc a (cn_clock ci 0) d = (Inr lookup, d)"
proof -
  have "inspect_uncertain_attempt_for_operator X (cn_reader ci) acc a (cn_clock ci 0) d = (Inr lookup, d') \<Longrightarrow> d' = d" for d'
    by (rule ro_state [OF reconcile_ro(4)])
  then show ?thesis by (auto simp: operator_inspection_def and_then_ok control_adapter_ok map_error_ok)
qed

lemma refuse_gtd_ok:
  "refuse_gtd_confirmation X acc a (Some reason) d = (Inr u, d') \<longleftrightarrow> d' = d \<and>
     (\<forall>oa. uncertain_of_account acc a d = Some oa \<longrightarrow> (\<exists>t. order_type_of_json X (oa_envelope_json oa) = Some t \<and> t \<noteq> ''GTD''))"
  by (auto simp: refuse_gtd_confirmation_def and_then_ok reads_ok or_raise_ok ret_ok raise_ok split: option.splits if_splits)

lemma inspected_uncertain:
  "inspect_uncertain_attempt_for_operator X reader acc a t d = (Inr lookup, d') \<Longrightarrow> \<exists>oa. uncertain_of_account acc a d = Some oa"
  by (auto simp: inspect_uncertain_attempt_for_operator_def and_then_ok reads_ok or_raise_ok)

lemma confirmed_reason: "reconcile_uncertain_arguments args = Inr (a, Some reason) \<Longrightarrow> trim reason \<noteq> []"
  by (auto simp: reconcile_uncertain_arguments_def Let_def split: option.splits if_splits)

lemma uncertain_report:
  assumes "control_reconcile_uncertain X ci path d = (Inr report, d')"
  shows "report_backed X ci d report"
proof -
  from assms obtain acc a confirmation d1 lookup where
    acc: "account_id_from_env (cn_env ci) = Inr acc" and args: "reconcile_uncertain_arguments (cn_args ci) = Inr (a, confirmation)"
    and g: "refuse_gtd_confirmation X acc a confirmation d = (Inr (), d1)"
    and l: "inspect_uncertain_attempt_for_operator X (cn_reader ci) acc a (cn_clock ci 0) d1 = (Inr lookup, d1)"
    and r: "conclude_uncertain X ci acc a confirmation lookup d1 = (Inr report, d')"
    by (auto simp: control_reconcile_uncertain_def and_then_ok lift_result_ok control_lock_ok control_account_ok operator_inspection_ok)
  have d1: "d1 = d" by (rule ro_state [OF ro_control(5) g])
  show ?thesis
  proof (cases confirmation)
    case None
    with r show ?thesis by (auto simp: conclude_uncertain_def and_then_ok ret_ok raise_ok report_backed_def split: operator_uncertain_lookup.split_asm)
  next
    case (Some reason)
    with r l d1 have "report_backed X ci d report \<or> lookup = OpNotFound \<and> (\<exists>k. report = NoFillConfirmed acc a k)"
      by (auto simp: conclude_uncertain_def and_then_ok ret_ok raise_ok split: operator_uncertain_lookup.split_asm)
    moreover obtain oa where oa: "uncertain_of_account acc a d = Some oa" using inspected_uncertain l d1 by blast
    moreover have "\<exists>t. order_type_of_json X (oa_envelope_json oa) = Some t \<and> t \<noteq> ''GTD''" using g oa unfolding Some refuse_gtd_ok by blast
    ultimately show ?thesis using l d1 acc args confirmed_reason [OF args [unfolded Some]] by (auto simp: report_backed_def Some)
  qed
qed

lemma fill_report:
  assumes "control_reconcile_fill X ci path d = (Inr report, d')"
  shows "report_backed X ci d report"
proof -
  from assms obtain acc a lookup where acc: "account_id_from_env (cn_env ci) = Inr acc"
    and l: "inspect_uncertain_attempt_for_operator X (cn_reader ci) acc a (cn_clock ci 0) d = (Inr lookup, d)"
    and r: "conclude_fill X ci acc a lookup d = (Inr report, d')"
    by (auto simp: control_reconcile_fill_def locked_id_command_def and_then_ok lift_result_ok control_lock_ok control_account_ok operator_inspection_ok)
  then show ?thesis by (cases lookup) (auto simp: conclude_fill_def and_then_ok ret_ok raise_ok report_backed_def)
qed

lemma mark_report: "control_mark_gtd_uncertain X ci path d = (Inr report, d') \<Longrightarrow> report_backed X ci d report"
  by (auto simp: control_mark_gtd_uncertain_def locked_id_command_def and_then_ok lift_result_ok control_lock_ok control_account_ok
      reads_ok or_raise_ok assert_that_ok ret_ok report_backed_def)

lemma preflight_report: "control_preflight X ci d = (Inr report, d') \<Longrightarrow> report_backed X ci d report"
proof -
  assume "control_preflight X ci d = (Inr report, d')"
  then obtain config d1 balance allowance k where c: "from_env X (cn_env ci) = Inr config"
    and v: "verify_config X config d = (Inr (), d1)" and b: "collateral_balance_strict (cn_balances ci) = Inr balance"
      "collateral_allowance_strict (cn_balances ci) = Inr allowance" "\<not> min balance allowance < cf_max_order_notional config"
    and r: "report = PreflightResolved k (min balance allowance)"
    by (auto simp: control_preflight_def Let_def and_then_ok lift_result_ok control_adapter_ok assert_that_ok ret_ok map_err_def case_err_ok split: sum.splits)
  have "d1 = d" by (rule ro_state [OF ro_startup_checks(1) v])
  with c v b show ?thesis by (auto simp: report_backed_def r not_less)
qed

lemma command_reports: "control_command X S ci path command d = (Inr report, d') \<Longrightarrow> report_backed X ci d report"
  unfolding control_command_def
  by (simp only: raise_ok split: if_splits) (erule plain_reports uncertain_report fill_report mark_report preflight_report | simp)+


section \<open>The properties on a sample\<close>

definition control0 :: "no_fill_world \<Rightarrow> string list \<Rightarrow> control_input" where
  "control0 chain args = \<lparr>cn_env = env0(''POLYCOPY_DB_PATH'' \<mapsto> ''db''), cn_args = ''persistent_control'' # args,
     cn_locks = \<lparr>lf_io_error = (\<lambda>_. None), lf_held = {}\<rparr>, cn_open_error = None, cn_adapter_error = None,
     cn_reader = no_trades, cn_balances = reader0, cn_clock = (\<lambda>k. if k = 0 then 5000 else 9), cn_no_fill = chain\<rparr>"

lemma control0_basics:
  "account_id_from_env (cn_env (control0 chain args)) = Inr 1"
  "control_lock (control0 chain args) ''db'' refusal d = (Inr (), d)"
  "cn_env (control0 chain args) ''POLYCOPY_DB_PATH'' = Some ''db''" "nth_arg 1 (cn_args (control0 chain (c # args))) = Some c"
proof -
  have "parse_i64 ''1'' = Some 1" by (simp add: parse_i64_def parse_digits_def all_digits_def less_eq_char_def)
  then show "account_id_from_env (cn_env (control0 chain args)) = Inr 1" by (simp add: account_id_from_env_def control0_def env0_def)
  show "control_lock (control0 chain args) ''db'' refusal d = (Inr (), d)"
    by (simp add: control_lock_ok control0_def acquire_for_database_def try_acquire_def)
qed (simp_all add: control0_def nth_arg_def)

lemma control0_run: "persistent_control X S (control0 chain (c # args)) d = control_command X S (control0 chain (c # args)) ''db'' c d"
proof -
  have "cn_open_error (control0 chain (c # args)) = None" by (simp add: control0_def)
  then show ?thesis by (simp add: persistent_control_def and_then_def control0_basics or_raise_def ret_def fail_if_def del: One_nat_def)
qed


definition confirm_args :: "string list" where
  "confirm_args = [''reconcile-uncertain'', ''1'', ''--confirm-no-fill'', ''seen'']"

lemma confirm_arguments: "reconcile_uncertain_arguments (''persistent_control'' # confirm_args) = Inr (1, Some ''seen'')"
proof -
  have "parse_i64 ''1'' = Some 1" by (simp add: parse_i64_def parse_digits_def all_digits_def less_eq_char_def)
  then show ?thesis by (simp add: reconcile_uncertain_arguments_def confirm_args_def nth_arg_def trim_def is_space_def)
qed

lemma blocked_uncertain: "uncertain_of_account 1 1 blocked_db0 = Some (attempt0\<lparr>oa_status := Uncertain, oa_venue_order_id := Some ''0xa'',
       oa_submission_started_at := Some (show_dec0 1000)\<rparr>)"
  by (simp add: uncertain_of_account_def attempt_of_account_def blocked_db0_tables blocked_db0_rows intent_by_id_def)

lemma blocked_inspection: "inspect_uncertain_attempt_for_operator ext0 no_trades 1 1 5000 blocked_db0 = (Inr OpNotFound, blocked_db0)"
proof -
  let ?w = "\<lparr>tw_after = 1000 - 1000 * trade_history_timestamp_skew_seconds, tw_before = 5000\<rparr>"
  have w: "trade_history_window_new (1000 - 1000 * trade_history_timestamp_skew_seconds) 5000 = Inr ?w"
    by (simp add: trade_history_window_new_def trade_history_timestamp_skew_seconds_def)
  have l: "load_pending_trade_history_recovery ext0 1 1 5000 blocked_db0 =
      (Inr \<lparr>pr_envelope = envelope0, pr_window = ?w, pr_venue_order_id = Some ''0xa''\<rparr>, blocked_db0)"
    by (simp add: load_pending_trade_history_recovery_def act_simps blocked_db0_tables blocked_db0_rows in_flight_def w)
  have "lookup_prepared_fak_in_trade_history ext0 no_trades envelope0 ?w = Inr NotFound"
    by (simp add: lookup_prepared_fak_in_trade_history_def no_trades_def recover_fak_taker_order_from_trades_def check_envelope_def envelope0_def
        outcome_token_id_ok_def lookup_of_def less_eq_char_def trim_def is_space_def all_digits_def trade_side_of_def limit_price_of_def)
  then have "operator_lookup ext0 no_trades \<lparr>pr_envelope = envelope0, pr_window = ?w, pr_venue_order_id = Some ''0xa''\<rparr> = Inr NotFound"
    by (simp add: operator_lookup_def envelope0_def)
  with l show ?thesis by (simp add: inspect_uncertain_attempt_for_operator_def act_simps blocked_uncertain blocked_db0_rows)
qed

lemma blocked_confirmed:
  "\<exists>k d'. conclude_uncertain ext0 (control0 chain confirm_args) 1 1 (Some ''seen'') OpNotFound blocked_db0 = (Inr (NoFillConfirmed 1 1 k), d')"
proof -
  let ?detail = "''operator strict trade-history lookup contained no exact prepared-order identifier''"
  let ?ci = "intent0\<lparr>ci_status := NeedsReconcile\<rparr>"
  define d1 where "d1 = case_blocked 1 (Some 1) ''unknown_submission'' ?detail blocked_db0 ?ci"
  have i: "intent_by_id 1 blocked_db0 = Some ?ci" by (simp add: intent_by_id_def blocked_db0_tables blocked_db0_rows)
  have s: "list_ex (same_open_case 1 (Some 1) ''unknown_submission'') (reconciliation_cases blocked_db0)"
    by (simp add: blocked_db0_tables same_open_case_def new_case_def)
  have o: "open_reconciliation_case 1 (Some 1) ''unknown_submission'' ?detail blocked_db0 = (Inr (), d1)"
    unfolding d1_def by (rule open_case_eq [OF i disjI1 [OF s]])
  have m: "record_no_match 1 1 blocked_db0 = (Inr (), d1)"
    by (simp add: record_no_match_def act_simps blocked_uncertain blocked_db0_rows map_error_def o)
  have t: "copy_intents d1 = [?ci]"
    "order_attempts d1 = [attempt0\<lparr>oa_status := Uncertain, oa_venue_order_id := Some ''0xa'',
       oa_submission_started_at := Some (show_dec0 1000), oa_failure_detail := Some ?detail\<rparr>]"
    "reconciliation_cases d1 = reconciliation_cases blocked_db0" "budget_reservations d1 = budget_reservations blocked_db0"
    using s by (simp_all add: d1_def case_blocked_def blocked_db0_tables blocked_db0_rows in_flight_def)
  have "\<exists>k d'. resolve_operator_confirmed_no_fill ext0 9 1 1 ''seen'' d1 = (Inr k, d')"
    by (simp add: resolve_operator_confirmed_no_fill_def transaction_def act_simps no_fill_defs blocked_db0_tables t
      blocked_db0_rows non_empty_def trim_def is_space_def sql_update_def Let_def)
  then show ?thesis by (auto simp: conclude_uncertain_def and_then_def m ret_def control0_def)
qed


end
