(* ===== verification/Adapter.thy ===== *)
theory Adapter
  imports Control
begin

text \<open>
  The adapter between the engine and the venue's SDK: the strict reads of balances, allowances and trade history
  (\<open>src/src/venue/intl_clob.rs\<close>) with the SDK's page loop, the cache of a tick, and the construction of the authenticated adapter
  from the environment and the credential file of the service (\<open>src/src/venue/intl_clob_exec.rs\<close>).

  The SDK's calls are the records \<open>clob_reads\<close> and \<open>clob_login\<close>: functions of what is asked, and for pages also of
  the number of the call, so that the venue may answer differently every time.
\<close>

section \<open>Pages\<close>

record 'a page =
  pg_data :: "'a list"
  pg_next_cursor :: string

definition terminal_cursor :: string where "terminal_cursor = ''LTE=''"

text \<open>\<open>stream_data\<close> collected with \<open>try_collect\<close>.  \<open>None\<close>: the venue never sends the terminal cursor.\<close>

partial_function (option) stream_data ::
  "(nat \<Rightarrow> string option \<Rightarrow> 'e + 'a page) \<Rightarrow> nat \<Rightarrow> string option \<Rightarrow> 'a list \<Rightarrow> ('e + 'a list) option" where
  "stream_data call n cursor acc = (case call n cursor of
       Inl e \<Rightarrow> Some (Inl e)
     | Inr page \<Rightarrow>
         if pg_next_cursor page = terminal_cursor then Some (Inr (acc @ pg_data page))
         else stream_data call (n + 1) (Some (pg_next_cursor page)) (acc @ pg_data page))"

section \<open>Trade history\<close>

datatype sdk_side = SdkBuy | SdkSell | SdkUnknownSide

datatype trader_side = SdkTaker | SdkMaker | SdkUnknownTrader string

datatype trade_status_type = SdkMatched | SdkMined | SdkConfirmed | SdkRetrying | SdkFailed | SdkUnknownStatus string

record maker_order =
  mo_order_id :: string
  mo_asset_id :: nat
  mo_matched_amount :: decimal
  mo_price :: decimal
  mo_side :: sdk_side

record trade_response =
  ts_id :: string
  ts_taker_order_id :: string
  ts_asset_id :: nat
  ts_side :: sdk_side
  ts_size :: decimal
  ts_price :: decimal
  ts_status :: trade_status_type
  ts_match_time :: timestamp
  ts_maker_orders :: "maker_order list"
  ts_trader_side :: trader_side

definition account_trade_side :: "sdk_side \<Rightarrow> trade_side" where
  "account_trade_side s = (case s of SdkBuy \<Rightarrow> TBuy | SdkSell \<Rightarrow> TSell | SdkUnknownSide \<Rightarrow> TUnknownSide)"

definition account_trade_role :: "trader_side \<Rightarrow> trade_role" where
  "account_trade_role s = (case s of SdkTaker \<Rightarrow> Taker | SdkMaker \<Rightarrow> Maker | SdkUnknownTrader _ \<Rightarrow> UnknownRole)"

definition account_trade_status :: "trade_status_type \<Rightarrow> trade_status" where
  "account_trade_status s = (case s of SdkMatched \<Rightarrow> Matched | SdkMined \<Rightarrow> Mined | SdkConfirmed \<Rightarrow> Confirmed
     | SdkRetrying \<Rightarrow> Retrying | SdkFailed \<Rightarrow> Failed | SdkUnknownStatus _ \<Rightarrow> UnknownStatus)"

definition account_maker_fill :: "maker_order \<Rightarrow> maker_fill" where
  "account_maker_fill o' = \<lparr>mf_order_id = mo_order_id o', mf_asset_id = show_nat (mo_asset_id o'), mf_matched_amount = mo_matched_amount o',
     mf_price = mo_price o', mf_side = account_trade_side (mo_side o')\<rparr>"

definition account_trade_of :: "trade_response \<Rightarrow> account_trade" where
  "account_trade_of t = \<lparr>tr_trade_id = ts_id t, tr_taker_order_id = ts_taker_order_id t, tr_token_id = show_nat (ts_asset_id t),
     tr_side = account_trade_side (ts_side t), tr_price = ts_price t, tr_size = ts_size t, tr_match_time = ts_match_time t,
     tr_role = account_trade_role (ts_trader_side t), tr_status = account_trade_status (ts_status t),
     tr_maker_orders = map account_maker_fill (ts_maker_orders t)\<rparr>"

record trades_request =
  rq_asset_id :: "nat option"
  rq_before :: int
  rq_after :: int

record balance_response =
  ba_balance :: decimal
  ba_allowance :: "string option"
  ba_allowances :: "(string \<times> string) list"

datatype asset_type = Collateral | Conditional nat

record clob_reads =
  sdk_trades :: "trades_request \<Rightarrow> nat \<Rightarrow> string option \<Rightarrow> string + trade_response page"
  sdk_balance_allowance :: "asset_type \<Rightarrow> string + balance_response"

datatype strict_trade_history_error = StrictInvalidWindow | StrictQuery nat string

definition strict_trade_history_error_text :: "strict_trade_history_error \<Rightarrow> string" where
  "strict_trade_history_error_text e = (case e of
       StrictInvalidWindow \<Rightarrow> ''trade-history window ends before it starts''
     | StrictQuery token_id source \<Rightarrow> ''strict authenticated trade-history query failed for '' @ show_nat token_id @ '': '' @ source)"

definition strict_trades ::
  "clob_reads \<Rightarrow> nat option \<Rightarrow> nat \<Rightarrow> timestamp \<Rightarrow> timestamp \<Rightarrow> (strict_trade_history_error + account_trade list) option" where
  "strict_trades C asset token_id after before =
     (if after > before then Some (Inl StrictInvalidWindow) else
      map_option (\<lambda>r. case r of Inl source \<Rightarrow> Inl (StrictQuery token_id source) | Inr trades \<Rightarrow> Inr (map account_trade_of trades))
        (stream_data (sdk_trades C \<lparr>rq_asset_id = asset, rq_before = unix_seconds before, rq_after = unix_seconds after\<rparr>) 0 None []))"

definition adapter_trades_for_token_between ::
  "clob_reads \<Rightarrow> nat \<Rightarrow> timestamp \<Rightarrow> timestamp \<Rightarrow> (strict_trade_history_error + account_trade list) option" where
  "adapter_trades_for_token_between C token_id after before = strict_trades C (Some token_id) token_id after before"

definition adapter_trades_between_unfiltered ::
  "clob_reads \<Rightarrow> nat \<Rightarrow> timestamp \<Rightarrow> timestamp \<Rightarrow> (strict_trade_history_error + account_trade list) option" where
  "adapter_trades_between_unfiltered C token_id_for_error after before = strict_trades C None token_id_for_error after before"

section \<open>Balances\<close>

definition clob_balance_atomic_scale :: decimal where "clob_balance_atomic_scale = 1000000"

definition unlimited_allowance_atomic :: string where
  "unlimited_allowance_atomic = ''115792089237316195423570985008687907853269984665640564039457584007913129639935''"

definition decimal_max :: decimal where "decimal_max = 79228162514264337593543950335"

definition from_clob_atomic_units :: "ext \<Rightarrow> decimal \<Rightarrow> decimal" where
  "from_clob_atomic_units X raw = div_dec X raw clob_balance_atomic_scale"

datatype strict_position_error = PositionQuery nat string

definition strict_position_error_text :: "strict_position_error \<Rightarrow> string" where
  "strict_position_error_text e = (case e of PositionQuery token_id source \<Rightarrow>
     ''strict conditional-token balance query failed for '' @ show_nat token_id @ '': '' @ source)"

datatype strict_collateral_error = CollateralQuery string | MissingAllowance | InvalidAllowance string

definition strict_collateral_error_text :: "strict_collateral_error \<Rightarrow> string" where
  "strict_collateral_error_text e = (case e of
       CollateralQuery source \<Rightarrow> ''strict collateral balance query failed: '' @ source
     | MissingAllowance \<Rightarrow> ''strict collateral allowance query returned no exchange allowances''
     | InvalidAllowance raw \<Rightarrow> ''strict collateral allowance query returned an invalid allowance: '' @ raw)"

definition adapter_position_for_token_strict :: "ext \<Rightarrow> clob_reads \<Rightarrow> nat \<Rightarrow> strict_position_error + decimal" where
  "adapter_position_for_token_strict X C token_id = (case sdk_balance_allowance C (Conditional token_id) of
       Inl source \<Rightarrow> Inl (PositionQuery token_id source)
     | Inr response \<Rightarrow> Inr (from_clob_atomic_units X (ba_balance response)))"

definition adapter_collateral_balance_strict :: "ext \<Rightarrow> clob_reads \<Rightarrow> strict_collateral_error + decimal" where
  "adapter_collateral_balance_strict X C = (case sdk_balance_allowance C Collateral of
       Inl source \<Rightarrow> Inl (CollateralQuery source)
     | Inr response \<Rightarrow> Inr (from_clob_atomic_units X (ba_balance response)))"

definition allowance_amount :: "ext \<Rightarrow> string \<Rightarrow> strict_collateral_error + decimal" where
  "allowance_amount X raw =
     (if raw = unlimited_allowance_atomic then Inr decimal_max
      else case parse_dec X raw of None \<Rightarrow> Inl (InvalidAllowance raw) | Some q \<Rightarrow> Inr (from_clob_atomic_units X q))"

fun collect_allowances :: "ext \<Rightarrow> string list \<Rightarrow> strict_collateral_error + decimal list" where
  "collect_allowances X [] = Inr []"
| "collect_allowances X (raw # raws) =
     try_then (allowance_amount X raw) (\<lambda>q. try_then (collect_allowances X raws) (\<lambda>qs. Inr (q # qs)))"

definition reported_allowances :: "balance_response \<Rightarrow> string list" where
  "reported_allowances response = map snd (ba_allowances response) @ (case ba_allowance response of None \<Rightarrow> [] | Some raw \<Rightarrow> [raw])"

definition collateral_allowance_from_response :: "ext \<Rightarrow> balance_response \<Rightarrow> strict_collateral_error + decimal" where
  "collateral_allowance_from_response X response =
     try_then (collect_allowances X (reported_allowances response)) (\<lambda>amounts. case amounts of
       [] \<Rightarrow> Inl MissingAllowance
     | q # qs \<Rightarrow> Inr (foldl min q qs))"

definition adapter_collateral_allowance_strict :: "ext \<Rightarrow> clob_reads \<Rightarrow> strict_collateral_error + decimal" where
  "adapter_collateral_allowance_strict X C =
     try_then (map_err CollateralQuery (sdk_balance_allowance C Collateral)) (collateral_allowance_from_response X)"

text \<open>The reader the engine works with: errors are their texts.\<close>

definition adapter_balances :: "ext \<Rightarrow> clob_reads \<Rightarrow> balance_reader" where
  "adapter_balances X C =
     \<lparr>position_for_token_strict = (\<lambda>token.
        if \<not> outcome_token_id_ok X token then Inl (''invalid Polymarket outcome token ID: '' @ token)
        else map_err strict_position_error_text (adapter_position_for_token_strict X C (the (parse_digits token)))),
      collateral_balance_strict = map_err strict_collateral_error_text (adapter_collateral_balance_strict X C),
      collateral_allowance_strict = map_err strict_collateral_error_text (adapter_collateral_allowance_strict X C)\<rparr>"

section \<open>The cache of a tick\<close>

record collateral_cache =
  tc_balance :: "decimal option"
  tc_allowance :: "decimal option"

definition tick_collateral_cache_new :: collateral_cache where
  "tick_collateral_cache_new = \<lparr>tc_balance = None, tc_allowance = None\<rparr>"

definition cached_balance :: "balance_reader \<Rightarrow> (collateral_cache, string, decimal) act" where
  "cached_balance inner = (\<lambda>cache. case tc_balance cache of
       Some cached \<Rightarrow> (Inr cached, cache)
     | None \<Rightarrow> (case collateral_balance_strict inner of
           Inl e \<Rightarrow> (Inl e, cache)
         | Inr v \<Rightarrow> (Inr v, cache\<lparr>tc_balance := Some v\<rparr>)))"

definition cached_allowance :: "balance_reader \<Rightarrow> (collateral_cache, string, decimal) act" where
  "cached_allowance inner = (\<lambda>cache. case tc_allowance cache of
       Some cached \<Rightarrow> (Inr cached, cache)
     | None \<Rightarrow> (case collateral_allowance_strict inner of
           Inl e \<Rightarrow> (Inl e, cache)
         | Inr v \<Rightarrow> (Inr v, cache\<lparr>tc_allowance := Some v\<rparr>)))"

definition cached_position :: "balance_reader \<Rightarrow> string \<Rightarrow> (collateral_cache, string, decimal) act" where
  "cached_position inner token = (\<lambda>cache. (position_for_token_strict inner token, cache))"

section \<open>Credentials\<close>

datatype copy_adapter_error =
    MissingPrivateKey
  | EmptySystemdCredentialsDirectory
  | SystemdCredentialRead string string
  | InvalidSystemdCredentialEntry nat
  | UnexpectedSystemdCredentialName nat string
  | DuplicateSystemdCredentialName nat string
  | InvalidPrivateKey
  | InvalidApiKey
  | InvalidFunderAddress
  | UnexpectedFunder
  | MissingFunder
  | InvalidSignatureType
  | IncompleteL2Credentials
  | InvalidL2Nonce
  | NonceWithExistingCredentials
  | ClientInitialization string
  | CredentialDerivation string
  | Authentication string

definition copy_adapter_error_text :: "copy_adapter_error \<Rightarrow> string" where
  "copy_adapter_error_text e = (case e of
       MissingPrivateKey \<Rightarrow> ''missing POLYCOPY_CLOB_PRIVATE_KEY''
     | EmptySystemdCredentialsDirectory \<Rightarrow> ''CREDENTIALS_DIRECTORY is set but empty; copy-engine secret credential cannot be read''
     | SystemdCredentialRead path source \<Rightarrow> ''unable to read systemd copy-engine secret credential at '' @ path @ '': '' @ source
     | InvalidSystemdCredentialEntry line \<Rightarrow> ''systemd copy-engine secret credential line '' @ show_nat line @ '' must use NAME=VALUE''
     | UnexpectedSystemdCredentialName line name \<Rightarrow>
         ''systemd copy-engine secret credential line '' @ show_nat line @ '' has unsupported name '' @ name
     | DuplicateSystemdCredentialName line name \<Rightarrow> ''systemd copy-engine secret credential line '' @ show_nat line @ '' repeats '' @ name
     | InvalidPrivateKey \<Rightarrow> ''invalid CLOB signing key''
     | InvalidApiKey \<Rightarrow> ''invalid CLOB L2 API key UUID''
     | InvalidFunderAddress \<Rightarrow> ''invalid CLOB funder address''
     | UnexpectedFunder \<Rightarrow> ''EOA mode must not set a funder''
     | MissingFunder \<Rightarrow> ''non-EOA mode requires a funder''
     | InvalidSignatureType \<Rightarrow> ''CLOB signature type must be eoa, proxy, gnosis_safe, or poly1271''
     | IncompleteL2Credentials \<Rightarrow> ''supply all three L2 credential variables or none to derive an existing credential''
     | InvalidL2Nonce \<Rightarrow> ''invalid L2 credential derivation nonce''
     | NonceWithExistingCredentials \<Rightarrow> ''L2 credential nonce is only valid when deriving credentials''
     | ClientInitialization source \<Rightarrow> ''unable to initialize the CLOB client: '' @ source
     | CredentialDerivation source \<Rightarrow> ''unable to derive an existing CLOB L2 API credential: '' @ source
     | Authentication source \<Rightarrow> ''unable to construct an authenticated CLOB client: '' @ source)"

definition secret_environment_name :: "string \<Rightarrow> string option" where
  "secret_environment_name name =
     (if name \<in> {''POLYCOPY_CLOB_PRIVATE_KEY'', ''POLYCOPY_CLOB_L2_API_KEY'', ''POLYCOPY_CLOB_L2_API_SECRET'',
        ''POLYCOPY_CLOB_L2_API_PASSPHRASE'', ''POLYCOPY_CLOB_L2_NONCE''} then Some name else None)"

text \<open>\<open>str::lines\<close> and \<open>split_once\<close>\<close>

definition strip_cr :: "string \<Rightarrow> string" where
  "strip_cr line = (if line \<noteq> [] \<and> last line = CHR 0x0D then butlast line else line)"

definition str_lines :: "string \<Rightarrow> string list" where
  "str_lines s = (let parts = split_on (CHR 0x0A) s in map strip_cr (butlast parts) @ (if last parts = [] then [] else [last parts]))"

definition split_once :: "char \<Rightarrow> string \<Rightarrow> (string \<times> string) option" where
  "split_once c s = (if c \<in> set s then Some (takeWhile (\<lambda>x. x \<noteq> c) s, tl (dropWhile (\<lambda>x. x \<noteq> c) s)) else None)"

fun parse_credential_lines :: "nat \<Rightarrow> string list \<Rightarrow> (string \<rightharpoonup> string) \<Rightarrow> copy_adapter_error + (string \<rightharpoonup> string)" where
  "parse_credential_lines line [] values = Inr values"
| "parse_credential_lines line (raw_line # lines) values =
     (let trimmed = trim raw_line in
      if trimmed = [] \<or> hd trimmed = CHR ''#'' then parse_credential_lines (line + 1) lines values
      else case split_once (CHR ''='') raw_line of
        None \<Rightarrow> Inl (InvalidSystemdCredentialEntry line)
      | Some (raw_name, raw_value) \<Rightarrow>
          (case secret_environment_name (trim raw_name) of
             None \<Rightarrow> Inl (UnexpectedSystemdCredentialName line (trim raw_name))
           | Some name \<Rightarrow>
               if values name \<noteq> None then Inl (DuplicateSystemdCredentialName line name)
               else parse_credential_lines (line + 1) lines (values(name \<mapsto> raw_value))))"

definition parse_systemd_secret_credential :: "string \<Rightarrow> copy_adapter_error + (string \<rightharpoonup> string)" where
  "parse_systemd_secret_credential contents = parse_credential_lines 1 (str_lines contents) Map.empty"

text \<open>\<open>PathBuf::join\<close>, and reading a file.\<close>

definition join_path :: "string \<Rightarrow> string \<Rightarrow> string" where
  "join_path dir name = (if last dir = CHR ''/'' then dir @ name else dir @ ''/'' @ name)"

type_synonym files = "string \<Rightarrow> string + string"

definition load_systemd_secret_credential ::
  "(string \<rightharpoonup> string) \<Rightarrow> files \<Rightarrow> copy_adapter_error + (string \<rightharpoonup> string) option" where
  "load_systemd_secret_credential env read_file = (case env ''CREDENTIALS_DIRECTORY'' of
       None \<Rightarrow> Inr None
     | Some directory \<Rightarrow>
         if directory = [] then Inl EmptySystemdCredentialsDirectory else
         let path = join_path directory ''polycopy-copy-secrets'' in
         try_then (map_err (SystemdCredentialRead path) (read_file path)) (\<lambda>contents.
         try_then (parse_systemd_secret_credential contents) (\<lambda>values. Inr (Some values))))"

definition adapter_lookup :: "(string \<rightharpoonup> string) option \<Rightarrow> (string \<rightharpoonup> string) \<Rightarrow> (string \<rightharpoonup> string)" where
  "adapter_lookup systemd_secrets env name = (case systemd_secrets of
       Some secrets \<Rightarrow> if secret_environment_name name \<noteq> None then secrets name else env name
     | None \<Rightarrow> env name)"

definition optional_value :: "(string \<rightharpoonup> string) \<Rightarrow> string \<Rightarrow> string option" where
  "optional_value lookup name = (case lookup name of
       Some v \<Rightarrow> if trim v \<noteq> [] then Some v else None
     | None \<Rightarrow> None)"

definition required_value :: "(string \<rightharpoonup> string) \<Rightarrow> string \<Rightarrow> copy_adapter_error + string" where
  "required_value lookup name = ok_or MissingPrivateKey (optional_value lookup name)"

definition parse_u32 :: "string \<Rightarrow> nat option" where
  "parse_u32 raw = (case parse_u64 raw of Some n \<Rightarrow> if n < 2 ^ 32 then Some n else None | None \<Rightarrow> None)"

datatype credential_source = Existing string string string | Derive "nat option"

definition credential_source_from_lookup :: "(string \<rightharpoonup> string) \<Rightarrow> copy_adapter_error + credential_source" where
  "credential_source_from_lookup lookup =
     (let api_key = optional_value lookup ''POLYCOPY_CLOB_L2_API_KEY'';
          api_secret = optional_value lookup ''POLYCOPY_CLOB_L2_API_SECRET'';
          api_passphrase = optional_value lookup ''POLYCOPY_CLOB_L2_API_PASSPHRASE'';
          supplied = length (filter (\<lambda>flag. flag) [api_key \<noteq> None, api_secret \<noteq> None, api_passphrase \<noteq> None])
      in try_then (case optional_value lookup ''POLYCOPY_CLOB_L2_NONCE'' of
             None \<Rightarrow> Inr None
           | Some raw \<Rightarrow> (case parse_u32 raw of None \<Rightarrow> Inl InvalidL2Nonce | Some n \<Rightarrow> Inr (Some n))) (\<lambda>nonce.
         if supplied = 0 then Inr (Derive nonce)
         else if supplied = 3 then
           (if nonce = None then Inr (Existing (the api_key) (the api_secret) (the api_passphrase)) else Inl NonceWithExistingCredentials)
         else Inl IncompleteL2Credentials))"

datatype signature_type = SigEoa | SigProxy | SigGnosisSafe | SigPoly1271

definition clob_signature_type_of_text :: "string \<Rightarrow> signature_type option" where
  "clob_signature_type_of_text raw = (let text = to_ascii_lowercase (trim raw) in
     if text = ''eoa'' then Some SigEoa
     else if text = ''proxy'' then Some SigProxy
     else if text = ''gnosis_safe'' then Some SigGnosisSafe
     else if text = ''poly1271'' then Some SigPoly1271
     else None)"

text \<open>The SDK's part: keys, addresses, the client, and authentication.\<close>

record ('signer, 'creds, 'client) clob_login =
  lo_signer :: "string \<Rightarrow> 'signer option"
  lo_client_error :: "string option"
  lo_existing :: "string \<Rightarrow> string \<Rightarrow> string \<Rightarrow> 'creds option"
  lo_derive :: "'signer \<Rightarrow> nat option \<Rightarrow> string + 'creds"
  lo_address :: "string \<Rightarrow> nat option"
  lo_authenticate :: "'signer \<Rightarrow> 'creds \<Rightarrow> signature_type \<Rightarrow> nat option \<Rightarrow> string + 'client"

record ('signer, 'client) copy_adapter =
  ad_client :: 'client
  ad_signer :: 'signer
  ad_signature_type :: signature_type
  ad_funder :: "nat option"

definition check_funder :: "signature_type \<Rightarrow> nat option \<Rightarrow> copy_adapter_error option" where
  "check_funder signature_type funder =
     (if signature_type = SigEoa then (if funder \<noteq> None then Some UnexpectedFunder else None)
      else case funder of None \<Rightarrow> Some MissingFunder | Some addr \<Rightarrow> if addr = 0 then Some InvalidFunderAddress else None)"

definition adapter_credentials :: "('signer, 'creds, 'client) clob_login \<Rightarrow> 'signer \<Rightarrow> credential_source \<Rightarrow> copy_adapter_error + 'creds" where
  "adapter_credentials L signer source = (case source of
       Existing api_key api_secret api_passphrase \<Rightarrow> ok_or InvalidApiKey (lo_existing L api_key api_secret api_passphrase)
     | Derive nonce \<Rightarrow> map_err CredentialDerivation (lo_derive L signer nonce))"

definition adapter_from_env ::
  "('signer, 'creds, 'client) clob_login \<Rightarrow> files \<Rightarrow> (string \<rightharpoonup> string) \<Rightarrow> copy_adapter_error + ('signer, 'client) copy_adapter" where
  "adapter_from_env L read_file env =
     try_then (load_systemd_secret_credential env read_file) (\<lambda>systemd_secrets.
     let lookup = adapter_lookup systemd_secrets env in
     try_then (required_value lookup ''POLYCOPY_CLOB_PRIVATE_KEY'') (\<lambda>private_key.
     try_then (ok_or InvalidPrivateKey (lo_signer L private_key)) (\<lambda>signer.
     try_then (case lo_client_error L of Some e \<Rightarrow> Inl (ClientInitialization e) | None \<Rightarrow> Inr ()) (\<lambda>_.
     try_then (credential_source_from_lookup lookup) (\<lambda>source.
     try_then (adapter_credentials L signer source) (\<lambda>credentials.
     try_then (case optional_value lookup ''POLYCOPY_CLOB_SIGNATURE_TYPE'' of
         Some raw \<Rightarrow> ok_or InvalidSignatureType (clob_signature_type_of_text raw) | None \<Rightarrow> Inr SigEoa) (\<lambda>signature_type.
     try_then (case optional_value lookup ''POLYCOPY_CLOB_FUNDER'' of
         Some raw \<Rightarrow> (case lo_address L (trim raw) of Some a \<Rightarrow> Inr (Some a) | None \<Rightarrow> Inl InvalidFunderAddress)
       | None \<Rightarrow> Inr None) (\<lambda>funder.
     try_then (case check_funder signature_type funder of Some e \<Rightarrow> Inl e | None \<Rightarrow> Inr ()) (\<lambda>_.
     try_then (map_err Authentication (lo_authenticate L signer credentials signature_type funder)) (\<lambda>client.
     Inr \<lparr>ad_client = client, ad_signer = signer, ad_signature_type = signature_type, ad_funder = funder\<rparr>))))))))))"

text \<open>What the runner and the operator's tool see of a failed construction.\<close>

definition adapter_error :: "('signer, 'creds, 'client) clob_login \<Rightarrow> files \<Rightarrow> (string \<rightharpoonup> string) \<Rightarrow> string option" where
  "adapter_error L read_file env = (case adapter_from_env L read_file env of Inl e \<Rightarrow> Some (copy_adapter_error_text e) | Inr _ \<Rightarrow> None)"

section \<open>The page loop\<close>

text \<open>The pages of a query, from the first call to the terminal cursor; and a query that fails after some pages.\<close>

fun page_chain :: "(nat \<Rightarrow> string option \<Rightarrow> 'e + 'a page) \<Rightarrow> nat \<Rightarrow> string option \<Rightarrow> 'a page list \<Rightarrow> bool" where
  "page_chain call n cursor [] \<longleftrightarrow> False"
| "page_chain call n cursor (p # ps) \<longleftrightarrow> call n cursor = Inr p \<and>
     (if pg_next_cursor p = terminal_cursor then ps = [] else page_chain call (n + 1) (Some (pg_next_cursor p)) ps)"

fun page_failure :: "(nat \<Rightarrow> string option \<Rightarrow> 'e + 'a page) \<Rightarrow> nat \<Rightarrow> string option \<Rightarrow> 'a page list \<Rightarrow> 'e \<Rightarrow> bool" where
  "page_failure call n cursor [] e \<longleftrightarrow> call n cursor = Inl e"
| "page_failure call n cursor (p # ps) e \<longleftrightarrow> call n cursor = Inr p \<and> pg_next_cursor p \<noteq> terminal_cursor \<and>
     page_failure call (n + 1) (Some (pg_next_cursor p)) ps e"

lemma stream_chain: "page_chain call n cursor pages \<Longrightarrow> stream_data call n cursor acc = Some (Inr (acc @ concat (map pg_data pages)))"
  by (induction pages arbitrary: n cursor acc) (auto simp: stream_data.simps [of call] split: if_splits)

lemma stream_failure: "page_failure call n cursor pages e \<Longrightarrow> stream_data call n cursor acc = Some (Inl e)"
  by (induction pages arbitrary: n cursor acc) (auto simp: stream_data.simps [of call])

lemma stream_returns:
  assumes "stream_data call n cursor acc = Some r"
  shows "(\<exists>pages. page_chain call n cursor pages) \<or> (\<exists>pages e. page_failure call n cursor pages e)"
proof (rule stream_data.raw_induct [OF _ assms, of "\<lambda>call n cursor acc r. (\<exists>pages. page_chain call n cursor pages) \<or> (\<exists>pages e. page_failure call n cursor pages e)"])
  fix f :: "(nat \<Rightarrow> string option \<Rightarrow> 'a + 'b page) \<Rightarrow> nat \<Rightarrow> string option \<Rightarrow> 'b list \<Rightarrow> ('a + 'b list) option"
    and call :: "nat \<Rightarrow> string option \<Rightarrow> 'a + 'b page" and n cursor acc r
  assume IH: "\<And>call n cursor acc r. f call n cursor acc = Some r \<Longrightarrow>
      (\<exists>pages. page_chain call n cursor pages) \<or> (\<exists>pages e. page_failure call n cursor pages e)"
    and r: "(case call n cursor of Inl e \<Rightarrow> Some (Inl e)
       | Inr page \<Rightarrow> if pg_next_cursor page = terminal_cursor then Some (Inr (acc @ pg_data page))
         else f call (n + 1) (Some (pg_next_cursor page)) (acc @ pg_data page)) = Some r"
  show "(\<exists>pages. page_chain call n cursor pages) \<or> (\<exists>pages e. page_failure call n cursor pages e)"
  proof (cases "call n cursor")
    case (Inl e)
    then have "page_failure call n cursor [] e" by simp
    then show ?thesis by blast
  next
    case (Inr p)
    show ?thesis
    proof (cases "pg_next_cursor p = terminal_cursor")
      case True
      with Inr have "page_chain call n cursor [p]" by simp
      then show ?thesis by blast
    next
      case False
      with Inr r IH [of call "n + 1" "Some (pg_next_cursor p)" "acc @ pg_data p" r]
      consider pages where "page_chain call (n + 1) (Some (pg_next_cursor p)) pages"
        | pages e where "page_failure call (n + 1) (Some (pg_next_cursor p)) pages e" by auto
      then show ?thesis
      proof cases
        case 1
        with Inr False have "page_chain call n cursor (p # pages)" by simp
        then show ?thesis by blast
      next
        case (2 pages e)
        with Inr False have "page_failure call n cursor (p # pages) e" by simp
        then show ?thesis by blast
      qed
    qed
  qed
qed

lemma stream_exact:
  "stream_data call n cursor acc = Some (Inr items) \<longleftrightarrow> (\<exists>pages. page_chain call n cursor pages \<and> items = acc @ concat (map pg_data pages))"
  "stream_data call n cursor acc = Some (Inl e) \<longleftrightarrow> (\<exists>pages. page_failure call n cursor pages e)"
  using stream_returns [of call n cursor acc] stream_chain [of call n cursor] stream_failure [of call n cursor] by fastforce+

definition history_query :: "nat option \<Rightarrow> timestamp \<Rightarrow> timestamp \<Rightarrow> trades_request" where
  "history_query asset after before = \<lparr>rq_asset_id = asset, rq_before = unix_seconds before, rq_after = unix_seconds after\<rparr>"

lemma strict_trades_exact:
  "strict_trades C asset token after before = Some (Inr trades) \<longleftrightarrow> after \<le> before \<and>
     (\<exists>pages. page_chain (sdk_trades C (history_query asset after before)) 0 None pages \<and>
        trades = map account_trade_of (concat (map pg_data pages)))"
  "strict_trades C asset token after before = Some (Inl e) \<longleftrightarrow>
     (if after > before then e = StrictInvalidWindow
      else \<exists>pages source. page_failure (sdk_trades C (history_query asset after before)) 0 None pages source \<and> e = StrictQuery token source)"
proof -
  let ?call = "sdk_trades C (history_query asset after before)"
  have s: "strict_trades C asset token after before = (if after > before then Some (Inl StrictInvalidWindow) else
      map_option (\<lambda>r. case r of Inl source \<Rightarrow> Inl (StrictQuery token source) | Inr trades \<Rightarrow> Inr (map account_trade_of trades)) (stream_data ?call 0 None []))"
    by (simp add: strict_trades_def history_query_def)
  have m: "map_option (\<lambda>r. case r of Inl source \<Rightarrow> Inl (StrictQuery token source) | Inr trades \<Rightarrow> Inr (map account_trade_of trades)) x = Some (Inr trades)
      \<longleftrightarrow> (\<exists>ts. x = Some (Inr ts) \<and> trades = map account_trade_of ts)"
    "map_option (\<lambda>r. case r of Inl source \<Rightarrow> Inl (StrictQuery token source) | Inr trades \<Rightarrow> Inr (map account_trade_of trades)) x = Some (Inl e)
      \<longleftrightarrow> (\<exists>source. x = Some (Inl source) \<and> e = StrictQuery token source)" for x :: "(string + trade_response list) option"
    by (cases x; auto split: sum.splits)+
  show "strict_trades C asset token after before = Some (Inr trades) \<longleftrightarrow> after \<le> before \<and>
     (\<exists>pages. page_chain ?call 0 None pages \<and> trades = map account_trade_of (concat (map pg_data pages)))"
    unfolding s by (cases "before < after"; simp only: if_True if_False m stream_exact append_Nil; auto)
  show "strict_trades C asset token after before = Some (Inl e) \<longleftrightarrow>
     (if after > before then e = StrictInvalidWindow
      else \<exists>pages source. page_failure ?call 0 None pages source \<and> e = StrictQuery token source)"
    unfolding s by (cases "before < after"; simp only: if_True if_False m stream_exact append_Nil; auto)
qed

text \<open>
  C25. A trade history is whole or it is an error.  The two history reads of the adapter return a list exactly when the window is
  ordered and the venue served every page from the first call to the terminal cursor, and the list is then all trades of
  all those pages in order; a page that fails, however many were read before it, makes the read that failure, and never a shorter
  history; so an empty history means that the venue listed nothing.
\<close>

theorem history_read_whole_or_error:
  "(adapter_trades_for_token_between C token after before = Some (Inr trades) \<longleftrightarrow> after \<le> before \<and>
      (\<exists>pages. page_chain (sdk_trades C (history_query (Some token) after before)) 0 None pages \<and>
         trades = map account_trade_of (concat (map pg_data pages)))) \<and>
   (adapter_trades_between_unfiltered C token after before = Some (Inr trades) \<longleftrightarrow> after \<le> before \<and>
      (\<exists>pages. page_chain (sdk_trades C (history_query None after before)) 0 None pages \<and>
         trades = map account_trade_of (concat (map pg_data pages)))) \<and>
   (adapter_trades_for_token_between C token after before = Some (Inl e) \<longleftrightarrow>
      (if after > before then e = StrictInvalidWindow
       else \<exists>pages source. page_failure (sdk_trades C (history_query (Some token) after before)) 0 None pages source \<and> e = StrictQuery token source)) \<and>
   (adapter_trades_between_unfiltered C token after before = Some (Inl e) \<longleftrightarrow>
      (if after > before then e = StrictInvalidWindow
       else \<exists>pages source. page_failure (sdk_trades C (history_query None after before)) 0 None pages source \<and> e = StrictQuery token source))"
  unfolding adapter_trades_for_token_between_def adapter_trades_between_unfiltered_def by (intro conjI strict_trades_exact)

section \<open>Allowances\<close>

lemma collect_exact:
  "collect_allowances X raws = Inr qs \<longleftrightarrow> map (allowance_amount X) raws = map Inr qs"
  by (induction raws arbitrary: qs) (auto simp: try_then_ok Cons_eq_map_conv split: sum.splits)

lemma collect_error:
  "collect_allowances X raws = Inl e \<Longrightarrow> \<exists>raw \<in> set raws. allowance_amount X raw = Inl e"
  by (induction raws) (auto simp: try_then_def split: sum.splits)

lemma foldl_min: "foldl min (q :: decimal) qs \<in> set (q # qs) \<and> (\<forall>x \<in> set (q # qs). foldl min q qs \<le> x)"
proof (induction qs arbitrary: q)
  case (Cons a qs)
  from Cons.IH [of "min q a"] show ?case by (auto simp: min_def split: if_splits)
qed simp

text \<open>
  C26. The allowance the engine sizes against is the least one reported.  It is the amount of one of the exchange
  allowances of the response, whether they come as a map or as a single value and in whatever order, and no larger than any of them;
  an allowance that is not a number makes the read an error, and so does a response without any allowance.
\<close>

theorem allowance_is_least_reported:
  "(collateral_allowance_from_response X response = Inr q \<longrightarrow>
      (\<exists>raw \<in> set (reported_allowances response). allowance_amount X raw = Inr q) \<and>
      (\<forall>raw \<in> set (reported_allowances response). \<exists>amount. allowance_amount X raw = Inr amount \<and> q \<le> amount)) \<and>
   ((\<forall>raw \<in> set (reported_allowances response). \<exists>amount. allowance_amount X raw = Inr amount) \<and> reported_allowances response \<noteq> [] \<longrightarrow>
      (\<exists>q. collateral_allowance_from_response X response = Inr q)) \<and>
   (reported_allowances response = [] \<longrightarrow> collateral_allowance_from_response X response = Inl MissingAllowance)"
proof (intro conjI impI)
  let ?raws = "reported_allowances response"
  assume "collateral_allowance_from_response X response = Inr q"
  then obtain amounts where "collect_allowances X ?raws = Inr amounts" "(case amounts of [] \<Rightarrow> Inl MissingAllowance | q # qs \<Rightarrow> Inr (foldl min q qs)) = Inr q"
    unfolding collateral_allowance_from_response_def try_then_ok by (elim exE conjE) (rule that; assumption)
  then obtain a qs where c: "map (allowance_amount X) ?raws = map Inr (a # qs)" and q: "q = foldl min a qs"
    by (cases amounts) (auto simp: collect_exact)
  have im: "allowance_amount X ` set ?raws = Inr ` set (a # qs)" using c by (metis list.set_map)
  have "Inr q \<in> allowance_amount X ` set ?raws" unfolding im q using foldl_min [of a qs] by blast
  then show "\<exists>raw \<in> set ?raws. allowance_amount X raw = Inr q" by (metis imageE)
  show "\<forall>raw \<in> set ?raws. \<exists>amount. allowance_amount X raw = Inr amount \<and> q \<le> amount"
  proof
    fix raw assume "raw \<in> set ?raws"
    then have "allowance_amount X raw \<in> Inr ` set (a # qs)" unfolding im [symmetric] by (rule imageI)
    then show "\<exists>amount. allowance_amount X raw = Inr amount \<and> q \<le> amount" using foldl_min [of a qs] unfolding q by blast
  qed
next
  let ?raws = "reported_allowances response"
  assume a: "(\<forall>raw \<in> set ?raws. \<exists>amount. allowance_amount X raw = Inr amount) \<and> ?raws \<noteq> []"
  show "\<exists>q. collateral_allowance_from_response X response = Inr q"
  proof (cases "collect_allowances X ?raws")
    case (Inl e)
    with collect_error [OF Inl] a show ?thesis by fastforce
  next
    case (Inr qs)
    with a have "qs \<noteq> []" by (auto simp: collect_exact)
    with Inr show ?thesis by (cases qs) (simp_all add: collateral_allowance_from_response_def try_then_def)
  qed
qed (simp add: collateral_allowance_from_response_def try_then_def)

theorem allowance_is_least_reported_witness:
  "collateral_allowance_from_response ext0 \<lparr>ba_balance = 0, ba_allowance = Some unlimited_allowance_atomic,
      ba_allowances = [(''0x1'', show_dec0 2000000), (''0x2'', show_dec0 5000000)]\<rparr> = Inr 2 \<and>
   2 \<le> decimal_max"
proof -
  let ?r = "\<lparr>ba_balance = 0, ba_allowance = Some unlimited_allowance_atomic,
      ba_allowances = [(''0x1'', show_dec0 2000000), (''0x2'', show_dec0 5000000)]\<rparr>"
  have n: "show_dec0 q \<noteq> unlimited_allowance_atomic" for q
    by (simp add: show_dec0_def unlimited_allowance_atomic_def split: prod.split)
  have c: "collateral_allowance_from_response ext0 ?r = Inr 2"
    by (simp add: collateral_allowance_from_response_def reported_allowances_def try_then_def allowance_amount_def n
        from_clob_atomic_units_def clob_balance_atomic_scale_def decimal_max_def)
  have "unlimited_allowance_atomic \<in> set (reported_allowances ?r)" by (simp add: reported_allowances_def)
  with allowance_is_least_reported [of ext0 ?r 2] c have "\<exists>amount. allowance_amount ext0 unlimited_allowance_atomic = Inr amount \<and> 2 \<le> amount" by blast
  with c show ?thesis by (simp add: allowance_amount_def)
qed

section \<open>The cache of a tick\<close>

text \<open>Within a tick every successful read of the collateral is the first one; an error is not remembered.\<close>

lemma cached_balance_kept:
  assumes "cached_balance inner cache = (r, cache')"
  shows "(\<forall>v. tc_balance cache = Some v \<longrightarrow> r = Inr v \<and> cache' = cache) \<and> (\<forall>v. r = Inr v \<longrightarrow> tc_balance cache' = Some v) \<and>
    (\<forall>e. r = Inl e \<longrightarrow> collateral_balance_strict inner = Inl e \<and> cache' = cache) \<and> tc_allowance cache' = tc_allowance cache"
  using assms by (auto simp: cached_balance_def split: option.splits sum.splits)

lemma cached_allowance_kept:
  assumes "cached_allowance inner cache = (r, cache')"
  shows "(\<forall>v. tc_allowance cache = Some v \<longrightarrow> r = Inr v \<and> cache' = cache) \<and> (\<forall>v. r = Inr v \<longrightarrow> tc_allowance cache' = Some v) \<and>
    (\<forall>e. r = Inl e \<longrightarrow> collateral_allowance_strict inner = Inl e \<and> cache' = cache) \<and> tc_balance cache' = tc_balance cache"
  using assms by (auto simp: cached_allowance_def split: option.splits sum.splits)

section \<open>Where secrets come from\<close>

lemma secret_name: "secret_environment_name n = Some m \<Longrightarrow> m = n"
  unfolding secret_environment_name_def by (simp only: split: if_split_asm) simp_all

lemma credential_lines:
  "parse_credential_lines n lines vals = Inr vals' \<Longrightarrow> vals' name = Some v \<Longrightarrow>
   vals name = Some v \<or> (\<exists>line \<in> set lines. \<exists>raw. split_once (CHR ''='') line = Some (raw, v) \<and> trim raw = name)"
proof (induction n lines vals rule: parse_credential_lines.induct)
  case (2 n raw_line lines vals)
  show ?case
  proof (cases "trim raw_line = [] \<or> hd (trim raw_line) = CHR ''#''")
    case True
    with "2.prems" "2.IH"(1) [OF refl True] show ?thesis by (auto simp: Let_def)
  next
    case False
    from "2.prems"(1) False obtain raw val name' where s: "split_once (CHR ''='') raw_line = Some (raw, val)"
      and k: "secret_environment_name (trim raw) = Some name'" "\<not> vals name' \<noteq> None"
      and p: "parse_credential_lines (n + 1) lines (vals(name' \<mapsto> val)) = Inr vals'"
      by (auto simp: Let_def split: option.splits if_splits prod.splits)
    have n: "name' = trim raw" by (rule secret_name [OF k(1)])
    from "2.IH"(2) [OF refl False s refl k(1,2) p "2.prems"(2)]
    have "(vals(trim raw \<mapsto> val)) name = Some v \<or> (\<exists>line \<in> set lines. \<exists>raw. split_once (CHR ''='') line = Some (raw, v) \<and> trim raw = name)"
      unfolding n .
    with s show ?thesis by (cases "name = trim raw") auto
  qed
qed simp

lemma load_credential:
  assumes "env ''CREDENTIALS_DIRECTORY'' = Some dir" "load_systemd_secret_credential env read_file = Inr secrets"
  obtains contents vals where "dir \<noteq> []" "read_file (join_path dir ''polycopy-copy-secrets'') = Inr contents"
    "parse_systemd_secret_credential contents = Inr vals" "secrets = Some vals"
  using assms by (auto simp: load_systemd_secret_credential_def Let_def try_then_ok map_err_def split: if_splits sum.splits)

lemma lookup_agrees:
  assumes "\<forall>name. secret_environment_name name = None \<longrightarrow> env' name = env name"
  shows "adapter_lookup (Some vals) env' = adapter_lookup (Some vals) env"
  using assms by (auto simp: adapter_lookup_def fun_eq_iff)

lemma required_private_key:
  "required_value lookup name = Inr key \<Longrightarrow> lookup name = Some key \<and> trim key \<noteq> []"
  by (auto simp: required_value_def optional_value_def ok_or_def split: option.splits if_splits)

text \<open>
  C27. A service reads its secrets from its own credential file and nowhere else.  Under systemd the adapter that is built, or the
  error, does not depend on the secret variables of the environment: two environments that agree on everything else give the same
  result.  An adapter that is built signs with the key a line of the credential file names, and its wallet is consistent:
  a plain account has no funder, every other signature type has one that is not the zero address.
\<close>

theorem secrets_only_from_credential_file:
  assumes dir: "env ''CREDENTIALS_DIRECTORY'' = Some dir"
    and agree: "\<forall>name. secret_environment_name name = None \<longrightarrow> env' name = env name"
  shows "adapter_from_env L read_file env' = adapter_from_env L read_file env \<and>
    (\<forall>a. adapter_from_env L read_file env = Inr a \<longrightarrow>
      (\<exists>contents line raw key. read_file (join_path dir ''polycopy-copy-secrets'') = Inr contents \<and> line \<in> set (str_lines contents) \<and>
         split_once (CHR ''='') line = Some (raw, key) \<and> trim raw = ''POLYCOPY_CLOB_PRIVATE_KEY'' \<and> trim key \<noteq> [] \<and>
         lo_signer L key = Some (ad_signer a)) \<and>
      (if ad_signature_type a = SigEoa then ad_funder a = None else \<exists>f. ad_funder a = Some f \<and> f \<noteq> 0))"
proof (intro conjI allI impI)
  have "secret_environment_name ''CREDENTIALS_DIRECTORY'' = None" by (simp add: secret_environment_name_def)
  with agree have load: "load_systemd_secret_credential env' read_file = load_systemd_secret_credential env read_file"
    by (simp add: load_systemd_secret_credential_def)
  show "adapter_from_env L read_file env' = adapter_from_env L read_file env"
  proof (cases "load_systemd_secret_credential env read_file")
    case (Inl e)
    then show ?thesis unfolding adapter_from_env_def load by (simp add: try_then_def)
  next
    case (Inr secrets)
    from load_credential [OF dir Inr] obtain vals where "secrets = Some vals" by blast
    with lookup_agrees [OF agree] Inr show ?thesis unfolding adapter_from_env_def load by (simp add: try_then_def)
  qed
next
  fix a assume "adapter_from_env L read_file env = Inr a"
  then obtain secrets key signer st funder where l: "load_systemd_secret_credential env read_file = Inr secrets"
    and k: "required_value (adapter_lookup secrets env) ''POLYCOPY_CLOB_PRIVATE_KEY'' = Inr key" "ok_or InvalidPrivateKey (lo_signer L key) = Inr signer"
    and f: "(case check_funder st funder of Some e \<Rightarrow> Inl e | None \<Rightarrow> Inr ()) = Inr ()"
    and a: "ad_signer a = signer" "ad_signature_type a = st" "ad_funder a = funder"
    unfolding adapter_from_env_def Let_def try_then_ok by (elim exE conjE) (rule that, assumption, assumption, assumption, simp, auto)
  from load_credential [OF dir l] obtain contents vals where c: "read_file (join_path dir ''polycopy-copy-secrets'') = Inr contents"
    and v: "parse_systemd_secret_credential contents = Inr vals" and s: "secrets = Some vals" by blast
  from required_private_key [OF k(1)] have key: "vals ''POLYCOPY_CLOB_PRIVATE_KEY'' = Some key" "trim key \<noteq> []"
    by (simp_all add: s adapter_lookup_def secret_environment_name_def)
  from credential_lines [OF v [unfolded parse_systemd_secret_credential_def] key(1)]
  obtain line raw where "line \<in> set (str_lines contents)" "split_once (CHR ''='') line = Some (raw, key)" "trim raw = ''POLYCOPY_CLOB_PRIVATE_KEY''"
    by auto
  moreover have "lo_signer L key = Some (ad_signer a)" using k(2) a(1) by (simp add: ok_or_def split: option.splits)
  ultimately show "\<exists>contents line raw key. read_file (join_path dir ''polycopy-copy-secrets'') = Inr contents \<and> line \<in> set (str_lines contents) \<and>
         split_once (CHR ''='') line = Some (raw, key) \<and> trim raw = ''POLYCOPY_CLOB_PRIVATE_KEY'' \<and> trim key \<noteq> [] \<and>
         lo_signer L key = Some (ad_signer a)" using c key(2) by blast
  show "if ad_signature_type a = SigEoa then ad_funder a = None else \<exists>f. ad_funder a = Some f \<and> f \<noteq> 0"
    using f by (auto simp: a check_funder_def split: option.splits if_splits)
qed

definition login0 :: "(string, unit, unit) clob_login" where
  "login0 = \<lparr>lo_signer = Some, lo_client_error = None, lo_existing = (\<lambda>_ _ _. Some ()), lo_derive = (\<lambda>_ _. Inr ()), lo_address = (\<lambda>_. Some 5),
     lo_authenticate = (\<lambda>_ _ _ _. Inr ())\<rparr>"

definition secrets_file0 :: string where
  "secrets_file0 = ''# engine'' @ [CHR 0x0A] @ ''POLYCOPY_CLOB_PRIVATE_KEY=k1'' @ [CHR 0x0A]"

theorem secrets_only_from_credential_file_witness:
  "adapter_from_env login0 (\<lambda>_. Inr secrets_file0) [''CREDENTIALS_DIRECTORY'' \<mapsto> ''/run'', ''POLYCOPY_CLOB_PRIVATE_KEY'' \<mapsto> ''k2''] =
     Inr \<lparr>ad_client = (), ad_signer = ''k1'', ad_signature_type = SigEoa, ad_funder = None\<rparr>"
proof -
  let ?env = "[''CREDENTIALS_DIRECTORY'' \<mapsto> ''/run'']" and ?env' = "[''CREDENTIALS_DIRECTORY'' \<mapsto> ''/run'', ''POLYCOPY_CLOB_PRIVATE_KEY'' \<mapsto> ''k2'']"
  have lines: "str_lines secrets_file0 = [''# engine'', ''POLYCOPY_CLOB_PRIVATE_KEY=k1'']"
    by (simp add: str_lines_def secrets_file0_def strip_cr_def)
  have t: "trim ''# engine'' = ''# engine''" "trim ''POLYCOPY_CLOB_PRIVATE_KEY=k1'' = ''POLYCOPY_CLOB_PRIVATE_KEY=k1''"
    "trim ''POLYCOPY_CLOB_PRIVATE_KEY'' = ''POLYCOPY_CLOB_PRIVATE_KEY''" "trim ''k1'' = ''k1''"
    by (simp_all add: trim_def is_space_def)
  have p: "parse_systemd_secret_credential secrets_file0 = Inr [''POLYCOPY_CLOB_PRIVATE_KEY'' \<mapsto> ''k1'']"
    by (simp add: parse_systemd_secret_credential_def lines t split_once_def secret_environment_name_def)
  have l: "load_systemd_secret_credential ?env (\<lambda>_. Inr secrets_file0) = Inr (Some [''POLYCOPY_CLOB_PRIVATE_KEY'' \<mapsto> ''k1''])"
    by (simp add: load_systemd_secret_credential_def try_then_def map_err_def p)
  have "adapter_from_env login0 (\<lambda>_. Inr secrets_file0) ?env =
     Inr \<lparr>ad_client = (), ad_signer = ''k1'', ad_signature_type = SigEoa, ad_funder = None\<rparr>"
    by (simp add: adapter_from_env_def l try_then_def adapter_lookup_def secret_environment_name_def required_value_def optional_value_def t ok_or_def
        credential_source_from_lookup_def adapter_credentials_def check_funder_def map_err_def login0_def Let_def)
  moreover have "\<forall>name. secret_environment_name name = None \<longrightarrow> ?env' name = ?env name" by (simp add: secret_environment_name_def)
  ultimately show ?thesis using secrets_only_from_credential_file [of ?env "''/run''" ?env' login0 "\<lambda>_. Inr secrets_file0"] by simp
qed

end
