(* ===== verification/Spec2Isabelle.thy ===== *)
theory Spec2Isabelle
  imports Adapter
begin

text \<open>
  A verification development for the copy engine under \<open>src/\<close>: a program that watches the trades of configured leaders
  on a prediction market and copies them for one account, with the guarantee that one signal never becomes two live
  orders and that what it books is what the venue confirmed.

  \<^bold>\<open>The program and how its parts interact.\<close>  A configuration file names an account and the leaders with their wallet
  addresses and policies; \<open>setup.rs\<close> makes the database match it.  Two feeds report the leaders' fills: the realtime
  stream (\<open>ingest/activity_ws.rs\<close>) and an audit that pages through the public data interface (\<open>ingest/backfill.rs\<close>,
  \<open>ingest/runtime.rs\<close>); both funnel through \<open>ingest/apply.rs\<close>, which records each fill once as a row of
  \<open>leader_events\<close>.  \<open>plan.rs\<close> turns every realtime event past a cursor into an intent of the account, pending or rejected
  with a reason.  \<open>orchestrate/mod.rs\<close> picks intents, and for each: \<open>execute.rs\<close> claims it and computes and reserves an
  order against strict balances; \<open>reconcile.rs\<close> persists the one signed envelope of the attempt; \<open>persistent.rs\<close> reserves the
  rolling budget and marks the attempt as submitting in one transaction; the venue (\<open>venue/intl_clob_exec.rs\<close>) is called; and
  the answer is booked into the attempt, the virtual lot and the intent, or the attempt is parked as uncertain
  and later looked up (\<open>venue/trade_history_recovery.rs\<close>).  What remains unclear becomes a reconciliation case that blocks
  the account until an operator resolves it (\<open>persistent.rs\<close>) with \<open>bin/persistent_control.rs\<close>.  \<open>bin/copy_persistent.rs\<close> is the process: it takes the lock of the
  database, checks the stored configuration, starts the feeds, and in every tick plans, polls and executes; after any
  outcome it cannot explain it opens the fuse and ends.

  \<^bold>\<open>The theories.\<close>
  \<^item> \<open>Prelude\<close>: state-error actions (\<open>and_then\<close>, \<open>raise\<close>, \<open>transaction\<close>, early returns), rows and statements of a table, the
    locale \<open>table\<close> of what a table's accessors promise, the locale \<open>frame_rel\<close> of relations between the states
    before and after an action, with its interpretations \<open>ro\<close> (reads only) and \<open>keeps\<close> (keeps an invariant), and what an action
    may return or raise.
  \<^item> \<open>Schema\<close>: the tables of \<open>src/migrations\<close> as records, the database, and \<open>ext\<close>, the record of the functions of other
    packages the code relies on (decimal and time texts, JSON of policies and envelopes, hashes) with the named hypotheses
    \<open>dec_codec\<close>, \<open>time_codec\<close>, \<open>reprint_codec\<close>; the schema's tables as interpretations of \<open>table\<close>.  \<open>Sample\<close>: a concrete
    instance of both, on which the witnesses evaluate.
  \<^item> \<open>Receipt\<close>: \<open>venue/receipt.rs\<close>, \<open>venue/execution_contract.rs\<close>, \<open>venue/types.rs\<close>.  \<open>Pricing\<close>: the arithmetic of \<open>execute.rs\<close>.
  \<^item> \<open>Setup\<close>: \<open>copytrading/setup.rs\<close>.  \<open>Ingest\<close>: \<open>ingest/normalize.rs\<close>, \<open>ingest/address_resolver.rs\<close>, \<open>ingest/apply.rs\<close>.
    \<open>Feeds\<close>: \<open>ingest/activity_ws.rs\<close>, \<open>ingest/backfill.rs\<close>, \<open>ingest/runtime.rs\<close>.
  \<^item> \<open>Plan\<close>: \<open>copytrading/plan.rs\<close>.  \<open>Execute\<close> and \<open>Ledger\<close>: \<open>copytrading/execute.rs\<close> and its accounting invariant.
    \<open>Budget\<close> and \<open>Recovery\<close>: \<open>copytrading/persistent.rs\<close>.  \<open>Reconcile\<close>: \<open>copytrading/reconcile.rs\<close>.
    \<open>TradeHistory\<close> and \<open>Venue\<close>: \<open>venue/trade_history_recovery.rs\<close>, \<open>venue/intl_clob_exec.rs\<close>.
    \<open>Maker\<close>: \<open>copytrading/book_observation.rs\<close> and the maker pricing of the orchestrator.  \<open>Orchestrate\<close>:
    \<open>copytrading/orchestrate/mod.rs\<close>.  \<open>Engine\<close>: the composition.
  \<^item> \<open>Runner\<close>: \<open>bin/copy_persistent.rs\<close> and \<open>engine_lock.rs\<close>; what startup and a tick find outside are the records
    \<open>startup_input\<close> and \<open>tick_input\<close>, and the feeds act on the shared database between any two operations of a tick.
  \<^item> \<open>Json\<close>: JSON values and hexadecimal numbers.  \<open>Signing\<close>: \<open>copytrading/prepare.rs\<close>, \<open>venue/order_hash.rs\<close>,
    \<open>venue/signed_order.rs\<close>, \<open>venue/gtd_signed_identity.rs\<close>, and the types and the text of a signed order of the vendored SDK;
    the SDK's codecs, hashes and signatures are the records \<open>sdk\<close> and \<open>order_client\<close> with the hypothesis \<open>sdk_codec\<close>.
    \<open>ChainEvidence\<close>: \<open>venue/gtd_chain_evidence.rs\<close> and \<open>bin/persistent_control/gtd_chain_no_fill.rs\<close>; the network is a
    function of the number of the call, and what an honest node is are the hypotheses \<open>honest_times\<close>, \<open>honest_logs\<close> on a \<open>chain\<close>.
  \<^item> \<open>Control\<close>: \<open>bin/persistent_control.rs\<close>, one definition per command; what the process finds is the record \<open>control_input\<close>,
    what a command prints a \<open>control_report\<close>.
  \<^item> \<open>Adapter\<close>: the strict reads of \<open>venue/intl_clob.rs\<close> with the page loop of the SDK, and the construction of the adapter in
    \<open>venue/intl_clob_exec.rs\<close>; the SDK's calls are the records \<open>clob_reads\<close> and \<open>clob_login\<close>.

  \<^bold>\<open>How state and effects correspond.\<close>  A function that takes the pool is an action on the record \<open>db\<close>; each SQL statement is
  a definition on the rows of its table, a transaction is \<open>transaction\<close>, which rolls back on an error, and every \<open>?\<close>,
  \<open>return Err\<close> and early return is a branch.  \<open>INSERT OR IGNORE\<close>, \<open>rows_affected\<close> guards and unique constraints the code relies
  on are written out.  The orchestrator acts on a \<open>world\<close>: the database and a log of the envelopes handed to the venue,
  which is not in the program and serves to state what was submitted.  The venue, the balance reader, the trade history and the
  envelope factory are records of functions, so every theorem holds for whatever they answer.  Clocks are inputs; so are
  the database faults where the code retries on them.  The stream is a list of the inputs its \<open>select!\<close> sees.
  Decimals are rational numbers, kept as text in the tables as the program does; the limits of the 96-bit
  mantissa of the decimal package are not modelled, and a decimal that an error text prints loses its trailing zeros.
  Division is a parameter, since the package rounds it.  Hashes and lane counts are machine words; the
  timestamps of the feeds are checked at 64 bits.

  \<^bold>\<open>What is shown.\<close>
  \<^item> Configuration: a configuration that is applied is what the tables hold, applying it twice is applying it once,
    stored policies are well typed, and the wallet of an account that has worked is locked.
  \<^item> Ingestion refines an abstract book of fills; two observations are one fill exactly when they describe the same one; the audit
    never makes a fill executable; a backfill is complete or writes nothing; an open connection is alive; the
    reconnection delays and the gate.
  \<^item> Planning is complete and at most once per event and account, over every interleaving of deliveries and planning.
  \<^item> Sizing never reserves more than the strict balances, prices stay in the policy's band, the two search loops
    terminate with the greatest admissible value.
  \<^item> Booking moves a lot by exactly the newly confirmed fill; over every run, lots are the sums of the booked fills.
  \<^item> The rolling budget holds in every window; a reservation is made under exactly the stated conditions, with the
    submitting mark, and a refused one commits nothing; an open fuse or case stops submission.
  \<^item> The history matchers equal reference definitions; the operator's resolutions refund only on evidence and book what was
    recovered.
  \<^item> The signed order rebuilt from a persisted attempt is the order that was signed, under the persisted order id.
    A proof that a resting order was not filled is right as soon as one of the asked nodes is honest; the search for
    its block range ends on the first block at a time; and the operator command that uses the proof refunds nothing that was filled.
  \<^item> Engine: over every sequence of all these operations, for whatever the venue answers, at most one attempt of
    an intent is not known to be rejected, every submission is the persisted envelope of an attempt marked
    before and covered by a live reservation, and no attempt is submitted twice.
  \<^item> Runner: the program is a run of that engine; the loop goes on only after a clean outcome, otherwise it opens the fuse and
    no later start passes while it is open; a tick starts at most one intent, of an allowed leader and under the permitted cap.
  \<^item> Operator tool: every command is a sequence of steps of the engine and submits nothing, most are refused while an engine holds
    the lock, and every resolution it reports is backed by the evidence the command itself looked up.
  \<^item> Adapter: a history read is whole or an error, the allowance is the least reported one, and under systemd the secrets
    come from the credential file alone.

  \<^bold>\<open>Bounds and fuel.\<close>  There is no fuel: every loop of the code is recursion on a list, on a measure, or on the page offset
  (\<open>fetch_pages\<close>, at most twenty-one pages); the SDK's page loop, which the venue may never end, is a \<open>partial_function\<close>.  Endless loops (the runner, the connection manager, the audit worker) are functions of the finite list
  of what has happened so far.  Characters are code points up to 255.

  \<^bold>\<open>Not modelled.\<close>  The SDK under \<open>src/vendor\<close> but for the signed order, its text and the page loop, sockets and HTTP; connection options and migrations
  (\<open>copytrading/db.rs\<close>); the operator panel, dashboard, control tower, latency
  report, canary and ghost probes and the other command-line programs, which read the state and print, or call the operations
  above.  Two runs of the engine on one database do not occur: the lock (\<open>second_runner_refused\<close>) excludes them.
\<close>

end
